(* ===== verification/Prelude.thy ===== *)
theory Prelude
  imports Main "HOL-Library.Sublist"
begin

text \<open>
  Shared vocabulary of the development: the JavaScript string and collection
  operations the sources use, as executable functions, with the laws the component
  theories rely on.

  A JavaScript string is modelled by \<open>string\<close> (a list of \<open>char\<close>): one
  \<open>char\<close> is one UTF-16 code unit, restricted to the code units 0 to 255.
  White space and lower case are therefore those of that range.
  A missing value (\<open>null\<close> or \<open>undefined\<close>) is \<open>None\<close>.
\<close>

named_theorems js_defs \<open>definitions of the JavaScript helper operations\<close>
named_theorems inv_intros \<open>introduction rules for component invariants\<close>

section \<open>Definitions\<close>

subsection \<open>Strings\<close>

fun split_on :: "char \<Rightarrow> string \<Rightarrow> string list" where
  "split_on c [] = [[]]"
| "split_on c (x # xs) =
     (if x = c then [] # split_on c xs
      else (case split_on c xs of [] \<Rightarrow> [[x]] | y # ys \<Rightarrow> (x # y) # ys))"

fun join_with :: "string \<Rightarrow> string list \<Rightarrow> string" where
  "join_with sep [] = []"
| "join_with sep [x] = x"
| "join_with sep (x # y # ys) = x @ sep @ join_with sep (y # ys)"

definition starts_with :: "string \<Rightarrow> string \<Rightarrow> bool" where
  "starts_with p s \<longleftrightarrow> take (length p) s = p"

definition slice_from :: "nat \<Rightarrow> string \<Rightarrow> string" where
  "slice_from n s = drop n s"

text \<open>White space of the code units below 256, as \<open>trim\<close> and \<open>\s\<close> see it.\<close>

definition js_space :: "char \<Rightarrow> bool" where
  "js_space ch \<longleftrightarrow> (of_char ch :: nat) \<in> set [9, 10, 11, 12, 13, 32, 160]"

definition js_trim :: "string \<Rightarrow> string" where
  "js_trim s = rev (dropWhile js_space (rev (dropWhile js_space s)))"

definition js_lower_char :: "char \<Rightarrow> char" where
  "js_lower_char ch =
     (let n = (of_char ch :: nat)
      in if (65 \<le> n \<and> n \<le> 90) \<or> (192 \<le> n \<and> n \<le> 222 \<and> n \<noteq> 215) then char_of (n + 32) else ch)"

definition js_lower :: "string \<Rightarrow> string" where
  "js_lower s = map js_lower_char s"

subsection \<open>Array reads\<close>

text \<open>Reading past the end of a JavaScript array gives \<open>undefined\<close>.\<close>

definition js_at :: "'a list \<Rightarrow> nat \<Rightarrow> 'a option" where
  "js_at xs i = (if i < length xs then Some (xs ! i) else None)"

text \<open>The operator \<open>??\<close>.\<close>

fun or_default :: "'a option \<Rightarrow> 'a \<Rightarrow> 'a" where
  "or_default None d = d"
| "or_default (Some x) d = x"

subsection \<open>Optional strings\<close>

text \<open>The JavaScript truth value of a string that may be missing: present and not empty.\<close>

fun truthy :: "string option \<Rightarrow> bool" where
  "truthy None = False"
| "truthy (Some s) = (s \<noteq> [])"

subsection \<open>Insertion-ordered sets and first-wins de-duplication\<close>

text \<open>
  The loop \<open>if (seen.has(key)) continue; seen.add(key); out.push(x)\<close>: keep the first
  element of each key, in order. With the identity key it is \<open>[...new Set(xs)]\<close>.
\<close>

fun dedup_by :: "('a \<Rightarrow> 'k) \<Rightarrow> 'k list \<Rightarrow> 'a list \<Rightarrow> 'a list" where
  "dedup_by key seen [] = []"
| "dedup_by key seen (x # xs) =
     (if key x \<in> set seen then dedup_by key seen xs
      else x # dedup_by key (key x # seen) xs)"

definition js_set :: "'a list \<Rightarrow> 'a list" where
  "js_set xs = dedup_by (\<lambda>x. x) [] xs"

subsection \<open>JSON values\<close>

text \<open>The values a JSON column or an untyped object field may hold; numbers are integers here.\<close>

datatype json = JNull | JBool bool | JNum int | JStr string | JArr "json list" | JObj "(string \<times> json) list"

text \<open>Reading a property of an object: a missing one is \<open>undefined\<close>.\<close>

definition prop_of :: "(string \<times> json) list \<Rightarrow> string \<Rightarrow> json option" where
  "prop_of fields k = map_of fields k"

fun json_str :: "json option \<Rightarrow> string option" where
  "json_str (Some (JStr s)) = Some s"
| "json_str _ = None"

fun json_int :: "json option \<Rightarrow> int option" where
  "json_int (Some (JNum n)) = Some n"
| "json_int _ = None"

section \<open>Lemmas\<close>

lemma split_on_not_Nil [simp]: "split_on c s \<noteq> []"
  by (induction s) (auto split: list.splits)

lemma split_on_free: "t \<in> set (split_on c s) \<Longrightarrow> c \<notin> set t"
  by (induction s arbitrary: t) (auto split: list.splits if_splits)

lemma join_split [simp]: "join_with [c] (split_on c s) = s"
proof (induction s)
  case Nil
  then show ?case by simp
next
  case (Cons x xs)
  obtain y ys where yys: "split_on c xs = y # ys"
    by (cases "split_on c xs") auto
  with Cons.IH show ?case by (cases ys) auto
qed

lemma split_on_id [simp]: "c \<notin> set s \<Longrightarrow> split_on c s = [s]"
  by (induction s) auto

lemma split_on_append_sep [simp]: "c \<notin> set s \<Longrightarrow> split_on c (s @ c # t) = s # split_on c t"
  by (induction s) auto

lemma split_join:
  "ps \<noteq> [] \<Longrightarrow> \<forall>p\<in>set ps. c \<notin> set p \<Longrightarrow> split_on c (join_with [c] ps) = ps"
proof (induction "[c]" ps rule: join_with.induct)
  case 1
  then show ?case by simp
next
  case (2 x)
  then show ?case by simp
next
  case (3 x y ys)
  then show ?case by simp
qed

lemma length_split_on: "length (split_on c s) = Suc (count_list s c)"
  by (induction s) (auto split: list.splits)

lemma starts_with_iff_prefix: "starts_with p s \<longleftrightarrow> prefix p s"
  unfolding starts_with_def prefix_def by (metis append_eq_conv_conj append_take_drop_id)

lemma starts_with_append [simp]: "starts_with p (p @ s)"
  by (simp add: starts_with_def)

lemma js_at_Nil [simp]: "js_at [] i = None"
  by (simp add: js_at_def)

lemma js_at_Cons_0 [simp]: "js_at (x # xs) 0 = Some x"
  by (simp add: js_at_def)

lemma js_at_Cons_Suc [simp]: "js_at (x # xs) (Suc i) = js_at xs i"
  by (simp add: js_at_def)

lemma js_at_Cons_numeral [simp]:
  "js_at (x # xs) 1 = js_at xs 0"
  "js_at (x # xs) (numeral n) = js_at xs (pred_numeral n)"
  by (simp_all add: js_at_def numeral_eq_Suc)

lemma js_at_Some_set: "js_at xs i = Some x \<Longrightarrow> x \<in> set xs"
  by (auto simp: js_at_def split: if_splits)

lemma truthy_iff: "truthy x \<longleftrightarrow> (\<exists>s. x = Some s \<and> s \<noteq> [])"
  by (cases x) auto

lemma set_dedup_by_subset: "set (dedup_by key seen xs) \<subseteq> set xs"
  by (induction key seen xs rule: dedup_by.induct) auto

lemma dedup_by_seen_cong:
  "set seen = set seen' \<Longrightarrow> dedup_by key seen xs = dedup_by key seen' xs"
proof (induction xs arbitrary: seen seen')
  case Nil
  show ?case by simp
next
  case (Cons x xs)
  have "dedup_by key seen xs = dedup_by key seen' xs" using Cons.prems by (rule Cons.IH)
  moreover have "dedup_by key (key x # seen) xs = dedup_by key (key x # seen') xs"
    by (rule Cons.IH) (simp add: Cons.prems)
  ultimately show ?case using Cons.prems by simp
qed

lemma dedup_by_keys: "key ` set (dedup_by key seen xs) = key ` set xs - set seen"
  by (induction key seen xs rule: dedup_by.induct) auto

lemma dedup_by_append:
  "dedup_by key seen (xs @ ys) =
     dedup_by key seen xs @ dedup_by key (seen @ map key (dedup_by key seen xs)) ys"
proof (induction xs arbitrary: seen)
  case Nil
  show ?case by simp
next
  case (Cons x xs)
  have "dedup_by key (key x # seen @ map key (dedup_by key (key x # seen) xs)) ys
      = dedup_by key (seen @ key x # map key (dedup_by key (key x # seen) xs)) ys"
    by (rule dedup_by_seen_cong) auto
  with Cons.IH show ?case by simp
qed

lemma dedup_by_distinct: "distinct (map key (dedup_by key seen xs))"
proof (induction key seen xs rule: dedup_by.induct)
  case (1 key seen)
  then show ?case by simp
next
  case (2 key seen x xs)
  have "key x \<notin> key ` set (dedup_by key (key x # seen) xs)"
    by (simp add: dedup_by_keys)
  with 2 show ?case by auto
qed

text \<open>With a key that separates the listed elements, nothing is lost.\<close>

lemma set_dedup_by_inj:
  assumes "inj_on key (set xs)"
  shows "set (dedup_by key [] xs) = set xs"
proof
  show "set (dedup_by key [] xs) \<subseteq> set xs" by (rule set_dedup_by_subset)
  show "set xs \<subseteq> set (dedup_by key [] xs)"
  proof
    fix x
    assume x: "x \<in> set xs"
    then have "key x \<in> key ` set (dedup_by key [] xs)" by (simp add: dedup_by_keys)
    then obtain y where y: "y \<in> set (dedup_by key [] xs)" "key x = key y" by auto
    then have "y \<in> set xs" using set_dedup_by_subset [of key "[]" xs] by auto
    with assms x y show "x \<in> set (dedup_by key [] xs)" by (auto dest: inj_onD)
  qed
qed

lemma set_js_set [simp]: "set (js_set xs) = set xs"
  unfolding js_set_def by (rule set_dedup_by_inj) simp

lemma distinct_js_set [simp]: "distinct (js_set xs)"
  using dedup_by_distinct [of "\<lambda>x. x" "[]" xs] by (simp add: js_set_def)

text \<open>
  A key of the form \<open>a ++ sep ++ b\<close> separates pairs whose first part does not contain
  the separator.
\<close>

lemma sep_key_inj:
  assumes "c \<notin> set a" "c \<notin> set a'" "a @ c # b = a' @ c # b'"
  shows "a = a' \<and> b = b'"
  using assms
proof (induction a arbitrary: a')
  case Nil
  then show ?case by (cases a') auto
next
  case (Cons x a)
  then show ?case by (cases a') auto
qed

lemma find_Some_iff_first:
  "List.find P xs = Some x \<Longrightarrow> x \<in> set xs \<and> P x"
  by (auto simp: find_Some_iff in_set_conv_nth)

lemma find_None_all: "List.find P xs = None \<longleftrightarrow> (\<forall>x\<in>set xs. \<not> P x)"
  by (auto simp: find_None_iff)

lemma map_single: "map f xs = [y] \<Longrightarrow> \<exists>x. xs = [x] \<and> f x = y"
  by auto

lemma map_option_SomeD: "map_option f x = Some y \<Longrightarrow> \<exists>z. x = Some z \<and> f z = y"
  by auto

section \<open>Transition systems\<close>

text \<open>
  The interface of a component whose state changes by steps: an invariant that the initial
  states have and every step keeps. Components interpret it with their own step relation.
\<close>

locale step_system =
  fixes init :: "'s \<Rightarrow> bool" and step :: "'s \<Rightarrow> 's \<Rightarrow> bool" and inv :: "'s \<Rightarrow> bool"
  assumes init_inv: "init s \<Longrightarrow> inv s"
    and step_inv: "inv s \<Longrightarrow> step s t \<Longrightarrow> inv t"
begin

lemma steps_inv: "step\<^sup>*\<^sup>* s t \<Longrightarrow> inv s \<Longrightarrow> inv t"
  by (induction rule: rtranclp_induct) (auto intro: step_inv)

lemma reachable_inv: "init s \<Longrightarrow> step\<^sup>*\<^sup>* s t \<Longrightarrow> inv t"
  using init_inv steps_inv by blast

end

end
