(* ===== verification/Rbac_Scope.thy ===== *)
theory Rbac_Scope
  imports Prelude
begin

text \<open>
  The permission scope grammar \<open>kind[:attribute[:identifier]]\<close> and its coverage
  check (\<open>common/src/rbac/scope.ts\<close>, with \<open>parseScope\<close> of
  \<open>common/src/models/rbac.ts\<close>), and the approval scopes built on it.

  Results: coverage is the segment-wise order with \<open>*\<close> on top, hence a preorder
  whose top elements are the unrestricted scopes; parsing inverts \<open>buildScope\<close>; the
  candidate scopes of an approval row are never the wildcard; and a well-formed approval
  grant covers a row exactly when the row has the connector, namespace, team or id the
  grant names.
\<close>

section \<open>Definitions\<close>

record ParsedScope =
  ps_kind :: string
  ps_attribute :: string
  ps_identifier :: string

definition parseScope :: "string \<Rightarrow> ParsedScope" where
  "parseScope scope =
     (if scope = [] then \<lparr>ps_kind = ''*'', ps_attribute = ''*'', ps_identifier = ''*''\<rparr>
      else let parts = split_on CHR '':'' scope
           in \<lparr>ps_kind = or_default (js_at parts 0) ''*'',
               ps_attribute = or_default (js_at parts 1) ''*'',
               ps_identifier =
                 (if 3 \<le> length parts then join_with '':'' (drop 2 parts) else ''*'')\<rparr>)"

definition SCOPE_KINDS :: "string list" where
  "SCOPE_KINDS =
     [''dashboards'', ''folders'', ''datasources'', ''users'', ''teams'',
      ''serviceaccounts'', ''orgs'', ''roles'', ''alert.rules'', ''alert.notifications'',
      ''alert.instances'', ''alert.silences'', ''alert.provisioning'', ''annotations'',
      ''server'', ''apikeys'', ''investigations'', ''approvals'', ''chat'',
      ''agents.config'', ''connectors'']"

definition buildScope :: "string \<Rightarrow> string option \<Rightarrow> string option \<Rightarrow> string" where
  "buildScope kind attribute identifier =
     kind @ '':'' @ or_default attribute ''*'' @ '':'' @ or_default identifier ''*''"

definition segMatches :: "string \<Rightarrow> string \<Rightarrow> bool" where
  "segMatches parentSeg childSeg \<longleftrightarrow> parentSeg = ''*'' \<or> parentSeg = childSeg"

definition scopeCovers :: "string \<Rightarrow> string \<Rightarrow> bool" where
  "scopeCovers parent child =
     (if parent = [] \<or> parent = ''*'' then True
      else if parent = child then True
      else let p = parseScope parent; c = parseScope child
           in segMatches (ps_kind p) (ps_kind c)
              \<and> segMatches (ps_attribute p) (ps_attribute c)
              \<and> segMatches (ps_identifier p) (ps_identifier c))"

definition normalizeScope :: "string option \<Rightarrow> string" where
  "normalizeScope scope = (case scope of None \<Rightarrow> [] | Some s \<Rightarrow> s)"

datatype ApprovalScope =
    ScWildcard
  | ScUid string
  | ScConnector string
  | ScNamespace string string
  | ScTeam string

definition parseApprovalScope :: "string \<Rightarrow> ApprovalScope option" where
  "parseApprovalScope scope =
     (if scope = ''approvals:*'' \<or> scope = ''approvals:*:*'' then Some ScWildcard
      else
        let parts = split_on CHR '':'' scope; attr = js_at parts 1 in
        if js_at parts 0 \<noteq> Some ''approvals'' then None
        else if attr = Some ''uid'' then
          (if length parts \<noteq> 3 then None
           else if \<not> truthy (js_at parts 2) then None
           else Some (ScUid (parts ! 2)))
        else if attr = Some ''connector'' then
          (if length parts \<noteq> 3 then None
           else if \<not> truthy (js_at parts 2) then None
           else Some (ScConnector (parts ! 2)))
        else if attr = Some ''namespace'' then
          (if length parts \<noteq> 4 then None
           else if \<not> truthy (js_at parts 2) \<or> \<not> truthy (js_at parts 3) then None
           else Some (ScNamespace (parts ! 2) (parts ! 3)))
        else if attr = Some ''team'' then
          (if length parts \<noteq> 3 then None
           else if \<not> truthy (js_at parts 2) then None
           else Some (ScTeam (parts ! 2)))
        else None)"

definition isValidApprovalScope :: "string \<Rightarrow> bool" where
  "isValidApprovalScope scope \<longleftrightarrow> parseApprovalScope scope \<noteq> None"

record ApprovalRow =
  row_id :: string
  row_opsConnectorId :: "string option"
  row_targetNamespace :: "string option"
  row_requesterTeamId :: "string option"

definition approvalRowScopes :: "ApprovalRow \<Rightarrow> string list" where
  "approvalRowScopes row =
     [''approvals:uid:'' @ row_id row]
     @ (if truthy (row_opsConnectorId row)
        then [''approvals:connector:'' @ the (row_opsConnectorId row)]
             @ (if truthy (row_targetNamespace row)
                then [''approvals:namespace:'' @ the (row_opsConnectorId row) @ '':''
                      @ the (row_targetNamespace row)]
                else [])
        else [])
     @ (if truthy (row_requesterTeamId row)
        then [''approvals:team:'' @ the (row_requesterTeamId row)] else [])"

subsection \<open>Specification of an approval grant\<close>

text \<open>Which rows a typed approval scope is meant to reach.\<close>

fun approvalScopeSelects :: "ApprovalScope \<Rightarrow> ApprovalRow \<Rightarrow> bool" where
  "approvalScopeSelects ScWildcard row = True"
| "approvalScopeSelects (ScUid i) row = (row_id row = i)"
| "approvalScopeSelects (ScConnector c) row = (row_opsConnectorId row = Some c)"
| "approvalScopeSelects (ScNamespace c n) row =
     (row_opsConnectorId row = Some c \<and> row_targetNamespace row = Some n)"
| "approvalScopeSelects (ScTeam t) row = (row_requesterTeamId row = Some t)"

text \<open>A grant whose identifier is the literal \<open>*\<close> (the code accepts it).\<close>

fun starIdentifier :: "ApprovalScope \<Rightarrow> bool" where
  "starIdentifier (ScUid i) = (i = ''*'')"
| "starIdentifier (ScConnector c) = (c = ''*'')"
| "starIdentifier (ScTeam t) = (t = ''*'')"
| "starIdentifier _ = False"

section \<open>Parsing\<close>

lemma segMatches_refl [simp]: "segMatches a a"
  by (simp add: segMatches_def)

lemma segMatches_trans: "segMatches a b \<Longrightarrow> segMatches b c \<Longrightarrow> segMatches a c"
  by (auto simp: segMatches_def)

lemma parseScope_parts:
  assumes "CHR '':'' \<notin> set k" "CHR '':'' \<notin> set a"
  shows "parseScope (k @ '':'' @ a @ '':'' @ i)
    = \<lparr>ps_kind = k, ps_attribute = a, ps_identifier = i\<rparr>"
proof -
  have "split_on CHR '':'' (k @ '':'' @ a @ '':'' @ i) = k # a # split_on CHR '':'' i"
    using assms by simp
  moreover have "3 \<le> length (k # a # split_on CHR '':'' i)"
    by (cases "split_on CHR '':'' i") auto
  ultimately show ?thesis
    by (simp add: parseScope_def Let_def del: split_on_append_sep)
qed

text \<open>The literal-free form: three segments determine coverage.\<close>

lemma scopeCovers_segments:
  "scopeCovers p c \<longleftrightarrow>
     segMatches (ps_kind (parseScope p)) (ps_kind (parseScope c))
     \<and> segMatches (ps_attribute (parseScope p)) (ps_attribute (parseScope c))
     \<and> segMatches (ps_identifier (parseScope p)) (ps_identifier (parseScope c))"
proof (cases "p = [] \<or> p = ''*''")
  case True
  then have "parseScope p = \<lparr>ps_kind = ''*'', ps_attribute = ''*'', ps_identifier = ''*''\<rparr>"
    by (auto simp: parseScope_def)
  with True show ?thesis by (auto simp: scopeCovers_def segMatches_def)
next
  case False
  then show ?thesis by (auto simp: scopeCovers_def Let_def)
qed

section \<open>Coverage as an interface\<close>

text \<open>
  What the evaluator needs of a coverage relation: it is a preorder and the unrestricted
  scope is above everything. The client lemmas speak of a list of grants.
\<close>

locale scope_coverage =
  fixes covers :: "string \<Rightarrow> string \<Rightarrow> bool"
  assumes covers_refl: "covers s s"
    and covers_trans: "covers p q \<Longrightarrow> covers q r \<Longrightarrow> covers p r"
    and covers_unrestricted: "covers [] s"
begin

text \<open>A list of grants that dominates another one covers whatever the other covers.\<close>

lemma dominated_some:
  assumes "\<forall>s\<in>set small. \<exists>b\<in>set big. covers b s"
    and "\<exists>s\<in>set small. covers s want"
  shows "\<exists>b\<in>set big. covers b want"
  using assms covers_trans by blast

lemma dominated_refl: "set small \<subseteq> set big \<Longrightarrow> \<forall>s\<in>set small. \<exists>b\<in>set big. covers b s"
  using covers_refl by blast

lemma unrestricted_dominates: "[] \<in> set big \<Longrightarrow> \<exists>b\<in>set big. covers b s"
  using covers_unrestricted by blast

end

interpretation sc: scope_coverage scopeCovers
proof unfold_locales
  show "scopeCovers s s" for s by (simp add: scopeCovers_segments)
  show "scopeCovers p q \<Longrightarrow> scopeCovers q r \<Longrightarrow> scopeCovers p r" for p q r
    unfolding scopeCovers_segments by (blast intro: segMatches_trans)
  show "scopeCovers [] s" for s by (simp add: scopeCovers_def)
qed

lemma parseScope_buildScope:
  assumes "CHR '':'' \<notin> set k" "CHR '':'' \<notin> set (or_default a ''*'')"
  shows "parseScope (buildScope k a i)
    = \<lparr>ps_kind = k, ps_attribute = or_default a ''*'', ps_identifier = or_default i ''*''\<rparr>"
  unfolding buildScope_def using parseScope_parts [OF assms] by simp

section \<open>Approval scopes\<close>

lemma parseScope_approvals:
  "CHR '':'' \<notin> set a \<Longrightarrow>
   parseScope (''approvals:'' @ a @ '':'' @ i)
     = \<lparr>ps_kind = ''approvals'', ps_attribute = a, ps_identifier = i\<rparr>"
  using parseScope_parts [of "''approvals''" a i] by simp

text \<open>Inversion of the parser: the shapes it accepts, one per constructor.\<close>

fun approvalScopeString :: "ApprovalScope \<Rightarrow> string" where
  "approvalScopeString ScWildcard = ''approvals:*''"
| "approvalScopeString (ScUid i) = ''approvals:uid:'' @ i"
| "approvalScopeString (ScConnector c) = ''approvals:connector:'' @ c"
| "approvalScopeString (ScNamespace c n) = ''approvals:namespace:'' @ c @ '':'' @ n"
| "approvalScopeString (ScTeam t) = ''approvals:team:'' @ t"

fun colonFree :: "ApprovalScope \<Rightarrow> bool" where
  "colonFree ScWildcard = True"
| "colonFree (ScUid i) = (i \<noteq> [] \<and> CHR '':'' \<notin> set i)"
| "colonFree (ScConnector c) = (c \<noteq> [] \<and> CHR '':'' \<notin> set c)"
| "colonFree (ScNamespace c n) =
     (c \<noteq> [] \<and> n \<noteq> [] \<and> CHR '':'' \<notin> set c \<and> CHR '':'' \<notin> set n)"
| "colonFree (ScTeam t) = (t \<noteq> [] \<and> CHR '':'' \<notin> set t)"

lemma length_eq_3_conv: "length xs = 3 \<longleftrightarrow> (\<exists>a b c. xs = [a, b, c])"
  by (auto simp: numeral_eq_Suc length_Suc_conv)

lemma length_eq_4_conv: "length xs = 4 \<longleftrightarrow> (\<exists>a b c d. xs = [a, b, c, d])"
  by (auto simp: numeral_eq_Suc length_Suc_conv)

lemma split_on_3_D:
  assumes "split_on ch s = [a, b, c]"
  shows "s = a @ ch # b @ ch # c \<and> ch \<notin> set c"
proof
  show "s = a @ ch # b @ ch # c" using join_split [of ch s] assms by simp
  show "ch \<notin> set c" using split_on_free [of c ch s] assms by simp
qed

lemma split_on_4_D:
  assumes "split_on ch s = [a, b, c, d]"
  shows "s = a @ ch # b @ ch # c @ ch # d \<and> ch \<notin> set c \<and> ch \<notin> set d"
proof (intro conjI)
  show "s = a @ ch # b @ ch # c @ ch # d" using join_split [of ch s] assms by simp
  show "ch \<notin> set c" using split_on_free [of c ch s] assms by simp
  show "ch \<notin> set d" using split_on_free [of d ch s] assms by simp
qed

lemma parseApprovalScope_sound:
  assumes "parseApprovalScope g = Some sc" "sc \<noteq> ScWildcard"
  shows "g = approvalScopeString sc \<and> colonFree sc"
  using assms unfolding parseApprovalScope_def Let_def
  by (auto simp: length_eq_3_conv length_eq_4_conv truthy_iff
      split: if_splits dest!: split_on_3_D split_on_4_D)

lemma parseApprovalScope_wildcard:
  "parseApprovalScope g = Some ScWildcard \<longleftrightarrow> g = ''approvals:*'' \<or> g = ''approvals:*:*''"
  unfolding parseApprovalScope_def Let_def by (auto split: if_splits)

lemma parseApprovalScope_complete:
  "colonFree sc \<Longrightarrow> parseApprovalScope (approvalScopeString sc) = Some sc"
  by (cases sc) (simp_all add: parseApprovalScope_def Let_def js_at_def truthy_iff)

text \<open>The wildcard grant covers every scope of kind \<open>approvals\<close>.\<close>

lemma approvals_wildcard_covers:
  assumes "g = ''approvals:*'' \<or> g = ''approvals:*:*''" "ps_kind (parseScope c) = ''approvals''"
  shows "scopeCovers g c"
proof -
  have "parseScope g = \<lparr>ps_kind = ''approvals'', ps_attribute = ''*'', ps_identifier = ''*''\<rparr>"
    using assms(1) by (auto simp: parseScope_def)
  then show ?thesis using assms(2) by (simp add: scopeCovers_segments segMatches_def)
qed

lemma ns_pair_inj:
  assumes "CHR '':'' \<notin> set c" "CHR '':'' \<notin> set n" "c @ '':'' @ n = c' @ '':'' @ n'"
  shows "c' = c \<and> n' = n"
proof -
  have "split_on CHR '':'' (c @ '':'' @ n) = [c, n]" using assms(1,2) by simp
  then have "split_on CHR '':'' (c' @ '':'' @ n') = [c, n]" by (simp only: assms(3))
  then have "length (split_on CHR '':'' (c' @ '':'' @ n')) = 2" by simp
  then have "CHR '':'' \<notin> set c'"
    by (auto simp: length_split_on count_list_0_iff)
  with assms(1,3) show ?thesis using sep_key_inj [of "CHR '':''" c c' n n'] by auto
qed

text \<open>
  The candidate scopes of a row and coverage between approval scopes, over one folded shape
  so that the string literals stay out of the proofs.
\<close>

definition approvalShape :: "string \<Rightarrow> string \<Rightarrow> string" where
  "approvalShape a i = ''approvals:'' @ a @ '':'' @ i"

lemma approvalScopeString_shape:
  "approvalScopeString (ScUid i) = approvalShape ''uid'' i"
  "approvalScopeString (ScConnector c) = approvalShape ''connector'' c"
  "approvalScopeString (ScNamespace c n) = approvalShape ''namespace'' (c @ '':'' @ n)"
  "approvalScopeString (ScTeam t) = approvalShape ''team'' t"
  by (simp_all add: approvalShape_def)

lemma approval_row_members:
  "w \<in> set (approvalRowScopes row) \<longleftrightarrow>
     w = approvalShape ''uid'' (row_id row)
     \<or> (\<exists>c. row_opsConnectorId row = Some c \<and> c \<noteq> [] \<and> w = approvalShape ''connector'' c)
     \<or> (\<exists>c n. row_opsConnectorId row = Some c \<and> row_targetNamespace row = Some n \<and> c \<noteq> []
          \<and> n \<noteq> [] \<and> w = approvalShape ''namespace'' (c @ '':'' @ n))
     \<or> (\<exists>t. row_requesterTeamId row = Some t \<and> t \<noteq> [] \<and> w = approvalShape ''team'' t)"
  unfolding approvalRowScopes_def approvalShape_def
  by (cases "row_opsConnectorId row"; cases "row_targetNamespace row";
      cases "row_requesterTeamId row") auto

lemma parseScope_shape:
  "CHR '':'' \<notin> set a \<Longrightarrow>
   parseScope (approvalShape a i) = \<lparr>ps_kind = ''approvals'', ps_attribute = a, ps_identifier = i\<rparr>"
  unfolding approvalShape_def by (rule parseScope_approvals)

lemma covers_shape [simp]:
  assumes "CHR '':'' \<notin> set a" "CHR '':'' \<notin> set a'" "a \<noteq> ''*''" "i \<noteq> ''*''"
  shows "scopeCovers (approvalShape a i) (approvalShape a' i') \<longleftrightarrow> a = a' \<and> i = i'"
  using assms by (simp add: scopeCovers_segments parseScope_shape segMatches_def)

lemma shape_eq [simp]:
  assumes "CHR '':'' \<notin> set a" "CHR '':'' \<notin> set a'"
  shows "approvalShape a i = approvalShape a' i' \<longleftrightarrow> a = a' \<and> i = i'"
proof
  assume "approvalShape a i = approvalShape a' i'"
  then have "parseScope (approvalShape a i) = parseScope (approvalShape a' i')" by (rule arg_cong)
  then show "a = a' \<and> i = i'"
    unfolding parseScope_shape [OF assms(1)] parseScope_shape [OF assms(2)] by simp
qed simp

lemma shape_not_wildcard:
  assumes "CHR '':'' \<notin> set a" "a \<noteq> ''*''"
  shows "parseApprovalScope (approvalShape a i) \<noteq> Some ScWildcard"
proof
  assume "parseApprovalScope (approvalShape a i) = Some ScWildcard"
  then have "approvalShape a i = ''approvals:*'' \<or> approvalShape a i = ''approvals:*:*''"
    by (simp add: parseApprovalScope_wildcard)
  moreover have "ps_attribute (parseScope ''approvals:*'') = ''*''"
      "ps_attribute (parseScope ''approvals:*:*'') = ''*''"
    by code_simp+
  ultimately show False using assms parseScope_shape [OF assms(1), of i] by auto
qed

text \<open>A parsed candidate that is one of the typed shapes denotes exactly the parts it was built from.\<close>

lemma parsed_shape:
  assumes "parseApprovalScope (approvalShape a i) = Some sc" "CHR '':'' \<notin> set a" "a \<noteq> ''*''"
  shows "approvalShape a i = approvalScopeString sc \<and> colonFree sc"
  using assms parseApprovalScope_sound [OF assms(1)] shape_not_wildcard [of a i] by auto

text \<open>Coverage of a row by a well-formed grant is the typed selection.\<close>

lemma approval_grant:
  assumes "parseApprovalScope g = Some sc" "\<not> starIdentifier sc"
  shows "(\<exists>w\<in>set (approvalRowScopes row). scopeCovers g w) \<longleftrightarrow> approvalScopeSelects sc row"
proof (cases "sc = ScWildcard")
  case True
  then have "g = ''approvals:*'' \<or> g = ''approvals:*:*''"
    using assms(1) parseApprovalScope_wildcard by simp
  then have "scopeCovers g (approvalShape ''uid'' (row_id row))"
    by (rule approvals_wildcard_covers) (simp add: parseScope_shape)
  with True show ?thesis by (auto simp: approval_row_members)
next
  case False
  with assms(1) have g: "g = approvalScopeString sc" "colonFree sc"
    using parseApprovalScope_sound by blast+
  show ?thesis
  proof (cases sc)
    case (ScUid i)
    with g assms(2) show ?thesis
      by (auto simp: Bex_def approval_row_members approvalScopeString_shape simp del: approvalScopeString.simps)
  next
    case (ScConnector c)
    with g assms(2) show ?thesis
      by (auto simp: Bex_def approval_row_members approvalScopeString_shape simp del: approvalScopeString.simps)
  next
    case (ScNamespace c n)
    with g have *: "(c @ '':'' @ n = c' @ '':'' @ n') = (c' = c \<and> n' = n)" for c' n'
      using ns_pair_inj by auto
    have "c @ '':'' @ n \<noteq> ''*''" by (cases c) auto
    with ScNamespace g show ?thesis
      by (auto simp: Bex_def approval_row_members approvalScopeString_shape * [simplified]
          simp del: approvalScopeString.simps)
  next
    case (ScTeam t)
    with g assms(2) show ?thesis
      by (auto simp: Bex_def approval_row_members approvalScopeString_shape simp del: approvalScopeString.simps)
  qed (use False in simp)
qed

section \<open>Properties\<close>

text \<open>A permission scope covers a requested scope exactly when its three parsed segments
  are pairwise equal or the wildcard, so coverage is reflexive and transitive, the empty and
  the \<open>*\<close> scope cover everything, and a grant chain never loses coverage.\<close>

theorem scopeCovers_preorder:
  "(scopeCovers p c \<longleftrightarrow>
      segMatches (ps_kind (parseScope p)) (ps_kind (parseScope c))
      \<and> segMatches (ps_attribute (parseScope p)) (ps_attribute (parseScope c))
      \<and> segMatches (ps_identifier (parseScope p)) (ps_identifier (parseScope c)))
   \<and> scopeCovers p p \<and> scopeCovers [] c \<and> scopeCovers ''*'' c
   \<and> (scopeCovers p q \<and> scopeCovers q c \<longrightarrow> scopeCovers p c)"
proof (intro conjI impI)
  show "scopeCovers p c \<longleftrightarrow>
      segMatches (ps_kind (parseScope p)) (ps_kind (parseScope c))
      \<and> segMatches (ps_attribute (parseScope p)) (ps_attribute (parseScope c))
      \<and> segMatches (ps_identifier (parseScope p)) (ps_identifier (parseScope c))"
    by (rule scopeCovers_segments)
  show "scopeCovers p p" by (rule sc.covers_refl)
  show "scopeCovers [] c" by (rule sc.covers_unrestricted)
  show "scopeCovers ''*'' c" by (simp add: scopeCovers_def)
  show "scopeCovers p q \<and> scopeCovers q c \<Longrightarrow> scopeCovers p c" using sc.covers_trans by blast
qed

text \<open>Witness: a folder wildcard covers a concrete folder through the kind wildcard.\<close>

theorem scopeCovers_preorder_witness:
  "scopeCovers ''folders:*'' ''folders:uid:*'' \<and> scopeCovers ''folders:uid:*'' ''folders:uid:a''
   \<and> scopeCovers ''folders:*'' ''folders:uid:a'' \<and> \<not> scopeCovers ''folders:uid:a'' ''folders:*''"
proof -
  have h: "scopeCovers ''folders:*'' ''folders:uid:*''"
      "scopeCovers ''folders:uid:*'' ''folders:uid:a''"
      "\<not> scopeCovers ''folders:uid:a'' ''folders:*''"
    by code_simp+
  moreover have "scopeCovers ''folders:*'' ''folders:uid:a''"
    using scopeCovers_preorder [of "''folders:*''" "''folders:uid:a''" "''folders:uid:*''"] h
    by blast
  ultimately show ?thesis by blast
qed

text \<open>A well-formed approval grant covers one of a row's candidate scopes exactly when the
  row is one the typed grant is meant for (its id, connector, connector and namespace, or
  team), provided the grant's identifier is not a literal \<open>*\<close>. The row's own strings are
  arbitrary, colons included.\<close>

theorem approval_grant_selects:
  assumes "parseApprovalScope g = Some sc" "\<not> starIdentifier sc"
  shows "(\<exists>w\<in>set (approvalRowScopes row). scopeCovers g w) \<longleftrightarrow> approvalScopeSelects sc row"
  using assms by (rule approval_grant)

theorem approval_grant_selects_witness:
  "(\<exists>w\<in>set (approvalRowScopes \<lparr>row_id = ''r'', row_opsConnectorId = Some ''c'',
        row_targetNamespace = Some ''n'', row_requesterTeamId = None\<rparr>).
      scopeCovers ''approvals:namespace:c:n'' w)"
proof -
  have "parseApprovalScope ''approvals:namespace:c:n'' = Some (ScNamespace ''c'' ''n'')"
    by code_simp
  from approval_grant_selects [OF this] show ?thesis by simp
qed

text \<open>No candidate scope of an approval row parses to the wildcard, whatever the row's
  strings; every one is of kind \<open>approvals\<close>, and when it is well formed it denotes the row
  itself. A row cannot smuggle in a broader candidate.\<close>

theorem approval_rows_never_wildcard:
  assumes "w \<in> set (approvalRowScopes row)"
  shows "parseApprovalScope w \<noteq> Some ScWildcard \<and> ps_kind (parseScope w) = ''approvals''
     \<and> (\<forall>sc. parseApprovalScope w = Some sc \<longrightarrow> approvalScopeSelects sc row)"
proof -
  have shape: "\<exists>a i. w = approvalShape a i \<and> a \<in> {''uid'', ''connector'', ''namespace'', ''team''}"
    using assms by (auto simp: approval_row_members)
  then obtain a i where w: "w = approvalShape a i" and a: "CHR '':'' \<notin> set a" "a \<noteq> ''*''"
    by auto
  have "approvalScopeSelects sc row" if "parseApprovalScope w = Some sc" for sc
  proof -
    have "w = approvalScopeString sc" "colonFree sc" "sc \<noteq> ScWildcard"
      using that w a parsed_shape shape_not_wildcard by auto
    then show ?thesis
      using assms
      by (cases sc)
        (auto simp: approval_row_members approvalScopeString_shape
          simp del: approvalScopeString.simps append.simps dest: ns_pair_inj)
  qed
  then show ?thesis using w a shape_not_wildcard parseScope_shape by auto
qed

theorem approval_rows_never_wildcard_witness:
  "approvalScopeSelects (ScTeam ''t'') \<lparr>row_id = ''*'', row_opsConnectorId = None,
     row_targetNamespace = Some ''n'', row_requesterTeamId = Some ''t''\<rparr>
   \<and> parseApprovalScope ''approvals:uid:*'' \<noteq> Some ScWildcard"
proof -
  let ?row = "\<lparr>row_id = ''*'', row_opsConnectorId = None,
     row_targetNamespace = Some ''n'', row_requesterTeamId = Some ''t''\<rparr>"
  have m: "''approvals:team:t'' \<in> set (approvalRowScopes ?row)"
      "''approvals:uid:*'' \<in> set (approvalRowScopes ?row)"
      "parseApprovalScope ''approvals:team:t'' = Some (ScTeam ''t'')"
    by code_simp+
  show ?thesis
    using approval_rows_never_wildcard [OF m(1)] approval_rows_never_wildcard [OF m(2)] m(3) by blast
qed

text \<open>The parser accepts \<open>approvals:uid:*\<close> as a grant on the single approval whose id is
  \<open>*\<close>, yet the coverage check lets that grant reach every approval row: the literal star
  is a second, unintended spelling of the wildcard.\<close>

theorem approval_star_uid_reaches_all:
  "parseApprovalScope ''approvals:uid:*'' = Some (ScUid ''*'')
   \<and> (\<exists>w\<in>set (approvalRowScopes row). scopeCovers ''approvals:uid:*'' w)"
proof
  show "parseApprovalScope ''approvals:uid:*'' = Some (ScUid ''*'')" by code_simp
  have "parseScope ''approvals:uid:*'' =
      \<lparr>ps_kind = ''approvals'', ps_attribute = ''uid'', ps_identifier = ''*''\<rparr>"
    by code_simp
  then have "scopeCovers ''approvals:uid:*'' (approvalShape ''uid'' (row_id row))"
    by (simp add: scopeCovers_segments parseScope_shape segMatches_def)
  then show "\<exists>w\<in>set (approvalRowScopes row). scopeCovers ''approvals:uid:*'' w"
    by (auto simp: Bex_def approval_row_members)
qed

end
