(* ===== verification/Rbac_Evaluator.thy ===== *)
theory Rbac_Evaluator
  imports Rbac_Scope
begin

text \<open>
  The permission evaluator (\<open>common/src/rbac/evaluator.ts\<close>): atomic checks, their
  resolved form, and the \<open>all\<close> / \<open>any\<close> combinators. The four classes that implement the
  \<open>Evaluator\<close> interface are the four constructors of one datatype; the interface's three
  methods are functions on it.

  Results: permissions are only ever additive (a dominating permission list satisfies every
  check the dominated list satisfies), a resolver that keeps the literal scope only widens a
  check, resolving twice is resolving once, and the identity resolver changes nothing.
\<close>

section \<open>Definitions\<close>

record ResolvedPermission =
  rp_action :: string
  rp_scope :: string

datatype Evaluator =
    ActionEvaluator string "string list"
  | ResolvedActionEvaluator string "string list list"
  | AllEvaluator "Evaluator list"
  | AnyEvaluator "Evaluator list"

text \<open>The permissions that match an action.\<close>

definition matching :: "string \<Rightarrow> ResolvedPermission list \<Rightarrow> ResolvedPermission list" where
  "matching action permissions = filter (\<lambda>p. rp_action p = action) permissions"

fun evaluate :: "Evaluator \<Rightarrow> ResolvedPermission list \<Rightarrow> bool" where
  "evaluate (ActionEvaluator action scopes) permissions =
     (let m = matching action permissions in
      if length m = 0 then False
      else if length scopes = 0 then True
      else list_all (\<lambda>want. list_ex (\<lambda>p. scopeCovers (rp_scope p) want) m) scopes)"
| "evaluate (ResolvedActionEvaluator action resolvedScopes) permissions =
     (let m = matching action permissions in
      if length m = 0 then False
      else list_all (\<lambda>options. list_ex (\<lambda>want.
             list_ex (\<lambda>p. scopeCovers (rp_scope p) want) m) options) resolvedScopes)"
| "evaluate (AllEvaluator children) permissions =
     (if length children = 0 then True else list_all (\<lambda>c. evaluate c permissions) children)"
| "evaluate (AnyEvaluator children) permissions =
     (if length children = 0 then False else list_ex (\<lambda>c. evaluate c permissions) children)"

fun evaluator_string :: "Evaluator \<Rightarrow> string" where
  "evaluator_string (ActionEvaluator action scopes) =
     (if length scopes = 0 then action
      else action @ '' on '' @ join_with '', '' scopes)"
| "evaluator_string (ResolvedActionEvaluator action resolvedScopes) =
     action @ '' on '' @ join_with '', '' (map (join_with ''|'') resolvedScopes)"
| "evaluator_string (AllEvaluator children) =
     ''all('' @ join_with '', '' (map evaluator_string children) @ '')''"
| "evaluator_string (AnyEvaluator children) =
     ''any('' @ join_with '', '' (map evaluator_string children) @ '')''"

fun mutate :: "(string \<Rightarrow> string list) \<Rightarrow> Evaluator \<Rightarrow> Evaluator" where
  "mutate resolveScope (ActionEvaluator action scopes) =
     (if length scopes = 0 then ActionEvaluator action scopes
      else ResolvedActionEvaluator action (map resolveScope scopes))"
| "mutate resolveScope (ResolvedActionEvaluator action resolvedScopes) =
     ResolvedActionEvaluator action resolvedScopes"
| "mutate resolveScope (AllEvaluator children) = AllEvaluator (map (mutate resolveScope) children)"
| "mutate resolveScope (AnyEvaluator children) = AnyEvaluator (map (mutate resolveScope) children)"

text \<open>The builder \<open>ac\<close>: one scope, a list of scopes, or none.\<close>

datatype ScopeArg = NoScope | OneScope string | ManyScopes "string list"

fun ac_eval :: "string \<Rightarrow> ScopeArg \<Rightarrow> Evaluator" where
  "ac_eval action NoScope = ActionEvaluator action []"
| "ac_eval action (OneScope s) = ActionEvaluator action [s]"
| "ac_eval action (ManyScopes ss) = ActionEvaluator action ss"

definition ac_all :: "Evaluator list \<Rightarrow> Evaluator" where
  "ac_all evals = AllEvaluator evals"

definition ac_any :: "Evaluator list \<Rightarrow> Evaluator" where
  "ac_any evals = AnyEvaluator evals"

subsection \<open>Specification vocabulary\<close>

text \<open>
  One list of permissions dominates another: each permission of the dominated list is
  covered, for the same action, by some permission of the dominating one.
\<close>

definition dominates :: "ResolvedPermission list \<Rightarrow> ResolvedPermission list \<Rightarrow> bool" where
  "dominates big small \<longleftrightarrow>
     (\<forall>s\<in>set small. \<exists>b\<in>set big. rp_action b = rp_action s \<and> scopeCovers (rp_scope b) (rp_scope s))"

text \<open>An evaluator that no permission is needed for: nested empty conjunctions only.\<close>

fun vacuous :: "Evaluator \<Rightarrow> bool" where
  "vacuous (ActionEvaluator a ss) = False"
| "vacuous (ResolvedActionEvaluator a ss) = False"
| "vacuous (AllEvaluator cs) = list_all vacuous cs"
| "vacuous (AnyEvaluator cs) = list_ex vacuous cs"

section \<open>Lemmas\<close>

text \<open>The defining equations without the length tests of the source.\<close>

lemma matching_empty [simp]: "matching a [] = []"
  by (simp add: matching_def)

lemma set_matching [simp]: "set (matching a ps) = {p \<in> set ps. rp_action p = a}"
  by (auto simp: matching_def)

lemma matching_Nil_iff: "matching a ps = [] \<longleftrightarrow> (\<forall>p\<in>set ps. rp_action p \<noteq> a)"
  by (auto simp: matching_def filter_empty_conv)

definition granted :: "ResolvedPermission list \<Rightarrow> string \<Rightarrow> string \<Rightarrow> bool" where
  "granted ps a want \<longleftrightarrow> (\<exists>p\<in>set ps. rp_action p = a \<and> scopeCovers (rp_scope p) want)"

definition holds_action :: "ResolvedPermission list \<Rightarrow> string \<Rightarrow> bool" where
  "holds_action ps a \<longleftrightarrow> (\<exists>p\<in>set ps. rp_action p = a)"

lemma granted_matching:
  "list_ex (\<lambda>p. scopeCovers (rp_scope p) w) (matching a ps) = granted ps a w"
  by (auto simp: list_ex_iff granted_def)

lemma holds_action_matching: "length (matching a ps) = 0 \<longleftrightarrow> \<not> holds_action ps a"
  by (simp add: matching_Nil_iff holds_action_def)

lemma evaluate_atoms:
  "evaluate (ActionEvaluator a ss) ps \<longleftrightarrow> holds_action ps a \<and> (\<forall>w\<in>set ss. granted ps a w)"
  "evaluate (ResolvedActionEvaluator a rs) ps \<longleftrightarrow>
     holds_action ps a \<and> (\<forall>os\<in>set rs. \<exists>w\<in>set os. granted ps a w)"
  unfolding evaluate.simps Let_def granted_matching holds_action_matching
  by (auto simp: list_all_iff list_ex_iff)

lemma evaluate_composites:
  "evaluate (AllEvaluator cs) ps \<longleftrightarrow> (\<forall>c\<in>set cs. evaluate c ps)"
  "evaluate (AnyEvaluator cs) ps \<longleftrightarrow> (\<exists>c\<in>set cs. evaluate c ps)"
  by (auto simp: list_all_iff list_ex_iff)

lemmas evaluate_iff = evaluate_atoms evaluate_composites

declare evaluate.simps [simp del]

lemma granted_mono: "dominates big small \<Longrightarrow> granted small a w \<Longrightarrow> granted big a w"
proof -
  assume dom: "dominates big small" and "granted small a w"
  then obtain p where p: "p \<in> set small" "rp_action p = a" "scopeCovers (rp_scope p) w"
    by (auto simp: granted_def)
  with dom obtain b where "b \<in> set big" "rp_action b = a" "scopeCovers (rp_scope b) (rp_scope p)"
    by (auto simp: dominates_def)
  with p(3) show ?thesis using sc.covers_trans by (auto simp: granted_def)
qed

lemma holds_action_mono: "dominates big small \<Longrightarrow> holds_action small a \<Longrightarrow> holds_action big a"
  unfolding dominates_def holds_action_def by metis

lemma dominates_refl_subset: "set small \<subseteq> set big \<Longrightarrow> dominates big small"
  unfolding dominates_def using sc.covers_refl by blast

lemma evaluate_mono:
  "dominates big small \<Longrightarrow> evaluate e small \<Longrightarrow> evaluate e big"
  by (induction e)
    (fastforce simp: evaluate_iff intro: granted_mono holds_action_mono)+

section \<open>Resolution as an interface\<close>

text \<open>
  What a scope resolver promises its caller: the scope that was asked for is among the
  scopes it returns. Everything the evaluator relies on follows.
\<close>

locale scope_resolver =
  fixes resolve :: "string \<Rightarrow> string list"
  assumes keeps_literal: "s \<in> set (resolve s)"
begin

lemma resolve_widens: "evaluate e ps \<Longrightarrow> evaluate (mutate resolve e) ps"
proof (induction e)
  case (ActionEvaluator a ss)
  then show ?case using keeps_literal by (auto simp: evaluate_iff)
qed (auto simp: evaluate_iff)

lemma resolve_only_listed:
  "evaluate (mutate resolve (ActionEvaluator a [s])) ps \<longleftrightarrow> (\<exists>w\<in>set (resolve s). granted ps a w)"
  by (auto simp: evaluate_iff granted_def holds_action_def)

end

interpretation literal: scope_resolver "\<lambda>s. [s]"
  by unfold_locales simp

lemma mutate_mutate [simp]: "mutate r' (mutate r e) = mutate r e"
  by (induction e) auto

lemma mutate_cong:
  assumes "\<And>s. s \<in> set ss \<Longrightarrow> r s = r' s"
  shows "mutate r (ActionEvaluator a ss) = mutate r' (ActionEvaluator a ss)"
  using assms by simp

lemma evaluate_mutate_literal: "evaluate (mutate (\<lambda>s. [s]) e) ps = evaluate e ps"
  by (induction e) (auto simp: evaluate_iff)

lemma evaluate_no_permissions: "evaluate e [] = vacuous e"
  by (induction e) (auto simp: evaluate_iff list_all_iff list_ex_iff holds_action_def)

section \<open>Properties\<close>

text \<open>Permissions are additive. If every permission of one list is covered, for the same
  action, by a permission of another list, every check (any nesting of atoms, resolved atoms,
  conjunctions and disjunctions) that passes with the first list passes with the second.\<close>

theorem evaluate_monotone:
  assumes "dominates big small" "evaluate e small"
  shows "evaluate e big"
  using assms by (rule evaluate_mono)

theorem evaluate_monotone_witness:
  "evaluate (AllEvaluator [ActionEvaluator ''dashboards:read'' [''dashboards:uid:x''],
      AnyEvaluator [ActionEvaluator ''folders:read'' []]])
    [\<lparr>rp_action = ''folders:read'', rp_scope = []\<rparr>,
     \<lparr>rp_action = ''dashboards:read'', rp_scope = ''dashboards:*''\<rparr>]"
proof (rule evaluate_monotone)
  let ?small = "[\<lparr>rp_action = ''folders:read'', rp_scope = ''folders:uid:f''\<rparr>,
     \<lparr>rp_action = ''dashboards:read'', rp_scope = ''dashboards:uid:x''\<rparr>]"
  have "scopeCovers ''dashboards:*'' ''dashboards:uid:x''" by code_simp
  then show "dominates [\<lparr>rp_action = ''folders:read'', rp_scope = []\<rparr>,
     \<lparr>rp_action = ''dashboards:read'', rp_scope = ''dashboards:*''\<rparr>] ?small"
    by (simp add: dominates_def sc.covers_unrestricted)
  show "evaluate (AllEvaluator [ActionEvaluator ''dashboards:read'' [''dashboards:uid:x''],
      AnyEvaluator [ActionEvaluator ''folders:read'' []]]) ?small"
    by (simp add: evaluate_iff granted_def holds_action_def sc.covers_refl)
qed

text \<open>Resolution is conservative and idempotent. A resolver that returns the literal scope
  among its alternatives never turns a passing check into a failing one, re-resolving an
  already resolved check changes nothing, and resolving by the literal scope alone is the
  unresolved check.\<close>

theorem mutate_conservative:
  assumes "\<And>s. s \<in> set (resolve s)"
  shows "(evaluate e ps \<longrightarrow> evaluate (mutate resolve e) ps)
    \<and> mutate other (mutate resolve e) = mutate resolve e
    \<and> evaluate (mutate (\<lambda>s. [s]) e) ps = evaluate e ps"
proof -
  have "scope_resolver resolve" by unfold_locales (rule assms)
  then show ?thesis
    using scope_resolver.resolve_widens evaluate_mutate_literal by auto
qed

theorem mutate_conservative_witness:
  "evaluate (mutate (\<lambda>s. [s, ''folders:*'']) (ActionEvaluator ''dashboards:read'' [''dashboards:uid:x'']))
     [\<lparr>rp_action = ''dashboards:read'', rp_scope = ''dashboards:uid:x''\<rparr>]"
proof -
  have "evaluate (ActionEvaluator ''dashboards:read'' [''dashboards:uid:x''])
     [\<lparr>rp_action = ''dashboards:read'', rp_scope = ''dashboards:uid:x''\<rparr>]"
    by (simp add: evaluate_iff granted_def holds_action_def sc.covers_refl)
  then show ?thesis
    using mutate_conservative [of "\<lambda>s. [s, ''folders:*'']"
        "ActionEvaluator ''dashboards:read'' [''dashboards:uid:x'']"] by simp
qed

text \<open>The evaluator fails closed. With no permissions at all, exactly the checks built from
  empty conjunctions pass; every check that mentions an action, alone or inside \<open>any\<close>, is
  refused.\<close>

theorem evaluate_fail_closed:
  "evaluate e [] = vacuous e \<and> \<not> evaluate (ac_eval a arg) [] \<and> \<not> evaluate (ac_any []) ps"
  by (cases arg) (simp_all add: evaluate_no_permissions ac_any_def evaluate_iff holds_action_def)

end
