(* ===== verification/Rbac_Actions.thy ===== *)
theory Rbac_Actions
  imports Rbac_Evaluator
begin

text \<open>
  The action catalog (\<open>common/src/rbac/actions.ts\<close>). Each property of the object
  \<open>ACTIONS\<close> is a constant, the object itself is the association list of its keys and
  values in source order, and \<open>ALL_ACTIONS\<close> lists the values.
\<close>

section \<open>Definitions\<close>

definition ACTIONS_DashboardsRead :: string where
  "ACTIONS_DashboardsRead = ''dashboards:read''"

definition ACTIONS_DashboardsWrite :: string where
  "ACTIONS_DashboardsWrite = ''dashboards:write''"

definition ACTIONS_DashboardsCreate :: string where
  "ACTIONS_DashboardsCreate = ''dashboards:create''"

definition ACTIONS_DashboardsDelete :: string where
  "ACTIONS_DashboardsDelete = ''dashboards:delete''"

definition ACTIONS_DashboardsPermissionsRead :: string where
  "ACTIONS_DashboardsPermissionsRead = ''dashboards.permissions:read''"

definition ACTIONS_DashboardsPermissionsWrite :: string where
  "ACTIONS_DashboardsPermissionsWrite = ''dashboards.permissions:write''"

definition ACTIONS_FoldersRead :: string where
  "ACTIONS_FoldersRead = ''folders:read''"

definition ACTIONS_FoldersWrite :: string where
  "ACTIONS_FoldersWrite = ''folders:write''"

definition ACTIONS_FoldersCreate :: string where
  "ACTIONS_FoldersCreate = ''folders:create''"

definition ACTIONS_FoldersDelete :: string where
  "ACTIONS_FoldersDelete = ''folders:delete''"

definition ACTIONS_FoldersPermissionsRead :: string where
  "ACTIONS_FoldersPermissionsRead = ''folders.permissions:read''"

definition ACTIONS_FoldersPermissionsWrite :: string where
  "ACTIONS_FoldersPermissionsWrite = ''folders.permissions:write''"

definition ACTIONS_ConnectorsRead :: string where
  "ACTIONS_ConnectorsRead = ''connectors:read''"

definition ACTIONS_ConnectorsWrite :: string where
  "ACTIONS_ConnectorsWrite = ''connectors:write''"

definition ACTIONS_ConnectorsCreate :: string where
  "ACTIONS_ConnectorsCreate = ''connectors:create''"

definition ACTIONS_ConnectorsDelete :: string where
  "ACTIONS_ConnectorsDelete = ''connectors:delete''"

definition ACTIONS_ConnectorsQuery :: string where
  "ACTIONS_ConnectorsQuery = ''connectors:query''"

definition ACTIONS_ConnectorsExplore :: string where
  "ACTIONS_ConnectorsExplore = ''connectors:explore''"

definition ACTIONS_ConnectorsIdRead :: string where
  "ACTIONS_ConnectorsIdRead = ''connectors.id:read''"

definition ACTIONS_ConnectorsPermissionsRead :: string where
  "ACTIONS_ConnectorsPermissionsRead = ''connectors.permissions:read''"

definition ACTIONS_ConnectorsPermissionsWrite :: string where
  "ACTIONS_ConnectorsPermissionsWrite = ''connectors.permissions:write''"

definition ACTIONS_ConnectorsTest :: string where
  "ACTIONS_ConnectorsTest = ''connectors:test''"

definition ACTIONS_AlertRulesRead :: string where
  "ACTIONS_AlertRulesRead = ''alert.rules:read''"

definition ACTIONS_AlertRulesWrite :: string where
  "ACTIONS_AlertRulesWrite = ''alert.rules:write''"

definition ACTIONS_AlertRulesCreate :: string where
  "ACTIONS_AlertRulesCreate = ''alert.rules:create''"

definition ACTIONS_AlertRulesDelete :: string where
  "ACTIONS_AlertRulesDelete = ''alert.rules:delete''"

definition ACTIONS_AlertRulesPermissionsRead :: string where
  "ACTIONS_AlertRulesPermissionsRead = ''alert.rules.permissions:read''"

definition ACTIONS_AlertRulesPermissionsWrite :: string where
  "ACTIONS_AlertRulesPermissionsWrite = ''alert.rules.permissions:write''"

definition ACTIONS_AlertNotificationsRead :: string where
  "ACTIONS_AlertNotificationsRead = ''alert.notifications:read''"

definition ACTIONS_AlertNotificationsWrite :: string where
  "ACTIONS_AlertNotificationsWrite = ''alert.notifications:write''"

definition ACTIONS_AlertInstancesRead :: string where
  "ACTIONS_AlertInstancesRead = ''alert.instances:read''"

definition ACTIONS_AlertInstancesExternalRead :: string where
  "ACTIONS_AlertInstancesExternalRead = ''alert.instances.external:read''"

definition ACTIONS_AlertInstancesExternalWrite :: string where
  "ACTIONS_AlertInstancesExternalWrite = ''alert.instances.external:write''"

definition ACTIONS_AlertSilencesRead :: string where
  "ACTIONS_AlertSilencesRead = ''alert.silences:read''"

definition ACTIONS_AlertSilencesCreate :: string where
  "ACTIONS_AlertSilencesCreate = ''alert.silences:create''"

definition ACTIONS_AlertSilencesWrite :: string where
  "ACTIONS_AlertSilencesWrite = ''alert.silences:write''"

definition ACTIONS_AlertProvisioningRead :: string where
  "ACTIONS_AlertProvisioningRead = ''alert.provisioning:read''"

definition ACTIONS_AlertProvisioningWrite :: string where
  "ACTIONS_AlertProvisioningWrite = ''alert.provisioning:write''"

definition ACTIONS_UsersRead :: string where
  "ACTIONS_UsersRead = ''users:read''"

definition ACTIONS_UsersWrite :: string where
  "ACTIONS_UsersWrite = ''users:write''"

definition ACTIONS_UsersCreate :: string where
  "ACTIONS_UsersCreate = ''users:create''"

definition ACTIONS_UsersDelete :: string where
  "ACTIONS_UsersDelete = ''users:delete''"

definition ACTIONS_UsersDisable :: string where
  "ACTIONS_UsersDisable = ''users:disable''"

definition ACTIONS_UsersAuthTokenRead :: string where
  "ACTIONS_UsersAuthTokenRead = ''users.authtoken:read''"

definition ACTIONS_UsersAuthTokenUpdate :: string where
  "ACTIONS_UsersAuthTokenUpdate = ''users.authtoken:update''"

definition ACTIONS_UsersPasswordUpdate :: string where
  "ACTIONS_UsersPasswordUpdate = ''users.password:update''"

definition ACTIONS_UsersPermissionsRead :: string where
  "ACTIONS_UsersPermissionsRead = ''users.permissions:read''"

definition ACTIONS_UsersPermissionsWrite :: string where
  "ACTIONS_UsersPermissionsWrite = ''users.permissions:write''"

definition ACTIONS_UsersQuotasList :: string where
  "ACTIONS_UsersQuotasList = ''users.quotas:list''"

definition ACTIONS_UsersQuotasUpdate :: string where
  "ACTIONS_UsersQuotasUpdate = ''users.quotas:update''"

definition ACTIONS_OrgUsersRead :: string where
  "ACTIONS_OrgUsersRead = ''org.users:read''"

definition ACTIONS_OrgUsersAdd :: string where
  "ACTIONS_OrgUsersAdd = ''org.users:add''"

definition ACTIONS_OrgUsersWrite :: string where
  "ACTIONS_OrgUsersWrite = ''org.users:write''"

definition ACTIONS_OrgUsersRemove :: string where
  "ACTIONS_OrgUsersRemove = ''org.users:remove''"

definition ACTIONS_OrgsRead :: string where
  "ACTIONS_OrgsRead = ''orgs:read''"

definition ACTIONS_OrgsWrite :: string where
  "ACTIONS_OrgsWrite = ''orgs:write''"

definition ACTIONS_OrgsCreate :: string where
  "ACTIONS_OrgsCreate = ''orgs:create''"

definition ACTIONS_OrgsDelete :: string where
  "ACTIONS_OrgsDelete = ''orgs:delete''"

definition ACTIONS_OrgsPreferencesRead :: string where
  "ACTIONS_OrgsPreferencesRead = ''orgs.preferences:read''"

definition ACTIONS_OrgsPreferencesWrite :: string where
  "ACTIONS_OrgsPreferencesWrite = ''orgs.preferences:write''"

definition ACTIONS_OrgsQuotasRead :: string where
  "ACTIONS_OrgsQuotasRead = ''orgs.quotas:read''"

definition ACTIONS_OrgsQuotasWrite :: string where
  "ACTIONS_OrgsQuotasWrite = ''orgs.quotas:write''"

definition ACTIONS_TeamsRead :: string where
  "ACTIONS_TeamsRead = ''teams:read''"

definition ACTIONS_TeamsWrite :: string where
  "ACTIONS_TeamsWrite = ''teams:write''"

definition ACTIONS_TeamsCreate :: string where
  "ACTIONS_TeamsCreate = ''teams:create''"

definition ACTIONS_TeamsDelete :: string where
  "ACTIONS_TeamsDelete = ''teams:delete''"

definition ACTIONS_TeamsPermissionsRead :: string where
  "ACTIONS_TeamsPermissionsRead = ''teams.permissions:read''"

definition ACTIONS_TeamsPermissionsWrite :: string where
  "ACTIONS_TeamsPermissionsWrite = ''teams.permissions:write''"

definition ACTIONS_ServiceAccountsRead :: string where
  "ACTIONS_ServiceAccountsRead = ''serviceaccounts:read''"

definition ACTIONS_ServiceAccountsWrite :: string where
  "ACTIONS_ServiceAccountsWrite = ''serviceaccounts:write''"

definition ACTIONS_ServiceAccountsCreate :: string where
  "ACTIONS_ServiceAccountsCreate = ''serviceaccounts:create''"

definition ACTIONS_ServiceAccountsDelete :: string where
  "ACTIONS_ServiceAccountsDelete = ''serviceaccounts:delete''"

definition ACTIONS_ServiceAccountsPermissionsRead :: string where
  "ACTIONS_ServiceAccountsPermissionsRead = ''serviceaccounts.permissions:read''"

definition ACTIONS_ServiceAccountsPermissionsWrite :: string where
  "ACTIONS_ServiceAccountsPermissionsWrite = ''serviceaccounts.permissions:write''"

definition ACTIONS_ApiKeysRead :: string where
  "ACTIONS_ApiKeysRead = ''apikeys:read''"

definition ACTIONS_ApiKeysCreate :: string where
  "ACTIONS_ApiKeysCreate = ''apikeys:create''"

definition ACTIONS_ApiKeysDelete :: string where
  "ACTIONS_ApiKeysDelete = ''apikeys:delete''"

definition ACTIONS_RolesRead :: string where
  "ACTIONS_RolesRead = ''roles:read''"

definition ACTIONS_RolesWrite :: string where
  "ACTIONS_RolesWrite = ''roles:write''"

definition ACTIONS_RolesDelete :: string where
  "ACTIONS_RolesDelete = ''roles:delete''"

definition ACTIONS_ServerStatsRead :: string where
  "ACTIONS_ServerStatsRead = ''server.stats:read''"

definition ACTIONS_ServerUsageStatsReportRead :: string where
  "ACTIONS_ServerUsageStatsReportRead = ''server.usagestats.report:read''"

definition ACTIONS_AnnotationsRead :: string where
  "ACTIONS_AnnotationsRead = ''annotations:read''"

definition ACTIONS_AnnotationsWrite :: string where
  "ACTIONS_AnnotationsWrite = ''annotations:write''"

definition ACTIONS_AnnotationsCreate :: string where
  "ACTIONS_AnnotationsCreate = ''annotations:create''"

definition ACTIONS_AnnotationsDelete :: string where
  "ACTIONS_AnnotationsDelete = ''annotations:delete''"

definition ACTIONS_InvestigationsRead :: string where
  "ACTIONS_InvestigationsRead = ''investigations:read''"

definition ACTIONS_InvestigationsWrite :: string where
  "ACTIONS_InvestigationsWrite = ''investigations:write''"

definition ACTIONS_InvestigationsCreate :: string where
  "ACTIONS_InvestigationsCreate = ''investigations:create''"

definition ACTIONS_InvestigationsDelete :: string where
  "ACTIONS_InvestigationsDelete = ''investigations:delete''"

definition ACTIONS_ApprovalsRead :: string where
  "ACTIONS_ApprovalsRead = ''approvals:read''"

definition ACTIONS_ApprovalsApprove :: string where
  "ACTIONS_ApprovalsApprove = ''approvals:approve''"

definition ACTIONS_ApprovalsOverride :: string where
  "ACTIONS_ApprovalsOverride = ''approvals:override''"

definition ACTIONS_ChatUse :: string where
  "ACTIONS_ChatUse = ''chat:use''"

definition ACTIONS_AgentsConfigRead :: string where
  "ACTIONS_AgentsConfigRead = ''agents.config:read''"

definition ACTIONS_AgentsConfigWrite :: string where
  "ACTIONS_AgentsConfigWrite = ''agents.config:write''"

definition ACTIONS_OpsCommandsRun :: string where
  "ACTIONS_OpsCommandsRun = ''ops.commands:run''"

definition ACTIONS_PlansRead :: string where
  "ACTIONS_PlansRead = ''plans:read''"

definition ACTIONS_PlansApprove :: string where
  "ACTIONS_PlansApprove = ''plans:approve''"

definition ACTIONS_PlansAutoEdit :: string where
  "ACTIONS_PlansAutoEdit = ''plans:auto_edit''"

definition ACTIONS_InstanceConfigRead :: string where
  "ACTIONS_InstanceConfigRead = ''instance.config:read''"

definition ACTIONS_InstanceConfigWrite :: string where
  "ACTIONS_InstanceConfigWrite = ''instance.config:write''"

definition ACTIONS_KbRead :: string where
  "ACTIONS_KbRead = ''kb:read''"

definition ACTIONS_KbWrite :: string where
  "ACTIONS_KbWrite = ''kb:write''"

definition ACTIONS_KbAdmin :: string where
  "ACTIONS_KbAdmin = ''kb:admin''"

definition ACTIONS :: "(string \<times> string) list" where
  "ACTIONS =
     [(''DashboardsRead'', ACTIONS_DashboardsRead),
      (''DashboardsWrite'', ACTIONS_DashboardsWrite),
      (''DashboardsCreate'', ACTIONS_DashboardsCreate),
      (''DashboardsDelete'', ACTIONS_DashboardsDelete),
      (''DashboardsPermissionsRead'', ACTIONS_DashboardsPermissionsRead),
      (''DashboardsPermissionsWrite'', ACTIONS_DashboardsPermissionsWrite),
      (''FoldersRead'', ACTIONS_FoldersRead),
      (''FoldersWrite'', ACTIONS_FoldersWrite),
      (''FoldersCreate'', ACTIONS_FoldersCreate),
      (''FoldersDelete'', ACTIONS_FoldersDelete),
      (''FoldersPermissionsRead'', ACTIONS_FoldersPermissionsRead),
      (''FoldersPermissionsWrite'', ACTIONS_FoldersPermissionsWrite),
      (''ConnectorsRead'', ACTIONS_ConnectorsRead),
      (''ConnectorsWrite'', ACTIONS_ConnectorsWrite),
      (''ConnectorsCreate'', ACTIONS_ConnectorsCreate),
      (''ConnectorsDelete'', ACTIONS_ConnectorsDelete),
      (''ConnectorsQuery'', ACTIONS_ConnectorsQuery),
      (''ConnectorsExplore'', ACTIONS_ConnectorsExplore),
      (''ConnectorsIdRead'', ACTIONS_ConnectorsIdRead),
      (''ConnectorsPermissionsRead'', ACTIONS_ConnectorsPermissionsRead),
      (''ConnectorsPermissionsWrite'', ACTIONS_ConnectorsPermissionsWrite),
      (''ConnectorsTest'', ACTIONS_ConnectorsTest),
      (''AlertRulesRead'', ACTIONS_AlertRulesRead),
      (''AlertRulesWrite'', ACTIONS_AlertRulesWrite),
      (''AlertRulesCreate'', ACTIONS_AlertRulesCreate),
      (''AlertRulesDelete'', ACTIONS_AlertRulesDelete),
      (''AlertRulesPermissionsRead'', ACTIONS_AlertRulesPermissionsRead),
      (''AlertRulesPermissionsWrite'', ACTIONS_AlertRulesPermissionsWrite),
      (''AlertNotificationsRead'', ACTIONS_AlertNotificationsRead),
      (''AlertNotificationsWrite'', ACTIONS_AlertNotificationsWrite),
      (''AlertInstancesRead'', ACTIONS_AlertInstancesRead),
      (''AlertInstancesExternalRead'', ACTIONS_AlertInstancesExternalRead),
      (''AlertInstancesExternalWrite'', ACTIONS_AlertInstancesExternalWrite),
      (''AlertSilencesRead'', ACTIONS_AlertSilencesRead),
      (''AlertSilencesCreate'', ACTIONS_AlertSilencesCreate),
      (''AlertSilencesWrite'', ACTIONS_AlertSilencesWrite),
      (''AlertProvisioningRead'', ACTIONS_AlertProvisioningRead),
      (''AlertProvisioningWrite'', ACTIONS_AlertProvisioningWrite),
      (''UsersRead'', ACTIONS_UsersRead),
      (''UsersWrite'', ACTIONS_UsersWrite),
      (''UsersCreate'', ACTIONS_UsersCreate),
      (''UsersDelete'', ACTIONS_UsersDelete),
      (''UsersDisable'', ACTIONS_UsersDisable),
      (''UsersAuthTokenRead'', ACTIONS_UsersAuthTokenRead),
      (''UsersAuthTokenUpdate'', ACTIONS_UsersAuthTokenUpdate),
      (''UsersPasswordUpdate'', ACTIONS_UsersPasswordUpdate),
      (''UsersPermissionsRead'', ACTIONS_UsersPermissionsRead),
      (''UsersPermissionsWrite'', ACTIONS_UsersPermissionsWrite),
      (''UsersQuotasList'', ACTIONS_UsersQuotasList),
      (''UsersQuotasUpdate'', ACTIONS_UsersQuotasUpdate),
      (''OrgUsersRead'', ACTIONS_OrgUsersRead),
      (''OrgUsersAdd'', ACTIONS_OrgUsersAdd),
      (''OrgUsersWrite'', ACTIONS_OrgUsersWrite),
      (''OrgUsersRemove'', ACTIONS_OrgUsersRemove),
      (''OrgsRead'', ACTIONS_OrgsRead),
      (''OrgsWrite'', ACTIONS_OrgsWrite),
      (''OrgsCreate'', ACTIONS_OrgsCreate),
      (''OrgsDelete'', ACTIONS_OrgsDelete),
      (''OrgsPreferencesRead'', ACTIONS_OrgsPreferencesRead),
      (''OrgsPreferencesWrite'', ACTIONS_OrgsPreferencesWrite),
      (''OrgsQuotasRead'', ACTIONS_OrgsQuotasRead),
      (''OrgsQuotasWrite'', ACTIONS_OrgsQuotasWrite),
      (''TeamsRead'', ACTIONS_TeamsRead),
      (''TeamsWrite'', ACTIONS_TeamsWrite),
      (''TeamsCreate'', ACTIONS_TeamsCreate),
      (''TeamsDelete'', ACTIONS_TeamsDelete),
      (''TeamsPermissionsRead'', ACTIONS_TeamsPermissionsRead),
      (''TeamsPermissionsWrite'', ACTIONS_TeamsPermissionsWrite),
      (''ServiceAccountsRead'', ACTIONS_ServiceAccountsRead),
      (''ServiceAccountsWrite'', ACTIONS_ServiceAccountsWrite),
      (''ServiceAccountsCreate'', ACTIONS_ServiceAccountsCreate),
      (''ServiceAccountsDelete'', ACTIONS_ServiceAccountsDelete),
      (''ServiceAccountsPermissionsRead'', ACTIONS_ServiceAccountsPermissionsRead),
      (''ServiceAccountsPermissionsWrite'', ACTIONS_ServiceAccountsPermissionsWrite),
      (''ApiKeysRead'', ACTIONS_ApiKeysRead),
      (''ApiKeysCreate'', ACTIONS_ApiKeysCreate),
      (''ApiKeysDelete'', ACTIONS_ApiKeysDelete),
      (''RolesRead'', ACTIONS_RolesRead),
      (''RolesWrite'', ACTIONS_RolesWrite),
      (''RolesDelete'', ACTIONS_RolesDelete),
      (''ServerStatsRead'', ACTIONS_ServerStatsRead),
      (''ServerUsageStatsReportRead'', ACTIONS_ServerUsageStatsReportRead),
      (''AnnotationsRead'', ACTIONS_AnnotationsRead),
      (''AnnotationsWrite'', ACTIONS_AnnotationsWrite),
      (''AnnotationsCreate'', ACTIONS_AnnotationsCreate),
      (''AnnotationsDelete'', ACTIONS_AnnotationsDelete),
      (''InvestigationsRead'', ACTIONS_InvestigationsRead),
      (''InvestigationsWrite'', ACTIONS_InvestigationsWrite),
      (''InvestigationsCreate'', ACTIONS_InvestigationsCreate),
      (''InvestigationsDelete'', ACTIONS_InvestigationsDelete),
      (''ApprovalsRead'', ACTIONS_ApprovalsRead),
      (''ApprovalsApprove'', ACTIONS_ApprovalsApprove),
      (''ApprovalsOverride'', ACTIONS_ApprovalsOverride),
      (''ChatUse'', ACTIONS_ChatUse),
      (''AgentsConfigRead'', ACTIONS_AgentsConfigRead),
      (''AgentsConfigWrite'', ACTIONS_AgentsConfigWrite),
      (''OpsCommandsRun'', ACTIONS_OpsCommandsRun),
      (''PlansRead'', ACTIONS_PlansRead),
      (''PlansApprove'', ACTIONS_PlansApprove),
      (''PlansAutoEdit'', ACTIONS_PlansAutoEdit),
      (''InstanceConfigRead'', ACTIONS_InstanceConfigRead),
      (''InstanceConfigWrite'', ACTIONS_InstanceConfigWrite),
      (''KbRead'', ACTIONS_KbRead),
      (''KbWrite'', ACTIONS_KbWrite),
      (''KbAdmin'', ACTIONS_KbAdmin)]"

definition ALL_ACTIONS :: "string list" where
  "ALL_ACTIONS = map snd ACTIONS"

definition isKnownAction :: "string \<Rightarrow> bool" where
  "isKnownAction s \<longleftrightarrow> s \<in> set ALL_ACTIONS"

text \<open>The verb of an action string: what follows its last colon.\<close>

definition action_verb :: "string \<Rightarrow> string" where
  "action_verb a = last (split_on CHR '':'' a)"

lemmas action_defs =
  ACTIONS_DashboardsRead_def ACTIONS_DashboardsWrite_def ACTIONS_DashboardsCreate_def
  ACTIONS_DashboardsDelete_def ACTIONS_DashboardsPermissionsRead_def
  ACTIONS_DashboardsPermissionsWrite_def ACTIONS_FoldersRead_def ACTIONS_FoldersWrite_def
  ACTIONS_FoldersCreate_def ACTIONS_FoldersDelete_def ACTIONS_FoldersPermissionsRead_def
  ACTIONS_FoldersPermissionsWrite_def ACTIONS_ConnectorsRead_def
  ACTIONS_ConnectorsWrite_def ACTIONS_ConnectorsCreate_def ACTIONS_ConnectorsDelete_def
  ACTIONS_ConnectorsQuery_def ACTIONS_ConnectorsExplore_def ACTIONS_ConnectorsIdRead_def
  ACTIONS_ConnectorsPermissionsRead_def ACTIONS_ConnectorsPermissionsWrite_def
  ACTIONS_ConnectorsTest_def ACTIONS_AlertRulesRead_def ACTIONS_AlertRulesWrite_def
  ACTIONS_AlertRulesCreate_def ACTIONS_AlertRulesDelete_def
  ACTIONS_AlertRulesPermissionsRead_def ACTIONS_AlertRulesPermissionsWrite_def
  ACTIONS_AlertNotificationsRead_def ACTIONS_AlertNotificationsWrite_def
  ACTIONS_AlertInstancesRead_def ACTIONS_AlertInstancesExternalRead_def
  ACTIONS_AlertInstancesExternalWrite_def ACTIONS_AlertSilencesRead_def
  ACTIONS_AlertSilencesCreate_def ACTIONS_AlertSilencesWrite_def
  ACTIONS_AlertProvisioningRead_def ACTIONS_AlertProvisioningWrite_def
  ACTIONS_UsersRead_def ACTIONS_UsersWrite_def ACTIONS_UsersCreate_def
  ACTIONS_UsersDelete_def ACTIONS_UsersDisable_def ACTIONS_UsersAuthTokenRead_def
  ACTIONS_UsersAuthTokenUpdate_def ACTIONS_UsersPasswordUpdate_def
  ACTIONS_UsersPermissionsRead_def ACTIONS_UsersPermissionsWrite_def
  ACTIONS_UsersQuotasList_def ACTIONS_UsersQuotasUpdate_def ACTIONS_OrgUsersRead_def
  ACTIONS_OrgUsersAdd_def ACTIONS_OrgUsersWrite_def ACTIONS_OrgUsersRemove_def
  ACTIONS_OrgsRead_def ACTIONS_OrgsWrite_def ACTIONS_OrgsCreate_def
  ACTIONS_OrgsDelete_def ACTIONS_OrgsPreferencesRead_def ACTIONS_OrgsPreferencesWrite_def
  ACTIONS_OrgsQuotasRead_def ACTIONS_OrgsQuotasWrite_def ACTIONS_TeamsRead_def
  ACTIONS_TeamsWrite_def ACTIONS_TeamsCreate_def ACTIONS_TeamsDelete_def
  ACTIONS_TeamsPermissionsRead_def ACTIONS_TeamsPermissionsWrite_def
  ACTIONS_ServiceAccountsRead_def ACTIONS_ServiceAccountsWrite_def
  ACTIONS_ServiceAccountsCreate_def ACTIONS_ServiceAccountsDelete_def
  ACTIONS_ServiceAccountsPermissionsRead_def ACTIONS_ServiceAccountsPermissionsWrite_def
  ACTIONS_ApiKeysRead_def ACTIONS_ApiKeysCreate_def ACTIONS_ApiKeysDelete_def
  ACTIONS_RolesRead_def ACTIONS_RolesWrite_def ACTIONS_RolesDelete_def
  ACTIONS_ServerStatsRead_def ACTIONS_ServerUsageStatsReportRead_def
  ACTIONS_AnnotationsRead_def ACTIONS_AnnotationsWrite_def ACTIONS_AnnotationsCreate_def
  ACTIONS_AnnotationsDelete_def ACTIONS_InvestigationsRead_def
  ACTIONS_InvestigationsWrite_def ACTIONS_InvestigationsCreate_def
  ACTIONS_InvestigationsDelete_def ACTIONS_ApprovalsRead_def ACTIONS_ApprovalsApprove_def
  ACTIONS_ApprovalsOverride_def ACTIONS_ChatUse_def ACTIONS_AgentsConfigRead_def
  ACTIONS_AgentsConfigWrite_def ACTIONS_OpsCommandsRun_def ACTIONS_PlansRead_def
  ACTIONS_PlansApprove_def ACTIONS_PlansAutoEdit_def ACTIONS_InstanceConfigRead_def
  ACTIONS_InstanceConfigWrite_def ACTIONS_KbRead_def ACTIONS_KbWrite_def
  ACTIONS_KbAdmin_def

section \<open>Lemmas\<close>

text \<open>
  No action string contains the separator of the de-duplication key \<open>action|scope\<close>.
\<close>

lemma ALL_ACTIONS_no_bar: "list_all (\<lambda>a. CHR ''|'' \<notin> set a) ALL_ACTIONS"
  by code_simp

lemma known_no_bar: "isKnownAction a \<Longrightarrow> CHR ''|'' \<notin> set a"
  using ALL_ACTIONS_no_bar by (auto simp: isKnownAction_def list_all_iff)

lemma ALL_ACTIONS_shape: "list_all (\<lambda>a. length (split_on CHR '':'' a) = 2) ALL_ACTIONS"
  by code_simp

end
