(* ===== verification/Rbac_Roles.thy ===== *)
theory Rbac_Roles
  imports Rbac_Actions
begin

text \<open>
  The built-in roles (\<open>common/src/rbac/roles-def.ts\<close>): the permission tables of Viewer,
  Editor and Admin, the unrestricted Server Admin, and the resolution of a role through its
  parents.

  Results: resolution always ends, without loss; each role can do whatever the roles below
  it can do, with the Server Admin above all of them; no role below Server Admin holds the
  auto-edit action; a Viewer holds read-shaped actions only.
\<close>

section \<open>Definitions\<close>

type_synonym BuiltinPermission = ResolvedPermission

abbreviation grant :: "string \<Rightarrow> string \<Rightarrow> BuiltinPermission" where
  "grant a s \<equiv> \<lparr>rp_action = a, rp_scope = s\<rparr>"

record BasicRoleDefinition =
  br_name :: string
  br_uid :: string
  br_displayName :: string
  br_description :: string
  br_builtinMappingRole :: string
  br_global :: bool
  br_permissions :: "BuiltinPermission list"
  br_parent :: "string option"

definition VIEWER_PERMISSIONS :: "BuiltinPermission list" where
  "VIEWER_PERMISSIONS =
     [grant ACTIONS_DashboardsRead ''dashboards:*'',
      grant ACTIONS_FoldersRead ''folders:*'',
      grant ACTIONS_AnnotationsRead ''annotations:*'',
      grant ACTIONS_ConnectorsExplore [],
      grant ACTIONS_ConnectorsIdRead ''connectors:*'',
      grant ACTIONS_AlertRulesRead ''folders:*'',
      grant ACTIONS_AlertInstancesRead [],
      grant ACTIONS_AlertInstancesExternalRead [],
      grant ACTIONS_AlertNotificationsRead [],
      grant ACTIONS_AlertSilencesRead [],
      grant ACTIONS_OrgsRead [],
      grant ACTIONS_OrgsPreferencesRead [],
      grant ACTIONS_TeamsRead ''teams:*'',
      grant ACTIONS_UsersQuotasList ''global.users:*'',
      grant ACTIONS_InvestigationsRead ''investigations:*'',
      grant ACTIONS_ApprovalsRead ''approvals:*'',
      grant ACTIONS_PlansRead ''plans:*'',
      grant ACTIONS_ChatUse [],
      grant ACTIONS_KbRead []]"

definition EDITOR_ONLY_PERMISSIONS :: "BuiltinPermission list" where
  "EDITOR_ONLY_PERMISSIONS =
     [grant ACTIONS_DashboardsCreate ''folders:*'',
      grant ACTIONS_DashboardsWrite ''dashboards:*'',
      grant ACTIONS_DashboardsDelete ''dashboards:*'',
      grant ACTIONS_FoldersCreate [],
      grant ACTIONS_FoldersWrite ''folders:*'',
      grant ACTIONS_FoldersDelete ''folders:*'',
      grant ACTIONS_ConnectorsQuery ''connectors:*'',
      grant ACTIONS_ConnectorsRead ''connectors:*'',
      grant ACTIONS_AnnotationsWrite ''annotations:*'',
      grant ACTIONS_AnnotationsCreate ''annotations:*'',
      grant ACTIONS_AnnotationsDelete ''annotations:*'',
      grant ACTIONS_AlertRulesWrite ''folders:*'',
      grant ACTIONS_AlertRulesCreate ''folders:*'',
      grant ACTIONS_AlertRulesDelete ''folders:*'',
      grant ACTIONS_AlertNotificationsWrite [],
      grant ACTIONS_AlertInstancesExternalWrite [],
      grant ACTIONS_AlertSilencesCreate [],
      grant ACTIONS_AlertSilencesWrite [],
      grant ACTIONS_InvestigationsWrite ''investigations:*'',
      grant ACTIONS_InvestigationsCreate [],
      grant ACTIONS_InvestigationsDelete ''investigations:*'',
      grant ACTIONS_ApprovalsApprove ''approvals:*'',
      grant ACTIONS_PlansApprove ''plans:*'',
      grant ACTIONS_KbWrite []]"

definition ADMIN_ONLY_PERMISSIONS :: "BuiltinPermission list" where
  "ADMIN_ONLY_PERMISSIONS =
     [grant ACTIONS_OrgUsersRead ''users:*'',
      grant ACTIONS_OrgUsersAdd ''users:*'',
      grant ACTIONS_OrgUsersWrite ''users:*'',
      grant ACTIONS_OrgUsersRemove ''users:*'',
      grant ACTIONS_OrgsWrite [],
      grant ACTIONS_OrgsPreferencesWrite [],
      grant ACTIONS_OrgsQuotasRead [],
      grant ACTIONS_OrgsQuotasWrite [],
      grant ACTIONS_TeamsCreate [],
      grant ACTIONS_TeamsWrite ''teams:*'',
      grant ACTIONS_TeamsDelete ''teams:*'',
      grant ACTIONS_TeamsPermissionsRead ''teams:*'',
      grant ACTIONS_TeamsPermissionsWrite ''teams:*'',
      grant ACTIONS_ServiceAccountsRead ''serviceaccounts:*'',
      grant ACTIONS_ServiceAccountsWrite ''serviceaccounts:*'',
      grant ACTIONS_ServiceAccountsCreate [],
      grant ACTIONS_ServiceAccountsDelete ''serviceaccounts:*'',
      grant ACTIONS_ServiceAccountsPermissionsRead ''serviceaccounts:*'',
      grant ACTIONS_ServiceAccountsPermissionsWrite ''serviceaccounts:*'',
      grant ACTIONS_ApiKeysRead ''apikeys:*'',
      grant ACTIONS_ApiKeysCreate [],
      grant ACTIONS_ApiKeysDelete ''apikeys:*'',
      grant ACTIONS_RolesRead ''roles:*'',
      grant ACTIONS_RolesWrite ''roles:*'',
      grant ACTIONS_RolesDelete ''roles:*'',
      grant ACTIONS_ConnectorsWrite ''connectors:*'',
      grant ACTIONS_ConnectorsCreate [],
      grant ACTIONS_ConnectorsDelete ''connectors:*'',
      grant ACTIONS_ConnectorsPermissionsRead ''connectors:*'',
      grant ACTIONS_ConnectorsPermissionsWrite ''connectors:*'',
      grant ACTIONS_FoldersPermissionsRead ''folders:*'',
      grant ACTIONS_FoldersPermissionsWrite ''folders:*'',
      grant ACTIONS_DashboardsPermissionsRead ''dashboards:*'',
      grant ACTIONS_DashboardsPermissionsWrite ''dashboards:*'',
      grant ACTIONS_AlertProvisioningRead [],
      grant ACTIONS_AlertProvisioningWrite [],
      grant ACTIONS_ApprovalsOverride ''approvals:*'',
      grant ACTIONS_AgentsConfigRead [],
      grant ACTIONS_AgentsConfigWrite [],
      grant ACTIONS_ConnectorsRead ''connectors:*'',
      grant ACTIONS_ConnectorsWrite ''connectors:*'',
      grant ACTIONS_OpsCommandsRun ''connectors:*'',
      grant ACTIONS_InstanceConfigRead [],
      grant ACTIONS_InstanceConfigWrite [],
      grant ACTIONS_KbAdmin []]"

definition SERVER_ADMIN_PERMISSIONS :: "BuiltinPermission list" where
  "SERVER_ADMIN_PERMISSIONS = map (\<lambda>action. grant action []) ALL_ACTIONS"

definition BASIC_ROLE_DEFINITIONS :: "BasicRoleDefinition list" where
  "BASIC_ROLE_DEFINITIONS =
     [\<lparr>br_name = ''basic:viewer'', br_uid = ''basic_viewer'', br_displayName = ''Viewer'',
       br_description = ''Read-only access to dashboards, folders, and annotations.'',
       br_builtinMappingRole = ''Viewer'', br_global = False,
       br_permissions = VIEWER_PERMISSIONS, br_parent = None\<rparr>,
      \<lparr>br_name = ''basic:editor'', br_uid = ''basic_editor'', br_displayName = ''Editor'',
       br_description = ''Viewer plus dashboard, folder, annotation, and alert-rule CRUD.'',
       br_builtinMappingRole = ''Editor'', br_global = False,
       br_permissions = EDITOR_ONLY_PERMISSIONS, br_parent = Some ''basic:viewer''\<rparr>,
      \<lparr>br_name = ''basic:admin'', br_uid = ''basic_admin'', br_displayName = ''Admin'',
       br_description = ''Editor plus org-level admin: users, teams, service accounts, roles.'',
       br_builtinMappingRole = ''Admin'', br_global = False,
       br_permissions = ADMIN_ONLY_PERMISSIONS, br_parent = Some ''basic:editor''\<rparr>,
      \<lparr>br_name = ''basic:server_admin'', br_uid = ''basic_server_admin'',
       br_displayName = ''Server Admin'',
       br_description = ''Global: every action unrestricted. Does not automatically grant org-level resource access.'',
       br_builtinMappingRole = ''Server Admin'', br_global = True,
       br_permissions = SERVER_ADMIN_PERMISSIONS, br_parent = None\<rparr>]"

text \<open>The map \<open>byName\<close>: a later definition of the same name replaces an earlier one.\<close>

definition byName :: "BasicRoleDefinition list \<Rightarrow> string \<Rightarrow> BasicRoleDefinition option" where
  "byName defs n = List.find (\<lambda>d. br_name d = n) (rev defs)"

definition perm_key :: "ResolvedPermission \<Rightarrow> string" where
  "perm_key p = rp_action p @ ''|'' @ rp_scope p"

text \<open>
  The recursion \<open>walk\<close>. Its first argument bounds the number of parent links followed,
  since a cyclic table would make the source recurse forever: \<open>None\<close> is running out.
  The state is the pair of the keys already seen and the permissions collected.
\<close>

fun collect_own :: "string list \<times> BuiltinPermission list \<Rightarrow> BuiltinPermission list
    \<Rightarrow> string list \<times> BuiltinPermission list" where
  "collect_own (seen, collected) [] = (seen, collected)"
| "collect_own (seen, collected) (p # ps) =
     (if perm_key p \<in> set seen then collect_own (seen, collected) ps
      else collect_own (seen @ [perm_key p], collected @ [p]) ps)"

fun walk :: "nat \<Rightarrow> BasicRoleDefinition list \<Rightarrow> string
    \<Rightarrow> string list \<times> BuiltinPermission list
    \<Rightarrow> (string list \<times> BuiltinPermission list) option" where
  "walk 0 defs n st = None"
| "walk (Suc fuel) defs n st =
     (case byName defs n of
        None \<Rightarrow> Some st
      | Some d \<Rightarrow>
          (case (if truthy (br_parent d) then walk fuel defs (the (br_parent d)) st else Some st) of
             None \<Rightarrow> None
           | Some st' \<Rightarrow> Some (collect_own st' (br_permissions d))))"

definition resolveRolePermissions ::
    "BasicRoleDefinition list \<Rightarrow> string \<Rightarrow> BuiltinPermission list option" where
  "resolveRolePermissions defs roleName =
     map_option snd (walk (Suc (length defs)) defs roleName ([], []))"

definition resolveBasicRolePermissions :: "string \<Rightarrow> BuiltinPermission list option" where
  "resolveBasicRolePermissions roleName = resolveRolePermissions BASIC_ROLE_DEFINITIONS roleName"

section \<open>Lemmas\<close>

text \<open>Collecting a role's own permissions loses none of them, given separating keys.\<close>

lemma collect_own_dedup:
  "collect_own (seen, collected) ps =
     (seen @ map perm_key (dedup_by perm_key seen ps), collected @ dedup_by perm_key seen ps)"
proof (induction ps arbitrary: seen collected)
  case Nil
  then show ?case by simp
next
  case (Cons p ps)
  have "dedup_by perm_key (seen @ [perm_key p]) ps = dedup_by perm_key (perm_key p # seen) ps"
    by (rule dedup_by_seen_cong) auto
  with Cons show ?case by simp
qed

lemma collect_own_append:
  "collect_own (collect_own st ps) qs = collect_own st (ps @ qs)"
  by (induction st ps rule: collect_own.induct) auto

lemma collect_own_snd: "snd (collect_own ([], []) ps) = dedup_by perm_key [] ps"
  by (simp add: collect_own_dedup)

text \<open>The permissions a role resolves to: the tables along its parent chain, first wins.\<close>

lemma resolve_basic:
  "resolveBasicRolePermissions ''basic:viewer'' = Some (dedup_by perm_key [] VIEWER_PERMISSIONS)"
  "resolveBasicRolePermissions ''basic:editor'' =
     Some (dedup_by perm_key [] (VIEWER_PERMISSIONS @ EDITOR_ONLY_PERMISSIONS))"
  "resolveBasicRolePermissions ''basic:admin'' =
     Some (dedup_by perm_key []
       (VIEWER_PERMISSIONS @ EDITOR_ONLY_PERMISSIONS @ ADMIN_ONLY_PERMISSIONS))"
  "resolveBasicRolePermissions ''basic:server_admin'' =
     Some (dedup_by perm_key [] SERVER_ADMIN_PERMISSIONS)"
  by (simp_all add: resolveBasicRolePermissions_def resolveRolePermissions_def
      BASIC_ROLE_DEFINITIONS_def byName_def collect_own_append collect_own_snd)

lemma resolve_unknown:
  "n \<notin> {''basic:viewer'', ''basic:editor'', ''basic:admin'', ''basic:server_admin''} \<Longrightarrow>
   resolveBasicRolePermissions n = Some []"
  by (auto simp: resolveBasicRolePermissions_def resolveRolePermissions_def
      BASIC_ROLE_DEFINITIONS_def byName_def)

lemma table_actions_known:
  "list_all (\<lambda>p. isKnownAction (rp_action p)) VIEWER_PERMISSIONS"
  "list_all (\<lambda>p. isKnownAction (rp_action p)) EDITOR_ONLY_PERMISSIONS"
  "list_all (\<lambda>p. isKnownAction (rp_action p)) ADMIN_ONLY_PERMISSIONS"
  by (simp_all add: VIEWER_PERMISSIONS_def EDITOR_ONLY_PERMISSIONS_def ADMIN_ONLY_PERMISSIONS_def
      isKnownAction_def ALL_ACTIONS_def ACTIONS_def)

lemma perm_key_inj:
  assumes "\<forall>p\<in>set ps. isKnownAction (rp_action p)"
  shows "inj_on perm_key (set ps)"
proof (rule inj_onI)
  fix p q
  assume pq: "p \<in> set ps" "q \<in> set ps" "perm_key p = perm_key q"
  have "CHR ''|'' \<notin> set (rp_action p)" "CHR ''|'' \<notin> set (rp_action q)"
    using assms pq(1,2) known_no_bar by auto
  moreover have "rp_action p @ CHR ''|'' # rp_scope p = rp_action q @ CHR ''|'' # rp_scope q"
    using pq(3) by (simp add: perm_key_def)
  ultimately have "rp_action p = rp_action q \<and> rp_scope p = rp_scope q" by (rule sep_key_inj)
  then show "p = q" by (simp add: ResolvedPermission.equality)
qed

lemma set_resolved:
  assumes "\<forall>p\<in>set ps. isKnownAction (rp_action p)"
  shows "set (dedup_by perm_key [] ps) = set ps"
  using perm_key_inj [OF assms] by (rule set_dedup_by_inj)

lemma server_admin_known: "\<forall>p\<in>set SERVER_ADMIN_PERMISSIONS. isKnownAction (rp_action p)"
  by (auto simp: SERVER_ADMIN_PERMISSIONS_def isKnownAction_def)

text \<open>Server Admin holds every catalogued action without a scope restriction.\<close>

lemma server_admin_dominates:
  assumes "\<forall>p\<in>set ps. isKnownAction (rp_action p)"
  shows "dominates SERVER_ADMIN_PERMISSIONS ps"
  unfolding dominates_def
proof
  fix p
  assume "p \<in> set ps"
  with assms have "grant (rp_action p) [] \<in> set SERVER_ADMIN_PERMISSIONS"
    by (auto simp: SERVER_ADMIN_PERMISSIONS_def isKnownAction_def)
  then show "\<exists>b\<in>set SERVER_ADMIN_PERMISSIONS.
      rp_action b = rp_action p \<and> scopeCovers (rp_scope b) (rp_scope p)"
    by (rule rev_bexI) (simp add: sc.covers_unrestricted)
qed

lemmas all_known = table_actions_known [unfolded list_all_iff]

lemma sets_of_resolved:
  "set (dedup_by perm_key [] VIEWER_PERMISSIONS) = set VIEWER_PERMISSIONS"
  "set (dedup_by perm_key [] (VIEWER_PERMISSIONS @ EDITOR_ONLY_PERMISSIONS))
     = set VIEWER_PERMISSIONS \<union> set EDITOR_ONLY_PERMISSIONS"
  "set (dedup_by perm_key []
       (VIEWER_PERMISSIONS @ EDITOR_ONLY_PERMISSIONS @ ADMIN_ONLY_PERMISSIONS))
     = set VIEWER_PERMISSIONS \<union> set EDITOR_ONLY_PERMISSIONS \<union> set ADMIN_ONLY_PERMISSIONS"
  "set (dedup_by perm_key [] SERVER_ADMIN_PERMISSIONS) = set SERVER_ADMIN_PERMISSIONS"
  using all_known server_admin_known by (subst set_resolved; auto)+

lemma viewer_holds:
  "grant ACTIONS_DashboardsRead ''dashboards:*'' \<in> set VIEWER_PERMISSIONS"
  "grant ACTIONS_ChatUse [] \<in> set VIEWER_PERMISSIONS"
  unfolding VIEWER_PERMISSIONS_def by (simp_all del: ResolvedPermission.iffs)

lemma no_auto_edit_tables:
  "list_all (\<lambda>p. rp_action p \<noteq> ACTIONS_PlansAutoEdit)
     (VIEWER_PERMISSIONS @ EDITOR_ONLY_PERMISSIONS @ ADMIN_ONLY_PERMISSIONS)"
  by code_simp

lemma viewer_verbs:
  "list_all (\<lambda>p. action_verb (rp_action p) \<in> set [''read'', ''explore'', ''list'', ''use''])
     VIEWER_PERMISSIONS"
  by code_simp

section \<open>Properties\<close>

text \<open>C20: The built-in roles form a hierarchy. Resolving a role name always ends, and what Viewer
  may do Editor may do, what Editor may do Admin may do, and what Admin may do Server Admin may
  do, for every check the evaluator can express.\<close>

theorem basic_role_hierarchy:
  "\<exists>V E A S. resolveBasicRolePermissions ''basic:viewer'' = Some V
     \<and> resolveBasicRolePermissions ''basic:editor'' = Some E
     \<and> resolveBasicRolePermissions ''basic:admin'' = Some A
     \<and> resolveBasicRolePermissions ''basic:server_admin'' = Some S
     \<and> set V \<subseteq> set E \<and> set E \<subseteq> set A
     \<and> (\<forall>e. (evaluate e V \<longrightarrow> evaluate e E) \<and> (evaluate e E \<longrightarrow> evaluate e A)
          \<and> (evaluate e A \<longrightarrow> evaluate e S))"
proof -
  let ?V = "dedup_by perm_key [] VIEWER_PERMISSIONS"
  let ?E = "dedup_by perm_key [] (VIEWER_PERMISSIONS @ EDITOR_ONLY_PERMISSIONS)"
  let ?A = "dedup_by perm_key []
      (VIEWER_PERMISSIONS @ EDITOR_ONLY_PERMISSIONS @ ADMIN_ONLY_PERMISSIONS)"
  let ?S = "dedup_by perm_key [] SERVER_ADMIN_PERMISSIONS"
  have VE: "set ?V \<subseteq> set ?E" and EA: "set ?E \<subseteq> set ?A" unfolding sets_of_resolved by auto
  have "dominates SERVER_ADMIN_PERMISSIONS ?A"
    by (rule server_admin_dominates) (use all_known in \<open>auto simp: sets_of_resolved\<close>)
  then have "dominates ?S ?A" by (simp add: dominates_def sets_of_resolved)
  then have "\<forall>e. (evaluate e ?V \<longrightarrow> evaluate e ?E) \<and> (evaluate e ?E \<longrightarrow> evaluate e ?A)
      \<and> (evaluate e ?A \<longrightarrow> evaluate e ?S)"
    using evaluate_mono dominates_refl_subset [OF VE] dominates_refl_subset [OF EA] by blast
  with VE EA show ?thesis using resolve_basic by blast
qed

theorem basic_role_hierarchy_witness:
  "\<exists>S. resolveBasicRolePermissions ''basic:server_admin'' = Some S
     \<and> evaluate (ActionEvaluator ACTIONS_DashboardsRead [''dashboards:*'']) S"
proof -
  obtain V E A S where r: "resolveBasicRolePermissions ''basic:viewer'' = Some V"
      "resolveBasicRolePermissions ''basic:server_admin'' = Some S"
      and c: "\<forall>e. (evaluate e V \<longrightarrow> evaluate e E) \<and> (evaluate e E \<longrightarrow> evaluate e A)
          \<and> (evaluate e A \<longrightarrow> evaluate e S)"
    using basic_role_hierarchy by blast
  have "set V = set VIEWER_PERMISSIONS" using r(1) unfolding resolve_basic sets_of_resolved(1) [symmetric] by simp
  then have "grant ACTIONS_DashboardsRead ''dashboards:*'' \<in> set V" using viewer_holds(1) by simp
  then have "evaluate (ActionEvaluator ACTIONS_DashboardsRead [''dashboards:*'']) V"
    by (auto simp: evaluate_iff granted_def holds_action_def intro!: bexI [rotated] sc.covers_refl)
  with c r(2) show ?thesis by blast
qed

text \<open>Auto-edit is opt-in. Whatever role name other than the Server Admin's is resolved, the
  resulting permissions refuse every check for the \<open>plans:auto_edit\<close> action, with any scope.\<close>

theorem auto_edit_not_default:
  assumes "n \<noteq> ''basic:server_admin''" "resolveBasicRolePermissions n = Some ps"
  shows "\<not> evaluate (ac_eval ACTIONS_PlansAutoEdit arg) ps"
proof -
  have "set ps \<subseteq> set (VIEWER_PERMISSIONS @ EDITOR_ONLY_PERMISSIONS @ ADMIN_ONLY_PERMISSIONS)"
  proof (cases "n \<in> {''basic:viewer'', ''basic:editor'', ''basic:admin'', ''basic:server_admin''}")
    case True
    with assms show ?thesis by (auto simp: resolve_basic sets_of_resolved)
  next
    case False
    with assms(2) resolve_unknown show ?thesis by simp
  qed
  with no_auto_edit_tables have "\<not> holds_action ps ACTIONS_PlansAutoEdit"
    unfolding holds_action_def list_all_iff by blast
  then show ?thesis by (cases arg) (simp_all add: evaluate_iff)
qed

theorem auto_edit_not_default_witness:
  "\<not> evaluate (ac_eval ACTIONS_PlansAutoEdit NoScope)
       (dedup_by perm_key [] (VIEWER_PERMISSIONS @ EDITOR_ONLY_PERMISSIONS @ ADMIN_ONLY_PERMISSIONS))"
  by (rule auto_edit_not_default [of "''basic:admin''"]) (simp_all add: resolve_basic)

text \<open>A Viewer is read-only. Every action of the resolved Viewer role ends in one of the verbs
  read, explore, list or use, and is an action of the catalog.\<close>

theorem viewer_read_only:
  assumes "resolveBasicRolePermissions ''basic:viewer'' = Some ps" "p \<in> set ps"
  shows "action_verb (rp_action p) \<in> {''read'', ''explore'', ''list'', ''use''}
    \<and> isKnownAction (rp_action p)"
proof -
  have "p \<in> set VIEWER_PERMISSIONS" using assms unfolding resolve_basic
    by (auto simp: sets_of_resolved)
  then show ?thesis using viewer_verbs all_known(1) by (auto simp: list_all_iff)
qed

theorem viewer_read_only_witness:
  "action_verb ACTIONS_ChatUse \<in> {''read'', ''explore'', ''list'', ''use''}
   \<and> isKnownAction ACTIONS_ChatUse"
proof -
  have "grant ACTIONS_ChatUse [] \<in> set (dedup_by perm_key [] VIEWER_PERMISSIONS)"
    unfolding sets_of_resolved by (rule viewer_holds)
  from viewer_read_only [OF resolve_basic(1) this] show ?thesis by simp
qed

end
