(* ===== verification/Rbac_Fixed_Roles.thy ===== *)
theory Rbac_Fixed_Roles
  imports Rbac_Roles
begin

text \<open>
  The catalog of fixed roles (\<open>common/src/rbac/fixed-roles-def.ts\<close>), one constant per role,
  and the lookup by name. Descriptions are display text: a
  typographic dash and apostrophe in them are written in ASCII (\<open>--\<close>, \<open>`\<close>).

  Results: names and derived uids are unique, so the lookup inverts the catalog; every fixed
  role is below the Server Admin; auto-edit is granted by one role only; and the shipped
  namespace-approver scope reaches no approval row, unlike the connector-approver scope.
\<close>

section \<open>Definitions\<close>

record FixedRoleDefinition =
  fr_name :: string
  fr_uid :: string
  fr_displayName :: string
  fr_description :: string
  fr_groupName :: string
  fr_permissions :: "ResolvedPermission list"
  fr_hidden :: "bool option"

text \<open>\<open>name.replace(/[:.]/g, '_')\<close>\<close>

definition role_uid :: "string \<Rightarrow> string" where
  "role_uid name = map (\<lambda>c. if c = CHR '':'' \<or> c = CHR ''.'' then CHR ''_'' else c) name"

definition fixed_def :: "string \<Rightarrow> string \<Rightarrow> string \<Rightarrow> string \<Rightarrow> ResolvedPermission list
    \<Rightarrow> bool option \<Rightarrow> FixedRoleDefinition" where
  "fixed_def name displayName description groupName permissions hidden =
     \<lparr>fr_name = name, fr_uid = role_uid name, fr_displayName = displayName,
      fr_description = description, fr_groupName = groupName,
      fr_permissions = permissions, fr_hidden = hidden\<rparr>"

definition DASHBOARDS_READER :: FixedRoleDefinition where
  "DASHBOARDS_READER = fixed_def
     ''fixed:dashboards:reader'' ''Dashboards reader''
     ''Read dashboards and dashboard permissions.''
     ''Dashboards''
     [grant ACTIONS_DashboardsRead ''dashboards:*'',
      grant ACTIONS_DashboardsPermissionsRead ''dashboards:*'']
     None"

definition DASHBOARDS_WRITER :: FixedRoleDefinition where
  "DASHBOARDS_WRITER = fixed_def
     ''fixed:dashboards:writer'' ''Dashboards writer''
     ''Create, update, and delete dashboards plus manage permissions.''
     ''Dashboards''
     [grant ACTIONS_DashboardsRead ''dashboards:*'',
      grant ACTIONS_DashboardsWrite ''dashboards:*'',
      grant ACTIONS_DashboardsCreate ''folders:*'',
      grant ACTIONS_DashboardsDelete ''dashboards:*'',
      grant ACTIONS_DashboardsPermissionsRead ''dashboards:*'',
      grant ACTIONS_DashboardsPermissionsWrite ''dashboards:*'']
     None"

definition DASHBOARDS_CREATOR :: FixedRoleDefinition where
  "DASHBOARDS_CREATOR = fixed_def
     ''fixed:dashboards:creator'' ''Dashboards creator''
     ''Create dashboards in any folder.''
     ''Dashboards''
     [grant ACTIONS_DashboardsCreate ''folders:*'']
     None"

definition DASHBOARDS_PERMISSIONS_READER :: FixedRoleDefinition where
  "DASHBOARDS_PERMISSIONS_READER = fixed_def
     ''fixed:dashboards.permissions:reader'' ''Dashboard permissions reader''
     ''Read dashboard permission assignments.''
     ''Dashboards''
     [grant ACTIONS_DashboardsPermissionsRead ''dashboards:*'']
     None"

definition DASHBOARDS_PERMISSIONS_WRITER :: FixedRoleDefinition where
  "DASHBOARDS_PERMISSIONS_WRITER = fixed_def
     ''fixed:dashboards.permissions:writer'' ''Dashboard permissions writer''
     ''Change dashboard permission assignments.''
     ''Dashboards''
     [grant ACTIONS_DashboardsPermissionsRead ''dashboards:*'',
      grant ACTIONS_DashboardsPermissionsWrite ''dashboards:*'']
     None"

definition FOLDERS_READER :: FixedRoleDefinition where
  "FOLDERS_READER = fixed_def
     ''fixed:folders:reader'' ''Folders reader''
     ''Read folders and folder permissions.''
     ''Folders''
     [grant ACTIONS_FoldersRead ''folders:*'',
      grant ACTIONS_FoldersPermissionsRead ''folders:*'']
     None"

definition FOLDERS_WRITER :: FixedRoleDefinition where
  "FOLDERS_WRITER = fixed_def
     ''fixed:folders:writer'' ''Folders writer''
     ''Create, update, and delete folders plus manage permissions.''
     ''Folders''
     [grant ACTIONS_FoldersRead ''folders:*'',
      grant ACTIONS_FoldersWrite ''folders:*'',
      grant ACTIONS_FoldersCreate [],
      grant ACTIONS_FoldersDelete ''folders:*'',
      grant ACTIONS_FoldersPermissionsRead ''folders:*'',
      grant ACTIONS_FoldersPermissionsWrite ''folders:*'']
     None"

definition FOLDERS_CREATOR :: FixedRoleDefinition where
  "FOLDERS_CREATOR = fixed_def
     ''fixed:folders:creator'' ''Folders creator''
     ''Create new folders.''
     ''Folders''
     [grant ACTIONS_FoldersCreate []]
     None"

definition FOLDERS_PERMISSIONS_READER :: FixedRoleDefinition where
  "FOLDERS_PERMISSIONS_READER = fixed_def
     ''fixed:folders.permissions:reader'' ''Folder permissions reader''
     ''Read folder permission assignments.''
     ''Folders''
     [grant ACTIONS_FoldersPermissionsRead ''folders:*'']
     None"

definition FOLDERS_PERMISSIONS_WRITER :: FixedRoleDefinition where
  "FOLDERS_PERMISSIONS_WRITER = fixed_def
     ''fixed:folders.permissions:writer'' ''Folder permissions writer''
     ''Change folder permission assignments.''
     ''Folders''
     [grant ACTIONS_FoldersPermissionsRead ''folders:*'',
      grant ACTIONS_FoldersPermissionsWrite ''folders:*'']
     None"

definition DATASOURCES_READER :: FixedRoleDefinition where
  "DATASOURCES_READER = fixed_def
     ''fixed:connectors:reader'' ''Connectors reader''
     ''Read connectors and their configuration.''
     ''Connectors''
     [grant ACTIONS_ConnectorsRead ''connectors:*'',
      grant ACTIONS_ConnectorsIdRead ''connectors:*'']
     None"

definition DATASOURCES_WRITER :: FixedRoleDefinition where
  "DATASOURCES_WRITER = fixed_def
     ''fixed:connectors:writer'' ''Connectors writer''
     ''Create, update, and delete connectors.''
     ''Connectors''
     [grant ACTIONS_ConnectorsRead ''connectors:*'',
      grant ACTIONS_ConnectorsWrite ''connectors:*'',
      grant ACTIONS_ConnectorsCreate [],
      grant ACTIONS_ConnectorsDelete ''connectors:*'',
      grant ACTIONS_ConnectorsIdRead ''connectors:*'']
     None"

definition DATASOURCES_CREATOR :: FixedRoleDefinition where
  "DATASOURCES_CREATOR = fixed_def
     ''fixed:connectors:creator'' ''Connectors creator''
     ''Create new connectors.''
     ''Connectors''
     [grant ACTIONS_ConnectorsCreate []]
     None"

definition DATASOURCES_EXPLORER :: FixedRoleDefinition where
  "DATASOURCES_EXPLORER = fixed_def
     ''fixed:connectors:explorer'' ''Connectors explorer''
     ''Use Explore to run ad-hoc queries.''
     ''Connectors''
     [grant ACTIONS_ConnectorsExplore []]
     None"

definition DATASOURCES_PERMISSIONS_READER :: FixedRoleDefinition where
  "DATASOURCES_PERMISSIONS_READER = fixed_def
     ''fixed:connectors.permissions:reader'' ''Connector permissions reader''
     ''Read connector permission assignments.''
     ''Connectors''
     [grant ACTIONS_ConnectorsPermissionsRead ''connectors:*'']
     None"

definition DATASOURCES_PERMISSIONS_WRITER :: FixedRoleDefinition where
  "DATASOURCES_PERMISSIONS_WRITER = fixed_def
     ''fixed:connectors.permissions:writer'' ''Connector permissions writer''
     ''Change connector permission assignments.''
     ''Connectors''
     [grant ACTIONS_ConnectorsPermissionsRead ''connectors:*'',
      grant ACTIONS_ConnectorsPermissionsWrite ''connectors:*'']
     None"

definition DATASOURCES_ID_READER :: FixedRoleDefinition where
  "DATASOURCES_ID_READER = fixed_def
     ''fixed:connectors.id:reader'' ''Connector ID reader''
     ''Resolve connector numeric IDs from UIDs (internal).''
     ''Connectors''
     [grant ACTIONS_ConnectorsIdRead ''connectors:*'']
     (Some True)"

definition USERS_READER :: FixedRoleDefinition where
  "USERS_READER = fixed_def
     ''fixed:users:reader'' ''Users reader''
     ''Read user accounts and their authentication info.''
     ''Users''
     [grant ACTIONS_UsersRead ''global.users:*'',
      grant ACTIONS_UsersAuthTokenRead ''global.users:*'',
      grant ACTIONS_UsersQuotasList ''global.users:*'']
     None"

definition USERS_WRITER :: FixedRoleDefinition where
  "USERS_WRITER = fixed_def
     ''fixed:users:writer'' ''Users writer''
     ''Create, update, delete, disable, and manage passwords for user accounts.''
     ''Users''
     [grant ACTIONS_UsersRead ''global.users:*'',
      grant ACTIONS_UsersWrite ''global.users:*'',
      grant ACTIONS_UsersCreate [],
      grant ACTIONS_UsersDelete ''global.users:*'',
      grant ACTIONS_UsersDisable ''global.users:*'',
      grant ACTIONS_UsersAuthTokenRead ''global.users:*'',
      grant ACTIONS_UsersAuthTokenUpdate ''global.users:*'',
      grant ACTIONS_UsersPasswordUpdate ''global.users:*'',
      grant ACTIONS_UsersPermissionsRead ''global.users:*'',
      grant ACTIONS_UsersPermissionsWrite ''global.users:*'',
      grant ACTIONS_UsersQuotasList ''global.users:*'',
      grant ACTIONS_UsersQuotasUpdate ''global.users:*'']
     None"

definition ORG_USERS_READER :: FixedRoleDefinition where
  "ORG_USERS_READER = fixed_def
     ''fixed:org.users:reader'' ''Organization users reader''
     ''Read the current organization`s membership.''
     ''Organizations''
     [grant ACTIONS_OrgUsersRead ''users:*'']
     None"

definition ORG_USERS_WRITER :: FixedRoleDefinition where
  "ORG_USERS_WRITER = fixed_def
     ''fixed:org.users:writer'' ''Organization users writer''
     ''Add, remove, and change roles of members in the current organization.''
     ''Organizations''
     [grant ACTIONS_OrgUsersRead ''users:*'',
      grant ACTIONS_OrgUsersAdd ''users:*'',
      grant ACTIONS_OrgUsersWrite ''users:*'',
      grant ACTIONS_OrgUsersRemove ''users:*'']
     None"

definition ORGS_READER :: FixedRoleDefinition where
  "ORGS_READER = fixed_def
     ''fixed:orgs:reader'' ''Organizations reader''
     ''Read organization metadata, preferences, and quotas.''
     ''Organizations''
     [grant ACTIONS_OrgsRead [],
      grant ACTIONS_OrgsPreferencesRead [],
      grant ACTIONS_OrgsQuotasRead []]
     None"

definition ORGS_WRITER :: FixedRoleDefinition where
  "ORGS_WRITER = fixed_def
     ''fixed:orgs:writer'' ''Organizations writer''
     ''Update organization metadata, preferences, and quotas.''
     ''Organizations''
     [grant ACTIONS_OrgsRead [],
      grant ACTIONS_OrgsWrite [],
      grant ACTIONS_OrgsPreferencesRead [],
      grant ACTIONS_OrgsPreferencesWrite [],
      grant ACTIONS_OrgsQuotasRead [],
      grant ACTIONS_OrgsQuotasWrite []]
     None"

definition ORGS_CREATOR :: FixedRoleDefinition where
  "ORGS_CREATOR = fixed_def
     ''fixed:orgs:creator'' ''Organizations creator''
     ''Create new organizations (server admin scope).''
     ''Organizations''
     [grant ACTIONS_OrgsCreate []]
     None"

definition TEAMS_READER :: FixedRoleDefinition where
  "TEAMS_READER = fixed_def
     ''fixed:teams:reader'' ''Teams reader''
     ''Read teams and their members.''
     ''Teams''
     [grant ACTIONS_TeamsRead ''teams:*'']
     None"

definition TEAMS_WRITER :: FixedRoleDefinition where
  "TEAMS_WRITER = fixed_def
     ''fixed:teams:writer'' ''Teams writer''
     ''Create, update, and delete teams.''
     ''Teams''
     [grant ACTIONS_TeamsRead ''teams:*'',
      grant ACTIONS_TeamsWrite ''teams:*'',
      grant ACTIONS_TeamsCreate [],
      grant ACTIONS_TeamsDelete ''teams:*'',
      grant ACTIONS_TeamsPermissionsRead ''teams:*'',
      grant ACTIONS_TeamsPermissionsWrite ''teams:*'']
     None"

definition TEAMS_CREATOR :: FixedRoleDefinition where
  "TEAMS_CREATOR = fixed_def
     ''fixed:teams:creator'' ''Teams creator''
     ''Create new teams in the current organization.''
     ''Teams''
     [grant ACTIONS_TeamsCreate []]
     None"

definition SA_READER :: FixedRoleDefinition where
  "SA_READER = fixed_def
     ''fixed:serviceaccounts:reader'' ''Service accounts reader''
     ''Read service accounts and their tokens.''
     ''Service Accounts''
     [grant ACTIONS_ServiceAccountsRead ''serviceaccounts:*'',
      grant ACTIONS_ServiceAccountsPermissionsRead ''serviceaccounts:*'']
     None"

definition SA_WRITER :: FixedRoleDefinition where
  "SA_WRITER = fixed_def
     ''fixed:serviceaccounts:writer'' ''Service accounts writer''
     ''Create, update, delete service accounts and manage their tokens.''
     ''Service Accounts''
     [grant ACTIONS_ServiceAccountsRead ''serviceaccounts:*'',
      grant ACTIONS_ServiceAccountsWrite ''serviceaccounts:*'',
      grant ACTIONS_ServiceAccountsDelete ''serviceaccounts:*'',
      grant ACTIONS_ServiceAccountsPermissionsRead ''serviceaccounts:*'',
      grant ACTIONS_ServiceAccountsPermissionsWrite ''serviceaccounts:*'']
     None"

definition SA_CREATOR :: FixedRoleDefinition where
  "SA_CREATOR = fixed_def
     ''fixed:serviceaccounts:creator'' ''Service accounts creator''
     ''Create new service accounts.''
     ''Service Accounts''
     [grant ACTIONS_ServiceAccountsCreate []]
     None"

definition ROLES_READER :: FixedRoleDefinition where
  "ROLES_READER = fixed_def
     ''fixed:roles:reader'' ''Roles reader''
     ''Read RBAC roles and permission assignments.''
     ''Roles''
     [grant ACTIONS_RolesRead ''roles:*'']
     None"

definition ROLES_WRITER :: FixedRoleDefinition where
  "ROLES_WRITER = fixed_def
     ''fixed:roles:writer'' ''Roles writer''
     ''Create, update, and delete custom RBAC roles.''
     ''Roles''
     [grant ACTIONS_RolesRead ''roles:*'',
      grant ACTIONS_RolesWrite ''roles:*'',
      grant ACTIONS_RolesDelete ''roles:*'']
     None"

definition ANNOTATIONS_READER :: FixedRoleDefinition where
  "ANNOTATIONS_READER = fixed_def
     ''fixed:annotations:reader'' ''Annotations reader''
     ''Read annotations on dashboards.''
     ''Annotations''
     [grant ACTIONS_AnnotationsRead ''annotations:*'']
     None"

definition ANNOTATIONS_WRITER :: FixedRoleDefinition where
  "ANNOTATIONS_WRITER = fixed_def
     ''fixed:annotations:writer'' ''Annotations writer''
     ''Create, update, and delete annotations on dashboards.''
     ''Annotations''
     [grant ACTIONS_AnnotationsRead ''annotations:*'',
      grant ACTIONS_AnnotationsWrite ''annotations:*'',
      grant ACTIONS_AnnotationsCreate ''annotations:*'',
      grant ACTIONS_AnnotationsDelete ''annotations:*'']
     None"

definition ALERT_RULES_READER :: FixedRoleDefinition where
  "ALERT_RULES_READER = fixed_def
     ''fixed:alert.rules:reader'' ''Alert rules reader''
     ''Read alert rules and their state.''
     ''Alerting''
     [grant ACTIONS_AlertRulesRead ''folders:*'']
     None"

definition ALERT_RULES_WRITER :: FixedRoleDefinition where
  "ALERT_RULES_WRITER = fixed_def
     ''fixed:alert.rules:writer'' ''Alert rules writer''
     ''Create, update, and delete alert rules.''
     ''Alerting''
     [grant ACTIONS_AlertRulesRead ''folders:*'',
      grant ACTIONS_AlertRulesWrite ''folders:*'',
      grant ACTIONS_AlertRulesCreate ''folders:*'',
      grant ACTIONS_AlertRulesDelete ''folders:*'']
     None"

definition ALERT_INSTANCES_READER :: FixedRoleDefinition where
  "ALERT_INSTANCES_READER = fixed_def
     ''fixed:alert.instances:reader'' ''Alert instances reader''
     ''Read alert rule instances and state history.''
     ''Alerting''
     [grant ACTIONS_AlertInstancesRead [],
      grant ACTIONS_AlertInstancesExternalRead []]
     None"

definition ALERT_INSTANCES_WRITER :: FixedRoleDefinition where
  "ALERT_INSTANCES_WRITER = fixed_def
     ''fixed:alert.instances:writer'' ''Alert instances writer''
     ''Acknowledge and modify alert instance state.''
     ''Alerting''
     [grant ACTIONS_AlertInstancesRead [],
      grant ACTIONS_AlertInstancesExternalRead [],
      grant ACTIONS_AlertInstancesExternalWrite []]
     None"

definition ALERT_NOTIFICATIONS_READER :: FixedRoleDefinition where
  "ALERT_NOTIFICATIONS_READER = fixed_def
     ''fixed:alert.notifications:reader'' ''Notification channels reader''
     ''Read notification channels and policies.''
     ''Alerting''
     [grant ACTIONS_AlertNotificationsRead []]
     None"

definition ALERT_NOTIFICATIONS_WRITER :: FixedRoleDefinition where
  "ALERT_NOTIFICATIONS_WRITER = fixed_def
     ''fixed:alert.notifications:writer'' ''Notification channels writer''
     ''Manage notification channels and policies.''
     ''Alerting''
     [grant ACTIONS_AlertNotificationsRead [],
      grant ACTIONS_AlertNotificationsWrite []]
     None"

definition ALERT_SILENCES_READER :: FixedRoleDefinition where
  "ALERT_SILENCES_READER = fixed_def
     ''fixed:alert.silences:reader'' ''Alert silences reader''
     ''Read alert silences.''
     ''Alerting''
     [grant ACTIONS_AlertSilencesRead []]
     None"

definition ALERT_SILENCES_CREATOR :: FixedRoleDefinition where
  "ALERT_SILENCES_CREATOR = fixed_def
     ''fixed:alert.silences:creator'' ''Alert silences creator''
     ''Create alert silences.''
     ''Alerting''
     [grant ACTIONS_AlertSilencesRead [],
      grant ACTIONS_AlertSilencesCreate []]
     None"

definition ALERT_SILENCES_WRITER :: FixedRoleDefinition where
  "ALERT_SILENCES_WRITER = fixed_def
     ''fixed:alert.silences:writer'' ''Alert silences writer''
     ''Create, update, and delete alert silences.''
     ''Alerting''
     [grant ACTIONS_AlertSilencesRead [],
      grant ACTIONS_AlertSilencesCreate [],
      grant ACTIONS_AlertSilencesWrite []]
     None"

definition ALERT_PROVISIONING_READER :: FixedRoleDefinition where
  "ALERT_PROVISIONING_READER = fixed_def
     ''fixed:alert.provisioning:reader'' ''Alert provisioning reader''
     ''Read provisioned alerting resources.''
     ''Alerting''
     [grant ACTIONS_AlertProvisioningRead []]
     None"

definition ALERT_PROVISIONING_WRITER :: FixedRoleDefinition where
  "ALERT_PROVISIONING_WRITER = fixed_def
     ''fixed:alert.provisioning:writer'' ''Alert provisioning writer''
     ''Manage provisioned alerting resources.''
     ''Alerting''
     [grant ACTIONS_AlertProvisioningRead [],
      grant ACTIONS_AlertProvisioningWrite []]
     None"

definition SERVER_STATS_READER :: FixedRoleDefinition where
  "SERVER_STATS_READER = fixed_def
     ''fixed:server.stats:reader'' ''Server stats reader''
     ''Read server-wide statistics.''
     ''Server''
     [grant ACTIONS_ServerStatsRead []]
     None"

definition SERVER_USAGESTATS_REPORT_READER :: FixedRoleDefinition where
  "SERVER_USAGESTATS_REPORT_READER = fixed_def
     ''fixed:server.usagestats.report:reader'' ''Server usage report reader''
     ''Read the server usage statistics report.''
     ''Server''
     [grant ACTIONS_ServerUsageStatsReportRead []]
     None"

definition APIKEYS_READER :: FixedRoleDefinition where
  "APIKEYS_READER = fixed_def
     ''fixed:apikeys:reader'' ''API keys reader''
     ''List legacy API keys.''
     ''API Keys''
     [grant ACTIONS_ApiKeysRead ''apikeys:*'']
     None"

definition APIKEYS_WRITER :: FixedRoleDefinition where
  "APIKEYS_WRITER = fixed_def
     ''fixed:apikeys:writer'' ''API keys writer''
     ''Create and delete legacy API keys.''
     ''API Keys''
     [grant ACTIONS_ApiKeysRead ''apikeys:*'',
      grant ACTIONS_ApiKeysCreate [],
      grant ACTIONS_ApiKeysDelete ''apikeys:*'']
     None"

definition INVESTIGATIONS_READER :: FixedRoleDefinition where
  "INVESTIGATIONS_READER = fixed_def
     ''fixed:investigations:reader'' ''Investigations reader''
     ''Read investigations.''
     ''Investigations''
     [grant ACTIONS_InvestigationsRead ''investigations:*'']
     None"

definition INVESTIGATIONS_WRITER :: FixedRoleDefinition where
  "INVESTIGATIONS_WRITER = fixed_def
     ''fixed:investigations:writer'' ''Investigations writer''
     ''Create, update, and delete investigations.''
     ''Investigations''
     [grant ACTIONS_InvestigationsRead ''investigations:*'',
      grant ACTIONS_InvestigationsWrite ''investigations:*'',
      grant ACTIONS_InvestigationsCreate [],
      grant ACTIONS_InvestigationsDelete ''investigations:*'']
     None"

definition APPROVALS_READER :: FixedRoleDefinition where
  "APPROVALS_READER = fixed_def
     ''fixed:approvals:reader'' ''Approvals reader''
     ''Read pending approvals.''
     ''Approvals''
     [grant ACTIONS_ApprovalsRead ''approvals:*'']
     None"

definition APPROVALS_APPROVER :: FixedRoleDefinition where
  "APPROVALS_APPROVER = fixed_def
     ''fixed:approvals:approver'' ''Approvals approver''
     ''Approve or reject pending approvals.''
     ''Approvals''
     [grant ACTIONS_ApprovalsRead ''approvals:*'',
      grant ACTIONS_ApprovalsApprove ''approvals:*'']
     None"

definition APPROVALS_OVERRIDER :: FixedRoleDefinition where
  "APPROVALS_OVERRIDER = fixed_def
     ''fixed:approvals:overrider'' ''Approvals overrider''
     ''Override pending approvals regardless of normal policy.''
     ''Approvals''
     [grant ACTIONS_ApprovalsRead ''approvals:*'',
      grant ACTIONS_ApprovalsApprove ''approvals:*'',
      grant ACTIONS_ApprovalsOverride ''approvals:*'']
     None"

definition APPROVALS_CLUSTER_APPROVER :: FixedRoleDefinition where
  "APPROVALS_CLUSTER_APPROVER = fixed_def
     ''fixed:approvals:cluster_approver'' ''Cluster approver''
     ''Read and approve cluster-operation approvals scoped to a single ops connector.''
     ''Approvals''
     [grant ACTIONS_ApprovalsRead ''approvals:connector:*'',
      grant ACTIONS_ApprovalsApprove ''approvals:connector:*'']
     None"

definition APPROVALS_NAMESPACE_APPROVER :: FixedRoleDefinition where
  "APPROVALS_NAMESPACE_APPROVER = fixed_def
     ''fixed:approvals:namespace_approver'' ''Namespace approver''
     ''Read and approve cluster-operation approvals scoped to a single (connector, namespace) pair.''
     ''Approvals''
     [grant ACTIONS_ApprovalsRead ''approvals:namespace:*:*'',
      grant ACTIONS_ApprovalsApprove ''approvals:namespace:*:*'']
     None"

definition APPROVALS_TEAM_VIEWER :: FixedRoleDefinition where
  "APPROVALS_TEAM_VIEWER = fixed_def
     ''fixed:approvals:team_viewer'' ''Team approval viewer''
     ''Read approvals originated by a single team.''
     ''Approvals''
     [grant ACTIONS_ApprovalsRead ''approvals:team:*'']
     None"

definition PLANS_READER :: FixedRoleDefinition where
  "PLANS_READER = fixed_def
     ''fixed:plans:reader'' ''Plans reader''
     ''Read remediation plans.''
     ''Plans''
     [grant ACTIONS_PlansRead ''plans:*'']
     None"

definition PLANS_APPROVER :: FixedRoleDefinition where
  "PLANS_APPROVER = fixed_def
     ''fixed:plans:approver'' ''Plans approver''
     ''Approve, reject, cancel, and retry remediation plans.''
     ''Plans''
     [grant ACTIONS_PlansRead ''plans:*'',
      grant ACTIONS_PlansApprove ''plans:*'']
     None"

definition PLANS_AUTO_EDITOR :: FixedRoleDefinition where
  "PLANS_AUTO_EDITOR = fixed_def
     ''fixed:plans:auto_editor'' ''Plans auto-editor (cluster-wide)''
     ''Approve a plan in auto-edit mode for ANY namespace (skips per-step approvals). Sensitive -- grant explicitly. For namespace-narrowed auto-edit, grant `plans:auto_edit` on a `plans:namespace:<ns>` scope instead of using this fixed role.''
     ''Plans''
     [grant ACTIONS_PlansRead ''plans:*'',
      grant ACTIONS_PlansApprove ''plans:*'',
      grant ACTIONS_PlansAutoEdit ''plans:*'']
     None"

definition AGENTS_CONFIG_READER :: FixedRoleDefinition where
  "AGENTS_CONFIG_READER = fixed_def
     ''fixed:agents.config:reader'' ''Agents configuration reader''
     ''Read agent configuration.''
     ''Agents''
     [grant ACTIONS_AgentsConfigRead []]
     None"

definition AGENTS_CONFIG_WRITER :: FixedRoleDefinition where
  "AGENTS_CONFIG_WRITER = fixed_def
     ''fixed:agents.config:writer'' ''Agents configuration writer''
     ''Change agent configuration.''
     ''Agents''
     [grant ACTIONS_AgentsConfigRead [],
      grant ACTIONS_AgentsConfigWrite []]
     None"

definition OPS_COMMANDS_RUNNER :: FixedRoleDefinition where
  "OPS_COMMANDS_RUNNER = fixed_def
     ''fixed:ops.commands:runner'' ''Ops command runner''
     ''Run policy-gated Ops/Kubernetes commands through configured connectors.''
     ''Ops''
     [grant ACTIONS_ConnectorsRead ''connectors:*'',
      grant ACTIONS_OpsCommandsRun ''connectors:*'']
     None"

definition FIXED_ROLE_DEFINITIONS :: "FixedRoleDefinition list" where
  "FIXED_ROLE_DEFINITIONS =
     [DASHBOARDS_READER, DASHBOARDS_WRITER, DASHBOARDS_CREATOR,
      DASHBOARDS_PERMISSIONS_READER, DASHBOARDS_PERMISSIONS_WRITER, FOLDERS_READER,
      FOLDERS_WRITER, FOLDERS_CREATOR, FOLDERS_PERMISSIONS_READER,
      FOLDERS_PERMISSIONS_WRITER, DATASOURCES_READER, DATASOURCES_WRITER,
      DATASOURCES_CREATOR, DATASOURCES_EXPLORER, DATASOURCES_PERMISSIONS_READER,
      DATASOURCES_PERMISSIONS_WRITER, DATASOURCES_ID_READER, USERS_READER, USERS_WRITER,
      ORG_USERS_READER, ORG_USERS_WRITER, ORGS_READER, ORGS_WRITER, ORGS_CREATOR,
      TEAMS_READER, TEAMS_WRITER, TEAMS_CREATOR, SA_READER, SA_WRITER, SA_CREATOR,
      ROLES_READER, ROLES_WRITER, ANNOTATIONS_READER, ANNOTATIONS_WRITER,
      ALERT_RULES_READER, ALERT_RULES_WRITER, ALERT_INSTANCES_READER,
      ALERT_INSTANCES_WRITER, ALERT_NOTIFICATIONS_READER, ALERT_NOTIFICATIONS_WRITER,
      ALERT_SILENCES_READER, ALERT_SILENCES_CREATOR, ALERT_SILENCES_WRITER,
      ALERT_PROVISIONING_READER, ALERT_PROVISIONING_WRITER, SERVER_STATS_READER,
      SERVER_USAGESTATS_REPORT_READER, APIKEYS_READER, APIKEYS_WRITER,
      INVESTIGATIONS_READER, INVESTIGATIONS_WRITER, APPROVALS_READER, APPROVALS_APPROVER,
      APPROVALS_OVERRIDER, APPROVALS_CLUSTER_APPROVER, APPROVALS_NAMESPACE_APPROVER,
      APPROVALS_TEAM_VIEWER, PLANS_READER, PLANS_APPROVER, PLANS_AUTO_EDITOR,
      AGENTS_CONFIG_READER, AGENTS_CONFIG_WRITER, OPS_COMMANDS_RUNNER]"

lemmas fixed_role_defs =
  DASHBOARDS_READER_def DASHBOARDS_WRITER_def DASHBOARDS_CREATOR_def
  DASHBOARDS_PERMISSIONS_READER_def DASHBOARDS_PERMISSIONS_WRITER_def FOLDERS_READER_def
  FOLDERS_WRITER_def FOLDERS_CREATOR_def FOLDERS_PERMISSIONS_READER_def
  FOLDERS_PERMISSIONS_WRITER_def DATASOURCES_READER_def DATASOURCES_WRITER_def
  DATASOURCES_CREATOR_def DATASOURCES_EXPLORER_def DATASOURCES_PERMISSIONS_READER_def
  DATASOURCES_PERMISSIONS_WRITER_def DATASOURCES_ID_READER_def USERS_READER_def
  USERS_WRITER_def ORG_USERS_READER_def ORG_USERS_WRITER_def ORGS_READER_def
  ORGS_WRITER_def ORGS_CREATOR_def TEAMS_READER_def TEAMS_WRITER_def TEAMS_CREATOR_def
  SA_READER_def SA_WRITER_def SA_CREATOR_def ROLES_READER_def ROLES_WRITER_def
  ANNOTATIONS_READER_def ANNOTATIONS_WRITER_def ALERT_RULES_READER_def
  ALERT_RULES_WRITER_def ALERT_INSTANCES_READER_def ALERT_INSTANCES_WRITER_def
  ALERT_NOTIFICATIONS_READER_def ALERT_NOTIFICATIONS_WRITER_def ALERT_SILENCES_READER_def
  ALERT_SILENCES_CREATOR_def ALERT_SILENCES_WRITER_def ALERT_PROVISIONING_READER_def
  ALERT_PROVISIONING_WRITER_def SERVER_STATS_READER_def
  SERVER_USAGESTATS_REPORT_READER_def APIKEYS_READER_def APIKEYS_WRITER_def
  INVESTIGATIONS_READER_def INVESTIGATIONS_WRITER_def APPROVALS_READER_def
  APPROVALS_APPROVER_def APPROVALS_OVERRIDER_def APPROVALS_CLUSTER_APPROVER_def
  APPROVALS_NAMESPACE_APPROVER_def APPROVALS_TEAM_VIEWER_def PLANS_READER_def
  PLANS_APPROVER_def PLANS_AUTO_EDITOR_def AGENTS_CONFIG_READER_def
  AGENTS_CONFIG_WRITER_def OPS_COMMANDS_RUNNER_def

definition findFixedRole :: "string \<Rightarrow> FixedRoleDefinition option" where
  "findFixedRole name = List.find (\<lambda>r. fr_name r = name) FIXED_ROLE_DEFINITIONS"

section \<open>Lemmas\<close>

lemma fixed_actions_known:
  "list_all (\<lambda>r. list_all (\<lambda>p. isKnownAction (rp_action p)) (fr_permissions r))
     FIXED_ROLE_DEFINITIONS"
  by (simp add: FIXED_ROLE_DEFINITIONS_def fixed_role_defs fixed_def_def
      isKnownAction_def ALL_ACTIONS_def ACTIONS_def)

lemma fixed_names_distinct: "distinct (map fr_name FIXED_ROLE_DEFINITIONS)"
  by code_simp

lemma fixed_uids_distinct: "distinct (map fr_uid FIXED_ROLE_DEFINITIONS)"
  by code_simp

lemma find_distinct_key:
  "distinct (map f xs) \<Longrightarrow> x \<in> set xs \<Longrightarrow> List.find (\<lambda>y. f y = f x) xs = Some x"
  by (induction xs) (auto simp: image_iff)

lemma auto_edit_roles:
  "list_all (\<lambda>r. fr_name r = ''fixed:plans:auto_editor''
       \<or> list_all (\<lambda>p. rp_action p \<noteq> ACTIONS_PlansAutoEdit) (fr_permissions r))
     FIXED_ROLE_DEFINITIONS"
  by code_simp

section \<open>Properties\<close>

text \<open>The fixed-role catalog is well keyed and bounded. Looking a role up by its name returns
  that role, no two roles share a uid, every permission names a catalogued action, and the
  Server Admin passes every check that holder of a fixed role passes.\<close>

theorem fixed_role_catalog:
  assumes "r \<in> set FIXED_ROLE_DEFINITIONS" "r' \<in> set FIXED_ROLE_DEFINITIONS"
  shows "findFixedRole (fr_name r) = Some r
    \<and> (fr_uid r = fr_uid r' \<longrightarrow> r = r')
    \<and> (\<forall>p\<in>set (fr_permissions r). isKnownAction (rp_action p))
    \<and> (evaluate e (fr_permissions r) \<longrightarrow> evaluate e SERVER_ADMIN_PERMISSIONS)"
proof -
  have known: "\<forall>p\<in>set (fr_permissions r). isKnownAction (rp_action p)"
    using fixed_actions_known assms(1) by (auto simp: list_all_iff)
  moreover have "findFixedRole (fr_name r) = Some r"
    unfolding findFixedRole_def using fixed_names_distinct assms(1) by (rule find_distinct_key)
  moreover have "fr_uid r = fr_uid r' \<longrightarrow> r = r'"
    using fixed_uids_distinct assms by (auto simp: distinct_map dest: inj_onD)
  moreover have "evaluate e (fr_permissions r) \<longrightarrow> evaluate e SERVER_ADMIN_PERMISSIONS"
    using evaluate_mono server_admin_dominates [OF known] by blast
  ultimately show ?thesis by blast
qed

theorem fixed_role_catalog_witness:
  "findFixedRole (fr_name PLANS_READER) = Some PLANS_READER \<and> isKnownAction ACTIONS_PlansRead"
proof -
  have "PLANS_READER \<in> set FIXED_ROLE_DEFINITIONS" by (simp add: FIXED_ROLE_DEFINITIONS_def)
  moreover have "grant ACTIONS_PlansRead ''plans:*'' \<in> set (fr_permissions PLANS_READER)"
    by (simp add: PLANS_READER_def fixed_def_def)
  ultimately show ?thesis
    using fixed_role_catalog [of PLANS_READER PLANS_READER] by fastforce
qed

text \<open>Among the fixed roles only the plans auto-editor grants auto-edit: a holder of any other
  fixed role, and of no further permission, fails every auto-edit check.\<close>

theorem fixed_roles_auto_edit:
  assumes "r \<in> set FIXED_ROLE_DEFINITIONS" "fr_name r \<noteq> ''fixed:plans:auto_editor''"
  shows "\<not> evaluate (ac_eval ACTIONS_PlansAutoEdit arg) (fr_permissions r)"
proof -
  have "\<not> holds_action (fr_permissions r) ACTIONS_PlansAutoEdit"
    using assms auto_edit_roles unfolding holds_action_def list_all_iff by blast
  then show ?thesis by (cases arg) (simp_all add: evaluate_iff)
qed

theorem fixed_roles_auto_edit_witness:
  "\<not> evaluate (ac_eval ACTIONS_PlansAutoEdit NoScope) (fr_permissions PLANS_APPROVER)"
proof (rule fixed_roles_auto_edit)
  show "PLANS_APPROVER \<in> set FIXED_ROLE_DEFINITIONS" by (simp add: FIXED_ROLE_DEFINITIONS_def)
  show "fr_name PLANS_APPROVER \<noteq> ''fixed:plans:auto_editor''"
    by (simp add: PLANS_APPROVER_def fixed_def_def)
qed

text \<open>The shipped approver roles are not alike. The cluster approver's wildcard connector scope
  lets its holder approve every row that has a connector, while the namespace approver's
  \<open>approvals:namespace:*:*\<close> is a literal that selects only a row whose connector and namespace
  are themselves named \<open>*\<close>.\<close>

theorem namespace_approver_is_literal:
  "(evaluate (AnyEvaluator (map (\<lambda>w. ac_eval ACTIONS_ApprovalsApprove (OneScope w))
        (approvalRowScopes row))) (fr_permissions APPROVALS_NAMESPACE_APPROVER)
      \<longleftrightarrow> row_opsConnectorId row = Some ''*'' \<and> row_targetNamespace row = Some ''*'')
   \<and> (evaluate (AnyEvaluator (map (\<lambda>w. ac_eval ACTIONS_ApprovalsApprove (OneScope w))
        (approvalRowScopes row))) (fr_permissions APPROVALS_CLUSTER_APPROVER)
      \<longleftrightarrow> truthy (row_opsConnectorId row))"
proof
  have any: "evaluate (AnyEvaluator (map (\<lambda>w. ac_eval a (OneScope w)) ws)) ps
      \<longleftrightarrow> (\<exists>w\<in>set ws. granted ps a w)" for a ws ps
    by (auto simp: evaluate_iff granted_def holds_action_def)
  have act: "ACTIONS_ApprovalsRead \<noteq> ACTIONS_ApprovalsApprove"
    by (simp add: action_defs)
  have ns: "parseApprovalScope ''approvals:namespace:*:*'' = Some (ScNamespace ''*'' ''*'')"
    by code_simp
  show "evaluate (AnyEvaluator (map (\<lambda>w. ac_eval ACTIONS_ApprovalsApprove (OneScope w))
        (approvalRowScopes row))) (fr_permissions APPROVALS_NAMESPACE_APPROVER)
      \<longleftrightarrow> row_opsConnectorId row = Some ''*'' \<and> row_targetNamespace row = Some ''*''"
    unfolding any using approval_grant [OF ns, of row] act
    by (simp add: granted_def APPROVALS_NAMESPACE_APPROVER_def fixed_def_def)
  have conn: "parseScope ''approvals:connector:*'' =
      \<lparr>ps_kind = ''approvals'', ps_attribute = ''connector'', ps_identifier = ''*''\<rparr>"
    by code_simp
  have covers: "scopeCovers ''approvals:connector:*'' (approvalShape a i) \<longleftrightarrow> a = ''connector''"
    if "CHR '':'' \<notin> set a" for a i
    using that by (auto simp: scopeCovers_segments conn parseScope_shape segMatches_def)
  have g: "granted (fr_permissions APPROVALS_CLUSTER_APPROVER) ACTIONS_ApprovalsApprove w
      \<longleftrightarrow> scopeCovers ''approvals:connector:*'' w" for w
    using act by (simp add: granted_def APPROVALS_CLUSTER_APPROVER_def fixed_def_def)
  show "evaluate (AnyEvaluator (map (\<lambda>w. ac_eval ACTIONS_ApprovalsApprove (OneScope w))
        (approvalRowScopes row))) (fr_permissions APPROVALS_CLUSTER_APPROVER)
      \<longleftrightarrow> truthy (row_opsConnectorId row)"
    unfolding any g by (auto simp: Bex_def approval_row_members covers truthy_iff)
qed

end
