(* ===== verification/Folder_Repository.thy ===== *)
theory Folder_Repository
  imports Prelude "HOL-Library.List_Lexorder" "HOL-Library.Char_ord"
begin

text \<open>
  The folder table and its repository (\<open>data-layer/src/repository/auth/folder-repository.ts\<close>).
  The table is the list of its rows; the primary key \<open>id\<close> and the unique index on
  \<open>(org_id, uid)\<close> are checked by the insert. Identifiers and timestamps the code generates are
  arguments. Errors are the values of \<open>FolderError\<close>.

  Results: a successful create or move keeps every organisation's parent relation acyclic and
  without dangling parents; the climb that guards them ends after at most
  \<open>FOLDER_MAX_DEPTH\<close> links; \<open>listAncestors\<close> returns true ancestors only, at most
  \<open>FOLDER_MAX_DEPTH + 1\<close> of them, and all of them when the chain is that short; deleting rows
  of the table at the repository level lets a later create close a cycle.
\<close>

section \<open>Definitions\<close>

definition FOLDER_MAX_DEPTH :: nat where
  "FOLDER_MAX_DEPTH = 8"

record GrafanaFolder =
  fo_id :: string
  fo_uid :: string
  fo_orgId :: string
  fo_title :: string
  fo_description :: "string option"
  fo_parentUid :: "string option"
  fo_created :: int
  fo_updated :: int
  fo_createdBy :: "string option"
  fo_updatedBy :: "string option"
  fo_source :: string
  fo_provenance :: "string option"

record NewGrafanaFolder =
  nf_id :: "string option"
  nf_uid :: string
  nf_orgId :: string
  nf_title :: string
  nf_description :: "string option"
  nf_parentUid :: "string option"
  nf_createdBy :: "string option"
  nf_updatedBy :: "string option"
  nf_source :: "string option"
  nf_provenance :: "string option"

text \<open>A patch: the outer \<open>None\<close> is \<open>undefined\<close> (leave), the inner one is \<open>null\<close>.\<close>

record GrafanaFolderPatch =
  pa_title :: "string option"
  pa_description :: "string option option"
  pa_parentUid :: "string option option"
  pa_updatedBy :: "string option option"

datatype FolderError =
    ParentNotFound string
  | OwnParent string
  | AncestorCycle string string
  | DepthExceeded
  | UniqueViolation
  | CreateFailed string

type_synonym folder_table = "GrafanaFolder list"

definition folderFindById :: "folder_table \<Rightarrow> string \<Rightarrow> GrafanaFolder option" where
  "folderFindById db i = List.find (\<lambda>r. fo_id r = i) db"

definition folderFindByUid :: "folder_table \<Rightarrow> string \<Rightarrow> string \<Rightarrow> GrafanaFolder option" where
  "folderFindByUid db orgId u = List.find (\<lambda>r. fo_orgId r = orgId \<and> fo_uid r = u) db"

record ListFoldersOptions =
  lo_orgId :: string
  lo_parentUid :: "string option option"
  lo_limit :: "nat option"
  lo_offset :: "nat option"

definition folderList :: "folder_table \<Rightarrow> ListFoldersOptions \<Rightarrow> GrafanaFolder list \<times> nat" where
  "folderList db opts =
     (let rows = filter (\<lambda>r. fo_orgId r = lo_orgId opts
            \<and> (case lo_parentUid opts of None \<Rightarrow> True | Some p \<Rightarrow> fo_parentUid r = p)) db
      in (take (or_default (lo_limit opts) 200)
            (drop (or_default (lo_offset opts) 0) (sort_key fo_title rows)), length rows))"

text \<open>The loop of \<open>listAncestors\<close>: the counter \<open>i\<close> runs down from \<open>FOLDER_MAX_DEPTH + 1\<close>.\<close>

fun ancestor_loop :: "nat \<Rightarrow> folder_table \<Rightarrow> string \<Rightarrow> GrafanaFolder \<Rightarrow> GrafanaFolder list" where
  "ancestor_loop 0 db orgId cursor = []"
| "ancestor_loop (Suc i) db orgId cursor =
     (if \<not> truthy (fo_parentUid cursor) then []
      else (case folderFindByUid db orgId (the (fo_parentUid cursor)) of
              None \<Rightarrow> []
            | Some parent \<Rightarrow> parent # ancestor_loop i db orgId parent))"

definition listAncestors :: "folder_table \<Rightarrow> string \<Rightarrow> string \<Rightarrow> GrafanaFolder list" where
  "listAncestors db orgId u =
     (case folderFindByUid db orgId u of
        None \<Rightarrow> []
      | Some cursor \<Rightarrow> ancestor_loop (FOLDER_MAX_DEPTH + 1) db orgId cursor)"

definition listChildren :: "folder_table \<Rightarrow> string \<Rightarrow> string option \<Rightarrow> GrafanaFolder list" where
  "listChildren db orgId parentUid =
     sort_key fo_title (filter (\<lambda>r. fo_orgId r = orgId \<and> fo_parentUid r = parentUid) db)"

text \<open>
  The loop of \<open>assertParentAndDepth\<close>. It stops at a folder without a (found) parent, and
  fails on meeting the folder being moved or on passing the depth limit.
\<close>

function climb :: "folder_table \<Rightarrow> string \<Rightarrow> string \<Rightarrow> string option \<Rightarrow> GrafanaFolder \<Rightarrow> nat
    \<Rightarrow> FolderError + unit" where
  "climb db orgId parentUid movingUid cursor depth =
     (if \<not> truthy (fo_parentUid cursor) then Inr ()
      else (case folderFindByUid db orgId (the (fo_parentUid cursor)) of
              None \<Rightarrow> Inr ()
            | Some nxt \<Rightarrow>
                if truthy movingUid \<and> fo_uid nxt = the movingUid
                then Inl (AncestorCycle (the movingUid) parentUid)
                else if depth + 1 > FOLDER_MAX_DEPTH then Inl DepthExceeded
                else climb db orgId parentUid movingUid nxt (depth + 1)))"
  by pat_completeness auto
termination
  by (relation "measure (\<lambda>(db, orgId, parentUid, movingUid, cursor, depth).
      FOLDER_MAX_DEPTH - depth)") auto

declare climb.simps [simp del]

definition assertParentAndDepth ::
    "folder_table \<Rightarrow> string \<Rightarrow> string \<Rightarrow> string option \<Rightarrow> FolderError + unit" where
  "assertParentAndDepth db orgId parentUid movingUid =
     (case folderFindByUid db orgId parentUid of
        None \<Rightarrow> Inl (ParentNotFound parentUid)
      | Some parent \<Rightarrow>
          if truthy movingUid \<and> fo_uid parent = the movingUid
          then Inl (OwnParent (the movingUid))
          else climb db orgId parentUid movingUid parent 1)"

definition folderRow :: "string \<Rightarrow> int \<Rightarrow> NewGrafanaFolder \<Rightarrow> GrafanaFolder" where
  "folderRow genId now inp =
     \<lparr>fo_id = or_default (nf_id inp) genId, fo_uid = nf_uid inp, fo_orgId = nf_orgId inp,
      fo_title = nf_title inp, fo_description = nf_description inp,
      fo_parentUid = nf_parentUid inp, fo_created = now, fo_updated = now,
      fo_createdBy = nf_createdBy inp, fo_updatedBy = nf_updatedBy inp,
      fo_source = or_default (nf_source inp) ''manual'', fo_provenance = nf_provenance inp\<rparr>"

text \<open>The insert refuses a duplicate primary key or a duplicate \<open>(org_id, uid)\<close>.\<close>

definition folderInsert :: "folder_table \<Rightarrow> GrafanaFolder \<Rightarrow> folder_table option" where
  "folderInsert db row =
     (if list_ex (\<lambda>r. fo_id r = fo_id row \<or> (fo_orgId r = fo_orgId row \<and> fo_uid r = fo_uid row)) db
      then None else Some (db @ [row]))"

definition folderCreate :: "folder_table \<Rightarrow> string \<Rightarrow> int \<Rightarrow> NewGrafanaFolder
    \<Rightarrow> FolderError + (folder_table \<times> GrafanaFolder)" where
  "folderCreate db genId now inp =
     (case (if truthy (nf_parentUid inp)
            then assertParentAndDepth db (nf_orgId inp) (the (nf_parentUid inp)) None
            else Inr ()) of
        Inl e \<Rightarrow> Inl e
      | Inr _ \<Rightarrow>
          (case folderInsert db (folderRow genId now inp) of
             None \<Rightarrow> Inl UniqueViolation
           | Some db' \<Rightarrow>
               (case folderFindById db' (or_default (nf_id inp) genId) of
                  None \<Rightarrow> Inl (CreateFailed (or_default (nf_id inp) genId))
                | Some row \<Rightarrow> Inr (db', row))))"

definition folderPatched :: "int \<Rightarrow> GrafanaFolderPatch \<Rightarrow> GrafanaFolder \<Rightarrow> GrafanaFolder" where
  "folderPatched now patch ex =
     ex\<lparr>fo_title := or_default (pa_title patch) (fo_title ex),
        fo_description := or_default (pa_description patch) (fo_description ex),
        fo_parentUid := or_default (pa_parentUid patch) (fo_parentUid ex),
        fo_updated := now,
        fo_updatedBy := or_default (pa_updatedBy patch) (fo_updatedBy ex)\<rparr>"

text \<open>
  The move check runs only for a patch with a parent that is neither \<open>undefined\<close> nor
  \<open>null\<close> nor the parent the folder has. An empty string is such a parent; no folder has the
  empty uid in practice, so the check then fails.
\<close>

definition folderUpdate :: "folder_table \<Rightarrow> int \<Rightarrow> string \<Rightarrow> GrafanaFolderPatch
    \<Rightarrow> FolderError + (folder_table \<times> GrafanaFolder option)" where
  "folderUpdate db now i patch =
     (case folderFindById db i of
        None \<Rightarrow> Inr (db, None)
      | Some ex \<Rightarrow>
          (case (case pa_parentUid patch of
                   Some (Some p) \<Rightarrow>
                     if Some p \<noteq> fo_parentUid ex
                     then assertParentAndDepth db (fo_orgId ex) p (Some (fo_uid ex))
                     else Inr ()
                 | _ \<Rightarrow> Inr ()) of
             Inl e \<Rightarrow> Inl e
           | Inr _ \<Rightarrow>
               let db' = map (\<lambda>r. if fo_id r = i then folderPatched now patch ex else r) db
               in Inr (db', folderFindById db' i)))"

definition folderDelete :: "folder_table \<Rightarrow> string \<Rightarrow> folder_table \<times> bool" where
  "folderDelete db i =
     (case folderFindById db i of
        None \<Rightarrow> (db, False)
      | Some _ \<Rightarrow> (filter (\<lambda>r. fo_id r \<noteq> i) db, True))"

subsection \<open>Specification vocabulary\<close>

text \<open>The parent relation of one organisation, as pairs (parent uid, child uid).\<close>

definition parentRel :: "folder_table \<Rightarrow> string \<Rightarrow> (string \<times> string) set" where
  "parentRel db orgId =
     {(p, c). \<exists>r\<in>set db. fo_orgId r = orgId \<and> fo_uid r = c \<and> fo_parentUid r = Some p \<and> p \<noteq> []}"

definition folderKeys :: "folder_table \<Rightarrow> bool" where
  "folderKeys db \<longleftrightarrow> distinct (map fo_id db) \<and> distinct (map (\<lambda>r. (fo_orgId r, fo_uid r)) db)
     \<and> (\<forall>r\<in>set db. fo_uid r \<noteq> [])"

definition folderClosed :: "folder_table \<Rightarrow> bool" where
  "folderClosed db \<longleftrightarrow>
     (\<forall>r\<in>set db. truthy (fo_parentUid r) \<longrightarrow>
        folderFindByUid db (fo_orgId r) (the (fo_parentUid r)) \<noteq> None)"

definition folderForest :: "folder_table \<Rightarrow> bool" where
  "folderForest db \<longleftrightarrow> folderKeys db \<and> folderClosed db \<and> (\<forall>orgId. acyclic (parentRel db orgId))"

text \<open>
  The changes of the table the service makes: creates (its uids are never empty), patches, and
  deletes of folders without children (it deletes a subtree bottom up).
\<close>

inductive folder_step :: "folder_table \<Rightarrow> folder_table \<Rightarrow> bool" where
  step_create: "folderCreate db genId now inp = Inr (db', row) \<Longrightarrow> nf_uid inp \<noteq> [] \<Longrightarrow> folder_step db db'"
| step_update: "folderUpdate db now i patch = Inr (db', res) \<Longrightarrow> folder_step db db'"
| step_delete: "r \<in> set db \<Longrightarrow> listChildren db (fo_orgId r) (Some (fo_uid r)) = [] \<Longrightarrow>
    folder_step db (fst (folderDelete db (fo_id r)))"

section \<open>Lookups and the parent relation\<close>

lemma findByUid_None:
  "folderFindByUid db og u = None \<longleftrightarrow> (og, u) \<notin> (\<lambda>r. (fo_orgId r, fo_uid r)) ` set db"
  by (auto simp: folderFindByUid_def find_None_iff)

lemma findByUid_present:
  "r \<in> set db \<Longrightarrow> fo_orgId r = og \<Longrightarrow> fo_uid r = u \<Longrightarrow> folderFindByUid db og u \<noteq> None"
  by (auto simp: findByUid_None)

lemma findByUid_SomeD:
  "folderFindByUid db og u = Some r \<Longrightarrow> r \<in> set db \<and> fo_orgId r = og \<and> fo_uid r = u"
  unfolding folderFindByUid_def by (drule find_Some_iff_first) auto

lemma findById_SomeD: "folderFindById db i = Some r \<Longrightarrow> r \<in> set db \<and> fo_id r = i"
  unfolding folderFindById_def by (drule find_Some_iff_first) auto

lemma keys_unique:
  "folderKeys db \<Longrightarrow> r \<in> set db \<Longrightarrow> r' \<in> set db \<Longrightarrow> fo_orgId r = fo_orgId r' \<Longrightarrow>
   fo_uid r = fo_uid r' \<Longrightarrow> r = r'"
  unfolding folderKeys_def by (auto simp: distinct_map dest: inj_onD)

lemma keys_unique_id:
  "folderKeys db \<Longrightarrow> r \<in> set db \<Longrightarrow> r' \<in> set db \<Longrightarrow> fo_id r = fo_id r' \<Longrightarrow> r = r'"
  unfolding folderKeys_def by (auto simp: distinct_map dest: inj_onD)

lemma parentRel_edge:
  "(p, c) \<in> parentRel db og \<longleftrightarrow>
     (\<exists>r\<in>set db. fo_orgId r = og \<and> fo_uid r = c \<and> fo_parentUid r = Some p \<and> p \<noteq> [])"
  by (simp add: parentRel_def)

text \<open>With unique keys a folder's only parent is the one its row names.\<close>

lemma parentRel_row:
  assumes "folderKeys db" "r \<in> set db" "fo_orgId r = og"
  shows "(p, fo_uid r) \<in> parentRel db og \<longleftrightarrow> fo_parentUid r = Some p \<and> p \<noteq> []"
  using assms keys_unique by (auto simp: parentRel_edge)

lemma trancl_row:
  assumes "folderKeys db" "r \<in> set db" "fo_orgId r = og" "(a, fo_uid r) \<in> (parentRel db og)\<^sup>+"
  shows "\<exists>q. fo_parentUid r = Some q \<and> q \<noteq> [] \<and> (a = q \<or> (a, q) \<in> (parentRel db og)\<^sup>+)"
proof -
  from assms(4) obtain q where "(q, fo_uid r) \<in> parentRel db og"
      "a = q \<or> (a, q) \<in> (parentRel db og)\<^sup>+"
    by (auto elim: tranclE)
  with parentRel_row [OF assms(1-3)] show ?thesis by blast
qed

lemma trancl_target_is_row:
  "(a, c) \<in> (parentRel db og)\<^sup>+ \<Longrightarrow> folderFindByUid db og c \<noteq> None"
  by (erule tranclE) (auto simp: parentRel_edge findByUid_None)

text \<open>A successful climb has met every ancestor, and none of them is the moved folder.\<close>

lemma climb_ok_no_ancestor:
  assumes "climb db og pu (Some m) cur d = Inr ()" "m \<noteq> []" "folderKeys db"
    and "cur \<in> set db" "fo_orgId cur = og" "folderFindByUid db og m \<noteq> None"
  shows "(m, fo_uid cur) \<notin> (parentRel db og)\<^sup>+"
  using assms
proof (induction db og pu "Some m" cur d rule: climb.induct)
  case (1 db og pu cur d)
  show ?case
  proof
    assume "(m, fo_uid cur) \<in> (parentRel db og)\<^sup>+"
    then obtain q where q: "fo_parentUid cur = Some q" "q \<noteq> []"
        "m = q \<or> (m, q) \<in> (parentRel db og)\<^sup>+"
      using trancl_row "1.prems"(3-5) by blast
    then have qrow: "folderFindByUid db og q \<noteq> None"
      using "1.prems"(6) trancl_target_is_row by blast
    then obtain nxt where nxt: "folderFindByUid db og q = Some nxt" by blast
    then have row: "nxt \<in> set db" "fo_orgId nxt = og" "fo_uid nxt = q"
      using findByUid_SomeD by blast+
    have "fo_uid nxt \<noteq> m \<and> \<not> d + 1 > FOLDER_MAX_DEPTH
        \<and> climb db og pu (Some m) nxt (d + 1) = Inr ()"
      using "1.prems"(1,2) q(1,2) nxt by (subst (asm) climb.simps) (auto split: if_splits)
    moreover from this have "(m, fo_uid nxt) \<notin> (parentRel db og)\<^sup>+"
      using "1.hyps" [of nxt] "1.prems"(2,3,6) q(1,2) nxt row by auto
    ultimately show False using q(3) row(3) by auto
  qed
qed

lemma assert_ok_no_cycle:
  assumes "assertParentAndDepth db og p (Some m) = Inr ()" "m \<noteq> []" "folderKeys db"
    and "folderFindByUid db og m \<noteq> None"
  shows "folderFindByUid db og p \<noteq> None \<and> (m, p) \<notin> (parentRel db og)\<^sup>*"
proof -
  obtain parent where par: "folderFindByUid db og p = Some parent" "fo_uid parent \<noteq> m"
      "climb db og p (Some m) parent 1 = Inr ()"
    using assms(1,2) by (auto simp: assertParentAndDepth_def split: option.splits if_splits)
  have row: "parent \<in> set db" "fo_orgId parent = og" "fo_uid parent = p"
    using findByUid_SomeD [OF par(1)] by blast+
  have "(m, p) \<notin> (parentRel db og)\<^sup>+"
    using climb_ok_no_ancestor [OF par(3) assms(2,3) row(1,2) assms(4)] row(3) by simp
  then show ?thesis using par(1,2) row(3) by (auto simp: rtrancl_eq_or_trancl)
qed

section \<open>The forest invariant\<close>

lemma patched_simps [simp]:
  "fo_id (folderPatched now pt ex) = fo_id ex"
  "fo_uid (folderPatched now pt ex) = fo_uid ex"
  "fo_orgId (folderPatched now pt ex) = fo_orgId ex"
  "fo_parentUid (folderPatched now pt ex) = or_default (pa_parentUid pt) (fo_parentUid ex)"
  by (simp_all add: folderPatched_def)

text \<open>Replacing one row by another with the same keys keeps keys and lookups.\<close>

definition replaceRow :: "folder_table \<Rightarrow> string \<Rightarrow> GrafanaFolder \<Rightarrow> folder_table" where
  "replaceRow db i new = map (\<lambda>r. if fo_id r = i then new else r) db"

lemma replaceRow_keys:
  assumes "folderKeys db" "ex \<in> set db" "fo_id ex = i"
    and "fo_id new = i" "fo_uid new = fo_uid ex" "fo_orgId new = fo_orgId ex"
  shows "map fo_id (replaceRow db i new) = map fo_id db
    \<and> map (\<lambda>r. (fo_orgId r, fo_uid r)) (replaceRow db i new) = map (\<lambda>r. (fo_orgId r, fo_uid r)) db
    \<and> set (replaceRow db i new) = insert new (set db - {ex})"
proof (intro conjI)
  have only: "r = ex" if "r \<in> set db" "fo_id r = i" for r
    using keys_unique_id [OF assms(1) that(1) assms(2)] that(2) assms(3) by simp
  then show "map fo_id (replaceRow db i new) = map fo_id db"
    "map (\<lambda>r. (fo_orgId r, fo_uid r)) (replaceRow db i new) = map (\<lambda>r. (fo_orgId r, fo_uid r)) db"
    using assms(4-6) by (auto simp: replaceRow_def)
  have "(if fo_id r = i then new else r) = (if r = ex then new else r)" if "r \<in> set db" for r
    using only [OF that] assms(3) by metis
  then have "set (replaceRow db i new) = (\<lambda>r. if r = ex then new else r) ` set db"
    unfolding replaceRow_def set_map by (rule image_cong [OF refl])
  also have "\<dots> = insert new (set db - {ex})"
    using assms(2) by (auto simp: image_iff)
  finally show "set (replaceRow db i new) = insert new (set db - {ex})" .
qed

lemma findByUid_keys_cong:
  assumes "map (\<lambda>r. (fo_orgId r, fo_uid r)) db' = map (\<lambda>r. (fo_orgId r, fo_uid r)) db"
  shows "folderFindByUid db' og u = None \<longleftrightarrow> folderFindByUid db og u = None"
proof -
  have "(\<lambda>r. (fo_orgId r, fo_uid r)) ` set db' = (\<lambda>r. (fo_orgId r, fo_uid r)) ` set db"
    using arg_cong [OF assms, of set] by simp
  then show ?thesis by (simp add: findByUid_None)
qed

lemma forest_update:
  assumes inv: "folderForest db" and upd: "folderUpdate db now i pt = Inr (db', res)"
  shows "folderForest db'"
proof (cases "folderFindById db i")
  case None
  with upd inv show ?thesis by (simp add: folderUpdate_def)
next
  case (Some ex)
  let ?og = "fo_orgId ex" and ?new = "folderPatched now pt ex"
  let ?p' = "or_default (pa_parentUid pt) (fo_parentUid ex)"
  have keys: "folderKeys db" and closed: "folderClosed db" and acyc: "\<And>og. acyclic (parentRel db og)"
    using inv by (auto simp: folderForest_def)
  have ex: "ex \<in> set db" "fo_id ex = i" using findById_SomeD [OF Some] by auto
  have db': "db' = replaceRow db i ?new"
    using upd Some by (auto simp: folderUpdate_def replaceRow_def Let_def split: sum.splits)
  note R = replaceRow_keys [OF keys ex, of ?new, simplified, folded db', OF ex(2)]
  have ne: "fo_uid ex \<noteq> []" using keys ex(1) by (auto simp: folderKeys_def)
  have own: "folderFindByUid db ?og (fo_uid ex) \<noteq> None"
    using ex(1) by (auto simp: findByUid_None)
  have good: "folderFindByUid db ?og p \<noteq> None
      \<and> ((p, fo_uid ex) \<in> parentRel db ?og \<or> (fo_uid ex, p) \<notin> (parentRel db ?og)\<^sup>*)"
    if "?p' = Some p" "p \<noteq> []" for p
  proof (cases "fo_parentUid ex = Some p")
    case True
    then show ?thesis using that(2) closed ex(1) by (auto simp: folderClosed_def parentRel_edge)
  next
    case False
    with that have "pa_parentUid pt = Some (Some p)" by (cases "pa_parentUid pt") auto
    then have "assertParentAndDepth db ?og p (Some (fo_uid ex)) = Inr ()"
      using upd Some False by (auto simp: folderUpdate_def split: sum.splits)
    from assert_ok_no_cycle [OF this ne keys own] show ?thesis by blast
  qed
  have "folderKeys db'" using keys R ex(1) by (auto simp: folderKeys_def)
  moreover have "folderClosed db'"
    unfolding folderClosed_def findByUid_keys_cong [OF conjunct1 [OF conjunct2 [OF R]]]
    using closed good R by (auto simp: folderClosed_def truthy_iff)
  moreover have "acyclic (parentRel db' og)" for og
  proof -
    have sub: "parentRel db' og \<subseteq> parentRel db og \<union> {(p, c). og = ?og \<and> c = fo_uid ex \<and> ?p' = Some p \<and> p \<noteq> []}"
      using R by (auto simp: parentRel_def)
    show ?thesis
    proof (cases "og = ?og \<and> truthy ?p'")
      case False
      then have "parentRel db' og \<subseteq> parentRel db og" using sub by (auto simp: truthy_iff)
      then show ?thesis using acyc acyclic_subset by blast
    next
      case True
      then obtain p where p: "og = ?og" "?p' = Some p" "p \<noteq> []" by (auto simp: truthy_iff)
      then have "parentRel db' og \<subseteq> insert (p, fo_uid ex) (parentRel db og)" using sub by auto
      moreover have "acyclic (insert (p, fo_uid ex) (parentRel db og))"
      proof (cases "(p, fo_uid ex) \<in> parentRel db og")
        case True
        then show ?thesis using acyc by (simp add: insert_absorb)
      next
        case False
        then show ?thesis using good [OF p(2,3)] acyc p(1) by (simp add: acyclic_insert)
      qed
      ultimately show ?thesis using acyclic_subset by blast
    qed
  qed
  ultimately show ?thesis by (simp add: folderForest_def)
qed

lemma findByUid_append:
  "folderFindByUid (db @ [row]) og u = None \<longleftrightarrow>
     folderFindByUid db og u = None \<and> (fo_orgId row, fo_uid row) \<noteq> (og, u)"
  by (auto simp: findByUid_None)

lemma folderInsert_SomeD:
  assumes "folderInsert db row = Some db'"
  shows "db' = db @ [row] \<and> (\<forall>r\<in>set db. fo_id r \<noteq> fo_id row)
    \<and> folderFindByUid db (fo_orgId row) (fo_uid row) = None"
  using assms by (auto simp: folderInsert_def list_ex_iff findByUid_None split: if_splits)

lemma folderRow_simps [simp]:
  "fo_id (folderRow g now inp) = or_default (nf_id inp) g"
  "fo_uid (folderRow g now inp) = nf_uid inp"
  "fo_orgId (folderRow g now inp) = nf_orgId inp"
  "fo_parentUid (folderRow g now inp) = nf_parentUid inp"
  by (simp_all add: folderRow_def)

lemma folderCreate_InrD:
  assumes "folderCreate db g now inp = Inr (db', row)"
  shows "folderInsert db (folderRow g now inp) = Some db' \<and> row \<in> set db'
    \<and> (truthy (nf_parentUid inp) \<longrightarrow>
         assertParentAndDepth db (nf_orgId inp) (the (nf_parentUid inp)) None = Inr ())"
  using assms unfolding folderCreate_def
  by (auto split: sum.splits option.splits if_splits dest: findById_SomeD)

text \<open>A row appended under a new key, with an existing parent, extends the forest by a leaf.\<close>

lemma forest_append:
  assumes inv: "folderForest db" and uid: "fo_uid row \<noteq> []"
    and ids: "\<forall>r\<in>set db. fo_id r \<noteq> fo_id row"
    and fresh: "folderFindByUid db (fo_orgId row) (fo_uid row) = None"
    and par: "\<And>p. fo_parentUid row = Some p \<Longrightarrow> p \<noteq> [] \<Longrightarrow>
                folderFindByUid db (fo_orgId row) p \<noteq> None"
  shows "folderForest (db @ [row])"
proof -
  have keys: "folderKeys db" and closed: "folderClosed db" and acyc: "\<And>og. acyclic (parentRel db og)"
    using inv by (auto simp: folderForest_def)
  have "folderKeys (db @ [row])"
    using keys uid ids fresh by (force simp: folderKeys_def findByUid_None)
  moreover have "folderClosed (db @ [row])"
    using closed par unfolding folderClosed_def findByUid_append by (auto simp: truthy_iff)
  moreover have "acyclic (parentRel (db @ [row]) og)" for og
  proof (cases "og = fo_orgId row \<and> truthy (fo_parentUid row)")
    case False
    then have "parentRel (db @ [row]) og = parentRel db og"
      by (auto simp: parentRel_def truthy_iff)
    then show ?thesis using acyc by simp
  next
    case True
    then obtain p where p: "og = fo_orgId row" "fo_parentUid row = Some p" "p \<noteq> []"
      by (auto simp: truthy_iff)
    have rel: "parentRel (db @ [row]) og = insert (p, fo_uid row) (parentRel db og)"
      using p by (auto simp: parentRel_def)
    have "(fo_uid row, c) \<notin> parentRel db og" for c
      using closed fresh p(1) uid by (force simp: folderClosed_def parentRel_edge)
    then have "(fo_uid row, p) \<notin> (parentRel db og)\<^sup>+" by (blast elim: converse_tranclE)
    moreover have "p \<noteq> fo_uid row" using par [OF p(2,3)] fresh by auto
    ultimately show ?thesis using acyc by (simp add: rel acyclic_insert rtrancl_eq_or_trancl)
  qed
  ultimately show ?thesis by (simp add: folderForest_def)
qed

lemma assert_parent_exists:
  "assertParentAndDepth db og p m = Inr () \<Longrightarrow> folderFindByUid db og p \<noteq> None"
  by (auto simp: assertParentAndDepth_def split: option.splits)

lemma forest_create:
  assumes inv: "folderForest db" and cr: "folderCreate db g now inp = Inr (db', row)"
    and uid: "nf_uid inp \<noteq> []"
  shows "folderForest db'"
proof -
  note D = folderCreate_InrD [OF cr]
  note I = folderInsert_SomeD [OF conjunct1 [OF D]]
  have "folderFindByUid db (nf_orgId inp) p \<noteq> None" if "nf_parentUid inp = Some p" "p \<noteq> []" for p
    using D that assert_parent_exists by fastforce
  then have "folderForest (db @ [folderRow g now inp])"
    using forest_append [OF inv, of "folderRow g now inp"] I uid by simp
  then show ?thesis using I by simp
qed

text \<open>Deleting a folder that no other folder names as its parent.\<close>

lemma forest_delete_leaf:
  assumes inv: "folderForest db" and row: "r \<in> set db"
    and leaf: "listChildren db (fo_orgId r) (Some (fo_uid r)) = []"
  shows "folderForest (fst (folderDelete db (fo_id r)))"
proof -
  let ?db = "filter (\<lambda>x. fo_id x \<noteq> fo_id r) db"
  have keys: "folderKeys db" and closed: "folderClosed db" and acyc: "\<And>og. acyclic (parentRel db og)"
    using inv by (auto simp: folderForest_def)
  have "set (listChildren db (fo_orgId r) (Some (fo_uid r))) = {}" using leaf by simp
  then have nochild: "x \<in> set db \<Longrightarrow> fo_orgId x = fo_orgId r \<Longrightarrow> fo_parentUid x \<noteq> Some (fo_uid r)" for x
    by (auto simp: listChildren_def)
  have "folderKeys ?db" using keys by (auto simp: folderKeys_def distinct_map_filter)
  moreover have "folderClosed ?db"
    unfolding folderClosed_def
  proof (intro ballI impI)
    fix x assume x: "x \<in> set ?db" "truthy (fo_parentUid x)"
    then obtain y where y: "folderFindByUid db (fo_orgId x) (the (fo_parentUid x)) = Some y"
      using closed by (auto simp: folderClosed_def)
    note Y = findByUid_SomeD [OF y]
    have "y \<noteq> r" using nochild [of x] x Y by (auto simp: truthy_iff)
    then have "fo_id y \<noteq> fo_id r" using keys_unique_id [OF keys _ row] Y by blast
    then have "y \<in> set ?db" using Y by simp
    then show "folderFindByUid ?db (fo_orgId x) (the (fo_parentUid x)) \<noteq> None"
      using Y findByUid_present [of y ?db] by blast
  qed
  moreover have "acyclic (parentRel ?db og)" for og
    by (rule acyclic_subset [OF acyc [of og]]) (auto simp: parentRel_def)
  ultimately have "folderForest ?db" by (simp add: folderForest_def)
  then show ?thesis using inv by (simp add: folderDelete_def split: option.splits)
qed

section \<open>Ancestors\<close>

lemma ancestor_loop_length: "length (ancestor_loop n db og cur) \<le> n"
  by (induction n db og cur rule: ancestor_loop.induct) (auto split: option.splits)

lemma ancestor_loop_sound:
  "cur \<in> set db \<Longrightarrow> fo_orgId cur = og \<Longrightarrow> a \<in> set (ancestor_loop n db og cur) \<Longrightarrow>
     a \<in> set db \<and> fo_orgId a = og \<and> (fo_uid a, fo_uid cur) \<in> (parentRel db og)\<^sup>+"
proof (induction n db og cur rule: ancestor_loop.induct)
  case (1 db og cur)
  then show ?case by simp
next
  case (2 i db og cur)
  from "2.prems"(3) have "truthy (fo_parentUid cur)" by (auto split: if_splits)
  then obtain p where p': "fo_parentUid cur = Some p" "p \<noteq> []" by (auto simp: truthy_iff)
  with "2.prems"(3) obtain nxt where "folderFindByUid db og p = Some nxt"
      "a = nxt \<or> a \<in> set (ancestor_loop i db og nxt)"
    by (cases "folderFindByUid db og p") auto
  note p = p' this
  note N = findByUid_SomeD [OF p(3)]
  have edge: "(fo_uid nxt, fo_uid cur) \<in> parentRel db og"
    using "2.prems" p N by (auto simp: parentRel_edge)
  show ?case
  proof (cases "a = nxt")
    case True
    then show ?thesis using N edge by auto
  next
    case False
    then have "a \<in> set db \<and> fo_orgId a = og \<and> (fo_uid a, fo_uid nxt) \<in> (parentRel db og)\<^sup>+"
      using "2.IH" [of nxt] p N by auto
    then show ?thesis using edge by auto
  qed
qed

text \<open>A loop that stopped before its counter ran out has met every ancestor.\<close>

lemma ancestor_loop_complete:
  assumes "folderKeys db" "folderClosed db"
  shows "cur \<in> set db \<Longrightarrow> fo_orgId cur = og \<Longrightarrow> length (ancestor_loop n db og cur) < n \<Longrightarrow>
    (a, fo_uid cur) \<in> (parentRel db og)\<^sup>+ \<Longrightarrow> a \<in> fo_uid ` set (ancestor_loop n db og cur)"
proof (induction n arbitrary: cur)
  case 0
  then show ?case by simp
next
  case (Suc n)
  obtain q where q: "fo_parentUid cur = Some q" "q \<noteq> []" "a = q \<or> (a, q) \<in> (parentRel db og)\<^sup>+"
    using trancl_row [OF assms(1) Suc.prems(1,2,4)] by blast
  obtain nxt where nxt: "folderFindByUid db og q = Some nxt"
    using assms(2) Suc.prems(1,2) q(1,2) by (force simp: folderClosed_def)
  note N = findByUid_SomeD [OF nxt]
  have "length (ancestor_loop n db og nxt) < n" using Suc.prems(3) q nxt by simp
  then show ?case using Suc.IH [of nxt] N q nxt by auto
qed

text \<open>The climb bounds the number of ancestors of the chosen parent.\<close>

lemma climb_ok_depth:
  "climb db og pu m cur d = Inr () \<Longrightarrow> d \<le> FOLDER_MAX_DEPTH \<Longrightarrow>
     length (ancestor_loop n db og cur) \<le> FOLDER_MAX_DEPTH - d"
proof (induction db og pu m cur d arbitrary: n rule: climb.induct)
  case (1 db og pu m cur d)
  show ?case
  proof (cases n)
    case 0
    then show ?thesis by simp
  next
    case (Suc k)
    show ?thesis
    proof (cases "folderFindByUid db og (the (fo_parentUid cur))")
      case None
      then show ?thesis using Suc by simp
    next
      case (Some nxt)
      show ?thesis
      proof (cases "truthy (fo_parentUid cur)")
        case True
        have *: "\<not> (truthy m \<and> fo_uid nxt = the m)" "\<not> FOLDER_MAX_DEPTH < d + 1"
            "climb db og pu m nxt (d + 1) = Inr ()"
          using "1.prems"(1) True Some by (subst (asm) climb.simps, auto split: if_splits)+
        have "length (ancestor_loop k db og nxt) \<le> FOLDER_MAX_DEPTH - (d + 1)"
          using "1.IH" [of nxt k] True Some * by auto
        then show ?thesis using Suc True Some * by auto
      qed (simp add: Suc)
    qed
  qed
qed

text \<open>A new row changes no chain of a table without dangling parents.\<close>

lemma findByUid_append_old:
  "folderFindByUid db og u \<noteq> None \<Longrightarrow> folderFindByUid (db @ [row]) og u = folderFindByUid db og u"
  by (induction db) (auto simp: folderFindByUid_def)

lemma ancestor_loop_append:
  "folderClosed db \<Longrightarrow> cur \<in> set db \<Longrightarrow> fo_orgId cur = og \<Longrightarrow>
     ancestor_loop n (db @ [row]) og cur = ancestor_loop n db og cur"
proof (induction n arbitrary: cur)
  case 0
  then show ?case by simp
next
  case (Suc n)
  show ?case
  proof (cases "truthy (fo_parentUid cur)")
    case True
    then obtain nxt where nxt: "folderFindByUid db og (the (fo_parentUid cur)) = Some nxt"
      using Suc.prems by (force simp: folderClosed_def)
    then show ?thesis
      using True Suc.IH [of nxt] Suc.prems(1) findByUid_SomeD [OF nxt]
      by (simp add: findByUid_append_old)
  qed simp
qed

lemma findByUid_append_new:
  "folderFindByUid db (fo_orgId row) (fo_uid row) = None \<Longrightarrow>
   folderFindByUid (db @ [row]) (fo_orgId row) (fo_uid row) = Some row"
  by (induction db) (auto simp: folderFindByUid_def split: if_splits)

lemma listAncestors_complete:
  assumes "folderForest db" "length (listAncestors db og u) \<le> FOLDER_MAX_DEPTH"
    and "(a, u) \<in> (parentRel db og)\<^sup>+"
  shows "a \<in> fo_uid ` set (listAncestors db og u)"
proof -
  obtain cur where cur: "folderFindByUid db og u = Some cur"
    using trancl_target_is_row [OF assms(3)] by blast
  note C = findByUid_SomeD [OF cur]
  show ?thesis
    using ancestor_loop_complete [of db cur og "FOLDER_MAX_DEPTH + 1" a] assms C cur
    by (simp add: listAncestors_def folderForest_def)
qed

lemma listAncestors_sound:
  assumes "a \<in> set (listAncestors db og u)"
  shows "a \<in> set db \<and> fo_orgId a = og \<and> (fo_uid a, u) \<in> (parentRel db og)\<^sup>+"
proof -
  obtain cur where cur: "folderFindByUid db og u = Some cur"
      "a \<in> set (ancestor_loop (FOLDER_MAX_DEPTH + 1) db og cur)"
    using assms unfolding listAncestors_def
    by (cases "folderFindByUid db og u") (auto simp del: ancestor_loop.simps)
  show ?thesis using ancestor_loop_sound [OF _ _ cur(2)] findByUid_SomeD [OF cur(1)] by auto
qed

lemma create_ancestor_bound:
  assumes inv: "folderForest db" and cr: "folderCreate db g now inp = Inr (db', row)"
  shows "length (listAncestors db' (nf_orgId inp) (nf_uid inp)) \<le> FOLDER_MAX_DEPTH"
proof -
  let ?row = "folderRow g now inp" and ?og = "nf_orgId inp"
  note D = folderCreate_InrD [OF cr]
  note I = folderInsert_SomeD [OF conjunct1 [OF D]]
  have db': "db' = db @ [?row]" and fresh: "folderFindByUid db ?og (nf_uid inp) = None"
    using I by simp_all
  have self: "folderFindByUid db' ?og (nf_uid inp) = Some ?row"
    using findByUid_append_new [of db ?row] fresh db' by simp
  show ?thesis
  proof (cases "truthy (nf_parentUid inp)")
    case False
    then show ?thesis by (simp add: listAncestors_def self)
  next
    case True
    let ?p = "the (nf_parentUid inp)"
    have ok: "assertParentAndDepth db ?og ?p None = Inr ()" using D True by simp
    then obtain parent where par: "folderFindByUid db ?og ?p = Some parent"
        "climb db ?og ?p None parent 1 = Inr ()"
      by (auto simp: assertParentAndDepth_def split: option.splits)
    have len: "length (ancestor_loop FOLDER_MAX_DEPTH db ?og parent) \<le> FOLDER_MAX_DEPTH - 1"
      by (rule climb_ok_depth [OF par(2)]) (simp add: FOLDER_MAX_DEPTH_def)
    have same: "ancestor_loop FOLDER_MAX_DEPTH db' ?og parent = ancestor_loop FOLDER_MAX_DEPTH db ?og parent"
      unfolding db' using inv findByUid_SomeD [OF par(1)]
      by (intro ancestor_loop_append) (auto simp: folderForest_def)
    have "folderFindByUid db' ?og ?p = Some parent"
      using par(1) by (simp add: db' findByUid_append_old)
    then have "listAncestors db' ?og (nf_uid inp) = parent # ancestor_loop FOLDER_MAX_DEPTH db ?og parent"
      using True by (simp add: listAncestors_def self same)
    then show ?thesis using len by (simp add: FOLDER_MAX_DEPTH_def)
  qed
qed

interpretation folders: step_system "\<lambda>db. db = []" folder_step folderForest
proof unfold_locales
  show "folderForest s" if "s = []" for s
    using that by (simp add: folderForest_def folderKeys_def folderClosed_def parentRel_def acyclic_def)
  show "folderForest t" if "folderForest s" "folder_step s t" for s t
    using that(2,1) by cases (auto intro: forest_create forest_update forest_delete_leaf)
qed

section \<open>Properties\<close>

text \<open>The tables of the examples: a root folder, a child of it, and the patch of nothing.\<close>

definition exFolder :: "string \<Rightarrow> string \<Rightarrow> string option \<Rightarrow> NewGrafanaFolder" where
  "exFolder i u parent = \<lparr>nf_id = Some i, nf_uid = u, nf_orgId = ''org'', nf_title = u,
     nf_description = None, nf_parentUid = parent, nf_createdBy = None, nf_updatedBy = None,
     nf_source = None, nf_provenance = None\<rparr>"

definition exTable :: folder_table where
  "exTable = [folderRow [] 0 (exFolder ''1'' ''a'' None), folderRow [] 0 (exFolder ''2'' ''b'' (Some ''a''))]"

lemma exTable_created:
  "folderCreate [] [] 0 (exFolder ''1'' ''a'' None)
     = Inr ([folderRow [] 0 (exFolder ''1'' ''a'' None)], folderRow [] 0 (exFolder ''1'' ''a'' None))"
  "folderCreate [folderRow [] 0 (exFolder ''1'' ''a'' None)] [] 0 (exFolder ''2'' ''b'' (Some ''a''))
     = Inr (exTable, folderRow [] 0 (exFolder ''2'' ''b'' (Some ''a'')))"
  by code_simp+

lemma exTable_reachable: "folder_step\<^sup>*\<^sup>* [] exTable"
proof -
  have "folder_step [] [folderRow [] 0 (exFolder ''1'' ''a'' None)]"
    by (rule step_create [OF exTable_created(1)]) (simp add: exFolder_def)
  moreover have "folder_step [folderRow [] 0 (exFolder ''1'' ''a'' None)] exTable"
    by (rule step_create [OF exTable_created(2)]) (simp add: exFolder_def)
  ultimately show ?thesis by auto
qed

text \<open>However folders are created, patched and moved, and deleted when they have no children,
  every organisation's parent relation stays acyclic, every parent a folder names exists, and ids
  and uids stay unique.\<close>

theorem folder_forest_reachable:
  assumes "folder_step\<^sup>*\<^sup>* [] db"
  shows "folderForest db"
  using assms by (rule folders.reachable_inv [OF refl])

theorem folder_forest_reachable_witness: "folderForest exTable"
  by (rule folder_forest_reachable [OF exTable_reachable])

text \<open>In a well-formed table \<open>listAncestors\<close> ends after at most one more than
  \<open>FOLDER_MAX_DEPTH\<close> links, returns true ancestors only, and returns all of them for a
  folder that was just created, which never has more than \<open>FOLDER_MAX_DEPTH\<close>.\<close>

theorem listAncestors_exact:
  assumes inv: "folderForest db"
  shows "length (listAncestors db og u) \<le> FOLDER_MAX_DEPTH + 1
    \<and> fo_uid ` set (listAncestors db og u) \<subseteq> {a. (a, u) \<in> (parentRel db og)\<^sup>+}
    \<and> (folderCreate db g now inp = Inr (db', row) \<longrightarrow> nf_uid inp \<noteq> [] \<longrightarrow>
      length (listAncestors db' (nf_orgId inp) (nf_uid inp)) \<le> FOLDER_MAX_DEPTH \<and>
      fo_uid ` set (listAncestors db' (nf_orgId inp) (nf_uid inp))
        = {a. (a, nf_uid inp) \<in> (parentRel db' (nf_orgId inp))\<^sup>+})"
proof (intro conjI impI)
  show "length (listAncestors db og u) \<le> FOLDER_MAX_DEPTH + 1"
    using ancestor_loop_length [of "FOLDER_MAX_DEPTH + 1" db og]
    by (simp add: listAncestors_def split: option.splits)
  show "fo_uid ` set (listAncestors db og u) \<subseteq> {a. (a, u) \<in> (parentRel db og)\<^sup>+}"
    using listAncestors_sound by blast
  assume cr: "folderCreate db g now inp = Inr (db', row)" and uid: "nf_uid inp \<noteq> []"
  note B = create_ancestor_bound [OF inv cr]
  note F = forest_create [OF inv cr uid]
  show "length (listAncestors db' (nf_orgId inp) (nf_uid inp)) \<le> FOLDER_MAX_DEPTH" by (rule B)
  show "fo_uid ` set (listAncestors db' (nf_orgId inp) (nf_uid inp))
        = {a. (a, nf_uid inp) \<in> (parentRel db' (nf_orgId inp))\<^sup>+}"
    using listAncestors_complete [OF F B] listAncestors_sound by blast
qed

theorem listAncestors_exact_witness:
  "fo_uid ` set (listAncestors exTable ''org'' ''b'') = {a. (a, ''b'') \<in> (parentRel exTable ''org'')\<^sup>+}"
proof -
  have "folderForest [folderRow [] 0 (exFolder ''1'' ''a'' None)]"
    by (rule forest_create [OF folders.init_inv [OF refl] exTable_created(1)]) (simp add: exFolder_def)
  from listAncestors_exact [OF this, THEN conjunct2, THEN conjunct2, rule_format, OF exTable_created(2)]
  show ?thesis by (simp add: exFolder_def)
qed

text \<open>The repository alone does not keep the folder tree acyclic: after a repository-level
  delete of a folder that still has a child, a create that reuses the deleted uid under that
  child is accepted and closes a cycle.\<close>

theorem folder_delete_create_cycle:
  "\<exists>db1 db2 row. folder_step\<^sup>*\<^sup>* [] exTable
     \<and> folderDelete exTable ''1'' = (db1, True)
     \<and> folderCreate db1 [] 0 (exFolder ''3'' ''a'' (Some ''b'')) = Inr (db2, row)
     \<and> \<not> acyclic (parentRel db2 ''org'')"
proof -
  let ?b = "folderRow [] 0 (exFolder ''2'' ''b'' (Some ''a''))"
  let ?a = "folderRow [] 0 (exFolder ''3'' ''a'' (Some ''b''))"
  have "(''a'', ''b'') \<in> parentRel [?b, ?a] ''org''" "(''b'', ''a'') \<in> parentRel [?b, ?a] ''org''"
    by (simp_all add: parentRel_edge exFolder_def)
  then have "(''a'', ''a'') \<in> (parentRel [?b, ?a] ''org'')\<^sup>+" by (rule trancl_into_trancl2 [OF _ r_into_trancl])
  then have "\<not> acyclic (parentRel [?b, ?a] ''org'')" by (auto simp: acyclic_def)
  moreover have "folderDelete exTable ''1'' = ([?b], True)" by code_simp
  moreover have "folderCreate [?b] [] 0 (exFolder ''3'' ''a'' (Some ''b'')) = Inr ([?b, ?a], ?a)" by code_simp
  ultimately show ?thesis using exTable_reachable by blast
qed

end
