(* ===== verification/Rbac_Resolvers.thy ===== *)
theory Rbac_Resolvers
  imports Rbac_Evaluator Folder_Repository
begin

text \<open>
  The scope resolvers (\<open>api-gateway/src/rbac/resolvers\<close>): a requested scope becomes the list
  of scopes any of which authorises the request. Lookups are functions that may throw (\<open>None\<close>);
  a missing dependency is an outer \<open>None\<close>. A resolver's set is insertion ordered, so its
  spread is \<open>js_set\<close> of the sequence of additions.

  Results: the registry keeps the literal scope (it interprets the resolver interface of the
  evaluator), and with the folder repository behind it a folder grant reaches a dashboard or an
  alert rule exactly when the folder is the resource's folder or one of its ancestors.
\<close>

section \<open>Definitions\<close>

record ResolverDeps =
  rd_folders :: "(string \<Rightarrow> string \<Rightarrow> GrafanaFolder list option) option"
  rd_orgId :: string
  rd_dashboardFolderUid :: "(string \<Rightarrow> string \<Rightarrow> string option option) option"
  rd_alertRuleFolderUid :: "(string \<Rightarrow> string \<Rightarrow> string option option) option"

definition folderScope :: "string \<Rightarrow> string" where
  "folderScope u = ''folders:uid:'' @ u"

text \<open>
  The \<open>try\<close> block shared by the dashboard and the alert-rule resolver: the additions made
  until the block ends or a lookup throws.
\<close>

definition folder_cascade :: "ResolverDeps \<Rightarrow> (string \<Rightarrow> string \<Rightarrow> string option option) option
    \<Rightarrow> string \<Rightarrow> string list" where
  "folder_cascade deps lookup u =
     (case (lookup, rd_folders deps) of
        (Some fu, Some ancestorsOf) \<Rightarrow>
          (case fu (rd_orgId deps) u of
             None \<Rightarrow> []
           | Some folderUid \<Rightarrow>
               if \<not> truthy folderUid then []
               else folderScope (the folderUid)
                 # (case ancestorsOf (rd_orgId deps) (the folderUid) of
                      None \<Rightarrow> []
                    | Some as \<Rightarrow> map (\<lambda>a. folderScope (fo_uid a)) as))
      | _ \<Rightarrow> [])"

definition concreteUid :: "ParsedScope \<Rightarrow> bool" where
  "concreteUid parsed \<longleftrightarrow> ps_attribute parsed = ''uid'' \<and> ps_identifier parsed \<noteq> ''*''"

definition dashboardsResolver :: "ResolverDeps \<Rightarrow> string \<Rightarrow> string list" where
  "dashboardsResolver deps scope =
     (let parsed = parseScope scope in
      if ps_kind parsed \<noteq> ''dashboards'' then [scope]
      else js_set ([scope, ''dashboards:*'', ''dashboards:uid:*'']
        @ (if concreteUid parsed
           then folder_cascade deps (rd_dashboardFolderUid deps) (ps_identifier parsed)
             @ [''folders:*'', ''folders:uid:*'']
           else [])))"

definition foldersResolver :: "ResolverDeps \<Rightarrow> string \<Rightarrow> string list" where
  "foldersResolver deps scope =
     (let parsed = parseScope scope in
      if ps_kind parsed \<noteq> ''folders'' then [scope]
      else js_set ([scope, ''folders:*'', ''folders:uid:*'']
        @ (case rd_folders deps of
             None \<Rightarrow> []
           | Some ancestorsOf \<Rightarrow>
               if concreteUid parsed
               then (case ancestorsOf (rd_orgId deps) (ps_identifier parsed) of
                       None \<Rightarrow> []
                     | Some as \<Rightarrow> map (\<lambda>f. folderScope (fo_uid f)) as)
               else [])))"

definition alertRulesResolver :: "ResolverDeps \<Rightarrow> string \<Rightarrow> string list" where
  "alertRulesResolver deps scope =
     (let parsed = parseScope scope in
      if ps_kind parsed \<noteq> ''alert.rules'' then [scope]
      else js_set ([scope, ''alert.rules:*'', ''alert.rules:uid:*'', ''folders:*'', ''folders:uid:*'']
        @ (if concreteUid parsed
           then folder_cascade deps (rd_alertRuleFolderUid deps) (ps_identifier parsed)
           else [])))"

definition connectorsResolver :: "ResolverDeps \<Rightarrow> string \<Rightarrow> string list" where
  "connectorsResolver deps scope =
     (if ps_kind (parseScope scope) \<noteq> ''connectors'' then [scope]
      else js_set [scope, ''connectors:*'', ''connectors:uid:*''])"

definition usersResolver :: "ResolverDeps \<Rightarrow> string \<Rightarrow> string list" where
  "usersResolver deps scope =
     (if ps_kind (parseScope scope) \<noteq> ''users'' then [scope]
      else js_set [scope, ''users:*'', ''users:id:*''])"

definition teamsResolver :: "ResolverDeps \<Rightarrow> string \<Rightarrow> string list" where
  "teamsResolver deps scope =
     (if ps_kind (parseScope scope) \<noteq> ''teams'' then [scope]
      else js_set [scope, ''teams:*'', ''teams:id:*''])"

definition serviceAccountsResolver :: "ResolverDeps \<Rightarrow> string \<Rightarrow> string list" where
  "serviceAccountsResolver deps scope =
     (if ps_kind (parseScope scope) \<noteq> ''serviceaccounts'' then [scope]
      else js_set [scope, ''serviceaccounts:*'', ''serviceaccounts:id:*''])"

definition byKind :: "ResolverDeps \<Rightarrow> (string \<times> (string \<Rightarrow> string list)) list" where
  "byKind deps =
     [(''dashboards'', dashboardsResolver deps), (''folders'', foldersResolver deps),
      (''connectors'', connectorsResolver deps), (''users'', usersResolver deps),
      (''teams'', teamsResolver deps), (''serviceaccounts'', serviceAccountsResolver deps),
      (''alert.rules'', alertRulesResolver deps)]"

text \<open>The part of the scope before its first colon, or all of it.\<close>

definition scopeKind :: "string \<Rightarrow> string" where
  "scopeKind scope = takeWhile (\<lambda>ch. ch \<noteq> CHR '':'') scope"

definition resolve :: "ResolverDeps \<Rightarrow> string \<Rightarrow> string list" where
  "resolve deps scope =
     (if scope = [] \<or> scope = ''*'' then [scope]
      else (case map_of (byKind deps) (scopeKind scope) of
              None \<Rightarrow> [scope]
            | Some fn \<Rightarrow> fn scope))"

text \<open>The dependencies the gateway wires, over the folder table and two lookup functions.\<close>

definition repoDeps :: "folder_table \<Rightarrow> string \<Rightarrow> (string \<Rightarrow> string \<Rightarrow> string option)
    \<Rightarrow> (string \<Rightarrow> string \<Rightarrow> string option) \<Rightarrow> ResolverDeps" where
  "repoDeps db orgId dashFolder ruleFolder =
     \<lparr>rd_folders = Some (\<lambda>og u. Some (listAncestors db og u)), rd_orgId = orgId,
      rd_dashboardFolderUid = Some (\<lambda>og u. Some (dashFolder og u)),
      rd_alertRuleFolderUid = Some (\<lambda>og u. Some (ruleFolder og u))\<rparr>"

section \<open>Lemmas\<close>

lemma head_in_js_set: "x \<in> set (js_set ([x, y, z] @ zs))" "x \<in> set (js_set [x, y, z])"
  "x \<in> set (js_set ([x, y, z, u, v] @ zs))"
  by (simp_all only: set_js_set) simp_all

lemma if_mem: "x \<in> set xs \<Longrightarrow> x \<in> set ys \<Longrightarrow> x \<in> set (if c then xs else ys)"
  by simp

lemma resolver_keeps_literal:
  "s \<in> set (dashboardsResolver deps s)" "s \<in> set (foldersResolver deps s)"
  "s \<in> set (alertRulesResolver deps s)" "s \<in> set (connectorsResolver deps s)"
  "s \<in> set (usersResolver deps s)" "s \<in> set (teamsResolver deps s)"
  "s \<in> set (serviceAccountsResolver deps s)"
  subgoal unfolding dashboardsResolver_def Let_def by (rule if_mem [OF _ head_in_js_set(1)]) simp
  subgoal unfolding foldersResolver_def Let_def by (rule if_mem [OF _ head_in_js_set(1)]) simp
  subgoal unfolding alertRulesResolver_def Let_def by (rule if_mem [OF _ head_in_js_set(3)]) simp
  subgoal unfolding connectorsResolver_def by (rule if_mem [OF _ head_in_js_set(2)]) simp
  subgoal unfolding usersResolver_def by (rule if_mem [OF _ head_in_js_set(2)]) simp
  subgoal unfolding teamsResolver_def by (rule if_mem [OF _ head_in_js_set(2)]) simp
  subgoal unfolding serviceAccountsResolver_def by (rule if_mem [OF _ head_in_js_set(2)]) simp
  done

lemma resolve_keeps_literal: "s \<in> set (resolve deps s)"
proof (cases "map_of (byKind deps) (scopeKind s)")
  case None
  then show ?thesis by (simp add: resolve_def)
next
  case (Some fn)
  then have "(scopeKind s, fn) \<in> set (byKind deps)" by (rule map_of_SomeD)
  then have "s \<in> set (fn s)" unfolding byKind_def using resolver_keeps_literal by auto
  with Some show ?thesis by (simp add: resolve_def)
qed

interpretation registry: scope_resolver "resolve deps" for deps
  by unfold_locales (rule resolve_keeps_literal)

text \<open>A scope of a given kind goes to that kind's resolver.\<close>

lemma scopeKind_shape: "CHR '':'' \<notin> set k \<Longrightarrow> scopeKind (k @ '':'' @ t) = k"
  unfolding scopeKind_def by (induction k) auto

definition kindShape :: "string \<Rightarrow> string \<Rightarrow> string" where
  "kindShape k u = k @ '':'' @ ''uid'' @ '':'' @ u"

lemma parseScope_kindShape:
  "CHR '':'' \<notin> set k \<Longrightarrow>
   parseScope (kindShape k u) = \<lparr>ps_kind = k, ps_attribute = ''uid'', ps_identifier = u\<rparr>"
  unfolding kindShape_def by (rule parseScope_parts) simp_all

lemma scopeKind_kindShape: "CHR '':'' \<notin> set k \<Longrightarrow> scopeKind (kindShape k u) = k"
  unfolding kindShape_def by (rule scopeKind_shape)

lemma folderScope_shape: "folderScope u = kindShape ''folders'' u"
  by (simp add: folderScope_def kindShape_def)

lemma kindShape_nonempty: "k \<noteq> [] \<Longrightarrow> kindShape k u \<noteq> [] \<and> kindShape k u \<noteq> ''*''"
  by (cases k) (auto simp: kindShape_def)

lemma folder_cascade_repo:
  "set (folder_cascade (repoDeps db og df rf) (Some (\<lambda>x y. Some (lk x y))) u) =
     (case lk og u of
        None \<Rightarrow> {}
      | Some f \<Rightarrow> if f = [] then {}
                  else insert (folderScope f) (folderScope ` fo_uid ` set (listAncestors db og f)))"
  by (auto simp: folder_cascade_def repoDeps_def split: option.splits)

text \<open>
  A grant on a concrete folder covers, among the scopes the two folder-backed resolvers
  produce, exactly the scope of that folder.
\<close>

lemma folder_grant_covers:
  assumes "a \<noteq> ''*''"
  shows "scopeCovers (folderScope a) (folderScope b) \<longleftrightarrow> a = b"
  using assms by (simp add: scopeCovers_segments folderScope_shape parseScope_kindShape segMatches_def)

lemma folder_grant_not_covers:
  assumes "a \<noteq> ''*''"
  shows "\<not> scopeCovers (folderScope a) ''dashboards:*''" "\<not> scopeCovers (folderScope a) ''dashboards:uid:*''"
    "\<not> scopeCovers (folderScope a) ''alert.rules:*''" "\<not> scopeCovers (folderScope a) ''alert.rules:uid:*''"
    "\<not> scopeCovers (folderScope a) ''folders:*''" "\<not> scopeCovers (folderScope a) ''folders:uid:*''"
    "CHR '':'' \<notin> set k \<Longrightarrow> k \<noteq> ''folders'' \<Longrightarrow> \<not> scopeCovers (folderScope a) (kindShape k u)"
proof -
  have lits: "parseScope ''dashboards:*'' = \<lparr>ps_kind = ''dashboards'', ps_attribute = ''*'', ps_identifier = ''*''\<rparr>"
    "parseScope ''dashboards:uid:*'' = \<lparr>ps_kind = ''dashboards'', ps_attribute = ''uid'', ps_identifier = ''*''\<rparr>"
    "parseScope ''alert.rules:*'' = \<lparr>ps_kind = ''alert.rules'', ps_attribute = ''*'', ps_identifier = ''*''\<rparr>"
    "parseScope ''alert.rules:uid:*'' = \<lparr>ps_kind = ''alert.rules'', ps_attribute = ''uid'', ps_identifier = ''*''\<rparr>"
    "parseScope ''folders:*'' = \<lparr>ps_kind = ''folders'', ps_attribute = ''*'', ps_identifier = ''*''\<rparr>"
    "parseScope ''folders:uid:*'' = \<lparr>ps_kind = ''folders'', ps_attribute = ''uid'', ps_identifier = ''*''\<rparr>"
    by code_simp+
  note [simp] = scopeCovers_segments folderScope_shape parseScope_kindShape segMatches_def lits
  show "\<not> scopeCovers (folderScope a) ''dashboards:*''" by simp
  show "\<not> scopeCovers (folderScope a) ''dashboards:uid:*''" by simp
  show "\<not> scopeCovers (folderScope a) ''alert.rules:*''" by simp
  show "\<not> scopeCovers (folderScope a) ''alert.rules:uid:*''" by simp
  show "\<not> scopeCovers (folderScope a) ''folders:*''" using assms by simp
  show "\<not> scopeCovers (folderScope a) ''folders:uid:*''" using assms by simp
  show "\<not> scopeCovers (folderScope a) (kindShape k u)" if "CHR '':'' \<notin> set k" "k \<noteq> ''folders''"
    using that by simp
qed

lemma resolve_dashboard_members:
  assumes "u \<noteq> ''*''"
  shows "set (resolve (repoDeps db og df rf) (kindShape ''dashboards'' u)) =
    {kindShape ''dashboards'' u, ''dashboards:*'', ''dashboards:uid:*'', ''folders:*'', ''folders:uid:*''}
    \<union> set (folder_cascade (repoDeps db og df rf) (Some (\<lambda>x y. Some (df x y))) u)"
proof -
  have "map_of (byKind (repoDeps db og df rf)) (scopeKind (kindShape ''dashboards'' u))
      = Some (dashboardsResolver (repoDeps db og df rf))"
    by (simp add: scopeKind_kindShape byKind_def)
  then show ?thesis
    using assms kindShape_nonempty [of "''dashboards''" u]
    by (auto simp: resolve_def dashboardsResolver_def parseScope_kindShape concreteUid_def repoDeps_def
        simp del: Cons_eq_append_conv)
qed

lemma resolve_rule_members:
  assumes "u \<noteq> ''*''"
  shows "set (resolve (repoDeps db og df rf) (kindShape ''alert.rules'' u)) =
    {kindShape ''alert.rules'' u, ''alert.rules:*'', ''alert.rules:uid:*'', ''folders:*'', ''folders:uid:*''}
    \<union> set (folder_cascade (repoDeps db og df rf) (Some (\<lambda>x y. Some (rf x y))) u)"
proof -
  have "map_of (byKind (repoDeps db og df rf)) (scopeKind (kindShape ''alert.rules'' u))
      = Some (alertRulesResolver (repoDeps db og df rf))"
    by (simp add: scopeKind_kindShape byKind_def)
  then show ?thesis
    using assms kindShape_nonempty [of "''alert.rules''" u]
    by (auto simp: resolve_def alertRulesResolver_def parseScope_kindShape concreteUid_def repoDeps_def)
qed

text \<open>What a folder grant reaches, for a resource whose folder is known.\<close>

lemma folder_grant_reaches:
  assumes "folderForest db" "a \<noteq> ''*''" "f \<noteq> []"
    and "length (listAncestors db og f) \<le> FOLDER_MAX_DEPTH"
    and S: "S = Lits \<union> insert (folderScope f) (folderScope ` fo_uid ` set (listAncestors db og f))"
    and lits: "\<And>w. w \<in> Lits \<Longrightarrow> \<not> scopeCovers (folderScope a) w"
  shows "(\<exists>w\<in>S. granted [\<lparr>rp_action = act, rp_scope = folderScope a\<rparr>] act w)
    \<longleftrightarrow> a = f \<or> (a, f) \<in> (parentRel db og)\<^sup>+"
proof -
  have "(\<exists>w\<in>S. granted [\<lparr>rp_action = act, rp_scope = folderScope a\<rparr>] act w)
      \<longleftrightarrow> a = f \<or> a \<in> fo_uid ` set (listAncestors db og f)"
    unfolding S granted_def bex_Un bex_simps image_iff
    using lits folder_grant_covers [OF assms(2)] by auto
  also have "\<dots> \<longleftrightarrow> a = f \<or> (a, f) \<in> (parentRel db og)\<^sup>+"
    using listAncestors_complete [OF assms(1,4)] listAncestors_sound by blast
  finally show ?thesis .
qed

lemma dashboard_shape: "''dashboards:uid:'' @ u = kindShape ''dashboards'' u"
  by (simp add: kindShape_def)

lemma rule_shape: "''alert.rules:uid:'' @ u = kindShape ''alert.rules'' u"
  by (simp add: kindShape_def)

section \<open>Properties\<close>

text \<open>The folder cascade is exact. In a well-formed folder table, a permission on one concrete
  folder passes the check on a dashboard exactly when the folder is the one the dashboard is in or an
  ancestor of it, and likewise for an alert rule.\<close>

theorem folder_cascade_exact:
  assumes "folderForest db" "a \<noteq> ''*''" "u \<noteq> ''*''"
    and "f \<noteq> []" "length (listAncestors db og f) \<le> FOLDER_MAX_DEPTH"
  shows "(df og u = Some f \<longrightarrow>
       evaluate (mutate (resolve (repoDeps db og df rf)) (ac_eval act (OneScope (''dashboards:uid:'' @ u))))
         [\<lparr>rp_action = act, rp_scope = ''folders:uid:'' @ a\<rparr>]
       = (a = f \<or> (a, f) \<in> (parentRel db og)\<^sup>+))
    \<and> (rf og u = Some f \<longrightarrow>
       evaluate (mutate (resolve (repoDeps db og df rf)) (ac_eval act (OneScope (''alert.rules:uid:'' @ u))))
         [\<lparr>rp_action = act, rp_scope = ''folders:uid:'' @ a\<rparr>]
       = (a = f \<or> (a, f) \<in> (parentRel db og)\<^sup>+))"
  unfolding ac_eval.simps registry.resolve_only_listed dashboard_shape rule_shape
    folderScope_def [symmetric]
proof (intro conjI impI)
  let ?deps = "repoDeps db og df rf"
  note nc = folder_grant_not_covers [OF assms(2)]
  show "(\<exists>w\<in>set (resolve ?deps (kindShape ''dashboards'' u)).
      granted [\<lparr>rp_action = act, rp_scope = folderScope a\<rparr>] act w) = (a = f \<or> (a, f) \<in> (parentRel db og)\<^sup>+)"
    if "df og u = Some f"
    by (rule folder_grant_reaches [OF assms(1,2,4,5), where Lits = "{kindShape ''dashboards'' u,
            ''dashboards:*'', ''dashboards:uid:*'', ''folders:*'', ''folders:uid:*''}"],
        simp only: resolve_dashboard_members [OF assms(3)] folder_cascade_repo that option.case assms(4) if_False)
      (elim insertE emptyE; hypsubst; rule nc; simp)
  show "(\<exists>w\<in>set (resolve ?deps (kindShape ''alert.rules'' u)).
      granted [\<lparr>rp_action = act, rp_scope = folderScope a\<rparr>] act w) = (a = f \<or> (a, f) \<in> (parentRel db og)\<^sup>+)"
    if "rf og u = Some f"
    by (rule folder_grant_reaches [OF assms(1,2,4,5), where Lits = "{kindShape ''alert.rules'' u,
            ''alert.rules:*'', ''alert.rules:uid:*'', ''folders:*'', ''folders:uid:*''}"],
        simp only: resolve_rule_members [OF assms(3)] folder_cascade_repo that option.case assms(4) if_False)
      (elim insertE emptyE; hypsubst; rule nc; simp)
qed

theorem folder_cascade_exact_witness:
  "evaluate (mutate (resolve (repoDeps exTable ''org'' (\<lambda>_ _. Some ''b'') (\<lambda>_ _. None)))
      (ac_eval ''dashboards:read'' (OneScope (''dashboards:uid:'' @ ''d''))))
     [\<lparr>rp_action = ''dashboards:read'', rp_scope = ''folders:uid:'' @ ''a''\<rparr>]"
proof -
  have forest: "folderForest exTable" by (rule folders.reachable_inv [OF refl exTable_reachable])
  have len: "length (listAncestors exTable ''org'' ''b'') \<le> FOLDER_MAX_DEPTH" by code_simp
  have "(''a'', ''b'') \<in> parentRel exTable ''org''"
    by (simp add: parentRel_edge exTable_def exFolder_def)
  then have "(''a'', ''b'') \<in> (parentRel exTable ''org'')\<^sup>+" by blast
  with folder_cascade_exact [OF forest _ _ _ len, of "''a''" "''d''" "\<lambda>_ _. Some ''b''" "\<lambda>_ _. None" "''dashboards:read''"]
  show ?thesis by simp
qed

end
