(* ===== verification/Evaluator_Scan.thy ===== *)
theory Evaluator_Scan
  imports Rbac_Evaluator
begin

text \<open>
  The two regular-expression scans of \<open>api-gateway/src/services/accesscontrol-service.ts\<close>
  over the printed form of an evaluator: \<open>collectScopes\<close> (every scope-shaped token) and
  \<open>extractDashboardAclTarget\<close> (the first dashboard check). Each expression is a recursive
  scanner: its character classes are disjoint where it could backtrack, so a greedy match is
  the only match at a position.

  Results: a scope of the usual shape that an evaluator mentions is always collected, so the
  pre-fetch misses only scopes of unusual shape; the scan of a joined string is the joined scan.
\<close>

section \<open>Definitions\<close>

definition lowerLetter :: "char \<Rightarrow> bool" where
  "lowerLetter ch \<longleftrightarrow> (let n = (of_char ch :: nat) in 97 \<le> n \<and> n \<le> 122)"

definition digitChar :: "char \<Rightarrow> bool" where
  "digitChar ch \<longleftrightarrow> (let n = (of_char ch :: nat) in 48 \<le> n \<and> n \<le> 57)"

text \<open>The class \<open>[a-z0-9.]\<close>.\<close>

definition kindChar :: "char \<Rightarrow> bool" where
  "kindChar ch \<longleftrightarrow> lowerLetter ch \<or> digitChar ch \<or> ch = CHR ''.''"

text \<open>The complement of the class \<open>[^\s,()|]\<close>.\<close>

definition scopeDelim :: "char \<Rightarrow> bool" where
  "scopeDelim ch \<longleftrightarrow> js_space ch \<or> ch \<in> set '',()|''"

text \<open>\<open>[a-z][a-z0-9.]*:[^\s,()|]+\<close> anchored at the start: the token and the rest.\<close>

definition tokenAt :: "string \<Rightarrow> (string \<times> string) option" where
  "tokenAt s =
     (case s of
        [] \<Rightarrow> None
      | ch # _ \<Rightarrow>
          if \<not> lowerLetter ch then None
          else let k = takeWhile kindChar s; r = dropWhile kindChar s in
            (case r of
               [] \<Rightarrow> None
             | c2 # r2 \<Rightarrow>
                 if c2 \<noteq> CHR '':'' then None
                 else let v = takeWhile (\<lambda>x. \<not> scopeDelim x) r2 in
                   if v = [] then None
                   else Some (k @ '':'' @ v, dropWhile (\<lambda>x. \<not> scopeDelim x) r2)))"

lemma tokenAt_shorter: "tokenAt s = Some (t, r) \<Longrightarrow> length r < length s"
proof -
  assume a: "tokenAt s = Some (t, r)"
  have "length (dropWhile (\<lambda>x. \<not> scopeDelim x) r2) < length s" if "dropWhile kindChar s = c2 # r2" for c2 r2
    using length_dropWhile_le [of "\<lambda>x. \<not> scopeDelim x" r2] length_dropWhile_le [of kindChar s] that by simp
  with a show ?thesis
    by (auto simp: tokenAt_def Let_def split: list.splits if_splits)
qed

function scanTokens :: "string \<Rightarrow> string list" where
  "scanTokens s =
     (case s of
        [] \<Rightarrow> []
      | ch # cs \<Rightarrow>
          (case tokenAt s of
             None \<Rightarrow> scanTokens cs
           | Some (t, r) \<Rightarrow> t # scanTokens r))"
  by pat_completeness auto
termination
  by (relation "measure length") (auto dest: tokenAt_shorter)

declare scanTokens.simps [simp del]

definition collectScopes :: "Evaluator \<Rightarrow> string list" where
  "collectScopes evaluator = js_set (scanTokens (evaluator_string evaluator))"

text \<open>Removing a literal prefix.\<close>

fun stripPrefix :: "string \<Rightarrow> string \<Rightarrow> string option" where
  "stripPrefix [] s = Some s"
| "stripPrefix (p # ps) [] = None"
| "stripPrefix (p # ps) (c # cs) = (if p = c then stripPrefix ps cs else None)"

text \<open>\<open>\s+\<close>.\<close>

fun spaces1 :: "string \<Rightarrow> string option" where
  "spaces1 [] = None"
| "spaces1 (ch # cs) = (if js_space ch then Some (dropWhile js_space cs) else None)"

definition aclVerbs :: "string list" where
  "aclVerbs = [''read'', ''write'', ''delete'', ''create'']"

definition aclUidChar :: "char \<Rightarrow> bool" where
  "aclUidChar ch \<longleftrightarrow> \<not> js_space ch \<and> ch \<notin> set '',)|''"

text \<open>The expression from the white space after the verb on.\<close>

definition aclTail :: "string \<Rightarrow> string option" where
  "aclTail s =
     Option.bind (spaces1 s) (\<lambda>s1.
     Option.bind (stripPrefix ''on'' s1) (\<lambda>s2.
     Option.bind (spaces1 s2) (\<lambda>s3.
     Option.bind (stripPrefix ''dashboards:uid:'' s3) (\<lambda>s4.
       let u = takeWhile aclUidChar s4 in if u = [] then None else Some u))))"

fun firstSome :: "('a \<Rightarrow> 'b option) \<Rightarrow> 'a list \<Rightarrow> 'b option" where
  "firstSome f [] = None"
| "firstSome f (x # xs) = (case f x of None \<Rightarrow> firstSome f xs | Some y \<Rightarrow> Some y)"

definition aclMatchAt :: "string \<Rightarrow> (string \<times> string) option" where
  "aclMatchAt s =
     Option.bind (stripPrefix ''dashboards:'' s) (\<lambda>r.
       firstSome (\<lambda>verb. Option.bind (stripPrefix verb r)
         (\<lambda>r2. map_option (Pair verb) (aclTail r2))) aclVerbs)"

fun aclSearch :: "string \<Rightarrow> (string \<times> string) option" where
  "aclSearch [] = None"
| "aclSearch (ch # cs) = (case aclMatchAt (ch # cs) of Some m \<Rightarrow> Some m | None \<Rightarrow> aclSearch cs)"

definition PermissionLevel_View :: nat where "PermissionLevel_View = 1"
definition PermissionLevel_Edit :: nat where "PermissionLevel_Edit = 2"
definition PermissionLevel_Admin :: nat where "PermissionLevel_Admin = 4"

definition extractDashboardAclTarget :: "Evaluator \<Rightarrow> (string \<times> nat) option" where
  "extractDashboardAclTarget evaluator =
     (case aclSearch (evaluator_string evaluator) of
        None \<Rightarrow> None
      | Some (verb, u) \<Rightarrow>
          Some (u, if verb = ''read'' then PermissionLevel_View
                   else if verb = ''write'' \<or> verb = ''delete'' \<or> verb = ''create''
                   then PermissionLevel_Edit
                   else PermissionLevel_View))"

subsection \<open>Specification vocabulary\<close>

text \<open>Every scope an evaluator mentions.\<close>

fun evaluatorScopes :: "Evaluator \<Rightarrow> string set" where
  "evaluatorScopes (ActionEvaluator a ss) = set ss"
| "evaluatorScopes (ResolvedActionEvaluator a rs) = {}"
| "evaluatorScopes (AllEvaluator cs) = (\<Union>c\<in>set cs. evaluatorScopes c)"
| "evaluatorScopes (AnyEvaluator cs) = (\<Union>c\<in>set cs. evaluatorScopes c)"

text \<open>The usual shape: a lower-case kind, a colon, and a rest without delimiters.\<close>

definition cleanScope :: "string \<Rightarrow> bool" where
  "cleanScope s \<longleftrightarrow> tokenAt s = Some (s, [])"

section \<open>Lemmas\<close>

lemma delim_classes:
  assumes "scopeDelim d"
  shows "\<not> kindChar d" "\<not> lowerLetter d" "d \<noteq> CHR '':''"
proof -
  have "d \<noteq> CHR '':''"
    using assms unfolding scopeDelim_def by (auto simp: js_space_def)
  moreover have "(of_char d :: nat) \<in> {9,10,11,12,13,32,160,44,40,41,124}"
    using assms unfolding scopeDelim_def by (auto simp: js_space_def)
  then have "\<not> lowerLetter d \<and> \<not> digitChar d \<and> d \<noteq> CHR ''.''"
    by (auto simp: lowerLetter_def digitChar_def)
  ultimately show "\<not> kindChar d" "\<not> lowerLetter d" "d \<noteq> CHR '':''"
    by (auto simp: kindChar_def)
qed

lemma while_append_stop:
  assumes "\<not> P d"
  shows "takeWhile P (x @ d # y) = takeWhile P x" "dropWhile P (x @ d # y) = dropWhile P x @ d # y"
  using assms by (induction x) auto

lemma tokenAt_append:
  assumes d: "scopeDelim d" and ne: "x \<noteq> []"
  shows "tokenAt (x @ d # y) = map_option (\<lambda>(t, r). (t, r @ d # y)) (tokenAt x)"
proof -
  obtain ch cs where x: "x = ch # cs" using ne by (cases x) auto
  note D = delim_classes [OF d]
  have k: "takeWhile kindChar (x @ d # y) = takeWhile kindChar x"
    "dropWhile kindChar (x @ d # y) = dropWhile kindChar x @ d # y"
    using while_append_stop [of kindChar d x y] D(1) by simp_all
  have v: "takeWhile (\<lambda>c. \<not> scopeDelim c) (r @ d # y) = takeWhile (\<lambda>c. \<not> scopeDelim c) r"
    "dropWhile (\<lambda>c. \<not> scopeDelim c) (r @ d # y) = dropWhile (\<lambda>c. \<not> scopeDelim c) r @ d # y" for r
    using while_append_stop [of "\<lambda>c. \<not> scopeDelim c" d r y] d by simp_all
  show ?thesis
  proof (cases "dropWhile kindChar x")
    case Nil
    then show ?thesis using k D(3) x by (simp add: tokenAt_def Let_def)
  next
    case (Cons c2 r2)
    then show ?thesis using k v x by (simp add: tokenAt_def Let_def)
  qed
qed

lemma scan_append_delim:
  "scopeDelim d \<Longrightarrow> scanTokens (x @ d # y) = scanTokens x @ scanTokens y"
proof (induction x rule: scanTokens.induct)
  case (1 x)
  show ?case
  proof (cases x)
    case Nil
    have "tokenAt (d # y) = None" using delim_classes [OF "1.prems"] by (simp add: tokenAt_def)
    then have "scanTokens (d # y) = scanTokens y" by (subst scanTokens.simps) simp
    moreover have "scanTokens [] = []" by (subst scanTokens.simps) simp
    ultimately show ?thesis using Nil by simp
  next
    case (Cons ch cs)
    have T: "tokenAt (x @ d # y) = map_option (\<lambda>(t, r). (t, r @ d # y)) (tokenAt x)"
      by (rule tokenAt_append [OF "1.prems"]) (simp add: Cons)
    show ?thesis
    proof (cases "tokenAt x")
      case None
      have "scanTokens (x @ d # y) = scanTokens (cs @ d # y)" "scanTokens x = scanTokens cs"
        using None T Cons by (subst scanTokens.simps, simp)+
      then show ?thesis using "1.IH"(1) [OF Cons None "1.prems"] by simp
    next
      case (Some p)
      obtain t r where p: "p = (t, r)" by (cases p)
      have "scanTokens (x @ d # y) = t # scanTokens (r @ d # y)" "scanTokens x = t # scanTokens r"
        using Some p T Cons by (subst scanTokens.simps, simp)+
      then show ?thesis using "1.IH"(2) [OF Cons Some p [symmetric] "1.prems"] by simp
    qed
  qed
qed

lemma scan_clean: "cleanScope s \<Longrightarrow> s \<in> set (scanTokens s)"
proof -
  assume c: "cleanScope s"
  then have "tokenAt s = Some (s, [])" by (simp add: cleanScope_def)
  moreover from this have "s \<noteq> []" by (auto simp: tokenAt_def)
  ultimately show ?thesis by (subst scanTokens.simps) (simp add: list.case_eq_if)
qed

lemma delims [simp]:
  "scopeDelim CHR '' ''" "scopeDelim CHR '',''" "scopeDelim CHR ''(''" "scopeDelim CHR '')''" "scopeDelim CHR ''|''"
  by (simp_all add: scopeDelim_def js_space_def)

lemma scan_join:
  "set (scanTokens (join_with '', '' xs)) = (\<Union>x\<in>set xs. set (scanTokens x))"
proof (induction xs rule: induct_list012)
  case 1
  show ?case by (subst scanTokens.simps) simp
next
  case (2 x)
  show ?case by simp
next
  case (3 x y zs)
  have "scanTokens (x @ '', '' @ join_with '', '' (y # zs))
      = scanTokens x @ scanTokens ([] @ CHR '' '' # join_with '', '' (y # zs))"
    using scan_append_delim [of "CHR '',''" x] by simp
  also have "\<dots> = scanTokens x @ scanTokens [] @ scanTokens (join_with '', '' (y # zs))"
    using scan_append_delim [of "CHR '' ''" "[]"] by simp
  also have "scanTokens [] = []" by (subst scanTokens.simps) simp
  finally show ?case using "3.IH"(2) by simp
qed

lemma scan_wrap: "set (scanTokens s) \<subseteq> set (scanTokens (x @ CHR ''('' # s @ '')''))"
proof -
  have "scanTokens (x @ CHR ''('' # s @ '')'') = scanTokens x @ scanTokens (s @ CHR '')'' # [])"
    using scan_append_delim [of "CHR ''(''" x] by simp
  also have "\<dots> = scanTokens x @ scanTokens s @ scanTokens []"
    using scan_append_delim [of "CHR '')''" s] by simp
  finally show ?thesis by auto
qed

text \<open>Every clean scope an evaluator mentions is found in its printed form.\<close>

lemma scan_finds_scopes:
  "s \<in> evaluatorScopes e \<Longrightarrow> cleanScope s \<Longrightarrow> s \<in> set (scanTokens (evaluator_string e))"
proof (induction e)
  case (ActionEvaluator a ss)
  have "scanTokens (a @ '' on '' @ join_with '', '' ss)
      = scanTokens a @ scanTokens (''on'' @ CHR '' '' # join_with '', '' ss)"
    using scan_append_delim [of "CHR '' ''" a] by simp
  also have "\<dots> = scanTokens a @ scanTokens ''on'' @ scanTokens (join_with '', '' ss)"
    using scan_append_delim [of "CHR '' ''" "''on''"] by simp
  finally have "set (scanTokens (join_with '', '' ss)) \<subseteq> set (scanTokens (a @ '' on '' @ join_with '', '' ss))"
    by auto
  moreover have "s \<in> set (scanTokens (join_with '', '' ss))"
    using ActionEvaluator scan_clean by (auto simp: scan_join)
  ultimately show ?case using ActionEvaluator.prems(1) by auto
next
  case (AllEvaluator cs)
  then have "s \<in> set (scanTokens (join_with '', '' (map evaluator_string cs)))"
    by (auto simp: scan_join)
  then show ?case using scan_wrap [of _ "''all''"] by auto
next
  case (AnyEvaluator cs)
  then have "s \<in> set (scanTokens (join_with '', '' (map evaluator_string cs)))"
    by (auto simp: scan_join)
  then show ?case using scan_wrap [of _ "''any''"] by auto
qed simp

lemma collect_finds_scopes:
  "s \<in> evaluatorScopes e \<Longrightarrow> cleanScope s \<Longrightarrow> s \<in> set (collectScopes e)"
  by (simp add: collectScopes_def scan_finds_scopes)

end
