(* ===== verification/Access_Control.thy ===== *)
theory Access_Control
  imports Rbac_Resolvers Evaluator_Scan "HOL-Library.Product_Lexorder"
begin

text \<open>
  The access-control service (\<open>api-gateway/src/services/accesscontrol-service.ts\<close>) with the
  queries of the repositories it reads (\<open>data-layer/src/repository/auth\<close>) and the legacy
  dashboard ACL fallback (\<open>dashboard-acl-service.ts\<close>).

  The database is a record of tables (lists of rows). The service fills
  \<open>identity.permissions\<close> on first use, so its operations return the identity too. The legacy
  service may throw: its result is an option.

  Results: the resolved permission list holds exactly the permissions of the roles the identity
  has in its organisation; a check passes exactly when the resolved evaluator passes or the
  legacy fallback does; the pre-fetch of scopes loses nothing for scopes of the usual shape;
  the fallback lets one granted dashboard pass a whole conjunction.
\<close>

section \<open>Definitions\<close>

record Identity =
  id_userId :: string
  id_orgId :: string
  id_orgRole :: string
  id_isServerAdmin :: bool
  id_authenticatedBy :: string
  id_permissions :: "ResolvedPermission list option"
  id_sessionId :: "string option"
  id_serviceAccountId :: "string option"

record BuiltinRole =
  br_role :: string
  br_roleId :: string
  br_orgId :: string

record UserRole =
  ur_orgId :: string
  ur_userId :: string
  ur_roleId :: string

record TeamMember =
  tm_orgId :: string
  tm_teamId :: string
  tm_userId :: string

record TeamRole =
  tr_orgId :: string
  tr_teamId :: string
  tr_roleId :: string

record Permission =
  pe_roleId :: string
  pe_action :: string
  pe_scope :: string

record auth_tables =
  at_builtin :: "BuiltinRole list"
  at_userRoles :: "UserRole list"
  at_teamMembers :: "TeamMember list"
  at_teamRoles :: "TeamRole list"
  at_permissions :: "Permission list"

definition listBuiltinRoles :: "auth_tables \<Rightarrow> string \<Rightarrow> BuiltinRole list" where
  "listBuiltinRoles t orgId = sort_key br_role (filter (\<lambda>r. br_orgId r = orgId) (at_builtin t))"

text \<open>With an empty \<open>orgId\<close> (falsy) the list is not restricted to an organisation.\<close>

definition listByUser :: "auth_tables \<Rightarrow> string \<Rightarrow> string \<Rightarrow> UserRole list" where
  "listByUser t userId orgId =
     (if orgId \<noteq> []
      then filter (\<lambda>r. ur_userId r = userId \<and> (ur_orgId r = orgId \<or> ur_orgId r = [])) (at_userRoles t)
      else filter (\<lambda>r. ur_userId r = userId) (at_userRoles t))"

definition listTeamsForUser :: "auth_tables \<Rightarrow> string \<Rightarrow> string \<Rightarrow> TeamMember list" where
  "listTeamsForUser t userId orgId =
     (if orgId \<noteq> []
      then filter (\<lambda>r. tm_userId r = userId \<and> tm_orgId r = orgId) (at_teamMembers t)
      else filter (\<lambda>r. tm_userId r = userId) (at_teamMembers t))"

definition listByTeams :: "auth_tables \<Rightarrow> string list \<Rightarrow> string \<Rightarrow> TeamRole list" where
  "listByTeams t teamIds orgId =
     (if length teamIds = 0 then []
      else if orgId \<noteq> []
      then filter (\<lambda>r. tr_teamId r \<in> set teamIds \<and> (tr_orgId r = orgId \<or> tr_orgId r = [])) (at_teamRoles t)
      else filter (\<lambda>r. tr_teamId r \<in> set teamIds) (at_teamRoles t))"

definition listByRoles :: "auth_tables \<Rightarrow> string list \<Rightarrow> Permission list" where
  "listByRoles t roleIds =
     (if length roleIds = 0 then []
      else sort_key (\<lambda>p. (pe_roleId p, pe_action p, pe_scope p))
             (filter (\<lambda>p. pe_roleId p \<in> set roleIds) (at_permissions t)))"

text \<open>The insertion-ordered set of role ids of \<open>getUserPermissions\<close>.\<close>

definition userRoleIds :: "auth_tables \<Rightarrow> Identity \<Rightarrow> string list" where
  "userRoleIds t identity =
     (let userId = id_userId identity; orgId = id_orgId identity;
          builtin = (if id_orgRole identity \<noteq> [] \<and> id_orgRole identity \<noteq> ''None''
             then map br_roleId (filter (\<lambda>m. br_role m = id_orgRole identity) (listBuiltinRoles t orgId))
             else []);
          server = (if id_isServerAdmin identity
             then map br_roleId (filter (\<lambda>m. br_role m = ''Server Admin'') (listBuiltinRoles t []))
             else []);
          teamIds = map tm_teamId (listTeamsForUser t userId orgId)
      in js_set (builtin @ server @ map ur_roleId (listByUser t userId orgId)
           @ (if length teamIds > 0 then map tr_roleId (listByTeams t teamIds orgId) else [])))"

definition permKey :: "Permission \<Rightarrow> string" where
  "permKey p = pe_action p @ ''|'' @ pe_scope p"

definition getUserPermissions :: "auth_tables \<Rightarrow> Identity \<Rightarrow> ResolvedPermission list" where
  "getUserPermissions t identity =
     (let roleIds = userRoleIds t identity in
      if length roleIds = 0 then []
      else map (\<lambda>p. \<lparr>rp_action = pe_action p, rp_scope = pe_scope p\<rparr>)
             (dedup_by permKey [] (listByRoles t roleIds)))"

definition ensurePermissions :: "auth_tables \<Rightarrow> Identity \<Rightarrow> ResolvedPermission list \<times> Identity" where
  "ensurePermissions t identity =
     (case id_permissions identity of
        Some ps \<Rightarrow> (ps, identity)
      | None \<Rightarrow> let p = getUserPermissions t identity
                in (p, identity\<lparr>id_permissions := Some p\<rparr>))"

record AccessControlDeps =
  ad_tables :: auth_tables
  ad_resolvers :: "(string \<Rightarrow> string \<Rightarrow> string list) option"
  ad_legacyAcl :: "(string \<Rightarrow> string \<Rightarrow> Identity \<Rightarrow> nat \<Rightarrow> bool option) option"
  ad_LEGACY_ACL_ENABLED :: "string option"

text \<open>The pre-fetched map: the collected scopes resolve, every other scope stays literal.\<close>

definition cachedResolve :: "(string \<Rightarrow> string list) \<Rightarrow> string list \<Rightarrow> string \<Rightarrow> string list" where
  "cachedResolve reg scopesToPre s = or_default (map_of (map (\<lambda>x. (x, reg x)) scopesToPre) s) [s]"

definition effectiveEvaluator :: "AccessControlDeps \<Rightarrow> string \<Rightarrow> Evaluator \<Rightarrow> Evaluator" where
  "effectiveEvaluator deps orgId evaluator =
     (case ad_resolvers deps of
        None \<Rightarrow> evaluator
      | Some registryFor \<Rightarrow>
          mutate (cachedResolve (registryFor orgId) (collectScopes evaluator)) evaluator)"

definition legacyFallback :: "AccessControlDeps \<Rightarrow> Identity \<Rightarrow> Evaluator \<Rightarrow> bool" where
  "legacyFallback deps identity evaluator =
     (case (if ad_LEGACY_ACL_ENABLED deps \<noteq> Some ''false'' then ad_legacyAcl deps else None) of
        None \<Rightarrow> False
      | Some grants \<Rightarrow>
          (case extractDashboardAclTarget evaluator of
             None \<Rightarrow> False
           | Some (u, level) \<Rightarrow>
               or_default (grants (id_orgId identity) u identity level) False))"

definition acEvaluate :: "AccessControlDeps \<Rightarrow> Identity \<Rightarrow> Evaluator \<Rightarrow> bool \<times> Identity" where
  "acEvaluate deps identity evaluator =
     (let (permissions, identity') = ensurePermissions (ad_tables deps) identity in
      if evaluate (effectiveEvaluator deps (id_orgId identity') evaluator) permissions
      then (True, identity')
      else (legacyFallback deps identity' evaluator, identity'))"

fun filterLoop :: "AccessControlDeps \<Rightarrow> ('t \<Rightarrow> Evaluator) \<Rightarrow> Identity \<Rightarrow> 't list \<Rightarrow> 't list \<times> Identity" where
  "filterLoop deps buildEvaluator identity [] = ([], identity)"
| "filterLoop deps buildEvaluator identity (item # items) =
     (let (ok, identity1) = acEvaluate deps identity (buildEvaluator item);
          (kept, identity2) = filterLoop deps buildEvaluator identity1 items
      in (if ok then item # kept else kept, identity2))"

definition filterByPermission ::
    "AccessControlDeps \<Rightarrow> Identity \<Rightarrow> 't list \<Rightarrow> ('t \<Rightarrow> Evaluator) \<Rightarrow> 't list \<times> Identity" where
  "filterByPermission deps identity items buildEvaluator =
     (if length items = 0 then ([], identity)
      else filterLoop deps buildEvaluator (snd (ensurePermissions (ad_tables deps) identity)) items)"

subsection \<open>The legacy dashboard ACL\<close>

record DashboardAcl =
  da_orgId :: string
  da_dashboardId :: "string option"
  da_folderId :: "string option"
  da_userId :: "string option"
  da_teamId :: "string option"
  da_role :: "string option"
  da_permission :: nat

record DashboardAclEntry = DashboardAcl +
  da_isInherited :: bool
  da_inheritedFrom :: "string option"

record acl_tables =
  al_acl :: "DashboardAcl list"
  al_folders :: folder_table
  al_auth :: auth_tables
  al_dashboards :: "(string \<times> string \<times> string option) list"

definition listByDashboard :: "acl_tables \<Rightarrow> string \<Rightarrow> DashboardAcl list" where
  "listByDashboard t d = filter (\<lambda>r. da_dashboardId r = Some d) (al_acl t)"

definition listByFolder :: "acl_tables \<Rightarrow> string \<Rightarrow> DashboardAcl list" where
  "listByFolder t f = filter (\<lambda>r. da_folderId r = Some f) (al_acl t)"

text \<open>The rows \<open>(org_id, id, folder_uid)\<close> of the dashboards table.\<close>

definition folderUidForDashboard :: "acl_tables \<Rightarrow> string \<Rightarrow> string \<Rightarrow> string option" where
  "folderUidForDashboard t orgId u =
     (case List.find (\<lambda>(og, i, f). og = orgId \<and> i = u) (al_dashboards t) of
        None \<Rightarrow> None
      | Some (og, i, f) \<Rightarrow> f)"

definition aclEntry :: "bool \<Rightarrow> string option \<Rightarrow> DashboardAcl \<Rightarrow> DashboardAclEntry" where
  "aclEntry inherited from r = DashboardAcl.extend r (DashboardAclEntry.fields inherited from)"

definition getForDashboard :: "acl_tables \<Rightarrow> string \<Rightarrow> string \<Rightarrow> DashboardAclEntry list" where
  "getForDashboard t orgId dashboardUid =
     (let folderUid = folderUidForDashboard t orgId dashboardUid;
          direct = map (aclEntry False None) (listByDashboard t dashboardUid)
      in direct @
        (if truthy folderUid
         then (case folderFindByUid (al_folders t) orgId (the folderUid) of
                 None \<Rightarrow> []
               | Some folder \<Rightarrow>
                   concat (map (\<lambda>f. map (aclEntry True (Some (fo_uid f))) (listByFolder t (fo_id f)))
                     (folder # listAncestors (al_folders t) orgId (the folderUid))))
         else []))"

definition aclEntryGrants :: "string list \<Rightarrow> Identity \<Rightarrow> nat \<Rightarrow> DashboardAclEntry \<Rightarrow> bool" where
  "aclEntryGrants teamIds identity requiredLevel e =
     (if da_permission e < requiredLevel then False
      else if truthy (da_userId e) \<and> da_userId e = Some (id_userId identity) then True
      else if truthy (da_teamId e) \<and> the (da_teamId e) \<in> set teamIds then True
      else truthy (da_role e) \<and> da_role e = Some (id_orgRole identity))"

definition grantsAtLeast :: "acl_tables \<Rightarrow> string \<Rightarrow> string \<Rightarrow> Identity \<Rightarrow> nat \<Rightarrow> bool" where
  "grantsAtLeast t orgId dashboardUid identity requiredLevel =
     (let entries = getForDashboard t orgId dashboardUid in
      if length entries = 0 then False
      else let teamIds = js_set (map tm_teamId (listTeamsForUser (al_auth t) (id_userId identity) orgId))
           in list_ex (aclEntryGrants teamIds identity requiredLevel) entries)"

subsection \<open>Specification vocabulary\<close>

text \<open>The roles an identity has in its organisation: the four sources the service unions.\<close>

definition hasRole :: "auth_tables \<Rightarrow> Identity \<Rightarrow> string \<Rightarrow> bool" where
  "hasRole t i r \<longleftrightarrow>
     (id_orgRole i \<noteq> [] \<and> id_orgRole i \<noteq> ''None'' \<and>
       (\<exists>m\<in>set (at_builtin t). br_orgId m = id_orgId i \<and> br_role m = id_orgRole i \<and> br_roleId m = r))
     \<or> (id_isServerAdmin i \<and>
       (\<exists>m\<in>set (at_builtin t). br_orgId m = [] \<and> br_role m = ''Server Admin'' \<and> br_roleId m = r))
     \<or> (\<exists>m\<in>set (at_userRoles t). ur_userId m = id_userId i \<and> ur_orgId m \<in> {id_orgId i, []} \<and> ur_roleId m = r)
     \<or> (\<exists>m\<in>set (at_teamMembers t). tm_userId m = id_userId i \<and> tm_orgId m = id_orgId i \<and>
          (\<exists>x\<in>set (at_teamRoles t). tr_teamId x = tm_teamId m \<and> tr_orgId x \<in> {id_orgId i, []} \<and> tr_roleId x = r))"

text \<open>An ACL row that names the caller, at the level or above.\<close>

definition aclNames :: "auth_tables \<Rightarrow> string \<Rightarrow> Identity \<Rightarrow> nat \<Rightarrow> DashboardAcl \<Rightarrow> bool" where
  "aclNames t orgId i level r \<longleftrightarrow> level \<le> da_permission r \<and>
     (da_userId r = Some (id_userId i) \<and> id_userId i \<noteq> []
      \<or> (\<exists>m\<in>set (at_teamMembers t). tm_userId m = id_userId i \<and> tm_orgId m = orgId
           \<and> da_teamId r = Some (tm_teamId m) \<and> tm_teamId m \<noteq> [])
      \<or> da_role r = Some (id_orgRole i) \<and> id_orgRole i \<noteq> [])"

section \<open>Lemmas\<close>

lemma userRoleIds_iff:
  assumes "id_orgId i \<noteq> []"
  shows "r \<in> set (userRoleIds t i) \<longleftrightarrow> hasRole t i r"
proof -
  let ?teams = "map tm_teamId (listTeamsForUser t (id_userId i) (id_orgId i))"
  have teams: "set (if length ?teams > 0 then map tr_roleId (listByTeams t ?teams (id_orgId i)) else [])
      = {r. \<exists>m\<in>set (at_teamMembers t). tm_userId m = id_userId i \<and> tm_orgId m = id_orgId i \<and>
          (\<exists>x\<in>set (at_teamRoles t). tr_teamId x = tm_teamId m \<and> tr_orgId x \<in> {id_orgId i, []} \<and> tr_roleId x = r)}"
    using assms by (auto simp: listByTeams_def listTeamsForUser_def image_iff filter_empty_conv)
  show ?thesis
    unfolding userRoleIds_def Let_def set_js_set set_append teams
    using assms by (auto simp: hasRole_def listBuiltinRoles_def listByUser_def)
qed

text \<open>First-wins de-duplication loses nothing that the key determines.\<close>

lemma dedup_by_image:
  assumes "\<And>x y. x \<in> set xs \<Longrightarrow> y \<in> set xs \<Longrightarrow> key x = key y \<Longrightarrow> f x = f y"
  shows "f ` set (dedup_by key [] xs) = f ` set xs"
proof
  show "f ` set (dedup_by key [] xs) \<subseteq> f ` set xs"
    by (rule image_mono [OF set_dedup_by_subset])
  show "f ` set xs \<subseteq> f ` set (dedup_by key [] xs)"
  proof
    fix v assume "v \<in> f ` set xs"
    then obtain x where x: "x \<in> set xs" "v = f x" by auto
    have "key x \<in> key ` set (dedup_by key [] xs)" using x(1) by (simp add: dedup_by_keys)
    then obtain y where y: "y \<in> set (dedup_by key [] xs)" "key x = key y" by auto
    then have "f x = f y" using assms x(1) set_dedup_by_subset by (metis subsetD)
    then show "v \<in> f ` set (dedup_by key [] xs)" using x(2) y(1) by blast
  qed
qed

lemma permKey_inj:
  assumes "CHR ''|'' \<notin> set (pe_action p)" "CHR ''|'' \<notin> set (pe_action q)" "permKey p = permKey q"
  shows "pe_action p = pe_action q \<and> pe_scope p = pe_scope q"
  using sep_key_inj [of "CHR ''|''" "pe_action p" "pe_action q" "pe_scope p" "pe_scope q"] assms
  by (simp add: permKey_def)

lemma getUserPermissions_set:
  assumes "id_orgId i \<noteq> []" "\<forall>p\<in>set (at_permissions t). CHR ''|'' \<notin> set (pe_action p)"
  shows "set (getUserPermissions t i) =
    {\<lparr>rp_action = pe_action p, rp_scope = pe_scope p\<rparr> | p. p \<in> set (at_permissions t) \<and> hasRole t i (pe_roleId p)}"
proof -
  let ?ids = "userRoleIds t i" and ?f = "\<lambda>p. \<lparr>rp_action = pe_action p, rp_scope = pe_scope p\<rparr>"
  have rows: "set (listByRoles t ?ids) = {p \<in> set (at_permissions t). hasRole t i (pe_roleId p)}"
    using userRoleIds_iff [OF assms(1), of _ t] by (auto simp: listByRoles_def)
  have "?f ` set (dedup_by permKey [] (listByRoles t ?ids)) = ?f ` set (listByRoles t ?ids)"
    by (rule dedup_by_image) (use rows assms(2) permKey_inj in blast)
  moreover have "getUserPermissions t i = map ?f (dedup_by permKey [] (listByRoles t ?ids))"
    by (simp add: getUserPermissions_def Let_def listByRoles_def)
  ultimately show ?thesis by (auto simp: rows)
qed

lemma getUserPermissions_distinct: "distinct (getUserPermissions t i)"
proof -
  let ?f = "\<lambda>p. \<lparr>rp_action = pe_action p, rp_scope = pe_scope p\<rparr>"
  have key: "permKey = (\<lambda>q. rp_action q @ ''|'' @ rp_scope q) \<circ> ?f"
    by (rule ext) (simp add: permKey_def)
  have "distinct (map permKey (dedup_by permKey [] xs))" for xs by (rule dedup_by_distinct)
  then have "distinct (map ?f (dedup_by permKey [] xs))" for xs
    by (subst (asm) (1) key) (simp only: map_map [symmetric] distinct_map)
  then show ?thesis by (simp add: getUserPermissions_def Let_def)
qed

text \<open>Resolution is monotone in the resolver.\<close>

lemma mutate_mono:
  assumes "\<And>s. s \<in> evaluatorScopes e \<Longrightarrow> set (r s) \<subseteq> set (r' s)" "evaluate (mutate r e) ps"
  shows "evaluate (mutate r' e) ps"
  using assms
proof (induction e)
  case (ActionEvaluator a ss)
  then show ?case by (auto simp: evaluate_iff) blast
qed (auto simp: evaluate_iff)

lemma cachedResolve_iff:
  "cachedResolve reg pre s = (if s \<in> set pre then reg s else [s])"
  by (simp add: cachedResolve_def map_of_map_keys [symmetric] map_of_map_restrict restrict_map_def
      del: map_map)

lemma acEvaluate_iff:
  "fst (acEvaluate deps i e) \<longleftrightarrow>
     evaluate (effectiveEvaluator deps (id_orgId i) e) (fst (ensurePermissions (ad_tables deps) i))
     \<or> legacyFallback deps (snd (ensurePermissions (ad_tables deps) i)) e"
  by (auto simp: acEvaluate_def ensurePermissions_def Let_def split: option.splits)

lemma acEvaluate_identity: "snd (acEvaluate deps i e) = snd (ensurePermissions (ad_tables deps) i)"
  by (auto simp: acEvaluate_def Let_def split: prod.splits)

lemma ensure_idem:
  "ensurePermissions t (snd (ensurePermissions t i)) = ensurePermissions t i"
  by (auto simp: ensurePermissions_def Let_def split: option.splits)

lemma filterLoop_primed:
  assumes "ensurePermissions (ad_tables deps) i = (ps, i)"
  shows "filterLoop deps b i items = (filter (\<lambda>x. fst (acEvaluate deps i (b x))) items, i)"
proof (induction items)
  case Nil
  show ?case by simp
next
  case (Cons x xs)
  have "snd (acEvaluate deps i (b x)) = i" using assms by (simp add: acEvaluate_identity)
  with Cons.IH show ?case by (cases "acEvaluate deps i (b x)") simp
qed

lemma ensure_snd: "ensurePermissions t (snd (ensurePermissions t i))
    = (fst (ensurePermissions t i), snd (ensurePermissions t i))"
  by (simp add: ensure_idem)

subsection \<open>The legacy fallback\<close>

lemma aclEntry_fields [simp]:
  "da_permission (aclEntry b f r) = da_permission r" "da_userId (aclEntry b f r) = da_userId r"
  "da_teamId (aclEntry b f r) = da_teamId r" "da_role (aclEntry b f r) = da_role r"
  by (cases r, simp add: aclEntry_def DashboardAcl.defs DashboardAclEntry.defs)+

lemma aclEntryGrants_iff:
  assumes "orgId \<noteq> []"
  shows "aclEntryGrants (js_set (map tm_teamId (listTeamsForUser t (id_userId i) orgId))) i level (aclEntry b f r)
    \<longleftrightarrow> aclNames t orgId i level r"
proof -
  have teams: "set (js_set (map tm_teamId (listTeamsForUser t (id_userId i) orgId)))
      = {tm_teamId m | m. m \<in> set (at_teamMembers t) \<and> tm_userId m = id_userId i \<and> tm_orgId m = orgId}"
    using assms by (auto simp: listTeamsForUser_def)
  show ?thesis
    unfolding aclEntryGrants_def aclNames_def teams aclEntry_fields
    by (cases "da_userId r"; cases "da_teamId r"; cases "da_role r") auto
qed

text \<open>The folders whose rows a dashboard inherits.\<close>

definition aclFolders :: "acl_tables \<Rightarrow> string \<Rightarrow> string \<Rightarrow> GrafanaFolder set" where
  "aclFolders t orgId d =
     {f \<in> set (al_folders t). fo_orgId f = orgId \<and>
        (\<exists>u. folderUidForDashboard t orgId d = Some u \<and> u \<noteq> []
           \<and> (fo_uid f = u \<or> (fo_uid f, u) \<in> (parentRel (al_folders t) orgId)\<^sup>+))}"

lemma ancestor_rows:
  assumes "folderForest db" "length (listAncestors db og u) \<le> FOLDER_MAX_DEPTH"
    and "folderFindByUid db og u = Some folder"
  shows "set (folder # listAncestors db og u)
    = {f \<in> set db. fo_orgId f = og \<and> (fo_uid f = u \<or> (fo_uid f, u) \<in> (parentRel db og)\<^sup>+)}"
proof -
  have keys: "folderKeys db" using assms(1) by (simp add: folderForest_def)
  note F = findByUid_SomeD [OF assms(3)]
  have A: "f \<in> set (listAncestors db og u)"
    if T: "f \<in> set db" "fo_orgId f = og" "(fo_uid f, u) \<in> (parentRel db og)\<^sup>+" for f
  proof -
    obtain a where a: "a \<in> set (listAncestors db og u)" "fo_uid a = fo_uid f"
      using listAncestors_complete [OF assms(1,2) T(3)] by auto
    have "a \<in> set db" "fo_orgId a = og" using listAncestors_sound [OF a(1)] by simp_all
    then have "a = f" using keys_unique [OF keys _ T(1)] a(2) T(2) by simp
    with a(1) show ?thesis by simp
  qed
  have B: "f = folder" if "f \<in> set db" "fo_orgId f = og" "fo_uid f = u" for f
    using keys_unique [OF keys that(1), of folder] F that by simp
  show ?thesis
  proof (intro equalityI subsetI)
    fix f assume "f \<in> set (folder # listAncestors db og u)"
    then show "f \<in> {f \<in> set db. fo_orgId f = og \<and> (fo_uid f = u \<or> (fo_uid f, u) \<in> (parentRel db og)\<^sup>+)}"
      using F listAncestors_sound [of f db og u] by auto
  next
    fix f assume "f \<in> {f \<in> set db. fo_orgId f = og \<and> (fo_uid f = u \<or> (fo_uid f, u) \<in> (parentRel db og)\<^sup>+)}"
    then show "f \<in> set (folder # listAncestors db og u)" using A [of f] B [of f] by auto
  qed
qed

lemma getForDashboard_rows:
  assumes "folderForest (al_folders t)"
    and "\<And>u. length (listAncestors (al_folders t) orgId u) \<le> FOLDER_MAX_DEPTH"
  shows "list_ex P (getForDashboard t orgId d) \<longleftrightarrow>
    (\<exists>r\<in>set (al_acl t). da_dashboardId r = Some d \<and> P (aclEntry False None r))
    \<or> (\<exists>f\<in>aclFolders t orgId d. \<exists>r\<in>set (al_acl t).
         da_folderId r = Some (fo_id f) \<and> P (aclEntry True (Some (fo_uid f)) r))"
proof (cases "folderUidForDashboard t orgId d")
  case None
  then show ?thesis
    by (auto simp: getForDashboard_def aclFolders_def list_ex_iff listByDashboard_def)
next
  case (Some u)
  show ?thesis
  proof (cases "u \<noteq> [] \<and> folderFindByUid (al_folders t) orgId u \<noteq> None")
    case False
    have "aclFolders t orgId d = {}"
      using False Some trancl_target_is_row findByUid_present by (fastforce simp: aclFolders_def)
    moreover have "getForDashboard t orgId d = map (aclEntry False None) (listByDashboard t d)"
      using False Some by (auto simp: getForDashboard_def Let_def)
    ultimately show ?thesis by (auto simp: list_ex_iff listByDashboard_def)
  next
    case True
    then obtain folder where f: "folderFindByUid (al_folders t) orgId u = Some folder" by blast
    have fs: "aclFolders t orgId d = set (folder # listAncestors (al_folders t) orgId u)"
      unfolding ancestor_rows [OF assms(1,2) f] aclFolders_def using Some True by auto
    have "getForDashboard t orgId d = map (aclEntry False None) (listByDashboard t d)
        @ concat (map (\<lambda>f. map (aclEntry True (Some (fo_uid f))) (listByFolder t (fo_id f)))
            (folder # listAncestors (al_folders t) orgId u))"
      using Some True f by (simp add: getForDashboard_def)
    then show ?thesis unfolding fs list_ex_iff set_append set_concat set_map
      by (simp add: listByDashboard_def listByFolder_def) blast
  qed
qed

lemma aclTail_on:
  assumes "d \<noteq> []" "list_all aclUidChar d" "\<not> aclUidChar c"
  shows "aclTail ('' on dashboards:uid:'' @ d @ c # rest) = Some d"
proof -
  have "takeWhile aclUidChar (d @ c # rest) = d"
    using assms(2,3) by (simp add: takeWhile_append2 list_all_iff)
  then show ?thesis using assms(1) by (simp add: aclTail_def js_space_def)
qed

lemma aclSearch_all:
  assumes "d \<noteq> []" "list_all aclUidChar d" "\<not> aclUidChar c"
  shows "aclSearch (''all(dashboards:read on dashboards:uid:'' @ d @ c # rest) = Some (''read'', d)"
proof -
  have "aclMatchAt (''dashboards:read on dashboards:uid:'' @ d @ c # rest) = Some (''read'', d)"
    using aclTail_on [OF assms, of rest] by (simp add: aclMatchAt_def aclVerbs_def)
  moreover have "aclMatchAt (''all('' @ y) = None" "aclMatchAt (''ll('' @ y) = None"
      "aclMatchAt (''l('' @ y) = None" "aclMatchAt (''('' @ y) = None" for y
    by (simp_all add: aclMatchAt_def)
  ultimately show ?thesis by simp
qed

lemma printed_conjunction:
  "\<exists>c rest. \<not> aclUidChar c \<and> evaluator_string (ac_all (ac_eval ''dashboards:read'' (OneScope (''dashboards:uid:'' @ d)) # others))
     = ''all(dashboards:read on dashboards:uid:'' @ d @ c # rest"
proof (cases others)
  case Nil
  then show ?thesis by (intro exI [of _ "CHR '')''"] exI [of _ "[]"]) (simp add: ac_all_def aclUidChar_def)
next
  case (Cons e es)
  then show ?thesis
    by (intro exI [of _ "CHR '',''"] exI [of _ "'' '' @ join_with '', '' (map evaluator_string others) @ '')''"])
      (simp add: ac_all_def aclUidChar_def)
qed

lemma target_of_conjunction:
  assumes "d \<noteq> []" "list_all aclUidChar d"
  shows "extractDashboardAclTarget (ac_all (ac_eval ''dashboards:read'' (OneScope (''dashboards:uid:'' @ d)) # others))
    = Some (d, PermissionLevel_View)"
proof -
  obtain c rest where "\<not> aclUidChar c"
    "evaluator_string (ac_all (ac_eval ''dashboards:read'' (OneScope (''dashboards:uid:'' @ d)) # others))
       = ''all(dashboards:read on dashboards:uid:'' @ d @ c # rest"
    using printed_conjunction by blast
  with aclSearch_all [OF assms] show ?thesis
    unfolding extractDashboardAclTarget_def by (simp only:) simp
qed

section \<open>Properties\<close>

text \<open>The identity and tables of the examples.\<close>

definition exIdentity :: Identity where
  "exIdentity = \<lparr>id_userId = ''u'', id_orgId = ''org'', id_orgRole = ''Viewer'', id_isServerAdmin = False,
     id_authenticatedBy = ''session'', id_permissions = None, id_sessionId = None, id_serviceAccountId = None\<rparr>"

definition exAuth :: auth_tables where
  "exAuth = \<lparr>at_builtin = [\<lparr>br_role = ''Viewer'', br_roleId = ''r1'', br_orgId = ''org''\<rparr>],
     at_userRoles = [\<lparr>ur_orgId = ''other'', ur_userId = ''u'', ur_roleId = ''r2''\<rparr>],
     at_teamMembers = [], at_teamRoles = [],
     at_permissions = [\<lparr>pe_roleId = ''r1'', pe_action = ''dashboards:read'', pe_scope = ''folders:uid:a''\<rparr>,
                       \<lparr>pe_roleId = ''r2'', pe_action = ''dashboards:write'', pe_scope = []\<rparr>]\<rparr>"

text \<open>The permissions of an identity are exactly those of the roles it has in its organisation:
  the role its membership names, Server Admin when it is one, the roles assigned to the user, and
  the roles of its teams there, each assigned in the same organisation or globally. A role
  assigned in another organisation contributes nothing, and no permission is listed twice.\<close>

theorem getUserPermissions_exact:
  assumes "id_orgId i \<noteq> []" "\<forall>p\<in>set (at_permissions t). CHR ''|'' \<notin> set (pe_action p)"
  shows "set (getUserPermissions t i) =
      {\<lparr>rp_action = pe_action p, rp_scope = pe_scope p\<rparr> | p.
         p \<in> set (at_permissions t) \<and> hasRole t i (pe_roleId p)}
    \<and> distinct (getUserPermissions t i)"
  using getUserPermissions_set [OF assms] getUserPermissions_distinct by blast

theorem getUserPermissions_exact_witness:
  "set (getUserPermissions exAuth exIdentity)
     = {\<lparr>rp_action = pe_action p, rp_scope = pe_scope p\<rparr> | p.
         p \<in> set (at_permissions exAuth) \<and> hasRole exAuth exIdentity (pe_roleId p)}
   \<and> getUserPermissions exAuth exIdentity = [\<lparr>rp_action = ''dashboards:read'', rp_scope = ''folders:uid:a''\<rparr>]"
proof -
  have "getUserPermissions exAuth exIdentity = [\<lparr>rp_action = ''dashboards:read'', rp_scope = ''folders:uid:a''\<rparr>]"
    by code_simp
  then show ?thesis
    using getUserPermissions_exact [of exIdentity exAuth] by (simp add: exIdentity_def exAuth_def)
qed

text \<open>C35: what a check decides. A check that passes on the raw scopes passes; a check that passes
  does so by the fully resolved evaluator or by the legacy fallback; and when every scope of the
  check has the usual shape, the textual pre-fetch of its scopes makes no difference.\<close>

theorem acEvaluate_exact:
  assumes "ad_resolvers deps = Some (\<lambda>og. resolve (rdeps og))"
  shows "(evaluate e (fst (ensurePermissions (ad_tables deps) i)) \<longrightarrow> fst (acEvaluate deps i e))
    \<and> (fst (acEvaluate deps i e) \<longrightarrow>
         evaluate (mutate (resolve (rdeps (id_orgId i))) e) (fst (ensurePermissions (ad_tables deps) i))
         \<or> legacyFallback deps (snd (ensurePermissions (ad_tables deps) i)) e)
    \<and> ((\<forall>s\<in>evaluatorScopes e. cleanScope s) \<longrightarrow>
         fst (acEvaluate deps i e) =
           (evaluate (mutate (resolve (rdeps (id_orgId i))) e) (fst (ensurePermissions (ad_tables deps) i))
            \<or> legacyFallback deps (snd (ensurePermissions (ad_tables deps) i)) e))"
proof -
  let ?reg = "resolve (rdeps (id_orgId i))" and ?ps = "fst (ensurePermissions (ad_tables deps) i)"
  let ?r = "cachedResolve ?reg (collectScopes e)"
  have fst_eq: "fst (acEvaluate deps i e) \<longleftrightarrow> evaluate (mutate ?r e) ?ps
      \<or> legacyFallback deps (snd (ensurePermissions (ad_tables deps) i)) e"
    using assms by (simp add: acEvaluate_iff effectiveEvaluator_def)
  have lit: "s \<in> set (?r s)" for s by (simp add: cachedResolve_iff resolve_keeps_literal)
  have sub: "set (?r s) \<subseteq> set (?reg s)" for s by (simp add: cachedResolve_iff resolve_keeps_literal)
  have up: "evaluate e ?ps \<Longrightarrow> evaluate (mutate ?r e) ?ps"
    by (rule scope_resolver.resolve_widens) (unfold_locales, rule lit)
  have down: "evaluate (mutate ?r e) ?ps \<Longrightarrow> evaluate (mutate ?reg e) ?ps"
    by (rule mutate_mono [OF sub])
  have same: "evaluate (mutate ?reg e) ?ps \<Longrightarrow> evaluate (mutate ?r e) ?ps"
    if "\<forall>s\<in>evaluatorScopes e. cleanScope s"
    by (rule mutate_mono [where r = ?reg])
      (use that collect_finds_scopes in \<open>auto simp: cachedResolve_iff\<close>)
  show ?thesis unfolding fst_eq using up down same by blast
qed

definition exDeps :: AccessControlDeps where
  "exDeps = \<lparr>ad_tables = exAuth,
     ad_resolvers = Some (\<lambda>og. resolve (repoDeps exTable og (\<lambda>_ _. Some ''b'') (\<lambda>_ _. None))),
     ad_legacyAcl = None, ad_LEGACY_ACL_ENABLED = None\<rparr>"

theorem acEvaluate_exact_witness:
  "fst (acEvaluate exDeps exIdentity (ac_eval ''dashboards:read'' (OneScope ''dashboards:uid:d'')))
   \<and> \<not> fst (acEvaluate exDeps exIdentity (ac_eval ''dashboards:write'' (OneScope ''dashboards:uid:d'')))"
proof -
  have R: "ad_resolvers exDeps = Some (\<lambda>og. resolve (repoDeps exTable og (\<lambda>_ _. Some ''b'') (\<lambda>_ _. None)))"
    by (simp add: exDeps_def)
  have "cleanScope ''dashboards:uid:d''" by code_simp
  then have clean: "\<forall>s\<in>evaluatorScopes (ac_eval a (OneScope ''dashboards:uid:d'')). cleanScope s" for a by simp
  have yes: "evaluate (mutate (resolve (repoDeps exTable (id_orgId exIdentity) (\<lambda>_ _. Some ''b'') (\<lambda>_ _. None)))
      (ac_eval ''dashboards:read'' (OneScope ''dashboards:uid:d''))) (fst (ensurePermissions (ad_tables exDeps) exIdentity))"
    by code_simp
  have no: "\<not> evaluate (mutate (resolve (repoDeps exTable (id_orgId exIdentity) (\<lambda>_ _. Some ''b'') (\<lambda>_ _. None)))
      (ac_eval ''dashboards:write'' (OneScope ''dashboards:uid:d''))) (fst (ensurePermissions (ad_tables exDeps) exIdentity))"
    by code_simp
  have leg: "\<not> legacyFallback exDeps i e" for i e by (simp add: legacyFallback_def exDeps_def)
  show ?thesis
    using acEvaluate_exact [OF R, of "ac_eval ''dashboards:read'' (OneScope ''dashboards:uid:d'')" exIdentity]
      acEvaluate_exact [OF R, of "ac_eval ''dashboards:write'' (OneScope ''dashboards:uid:d'')" exIdentity]
      clean yes no leg by blast
qed

text \<open>Filtering a list keeps exactly the items whose check passes, in their order, and resolves
  the permission list once: the identity returned is the primed one.\<close>

theorem filterByPermission_exact:
  "filterByPermission deps i items b =
     (filter (\<lambda>x. fst (acEvaluate deps i (b x))) items,
      if items = [] then i else snd (ensurePermissions (ad_tables deps) i))"
proof -
  let ?i = "snd (ensurePermissions (ad_tables deps) i)"
  have "acEvaluate deps ?i e = acEvaluate deps i e" for e
    by (simp add: acEvaluate_def ensure_idem)
  then show ?thesis
    using filterLoop_primed [OF ensure_snd, where b = b and items = items] by (simp add: filterByPermission_def)
qed

text \<open>What the legacy access list grants. Over a well-formed folder table, the fallback grants a
  level on a dashboard exactly when some row, for the dashboard itself, its folder or an ancestor
  of that folder, names the caller (as user, by team or by role) at that level or above.
  The organisation a row is recorded under is not consulted.\<close>

theorem grantsAtLeast_exact:
  assumes "folderForest (al_folders t)" "orgId \<noteq> []"
    and "\<And>u. length (listAncestors (al_folders t) orgId u) \<le> FOLDER_MAX_DEPTH"
  shows "grantsAtLeast t orgId d i level \<longleftrightarrow>
    (\<exists>r\<in>set (al_acl t). aclNames (al_auth t) orgId i level r \<and>
       (da_dashboardId r = Some d \<or> (\<exists>f\<in>aclFolders t orgId d. da_folderId r = Some (fo_id f))))"
proof -
  let ?P = "aclEntryGrants (js_set (map tm_teamId (listTeamsForUser (al_auth t) (id_userId i) orgId))) i level"
  have "grantsAtLeast t orgId d i level \<longleftrightarrow> list_ex ?P (getForDashboard t orgId d)"
    by (auto simp: grantsAtLeast_def Let_def)
  also have "\<dots> \<longleftrightarrow>
    (\<exists>r\<in>set (al_acl t). da_dashboardId r = Some d \<and> aclNames (al_auth t) orgId i level r)
    \<or> (\<exists>f\<in>aclFolders t orgId d. \<exists>r\<in>set (al_acl t).
         da_folderId r = Some (fo_id f) \<and> aclNames (al_auth t) orgId i level r)"
    unfolding getForDashboard_rows [OF assms(1,3)] aclEntryGrants_iff [OF assms(2)] ..
  also have "\<dots> \<longleftrightarrow> (\<exists>r\<in>set (al_acl t). aclNames (al_auth t) orgId i level r \<and>
       (da_dashboardId r = Some d \<or> (\<exists>f\<in>aclFolders t orgId d. da_folderId r = Some (fo_id f))))"
    by blast
  finally show ?thesis .
qed

definition exAcl :: acl_tables where
  "exAcl = \<lparr>al_acl = [\<lparr>da_orgId = ''other'', da_dashboardId = Some ''d'', da_folderId = None, da_userId = None,
       da_teamId = None, da_role = Some ''Viewer'', da_permission = 1\<rparr>],
     al_folders = [], al_auth = exAuth, al_dashboards = []\<rparr>"

theorem grantsAtLeast_exact_witness:
  "grantsAtLeast exAcl ''org'' ''d'' exIdentity 1 \<and> \<not> grantsAtLeast exAcl ''org'' ''d'' exIdentity 2"
proof -
  have forest: "folderForest (al_folders exAcl)"
    using folders.init_inv [OF refl] by (simp add: exAcl_def)
  have "listAncestors (al_folders exAcl) ''org'' u = []" for u
    by (simp add: exAcl_def listAncestors_def folderFindByUid_def)
  then have len: "length (listAncestors (al_folders exAcl) ''org'' u) \<le> FOLDER_MAX_DEPTH" for u by simp
  show ?thesis
    using grantsAtLeast_exact [OF forest _ len, of "''d''" exIdentity 1]
      grantsAtLeast_exact [OF forest _ len, of "''d''" exIdentity 2]
    by (simp add: exAcl_def exAuth_def exIdentity_def aclNames_def)
qed

text \<open>The fallback answers for the whole check. If the legacy access list grants the caller view
  on one dashboard, a conjunction that starts with reading that dashboard passes, whatever its
  other conjuncts ask for and whatever permissions the caller has.\<close>

theorem acl_passes_conjunction:
  assumes "ad_legacyAcl deps = Some (\<lambda>og u i level. Some (grantsAtLeast t og u i level))"
    and "ad_LEGACY_ACL_ENABLED deps \<noteq> Some ''false''"
    and "d \<noteq> []" "list_all aclUidChar d"
    and "grantsAtLeast t (id_orgId i) d (snd (ensurePermissions (ad_tables deps) i)) PermissionLevel_View"
  shows "fst (acEvaluate deps i (ac_all
           (ac_eval ''dashboards:read'' (OneScope (''dashboards:uid:'' @ d)) # others)))"
proof -
  have org: "id_orgId (snd (ensurePermissions (ad_tables deps) i)) = id_orgId i"
    by (auto simp: ensurePermissions_def Let_def split: option.splits)
  have "legacyFallback deps (snd (ensurePermissions (ad_tables deps) i)) (ac_all
          (ac_eval ''dashboards:read'' (OneScope (''dashboards:uid:'' @ d)) # others))"
    unfolding legacyFallback_def target_of_conjunction [OF assms(3,4)] using assms org by simp
  then show ?thesis unfolding acEvaluate_iff ..
qed

theorem acl_passes_conjunction_witness:
  "fst (acEvaluate (exDeps\<lparr>ad_legacyAcl := Some (\<lambda>og u i level. Some (grantsAtLeast exAcl og u i level))\<rparr>) exIdentity
     (ac_all [ac_eval ''dashboards:read'' (OneScope (''dashboards:uid:'' @ ''d'')),
              ac_eval ''connectors:write'' (OneScope ''connectors:uid:c'')]))"
proof (rule acl_passes_conjunction)
  show "grantsAtLeast exAcl (id_orgId exIdentity) ''d'' (snd (ensurePermissions (ad_tables
      (exDeps\<lparr>ad_legacyAcl := Some (\<lambda>og u i level. Some (grantsAtLeast exAcl og u i level))\<rparr>)) exIdentity)) PermissionLevel_View"
    by code_simp
qed (simp_all add: exDeps_def aclUidChar_def js_space_def)

end
