(* ===== verification/Kubectl_Allowlist.thy ===== *)
theory Kubectl_Allowlist
  imports Prelude "HOL-Library.List_Lexorder" "HOL-Library.Char_ord"
begin

text \<open>
  The kubectl command policy (\<open>adapters/src/execution/kubectl-allowlist.ts\<close>): the argument
  parser, the read and write allowlists with their permanent denials, the command-string
  tokenizer and the classification used by the gateway.

  The tokenizer's loop does not advance on a white-space character other than blank, tab and
  newline; it is a \<open>partial_function (option)\<close>, so not returning is the value \<open>None\<close>. Its
  inner result is \<open>None\<close> for an unterminated quote.

  Results: whatever the write mode admits targets an allowed, not permanently denied namespace;
  the read mode admits no write; the classification separates the two; the tokenizer inverts
  printing, never lets a shell metacharacter through, returns on every command whose white space
  is blanks, tabs and newlines, and never returns on a command with a carriage return between
  words.
\<close>

section \<open>Definitions\<close>

datatype KubectlMode = ModeRead | ModeWrite

datatype KubectlPolicyDecision = PolicyRead | PolicyApprovalRequired | PolicyDenied

record AllowlistDecision =
  al_allow :: bool
  al_reason :: "string option"

record KubectlCommandPolicy =
  kp_decision :: KubectlPolicyDecision
  kp_reason :: string
  kp_argv :: "string list"

definition READ_VERBS :: "string list" where
  "READ_VERBS = [''get'', ''describe'', ''logs'', ''top'', ''events'', ''version'', ''api-resources'', ''api-versions'']"

definition WRITE_VERBS :: "string list" where
  "WRITE_VERBS = [''scale'', ''rollout'', ''patch'', ''apply'', ''annotate'', ''label'', ''delete'']"

definition ROLLOUT_READ_SUBCOMMANDS :: "string list" where
  "ROLLOUT_READ_SUBCOMMANDS = [''status'', ''history'']"

definition ROLLOUT_WRITE_SUBCOMMANDS :: "string list" where
  "ROLLOUT_WRITE_SUBCOMMANDS = [''restart'', ''undo'', ''pause'', ''resume'']"

definition CONFIG_READ_SUBCOMMANDS :: "string list" where
  "CONFIG_READ_SUBCOMMANDS = [''current-context'']"

definition PERMANENT_DENY_VERBS :: "string list" where
  "PERMANENT_DENY_VERBS = [''exec'', ''cp'', ''port-forward'', ''proxy'', ''attach'']"

definition PERMANENT_DENY_NAMESPACES :: "string list" where
  "PERMANENT_DENY_NAMESPACES = [''kube-system'', ''kube-public'', ''kube-node-lease'']"

record ParsedKubectl =
  pk_verb :: string
  pk_namespace :: "string option"
  pk_hasAuthCanIAs :: bool
  pk_subResource :: "string option"
  pk_resourceName :: "string option"

text \<open>The scan of the arguments: the namespace, whether \<open>--as\<close> was seen, the positionals.\<close>

fun argvLoop :: "string list \<Rightarrow> string option \<Rightarrow> bool \<Rightarrow> string option \<times> bool \<times> string list" where
  "argvLoop [] ns as = (ns, as, [])"
| "argvLoop (tok # rest) ns as =
     (if tok = ''-n'' \<or> tok = ''--namespace''
      then (case rest of [] \<Rightarrow> (None, as, []) | v # rest' \<Rightarrow> argvLoop rest' (Some v) as)
      else if starts_with ''--namespace='' tok
      then argvLoop rest (Some (slice_from (length ''--namespace='') tok)) as
      else if tok = ''--as'' \<or> starts_with ''--as='' tok
      then (if tok = ''--as''
            then (case rest of [] \<Rightarrow> (ns, True, []) | _ # rest' \<Rightarrow> argvLoop rest' ns True)
            else argvLoop rest ns True)
      else if starts_with ''-'' tok then argvLoop rest ns as
      else (case argvLoop rest ns as of (ns', as', pos) \<Rightarrow> (ns', as', tok # pos)))"

definition parseKubectlArgv :: "string list \<Rightarrow> ParsedKubectl" where
  "parseKubectlArgv argv =
     (case argvLoop argv None False of
        (ns, as, positional) \<Rightarrow>
          let verb = or_default (js_at positional 0) []; sub = js_at positional 1
          in \<lparr>pk_verb = verb, pk_namespace = ns,
              pk_hasAuthCanIAs = (verb = ''auth'' \<and> sub = Some ''can-i'' \<and> as),
              pk_subResource = sub, pk_resourceName = js_at positional 2\<rparr>)"

definition inSub :: "string option \<Rightarrow> string list \<Rightarrow> bool" where
  "inSub sub table \<longleftrightarrow> truthy sub \<and> the sub \<in> set table"

definition isKubectlRead :: "ParsedKubectl \<Rightarrow> bool" where
  "isKubectlRead p =
     (if pk_verb p \<in> set READ_VERBS then True
      else if pk_verb p = ''rollout'' \<and> inSub (pk_subResource p) ROLLOUT_READ_SUBCOMMANDS then True
      else if pk_verb p = ''config'' \<and> inSub (pk_subResource p) CONFIG_READ_SUBCOMMANDS then True
      else False)"

definition isKubectlWrite :: "ParsedKubectl \<Rightarrow> bool" where
  "isKubectlWrite p =
     (if pk_verb p \<in> set WRITE_VERBS \<and> pk_verb p \<noteq> ''rollout'' then True
      else if pk_verb p = ''rollout'' \<and> inSub (pk_subResource p) ROLLOUT_WRITE_SUBCOMMANDS then True
      else False)"

definition isSecretResource :: "string option \<Rightarrow> bool" where
  "isSecretResource r \<longleftrightarrow> r = Some ''secret'' \<or> r = Some ''secrets''"

definition isSecretRead :: "ParsedKubectl \<Rightarrow> bool" where
  "isSecretRead p \<longleftrightarrow> (pk_verb p = ''get'' \<or> pk_verb p = ''describe'') \<and> isSecretResource (pk_subResource p)"

definition isSecretDelete :: "ParsedKubectl \<Rightarrow> bool" where
  "isSecretDelete p \<longleftrightarrow> pk_verb p = ''delete'' \<and> isSecretResource (pk_subResource p)"

definition denied :: "string \<Rightarrow> AllowlistDecision" where
  "denied why = \<lparr>al_allow = False, al_reason = Some why\<rparr>"

definition allowed :: AllowlistDecision where
  "allowed = \<lparr>al_allow = True, al_reason = None\<rparr>"

definition nsRefused :: "ParsedKubectl \<Rightarrow> string list \<Rightarrow> bool" where
  "nsRefused p allowedNamespaces \<longleftrightarrow>
     pk_namespace p \<noteq> None \<and> length allowedNamespaces > 0 \<and> the (pk_namespace p) \<notin> set allowedNamespaces"

text \<open>A value between single quotes, as the messages print it.\<close>

definition quoted :: "string \<Rightarrow> string" where
  "quoted s = CHR 0x27 # s @ [CHR 0x27]"

definition nsReason :: "ParsedKubectl \<Rightarrow> string" where
  "nsReason p = ''namespace '' @ quoted (the (pk_namespace p)) @ '' is not in the connector's allowed namespaces''"

definition checkKubectl :: "string list \<Rightarrow> KubectlMode \<Rightarrow> string list \<Rightarrow> AllowlistDecision" where
  "checkKubectl argv mode allowedNamespaces =
     (if length argv = 0 then denied ''empty kubectl argv''
      else let parsed = parseKubectlArgv argv; verb = pk_verb parsed in
      if verb = [] then denied ''kubectl argv has no verb''
      else if verb \<in> set PERMANENT_DENY_VERBS
      then denied (''kubectl verb '' @ quoted verb @ '' is permanently denied'')
      else if pk_hasAuthCanIAs parsed then denied ''kubectl auth can-i --as is permanently denied''
      else if isSecretRead parsed
      then denied ''kubectl secret reads are denied because they can expose credentials''
      else if isSecretDelete parsed then denied ''kubectl secret delete is denied''
      else let isRead = isKubectlRead parsed; isWrite = isKubectlWrite parsed in
      (case mode of
         ModeRead \<Rightarrow>
           if \<not> isRead
           then denied (''kubectl verb '' @ quoted verb @ '' is not on the read-allowlist (allowed: ''
                  @ join_with '', '' (sort READ_VERBS) @ '')'')
           else if nsRefused parsed allowedNamespaces then denied (nsReason parsed)
           else allowed
       | ModeWrite \<Rightarrow>
           if \<not> isRead \<and> \<not> isWrite
           then denied (''kubectl verb '' @ quoted verb @ '' is not on the write-allowlist (allowed: ''
                  @ join_with '', '' (sort (js_set (READ_VERBS @ WRITE_VERBS))) @ '')'')
           else if isWrite then
             (if verb = ''delete'' \<and> (\<not> truthy (pk_subResource parsed) \<or> \<not> truthy (pk_resourceName parsed))
              then denied ''kubectl delete requires both a resource type and an explicit resource name''
              else (case pk_namespace parsed of
                      None \<Rightarrow> denied (''kubectl '' @ verb @ '' requires --namespace; refusing to write at cluster scope'')
                    | Some ns \<Rightarrow>
                        if ns \<in> set PERMANENT_DENY_NAMESPACES
                        then denied (''kubectl write to namespace '' @ quoted ns @ '' is permanently denied'')
                        else if length allowedNamespaces > 0 \<and> ns \<notin> set allowedNamespaces
                        then denied (nsReason parsed)
                        else allowed))
           else if nsRefused parsed allowedNamespaces then denied (nsReason parsed)
           else allowed))"

subsection \<open>Tokenizing a command string\<close>

text \<open>The class \<open>[`$|;&><]\<close>.\<close>

definition shellMeta :: "char \<Rightarrow> bool" where
  "shellMeta ch \<longleftrightarrow> ch \<in> set ''`$|;&><''"

definition blankChar :: "char \<Rightarrow> bool" where
  "blankChar ch \<longleftrightarrow> (of_char ch :: nat) \<in> set [32, 9, 10]"

definition quoteChar :: "char \<Rightarrow> bool" where
  "quoteChar ch \<longleftrightarrow> (of_char ch :: nat) \<in> set [34, 39]"

text \<open>
  The loop over the rest of the text. A quote takes everything up to its partner (there may be
  none: the inner \<open>None\<close>); anything else takes the characters up to white space, possibly none.
\<close>

partial_function (option) tokenLoop :: "string \<Rightarrow> string list option option" where
  "tokenLoop s =
     (case s of
        [] \<Rightarrow> Some (Some [])
      | ch # cs \<Rightarrow>
          if blankChar ch then tokenLoop cs
          else if quoteChar ch then
            (case dropWhile (\<lambda>x. x \<noteq> ch) cs of
               [] \<Rightarrow> Some None
             | _ # rest \<Rightarrow>
                 Option.bind (tokenLoop rest)
                   (\<lambda>r. Some (map_option ((#) (takeWhile (\<lambda>x. x \<noteq> ch) cs)) r)))
          else
            Option.bind (tokenLoop (dropWhile (\<lambda>x. \<not> js_space x) s))
              (\<lambda>r. Some (map_option ((#) (takeWhile (\<lambda>x. \<not> js_space x) s)) r)))"

declare tokenLoop.simps [code]

definition shiftKubectl :: "string list \<Rightarrow> string list" where
  "shiftKubectl tokens =
     (case tokens of [] \<Rightarrow> [] | t # ts \<Rightarrow> if t = ''kubectl'' then ts else tokens)"

definition parseKubectlCommandString :: "string \<Rightarrow> string list option" where
  "parseKubectlCommandString command =
     (let trimmed = js_trim command in
      if trimmed = [] then Some []
      else if list_ex shellMeta trimmed then Some []
      else Option.bind (tokenLoop trimmed)
             (\<lambda>r. Some (case r of None \<Rightarrow> [] | Some tokens \<Rightarrow> shiftKubectl tokens)))"

definition classifyKubectlCommand :: "string \<Rightarrow> string list \<Rightarrow> KubectlCommandPolicy option" where
  "classifyKubectlCommand command allowedNamespaces =
     (let trimmed = js_trim command in
      if trimmed = []
      then Some \<lparr>kp_decision = PolicyDenied, kp_reason = ''empty kubectl command'', kp_argv = []\<rparr>
      else if \<not> starts_with ''kubectl '' (js_lower trimmed)
      then Some \<lparr>kp_decision = PolicyDenied,
             kp_reason = ''only kubectl commands are supported for Kubernetes connectors'', kp_argv = []\<rparr>
      else Option.bind (parseKubectlCommandString trimmed) (\<lambda>argv. Some
        (if length argv = 0
         then \<lparr>kp_decision = PolicyDenied, kp_reason = ''kubectl command could not be parsed safely'', kp_argv = []\<rparr>
         else let readDecision = checkKubectl argv ModeRead allowedNamespaces in
           if al_allow readDecision
           then \<lparr>kp_decision = PolicyRead, kp_reason = ''read-only inspection command'', kp_argv = argv\<rparr>
           else let writeDecision = checkKubectl argv ModeWrite allowedNamespaces in
             if al_allow writeDecision
             then \<lparr>kp_decision = PolicyApprovalRequired, kp_reason = ''mutating cluster command'', kp_argv = argv\<rparr>
             else \<lparr>kp_decision = PolicyDenied,
                   kp_reason = or_default (al_reason writeDecision)
                     (or_default (al_reason readDecision) ''kubectl command rejected''),
                   kp_argv = argv\<rparr>)))"

section \<open>Lemmas\<close>

subsection \<open>The decision\<close>

lemma decision_simps [simp]:
  "al_allow (denied r) = False" "al_allow allowed" "al_reason (denied r) = Some r"
  by (simp_all add: denied_def allowed_def)

text \<open>What every admitted command has, in either mode.\<close>

definition baseline :: "string list \<Rightarrow> bool" where
  "baseline argv \<longleftrightarrow> argv \<noteq> [] \<and> pk_verb (parseKubectlArgv argv) \<noteq> []
     \<and> pk_verb (parseKubectlArgv argv) \<notin> set PERMANENT_DENY_VERBS
     \<and> \<not> pk_hasAuthCanIAs (parseKubectlArgv argv)
     \<and> \<not> isSecretRead (parseKubectlArgv argv) \<and> \<not> isSecretDelete (parseKubectlArgv argv)"

text \<open>What an admitted write has.\<close>

definition guardedWrite :: "ParsedKubectl \<Rightarrow> string list \<Rightarrow> bool" where
  "guardedWrite p nss \<longleftrightarrow>
     (pk_verb p = ''delete'' \<longrightarrow> truthy (pk_subResource p) \<and> truthy (pk_resourceName p))
     \<and> (\<exists>ns. pk_namespace p = Some ns \<and> ns \<notin> set PERMANENT_DENY_NAMESPACES
          \<and> (nss \<noteq> [] \<longrightarrow> ns \<in> set nss))"

lemma check_read_iff:
  "al_allow (checkKubectl argv ModeRead nss) \<longleftrightarrow>
     baseline argv \<and> isKubectlRead (parseKubectlArgv argv) \<and> \<not> nsRefused (parseKubectlArgv argv) nss"
  unfolding checkKubectl_def Let_def baseline_def by simp

lemma check_write_iff:
  "al_allow (checkKubectl argv ModeWrite nss) \<longleftrightarrow>
     baseline argv \<and>
     (if isKubectlWrite (parseKubectlArgv argv) then guardedWrite (parseKubectlArgv argv) nss
      else isKubectlRead (parseKubectlArgv argv) \<and> \<not> nsRefused (parseKubectlArgv argv) nss)"
proof -
  let ?p = "parseKubectlArgv argv"
  show ?thesis
    unfolding checkKubectl_def Let_def baseline_def guardedWrite_def
    by (cases "pk_namespace ?p") auto
qed

lemma read_not_write: "isKubectlRead p \<Longrightarrow> \<not> isKubectlWrite p"
proof -
  have "set READ_VERBS \<inter> set WRITE_VERBS = {}" by code_simp
  moreover have "set ROLLOUT_READ_SUBCOMMANDS \<inter> set ROLLOUT_WRITE_SUBCOMMANDS = {}" by code_simp
  moreover have "''config'' \<notin> set WRITE_VERBS" "''rollout'' \<notin> set READ_VERBS" by code_simp+
  moreover have "''config'' \<noteq> ''rollout''" by simp
  moreover assume "isKubectlRead p"
  ultimately show ?thesis
    unfolding isKubectlRead_def isKubectlWrite_def inSub_def by (metis disjoint_iff)
qed

lemma argvLoop_positional:
  assumes "\<not> starts_with ''-'' tok"
  shows "argvLoop (tok # rest) ns as = (case argvLoop rest ns as of (a, b, pos) \<Rightarrow> (a, b, tok # pos))"
proof -
  have "starts_with ''-'' t" if "starts_with ''--namespace='' t \<or> starts_with ''--as='' t" for t
    using that by (cases t) (auto simp: starts_with_def)
  moreover have "starts_with ''-'' ''-n''" "starts_with ''-'' ''--namespace''" "starts_with ''-'' ''--as''"
    by (simp_all add: starts_with_def)
  ultimately have "tok \<noteq> ''-n''" "tok \<noteq> ''--namespace''" "tok \<noteq> ''--as''"
      "\<not> starts_with ''--namespace='' tok" "\<not> starts_with ''--as='' tok"
    using assms by metis+
  then show ?thesis using assms by simp
qed

subsection \<open>The tokenizer\<close>

lemma tokenLoop_Nil [simp]: "tokenLoop [] = Some (Some [])"
  by (subst tokenLoop.simps) simp

lemma tokenLoop_blank: "blankChar ch \<Longrightarrow> tokenLoop (ch # cs) = tokenLoop cs"
  by (subst tokenLoop.simps) simp

lemma tokenLoop_word:
  "\<not> blankChar ch \<Longrightarrow> \<not> quoteChar ch \<Longrightarrow>
   tokenLoop (ch # cs) = Option.bind (tokenLoop (dropWhile (\<lambda>x. \<not> js_space x) (ch # cs)))
     (\<lambda>r. Some (map_option ((#) (takeWhile (\<lambda>x. \<not> js_space x) (ch # cs))) r))"
  by (subst tokenLoop.simps) simp

lemma tokenLoop_quote:
  "\<not> blankChar ch \<Longrightarrow> quoteChar ch \<Longrightarrow>
   tokenLoop (ch # cs) = (case dropWhile (\<lambda>x. x \<noteq> ch) cs of
       [] \<Rightarrow> Some None
     | _ # rest \<Rightarrow> Option.bind (tokenLoop rest)
         (\<lambda>r. Some (map_option ((#) (takeWhile (\<lambda>x. x \<noteq> ch) cs)) r)))"
  by (subst tokenLoop.simps) simp

lemma blank_is_space: "blankChar ch \<Longrightarrow> js_space ch"
  by (auto simp: blankChar_def js_space_def)

text \<open>The loop returns when all white space is blanks, tabs and newlines.\<close>

lemma tokenLoop_total:
  "\<forall>ch\<in>set s. js_space ch \<longrightarrow> blankChar ch \<Longrightarrow> \<exists>r. tokenLoop s = Some r"
proof (induction s rule: length_induct)
  case (1 s)
  note IH = "1.IH" [rule_format]
  show ?case
  proof (cases s)
    case Nil
    then show ?thesis by simp
  next
    case (Cons ch cs)
    consider "blankChar ch" | "\<not> blankChar ch" "quoteChar ch" | "\<not> blankChar ch" "\<not> quoteChar ch" by blast
    then show ?thesis
    proof cases
      case 1
      then show ?thesis using IH [of cs] "1.prems" Cons by (simp add: tokenLoop_blank)
    next
      case 2
      show ?thesis
      proof (cases "dropWhile (\<lambda>x. x \<noteq> ch) cs")
        case Nil
        have "tokenLoop s = Some None" unfolding Cons tokenLoop_quote [OF 2] Nil by simp
        then show ?thesis ..
      next
        case (Cons q rest)
        have "length rest < length s" "set rest \<subseteq> set s"
          using length_dropWhile_le [of "\<lambda>x. x \<noteq> ch" cs] set_dropWhileD [of _ "\<lambda>x. x \<noteq> ch" cs]
            Cons \<open>s = ch # cs\<close> by auto
        then obtain r where "tokenLoop rest = Some r" using IH [of rest] "1.prems" by blast
        then show ?thesis unfolding \<open>s = ch # cs\<close> tokenLoop_quote [OF 2] Cons by simp
      qed
    next
      case 3
      have "\<not> js_space ch" using 3 "1.prems" Cons by auto
      then have "length (dropWhile (\<lambda>x. \<not> js_space x) s) < length s"
        using length_dropWhile_le [of "\<lambda>x. \<not> js_space x" cs] Cons by simp
      moreover have "set (dropWhile (\<lambda>x. \<not> js_space x) s) \<subseteq> set s" by (auto dest: set_dropWhileD)
      ultimately obtain r where "tokenLoop (dropWhile (\<lambda>x. \<not> js_space x) s) = Some r"
        using IH [of "dropWhile (\<lambda>x. \<not> js_space x) s"] "1.prems" by blast
      then show ?thesis using 3 Cons by (simp add: tokenLoop_word)
    qed
  qed
qed

text \<open>On any other white space at the head it never returns.\<close>

definition stuckAt :: "string \<Rightarrow> bool" where
  "stuckAt s \<longleftrightarrow> (case s of [] \<Rightarrow> False
     | ch # _ \<Rightarrow> js_space ch \<and> \<not> blankChar ch)"

lemma space_not_quote: "js_space ch \<Longrightarrow> \<not> quoteChar ch"
  by (auto simp: js_space_def quoteChar_def)

lemma tokenLoop_not_stuck:
  assumes "tokenLoop s = Some r"
  shows "\<not> stuckAt s"
proof (rule tokenLoop.raw_induct [OF _ assms])
  fix loop s r
  assume IH: "\<And>s r. loop s = Some r \<Longrightarrow> \<not> stuckAt s"
    and body: "(case s of
        [] \<Rightarrow> Some (Some [])
      | ch # cs \<Rightarrow>
          if blankChar ch then loop cs
          else if quoteChar ch then
            (case dropWhile (\<lambda>x. x \<noteq> ch) cs of
               [] \<Rightarrow> Some None
             | _ # rest \<Rightarrow>
                 Option.bind (loop rest)
                   (\<lambda>r. Some (map_option ((#) (takeWhile (\<lambda>x. x \<noteq> ch) cs)) r)))
          else
            Option.bind (loop (dropWhile (\<lambda>x. \<not> js_space x) s))
              (\<lambda>r. Some (map_option ((#) (takeWhile (\<lambda>x. \<not> js_space x) s)) r))) = Some r"
  show "\<not> stuckAt s"
  proof
    assume st: "stuckAt s"
    then obtain ch cs where s: "s = ch # cs" "js_space ch" "\<not> blankChar ch"
      by (cases s) (auto simp: stuckAt_def)
    have "dropWhile (\<lambda>x. \<not> js_space x) s = s" using s by simp
    with body obtain r' where "loop s = Some r'"
      using s space_not_quote [OF s(2)] by (auto simp: bind_eq_Some_conv)
    with IH st show False by blast
  qed
qed

text \<open>Every token is cut out of the text.\<close>

lemma tokenLoop_chars:
  assumes "tokenLoop s = Some r"
  shows "\<forall>ts. r = Some ts \<longrightarrow> (\<forall>t\<in>set ts. set t \<subseteq> set s)"
proof (rule tokenLoop.raw_induct [OF _ assms])
  fix loop s r
  assume IH: "\<And>s r. loop s = Some r \<Longrightarrow> \<forall>ts. r = Some ts \<longrightarrow> (\<forall>t\<in>set ts. set t \<subseteq> set s)"
    and body: "(case s of
        [] \<Rightarrow> Some (Some [])
      | ch # cs \<Rightarrow>
          if blankChar ch then loop cs
          else if quoteChar ch then
            (case dropWhile (\<lambda>x. x \<noteq> ch) cs of
               [] \<Rightarrow> Some None
             | _ # rest \<Rightarrow>
                 Option.bind (loop rest)
                   (\<lambda>r. Some (map_option ((#) (takeWhile (\<lambda>x. x \<noteq> ch) cs)) r)))
          else
            Option.bind (loop (dropWhile (\<lambda>x. \<not> js_space x) s))
              (\<lambda>r. Some (map_option ((#) (takeWhile (\<lambda>x. \<not> js_space x) s)) r))) = Some r"
  show "\<forall>ts. r = Some ts \<longrightarrow> (\<forall>t\<in>set ts. set t \<subseteq> set s)"
  proof (intro allI impI ballI)
    fix ts t assume r: "r = Some ts" and t: "t \<in> set ts"
    obtain ch cs where s: "s = ch # cs" using body r t by (cases s) auto
    consider (skip) "loop cs = Some r"
      | (cut) rest w us where "loop rest = Some (Some us)" "ts = w # us" "set w \<subseteq> set s" "set rest \<subseteq> set s"
    proof (cases "blankChar ch")
      case True
      then show ?thesis using body s that(1) by simp
    next
      case False
      show ?thesis
      proof (cases "quoteChar ch")
        case True
        then obtain q rest us where "dropWhile (\<lambda>x. x \<noteq> ch) cs = q # rest" "loop rest = Some (Some us)"
            "ts = takeWhile (\<lambda>x. x \<noteq> ch) cs # us"
          using body s False r by (auto simp: bind_eq_Some_conv split: list.splits)
        moreover from this have "set rest \<subseteq> set s" using s set_dropWhileD [of _ "\<lambda>x. x \<noteq> ch" cs] by auto
        ultimately show ?thesis using that(2) s by (auto dest: set_takeWhileD)
      next
        case F: False
        then obtain us where "loop (dropWhile (\<lambda>x. \<not> js_space x) s) = Some (Some us)"
            "ts = takeWhile (\<lambda>x. \<not> js_space x) s # us"
          using body s False r by (auto simp: bind_eq_Some_conv)
        moreover have "set (takeWhile (\<lambda>x. \<not> js_space x) s) \<subseteq> set s"
            "set (dropWhile (\<lambda>x. \<not> js_space x) s) \<subseteq> set s"
          by (auto dest: set_takeWhileD set_dropWhileD)
        ultimately show ?thesis using that(2) by blast
      qed
    qed
    then show "set t \<subseteq> set s"
    proof cases
      case skip
      then show ?thesis using IH r t s by (metis set_subset_Cons subset_trans)
    next
      case cut
      then show ?thesis using IH t by (metis set_ConsD subset_trans)
    qed
  qed
qed

text \<open>A word is a token that needs no quotes.\<close>

definition plainToken :: "string \<Rightarrow> bool" where
  "plainToken t \<longleftrightarrow> t \<noteq> [] \<and> list_all (\<lambda>ch. \<not> js_space ch \<and> \<not> shellMeta ch) t \<and> \<not> quoteChar (hd t)"

lemma tokenLoop_plain:
  assumes "plainToken t" "rest = [] \<or> js_space (hd rest)"
  shows "tokenLoop (t @ rest) = Option.bind (tokenLoop rest) (\<lambda>r. Some (map_option ((#) t) r))"
proof -
  obtain ch cs where t: "t = ch # cs" using assms(1) by (cases t) (auto simp: plainToken_def)
  have ns: "\<forall>x\<in>set t. \<not> js_space x" using assms(1) by (auto simp: plainToken_def list_all_iff)
  have "takeWhile (\<lambda>x. \<not> js_space x) (t @ rest) = t \<and> dropWhile (\<lambda>x. \<not> js_space x) (t @ rest) = rest"
    using ns assms(2) by (cases rest) (auto simp: takeWhile_append2 dropWhile_append2)
  moreover have "\<not> blankChar ch" "\<not> quoteChar ch"
    using assms(1) t blank_is_space by (auto simp: plainToken_def)
  ultimately show ?thesis using tokenLoop_word [of ch "cs @ rest"] t by simp
qed

lemma blank_blank: "blankChar CHR '' ''"
  by (simp add: blankChar_def)

lemma tokenLoop_join:
  "ts \<noteq> [] \<Longrightarrow> list_all plainToken ts \<Longrightarrow> tokenLoop (join_with '' '' ts) = Some (Some ts)"
proof (induction ts rule: induct_list012)
  case (2 t)
  then show ?case using tokenLoop_plain [of t "[]"] by simp
next
  case (3 t u us)
  then have "tokenLoop (CHR '' '' # join_with '' '' (u # us)) = Some (Some (u # us))"
    using tokenLoop_blank [OF blank_blank] by simp
  then show ?case using tokenLoop_plain [of t "CHR '' '' # join_with '' '' (u # us)"] 3
    by (simp add: js_space_def)
qed simp

subsection \<open>Trimmed commands\<close>

lemma js_trim_id:
  "s \<noteq> [] \<Longrightarrow> \<not> js_space (hd s) \<Longrightarrow> \<not> js_space (last s) \<Longrightarrow> js_trim s = s"
proof -
  assume a: "s \<noteq> []" "\<not> js_space (hd s)" "\<not> js_space (last s)"
  have "dropWhile js_space s = s" using a(1,2) by (cases s) auto
  moreover have "dropWhile js_space (rev s) = rev s"
    using a(1,3) by (cases s rule: rev_cases) auto
  ultimately show ?thesis by (simp add: js_trim_def)
qed

lemma set_js_trim: "set (js_trim s) \<subseteq> set s"
proof -
  have "set (dropWhile js_space xs) \<subseteq> set xs" for xs by (auto dest: set_dropWhileD)
  then show ?thesis unfolding js_trim_def by (metis set_rev subset_trans)
qed

lemma parse_argv_chars:
  assumes "parseKubectlCommandString cmd = Some argv" "t \<in> set argv"
  shows "list_all (\<lambda>ch. \<not> shellMeta ch) t"
proof -
  have "argv \<noteq> []" using assms(2) by auto
  then obtain r where tr: "\<not> list_ex shellMeta (js_trim cmd)" "tokenLoop (js_trim cmd) = Some r"
      "argv = (case r of None \<Rightarrow> [] | Some tokens \<Rightarrow> shiftKubectl tokens)"
    using assms(1) by (auto simp: parseKubectlCommandString_def Let_def bind_eq_Some_conv split: if_splits)
  then obtain ts where ts: "r = Some ts" "argv = shiftKubectl ts" using \<open>argv \<noteq> []\<close> by (cases r) auto
  then have "t \<in> set ts" using assms(2) by (auto simp: shiftKubectl_def split: list.splits if_splits)
  then have "set t \<subseteq> set (js_trim cmd)" using tokenLoop_chars [OF tr(2)] ts(1) by blast
  then show ?thesis using tr(1) by (auto simp: list_all_iff list_ex_iff)
qed

text \<open>The prefix the gateway asks for, and the shift that removes it.\<close>

lemma plain_kubectl: "plainToken ''kubectl''"
  by code_simp

lemma plain_no_meta: "plainToken t \<Longrightarrow> \<not> list_ex shellMeta t"
  by (auto simp: plainToken_def list_all_iff list_ex_iff)

lemma blank_no_meta: "\<not> shellMeta CHR '' ''"
  by code_simp

lemma space_no_meta: "js_space c \<Longrightarrow> \<not> shellMeta c"
  by (auto simp: shellMeta_def js_space_def)

lemma plain_join_meta: "list_all plainToken ts \<Longrightarrow> \<not> list_ex shellMeta (join_with '' '' ts)"
proof (induction ts rule: induct_list012)
  case (3 t u us)
  then show ?case using plain_no_meta [of t] blank_no_meta by simp
qed (simp_all add: plain_no_meta)

lemma plain_join_ends:
  "ts \<noteq> [] \<Longrightarrow> list_all plainToken ts \<Longrightarrow> join_with '' '' ts \<noteq> [] \<and> \<not> js_space (hd (join_with '' '' ts))
     \<and> \<not> js_space (last (join_with '' '' ts))"
proof (induction ts rule: induct_list012)
  case (2 t)
  then show ?case by (auto simp: plainToken_def list_all_iff)
next
  case (3 t u us)
  then show ?case by (auto simp: plainToken_def list_all_iff hd_append)
qed simp

section \<open>Properties\<close>



text \<open>The two modes and the classification agree. The read mode admits reads only, and
  everything it admits the write mode admits; a classified command is a read exactly when the read
  mode admits it, needs approval exactly when only the write mode admits it, which makes it a write
  with its namespace guard; and no argument of a classified command carries a shell metacharacter.\<close>

theorem classify_separates:
  assumes "classifyKubectlCommand cmd nss = Some p"
  shows "(kp_decision p = PolicyRead \<longrightarrow>
        al_allow (checkKubectl (kp_argv p) ModeRead nss) \<and> al_allow (checkKubectl (kp_argv p) ModeWrite nss)
        \<and> isKubectlRead (parseKubectlArgv (kp_argv p)) \<and> \<not> isKubectlWrite (parseKubectlArgv (kp_argv p)))
    \<and> (kp_decision p = PolicyApprovalRequired \<longrightarrow>
        \<not> al_allow (checkKubectl (kp_argv p) ModeRead nss) \<and> al_allow (checkKubectl (kp_argv p) ModeWrite nss)
        \<and> isKubectlWrite (parseKubectlArgv (kp_argv p)) \<and> guardedWrite (parseKubectlArgv (kp_argv p)) nss)
    \<and> (kp_decision p = PolicyDenied \<longrightarrow> \<not> al_allow (checkKubectl (kp_argv p) ModeWrite nss))
    \<and> list_all (list_all (\<lambda>ch. \<not> shellMeta ch)) (kp_argv p)"
proof (cases "kp_argv p = []")
  case True
  moreover have "\<not> al_allow (checkKubectl [] m nss)" for m by (simp add: checkKubectl_def)
  moreover have "kp_decision p = PolicyDenied"
    using assms True unfolding classifyKubectlCommand_def
    by (auto simp: Let_def bind_eq_Some_conv split: if_splits)
  ultimately show ?thesis by simp
next
  case False
  then obtain argv where argv: "parseKubectlCommandString (js_trim cmd) = Some argv" "kp_argv p = argv" "argv \<noteq> []"
      "kp_decision p = (if al_allow (checkKubectl argv ModeRead nss) then PolicyRead
         else if al_allow (checkKubectl argv ModeWrite nss) then PolicyApprovalRequired else PolicyDenied)"
    using assms unfolding classifyKubectlCommand_def
    by (auto simp: Let_def bind_eq_Some_conv split: if_splits)
  have "list_all (list_all (\<lambda>ch. \<not> shellMeta ch)) argv"
    using parse_argv_chars [OF argv(1)] by (simp add: list_all_iff)
  moreover have "al_allow (checkKubectl argv ModeRead nss) \<Longrightarrow>
      al_allow (checkKubectl argv ModeWrite nss) \<and> isKubectlRead (parseKubectlArgv argv)
      \<and> \<not> isKubectlWrite (parseKubectlArgv argv)"
    using read_not_write by (simp add: check_read_iff check_write_iff)
  moreover have "\<not> al_allow (checkKubectl argv ModeRead nss) \<Longrightarrow> al_allow (checkKubectl argv ModeWrite nss) \<Longrightarrow>
      isKubectlWrite (parseKubectlArgv argv) \<and> guardedWrite (parseKubectlArgv argv) nss"
    by (auto simp: check_read_iff check_write_iff split: if_splits)
  ultimately show ?thesis unfolding argv(2,4) by (simp split: if_splits)
qed

definition exScale :: KubectlCommandPolicy where
  "exScale = \<lparr>kp_decision = PolicyApprovalRequired, kp_reason = ''mutating cluster command'',
     kp_argv = [''scale'', ''deploy/web'', ''-n'', ''app'']\<rparr>"

theorem classify_separates_witness:
  "classifyKubectlCommand ''kubectl scale deploy/web -n app'' [''app''] = Some exScale
   \<and> isKubectlWrite (parseKubectlArgv [''scale'', ''deploy/web'', ''-n'', ''app''])"
proof -
  have c: "classifyKubectlCommand ''kubectl scale deploy/web -n app'' [''app''] = Some exScale"
    by code_simp
  then show ?thesis using classify_separates [OF c] by (simp add: exScale_def)
qed

text \<open>C33: the tokenizer inverts printing: a command line made of plain words joined by blanks is
  split into exactly those words, without the leading \<open>kubectl\<close>.\<close>

theorem tokenizer_roundtrip:
  assumes "ts \<noteq> []" "list_all plainToken ts"
  shows "parseKubectlCommandString (join_with '' '' (''kubectl'' # ts)) = Some ts"
proof -
  let ?ts = "''kubectl'' # ts"
  have all: "list_all plainToken ?ts" using assms(2) plain_kubectl by (simp only: list.pred_inject)
  note ends = plain_join_ends [OF _ all, simplified]
  have trim: "js_trim (join_with '' '' ?ts) = join_with '' '' ?ts"
    by (rule js_trim_id) (use plain_join_ends [OF _ all] in auto)
  show ?thesis
    unfolding parseKubectlCommandString_def Let_def trim
    using plain_join_ends [OF _ all] plain_join_meta [OF all] tokenLoop_join [OF _ all]
    by (simp only: ) (simp add: shiftKubectl_def)
qed

theorem tokenizer_roundtrip_witness:
  "parseKubectlCommandString (join_with '' '' [''kubectl'', ''get'', ''pods'']) = Some [''get'', ''pods'']"
proof -
  have "list_all plainToken [''get'', ''pods'']" by code_simp
  from tokenizer_roundtrip [OF _ this] show ?thesis by simp
qed



text \<open>The positional reading can be shifted by the value of a flag. A secret read is admitted when
  a flag with a separate value stands before the resource type, or when the type and name are joined
  by a slash, and a delete by label selector passes the explicit-name guard.\<close>

theorem flag_value_shifts_positionals:
  assumes "v \<noteq> []" "\<not> starts_with ''-'' v" "v \<noteq> ''secret'' \<and> v \<noteq> ''secrets''"
  shows "al_allow (checkKubectl [''get'', ''-o'', v, ''secrets''] ModeRead [])
    \<and> al_allow (checkKubectl [''get'', ''secret/'' @ v] ModeRead [])
    \<and> al_allow (checkKubectl [''delete'', ''-l'', v, ''pods'', ''-n'', ''app''] ModeWrite [''app''])"
proof -
  note P = argvLoop_positional
  have v: "argvLoop (v # rest) ns as = (case argvLoop rest ns as of (a, b, pos) \<Rightarrow> (a, b, v # pos))" for rest ns as
    by (rule P [OF assms(2)])
  have lits: "\<not> starts_with ''-'' ''get''" "\<not> starts_with ''-'' ''secrets''" "\<not> starts_with ''-'' ''delete''"
      "\<not> starts_with ''-'' ''pods''" "\<not> starts_with ''-'' (''secret/'' @ v)"
    by (simp_all add: starts_with_def)
  have flags: "argvLoop (''-o'' # rest) ns as = argvLoop rest ns as" "argvLoop (''-l'' # rest) ns as = argvLoop rest ns as"
      "argvLoop [''-n'', ''app''] ns as = (Some ''app'', as, [])" for rest ns as
    by (simp_all add: starts_with_def)
  have p1: "parseKubectlArgv [''get'', ''-o'', v, ''secrets''] = \<lparr>pk_verb = ''get'', pk_namespace = None,
      pk_hasAuthCanIAs = False, pk_subResource = Some v, pk_resourceName = Some ''secrets''\<rparr>"
    unfolding parseKubectlArgv_def P [OF lits(1)] flags v P [OF lits(2)] by simp
  have p2: "parseKubectlArgv [''get'', ''secret/'' @ v] = \<lparr>pk_verb = ''get'', pk_namespace = None,
      pk_hasAuthCanIAs = False, pk_subResource = Some (''secret/'' @ v), pk_resourceName = None\<rparr>"
    unfolding parseKubectlArgv_def P [OF lits(1)] P [OF lits(5)] by simp
  have p3: "parseKubectlArgv [''delete'', ''-l'', v, ''pods'', ''-n'', ''app''] = \<lparr>pk_verb = ''delete'',
      pk_namespace = Some ''app'', pk_hasAuthCanIAs = False, pk_subResource = Some v, pk_resourceName = Some ''pods''\<rparr>"
    unfolding parseKubectlArgv_def P [OF lits(3)] flags v P [OF lits(4)] by simp
  have mem: "''get'' \<in> set READ_VERBS" "''get'' \<notin> set PERMANENT_DENY_VERBS" "''delete'' \<in> set WRITE_VERBS"
      "''delete'' \<notin> set PERMANENT_DENY_VERBS" "''app'' \<notin> set PERMANENT_DENY_NAMESPACES"
    by code_simp+
  have ns: "\<not> isSecretResource (Some v)" "\<not> isSecretResource (Some (''secret/'' @ v))"
    using assms(3) by (auto simp: isSecretResource_def)
  show ?thesis
    unfolding check_read_iff check_write_iff baseline_def guardedWrite_def nsRefused_def isSecretRead_def
      isSecretDelete_def isKubectlRead_def isKubectlWrite_def p1 p2 p3
    using mem ns assms(1) by simp
qed

theorem flag_value_shifts_positionals_witness:
  "al_allow (checkKubectl [''get'', ''-o'', ''yaml'', ''secrets''] ModeRead [])"
proof -
  have "\<not> starts_with ''-'' ''yaml''" by code_simp
  from flag_value_shifts_positionals [OF _ this] show ?thesis by simp
qed

text \<open>With an empty namespace list the write mode admits writes to every namespace outside the
  protected three.\<close>

theorem empty_namespaces_admit_all:
  assumes "ns \<notin> set PERMANENT_DENY_NAMESPACES"
  shows "al_allow (checkKubectl [''scale'', ''deploy/web'', ''-n'', ns] ModeWrite [])"
proof -
  have lits: "\<not> starts_with ''-'' ''scale''" "\<not> starts_with ''-'' ''deploy/web''" by (simp_all add: starts_with_def)
  have p: "parseKubectlArgv [''scale'', ''deploy/web'', ''-n'', ns] = \<lparr>pk_verb = ''scale'', pk_namespace = Some ns,
      pk_hasAuthCanIAs = False, pk_subResource = Some ''deploy/web'', pk_resourceName = None\<rparr>"
    unfolding parseKubectlArgv_def argvLoop_positional [OF lits(1)] argvLoop_positional [OF lits(2)] by simp
  have mem: "''scale'' \<in> set WRITE_VERBS" "''scale'' \<notin> set PERMANENT_DENY_VERBS" by code_simp+
  show ?thesis
    unfolding check_write_iff baseline_def guardedWrite_def isSecretRead_def isSecretDelete_def isKubectlWrite_def p
    using mem assms by simp
qed

theorem empty_namespaces_admit_all_witness:
  "al_allow (checkKubectl [''scale'', ''deploy/web'', ''-n'', ''payments''] ModeWrite [])"
proof -
  have "''payments'' \<notin> set PERMANENT_DENY_NAMESPACES" by code_simp
  then show ?thesis by (rule empty_namespaces_admit_all)
qed

end
