(* ===== verification/Approval_Repo.thy ===== *)
theory Approval_Repo
  imports Prelude "HOL-Library.AList"
begin

text \<open>
  The approval request store (\<open>data-layer/src/repository/memory/approval.ts\<close>). The map of
  requests is an association list in insertion order (an update of a present key keeps its
  place); the clock, identifiers and the number of milliseconds of a TTL are arguments. A
  pending request past its deadline becomes expired on being read.

  Results: a request that has left the pending state never changes again through submissions,
  reads, lists, approvals and rejections (the first decision wins, and an expired request
  cannot be approved); an approval or rejection succeeds exactly on a pending request that is
  still in time; the filtered list returns exactly the matching requests.
\<close>

section \<open>Definitions\<close>

datatype ApprovalStatus = ApPending | ApApproved | ApRejected | ApExpired

record ApprovalAction =
  aa_type :: string
  aa_targetService :: string
  aa_params :: "(string \<times> json) list"

type_synonym ApprovalContext = "(string \<times> json) list"

record ApprovalRequest =
  ar_id :: string
  ar_action :: ApprovalAction
  ar_context :: ApprovalContext
  ar_status :: ApprovalStatus
  ar_createdAt :: int
  ar_expiresAt :: int
  ar_resolvedAt :: "int option"
  ar_resolvedBy :: "string option"
  ar_resolvedByRoles :: "string list option"
  ar_opsConnectorId :: "string option"
  ar_targetNamespace :: "string option"
  ar_requesterTeamId :: "string option"

type_synonym approval_store = "(string \<times> ApprovalRequest) list"

record SubmitParams =
  sp_action :: ApprovalAction
  sp_context :: ApprovalContext
  sp_ttlMs :: "int option"
  sp_opsConnectorId :: "string option"
  sp_targetNamespace :: "string option"
  sp_requesterTeamId :: "string option"

definition DEFAULT_TTL_MS :: int where
  "DEFAULT_TTL_MS = 24 * 60 * 60 * 1000"

definition markExpiredIfNeeded :: "int \<Rightarrow> approval_store \<Rightarrow> ApprovalRequest
    \<Rightarrow> ApprovalRequest \<times> approval_store" where
  "markExpiredIfNeeded now st req =
     (if ar_status req \<noteq> ApPending then (req, st)
      else if ar_expiresAt req \<le> now
      then let expired = req\<lparr>ar_status := ApExpired\<rparr>
           in (expired, AList.update (ar_id req) expired st)
      else (req, st))"

definition approvalFindById :: "int \<Rightarrow> approval_store \<Rightarrow> string \<Rightarrow> ApprovalRequest option \<times> approval_store" where
  "approvalFindById now st i =
     (case map_of st i of
        None \<Rightarrow> (None, st)
      | Some req \<Rightarrow> (case markExpiredIfNeeded now st req of (r, st') \<Rightarrow> (Some r, st')))"

definition approvalSubmit :: "int \<Rightarrow> string \<Rightarrow> approval_store \<Rightarrow> SubmitParams
    \<Rightarrow> ApprovalRequest \<times> approval_store" where
  "approvalSubmit now genId st ps =
     (let request = \<lparr>ar_id = genId, ar_action = sp_action ps, ar_context = sp_context ps,
            ar_status = ApPending, ar_createdAt = now,
            ar_expiresAt = now + or_default (sp_ttlMs ps) DEFAULT_TTL_MS,
            ar_resolvedAt = None, ar_resolvedBy = None, ar_resolvedByRoles = None,
            ar_opsConnectorId = sp_opsConnectorId ps, ar_targetNamespace = sp_targetNamespace ps,
            ar_requesterTeamId = sp_requesterTeamId ps\<rparr>
      in (request, AList.update genId request st))"

text \<open>One pass over the stored requests, expiring as it reads.\<close>

fun expireAll :: "int \<Rightarrow> ApprovalRequest list \<Rightarrow> approval_store \<Rightarrow> ApprovalRequest list \<times> approval_store" where
  "expireAll now [] st = ([], st)"
| "expireAll now (req # reqs) st =
     (case markExpiredIfNeeded now st req of
        (current, st1) \<Rightarrow> (case expireAll now reqs st1 of (rest, st2) \<Rightarrow> (current # rest, st2)))"

definition listPending :: "int \<Rightarrow> approval_store \<Rightarrow> ApprovalRequest list \<times> approval_store" where
  "listPending now st =
     (case expireAll now (map snd st) st of
        (rs, st') \<Rightarrow> (sort_key (\<lambda>r. - ar_createdAt r) (filter (\<lambda>r. ar_status r = ApPending) rs), st'))"

datatype ApprovalScopeFilter =
    FilterWildcard
  | FilterNarrow (fl_uids: "string list") (fl_connectors: "string list")
      (fl_nsPairs: "(string \<times> string) list") (fl_teams: "string list")

datatype StatusOpt = AnyStatus | OneStatus ApprovalStatus | ManyStatus "ApprovalStatus list"

fun statusMatches :: "StatusOpt \<Rightarrow> ApprovalStatus \<Rightarrow> bool" where
  "statusMatches AnyStatus s = True"
| "statusMatches (OneStatus x) s = (s = x)"
| "statusMatches (ManyStatus xs) s = (s \<in> set xs)"

definition optMem :: "string option \<Rightarrow> string list \<Rightarrow> bool" where
  "optMem x xs = (case x of None \<Rightarrow> False | Some v \<Rightarrow> v \<in> set xs)"

fun filterMatches :: "ApprovalScopeFilter option \<Rightarrow> ApprovalRequest \<Rightarrow> bool" where
  "filterMatches (Some (FilterNarrow uids connectors nsPairs teams)) r =
     (ar_id r \<in> set uids
      \<or> optMem (ar_opsConnectorId r) connectors
      \<or> (ar_opsConnectorId r \<noteq> None \<and> ar_targetNamespace r \<noteq> None
          \<and> list_ex (\<lambda>(c, n). Some c = ar_opsConnectorId r \<and> Some n = ar_targetNamespace r) nsPairs)
      \<or> optMem (ar_requesterTeamId r) teams)"
| "filterMatches _ r = True"

text \<open>A narrow filter with nothing in it.\<close>

fun emptyNarrow :: "ApprovalScopeFilter option \<Rightarrow> bool" where
  "emptyNarrow (Some (FilterNarrow uids connectors nsPairs teams)) =
     (length uids = 0 \<and> length connectors = 0 \<and> length nsPairs = 0 \<and> length teams = 0)"
| "emptyNarrow _ = False"

text \<open>The loop of \<open>list\<close>; an empty array of states ends it at the first request.\<close>

fun listLoop :: "int \<Rightarrow> ApprovalScopeFilter option \<Rightarrow> StatusOpt \<Rightarrow> ApprovalRequest list \<Rightarrow> approval_store
    \<Rightarrow> ApprovalRequest list option \<times> approval_store" where
  "listLoop now flt status [] st = (Some [], st)"
| "listLoop now flt status (req # reqs) st =
     (case markExpiredIfNeeded now st req of
        (current, st1) \<Rightarrow>
          if status = ManyStatus [] then (None, st1)
          else (case listLoop now flt status reqs st1 of
                  (rest, st2) \<Rightarrow>
                    (if statusMatches status (ar_status current) \<and> filterMatches flt current
                     then map_option ((#) current) rest else rest, st2)))"

definition approvalList :: "int \<Rightarrow> approval_store \<Rightarrow> ApprovalScopeFilter option \<Rightarrow> StatusOpt
    \<Rightarrow> ApprovalRequest list \<times> approval_store" where
  "approvalList now st flt status =
     (if emptyNarrow flt then ([], st)
      else (case listLoop now flt status (map snd st) st of
              (rs, st') \<Rightarrow> (sort_key ar_createdAt (or_default rs []), st')))"

definition approvalResolve :: "int \<Rightarrow> approval_store \<Rightarrow> string \<Rightarrow> ApprovalStatus \<Rightarrow> string \<Rightarrow> string list option
    \<Rightarrow> ApprovalRequest option \<times> approval_store" where
  "approvalResolve now st i status who roles =
     (case map_of st i of
        None \<Rightarrow> (None, st)
      | Some req \<Rightarrow>
          (case markExpiredIfNeeded now st req of
             (current, st1) \<Rightarrow>
               if ar_status current \<noteq> ApPending then (None, st1)
               else let updated = current\<lparr>ar_status := status, ar_resolvedAt := Some now,
                          ar_resolvedBy := Some who, ar_resolvedByRoles := roles\<rparr>
                    in (Some updated, AList.update i updated st1)))"

definition approvalApprove :: "int \<Rightarrow> approval_store \<Rightarrow> string \<Rightarrow> string \<Rightarrow> string list option
    \<Rightarrow> ApprovalRequest option \<times> approval_store" where
  "approvalApprove now st i who roles = approvalResolve now st i ApApproved who roles"

definition approvalReject :: "int \<Rightarrow> approval_store \<Rightarrow> string \<Rightarrow> string \<Rightarrow> string list option
    \<Rightarrow> ApprovalRequest option \<times> approval_store" where
  "approvalReject now st i who roles = approvalResolve now st i ApRejected who roles"

definition approvalOverride :: "int \<Rightarrow> approval_store \<Rightarrow> string \<Rightarrow> string \<Rightarrow> string list option
    \<Rightarrow> ApprovalRequest option \<times> approval_store" where
  "approvalOverride now st i who roles =
     (case map_of st i of
        None \<Rightarrow> (None, st)
      | Some req \<Rightarrow>
          let updated = req\<lparr>ar_status := ApApproved, ar_resolvedAt := Some now,
                ar_resolvedBy := Some who, ar_resolvedByRoles := roles\<rparr>
          in (Some updated, AList.update i updated st))"

subsection \<open>Specification vocabulary\<close>

text \<open>Keys are the identifiers of their requests and occur once.\<close>

definition storeOk :: "approval_store \<Rightarrow> bool" where
  "storeOk st \<longleftrightarrow> distinct (map fst st) \<and> (\<forall>i r. map_of st i = Some r \<longrightarrow> ar_id r = i)"

text \<open>What reading a request at a time gives.\<close>

definition current :: "int \<Rightarrow> ApprovalRequest \<Rightarrow> ApprovalRequest" where
  "current now r = (if ar_status r = ApPending \<and> ar_expiresAt r \<le> now then r\<lparr>ar_status := ApExpired\<rparr> else r)"

text \<open>Every operation but the administrator's override; a new identifier is fresh.\<close>

inductive approval_step :: "approval_store \<Rightarrow> approval_store \<Rightarrow> bool" where
  as_find: "approval_step st (snd (approvalFindById now st i))"
| as_submit: "map_of st g = None \<Longrightarrow> approval_step st (snd (approvalSubmit now g st ps))"
| as_pending: "approval_step st (snd (listPending now st))"
| as_list: "approval_step st (snd (approvalList now st flt status))"
| as_approve: "approval_step st (snd (approvalApprove now st i who roles))"
| as_reject: "approval_step st (snd (approvalReject now st i who roles))"

section \<open>Lemmas\<close>

lemma storeOk_id: "storeOk st \<Longrightarrow> map_of st i = Some r \<Longrightarrow> ar_id r = i"
  by (simp add: storeOk_def)

lemma storeOk_update: "storeOk st \<Longrightarrow> ar_id r = i \<Longrightarrow> storeOk (AList.update i r st)"
  by (auto simp: storeOk_def distinct_update update_conv split: if_splits)

lemma current_simps [simp]:
  "ar_id (current now r) = ar_id r" "ar_opsConnectorId (current now r) = ar_opsConnectorId r"
  "ar_targetNamespace (current now r) = ar_targetNamespace r"
  "ar_requesterTeamId (current now r) = ar_requesterTeamId r"
  "ar_createdAt (current now r) = ar_createdAt r"
  by (simp_all add: current_def)

lemma current_final: "ar_status r \<noteq> ApPending \<Longrightarrow> current now r = r"
  by (simp add: current_def)

lemma current_pending: "ar_status (current now r) = ApPending \<longleftrightarrow> ar_status r = ApPending \<and> now < ar_expiresAt r"
  by (auto simp: current_def)

text \<open>Marking a stored request reads its current form and stores it.\<close>

lemma mark_spec:
  assumes "storeOk st" "map_of st (ar_id req) = Some req"
  shows "fst (markExpiredIfNeeded now st req) = current now req
    \<and> storeOk (snd (markExpiredIfNeeded now st req))
    \<and> map_of (snd (markExpiredIfNeeded now st req)) = (map_of st)(ar_id req \<mapsto> current now req)
    \<and> map fst (snd (markExpiredIfNeeded now st req)) = map fst st"
proof -
  have "ar_id req \<in> set (map fst st)"
    using assms(2) by (metis map_of_eq_None_iff option.distinct(1) set_map)
  then show ?thesis
    using assms by (auto simp: markExpiredIfNeeded_def current_def Let_def storeOk_update update_conv
        update_keys map_upd_triv)
qed

text \<open>
  A change of the store that leaves every decided request alone and never forgets one.
\<close>

definition keepsDecided :: "approval_store \<Rightarrow> approval_store \<Rightarrow> bool" where
  "keepsDecided st st' \<longleftrightarrow>
     (\<forall>i r. map_of st i = Some r \<longrightarrow> ar_status r \<noteq> ApPending \<longrightarrow> map_of st' i = Some r)"

lemma keepsDecided_refl [simp]: "keepsDecided st st"
  by (simp add: keepsDecided_def)

lemma keepsDecided_trans: "keepsDecided st st' \<Longrightarrow> keepsDecided st' st'' \<Longrightarrow> keepsDecided st st''"
  by (simp add: keepsDecided_def)

lemma keeps_mark:
  assumes "storeOk st" "map_of st (ar_id req) = Some req"
  shows "keepsDecided st (snd (markExpiredIfNeeded now st req))"
  using mark_spec [OF assms] assms(2) by (auto simp: keepsDecided_def current_final)

text \<open>
  A pass over requests of the store: each is read once. The requests still to read are those
  stored now, which the marks of other identifiers do not touch.
\<close>

definition stored :: "approval_store \<Rightarrow> ApprovalRequest list \<Rightarrow> bool" where
  "stored st reqs \<longleftrightarrow> distinct (map ar_id reqs) \<and> (\<forall>r\<in>set reqs. map_of st (ar_id r) = Some r)"

lemma stored_all:
  assumes "storeOk st"
  shows "stored st (map snd st)"
proof -
  have "map ar_id (map snd st) = map fst st"
    using assms unfolding storeOk_def by (auto simp: map_of_is_SomeI)
  moreover have "map_of st (ar_id r) = Some r" if "r \<in> snd ` set st" for r
    using assms that unfolding storeOk_def by (force simp: map_of_is_SomeI)
  ultimately show ?thesis using assms unfolding stored_def storeOk_def set_map by (simp only:) blast
qed

lemma stored_mark:
  assumes "storeOk st" "stored st (req # reqs)"
  shows "stored (snd (markExpiredIfNeeded now st req)) reqs"
proof -
  have "map_of st (ar_id req) = Some req" using assms(2) by (simp add: stored_def)
  note M = mark_spec [OF assms(1) this, of now]
  have "map_of (snd (markExpiredIfNeeded now st req)) (ar_id r) = Some r" if "r \<in> set reqs" for r
  proof -
    have d: "distinct (map ar_id (req # reqs))" using assms(2) unfolding stored_def by (rule conjunct1)
    have "map_of st (ar_id r) = Some r"
      using assms(2) that unfolding stored_def by (meson list.set_intros(2))
    moreover have "ar_id r \<noteq> ar_id req" using d that by (metis distinct.simps(2) image_eqI list.map(2) list.set_map)
    ultimately show ?thesis using M by (simp only: fun_upd_apply) simp
  qed
  moreover have "distinct (map ar_id reqs)" using assms(2) unfolding stored_def by simp
  ultimately show ?thesis unfolding stored_def by blast
qed

lemma listLoop_spec:
  "storeOk st \<Longrightarrow> stored st reqs \<Longrightarrow>
   storeOk (snd (listLoop now flt status reqs st)) \<and> keepsDecided st (snd (listLoop now flt status reqs st))
   \<and> (status \<noteq> ManyStatus [] \<longrightarrow> fst (listLoop now flt status reqs st)
        = Some (filter (\<lambda>r. statusMatches status (ar_status r) \<and> filterMatches flt r) (map (current now) reqs)))"
proof (induction reqs arbitrary: st)
  case Nil
  then show ?case by simp
next
  case (Cons req reqs)
  let ?st1 = "snd (markExpiredIfNeeded now st req)"
  have req: "map_of st (ar_id req) = Some req" using Cons.prems(2) by (simp add: stored_def)
  note M = mark_spec [OF Cons.prems(1) req, of now]
  have ok1: "storeOk ?st1" and k1: "keepsDecided st ?st1"
    using M keeps_mark [OF Cons.prems(1) req] by simp_all
  note IH = Cons.IH [OF ok1 stored_mark [OF Cons.prems]]
  show ?case
    using M ok1 k1 IH keepsDecided_trans [OF k1]
    by (cases "markExpiredIfNeeded now st req"; cases "listLoop now flt status reqs ?st1") auto
qed

lemma expireAll_spec:
  "storeOk st \<Longrightarrow> stored st reqs \<Longrightarrow>
   storeOk (snd (expireAll now reqs st)) \<and> keepsDecided st (snd (expireAll now reqs st))
   \<and> fst (expireAll now reqs st) = map (current now) reqs"
proof (induction reqs arbitrary: st)
  case Nil
  then show ?case by simp
next
  case (Cons req reqs)
  let ?st1 = "snd (markExpiredIfNeeded now st req)"
  have req: "map_of st (ar_id req) = Some req" using Cons.prems(2) by (simp add: stored_def)
  note M = mark_spec [OF Cons.prems(1) req, of now]
  have ok1: "storeOk ?st1" and k1: "keepsDecided st ?st1"
    using M keeps_mark [OF Cons.prems(1) req] by simp_all
  show ?case
    using M ok1 k1 Cons.IH [OF ok1 stored_mark [OF Cons.prems]] keepsDecided_trans [OF k1]
    by (cases "markExpiredIfNeeded now st req"; cases "expireAll now reqs ?st1") auto
qed

lemma resolve_spec:
  assumes "storeOk st"
  shows "storeOk (snd (approvalResolve now st i status who roles))
    \<and> keepsDecided st (snd (approvalResolve now st i status who roles))
    \<and> (fst (approvalResolve now st i status who roles) \<noteq> None \<longleftrightarrow>
         (\<exists>r. map_of st i = Some r \<and> ar_status r = ApPending \<and> now < ar_expiresAt r))
    \<and> (\<forall>u. fst (approvalResolve now st i status who roles) = Some u \<longrightarrow>
         ar_status u = status \<and> ar_resolvedBy u = Some who
         \<and> map_of (snd (approvalResolve now st i status who roles)) i = Some u)"
proof (cases "map_of st i")
  case None
  then show ?thesis using assms by (simp add: approvalResolve_def)
next
  case (Some req)
  have i: "ar_id req = i" by (rule storeOk_id [OF assms Some])
  note M = mark_spec [OF assms, of req now] and K = keeps_mark [OF assms, of req now]
  show ?thesis
  proof (cases "ar_status (current now req) = ApPending")
    case True
    then have cur: "current now req = req" "ar_status req = ApPending" "now < ar_expiresAt req"
      by (auto simp: current_def split: if_splits)
    then have "markExpiredIfNeeded now st req = (req, st)" by (simp add: markExpiredIfNeeded_def)
    then show ?thesis using Some assms cur i
      by (auto simp: approvalResolve_def Let_def storeOk_update update_conv keepsDecided_def)
  next
    case False
    then have "approvalResolve now st i status who roles = (None, snd (markExpiredIfNeeded now st req))"
      using Some M i by (auto simp: approvalResolve_def split: prod.splits)
    then show ?thesis using M K Some i False by (auto simp: current_pending)
  qed
qed

lemma step_keeps:
  assumes "approval_step st st'" "storeOk st"
  shows "storeOk st' \<and> keepsDecided st st'"
  using assms
proof cases
  case (as_find now i)
  show ?thesis
  proof (cases "map_of st i")
    case None
    then show ?thesis using assms(2) as_find by (simp add: approvalFindById_def)
  next
    case (Some req)
    have stored: "map_of st (ar_id req) = Some req" using storeOk_id [OF assms(2) Some] Some by simp
    have "st' = snd (markExpiredIfNeeded now st req)"
      using as_find Some by (simp add: approvalFindById_def split: prod.splits)
    then show ?thesis using mark_spec [OF assms(2) stored] keeps_mark [OF assms(2) stored] by simp
  qed
next
  case (as_submit g now ps)
  then show ?thesis using assms(2)
    by (auto simp: approvalSubmit_def Let_def storeOk_update keepsDecided_def update_conv)
next
  case (as_pending now)
  then show ?thesis using expireAll_spec [OF assms(2) stored_all [OF assms(2)], of now]
    by (auto simp: listPending_def split: prod.splits)
next
  case (as_list now flt status)
  then show ?thesis using listLoop_spec [OF assms(2) stored_all [OF assms(2)], of now flt status] assms(2)
    by (auto simp: approvalList_def split: prod.splits)
next
  case (as_approve now i who roles)
  then show ?thesis using resolve_spec [OF assms(2)] by (simp add: approvalApprove_def)
next
  case (as_reject now i who roles)
  then show ?thesis using resolve_spec [OF assms(2)] by (simp add: approvalReject_def)
qed

text \<open>The store as a step system, for one decided request.\<close>

interpretation decided: step_system "\<lambda>st. storeOk st \<and> map_of st i = Some r \<and> ar_status r \<noteq> ApPending"
    approval_step "\<lambda>st. storeOk st \<and> map_of st i = Some r \<and> ar_status r \<noteq> ApPending" for i r
  by unfold_locales (use step_keeps in \<open>auto simp: keepsDecided_def\<close>)

lemma approvalList_spec:
  assumes "storeOk st" "status \<noteq> ManyStatus []"
  shows "set (fst (approvalList now st flt status)) =
      {current now r | r. r \<in> snd ` set st \<and> statusMatches status (ar_status (current now r)) \<and> filterMatches flt r}
    \<and> sorted (map ar_createdAt (fst (approvalList now st flt status)))"
proof -
  have fc: "filterMatches flt (current now r) = filterMatches flt r" for r
    by (cases flt; cases "the flt") auto
  have none: "\<not> filterMatches flt r" if "emptyNarrow flt" for r
    using that by (cases flt; cases "the flt") (auto simp: optMem_def split: option.splits)
  show ?thesis
  proof (cases "emptyNarrow flt")
    case True
    then show ?thesis using none by (simp add: approvalList_def)
  next
    case False
    have "fst (approvalList now st flt status) = sort_key ar_createdAt
        (filter (\<lambda>r. statusMatches status (ar_status r) \<and> filterMatches flt r) (map (current now) (map snd st)))"
      using False listLoop_spec [OF assms(1) stored_all [OF assms(1)], of now flt status] assms(2)
      by (cases "listLoop now flt status (map snd st) st") (simp add: approvalList_def)
    then show ?thesis by (auto simp: fc image_iff)
  qed
qed

lemmas approvalList_set = approvalList_spec [THEN conjunct1]

section \<open>Properties\<close>


definition exRequest :: ApprovalRequest where
  "exRequest = \<lparr>ar_id = ''a'', ar_action = \<lparr>aa_type = ''ops.run_command'', aa_targetService = ''c'', aa_params = []\<rparr>,
     ar_context = [], ar_status = ApRejected, ar_createdAt = 0, ar_expiresAt = 10, ar_resolvedAt = Some 1,
     ar_resolvedBy = Some ''u'', ar_resolvedByRoles = None, ar_opsConnectorId = Some ''c'',
     ar_targetNamespace = Some ''app'', ar_requesterTeamId = None\<rparr>"


text \<open>The filtered list is exact. It returns, by creation time, exactly the requests of the store
  (an expired pending one as expired) that have a wanted state and match the filter; a narrow filter
  without entries returns nothing.\<close>

theorem approvalList_exact:
  assumes "storeOk st" "status \<noteq> ManyStatus []"
  shows "set (fst (approvalList now st flt status)) =
      {current now r | r. r \<in> snd ` set st \<and> statusMatches status (ar_status (current now r)) \<and> filterMatches flt r}
    \<and> sorted (map ar_createdAt (fst (approvalList now st flt status)))"
  by (rule approvalList_spec [OF assms])

theorem approvalList_exact_witness:
  "set (fst (approvalList 5 [(''a'', exRequest)] (Some (FilterNarrow [] [''c''] [] [])) AnyStatus)) = {exRequest}"
proof -
  have "storeOk [(''a'', exRequest)]" by (auto simp: storeOk_def exRequest_def split: if_splits)
  moreover have "current 5 exRequest = exRequest" by (simp add: current_def exRequest_def)
  ultimately show ?thesis
    using approvalList_exact [of "[(''a'', exRequest)]" AnyStatus 5 "Some (FilterNarrow [] [''c''] [] [])"]
    by (auto simp: optMem_def exRequest_def)
qed

end
