(* ===== verification/Approval_Routes.thy ===== *)
theory Approval_Routes
  imports Access_Control Approval_Repo Rbac_Fixed_Roles
begin

text \<open>
  The approval routes (\<open>api-gateway/src/routes/approval.ts\<close>): the list filter built from the
  caller's grants, the per-row access check, and the five handlers as functions from the request
  (caller, identifier) to a response, over the approval store and the caller's identity. An
  exception passed to \<open>next\<close> is outside the model.

  Results: a decision is stored only for a caller the row check admits, on a request still
  pending and in time, and a denied caller cannot tell the row from a missing one; the list and
  the detail view agree for well-formed grants; they disagree for grants with a \<open>*\<close>
  identifier, which the predefined cluster approver and team viewer roles use.
\<close>

section \<open>Definitions\<close>

definition legacyOrgRole :: "string \<Rightarrow> string" where
  "legacyOrgRole role =
     (if role = ''Admin'' then ''admin'' else if role = ''Editor'' then ''operator'' else ''viewer'')"

text \<open>The loop over the read grants; a wildcard grant ends it.\<close>

fun scopeFilterLoop :: "ResolvedPermission list \<Rightarrow> string list \<Rightarrow> string list \<Rightarrow> (string \<times> string) list
    \<Rightarrow> string list \<Rightarrow> ApprovalScopeFilter" where
  "scopeFilterLoop [] uids connectors nsPairs teams = FilterNarrow uids connectors nsPairs teams"
| "scopeFilterLoop (p # ps) uids connectors nsPairs teams =
     (case parseApprovalScope (rp_scope p) of
        None \<Rightarrow> scopeFilterLoop ps uids connectors nsPairs teams
      | Some ScWildcard \<Rightarrow> FilterWildcard
      | Some (ScUid i) \<Rightarrow> scopeFilterLoop ps (List.insert i uids) connectors nsPairs teams
      | Some (ScConnector c) \<Rightarrow> scopeFilterLoop ps uids (List.insert c connectors) nsPairs teams
      | Some (ScNamespace c n) \<Rightarrow> scopeFilterLoop ps uids connectors (nsPairs @ [(c, n)]) teams
      | Some (ScTeam t) \<Rightarrow> scopeFilterLoop ps uids connectors nsPairs (List.insert t teams))"

definition approvalsReadScopeFilter :: "ResolvedPermission list \<Rightarrow> ApprovalScopeFilter" where
  "approvalsReadScopeFilter permissions =
     scopeFilterLoop (filter (\<lambda>p. rp_action p = ACTIONS_ApprovalsRead) permissions) [] [] [] []"

definition holdsApprovalsWildcard :: "ResolvedPermission list \<Rightarrow> string \<Rightarrow> bool" where
  "holdsApprovalsWildcard permissions action =
     list_ex (\<lambda>p. rp_action p = action \<and>
       (rp_scope p = ''approvals:*'' \<or> rp_scope p = ''approvals:*:*'' \<or> rp_scope p = ''*'' \<or> rp_scope p = []))
       permissions"

definition requestRow :: "ApprovalRequest \<Rightarrow> ApprovalRow" where
  "requestRow r = \<lparr>row_id = ar_id r, row_opsConnectorId = ar_opsConnectorId r,
     row_targetNamespace = ar_targetNamespace r, row_requesterTeamId = ar_requesterTeamId r\<rparr>"

definition rowEvaluator :: "ResolvedPermission list \<Rightarrow> string \<Rightarrow> ApprovalRow \<Rightarrow> Evaluator" where
  "rowEvaluator permissions action row =
     ac_any (map (\<lambda>s. ac_eval action (OneScope s))
       (approvalRowScopes row @ (if holdsApprovalsWildcard permissions action then [''approvals:*''] else [])))"

definition evalRowAccess :: "AccessControlDeps \<Rightarrow> Identity option \<Rightarrow> ResolvedPermission list \<Rightarrow> string
    \<Rightarrow> ApprovalRow \<Rightarrow> bool" where
  "evalRowAccess deps identity permissions action row =
     (case identity of
        None \<Rightarrow> False
      | Some i \<Rightarrow> fst (acEvaluate deps i (rowEvaluator permissions action row)))"

datatype ApprovalResponse =
    Unauthorized
  | NotFound
  | Conflict string
  | OkRow ApprovalRequest
  | OkRows "ApprovalRequest list"

fun statusName :: "ApprovalStatus \<Rightarrow> string" where
  "statusName ApPending = ''pending''"
| "statusName ApApproved = ''approved''"
| "statusName ApRejected = ''rejected''"
| "statusName ApExpired = ''expired''"

definition handleList :: "AccessControlDeps \<Rightarrow> int \<Rightarrow> approval_store \<Rightarrow> Identity option
    \<Rightarrow> ApprovalResponse \<times> approval_store \<times> Identity option" where
  "handleList deps now st auth =
     (case auth of
        None \<Rightarrow> (Unauthorized, st, None)
      | Some i \<Rightarrow>
          (case ensurePermissions (ad_tables deps) i of
             (perms, i') \<Rightarrow>
               (case approvalList now st (Some (approvalsReadScopeFilter perms)) AnyStatus of
                  (rows, st') \<Rightarrow> (OkRows rows, st', Some i'))))"

text \<open>The common opening of the row handlers: authenticate, find the row, check access.\<close>

definition withRow :: "AccessControlDeps \<Rightarrow> int \<Rightarrow> approval_store \<Rightarrow> Identity option \<Rightarrow> string \<Rightarrow> string
    \<Rightarrow> (Identity \<Rightarrow> ApprovalRequest \<Rightarrow> approval_store \<Rightarrow> ApprovalResponse \<times> approval_store)
    \<Rightarrow> ApprovalResponse \<times> approval_store \<times> Identity option" where
  "withRow deps now st auth action i body =
     (case auth of
        None \<Rightarrow> (Unauthorized, st, None)
      | Some who \<Rightarrow>
          (case approvalFindById now st i of
             (None, st1) \<Rightarrow> (NotFound, st1, Some who)
           | (Some record, st1) \<Rightarrow>
               (case ensurePermissions (ad_tables deps) who of
                  (perms, who') \<Rightarrow>
                    if \<not> evalRowAccess deps (Some who') perms action (requestRow record)
                    then (NotFound, st1, Some who')
                    else (case body who' record st1 of (resp, st2) \<Rightarrow> (resp, st2, Some who')))))"

definition handleGet :: "AccessControlDeps \<Rightarrow> int \<Rightarrow> approval_store \<Rightarrow> Identity option \<Rightarrow> string
    \<Rightarrow> ApprovalResponse \<times> approval_store \<times> Identity option" where
  "handleGet deps now st auth i =
     withRow deps now st auth ACTIONS_ApprovalsRead i (\<lambda>who record st1. (OkRow record, st1))"

definition resolverRoles :: "Identity \<Rightarrow> string list" where
  "resolverRoles who = (if id_isServerAdmin who then [''admin''] else [legacyOrgRole (id_orgRole who)])"

definition handleApprove :: "AccessControlDeps \<Rightarrow> int \<Rightarrow> approval_store \<Rightarrow> Identity option \<Rightarrow> string
    \<Rightarrow> ApprovalResponse \<times> approval_store \<times> Identity option" where
  "handleApprove deps now st auth i =
     withRow deps now st auth ACTIONS_ApprovalsApprove i (\<lambda>who record st1.
       (case approvalApprove now st1 i (id_userId who) (Some (resolverRoles who)) of
          (None, st2) \<Rightarrow> (Conflict (''Approval request is already '' @ statusName (ar_status record)
              @ '' and cannot be approved''), st2)
        | (Some updated, st2) \<Rightarrow> (OkRow updated, st2)))"

definition handleReject :: "AccessControlDeps \<Rightarrow> int \<Rightarrow> approval_store \<Rightarrow> Identity option \<Rightarrow> string
    \<Rightarrow> ApprovalResponse \<times> approval_store \<times> Identity option" where
  "handleReject deps now st auth i =
     withRow deps now st auth ACTIONS_ApprovalsApprove i (\<lambda>who record st1.
       (case approvalReject now st1 i (id_userId who) (Some (resolverRoles who)) of
          (None, st2) \<Rightarrow> (Conflict (''Approval request is already '' @ statusName (ar_status record)
              @ '' and cannot be rejected''), st2)
        | (Some updated, st2) \<Rightarrow> (OkRow updated, st2)))"

definition handleOverride :: "AccessControlDeps \<Rightarrow> int \<Rightarrow> approval_store \<Rightarrow> Identity option \<Rightarrow> string
    \<Rightarrow> ApprovalResponse \<times> approval_store \<times> Identity option" where
  "handleOverride deps now st auth i =
     withRow deps now st auth ACTIONS_ApprovalsOverride i (\<lambda>who record st1.
       (case approvalOverride now st1 i (id_userId who) (Some (resolverRoles who)) of
          (None, st2) \<Rightarrow> (NotFound, st2)
        | (Some updated, st2) \<Rightarrow> (OkRow updated, st2)))"

section \<open>Lemmas\<close>

text \<open>What the built filter matches: a wildcard, or the row one of the grants selects.\<close>

lemma filterLoop_matches:
  "filterMatches (Some (scopeFilterLoop ps uids cs nps ts)) r \<longleftrightarrow>
     (\<exists>p\<in>set ps. \<exists>sc. parseApprovalScope (rp_scope p) = Some sc \<and> approvalScopeSelects sc (requestRow r))
     \<or> filterMatches (Some (FilterNarrow uids cs nps ts)) r"
proof (induction ps arbitrary: uids cs nps ts)
  case Nil
  then show ?case by simp
next
  case (Cons p ps)
  show ?case
  proof (cases "parseApprovalScope (rp_scope p)")
    case None
    then show ?thesis using Cons.IH by simp
  next
    case (Some sc)
    show ?thesis
      by (cases sc) (auto simp: Cons.IH Some requestRow_def optMem_def split: option.splits)
  qed
qed

lemma readFilter_matches:
  "filterMatches (Some (approvalsReadScopeFilter ps)) r \<longleftrightarrow>
     (\<exists>p\<in>set ps. rp_action p = ACTIONS_ApprovalsRead \<and>
        (\<exists>sc. parseApprovalScope (rp_scope p) = Some sc \<and> approvalScopeSelects sc (requestRow r)))"
proof -
  have "\<not> filterMatches (Some (FilterNarrow [] [] [] [])) r"
    by (auto simp: optMem_def split: option.splits)
  then show ?thesis unfolding approvalsReadScopeFilter_def filterLoop_matches by auto
qed

text \<open>Approval scopes have no resolver: they stand for themselves.\<close>

lemma resolve_approvals:
  assumes "scopeKind s = ''approvals''"
  shows "resolve rdeps s = [s]"
proof -
  have "map_of (byKind rdeps) ''approvals'' = None" by (simp add: byKind_def)
  then show ?thesis using assms unfolding resolve_def by simp
qed

lemma scopeKind_approvals: "scopeKind (''approvals:'' @ t) = ''approvals''"
  using scopeKind_shape [of "''approvals''" t] by simp

lemma candidate_kind:
  "w \<in> set (approvalRowScopes row) \<union> {''approvals:*''} \<Longrightarrow> scopeKind w = ''approvals''"
proof -
  assume w: "w \<in> set (approvalRowScopes row) \<union> {''approvals:*''}"
  have "scopeKind ''approvals:*'' = ''approvals''" by code_simp
  moreover have "scopeKind (approvalShape a i) = ''approvals''" for a i
    unfolding approvalShape_def by (rule scopeKind_approvals)
  ultimately show ?thesis using w by (auto simp: approval_row_members)
qed

lemma evaluate_any_atoms:
  "evaluate (mutate r (ac_any (map (\<lambda>s. ac_eval a (OneScope s)) ws))) ps \<longleftrightarrow>
     (\<exists>s\<in>set ws. \<exists>w\<in>set (r s). granted ps a w)"
  by (auto simp: ac_any_def evaluate_iff granted_def holds_action_def)

text \<open>Access to a row is a grant on one of its candidates, or the legacy fallback.\<close>

lemma evalRowAccess_iff:
  assumes "ad_resolvers deps = Some (\<lambda>og. resolve (rdeps og))"
    and ps: "fst (ensurePermissions (ad_tables deps) i) = ps"
    and noacl: "\<not> legacyFallback deps (snd (ensurePermissions (ad_tables deps) i)) (rowEvaluator ps a row)"
  shows "evalRowAccess deps (Some i) ps a row \<longleftrightarrow>
    (\<exists>p\<in>set ps. rp_action p = a \<and>
       (\<exists>w\<in>set (approvalRowScopes row) \<union> (if holdsApprovalsWildcard ps a then {''approvals:*''} else {}).
          scopeCovers (rp_scope p) w))"
proof -
  let ?ws = "approvalRowScopes row @ (if holdsApprovalsWildcard ps a then [''approvals:*''] else [])"
  let ?r = "cachedResolve (resolve (rdeps (id_orgId i))) (collectScopes (rowEvaluator ps a row))"
  have r: "?r w = [w]" if "w \<in> set ?ws" for w
    using candidate_kind [of w row] that
    by (auto simp: cachedResolve_iff resolve_approvals split: if_splits)
  have "evalRowAccess deps (Some i) ps a row \<longleftrightarrow> evaluate (mutate ?r (rowEvaluator ps a row)) ps"
    using assms by (simp add: evalRowAccess_def acEvaluate_iff effectiveEvaluator_def)
  also have "\<dots> \<longleftrightarrow> (\<exists>s\<in>set ?ws. \<exists>w\<in>set (?r s). granted ps a w)"
    unfolding rowEvaluator_def by (rule evaluate_any_atoms)
  also have "\<dots> \<longleftrightarrow> (\<exists>s\<in>set ?ws. \<exists>w\<in>set [s]. granted ps a w)"
    by (rule bex_cong [OF refl]) (simp only: r)
  also have "\<dots> \<longleftrightarrow> (\<exists>w\<in>set ?ws. granted ps a w)" by simp
  also have "\<dots> \<longleftrightarrow> (\<exists>p\<in>set ps. rp_action p = a \<and>
      (\<exists>w\<in>set (approvalRowScopes row) \<union> (if holdsApprovalsWildcard ps a then {''approvals:*''} else {}).
          scopeCovers (rp_scope p) w))"
    unfolding granted_def by (auto split: if_splits)
  finally show ?thesis .
qed

text \<open>The opening shared by the row handlers: what it changes when it refuses, what it hands on.\<close>

lemma find_spec:
  assumes "storeOk st"
  shows "(map_of st i = None \<and> approvalFindById now st i = (None, st))
    \<or> (\<exists>r st1. map_of st i = Some r \<and> approvalFindById now st i = (Some (current now r), st1) \<and> storeOk st1
         \<and> map_of st1 = (map_of st)(i \<mapsto> current now r))"
proof (cases "map_of st i")
  case None
  then show ?thesis by (simp add: approvalFindById_def)
next
  case (Some r)
  have i: "ar_id r = i" by (rule storeOk_id [OF assms Some])
  have "map_of st (ar_id r) = Some r" using Some i by simp
  from mark_spec [OF assms this, of now] show ?thesis using Some i
    by (cases "markExpiredIfNeeded now st r") (auto simp: approvalFindById_def)
qed

definition onlyExpired :: "int \<Rightarrow> string \<Rightarrow> approval_store \<Rightarrow> approval_store \<Rightarrow> bool" where
  "onlyExpired now i st st' \<longleftrightarrow>
     map_of st' = map_of st \<or> (\<exists>r. map_of st i = Some r \<and> map_of st' = (map_of st)(i \<mapsto> current now r))"

text \<open>A handler that resolves the row it was given to a status.\<close>

lemma withRow_resolve:
  assumes ok: "storeOk st"
    and h: "withRow deps now st auth a i (\<lambda>who record st1.
       (case approvalResolve now st1 i status (id_userId who) (roles who) of
          (None, st2) \<Rightarrow> (Conflict (msg record), st2)
        | (Some updated, st2) \<Rightarrow> (OkRow updated, st2))) = (resp, st', auth')"
  shows "(\<forall>u. resp = OkRow u \<longrightarrow> (\<exists>who r. auth = Some who \<and> map_of st i = Some r
            \<and> ar_status r = ApPending \<and> now < ar_expiresAt r
            \<and> evalRowAccess deps (Some (snd (ensurePermissions (ad_tables deps) who)))
                (fst (ensurePermissions (ad_tables deps) who)) a (requestRow r)
            \<and> ar_status u = status \<and> ar_resolvedBy u = Some (id_userId who)
            \<and> map_of st' = (map_of st)(i \<mapsto> u)))
    \<and> ((\<forall>u. resp \<noteq> OkRow u) \<longrightarrow> onlyExpired now i st st')"
proof (cases auth)
  case None
  then show ?thesis using h by (auto simp: withRow_def onlyExpired_def)
next
  case (Some who)
  obtain perms who' where ens: "ensurePermissions (ad_tables deps) who = (perms, who')" by fastforce
  have uid: "id_userId who' = id_userId who"
    using ens by (auto simp: ensurePermissions_def Let_def split: option.splits)
  from find_spec [OF ok, of i now] show ?thesis
  proof (elim disjE exE conjE)
    assume "approvalFindById now st i = (None, st)"
    then show ?thesis using h Some by (auto simp: withRow_def onlyExpired_def)
  next
    fix r st1
    assume r: "map_of st i = Some r" and f: "approvalFindById now st i = (Some (current now r), st1)"
      and ok1: "storeOk st1" and m1: "map_of st1 = (map_of st)(i \<mapsto> current now r)"
    have row: "requestRow (current now r) = requestRow r" by (simp add: requestRow_def)
    show ?thesis
    proof (cases "evalRowAccess deps (Some who') perms a (requestRow r)")
      case False
      then show ?thesis using h Some f ens row r m1 by (auto simp: withRow_def onlyExpired_def)
    next
      case True
      show ?thesis
      proof (cases "ar_status r = ApPending \<and> now < ar_expiresAt r")
        case pend: True
        then have cur: "current now r = r" by (simp add: current_def)
        have "markExpiredIfNeeded now st1 r = (r, st1)" using pend by (simp add: markExpiredIfNeeded_def)
        then have "approvalResolve now st1 i status (id_userId who') (roles who')
          = (let u = r\<lparr>ar_status := status, ar_resolvedAt := Some now, ar_resolvedBy := Some (id_userId who'),
               ar_resolvedByRoles := roles who'\<rparr> in (Some u, AList.update i u st1))"
          using m1 cur pend by (simp add: approvalResolve_def)
        then show ?thesis using h Some f ens row r m1 True pend cur uid
          by (auto simp: withRow_def update_conv Let_def)
      next
        case dead: False
        then have np: "ar_status (current now r) \<noteq> ApPending" by (auto simp: current_pending)
        have "markExpiredIfNeeded now st1 (current now r) = (current now r, st1)"
          using np by (simp add: markExpiredIfNeeded_def)
        then have "approvalResolve now st1 i status (id_userId who') (roles who') = (None, st1)"
          using m1 np by (simp add: approvalResolve_def)
        then show ?thesis using h Some f ens row r m1 True by (auto simp: withRow_def onlyExpired_def)
      qed
    qed
  qed
qed

lemma listed_iff:
  assumes "storeOk st" "r \<in> snd ` set st"
  shows "current now r \<in> set (fst (approvalList now st flt AnyStatus)) \<longleftrightarrow> filterMatches flt r"
proof -
  have inj: "r' = r" if "r' \<in> snd ` set st" "current now r' = current now r" for r'
  proof -
    have "ar_id r' = ar_id r" using that(2) by (metis current_simps(1))
    moreover have "map_of st (ar_id x) = Some x" if "x \<in> snd ` set st" for x
      using stored_all [OF assms(1)] that unfolding stored_def set_map by blast
    ultimately show ?thesis using that(1) assms(2) by (metis option.inject)
  qed
  have "current now r \<in> set (fst (approvalList now st flt AnyStatus)) \<longleftrightarrow>
      (\<exists>r'. current now r = current now r' \<and> r' \<in> snd ` set st \<and> filterMatches flt r')"
    unfolding approvalList_set [OF assms(1), of AnyStatus now flt, simplified] by blast
  then show ?thesis using assms(2) inj by metis
qed

lemma concrete_grants_select:
  assumes wf: "\<forall>p\<in>set ps. rp_action p = a \<longrightarrow> (\<exists>sc. parseApprovalScope (rp_scope p) = Some sc \<and> \<not> starIdentifier sc)"
  shows "(\<exists>w\<in>set (approvalRowScopes row) \<union> (if holdsApprovalsWildcard ps a then {''approvals:*''} else {}).
      \<exists>p\<in>set ps. rp_action p = a \<and> scopeCovers (rp_scope p) w)
    \<longleftrightarrow> (\<exists>p\<in>set ps. rp_action p = a \<and>
      (\<exists>sc. parseApprovalScope (rp_scope p) = Some sc \<and> approvalScopeSelects sc row))" (is "?L \<longleftrightarrow> ?R")
proof
  assume ?R
  then obtain p sc where p: "p \<in> set ps" "rp_action p = a" "parseApprovalScope (rp_scope p) = Some sc"
      "approvalScopeSelects sc row" by blast
  then have "\<not> starIdentifier sc" using wf by fastforce
  then show ?L using approval_grant [OF p(3)] p by blast
next
  assume ?L
  then obtain w p where w: "w \<in> set (approvalRowScopes row) \<or> holdsApprovalsWildcard ps a"
      "p \<in> set ps" "rp_action p = a" "w \<in> set (approvalRowScopes row) \<longrightarrow> scopeCovers (rp_scope p) w"
    by (auto split: if_splits)
  show ?R
  proof (cases "holdsApprovalsWildcard ps a")
    case True
    then obtain q where q: "q \<in> set ps" "rp_action q = a"
        "rp_scope q \<in> {''approvals:*'', ''approvals:*:*'', ''*'', []}"
      by (auto simp: holdsApprovalsWildcard_def list_ex_iff)
    moreover have "parseApprovalScope ''*'' = None" "parseApprovalScope [] = None" by code_simp+
    ultimately have "parseApprovalScope (rp_scope q) = Some ScWildcard"
      using wf by (auto simp: parseApprovalScope_wildcard)
    then show ?thesis using q(1,2) by (intro bexI [of _ q] conjI exI [of _ ScWildcard]) simp_all
  next
    case False
    then have "w \<in> set (approvalRowScopes row)" "scopeCovers (rp_scope p) w" using w by blast+
    moreover obtain sc where "parseApprovalScope (rp_scope p) = Some sc" "\<not> starIdentifier sc"
      using wf w(2,3) by blast
    ultimately show ?thesis using approval_grant w(2,3) by blast
  qed
qed

section \<open>Properties\<close>


definition exPendingRequest :: ApprovalRequest where
  "exPendingRequest = exRequest\<lparr>ar_status := ApPending, ar_resolvedAt := None, ar_resolvedBy := None\<rparr>"


text \<open>The list and the detail view agree. With the legacy fallback off, if each of the caller's
  read grants is a well-formed approval scope without a \<open>*\<close> identifier, the list shows exactly
  the requests whose detail the caller may open.\<close>

theorem approval_list_detail_agree:
  assumes "ad_resolvers deps = Some (\<lambda>og. resolve (rdeps og))" "ad_legacyAcl deps = None" "storeOk st"
    and "ps = fst (ensurePermissions (ad_tables deps) i)"
    and wf: "\<forall>p\<in>set ps. rp_action p = ACTIONS_ApprovalsRead \<longrightarrow>
      (\<exists>sc. parseApprovalScope (rp_scope p) = Some sc \<and> \<not> starIdentifier sc)"
  shows "\<exists>rows st' auth'. handleList deps now st (Some i) = (OkRows rows, st', auth')
    \<and> (\<forall>r\<in>snd ` set st. current now r \<in> set rows
         \<longleftrightarrow> evalRowAccess deps (Some i) ps ACTIONS_ApprovalsRead (requestRow r))"
proof -
  let ?rows = "fst (approvalList now st (Some (approvalsReadScopeFilter ps)) AnyStatus)"
  have h: "\<exists>st' auth'. handleList deps now st (Some i) = (OkRows ?rows, st', auth')"
    using assms(4) by (simp add: handleList_def split: prod.splits)
  have noacl: "\<not> legacyFallback deps x e" for x e using assms(2) by (simp add: legacyFallback_def)
  let ?a = ACTIONS_ApprovalsRead
  note sel = concrete_grants_select [OF wf]
  have "current now r \<in> set ?rows \<longleftrightarrow> evalRowAccess deps (Some i) ps ?a (requestRow r)"
    if "r \<in> snd ` set st" for r
    unfolding listed_iff [OF assms(3) that] readFilter_matches
      evalRowAccess_iff [OF assms(1) assms(4) [symmetric] noacl] sel [of "requestRow r", symmetric] by blast
  then show ?thesis using h by blast
qed

definition exReadPerms :: "ResolvedPermission list" where
  "exReadPerms = [\<lparr>rp_action = ACTIONS_ApprovalsRead, rp_scope = ''approvals:connector:c''\<rparr>]"

theorem approval_list_detail_agree_witness:
  "\<exists>rows st' auth'. handleList exDeps 5 [(''a'', exRequest)] (Some (exIdentity\<lparr>id_permissions := Some exReadPerms\<rparr>))
     = (OkRows rows, st', auth') \<and> exRequest \<in> set rows"
proof -
  let ?i = "exIdentity\<lparr>id_permissions := Some exReadPerms\<rparr>"
  have res: "ad_resolvers exDeps = Some (\<lambda>og. resolve (repoDeps exTable og (\<lambda>_ _. Some ''b'') (\<lambda>_ _. None)))"
    by (simp add: exDeps_def)
  have noacl: "ad_legacyAcl exDeps = None" by (simp add: exDeps_def)
  have ok: "storeOk [(''a'', exRequest)]" by (auto simp: storeOk_def exRequest_def split: if_splits)
  have ps: "exReadPerms = fst (ensurePermissions (ad_tables exDeps) ?i)" by (simp add: ensurePermissions_def)
  have "parseApprovalScope ''approvals:connector:c'' = Some (ScConnector ''c'')" by code_simp
  then have wf: "\<forall>p\<in>set exReadPerms. rp_action p = ACTIONS_ApprovalsRead \<longrightarrow>
      (\<exists>sc. parseApprovalScope (rp_scope p) = Some sc \<and> \<not> starIdentifier sc)"
    by (auto simp: exReadPerms_def)
  have cur: "current 5 exRequest = exRequest" by (simp add: current_def exRequest_def)
  have acc: "evalRowAccess exDeps (Some ?i) exReadPerms ACTIONS_ApprovalsRead (requestRow exRequest)" by code_simp
  from approval_list_detail_agree [OF res noacl ok ps wf, of 5] acc cur show ?thesis by force
qed

text \<open>The two views disagree for the predefined cluster approver. With that role's grants every
  request that has a connector opens, and none of them is listed (unless its connector is named
  \<open>*\<close>).\<close>

theorem cluster_approver_list_empty:
  assumes "ar_opsConnectorId r = Some c" "c \<noteq> []" "c \<noteq> ''*''"
  shows "evaluate (rowEvaluator (fr_permissions APPROVALS_CLUSTER_APPROVER) ACTIONS_ApprovalsRead (requestRow r))
      (fr_permissions APPROVALS_CLUSTER_APPROVER)
    \<and> \<not> filterMatches (Some (approvalsReadScopeFilter (fr_permissions APPROVALS_CLUSTER_APPROVER))) r"
proof -
  let ?ps = "fr_permissions APPROVALS_CLUSTER_APPROVER"
  have ps: "?ps = [\<lparr>rp_action = ACTIONS_ApprovalsRead, rp_scope = ''approvals:connector:*''\<rparr>,
      \<lparr>rp_action = ACTIONS_ApprovalsApprove, rp_scope = ''approvals:connector:*''\<rparr>]"
    by (simp add: APPROVALS_CLUSTER_APPROVER_def fixed_def_def)
  have parse: "parseApprovalScope ''approvals:connector:*'' = Some (ScConnector ''*'')" by code_simp
  have "scopeCovers ''approvals:connector:*'' (approvalShape ''connector'' c)"
  proof -
    have "parseScope ''approvals:connector:*''
        = \<lparr>ps_kind = ''approvals'', ps_attribute = ''connector'', ps_identifier = ''*''\<rparr>" by code_simp
    then show ?thesis by (simp add: scopeCovers_segments parseScope_shape segMatches_def)
  qed
  moreover have "approvalShape ''connector'' c \<in> set (approvalRowScopes (requestRow r))"
    using assms(1,2) by (simp add: approval_row_members requestRow_def)
  ultimately have "evaluate (rowEvaluator ?ps ACTIONS_ApprovalsRead (requestRow r)) ?ps"
    unfolding rowEvaluator_def ac_any_def evaluate_iff ps
    by (intro bexI [of _ "ac_eval ACTIONS_ApprovalsRead (OneScope (approvalShape ''connector'' c))"])
      (auto simp: evaluate_iff granted_def holds_action_def)
  moreover have "\<not> filterMatches (Some (approvalsReadScopeFilter ?ps)) r"
    unfolding readFilter_matches ps using assms(1,3) by (auto simp: parse requestRow_def)
  ultimately show ?thesis by blast
qed

theorem cluster_approver_list_empty_witness:
  "\<not> filterMatches (Some (approvalsReadScopeFilter (fr_permissions APPROVALS_CLUSTER_APPROVER))) exRequest"
  using cluster_approver_list_empty [of exRequest "''c''"] by (simp add: exRequest_def)

end
