(* ===== verification/Plan_Repo.thy ===== *)
theory Plan_Repo
  imports Prelude
begin

text \<open>
  The remediation plan repository (\<open>data-layer/src/repository/sqlite/remediation-plan.ts\<close>,
  types in \<open>repository/types/remediation-plan.ts\<close>): two tables, plans and steps, with the
  queries and updates the executor and the routes use. JSON columns hold their parsed value.
  Timestamps are integers (milliseconds); generated identifiers are arguments.

  Results: the lookups and updates speak about the same rows: what is read after an update is the
  patched plan or step, and no other row has changed.
\<close>

section \<open>Definitions\<close>

datatype RemediationPlanStatus =
    PlDraft | PlPendingApproval | PlApproved | PlRejected | PlExecuting | PlApplied
  | PlExecutionFailed | PlCompleted | PlFailed | PlExpired | PlCancelled

datatype RemediationPlanVerificationStatus =
    VsNotStarted | VsWaiting | VsPassed | VsFailed | VsInconclusive | VsSkipped

datatype RemediationPlanStepStatus = StPending | StApproved | StExecuting | StDone | StFailed | StSkipped

record RemediationPlanStep =
  ps_id :: string
  ps_planId :: string
  ps_ordinal :: nat
  ps_kindOf :: string
  ps_commandText :: string
  ps_paramsJson :: "(string \<times> json) list"
  ps_dryRunText :: "string option"
  ps_riskNote :: "string option"
  ps_continueOnError :: bool
  ps_status :: RemediationPlanStepStatus
  ps_approvalRequestId :: "string option"
  ps_executedAt :: "int option"
  ps_outputText :: "string option"
  ps_errorText :: "string option"

record PlanRow =
  pl_id :: string
  pl_orgId :: string
  pl_investigationId :: string
  pl_rescueForPlanId :: "string option"
  pl_summary :: string
  pl_status :: RemediationPlanStatus
  pl_linkedAlertRuleId :: "string option"
  pl_targetObject :: "string option"
  pl_validationMethod :: "string option"
  pl_verificationStatus :: RemediationPlanVerificationStatus
  pl_verificationStartedAt :: "int option"
  pl_verificationDeadlineAt :: "int option"
  pl_verificationEvidenceJson :: "json option"
  pl_continuationInvestigationId :: "string option"
  pl_autoEdit :: bool
  pl_approvalRequestId :: "string option"
  pl_createdBy :: string
  pl_createdAt :: int
  pl_expiresAt :: int
  pl_resolvedAt :: "int option"
  pl_resolvedBy :: "string option"

record RemediationPlan = PlanRow +
  pl_steps :: "RemediationPlanStep list"

record plan_db =
  pd_plans :: "PlanRow list"
  pd_steps :: "RemediationPlanStep list"

record NewRemediationPlanStep =
  ns_kind :: string
  ns_commandText :: string
  ns_paramsJson :: "(string \<times> json) list"
  ns_dryRunText :: "string option"
  ns_riskNote :: "string option"
  ns_continueOnError :: "bool option"

record NewRemediationPlan =
  np_id :: "string option"
  np_orgId :: string
  np_investigationId :: string
  np_rescueForPlanId :: "string option"
  np_summary :: string
  np_status :: "RemediationPlanStatus option"
  np_linkedAlertRuleId :: "string option"
  np_targetObject :: "string option"
  np_validationMethod :: "string option"
  np_verificationStatus :: "RemediationPlanVerificationStatus option"
  np_verificationStartedAt :: "int option"
  np_verificationDeadlineAt :: "int option"
  np_verificationEvidenceJson :: "json option"
  np_continuationInvestigationId :: "string option"
  np_autoEdit :: "bool option"
  np_approvalRequestId :: "string option"
  np_createdBy :: string
  np_expiresAt :: "int option"
  np_steps :: "NewRemediationPlanStep list"

text \<open>A patch field is \<open>None\<close> when it is left alone; a nullable column's new value is an option.\<close>

record RemediationPlanPatch =
  pp_status :: "RemediationPlanStatus option"
  pp_linkedAlertRuleId :: "string option option"
  pp_targetObject :: "string option option"
  pp_validationMethod :: "string option option"
  pp_verificationStatus :: "RemediationPlanVerificationStatus option"
  pp_verificationStartedAt :: "int option option"
  pp_verificationDeadlineAt :: "int option option"
  pp_verificationEvidenceJson :: "json option option"
  pp_continuationInvestigationId :: "string option option"
  pp_autoEdit :: "bool option"
  pp_approvalRequestId :: "string option option"
  pp_resolvedAt :: "int option option"
  pp_resolvedBy :: "string option option"

record RemediationPlanStepPatch =
  sp_status :: "RemediationPlanStepStatus option"
  sp_approvalRequestId :: "string option option"
  sp_executedAt :: "int option option"
  sp_outputText :: "string option option"
  sp_errorText :: "string option option"

definition noPlanPatch :: RemediationPlanPatch where
  "noPlanPatch = \<lparr>pp_status = None, pp_linkedAlertRuleId = None, pp_targetObject = None,
     pp_validationMethod = None, pp_verificationStatus = None, pp_verificationStartedAt = None,
     pp_verificationDeadlineAt = None, pp_verificationEvidenceJson = None,
     pp_continuationInvestigationId = None, pp_autoEdit = None, pp_approvalRequestId = None,
     pp_resolvedAt = None, pp_resolvedBy = None\<rparr>"

definition noStepPatch :: RemediationPlanStepPatch where
  "noStepPatch = \<lparr>sp_status = None, sp_approvalRequestId = None, sp_executedAt = None,
     sp_outputText = None, sp_errorText = None\<rparr>"

definition PLAN_TTL_MS :: int where
  "PLAN_TTL_MS = 24 * 60 * 60 * 1000"

definition rowToPlan :: "PlanRow \<Rightarrow> RemediationPlanStep list \<Rightarrow> RemediationPlan" where
  "rowToPlan row steps = PlanRow.extend row (RemediationPlan.fields steps)"

definition stepsOf :: "plan_db \<Rightarrow> string \<Rightarrow> RemediationPlanStep list" where
  "stepsOf db planId = sort_key ps_ordinal (filter (\<lambda>s. ps_planId s = planId) (pd_steps db))"

definition planFromRows :: "plan_db \<Rightarrow> PlanRow list \<Rightarrow> RemediationPlan option" where
  "planFromRows db rows =
     (case rows of [] \<Rightarrow> None | row # _ \<Rightarrow> Some (rowToPlan row (stepsOf db (pl_id row))))"

definition findByIdInOrg :: "plan_db \<Rightarrow> string \<Rightarrow> string \<Rightarrow> RemediationPlan option" where
  "findByIdInOrg db orgId i =
     planFromRows db (filter (\<lambda>p. pl_orgId p = orgId \<and> pl_id p = i) (pd_plans db))"

definition planFindById :: "plan_db \<Rightarrow> string \<Rightarrow> RemediationPlan option" where
  "planFindById db i = planFromRows db (filter (\<lambda>p. pl_id p = i) (pd_plans db))"

definition findByApprovalRequestId :: "plan_db \<Rightarrow> string \<Rightarrow> RemediationPlan option" where
  "findByApprovalRequestId db a =
     planFromRows db (filter (\<lambda>p. pl_approvalRequestId p = Some a
        \<or> list_ex (\<lambda>s. ps_planId s = pl_id p \<and> ps_approvalRequestId s = Some a) (pd_steps db)) (pd_plans db))"

definition newStepRow :: "string \<Rightarrow> string \<Rightarrow> nat \<Rightarrow> NewRemediationPlanStep \<Rightarrow> RemediationPlanStep" where
  "newStepRow stepId planId i st =
     \<lparr>ps_id = stepId, ps_planId = planId, ps_ordinal = i, ps_kindOf = ns_kind st,
      ps_commandText = ns_commandText st, ps_paramsJson = ns_paramsJson st,
      ps_dryRunText = ns_dryRunText st, ps_riskNote = ns_riskNote st,
      ps_continueOnError = or_default (ns_continueOnError st) False, ps_status = StPending,
      ps_approvalRequestId = None, ps_executedAt = None, ps_outputText = None, ps_errorText = None\<rparr>"

definition newPlanRow :: "string \<Rightarrow> int \<Rightarrow> NewRemediationPlan \<Rightarrow> PlanRow" where
  "newPlanRow i now inp =
     \<lparr>pl_id = i, pl_orgId = np_orgId inp, pl_investigationId = np_investigationId inp,
      pl_rescueForPlanId = np_rescueForPlanId inp, pl_summary = np_summary inp,
      pl_status = or_default (np_status inp) PlPendingApproval,
      pl_linkedAlertRuleId = np_linkedAlertRuleId inp, pl_targetObject = np_targetObject inp,
      pl_validationMethod = np_validationMethod inp,
      pl_verificationStatus = or_default (np_verificationStatus inp) VsNotStarted,
      pl_verificationStartedAt = np_verificationStartedAt inp,
      pl_verificationDeadlineAt = np_verificationDeadlineAt inp,
      pl_verificationEvidenceJson = np_verificationEvidenceJson inp,
      pl_continuationInvestigationId = np_continuationInvestigationId inp,
      pl_autoEdit = or_default (np_autoEdit inp) False,
      pl_approvalRequestId = np_approvalRequestId inp, pl_createdBy = np_createdBy inp,
      pl_createdAt = now, pl_expiresAt = or_default (np_expiresAt inp) (now + PLAN_TTL_MS),
      pl_resolvedAt = None, pl_resolvedBy = None\<rparr>"

text \<open>
  Creating a plan and its steps in one transaction: a duplicate plan id or step key aborts it
  (\<open>None\<close>) without effect. \<open>stepIdOf\<close> gives the generated step identifiers.
\<close>

definition planCreate :: "plan_db \<Rightarrow> string \<Rightarrow> (nat \<Rightarrow> string) \<Rightarrow> int \<Rightarrow> NewRemediationPlan
    \<Rightarrow> (RemediationPlan \<times> plan_db) option" where
  "planCreate db genId stepIdOf now inp =
     (let i = or_default (np_id inp) genId;
          row = newPlanRow i now inp;
          steps = map (\<lambda>(n, st). newStepRow (stepIdOf n) i n st) (enumerate 0 (np_steps inp));
          db' = \<lparr>pd_plans = pd_plans db @ [row], pd_steps = pd_steps db @ steps\<rparr>
      in if list_ex (\<lambda>p. pl_id p = i) (pd_plans db) \<or> list_ex (\<lambda>s. ps_planId s = i) (pd_steps db) \<and> steps \<noteq> []
         then None
         else Some (rowToPlan row (stepsOf db' i), db'))"

definition planPatched :: "RemediationPlanPatch \<Rightarrow> PlanRow \<Rightarrow> PlanRow" where
  "planPatched p r =
     r\<lparr>pl_status := or_default (pp_status p) (pl_status r),
       pl_linkedAlertRuleId := or_default (pp_linkedAlertRuleId p) (pl_linkedAlertRuleId r),
       pl_targetObject := or_default (pp_targetObject p) (pl_targetObject r),
       pl_validationMethod := or_default (pp_validationMethod p) (pl_validationMethod r),
       pl_verificationStatus := or_default (pp_verificationStatus p) (pl_verificationStatus r),
       pl_verificationStartedAt := or_default (pp_verificationStartedAt p) (pl_verificationStartedAt r),
       pl_verificationDeadlineAt := or_default (pp_verificationDeadlineAt p) (pl_verificationDeadlineAt r),
       pl_verificationEvidenceJson := or_default (pp_verificationEvidenceJson p) (pl_verificationEvidenceJson r),
       pl_continuationInvestigationId :=
         or_default (pp_continuationInvestigationId p) (pl_continuationInvestigationId r),
       pl_autoEdit := or_default (pp_autoEdit p) (pl_autoEdit r),
       pl_approvalRequestId := or_default (pp_approvalRequestId p) (pl_approvalRequestId r),
       pl_resolvedAt := or_default (pp_resolvedAt p) (pl_resolvedAt r),
       pl_resolvedBy := or_default (pp_resolvedBy p) (pl_resolvedBy r)\<rparr>"

text \<open>The id is the primary key, so the patched row is the row that was read.\<close>

definition updatePlan :: "plan_db \<Rightarrow> string \<Rightarrow> string \<Rightarrow> RemediationPlanPatch \<Rightarrow> RemediationPlan option \<times> plan_db" where
  "updatePlan db orgId i patch =
     (case findByIdInOrg db orgId i of
        None \<Rightarrow> (None, db)
      | Some _ \<Rightarrow>
          let db' = db\<lparr>pd_plans := map (\<lambda>r. if pl_orgId r = orgId \<and> pl_id r = i
                then planPatched patch r else r) (pd_plans db)\<rparr>
          in (findByIdInOrg db' orgId i, db'))"

definition stepPatched :: "RemediationPlanStepPatch \<Rightarrow> RemediationPlanStep \<Rightarrow> RemediationPlanStep" where
  "stepPatched p s =
     s\<lparr>ps_status := or_default (sp_status p) (ps_status s),
       ps_approvalRequestId := or_default (sp_approvalRequestId p) (ps_approvalRequestId s),
       ps_executedAt := or_default (sp_executedAt p) (ps_executedAt s),
       ps_outputText := or_default (sp_outputText p) (ps_outputText s),
       ps_errorText := or_default (sp_errorText p) (ps_errorText s)\<rparr>"

text \<open>The pair of plan and ordinal is unique, so the patched row is the row that was read.\<close>

definition updateStep :: "plan_db \<Rightarrow> string \<Rightarrow> nat \<Rightarrow> RemediationPlanStepPatch
    \<Rightarrow> RemediationPlanStep option \<times> plan_db" where
  "updateStep db planId ordinal patch =
     (let hit = (\<lambda>s. ps_planId s = planId \<and> ps_ordinal s = ordinal) in
      case List.find hit (pd_steps db) of
        None \<Rightarrow> (None, db)
      | Some _ \<Rightarrow>
          let db' = db\<lparr>pd_steps := map (\<lambda>s. if hit s then stepPatched patch s else s) (pd_steps db)\<rparr>
          in (List.find hit (pd_steps db'), db'))"

definition planDelete :: "plan_db \<Rightarrow> string \<Rightarrow> string \<Rightarrow> bool \<times> plan_db" where
  "planDelete db orgId i =
     (case findByIdInOrg db orgId i of
        None \<Rightarrow> (False, db)
      | Some _ \<Rightarrow>
          (True, \<lparr>pd_plans = filter (\<lambda>p. \<not> (pl_orgId p = orgId \<and> pl_id p = i)) (pd_plans db),
                  pd_steps = filter (\<lambda>s. ps_planId s \<noteq> i) (pd_steps db)\<rparr>))"

definition isStale :: "int \<Rightarrow> PlanRow \<Rightarrow> bool" where
  "isStale now p \<longleftrightarrow> pl_status p = PlPendingApproval \<and> pl_expiresAt p \<le> now"

definition expireStale :: "plan_db \<Rightarrow> int \<Rightarrow> nat \<times> plan_db" where
  "expireStale db now =
     (let stale = filter (isStale now) (pd_plans db) in
      if length stale = 0 then (0, db)
      else (length stale, db\<lparr>pd_plans := map (\<lambda>p. if isStale now p then p\<lparr>pl_status := PlExpired\<rparr> else p) (pd_plans db)\<rparr>))"

definition listAppliedAwaitingVerification :: "plan_db \<Rightarrow> nat \<Rightarrow> RemediationPlan list" where
  "listAppliedAwaitingVerification db limit =
     map (\<lambda>r. rowToPlan r (stepsOf db (pl_id r)))
       (take limit (sort_key pl_createdAt
         (filter (\<lambda>p. pl_status p = PlApplied \<and> pl_verificationStatus p = VsNotStarted) (pd_plans db))))"

subsection \<open>Specification vocabulary\<close>

definition planKeys :: "plan_db \<Rightarrow> bool" where
  "planKeys db \<longleftrightarrow> distinct (map pl_id (pd_plans db))
     \<and> distinct (map (\<lambda>s. (ps_planId s, ps_ordinal s)) (pd_steps db))"

text \<open>The pending step rows of a plan, counted: what an execution run uses up.\<close>

definition pendingCount :: "plan_db \<Rightarrow> string \<Rightarrow> nat" where
  "pendingCount db planId = length (filter (\<lambda>s. ps_planId s = planId \<and> ps_status s = StPending) (pd_steps db))"

section \<open>Lemmas\<close>

lemma rowToPlan_simps [simp]:
  "pl_id (rowToPlan r ss) = pl_id r" "pl_orgId (rowToPlan r ss) = pl_orgId r"
  "pl_status (rowToPlan r ss) = pl_status r" "pl_autoEdit (rowToPlan r ss) = pl_autoEdit r"
  "pl_steps (rowToPlan r ss) = ss" "pl_createdBy (rowToPlan r ss) = pl_createdBy r"
  "pl_investigationId (rowToPlan r ss) = pl_investigationId r"
  "pl_approvalRequestId (rowToPlan r ss) = pl_approvalRequestId r"
  by (cases r, simp add: rowToPlan_def PlanRow.defs RemediationPlan.defs)+

lemma rowToPlan_verification [simp]:
  "pl_verificationStatus (rowToPlan r ss) = pl_verificationStatus r"
  "pl_verificationDeadlineAt (rowToPlan r ss) = pl_verificationDeadlineAt r"
  "pl_verificationStartedAt (rowToPlan r ss) = pl_verificationStartedAt r"
  "pl_linkedAlertRuleId (rowToPlan r ss) = pl_linkedAlertRuleId r"
  by (cases r, simp add: rowToPlan_def PlanRow.defs RemediationPlan.defs)+

lemma find_SomeD:
  assumes "findByIdInOrg db orgId i = Some p"
  shows "pl_id p = i \<and> pl_orgId p = orgId \<and> pl_steps p = stepsOf db i
    \<and> (\<exists>r\<in>set (pd_plans db). pl_id r = i \<and> pl_orgId r = orgId \<and> p = rowToPlan r (stepsOf db i))"
proof -
  obtain r rs where f: "filter (\<lambda>p. pl_orgId p = orgId \<and> pl_id p = i) (pd_plans db) = r # rs"
      "p = rowToPlan r (stepsOf db (pl_id r))"
    using assms by (auto simp: findByIdInOrg_def planFromRows_def split: list.splits)
  have "r \<in> set (filter (\<lambda>p. pl_orgId p = orgId \<and> pl_id p = i) (pd_plans db))" using f(1) by simp
  then show ?thesis using f(2) by auto
qed

lemma set_stepsOf [simp]: "set (stepsOf db i) = {s \<in> set (pd_steps db). ps_planId s = i}"
  by (auto simp: stepsOf_def)

lemma planPatched_simps [simp]:
  "pl_id (planPatched p r) = pl_id r" "pl_orgId (planPatched p r) = pl_orgId r"
  "pl_status (planPatched p r) = or_default (pp_status p) (pl_status r)"
  "pl_autoEdit (planPatched p r) = or_default (pp_autoEdit p) (pl_autoEdit r)"
  "pl_resolvedBy (planPatched p r) = or_default (pp_resolvedBy p) (pl_resolvedBy r)"
  "pl_verificationStatus (planPatched p r) = or_default (pp_verificationStatus p) (pl_verificationStatus r)"
  by (simp_all add: planPatched_def)

lemma stepPatched_simps [simp]:
  "ps_planId (stepPatched p s) = ps_planId s" "ps_ordinal (stepPatched p s) = ps_ordinal s"
  "ps_kindOf (stepPatched p s) = ps_kindOf s" "ps_continueOnError (stepPatched p s) = ps_continueOnError s"
  "ps_paramsJson (stepPatched p s) = ps_paramsJson s"
  "ps_status (stepPatched p s) = or_default (sp_status p) (ps_status s)"
  by (simp_all add: stepPatched_def)

text \<open>The two updates as maps over their tables (a miss changes nothing).\<close>

lemma updateStep_db:
  "snd (updateStep db planId n patch) =
     db\<lparr>pd_steps := map (\<lambda>s. if ps_planId s = planId \<and> ps_ordinal s = n then stepPatched patch s else s) (pd_steps db)\<rparr>"
proof (cases "List.find (\<lambda>s. ps_planId s = planId \<and> ps_ordinal s = n) (pd_steps db)")
  case None
  then have "\<forall>s\<in>set (pd_steps db). \<not> (ps_planId s = planId \<and> ps_ordinal s = n)" by (simp only: find_None_all)
  then have "map (\<lambda>s. if ps_planId s = planId \<and> ps_ordinal s = n then stepPatched patch s else s) (pd_steps db) = pd_steps db"
    by (intro map_idI) auto
  then show ?thesis using None by (simp add: updateStep_def Let_def)
next
  case (Some s)
  then show ?thesis by (simp add: updateStep_def Let_def)
qed

lemma findByIdInOrg_None:
  "findByIdInOrg db orgId i = None \<longleftrightarrow> (\<forall>p\<in>set (pd_plans db). \<not> (pl_orgId p = orgId \<and> pl_id p = i))"
proof -
  have "planFromRows db rows = None \<longleftrightarrow> rows = []" for rows
    by (simp add: planFromRows_def split: list.splits)
  then show ?thesis by (simp add: findByIdInOrg_def filter_empty_conv)
qed

lemma updatePlan_db:
  "snd (updatePlan db orgId i patch) =
     db\<lparr>pd_plans := map (\<lambda>r. if pl_orgId r = orgId \<and> pl_id r = i then planPatched patch r else r) (pd_plans db)\<rparr>"
proof (cases "findByIdInOrg db orgId i")
  case None
  then have "map (\<lambda>r. if pl_orgId r = orgId \<and> pl_id r = i then planPatched patch r else r) (pd_plans db) = pd_plans db"
    unfolding findByIdInOrg_None by (intro map_idI) auto
  then show ?thesis using None by (simp add: updatePlan_def)
next
  case (Some p)
  then show ?thesis by (simp add: updatePlan_def Let_def)
qed

text \<open>What an update of an existing plan returns and leaves to be read.\<close>

lemma updatePlan_found:
  assumes "findByIdInOrg db og p = Some plan"
  shows "\<exists>plan'. fst (updatePlan db og p patch) = Some plan' \<and> findByIdInOrg (snd (updatePlan db og p patch)) og p = Some plan'
    \<and> pl_status plan' = or_default (pp_status patch) (pl_status plan)
    \<and> pl_autoEdit plan' = or_default (pp_autoEdit patch) (pl_autoEdit plan)
    \<and> pl_verificationStatus plan' = or_default (pp_verificationStatus patch) (pl_verificationStatus plan)"
proof -
  let ?f = "\<lambda>r. if pl_orgId r = og \<and> pl_id r = p then planPatched patch r else r"
  have "filter (\<lambda>r. pl_orgId r = og \<and> pl_id r = p) (map ?f rs) = map ?f (filter (\<lambda>r. pl_orgId r = og \<and> pl_id r = p) rs)" for rs
    by (induction rs) auto
  moreover obtain r rs where f: "filter (\<lambda>r. pl_orgId r = og \<and> pl_id r = p) (pd_plans db) = r # rs"
      "plan = rowToPlan r (stepsOf db (pl_id r))"
    using assms by (auto simp: findByIdInOrg_def planFromRows_def split: list.splits)
  moreover have "pl_orgId r = og \<and> pl_id r = p" using f(1) by (metis (mono_tags, lifting) filter_eq_ConsD)
  ultimately have "\<exists>plan'. findByIdInOrg (snd (updatePlan db og p patch)) og p = Some plan'
      \<and> pl_status plan' = or_default (pp_status patch) (pl_status plan)
      \<and> pl_autoEdit plan' = or_default (pp_autoEdit patch) (pl_autoEdit plan)
      \<and> pl_verificationStatus plan' = or_default (pp_verificationStatus patch) (pl_verificationStatus plan)"
    by (simp add: updatePlan_db findByIdInOrg_def planFromRows_def)
  moreover have "fst (updatePlan db og p patch) = findByIdInOrg (snd (updatePlan db og p patch)) og p"
    using assms by (simp add: updatePlan_def Let_def)
  ultimately show ?thesis by simp
qed

end
