(* ===== verification/Plan_Namespaces.thy ===== *)
theory Plan_Namespaces
  imports Plan_Repo Kubectl_Allowlist
begin

text \<open>
  The namespaces of a plan (\<open>api-gateway/src/services/plan-namespaces.ts\<close>). The executor
  records the namespace read here as the one an approval is about; the command policy reads the
  namespace of the same arguments with its own parser.

  Results: the two readers agree on arguments with one namespace flag and disagree on arguments
  with two: the approval names the first, the policy (and kubectl) act on the last. A plan
  step that runs a script in the cluster does not make a plan cluster scoped.
\<close>

section \<open>Definitions\<close>

fun readNamespaceFromArgv :: "string list \<Rightarrow> string option" where
  "readNamespaceFromArgv [] = None"
| "readNamespaceFromArgv (tok # rest) =
     (if tok = ''-n'' \<or> tok = ''--namespace''
      then (case rest of [] \<Rightarrow> None | v # _ \<Rightarrow> if length v > 0 then Some v else None)
      else if starts_with ''--namespace='' tok
      then (let v = slice_from (length ''--namespace='') tok in if length v > 0 then Some v else None)
      else readNamespaceFromArgv rest)"

text \<open>
  The same on the untyped array of a stored step: a value that is neither a string nor null
  makes \<open>startsWith\<close> throw (\<open>None\<close>) if it is reached.
\<close>

fun namespaceOfJson :: "json list \<Rightarrow> string option option" where
  "namespaceOfJson [] = Some None"
| "namespaceOfJson (JStr tok # rest) =
     (if tok = ''-n'' \<or> tok = ''--namespace''
      then Some (case rest of JStr v # _ \<Rightarrow> if length v > 0 then Some v else None | _ \<Rightarrow> None)
      else if starts_with ''--namespace='' tok
      then Some (let v = slice_from (length ''--namespace='') tok in if length v > 0 then Some v else None)
      else namespaceOfJson rest)"
| "namespaceOfJson (JNull # rest) = namespaceOfJson rest"
| "namespaceOfJson (_ # rest) = None"

record PlanNamespaceSummary =
  nsm_namespaces :: "string list"
  nsm_hasClusterScoped :: bool

fun namespaceLoop :: "RemediationPlanStep list \<Rightarrow> string list \<Rightarrow> bool \<Rightarrow> (string list \<times> bool) option" where
  "namespaceLoop [] nss cluster = Some (nss, cluster)"
| "namespaceLoop (step # steps) nss cluster =
     (if ps_kindOf step \<noteq> ''ops.run_command'' then namespaceLoop steps nss cluster
      else (case prop_of (ps_paramsJson step) ''argv'' of
              Some (JArr argv) \<Rightarrow>
                (case namespaceOfJson argv of
                   None \<Rightarrow> None
                 | Some None \<Rightarrow> namespaceLoop steps nss True
                 | Some (Some ns) \<Rightarrow> namespaceLoop steps (List.insert ns nss) cluster)
            | _ \<Rightarrow> namespaceLoop steps nss True))"

definition extractPlanNamespaces :: "RemediationPlan \<Rightarrow> PlanNamespaceSummary option" where
  "extractPlanNamespaces plan =
     map_option (\<lambda>(nss, cluster). \<lparr>nsm_namespaces = sort nss, nsm_hasClusterScoped = cluster\<rparr>)
       (namespaceLoop (pl_steps plan) [] False)"

section \<open>Lemmas\<close>

text \<open>A token neither reader takes for a namespace flag, nor the policy for impersonation.\<close>

definition neutral :: "string \<Rightarrow> bool" where
  "neutral tok \<longleftrightarrow> tok \<noteq> ''-n'' \<and> tok \<noteq> ''--namespace'' \<and> tok \<noteq> ''--as''
     \<and> \<not> starts_with ''--namespace='' tok \<and> \<not> starts_with ''--as='' tok"

lemma read_skip: "list_all neutral pre \<Longrightarrow> readNamespaceFromArgv (pre @ rest) = readNamespaceFromArgv rest"
  by (induction pre) (auto simp: neutral_def)

lemma argvLoop_skip: "list_all neutral pre \<Longrightarrow> fst (argvLoop (pre @ rest) ns as) = fst (argvLoop rest ns as)"
  by (induction pre) (auto simp: neutral_def split: prod.splits)

lemma argvLoop_done: "list_all neutral post \<Longrightarrow> fst (argvLoop post ns as) = ns"
  using argvLoop_skip [of post "[]" ns as] by simp

lemma argvLoop_flag: "argvLoop (''-n'' # v # rest) ns as = argvLoop rest (Some v) as"
  by simp

lemma read_flag: "v \<noteq> [] \<Longrightarrow> readNamespaceFromArgv (''-n'' # v # rest) = Some v"
  by simp

lemma policy_namespace: "pk_namespace (parseKubectlArgv argv) = fst (argvLoop argv None False)"
  by (simp add: parseKubectlArgv_def Let_def split: prod.splits)

lemma json_strings: "namespaceOfJson (map JStr argv) = Some (readNamespaceFromArgv argv)"
proof (induction argv)
  case (Cons tok rest)
  then show ?case by (cases rest) auto
qed simp

section \<open>Properties\<close>

text \<open>Which namespace an approval is about. On arguments with one namespace flag the reader of
  the executor and the parser of the command policy agree. With two flags the approval names the
  first while the policy checks the last.\<close>

theorem namespace_readers_agree_once:
  assumes "list_all neutral pre" "list_all neutral mid" "list_all neutral post" "a \<noteq> []"
  shows "readNamespaceFromArgv (pre @ ''-n'' # a # post) = Some a
    \<and> pk_namespace (parseKubectlArgv (pre @ ''-n'' # a # post)) = Some a
    \<and> readNamespaceFromArgv (pre @ ''-n'' # a # mid @ ''-n'' # b # post) = Some a
    \<and> pk_namespace (parseKubectlArgv (pre @ ''-n'' # a # mid @ ''-n'' # b # post)) = Some b"
proof (intro conjI)
  show "readNamespaceFromArgv (pre @ ''-n'' # a # post) = Some a"
    "readNamespaceFromArgv (pre @ ''-n'' # a # mid @ ''-n'' # b # post) = Some a"
    unfolding read_skip [OF assms(1)] by (rule read_flag [OF assms(4)])+
  show "pk_namespace (parseKubectlArgv (pre @ ''-n'' # a # post)) = Some a"
    unfolding policy_namespace argvLoop_skip [OF assms(1)] argvLoop_flag by (rule argvLoop_done [OF assms(3)])
  show "pk_namespace (parseKubectlArgv (pre @ ''-n'' # a # mid @ ''-n'' # b # post)) = Some b"
    unfolding policy_namespace argvLoop_skip [OF assms(1)] argvLoop_flag argvLoop_skip [OF assms(2)]
    by (rule argvLoop_done [OF assms(3)])
qed

theorem namespace_readers_agree_once_witness:
  "readNamespaceFromArgv ([''delete'', ''pod'', ''x''] @ ''-n'' # ''app'' # [] @ ''-n'' # ''payments'' # []) = Some ''app''
   \<and> pk_namespace (parseKubectlArgv ([''delete'', ''pod'', ''x''] @ ''-n'' # ''app'' # [] @ ''-n'' # ''payments'' # [])) = Some ''payments''"
proof -
  have "list_all neutral [''delete'', ''pod'', ''x'']" by code_simp
  from namespace_readers_agree_once [OF this, of "[]" "[]" "''app''" "''payments''"] show ?thesis by simp
qed

text \<open>The summary of a plan. For a plan whose command steps carry string arguments, the summary
  exists; it lists exactly the namespaces its command steps read, and it is marked cluster scoped
  exactly when a command step reads none. Steps of any other kind, a script run in the cluster
  included, leave no trace in it.\<close>

theorem extractPlanNamespaces_exact:
  assumes "\<forall>s\<in>set (pl_steps plan). ps_kindOf s = ''ops.run_command'' \<longrightarrow>
      prop_of (ps_paramsJson s) ''argv'' = Some (JArr (map JStr (argvOf s)))"
  shows "\<exists>m. extractPlanNamespaces plan = Some m
    \<and> set (nsm_namespaces m) = {ns. \<exists>s\<in>set (pl_steps plan). ps_kindOf s = ''ops.run_command''
          \<and> readNamespaceFromArgv (argvOf s) = Some ns}
    \<and> sorted (nsm_namespaces m)
    \<and> nsm_hasClusterScoped m = (\<exists>s\<in>set (pl_steps plan). ps_kindOf s = ''ops.run_command''
          \<and> readNamespaceFromArgv (argvOf s) = None)"
proof -
  have "\<exists>nss' c'. namespaceLoop steps nss c = Some (nss', c')
      \<and> set nss' = set nss \<union> {ns. \<exists>s\<in>set steps. ps_kindOf s = ''ops.run_command'' \<and> readNamespaceFromArgv (argvOf s) = Some ns}
      \<and> c' = (c \<or> (\<exists>s\<in>set steps. ps_kindOf s = ''ops.run_command'' \<and> readNamespaceFromArgv (argvOf s) = None))"
    if "\<forall>s\<in>set steps. ps_kindOf s = ''ops.run_command'' \<longrightarrow>
      prop_of (ps_paramsJson s) ''argv'' = Some (JArr (map JStr (argvOf s)))" for steps nss c
    using that
  proof (induction steps arbitrary: nss c)
    case Nil
    then show ?case by simp
  next
    case (Cons s steps)
    note IH = Cons.IH [OF ballI [OF bspec [OF Cons.prems list.set_intros(2)]]]
    show ?case
    proof (cases "ps_kindOf s = ''ops.run_command''")
      case False
      then show ?thesis using IH [of nss c] by (simp only: namespaceLoop.simps) auto
    next
      case True
      then have argv: "prop_of (ps_paramsJson s) ''argv'' = Some (JArr (map JStr (argvOf s)))"
        using Cons.prems by simp
      show ?thesis
      proof (cases "readNamespaceFromArgv (argvOf s)")
        case None
        then show ?thesis using IH [of nss True] True argv json_strings [of "argvOf s"]
          by (simp only: namespaceLoop.simps) auto
      next
        case (Some ns)
        then show ?thesis using IH [of "List.insert ns nss" c] True argv json_strings [of "argvOf s"]
          by (simp only: namespaceLoop.simps) auto
      qed
    qed
  qed
  from this [OF assms, of "[]" False] show ?thesis
    by (auto simp: extractPlanNamespaces_def)
qed

definition exNewStep :: "string \<Rightarrow> (string \<times> json) list \<Rightarrow> NewRemediationPlanStep" where
  "exNewStep k params = \<lparr>ns_kind = k, ns_commandText = ''command'', ns_paramsJson = params, ns_dryRunText = None,
     ns_riskNote = None, ns_continueOnError = None\<rparr>"

definition exArgvParams :: "(string \<times> json) list" where
  "exArgvParams = [(''argv'', JArr [JStr ''scale'', JStr ''-n'', JStr ''app'']), (''connectorId'', JStr ''c'')]"

definition exShellParams :: "(string \<times> json) list" where
  "exShellParams = [(''script'', JStr ''true''), (''scope'', JStr ''cluster''), (''connectorId'', JStr ''c'')]"

definition exNewPlan :: "NewRemediationPlanStep list \<Rightarrow> NewRemediationPlan" where
  "exNewPlan steps = \<lparr>np_id = Some ''p'', np_orgId = ''org'', np_investigationId = ''i'', np_rescueForPlanId = None,
     np_summary = ''s'', np_status = None, np_linkedAlertRuleId = None, np_targetObject = None,
     np_validationMethod = None, np_verificationStatus = None, np_verificationStartedAt = None,
     np_verificationDeadlineAt = None, np_verificationEvidenceJson = None, np_continuationInvestigationId = None,
     np_autoEdit = None, np_approvalRequestId = None, np_createdBy = ''agent'', np_expiresAt = None,
     np_steps = steps\<rparr>"

definition exPlan :: RemediationPlan where
  "exPlan = rowToPlan (newPlanRow ''p'' 0 (exNewPlan []))
     [newStepRow ''s0'' ''p'' 0 (exNewStep ''ops.run_command'' exArgvParams),
      newStepRow ''s1'' ''p'' 1 (exNewStep ''ops.cluster_shell'' exShellParams)]"

theorem extractPlanNamespaces_exact_witness:
  "\<exists>m. extractPlanNamespaces exPlan = Some m \<and> set (nsm_namespaces m) = {''app''} \<and> \<not> nsm_hasClusterScoped m"
proof -
  let ?argvOf = "\<lambda>s. [''scale'', ''-n'', ''app'']"
  have "\<forall>s\<in>set (pl_steps exPlan). ps_kindOf s = ''ops.run_command'' \<longrightarrow>
      prop_of (ps_paramsJson s) ''argv'' = Some (JArr (map JStr (?argvOf s)))"
    by (simp add: exPlan_def newStepRow_def exNewStep_def exArgvParams_def prop_of_def)
  from extractPlanNamespaces_exact [OF this] show ?thesis
    by (auto simp add: exPlan_def newStepRow_def exNewStep_def starts_with_def)
qed

end
