(* ===== verification/Plan_Executor.thy ===== *)
theory Plan_Executor
  imports Plan_Repo Plan_Namespaces Approval_Repo
begin

text \<open>
  The plan executor (\<open>api-gateway/src/services/plan-executor-service.ts\<close>). Its state is the plan
  tables, the approval store, the outside world the execution adapters act on, the audit trail,
  and a trace of adapter calls that the code does not keep. The adapter (resolution and execution
  in one), the generator of approval identifiers and the team lookup are parameters, and the
  clock is a field. An operation returns the new state beside its outcome or its thrown error:
  an exception does not undo earlier writes.
\<close>

section \<open>Definitions\<close>

text \<open>Decimal printing, for the messages.\<close>

fun dec :: "nat \<Rightarrow> string" where
  "dec n = (if n < 10 then [char_of (48 + n)] else dec (n div 10) @ [char_of (48 + n mod 10)])"

declare dec.simps [simp del]

definition STDIO_CAP_BYTES :: int where
  "STDIO_CAP_BYTES = 64 * 1024"

text \<open>
  An adapter call throws, or returns a success flag, its output as printed text (\<open>undefined\<close>
  prints to nothing) and an error message that may be missing.
\<close>

datatype AdapterResult = AdThrew string | AdReturned bool "string option" "string option"

record AdapterAction =
  ac_type :: string
  ac_targetService :: string
  ac_params :: "(string \<times> json) list"

record 'w PlanExecutorOptions =
  po_adapter :: "'w \<Rightarrow> RemediationPlan \<Rightarrow> RemediationPlanStep \<Rightarrow> AdapterAction \<Rightarrow> AdapterResult \<times> 'w"
  po_hasApprovals :: bool
  po_hasAudit :: bool
  po_newId :: "approval_store \<Rightarrow> string"
  po_resolveRequesterTeamId :: "(string \<Rightarrow> string \<Rightarrow> string option) option"

record AuditEntry =
  au_action :: string
  au_actorType :: string
  au_actorId :: string
  au_orgId :: string
  au_targetType :: string
  au_targetId :: string
  au_outcome :: string
  au_metadata :: "(string \<times> json) list"

record 'w exec_state =
  es_db :: plan_db
  es_approvals :: approval_store
  es_world :: 'w
  es_now :: int
  es_audit :: "AuditEntry list"
  es_calls :: "(string \<times> nat) list"

datatype PlanExecutorOutcome =
    PausedForApproval nat string
  | Completed
  | Failed int string
  | Cancelled

datatype ExecError =
    EPlanNotFound string
  | EPlanStatus string RemediationPlanStatus string
  | EStepNotFound nat string
  | EStepStatus nat RemediationPlanStepStatus
  | EPlanDisappeared string
  | EStepDisappeared nat
  | EApprovalsRequired
  | EApprovalNotFound string
  | ENotPlanStepApproval string

record OpsRunCommandStepParams =
  rc_argv :: "string list"
  rc_connectorId :: string

record OpsClusterShellStepParams =
  cs_script :: string
  cs_scope :: string
  cs_namespace :: "string option"
  cs_image :: "string option"
  cs_connectorId :: string

text \<open>A non-empty string property.\<close>

definition strProp :: "(string \<times> json) list \<Rightarrow> string \<Rightarrow> string option" where
  "strProp obj k = (case json_str (prop_of obj k) of None \<Rightarrow> None | Some s \<Rightarrow> if s = [] then None else Some s)"

fun allStrings :: "json list \<Rightarrow> string list option" where
  "allStrings [] = Some []"
| "allStrings (JStr s # js) = map_option ((#) s) (allStrings js)"
| "allStrings (_ # js) = None"

definition readOpsRunCommandParams :: "RemediationPlanStep \<Rightarrow> OpsRunCommandStepParams option" where
  "readOpsRunCommandParams step =
     (if ps_kindOf step \<noteq> ''ops.run_command'' then None
      else (case prop_of (ps_paramsJson step) ''argv'' of
              Some (JArr js) \<Rightarrow>
                (case (allStrings js, strProp (ps_paramsJson step) ''connectorId'') of
                   (Some argv, Some c) \<Rightarrow> Some \<lparr>rc_argv = argv, rc_connectorId = c\<rparr>
                 | _ \<Rightarrow> None)
            | _ \<Rightarrow> None))"

definition readClusterShellParams :: "RemediationPlanStep \<Rightarrow> OpsClusterShellStepParams option" where
  "readClusterShellParams step =
     (if ps_kindOf step \<noteq> ''ops.cluster_shell'' then None
      else let f = ps_paramsJson step; scope = json_str (prop_of f ''scope''); ns = strProp f ''namespace'' in
        (case (strProp f ''script'', strProp f ''connectorId'') of
           (Some script, Some c) \<Rightarrow>
             if scope \<noteq> Some ''cluster'' \<and> scope \<noteq> Some ''namespace'' then None
             else if scope = Some ''namespace'' \<and> ns = None then None
             else Some \<lparr>cs_script = script, cs_scope = the scope, cs_namespace = ns,
                    cs_image = strProp f ''image'', cs_connectorId = c\<rparr>
         | _ \<Rightarrow> None))"

definition capabilityForClusterShell :: "string \<Rightarrow> string" where
  "capabilityForClusterShell scope = ''runtime.cluster_shell.'' @ scope"

text \<open>The last \<open>cap\<close> characters; a missing or empty text is null.\<close>

definition truncate :: "string option \<Rightarrow> int \<Rightarrow> string option" where
  "truncate s cap =
     (case s of
        None \<Rightarrow> None
      | Some t \<Rightarrow> if t = [] then None
          else Some (if int (length t) \<le> cap then t else drop (nat (int (length t) - cap)) t))"

definition capabilityForKubectlArgv :: "string list \<Rightarrow> string" where
  "capabilityForKubectlArgv argv =
     (let verb = or_default (js_at argv 0) [] in
      if verb = ''scale'' then ''runtime.scale''
      else if verb = ''rollout'' then ''runtime.rollout''
      else if verb = ''restart'' then ''runtime.restart''
      else if verb = ''delete'' then ''runtime.delete''
      else if verb = ''logs'' then ''runtime.logs''
      else if verb = ''events'' then ''runtime.events''
      else if verb = ''get'' then ''runtime.get''
      else if verb = ''list'' then ''runtime.list''
      else ''runtime.'' @ (if verb = [] then ''unknown'' else verb))"

subsection \<open>State updates\<close>

definition setStep :: "'w exec_state \<Rightarrow> string \<Rightarrow> nat \<Rightarrow> RemediationPlanStepPatch \<Rightarrow> 'w exec_state" where
  "setStep st planId ordinal patch = st\<lparr>es_db := snd (updateStep (es_db st) planId ordinal patch)\<rparr>"

definition setPlan :: "'w exec_state \<Rightarrow> string \<Rightarrow> string \<Rightarrow> RemediationPlanPatch \<Rightarrow> 'w exec_state" where
  "setPlan st orgId planId patch = st\<lparr>es_db := snd (updatePlan (es_db st) orgId planId patch)\<rparr>"

definition optField :: "string \<Rightarrow> string option \<Rightarrow> (string \<times> json) list" where
  "optField k v = (case v of None \<Rightarrow> [] | Some s \<Rightarrow> [(k, JStr s)])"

definition errField :: "string option \<Rightarrow> (string \<times> json) list" where
  "errField errMsg = (if truthy errMsg then [(''error'', JStr (take 512 (the errMsg)))] else [])"

definition auditRow :: "RemediationPlan \<Rightarrow> RemediationPlanStep \<Rightarrow> bool \<Rightarrow> (string \<times> json) list \<Rightarrow> AuditEntry" where
  "auditRow plan step ok meta =
     \<lparr>au_action = ''agent.plan_step'', au_actorType = ''service_account'', au_actorId = pl_createdBy plan,
      au_orgId = pl_orgId plan, au_targetType = ''remediation_plan_step'',
      au_targetId = pl_id plan @ '':'' @ dec (ps_ordinal step),
      au_outcome = (if ok then ''success'' else ''failure''), au_metadata = meta\<rparr>"

definition stepMeta :: "RemediationPlan \<Rightarrow> RemediationPlanStep \<Rightarrow> (string \<times> json) list" where
  "stepMeta plan step = [(''planId'', JStr (pl_id plan)), (''stepOrdinal'', JNum (int (ps_ordinal step))),
     (''kind'', JStr (ps_kindOf step))]"

definition auditRun :: "'w PlanExecutorOptions \<Rightarrow> RemediationPlan \<Rightarrow> RemediationPlanStep \<Rightarrow> bool \<Rightarrow> string option
    \<Rightarrow> OpsRunCommandStepParams \<Rightarrow> 'w exec_state \<Rightarrow> 'w exec_state" where
  "auditRun opts plan step ok errMsg params st =
     (if \<not> po_hasAudit opts then st
      else st\<lparr>es_audit := es_audit st @ [auditRow plan step ok
        (stepMeta plan step @ [(''verb'', JStr (or_default (js_at (rc_argv params) 0) [])),
           (''connectorId'', JStr (rc_connectorId params))] @ errField errMsg)]\<rparr>)"

definition auditClusterShell :: "'w PlanExecutorOptions \<Rightarrow> RemediationPlan \<Rightarrow> RemediationPlanStep \<Rightarrow> bool
    \<Rightarrow> string option \<Rightarrow> OpsClusterShellStepParams \<Rightarrow> 'w exec_state \<Rightarrow> 'w exec_state" where
  "auditClusterShell opts plan step ok errMsg params st =
     (if \<not> po_hasAudit opts then st
      else st\<lparr>es_audit := es_audit st @ [auditRow plan step ok
        (stepMeta plan step @ [(''scope'', JStr (cs_scope params))] @ optField ''namespace'' (cs_namespace params)
          @ [(''connectorId'', JStr (cs_connectorId params))] @ errField errMsg)]\<rparr>)"

text \<open>Calling an adapter: the world moves on, the call is traced.\<close>

definition callAdapter :: "'w PlanExecutorOptions \<Rightarrow> RemediationPlan \<Rightarrow> RemediationPlanStep \<Rightarrow> AdapterAction
    \<Rightarrow> 'w exec_state \<Rightarrow> AdapterResult \<times> 'w exec_state" where
  "callAdapter opts plan step action st =
     (case po_adapter opts (es_world st) plan step action of
        (r, w) \<Rightarrow> (r, st\<lparr>es_world := w, es_calls := es_calls st @ [(pl_id plan, ps_ordinal step)]\<rparr>))"

fun skipLoop :: "string \<Rightarrow> nat \<Rightarrow> RemediationPlanStep list \<Rightarrow> 'w exec_state \<Rightarrow> 'w exec_state" where
  "skipLoop planId failedOrdinal [] st = st"
| "skipLoop planId failedOrdinal (s # ss) st =
     skipLoop planId failedOrdinal ss
       (if ps_ordinal s > failedOrdinal \<and> ps_status s = StPending
        then setStep st planId (ps_ordinal s) (noStepPatch\<lparr>sp_status := Some StSkipped\<rparr>) else st)"

definition haltPlan :: "string \<Rightarrow> string \<Rightarrow> nat \<Rightarrow> string \<Rightarrow> 'w exec_state \<Rightarrow> 'w exec_state \<times> PlanExecutorOutcome" where
  "haltPlan orgId planId failedOrdinal reason st =
     (let st1 = (case findByIdInOrg (es_db st) orgId planId of
                   None \<Rightarrow> st
                 | Some fresh \<Rightarrow> skipLoop planId failedOrdinal (pl_steps fresh) st)
      in (setPlan st1 orgId planId (noPlanPatch\<lparr>pp_status := Some PlExecutionFailed\<rparr>),
          Failed (int failedOrdinal) reason))"

text \<open>The tail every failing path shares: halt unless the step continues on error.\<close>

definition haltUnlessContinue :: "RemediationPlan \<Rightarrow> RemediationPlanStep \<Rightarrow> string \<Rightarrow> 'w exec_state \<Rightarrow> 'w exec_state" where
  "haltUnlessContinue plan step reason st =
     (if ps_continueOnError step then st
      else fst (haltPlan (pl_orgId plan) (pl_id plan) (ps_ordinal step) reason st))"

definition failPatch :: "string option option \<Rightarrow> string option \<Rightarrow> RemediationPlanStepPatch" where
  "failPatch out err = noStepPatch\<lparr>sp_status := Some StFailed, sp_outputText := out, sp_errorText := Some err\<rparr>"

definition executeShell :: "'w PlanExecutorOptions \<Rightarrow> RemediationPlan \<Rightarrow> RemediationPlanStep \<Rightarrow> 'w exec_state \<Rightarrow> 'w exec_state" where
  "executeShell opts plan step st =
     (case readClusterShellParams step of
        None \<Rightarrow>
          let reason = ''step '' @ dec (ps_ordinal step) @ '' has invalid params for kind '' @ quoted ''ops.cluster_shell''
                @ '' (expected script, scope, connectorId; namespace required for scope=namespace).''
          in haltUnlessContinue plan step reason
               (setStep st (pl_id plan) (ps_ordinal step) (failPatch None (Some reason)))
      | Some params \<Rightarrow>
          (case callAdapter opts plan step
                  \<lparr>ac_type = ''ops.cluster_shell'', ac_targetService = cs_connectorId params,
                   ac_params = [(''script'', JStr (cs_script params)), (''scope'', JStr (cs_scope params))]
                     @ optField ''namespace'' (cs_namespace params) @ optField ''image'' (cs_image params)\<rparr> st of
             (AdThrew errMsg, st1) \<Rightarrow>
               haltUnlessContinue plan step errMsg
                 (auditClusterShell opts plan step False (Some errMsg) params
                   (setStep st1 (pl_id plan) (ps_ordinal step)
                     (failPatch None (truncate (Some (''adapter threw: '' @ errMsg)) STDIO_CAP_BYTES))))
           | (AdReturned success output err, st1) \<Rightarrow>
               if success
               then auditClusterShell opts plan step True None params
                 (setStep st1 (pl_id plan) (ps_ordinal step)
                   (noStepPatch\<lparr>sp_status := Some StDone, sp_outputText := Some (truncate output STDIO_CAP_BYTES)\<rparr>))
               else let errMsg = or_default err ''cluster_shell step failed'' in
                 haltUnlessContinue plan step errMsg
                   (auditClusterShell opts plan step False (Some errMsg) params
                     (setStep st1 (pl_id plan) (ps_ordinal step)
                       (failPatch (Some (truncate output STDIO_CAP_BYTES)) (truncate (Some errMsg) STDIO_CAP_BYTES))))))"

definition executeRun :: "'w PlanExecutorOptions \<Rightarrow> RemediationPlan \<Rightarrow> RemediationPlanStep \<Rightarrow> 'w exec_state \<Rightarrow> 'w exec_state" where
  "executeRun opts plan step st =
     (case readOpsRunCommandParams step of
        None \<Rightarrow>
          let reason = ''step '' @ dec (ps_ordinal step) @ '' has invalid params for kind '' @ quoted (ps_kindOf step)
          in haltUnlessContinue plan step reason
               (setStep st (pl_id plan) (ps_ordinal step) (failPatch None (Some reason)))
      | Some params \<Rightarrow>
          (case callAdapter opts plan step
                  \<lparr>ac_type = ''ops.run_command'', ac_targetService = rc_connectorId params,
                   ac_params = [(''argv'', JArr (map JStr (rc_argv params)))]\<rparr> st of
             (AdThrew errMsg, st1) \<Rightarrow>
               haltUnlessContinue plan step errMsg
                 (auditRun opts plan step False (Some (''adapter threw: '' @ errMsg)) params
                   (setStep st1 (pl_id plan) (ps_ordinal step)
                     (failPatch None (truncate (Some (''adapter threw: '' @ errMsg)) STDIO_CAP_BYTES))))
           | (AdReturned success output err, st1) \<Rightarrow>
               if success
               then auditRun opts plan step True None params
                 (setStep st1 (pl_id plan) (ps_ordinal step)
                   (noStepPatch\<lparr>sp_status := Some StDone, sp_outputText := Some (truncate output STDIO_CAP_BYTES)\<rparr>))
               else let errMsg = or_default err ''step failed'' in
                 haltUnlessContinue plan step errMsg
                   (auditRun opts plan step False (Some errMsg) params
                     (setStep st1 (pl_id plan) (ps_ordinal step)
                       (failPatch None (truncate (Some errMsg) STDIO_CAP_BYTES))))))"

definition executeStep :: "'w PlanExecutorOptions \<Rightarrow> RemediationPlan \<Rightarrow> RemediationPlanStep \<Rightarrow> 'w exec_state \<Rightarrow> 'w exec_state" where
  "executeStep opts plan step st =
     (let st1 = setStep st (pl_id plan) (ps_ordinal step)
            (noStepPatch\<lparr>sp_status := Some StExecuting, sp_executedAt := Some (Some (es_now st))\<rparr>)
      in if ps_kindOf step = ''ops.cluster_shell'' then executeShell opts plan step st1
         else executeRun opts plan step st1)"

subsection \<open>An execution uses up pending steps\<close>

lemma setStep_simps [simp]:
  "es_db (setStep st p n patch) = (es_db st)\<lparr>pd_steps := map (\<lambda>s. if ps_planId s = p \<and> ps_ordinal s = n
      then stepPatched patch s else s) (pd_steps (es_db st))\<rparr>"
  "es_approvals (setStep st p n patch) = es_approvals st" "es_calls (setStep st p n patch) = es_calls st"
  "es_world (setStep st p n patch) = es_world st" "es_now (setStep st p n patch) = es_now st"
  by (simp_all add: setStep_def updateStep_db)

lemma setPlan_simps [simp]:
  "es_db (setPlan st og p patch) = (es_db st)\<lparr>pd_plans := map (\<lambda>r. if pl_orgId r = og \<and> pl_id r = p
      then planPatched patch r else r) (pd_plans (es_db st))\<rparr>"
  "es_approvals (setPlan st og p patch) = es_approvals st" "es_calls (setPlan st og p patch) = es_calls st"
  "es_world (setPlan st og p patch) = es_world st" "es_now (setPlan st og p patch) = es_now st"
  by (simp_all add: setPlan_def updatePlan_db)

lemma audit_db [simp]:
  "es_db (auditRun opts plan step ok e ps st) = es_db st"
  "es_db (auditClusterShell opts plan step ok e cp st) = es_db st"
  "es_calls (auditRun opts plan step ok e ps st) = es_calls st"
  "es_calls (auditClusterShell opts plan step ok e cp st) = es_calls st"
  "es_approvals (auditRun opts plan step ok e ps st) = es_approvals st"
  "es_approvals (auditClusterShell opts plan step ok e cp st) = es_approvals st"
  by (simp_all add: auditRun_def auditClusterShell_def)

lemma callAdapter_db:
  "callAdapter opts plan step a st = (r, st1) \<Longrightarrow> es_db st1 = es_db st \<and> es_approvals st1 = es_approvals st
     \<and> es_calls st1 = es_calls st @ [(pl_id plan, ps_ordinal step)]"
  by (auto simp: callAdapter_def split: prod.splits)

lemma pending_setPlan [simp]: "pendingCount (es_db (setPlan st og p patch)) q = pendingCount (es_db st) q"
  by (simp add: pendingCount_def)

lemma filter_map_le:
  assumes "\<And>y. Q (f y) \<Longrightarrow> Q y"
  shows "length (filter Q (map f xs)) \<le> length (filter Q xs)"
  using assms by (induction xs) auto

lemma filter_map_less:
  assumes "\<And>y. Q (f y) \<Longrightarrow> Q y" "x \<in> set xs" "Q x" "\<not> Q (f x)"
  shows "length (filter Q (map f xs)) < length (filter Q xs)"
  using assms(2)
proof (induction xs)
  case (Cons y ys)
  have le: "length (filter Q (map f ys)) \<le> length (filter Q ys)" by (rule filter_map_le [OF assms(1)])
  show ?case
  proof (cases "x = y")
    case True
    then show ?thesis using le assms(3,4) by simp
  next
    case False
    then have "length (filter Q (map f ys)) < length (filter Q ys)" using Cons by simp
    then show ?thesis using assms(1) [of y] by (cases "Q (f y)"; cases "Q y") simp_all
  qed
qed simp

lemma pending_setStep:
  assumes "sp_status patch = Some x" "x \<noteq> StPending"
  shows "pendingCount (es_db (setStep st p n patch)) q \<le> pendingCount (es_db st) q"
proof -
  have "length (filter (\<lambda>s. ps_planId s = q \<and> ps_status s = StPending)
      (map (\<lambda>s. if ps_planId s = p \<and> ps_ordinal s = n then stepPatched patch s else s) (pd_steps (es_db st))))
    \<le> length (filter (\<lambda>s. ps_planId s = q \<and> ps_status s = StPending) (pd_steps (es_db st)))"
    by (rule filter_map_le) (use assms in \<open>simp split: if_splits\<close>)
  then show ?thesis by (simp add: pendingCount_def)
qed

lemma pending_setStep_less:
  assumes "sp_status patch = Some x" "x \<noteq> StPending" "s \<in> set (pd_steps (es_db st))"
    and "ps_planId s = p" "ps_ordinal s = n" "ps_status s = StPending"
  shows "pendingCount (es_db (setStep st p n patch)) p < pendingCount (es_db st) p"
proof -
  have "length (filter (\<lambda>s. ps_planId s = p \<and> ps_status s = StPending)
      (map (\<lambda>s. if ps_planId s = p \<and> ps_ordinal s = n then stepPatched patch s else s) (pd_steps (es_db st))))
    < length (filter (\<lambda>s. ps_planId s = p \<and> ps_status s = StPending) (pd_steps (es_db st)))"
  proof (rule filter_map_less [OF _ assms(3)])
    show "ps_planId y = p \<and> ps_status y = StPending"
      if "ps_planId (if ps_planId y = p \<and> ps_ordinal y = n then stepPatched patch y else y) = p
        \<and> ps_status (if ps_planId y = p \<and> ps_ordinal y = n then stepPatched patch y else y) = StPending" for y
      using that assms(1,2) by (simp split: if_splits)
  qed (use assms in simp_all)
  then show ?thesis by (simp add: pendingCount_def)
qed

lemma pending_skipLoop: "pendingCount (es_db (skipLoop p n ss st)) q \<le> pendingCount (es_db st) q"
proof (induction ss arbitrary: st)
  case (Cons s ss)
  let ?st = "if ps_ordinal s > n \<and> ps_status s = StPending
      then setStep st p (ps_ordinal s) (noStepPatch\<lparr>sp_status := Some StSkipped\<rparr>) else st"
  have "pendingCount (es_db ?st) q \<le> pendingCount (es_db st) q"
    using pending_setStep [where x = StSkipped and patch = "noStepPatch\<lparr>sp_status := Some StSkipped\<rparr>" and st = st
        and p = p and n = "ps_ordinal s" and q = q] by simp
  with Cons.IH [of ?st] show ?case unfolding skipLoop.simps by (rule order_trans)
qed simp

lemma pending_halt: "pendingCount (es_db (fst (haltPlan og p n r st))) q \<le> pendingCount (es_db st) q"
  by (cases "findByIdInOrg (es_db st) og p")
    (simp_all add: haltPlan_def Let_def pending_skipLoop del: setPlan_simps)

lemma pending_haltUnless: "pendingCount (es_db (haltUnlessContinue plan step r st)) q \<le> pendingCount (es_db st) q"
  by (simp add: haltUnlessContinue_def pending_halt)

lemma pending_fail:
  "pendingCount (es_db (setStep st p n (failPatch out err))) q \<le> pendingCount (es_db st) q"
  by (rule pending_setStep [where x = StFailed]) (simp_all add: failPatch_def noStepPatch_def)

lemma pending_done:
  "pendingCount (es_db (setStep st p n (noStepPatch\<lparr>sp_status := Some StDone, sp_outputText := out\<rparr>))) q \<le> pendingCount (es_db st) q"
  by (rule pending_setStep [where x = StDone]) (simp_all add: noStepPatch_def)

lemma pending_audit [simp]:
  "pendingCount (es_db (auditRun opts plan step ok e ps st)) q = pendingCount (es_db st) q"
  "pendingCount (es_db (auditClusterShell opts plan step ok e cp st)) q = pendingCount (es_db st) q"
  by simp_all

text \<open>The endings of an execution: halted after a failure, or done.\<close>

lemma pending_finish:
  "pendingCount (es_db (haltUnlessContinue plan step r (setStep st p n (failPatch out err)))) q \<le> pendingCount (es_db st) q"
  "pendingCount (es_db (haltUnlessContinue plan step r
     (auditRun opts plan step ok e ps (setStep st p n (failPatch out err))))) q \<le> pendingCount (es_db st) q"
  "pendingCount (es_db (haltUnlessContinue plan step r
     (auditClusterShell opts plan step ok e cp (setStep st p n (failPatch out err))))) q \<le> pendingCount (es_db st) q"
  using order_trans [OF pending_haltUnless pending_fail]
  by (simp_all del: setStep_simps add: order_trans [OF pending_haltUnless order_trans [OF eq_refl [OF pending_audit(1)] pending_fail]]
      order_trans [OF pending_haltUnless order_trans [OF eq_refl [OF pending_audit(2)] pending_fail]]
      order_trans [OF pending_haltUnless pending_fail])

lemma pending_run: "pendingCount (es_db (executeRun opts plan step st)) q \<le> pendingCount (es_db st) q"
proof (cases "readOpsRunCommandParams step")
  case None
  then show ?thesis by (simp add: executeRun_def Let_def pending_finish del: setStep_simps)
next
  case (Some params)
  obtain r st1 where c: "callAdapter opts plan step \<lparr>ac_type = ''ops.run_command'',
      ac_targetService = rc_connectorId params, ac_params = [(''argv'', JArr (map JStr (rc_argv params)))]\<rparr> st = (r, st1)"
    by fastforce
  have db: "pendingCount (es_db st1) q = pendingCount (es_db st) q" using callAdapter_db [OF c] by simp
  show ?thesis
    unfolding executeRun_def Some option.case c db [symmetric]
    by (cases r) (simp_all add: Let_def pending_finish pending_done del: setStep_simps)
qed

lemma pending_shell: "pendingCount (es_db (executeShell opts plan step st)) q \<le> pendingCount (es_db st) q"
proof (cases "readClusterShellParams step")
  case None
  then show ?thesis by (simp add: executeShell_def Let_def pending_finish del: setStep_simps)
next
  case (Some params)
  obtain r st1 where c: "callAdapter opts plan step \<lparr>ac_type = ''ops.cluster_shell'', ac_targetService = cs_connectorId params,
      ac_params = [(''script'', JStr (cs_script params)), (''scope'', JStr (cs_scope params))]
        @ optField ''namespace'' (cs_namespace params) @ optField ''image'' (cs_image params)\<rparr> st = (r, st1)"
    by fastforce
  have db: "pendingCount (es_db st1) q = pendingCount (es_db st) q" using callAdapter_db [OF c] by simp
  show ?thesis
    unfolding executeShell_def Some option.case c db [symmetric]
    by (cases r) (simp_all add: Let_def pending_finish pending_done del: setStep_simps)
qed

lemma pending_executeStep:
  assumes "step \<in> set (pd_steps (es_db st))" "ps_planId step = pl_id plan" "ps_status step = StPending"
  shows "pendingCount (es_db (executeStep opts plan step st)) (pl_id plan) < pendingCount (es_db st) (pl_id plan)"
proof -
  let ?st1 = "setStep st (pl_id plan) (ps_ordinal step)
      (noStepPatch\<lparr>sp_status := Some StExecuting, sp_executedAt := Some (Some (es_now st))\<rparr>)"
  have "pendingCount (es_db ?st1) (pl_id plan) < pendingCount (es_db st) (pl_id plan)"
    by (rule pending_setStep_less [where x = StExecuting, OF _ _ assms(1,2) refl assms(3)])
      (simp_all add: noStepPatch_def)
  then show ?thesis
    unfolding executeStep_def Let_def
    by (cases "ps_kindOf step = ''ops.cluster_shell''")
      (simp_all only: refl if_True if_False le_less_trans [OF pending_run] le_less_trans [OF pending_shell])
qed

subsection \<open>The operations\<close>

definition pauseForApproval :: "'w PlanExecutorOptions \<Rightarrow> string \<Rightarrow> RemediationPlan \<Rightarrow> RemediationPlanStep
    \<Rightarrow> 'w exec_state \<Rightarrow> 'w exec_state \<times> (ExecError + PlanExecutorOutcome)" where
  "pauseForApproval opts orgId plan nxt st =
     (if \<not> po_hasApprovals opts then (st, Inl EApprovalsRequired)
      else
        let params = readOpsRunCommandParams nxt; shellParams = readClusterShellParams nxt;
            opsConnectorId = (case params of Some p \<Rightarrow> Some (rc_connectorId p)
               | None \<Rightarrow> map_option cs_connectorId shellParams);
            targetNamespace = (case params of Some p \<Rightarrow> readNamespaceFromArgv (rc_argv p)
               | None \<Rightarrow> (case shellParams of
                    Some c \<Rightarrow> if cs_scope c = ''namespace'' then cs_namespace c else None
                  | None \<Rightarrow> None));
            requesterTeamId = (case po_resolveRequesterTeamId opts of
               None \<Rightarrow> None | Some f \<Rightarrow> f orgId (pl_investigationId plan));
            actionParams = (case shellParams of
               Some c \<Rightarrow> [(''script'', JStr (cs_script c)), (''scope'', JStr (cs_scope c))]
                 @ optField ''namespace'' (cs_namespace c) @ optField ''image'' (cs_image c)
                 @ [(''connectorId'', JStr (cs_connectorId c)), (''stepKind'', JStr (ps_kindOf nxt))]
             | None \<Rightarrow> [(''argv'', JArr (map JStr (case params of Some p \<Rightarrow> rc_argv p | None \<Rightarrow> []))),
                 (''connectorId'', JStr (case params of Some p \<Rightarrow> rc_connectorId p | None \<Rightarrow> [])),
                 (''stepKind'', JStr (ps_kindOf nxt))])
        in (case approvalSubmit (es_now st) (po_newId opts (es_approvals st)) (es_approvals st)
                 \<lparr>sp_action = \<lparr>aa_type = ''ops.run_command'', aa_targetService = or_default opsConnectorId ''unknown'',
                    aa_params = actionParams\<rparr>,
                  sp_context = [(''investigationId'', JStr (pl_investigationId plan)),
                    (''requestedBy'', JStr (pl_createdBy plan)), (''reason'', JStr (ps_commandText nxt)),
                    (''planId'', JStr (pl_id plan)), (''stepOrdinal'', JNum (int (ps_ordinal nxt)))],
                  sp_ttlMs = None, sp_opsConnectorId = opsConnectorId, sp_targetNamespace = targetNamespace,
                  sp_requesterTeamId = requesterTeamId\<rparr> of
              (submitted, approvals') \<Rightarrow>
                (setStep (st\<lparr>es_approvals := approvals'\<rparr>) (pl_id plan) (ps_ordinal nxt)
                   (noStepPatch\<lparr>sp_approvalRequestId := Some (Some (ar_id submitted))\<rparr>),
                 Inr (PausedForApproval (ps_ordinal nxt) (ar_id submitted)))))"

function runNext :: "'w PlanExecutorOptions \<Rightarrow> string \<Rightarrow> string \<Rightarrow> 'w exec_state
    \<Rightarrow> 'w exec_state \<times> (ExecError + PlanExecutorOutcome)" where
  "runNext opts orgId planId st =
     (case findByIdInOrg (es_db st) orgId planId of
        None \<Rightarrow> (st, Inl (EPlanNotFound planId))
      | Some plan \<Rightarrow>
          if pl_status plan = PlFailed \<or> pl_status plan = PlExecutionFailed
          then (st, Inr (case List.find (\<lambda>s. ps_status s = StFailed) (pl_steps plan) of
                  None \<Rightarrow> Failed (-1) ''plan failed''
                | Some s \<Rightarrow> Failed (int (ps_ordinal s)) (or_default (ps_errorText s) ''plan failed'')))
          else if pl_status plan = PlCancelled then (st, Inr Cancelled)
          else (case List.find (\<lambda>s. ps_status s = StPending) (pl_steps plan) of
                  None \<Rightarrow> (setPlan st orgId planId (noPlanPatch\<lparr>pp_status := Some PlApplied\<rparr>), Inr Completed)
                | Some nxt \<Rightarrow>
                    if pl_autoEdit plan then runNext opts orgId planId (executeStep opts plan nxt st)
                    else pauseForApproval opts orgId plan nxt st))"
  by pat_completeness auto
termination
proof (relation "measure (\<lambda>(opts, orgId, planId, st). pendingCount (es_db st) planId)")
  fix opts :: "'w PlanExecutorOptions" and orgId planId plan nxt and st :: "'w exec_state"
  assume plan: "findByIdInOrg (es_db st) orgId planId = Some plan"
    and nxt: "List.find (\<lambda>s. ps_status s = StPending) (pl_steps plan) = Some nxt"
  have "pl_id plan = planId" "pl_steps plan = stepsOf (es_db st) planId" using find_SomeD [OF plan] by simp_all
  moreover from this have "nxt \<in> set (pd_steps (es_db st))" "ps_planId nxt = planId" "ps_status nxt = StPending"
    using find_Some_iff_first [OF nxt] by simp_all
  ultimately show "((opts, orgId, planId, executeStep opts plan nxt st), opts, orgId, planId, st)
      \<in> measure (\<lambda>(opts, orgId, planId, st). pendingCount (es_db st) planId)"
    using pending_executeStep [of nxt st plan opts] by simp
qed simp

declare runNext.simps [simp del]

definition approve :: "'w PlanExecutorOptions \<Rightarrow> string \<Rightarrow> string \<Rightarrow> bool \<Rightarrow> string \<Rightarrow> 'w exec_state
    \<Rightarrow> 'w exec_state \<times> (ExecError + PlanExecutorOutcome)" where
  "approve opts orgId planId autoEdit userId st =
     (case findByIdInOrg (es_db st) orgId planId of
        None \<Rightarrow> (st, Inl (EPlanNotFound planId))
      | Some plan \<Rightarrow>
          if pl_status plan \<noteq> PlPendingApproval
          then (st, Inl (EPlanStatus planId (pl_status plan) ''approve''))
          else
            let effectiveAutoEdit = (autoEdit \<or> length (pl_steps plan) = 1);
                st1 = setPlan st orgId planId (noPlanPatch\<lparr>pp_status := Some PlApproved,
                  pp_autoEdit := Some effectiveAutoEdit, pp_resolvedAt := Some (Some (es_now st)),
                  pp_resolvedBy := Some (Some userId)\<rparr>);
                st2 = (if truthy (pl_approvalRequestId plan) \<and> po_hasApprovals opts
                  then st1\<lparr>es_approvals := snd (approvalApprove (es_now st1) (es_approvals st1)
                         (the (pl_approvalRequestId plan)) userId None)\<rparr>
                  else st1)
            in runNext opts orgId planId
                 (setPlan st2 orgId planId (noPlanPatch\<lparr>pp_status := Some PlExecuting\<rparr>)))"

definition reject :: "string \<Rightarrow> string \<Rightarrow> string \<Rightarrow> 'w exec_state
    \<Rightarrow> 'w exec_state \<times> (ExecError + RemediationPlan option)" where
  "reject orgId planId userId st =
     (case findByIdInOrg (es_db st) orgId planId of
        None \<Rightarrow> (st, Inl (EPlanNotFound planId))
      | Some plan \<Rightarrow>
          if pl_status plan \<noteq> PlPendingApproval
          then (st, Inl (EPlanStatus planId (pl_status plan) ''reject''))
          else (case updatePlan (es_db st) orgId planId (noPlanPatch\<lparr>pp_status := Some PlRejected,
                       pp_resolvedAt := Some (Some (es_now st)), pp_resolvedBy := Some (Some userId)\<rparr>) of
                  (p, db') \<Rightarrow> (st\<lparr>es_db := db'\<rparr>, Inr p)))"

definition cancel :: "string \<Rightarrow> string \<Rightarrow> string \<Rightarrow> 'w exec_state
    \<Rightarrow> 'w exec_state \<times> (ExecError + RemediationPlan option)" where
  "cancel orgId planId userId st =
     (case findByIdInOrg (es_db st) orgId planId of
        None \<Rightarrow> (st, Inl (EPlanNotFound planId))
      | Some plan \<Rightarrow>
          if pl_status plan \<noteq> PlApproved \<and> pl_status plan \<noteq> PlExecuting
          then (st, Inl (EPlanStatus planId (pl_status plan) ''cancel''))
          else (case updatePlan (es_db st) orgId planId (noPlanPatch\<lparr>pp_status := Some PlCancelled,
                       pp_resolvedAt := Some (Some (es_now st)), pp_resolvedBy := Some (Some userId)\<rparr>) of
                  (p, db') \<Rightarrow> (st\<lparr>es_db := db'\<rparr>, Inr p)))"

text \<open>Reading the approval may mark it expired.\<close>

definition findStepByApproval :: "'w PlanExecutorOptions \<Rightarrow> string \<Rightarrow> string \<Rightarrow> 'w exec_state
    \<Rightarrow> 'w exec_state \<times> (ExecError + (RemediationPlan \<times> RemediationPlanStep))" where
  "findStepByApproval opts orgId approvalRequestId st =
     (if \<not> po_hasApprovals opts then (st, Inl EApprovalsRequired)
      else (case approvalFindById (es_now st) (es_approvals st) approvalRequestId of
              (None, aps) \<Rightarrow> (st\<lparr>es_approvals := aps\<rparr>, Inl (EApprovalNotFound approvalRequestId))
            | (Some approval, aps) \<Rightarrow>
                let st1 = st\<lparr>es_approvals := aps\<rparr> in
                (case (json_str (prop_of (ar_context approval) ''planId''),
                       json_int (prop_of (ar_context approval) ''stepOrdinal'')) of
                   (Some planId, Some ordinal) \<Rightarrow>
                     (case findByIdInOrg (es_db st1) orgId planId of
                        None \<Rightarrow> (st1, Inl (EPlanNotFound planId))
                      | Some plan \<Rightarrow>
                          (case List.find (\<lambda>s. int (ps_ordinal s) = ordinal) (pl_steps plan) of
                             None \<Rightarrow> (st1, Inl (EStepNotFound (nat ordinal) planId))
                           | Some step \<Rightarrow> (st1, Inr (plan, step))))
                 | _ \<Rightarrow> (st1, Inl (ENotPlanStepApproval approvalRequestId)))))"

definition onStepApproved :: "'w PlanExecutorOptions \<Rightarrow> string \<Rightarrow> string \<Rightarrow> 'w exec_state
    \<Rightarrow> 'w exec_state \<times> (ExecError + PlanExecutorOutcome)" where
  "onStepApproved opts orgId approvalRequestId st =
     (case findStepByApproval opts orgId approvalRequestId st of
        (st1, Inl e) \<Rightarrow> (st1, Inl e)
      | (st1, Inr (plan, step)) \<Rightarrow> runNext opts orgId (pl_id plan) (executeStep opts plan step st1))"

definition onStepRejected :: "'w PlanExecutorOptions \<Rightarrow> string \<Rightarrow> string \<Rightarrow> 'w exec_state
    \<Rightarrow> 'w exec_state \<times> (ExecError + PlanExecutorOutcome)" where
  "onStepRejected opts orgId approvalRequestId st =
     (case findStepByApproval opts orgId approvalRequestId st of
        (st1, Inl e) \<Rightarrow> (st1, Inl e)
      | (st1, Inr (plan, step)) \<Rightarrow>
          let st2 = setStep st1 (pl_id plan) (ps_ordinal step) (failPatch None (Some ''rejected by approver'')) in
          if ps_continueOnError step then runNext opts orgId (pl_id plan) st2
          else (case haltPlan orgId (pl_id plan) (ps_ordinal step) ''rejected by approver'' st2 of
                  (st3, outc) \<Rightarrow> (st3, Inr outc)))"

fun unskipLoop :: "string \<Rightarrow> nat \<Rightarrow> RemediationPlanStep list \<Rightarrow> 'w exec_state \<Rightarrow> 'w exec_state" where
  "unskipLoop planId ordinal [] st = st"
| "unskipLoop planId ordinal (s # ss) st =
     unskipLoop planId ordinal ss
       (if ps_ordinal s > ordinal \<and> ps_status s = StSkipped
        then setStep st planId (ps_ordinal s) (noStepPatch\<lparr>sp_status := Some StPending\<rparr>) else st)"

definition retryStep :: "'w PlanExecutorOptions \<Rightarrow> string \<Rightarrow> string \<Rightarrow> nat \<Rightarrow> 'w exec_state
    \<Rightarrow> 'w exec_state \<times> (ExecError + PlanExecutorOutcome)" where
  "retryStep opts orgId planId ordinal st =
     (case findByIdInOrg (es_db st) orgId planId of
        None \<Rightarrow> (st, Inl (EPlanNotFound planId))
      | Some plan \<Rightarrow>
          (case List.find (\<lambda>s. ps_ordinal s = ordinal) (pl_steps plan) of
             None \<Rightarrow> (st, Inl (EStepNotFound ordinal planId))
           | Some step \<Rightarrow>
               if ps_status step \<noteq> StFailed then (st, Inl (EStepStatus ordinal (ps_status step)))
               else
                 let st1 = setStep st planId ordinal \<lparr>sp_status = Some StPending, sp_approvalRequestId = None,
                       sp_executedAt = Some None, sp_outputText = Some None, sp_errorText = Some None\<rparr>;
                     st2 = (if pl_status plan = PlFailed \<or> pl_status plan = PlExecutionFailed
                        then setPlan (unskipLoop planId ordinal (pl_steps plan) st1) orgId planId
                               (noPlanPatch\<lparr>pp_status := Some PlExecuting\<rparr>)
                        else st1)
                 in (case findByIdInOrg (es_db st2) orgId planId of
                       None \<Rightarrow> (st2, Inl (EPlanDisappeared planId))
                     | Some refreshed \<Rightarrow>
                         (case List.find (\<lambda>s. ps_ordinal s = ordinal) (pl_steps refreshed) of
                            None \<Rightarrow> (st2, Inl (EStepDisappeared ordinal))
                          | Some target \<Rightarrow>
                              runNext opts orgId planId (executeStep opts refreshed target st2)))))"

subsection \<open>Specification vocabulary\<close>

text \<open>The states of a plan nobody has approved.\<close>

fun preApproval :: "RemediationPlanStatus \<Rightarrow> bool" where
  "preApproval PlDraft = True"
| "preApproval PlPendingApproval = True"
| "preApproval PlRejected = True"
| "preApproval PlExpired = True"
| "preApproval _ = False"

text \<open>The plan a step approval is about, as the executor reads it from the context.\<close>

definition planOfContext :: "ApprovalContext \<Rightarrow> string option" where
  "planOfContext ctx = (case (json_str (prop_of ctx ''planId''), json_int (prop_of ctx ''stepOrdinal'')) of
     (Some p, Some n) \<Rightarrow> Some p | _ \<Rightarrow> None)"

text \<open>
  The invariant: plan identifiers are unique and every step row belongs to a plan; a plan that is
  past its approval records who resolved it; and of a plan that is not, every step is still
  pending, no step has reached an adapter and no step approval exists.
\<close>

definition untouched :: "'w exec_state \<Rightarrow> string \<Rightarrow> bool" where
  "untouched st p \<longleftrightarrow>
     (\<forall>s\<in>set (pd_steps (es_db st)). ps_planId s = p \<longrightarrow> ps_status s = StPending)
     \<and> (\<forall>n. (p, n) \<notin> set (es_calls st))
     \<and> (\<forall>i a. map_of (es_approvals st) i = Some a \<longrightarrow> planOfContext (ar_context a) \<noteq> Some p)"

definition execInv :: "'w exec_state \<Rightarrow> bool" where
  "execInv st \<longleftrightarrow> distinct (map pl_id (pd_plans (es_db st)))
     \<and> ps_planId ` set (pd_steps (es_db st)) \<subseteq> pl_id ` set (pd_plans (es_db st))
     \<and> (\<forall>r\<in>set (pd_plans (es_db st)).
          if preApproval (pl_status r) then untouched st (pl_id r) else pl_resolvedBy r \<noteq> None)"

text \<open>
  The steps of the system: the service's operations, plan creation under a new identifier, the
  expiry sweep, the patches of other services (which set neither the status nor the resolver),
  deletion, the passing of time, and anything that happens to approvals short of forging a
  plan-step context.
\<close>

inductive exec_step :: "'w PlanExecutorOptions \<Rightarrow> 'w exec_state \<Rightarrow> 'w exec_state \<Rightarrow> bool" for opts where
  ex_create: "planCreate (es_db st) g sid now inp = Some (p, db') \<Longrightarrow>
     preApproval (or_default (np_status inp) PlPendingApproval) \<Longrightarrow>
     (\<forall>n. (pl_id p, n) \<notin> set (es_calls st)) \<Longrightarrow>
     (\<forall>i a. map_of (es_approvals st) i = Some a \<longrightarrow> planOfContext (ar_context a) \<noteq> Some (pl_id p)) \<Longrightarrow>
     exec_step opts st (st\<lparr>es_db := db'\<rparr>)"
| ex_approve: "exec_step opts st (fst (approve opts og p auto u st))"
| ex_reject: "exec_step opts st (fst (reject og p u st))"
| ex_cancel: "exec_step opts st (fst (cancel og p u st))"
| ex_approved: "exec_step opts st (fst (onStepApproved opts og a st))"
| ex_rejected: "exec_step opts st (fst (onStepRejected opts og a st))"
| ex_retry: "exec_step opts st (fst (retryStep opts og p n st))"
| ex_expire: "exec_step opts st (st\<lparr>es_db := snd (expireStale (es_db st) now)\<rparr>)"
| ex_patch: "pp_status patch = None \<Longrightarrow> pp_resolvedBy patch = None \<Longrightarrow> exec_step opts st (setPlan st og p patch)"
| ex_delete: "exec_step opts st (st\<lparr>es_db := snd (planDelete (es_db st) og p)\<rparr>)"
| ex_tick: "exec_step opts st (st\<lparr>es_now := now, es_world := w\<rparr>)"
| ex_approvals: "(\<forall>i a'. map_of aps i = Some a' \<longrightarrow>
       (\<exists>a. map_of (es_approvals st) i = Some a \<and> ar_context a' = ar_context a) \<or> planOfContext (ar_context a') = None) \<Longrightarrow>
     exec_step opts st (st\<lparr>es_approvals := aps\<rparr>)"

section \<open>The approval invariant\<close>

text \<open>A change confined to one plan, that does not take that plan back before its approval.\<close>

definition confined :: "string \<Rightarrow> 'w exec_state \<Rightarrow> 'w exec_state \<Rightarrow> bool" where
  "confined p st st' \<longleftrightarrow>
     map pl_id (pd_plans (es_db st')) = map pl_id (pd_plans (es_db st))
     \<and> map ps_planId (pd_steps (es_db st')) = map ps_planId (pd_steps (es_db st))
     \<and> (\<forall>r'\<in>set (pd_plans (es_db st')). \<exists>r\<in>set (pd_plans (es_db st)). pl_id r = pl_id r'
          \<and> (pl_id r' \<noteq> p \<longrightarrow> r = r')
          \<and> (preApproval (pl_status r') \<longrightarrow> preApproval (pl_status r))
          \<and> (pl_resolvedBy r \<noteq> None \<longrightarrow> pl_resolvedBy r' \<noteq> None))
     \<and> (\<forall>s'\<in>set (pd_steps (es_db st')). ps_planId s' \<noteq> p \<longrightarrow> s' \<in> set (pd_steps (es_db st)))
     \<and> (\<forall>c\<in>set (es_calls st'). fst c \<noteq> p \<longrightarrow> c \<in> set (es_calls st))
     \<and> (\<forall>i a' q. map_of (es_approvals st') i = Some a' \<longrightarrow> planOfContext (ar_context a') = Some q \<longrightarrow> q \<noteq> p \<longrightarrow>
          (\<exists>j a. map_of (es_approvals st) j = Some a \<and> planOfContext (ar_context a) = Some q))"

lemma confined_refl [simp, intro]: "confined p st st"
  by (auto simp: confined_def)

lemma confined_trans:
  assumes "confined p st st1" "confined p st1 st2"
  shows "confined p st st2"
proof -
  have "\<exists>j a. map_of (es_approvals st) j = Some a \<and> planOfContext (ar_context a) = Some q"
    if "map_of (es_approvals st2) i = Some a'" "planOfContext (ar_context a') = Some q" "q \<noteq> p" for i a' q
    using assms that unfolding confined_def by meson
  moreover have "\<exists>r\<in>set (pd_plans (es_db st)). pl_id r = pl_id r' \<and> (pl_id r' \<noteq> p \<longrightarrow> r = r')
      \<and> (preApproval (pl_status r') \<longrightarrow> preApproval (pl_status r)) \<and> (pl_resolvedBy r \<noteq> None \<longrightarrow> pl_resolvedBy r' \<noteq> None)"
    if r': "r' \<in> set (pd_plans (es_db st2))" for r'
  proof -
    obtain r1 where r1: "r1 \<in> set (pd_plans (es_db st1))" "pl_id r1 = pl_id r'" "pl_id r' \<noteq> p \<longrightarrow> r1 = r'"
        "preApproval (pl_status r') \<longrightarrow> preApproval (pl_status r1)" "pl_resolvedBy r1 \<noteq> None \<longrightarrow> pl_resolvedBy r' \<noteq> None"
      using assms(2) r' unfolding confined_def by meson
    obtain r where "r \<in> set (pd_plans (es_db st))" "pl_id r = pl_id r1" "pl_id r1 \<noteq> p \<longrightarrow> r = r1"
        "preApproval (pl_status r1) \<longrightarrow> preApproval (pl_status r)" "pl_resolvedBy r \<noteq> None \<longrightarrow> pl_resolvedBy r1 \<noteq> None"
      using assms(1) r1(1) unfolding confined_def by meson
    then show ?thesis using r1 by auto
  qed
  ultimately show ?thesis using assms unfolding confined_def by simp
qed

lemma confined_setStep: "confined p st (setStep st p n patch)"
  by (auto simp: confined_def split: if_splits)

lemma setPlan_rowE:
  assumes "r' \<in> set (pd_plans (es_db (setPlan st og p patch)))"
  obtains r where "r \<in> set (pd_plans (es_db st))" "r' = (if pl_orgId r = og \<and> pl_id r = p then planPatched patch r else r)"
proof -
  have "r' \<in> (\<lambda>r. if pl_orgId r = og \<and> pl_id r = p then planPatched patch r else r) ` set (pd_plans (es_db st))"
    using assms by simp
  then show thesis using that by blast
qed

lemma confined_setPlan:
  assumes "\<And>x. pp_status patch = Some x \<Longrightarrow> \<not> preApproval x" "pp_resolvedBy patch \<noteq> Some None"
  shows "confined p st (setPlan st og p patch)"
proof -
  have "\<exists>r\<in>set (pd_plans (es_db st)). pl_id r = pl_id r' \<and> (pl_id r' \<noteq> p \<longrightarrow> r = r')
      \<and> (preApproval (pl_status r') \<longrightarrow> preApproval (pl_status r)) \<and> (pl_resolvedBy r \<noteq> None \<longrightarrow> pl_resolvedBy r' \<noteq> None)"
    if r': "r' \<in> set (pd_plans (es_db (setPlan st og p patch)))" for r'
  proof -
    obtain r where r: "r \<in> set (pd_plans (es_db st))"
        "r' = (if pl_orgId r = og \<and> pl_id r = p then planPatched patch r else r)"
      by (rule setPlan_rowE [OF r'])
    show ?thesis
      by (rule bexI [OF _ r(1)]) (use assms r(2) in \<open>cases "pp_status patch"; cases "pp_resolvedBy patch"; simp\<close>)
  qed
  moreover have "map pl_id (pd_plans (es_db (setPlan st og p patch))) = map pl_id (pd_plans (es_db st))" by simp
  ultimately show ?thesis unfolding confined_def by (simp, blast)
qed

lemma confined_status:
  "\<not> preApproval x \<Longrightarrow> confined p st (setPlan st og p (noPlanPatch\<lparr>pp_status := Some x\<rparr>))"
  by (rule confined_setPlan) (simp_all add: noPlanPatch_def)

lemma confined_audit:
  "confined p st (auditRun opts plan step ok e ps st)" "confined p st (auditClusterShell opts plan step ok e cp st)"
  by (auto simp: confined_def)

lemma confined_call:
  assumes "callAdapter opts plan step a st = (r, st1)" "pl_id plan = p"
  shows "confined p st st1"
  using callAdapter_db [OF assms(1)] assms(2) by (auto simp: confined_def)

lemma confined_skipLoop: "confined p st (skipLoop p n ss st)"
proof (induction ss arbitrary: st)
  case (Cons s ss)
  show ?case
    using confined_trans [OF confined_setStep Cons.IH] Cons.IH by simp
qed simp

lemma confined_halt: "confined p st (fst (haltPlan og p n r st))"
  by (cases "findByIdInOrg (es_db st) og p")
    (simp_all add: haltPlan_def Let_def confined_status confined_trans [OF confined_skipLoop confined_status]
      del: setPlan_simps)

lemma confined_haltUnless:
  "pl_id plan = p \<Longrightarrow> confined p st (haltUnlessContinue plan step r st)"
  using confined_halt by (auto simp: haltUnlessContinue_def)

text \<open>The endings of an execution, after the adapter or without it.\<close>

lemma confined_finish:
  assumes "pl_id plan = p"
  shows "confined p st (haltUnlessContinue plan step r (setStep st p n patch))"
    "confined p st (haltUnlessContinue plan step r (auditRun opts plan step ok e ps (setStep st p n patch)))"
    "confined p st (haltUnlessContinue plan step r (auditClusterShell opts plan step ok e cp (setStep st p n patch)))"
    "confined p st (auditRun opts plan step ok e ps (setStep st p n patch))"
    "confined p st (auditClusterShell opts plan step ok e cp (setStep st p n patch))"
  subgoal by (rule confined_trans [OF confined_setStep confined_haltUnless [OF assms]])
  subgoal by (rule confined_trans [OF confined_setStep confined_trans [OF confined_audit(1) confined_haltUnless [OF assms]]])
  subgoal by (rule confined_trans [OF confined_setStep confined_trans [OF confined_audit(2) confined_haltUnless [OF assms]]])
  subgoal by (rule confined_trans [OF confined_setStep confined_audit(1)])
  subgoal by (rule confined_trans [OF confined_setStep confined_audit(2)])
  done

lemma confined_run:
  assumes "pl_id plan = p"
  shows "confined p st (executeRun opts plan step st)"
proof (cases "readOpsRunCommandParams step")
  case None
  then show ?thesis using confined_finish(1) [OF assms] assms by (simp add: executeRun_def Let_def)
next
  case (Some params)
  obtain r st1 where c: "callAdapter opts plan step \<lparr>ac_type = ''ops.run_command'',
      ac_targetService = rc_connectorId params, ac_params = [(''argv'', JArr (map JStr (rc_argv params)))]\<rparr> st = (r, st1)"
    by fastforce
  show ?thesis
    unfolding executeRun_def Some option.case c
    by (rule confined_trans [OF confined_call [OF c assms]], cases r)
      (simp_all add: Let_def assms confined_finish [OF assms])
qed

lemma confined_shell:
  assumes "pl_id plan = p"
  shows "confined p st (executeShell opts plan step st)"
proof (cases "readClusterShellParams step")
  case None
  then show ?thesis using confined_finish(1) [OF assms] assms by (simp add: executeShell_def Let_def)
next
  case (Some params)
  obtain r st1 where c: "callAdapter opts plan step \<lparr>ac_type = ''ops.cluster_shell'', ac_targetService = cs_connectorId params,
      ac_params = [(''script'', JStr (cs_script params)), (''scope'', JStr (cs_scope params))]
        @ optField ''namespace'' (cs_namespace params) @ optField ''image'' (cs_image params)\<rparr> st = (r, st1)"
    by fastforce
  show ?thesis
    unfolding executeShell_def Some option.case c
    by (rule confined_trans [OF confined_call [OF c assms]], cases r)
      (simp_all add: Let_def assms confined_finish [OF assms])
qed

lemma confined_executeStep:
  assumes "pl_id plan = p"
  shows "confined p st (executeStep opts plan step st)"
  by (cases "ps_kindOf step = ''ops.cluster_shell''")
    (simp_all only: executeStep_def Let_def assms refl if_True if_False
      confined_trans [OF confined_setStep confined_run [OF assms]]
      confined_trans [OF confined_setStep confined_shell [OF assms]])

lemma confined_submit:
  assumes "planOfContext (ar_context a) = Some p"
  shows "confined p st (setStep (st\<lparr>es_approvals := AList.update i a (es_approvals st)\<rparr>) p n patch)"
proof -
  have "confined p st (st\<lparr>es_approvals := AList.update i a (es_approvals st)\<rparr>)"
    using assms by (auto simp: confined_def update_conv split: if_splits)
  then show ?thesis by (rule confined_trans [OF _ confined_setStep])
qed

lemma planOfContext_step:
  "planOfContext [(''investigationId'', i), (''requestedBy'', u), (''reason'', r),
     (''planId'', JStr p), (''stepOrdinal'', JNum n)] = Some p"
  by (simp add: planOfContext_def prop_of_def)

lemma confined_pause:
  assumes "pl_id plan = p"
  shows "confined p st (fst (pauseForApproval opts og plan nxt st))"
proof (cases "po_hasApprovals opts")
  case False
  then show ?thesis by (simp add: pauseForApproval_def)
next
  case True
  show ?thesis
    unfolding pauseForApproval_def approvalSubmit_def Let_def prod.case fst_conv assms
    by (subst if_not_P, use True in simp, unfold fst_conv, rule confined_submit)
      (simp only: ApprovalRequest.simps SubmitParams.simps planOfContext_step)
qed

lemma confined_runNext: "confined p st (fst (runNext opts og p st))"
proof (induction opts og p st rule: runNext.induct)
  case (1 opts og p st)
  show ?case
  proof (cases "findByIdInOrg (es_db st) og p")
    case None
    then show ?thesis by (simp add: runNext.simps [of opts og p st])
  next
    case (Some plan)
    have i: "pl_id plan = p" using find_SomeD [OF Some] by simp
    have applied: "confined p st (setPlan st og p (noPlanPatch\<lparr>pp_status := Some PlApplied\<rparr>))"
      by (rule confined_status) simp
    note IH = confined_trans [OF confined_executeStep [OF i] "1.IH" [OF Some]]
    show ?thesis
      using Some applied confined_pause [OF i] IH
      by (auto simp: runNext.simps [of opts og p st] simp del: setPlan_simps split: option.split)
  qed
qed

text \<open>A confined change keeps the invariant when the plan is past its approval.\<close>

lemma confined_inv:
  assumes "execInv st" "confined p st st'" "\<forall>r\<in>set (pd_plans (es_db st)). pl_id r = p \<longrightarrow> \<not> preApproval (pl_status r)"
  shows "execInv st'"
proof -
  have "if preApproval (pl_status r') then untouched st' (pl_id r') else pl_resolvedBy r' \<noteq> None"
    if r': "r' \<in> set (pd_plans (es_db st'))" for r'
  proof -
    obtain r where r: "r \<in> set (pd_plans (es_db st))" "pl_id r = pl_id r'" "pl_id r' \<noteq> p \<longrightarrow> r = r'"
        "preApproval (pl_status r') \<longrightarrow> preApproval (pl_status r)" "pl_resolvedBy r \<noteq> None \<longrightarrow> pl_resolvedBy r' \<noteq> None"
      using assms(2) r' unfolding confined_def by meson
    have old: "if preApproval (pl_status r) then untouched st (pl_id r) else pl_resolvedBy r \<noteq> None"
      using assms(1) r(1) unfolding execInv_def by blast
    show ?thesis
    proof (cases "pl_id r' = p")
      case True
      then show ?thesis using assms(3) r old by auto
    next
      case False
      have "untouched st' (pl_id r')" if "untouched st (pl_id r')"
        using that assms(2) False unfolding untouched_def confined_def by (metis fst_conv)
      then show ?thesis using r(3) False old by auto
    qed
  qed
  moreover have "pl_id ` set (pd_plans (es_db st')) = pl_id ` set (pd_plans (es_db st))"
      "ps_planId ` set (pd_steps (es_db st')) = ps_planId ` set (pd_steps (es_db st))"
    using assms(2) unfolding confined_def by (metis list.set_map)+
  ultimately show ?thesis using assms(1,2) unfolding execInv_def confined_def by simp
qed

text \<open>So does a change of plan rows that takes no plan back before its approval and none past it
  without naming who resolved it.\<close>

lemma rows_inv:
  assumes "execInv st"
    and "\<And>r. r \<in> set (pd_plans (es_db st)) \<Longrightarrow> pl_id (f r) = pl_id r
      \<and> (preApproval (pl_status (f r)) \<longrightarrow> preApproval (pl_status r))
      \<and> (\<not> preApproval (pl_status (f r)) \<longrightarrow> preApproval (pl_status r) \<or> pl_resolvedBy r \<noteq> None \<longrightarrow> pl_resolvedBy (f r) \<noteq> None)"
  shows "execInv (st\<lparr>es_db := (es_db st)\<lparr>pd_plans := map f (pd_plans (es_db st))\<rparr>\<rparr>)"
proof -
  have ids: "map (pl_id \<circ> f) (pd_plans (es_db st)) = map pl_id (pd_plans (es_db st))" using assms(2) by simp
  have same: "untouched (st\<lparr>es_db := (es_db st)\<lparr>pd_plans := map f (pd_plans (es_db st))\<rparr>\<rparr>) p = untouched st p" for p
    by (simp add: untouched_def)
  have "pl_id ` f ` set (pd_plans (es_db st)) = pl_id ` set (pd_plans (es_db st))"
    using arg_cong [OF ids, of set] by (simp add: image_comp)
  moreover have "pl_id (f r) = pl_id r" "if preApproval (pl_status (f r)) then untouched st (pl_id r) else pl_resolvedBy (f r) \<noteq> None"
    if "r \<in> set (pd_plans (es_db st))" for r
    using assms(2) [OF that] assms(1) that unfolding execInv_def by (metis (no_types))+
  moreover have "distinct (map (pl_id \<circ> f) (pd_plans (es_db st)))" unfolding ids using assms(1) by (simp add: execInv_def)
  ultimately show ?thesis using assms(1) unfolding execInv_def by (simp add: same)
qed

lemma setPlan_rows:
  "setPlan st og p patch = st\<lparr>es_db := (es_db st)\<lparr>pd_plans := map (\<lambda>r. if pl_orgId r = og \<and> pl_id r = p
      then planPatched patch r else r) (pd_plans (es_db st))\<rparr>\<rparr>"
  by (simp add: setPlan_def updatePlan_db)

lemma row_unique:
  "execInv st \<Longrightarrow> r \<in> set (pd_plans (es_db st)) \<Longrightarrow> r' \<in> set (pd_plans (es_db st)) \<Longrightarrow> pl_id r = pl_id r' \<Longrightarrow> r = r'"
  unfolding execInv_def distinct_map by (meson inj_onD)

lemma found_row:
  assumes "execInv st" "findByIdInOrg (es_db st) og p = Some plan" "r \<in> set (pd_plans (es_db st))" "pl_id r = p"
  shows "pl_status r = pl_status plan" "pl_orgId r = og"
proof -
  obtain r0 where "r0 \<in> set (pd_plans (es_db st))" "pl_id r0 = p" "pl_orgId r0 = og" "pl_status r0 = pl_status plan"
    using find_SomeD [OF assms(2)] by (metis rowToPlan_simps(3))
  moreover from this have "r0 = r" using row_unique [OF assms(1)] assms(3,4) by simp
  ultimately show "pl_status r = pl_status plan" "pl_orgId r = og" by simp_all
qed

lemma touched_past:
  "execInv st \<Longrightarrow> \<not> untouched st p \<Longrightarrow> \<forall>r\<in>set (pd_plans (es_db st)). pl_id r = p \<longrightarrow> \<not> preApproval (pl_status r)"
  unfolding execInv_def by auto

subsection \<open>Approval contexts\<close>

definition ctxKept :: "approval_store \<Rightarrow> approval_store \<Rightarrow> bool" where
  "ctxKept aps aps' \<longleftrightarrow> (\<forall>i a'. map_of aps' i = Some a' \<longrightarrow>
     (\<exists>j a. map_of aps j = Some a \<and> ar_context a' = ar_context a) \<or> planOfContext (ar_context a') = None)"

lemma ctxKept_refl [simp]: "ctxKept aps aps"
  by (auto simp: ctxKept_def)

lemma ctxKept_update:
  assumes "map_of aps j = Some a" "ar_context a' = ar_context a"
  shows "ctxKept aps (AList.update i a' aps)"
  using assms by (auto simp: ctxKept_def update_conv split: if_splits)

lemma ctxKept_mark:
  assumes "map_of aps j = Some a"
  shows "ctxKept aps (snd (markExpiredIfNeeded now aps a))"
    "ar_context (fst (markExpiredIfNeeded now aps a)) = ar_context a"
  using ctxKept_update [OF assms] by (simp_all add: markExpiredIfNeeded_def Let_def)

lemma ctxKept_resolve: "ctxKept aps (snd (approvalResolve now aps i x who roles))"
proof (cases "map_of aps i")
  case (Some a)
  show ?thesis
  proof (cases "ar_status a = ApPending \<and> now < ar_expiresAt a")
    case True
    then show ?thesis using ctxKept_update [OF Some] Some
      by (simp add: approvalResolve_def markExpiredIfNeeded_def Let_def)
  next
    case False
    then have "snd (approvalResolve now aps i x who roles) = snd (markExpiredIfNeeded now aps a)"
      using Some by (auto simp: approvalResolve_def markExpiredIfNeeded_def Let_def)
    then show ?thesis using ctxKept_mark(1) [OF Some] by simp
  qed
qed (simp add: approvalResolve_def)

lemma untouched_approvals: "ctxKept (es_approvals st) aps \<Longrightarrow> untouched st p \<Longrightarrow> untouched (st\<lparr>es_approvals := aps\<rparr>) p"
  unfolding untouched_def ctxKept_def by (simp, metis option.distinct(1))

lemma inv_approvals: "execInv st \<Longrightarrow> ctxKept (es_approvals st) aps \<Longrightarrow> execInv (st\<lparr>es_approvals := aps\<rparr>)"
  unfolding execInv_def using untouched_approvals [of st aps] by (auto split: if_splits)

lemma confined_approvals: "ctxKept (es_approvals st) aps \<Longrightarrow> confined p st (st\<lparr>es_approvals := aps\<rparr>)"
  unfolding confined_def ctxKept_def by (simp, metis option.distinct(1))

lemma findStep_spec:
  assumes "findStepByApproval opts og i st = (st1, res)"
  shows "\<exists>aps. st1 = st\<lparr>es_approvals := aps\<rparr> \<and> ctxKept (es_approvals st) aps"
    "res = Inr (plan, step) \<Longrightarrow> \<not> untouched st (pl_id plan) \<and> findByIdInOrg (es_db st) og (pl_id plan) = Some plan"
proof -
  have self: "\<exists>aps. st = st\<lparr>es_approvals := aps\<rparr> \<and> ctxKept (es_approvals st) aps"
    by (rule exI [of _ "es_approvals st"]) simp
  have "(\<exists>aps. st1 = st\<lparr>es_approvals := aps\<rparr> \<and> ctxKept (es_approvals st) aps)
    \<and> (res = Inr (plan, step) \<longrightarrow> \<not> untouched st (pl_id plan) \<and> findByIdInOrg (es_db st) og (pl_id plan) = Some plan)"
  proof (cases "po_hasApprovals opts")
    case False
    then show ?thesis using assms self by (auto simp: findStepByApproval_def)
  next
    case True
    show ?thesis
    proof (cases "map_of (es_approvals st) i")
      case None
      then show ?thesis using assms True self by (auto simp: findStepByApproval_def approvalFindById_def)
    next
      case (Some a)
      obtain b aps where m: "markExpiredIfNeeded (es_now st) (es_approvals st) a = (b, aps)" by fastforce
      have k: "ctxKept (es_approvals st) aps" "ar_context b = ar_context a" using ctxKept_mark [OF Some, of "es_now st"] m by simp_all
      have st1: "st1 = st\<lparr>es_approvals := aps\<rparr>"
        using assms True Some m by (auto simp: findStepByApproval_def approvalFindById_def Let_def split: option.splits)
      moreover have "planOfContext (ar_context a) = Some (pl_id plan) \<and> findByIdInOrg (es_db st) og (pl_id plan) = Some plan"
        if "res = Inr (plan, step)"
        using assms True Some m k(2) that
        by (auto simp: findStepByApproval_def approvalFindById_def planOfContext_def Let_def dest: find_SomeD split: option.splits)
      ultimately show ?thesis using k(1) Some by (auto simp: untouched_def)
    qed
  qed
  then show "\<exists>aps. st1 = st\<lparr>es_approvals := aps\<rparr> \<and> ctxKept (es_approvals st) aps"
    "res = Inr (plan, step) \<Longrightarrow> \<not> untouched st (pl_id plan) \<and> findByIdInOrg (es_db st) og (pl_id plan) = Some plan"
    by simp_all
qed

subsection \<open>Every operation keeps the invariant\<close>

lemma approved_patch_inv:
  assumes "execInv st" "findByIdInOrg (es_db st) og p = Some plan" "pp_status patch = Some PlApproved" "pp_resolvedBy patch = Some (Some u)"
  shows "execInv (setPlan st og p patch)"
    "\<forall>r\<in>set (pd_plans (es_db (setPlan st og p patch))). pl_id r = p \<longrightarrow> \<not> preApproval (pl_status r)"
proof -
  show "execInv (setPlan st og p patch)"
    unfolding setPlan_rows by (rule rows_inv [OF assms(1)]) (use assms(3,4) in simp)
  show "\<forall>r\<in>set (pd_plans (es_db (setPlan st og p patch))). pl_id r = p \<longrightarrow> \<not> preApproval (pl_status r)"
  proof (intro ballI impI)
    fix r' assume r': "r' \<in> set (pd_plans (es_db (setPlan st og p patch)))" "pl_id r' = p"
    obtain r where r: "r \<in> set (pd_plans (es_db st))" "r' = (if pl_orgId r = og \<and> pl_id r = p then planPatched patch r else r)"
      by (rule setPlan_rowE [OF r'(1)])
    then have "pl_id r = p" using r'(2) by (auto split: if_splits)
    then show "\<not> preApproval (pl_status r')" using found_row(2) [OF assms(1,2) r(1)] r(2) assms(3) by simp
  qed
qed

lemma approve_inv:
  assumes "execInv st"
  shows "execInv (fst (approve opts og p auto u st))"
proof (cases "findByIdInOrg (es_db st) og p")
  case None
  then show ?thesis using assms by (simp add: approve_def)
next
  case (Some plan)
  define st1 where "st1 = setPlan st og p (noPlanPatch\<lparr>pp_status := Some PlApproved,
      pp_autoEdit := Some (auto \<or> length (pl_steps plan) = 1), pp_resolvedAt := Some (Some (es_now st)),
      pp_resolvedBy := Some (Some u)\<rparr>)"
  define st2 where "st2 = (if truthy (pl_approvalRequestId plan) \<and> po_hasApprovals opts
      then st1\<lparr>es_approvals := snd (approvalApprove (es_now st1) (es_approvals st1) (the (pl_approvalRequestId plan)) u None)\<rparr> else st1)"
  have one: "execInv st1" "\<forall>r\<in>set (pd_plans (es_db st1)). pl_id r = p \<longrightarrow> \<not> preApproval (pl_status r)"
    unfolding st1_def by (rule approved_patch_inv(1) [OF assms Some]; simp) (rule approved_patch_inv(2) [OF assms Some]; simp)
  have "confined p st1 st2" unfolding st2_def approvalApprove_def by (simp add: confined_approvals ctxKept_resolve)
  then have "confined p st1 (fst (runNext opts og p (setPlan st2 og p (noPlanPatch\<lparr>pp_status := Some PlExecuting\<rparr>))))"
    by (rule confined_trans [OF _ confined_trans [OF confined_status confined_runNext]]) simp
  from confined_inv [OF one(1) this one(2)] show ?thesis
    unfolding approve_def Some option.case st1_def st2_def Let_def using assms by simp
qed

lemma reject_inv:
  assumes "execInv st"
  shows "execInv (fst (reject og p u st))"
proof (cases "findByIdInOrg (es_db st) og p")
  case None
  then show ?thesis using assms by (simp add: reject_def)
next
  case (Some plan)
  have "execInv (setPlan st og p (noPlanPatch\<lparr>pp_status := Some PlRejected,
      pp_resolvedAt := Some (Some (es_now st)), pp_resolvedBy := Some (Some u)\<rparr>))" if "pl_status plan = PlPendingApproval"
    unfolding setPlan_rows using found_row [OF assms Some] that by (intro rows_inv [OF assms]) auto
  then show ?thesis unfolding setPlan_def using Some assms by (auto simp: reject_def split: prod.split)
qed

lemma cancel_inv:
  assumes "execInv st"
  shows "execInv (fst (cancel og p u st))"
proof (cases "findByIdInOrg (es_db st) og p")
  case None
  then show ?thesis using assms by (simp add: cancel_def)
next
  case (Some plan)
  have "execInv (setPlan st og p (noPlanPatch\<lparr>pp_status := Some PlCancelled,
      pp_resolvedAt := Some (Some (es_now st)), pp_resolvedBy := Some (Some u)\<rparr>))"
    unfolding setPlan_rows by (intro rows_inv [OF assms]) auto
  then show ?thesis unfolding setPlan_def using Some assms by (auto simp: cancel_def split: prod.split)
qed

lemma stepApproved_inv:
  assumes "execInv st"
  shows "execInv (fst (onStepApproved opts og i st))" "execInv (fst (onStepRejected opts og i st))"
proof -
  obtain st1 res where f: "findStepByApproval opts og i st = (st1, res)" by fastforce
  obtain aps where aps: "st1 = st\<lparr>es_approvals := aps\<rparr>" "ctxKept (es_approvals st) aps" using findStep_spec(1) [OF f] by blast
  have "execInv (fst (onStepApproved opts og i st)) \<and> execInv (fst (onStepRejected opts og i st))"
  proof (cases res)
    case (Inl e)
    then show ?thesis using inv_approvals [OF assms aps(2)] aps(1) f by (simp add: onStepApproved_def onStepRejected_def)
  next
    case (Inr ps)
    obtain plan step where ps: "ps = (plan, step)" by fastforce
    note past = touched_past [OF assms conjunct1 [OF findStep_spec(2) [OF f Inr [unfolded ps]]]]
    note c1 = confined_trans [OF confined_approvals [OF aps(2), folded aps(1)]]
    have "confined (pl_id plan) st1 (fst (runNext opts og (pl_id plan) (executeStep opts plan step st1)))"
      by (rule confined_trans [OF confined_executeStep [OF refl] confined_runNext])
    moreover have "confined (pl_id plan) st1 (fst (haltPlan og (pl_id plan) n r (setStep st1 (pl_id plan) n patch)))"
        "confined (pl_id plan) st1 (fst (runNext opts og (pl_id plan) (setStep st1 (pl_id plan) n patch)))" for n r patch
      by (rule confined_trans [OF confined_setStep confined_halt], rule confined_trans [OF confined_setStep confined_runNext])
    ultimately show ?thesis
      using f Inr ps confined_inv [OF assms c1 past]
      by (simp add: onStepApproved_def onStepRejected_def Let_def case_prod_beta del: setStep_simps)
  qed
  then show "execInv (fst (onStepApproved opts og i st))" "execInv (fst (onStepRejected opts og i st))" by simp_all
qed

lemma confined_unskip: "confined p st (unskipLoop p n ss st)"
proof (induction ss arbitrary: st)
  case (Cons s ss)
  show ?case
    using confined_trans [OF confined_setStep Cons.IH] Cons.IH by simp
qed simp

lemma retry_inv:
  assumes "execInv st"
  shows "execInv (fst (retryStep opts og p n st))"
proof (cases "findByIdInOrg (es_db st) og p")
  case None
  then show ?thesis using assms by (simp add: retryStep_def)
next
  case (Some plan)
  show ?thesis
  proof (cases "List.find (\<lambda>s. ps_ordinal s = n) (pl_steps plan)")
    case None
    then show ?thesis using assms Some by (simp add: retryStep_def)
  next
    case found: (Some step)
    show ?thesis
    proof (cases "ps_status step = StFailed")
      case False
      then show ?thesis using assms Some found by (simp add: retryStep_def)
    next
      case True
      define st1 where "st1 = setStep st p n \<lparr>sp_status = Some StPending, sp_approvalRequestId = None,
          sp_executedAt = Some None, sp_outputText = Some None, sp_errorText = Some None\<rparr>"
      define st2 where "st2 = (if pl_status plan = PlFailed \<or> pl_status plan = PlExecutionFailed
          then setPlan (unskipLoop p n (pl_steps plan) st1) og p (noPlanPatch\<lparr>pp_status := Some PlExecuting\<rparr>) else st1)"
      have "step \<in> set (pd_steps (es_db st))" "ps_planId step = p"
        using find_Some_iff_first [OF found] find_SomeD [OF Some] by auto
      then have "\<not> untouched st p" using True by (auto simp: untouched_def)
      note past = touched_past [OF assms this]
      have c1: "confined p st st1" unfolding st1_def by (rule confined_setStep)
      have "confined p st1 st2"
        unfolding st2_def using confined_trans [OF confined_unskip confined_status, of PlExecuting p st1 n "pl_steps plan" og] by simp
      then have c2: "confined p st st2" by (rule confined_trans [OF c1])
      have "confined p st (fst (runNext opts og p (executeStep opts refreshed target st2)))"
        if "findByIdInOrg (es_db st2) og p = Some refreshed" for refreshed target
        using find_SomeD [OF that] by (intro confined_trans [OF c2 confined_trans [OF confined_executeStep confined_runNext]]) simp
      then have "confined p st (fst (retryStep opts og p n st))"
        unfolding retryStep_def Some found option.case st1_def [symmetric] st2_def [symmetric] Let_def
        using c2 True by (auto split: option.split)
      then show ?thesis by (rule confined_inv [OF assms _ past])
    qed
  qed
qed

lemma create_inv:
  assumes "execInv st" "planCreate (es_db st) g sid now inp = Some (p, db')"
    and "preApproval (or_default (np_status inp) PlPendingApproval)"
    and "\<forall>n. (pl_id p, n) \<notin> set (es_calls st)"
    and "\<forall>i a. map_of (es_approvals st) i = Some a \<longrightarrow> planOfContext (ar_context a) \<noteq> Some (pl_id p)"
  shows "execInv (st\<lparr>es_db := db'\<rparr>)"
proof -
  obtain row steps where new: "pd_plans db' = pd_plans (es_db st) @ [row]" "pd_steps db' = pd_steps (es_db st) @ steps"
      "pl_id row = pl_id p" "pl_id p \<notin> pl_id ` set (pd_plans (es_db st))"
      "pl_status row = or_default (np_status inp) PlPendingApproval"
      "\<forall>s\<in>set steps. ps_planId s = pl_id p \<and> ps_status s = StPending"
  proof -
    let ?i = "or_default (np_id inp) g"
    have "pl_id p = ?i" "\<forall>p\<in>set (pd_plans (es_db st)). pl_id p \<noteq> ?i"
        "pd_plans db' = pd_plans (es_db st) @ [newPlanRow ?i now inp]"
        "pd_steps db' = pd_steps (es_db st) @ map (\<lambda>(n, st). newStepRow (sid n) ?i n st) (enumerate 0 (np_steps inp))"
      using assms(2) by (auto simp: planCreate_def Let_def list_ex_iff newPlanRow_def split: if_splits)
    then show thesis by (intro that) (auto simp: newPlanRow_def newStepRow_def)
  qed
  have old: "\<forall>s\<in>set (pd_steps (es_db st)). ps_planId s \<noteq> pl_id p" proof -
    have "ps_planId ` set (pd_steps (es_db st)) \<subseteq> pl_id ` set (pd_plans (es_db st))" using assms(1) by (simp add: execInv_def)
    then show ?thesis using new(4) by (metis imageI subsetD)
  qed
  have "untouched (st\<lparr>es_db := db'\<rparr>) (pl_id p)" using assms(4,5) new(2,6) old by (auto simp: untouched_def)
  moreover have "untouched (st\<lparr>es_db := db'\<rparr>) q" if "untouched st q" for q
    using that new(2,6) by (auto simp: untouched_def)
  ultimately show ?thesis using assms(1,3) new by (auto simp: execInv_def split: if_splits)
qed

lemma delete_inv:
  assumes "execInv st"
  shows "execInv (st\<lparr>es_db := snd (planDelete (es_db st) og p)\<rparr>)"
proof (cases "findByIdInOrg (es_db st) og p")
  case None
  then show ?thesis using assms by (simp add: planDelete_def)
next
  case (Some plan)
  have keep: "untouched (st\<lparr>es_db := \<lparr>pd_plans = ps, pd_steps = filter Q (pd_steps (es_db st))\<rparr>\<rparr>) q" if "untouched st q" for q ps Q
    using that by (auto simp: untouched_def)
  have "ps_planId ` {s \<in> set (pd_steps (es_db st)). ps_planId s \<noteq> p}
      \<subseteq> pl_id ` {r \<in> set (pd_plans (es_db st)). \<not> (pl_orgId r = og \<and> pl_id r = p)}"
    using assms unfolding execInv_def by blast
  then show ?thesis using assms Some keep
    by (auto simp: planDelete_def execInv_def distinct_map inj_on_def split: if_splits)
qed

lemma expire_inv:
  assumes "execInv st"
  shows "execInv (st\<lparr>es_db := snd (expireStale (es_db st) now)\<rparr>)"
proof -
  have "execInv (st\<lparr>es_db := (es_db st)\<lparr>pd_plans := map (\<lambda>p. if isStale now p then p\<lparr>pl_status := PlExpired\<rparr> else p) (pd_plans (es_db st))\<rparr>\<rparr>)"
    by (rule rows_inv [OF assms]) (simp add: isStale_def)
  then show ?thesis using assms by (simp add: expireStale_def Let_def)
qed

lemma exec_step_inv:
  assumes "execInv st" "exec_step opts st st'"
  shows "execInv st'"
  using assms(2,1)
proof cases
  case (ex_create g sid now inp p db')
  then show ?thesis using create_inv [OF assms(1)] by blast
next
  case (ex_approvals aps)
  have "ctxKept (es_approvals st) aps" using ex_approvals(2) unfolding ctxKept_def by meson
  then show ?thesis using ex_approvals(1) inv_approvals [OF assms(1)] by simp
next
  case (ex_patch patch og p)
  have "execInv (setPlan st og p patch)"
    unfolding setPlan_rows by (rule rows_inv [OF assms(1)]) (use ex_patch(2,3) in simp)
  then show ?thesis using ex_patch(1) by simp
next
  case (ex_tick w now)
  have "untouched (st\<lparr>es_now := now, es_world := w\<rparr>) p = untouched st p" for p by (simp add: untouched_def)
  then show ?thesis using assms(1) ex_tick by (simp add: execInv_def)
qed (simp_all add: assms(1) approve_inv reject_inv cancel_inv stepApproved_inv retry_inv expire_inv delete_inv)

definition exec_init :: "'w exec_state \<Rightarrow> bool" where
  "exec_init st \<longleftrightarrow> es_db st = \<lparr>pd_plans = [], pd_steps = []\<rparr> \<and> es_approvals st = [] \<and> es_calls st = []"

interpretation executor: step_system exec_init "exec_step opts" execInv for opts
  by unfold_locales (simp add: exec_init_def execInv_def, rule exec_step_inv)

text \<open>C1: nothing runs before its plan is approved. In every state the system reaches, whatever
  the adapters do and however operations, approvals, expiry and clock interleave, a step that
  reached an adapter belongs to a plan that, while its row exists, is past its approval and
  records who resolved it; a plan still waiting, rejected or expired has only pending steps and
  no step approval.\<close>

theorem no_execution_before_approval:
  assumes "exec_init st0" "(exec_step opts)\<^sup>*\<^sup>* st0 st" "r \<in> set (pd_plans (es_db st))"
  shows "((pl_id r, n) \<in> set (es_calls st) \<longrightarrow> \<not> preApproval (pl_status r) \<and> pl_resolvedBy r \<noteq> None)
    \<and> (preApproval (pl_status r) \<longrightarrow> (\<forall>s\<in>set (pd_steps (es_db st)). ps_planId s = pl_id r \<longrightarrow> ps_status s = StPending))"
proof -
  have "if preApproval (pl_status r) then untouched st (pl_id r) else pl_resolvedBy r \<noteq> None"
    using executor.reachable_inv [OF assms(1,2)] assms(3) unfolding execInv_def by blast
  then show ?thesis by (cases "preApproval (pl_status r)") (simp_all add: untouched_def)
qed

definition exOpts :: "unit PlanExecutorOptions" where
  "exOpts = \<lparr>po_adapter = (\<lambda>w plan step action. (AdReturned True (Some ''ok'') None, w)), po_hasApprovals = True,
     po_hasAudit = True, po_newId = (\<lambda>aps. replicate (Suc (length aps)) CHR ''a''), po_resolveRequesterTeamId = None\<rparr>"

definition exInit :: "unit exec_state" where
  "exInit = \<lparr>es_db = \<lparr>pd_plans = [], pd_steps = []\<rparr>, es_approvals = [], es_world = (), es_now = 0, es_audit = [], es_calls = []\<rparr>"

definition exSteps :: "NewRemediationPlanStep list" where
  "exSteps = [exNewStep ''ops.run_command'' exArgvParams, exNewStep ''ops.cluster_shell'' exShellParams]"

definition exCreated :: "unit exec_state" where
  "exCreated = exInit\<lparr>es_db := snd (the (planCreate (es_db exInit) ''g'' (\<lambda>n. []) 0 (exNewPlan exSteps)))\<rparr>"

lemma exCreated_step: "exec_step exOpts exInit exCreated"
proof -
  obtain p db' where c: "planCreate (es_db exInit) ''g'' (\<lambda>n. []) 0 (exNewPlan exSteps) = Some (p, db')"
    by (fastforce simp: planCreate_def Let_def exInit_def)
  have "exec_step exOpts exInit (exInit\<lparr>es_db := db'\<rparr>)"
    by (rule exec_step.ex_create [OF c]) (simp_all add: exNewPlan_def exInit_def)
  then show ?thesis using c by (simp add: exCreated_def)
qed

theorem no_execution_before_approval_witness:
  "es_calls (fst (approve exOpts ''org'' ''p'' True ''u'' exCreated)) = [(''p'', 0), (''p'', 1)]
   \<and> (\<exists>r. pd_plans (es_db (fst (approve exOpts ''org'' ''p'' True ''u'' exCreated))) = [r]
        \<and> \<not> preApproval (pl_status r) \<and> pl_resolvedBy r \<noteq> None)"
proof -
  let ?st = "fst (approve exOpts ''org'' ''p'' True ''u'' exCreated)"
  have reach: "(exec_step exOpts)\<^sup>*\<^sup>* exInit ?st"
    using exCreated_step exec_step.ex_approve [of exOpts exCreated] by (meson rtranclp.intros)
  have init: "exec_init exInit" by (simp add: exec_init_def exInit_def)
  have calls: "es_calls ?st = [(''p'', 0), (''p'', 1)]" by code_simp
  have rows: "map pl_id (pd_plans (es_db ?st)) = [''p'']" by code_simp
  from map_single [OF rows] obtain r where r: "pd_plans (es_db ?st) = [r]" "pl_id r = ''p''" by blast
  have mem: "(pl_id r, 0) \<in> set (es_calls ?st)" unfolding calls r(2) by simp
  have "r \<in> set (pd_plans (es_db ?st))" using r(1) by simp
  then have "\<not> preApproval (pl_status r) \<and> pl_resolvedBy r \<noteq> None"
    using no_execution_before_approval [OF init reach, of r 0] mem by blast
  then show ?thesis using calls r(1) by blast
qed

end
