(* ===== verification/Plan_Run.thy ===== *)
theory Plan_Run
  imports Plan_Executor
begin

text \<open>
  What a run of the plan executor does from its start to its end: the order of the adapter
  calls, the steps that are left, and what the callbacks do not check.
\<close>

section \<open>The effect of one execution\<close>

text \<open>The ordinals of a plan's pending steps of some sort, and the keys of the step rows.\<close>

definition pendingOrds :: "(RemediationPlanStep \<Rightarrow> bool) \<Rightarrow> 'w exec_state \<Rightarrow> string \<Rightarrow> nat set" where
  "pendingOrds R st p = {n. \<exists>s\<in>set (pd_steps (es_db st)). ps_planId s = p \<and> ps_status s = StPending \<and> R s \<and> ps_ordinal s = n}"

definition stable :: "(RemediationPlanStep \<Rightarrow> bool) \<Rightarrow> bool" where
  "stable R \<longleftrightarrow> (\<forall>patch s. R (stepPatched patch s) = R s)"

definition stepKeys :: "'w exec_state \<Rightarrow> (string \<times> nat) list" where
  "stepKeys st = map (\<lambda>s. (ps_planId s, ps_ordinal s)) (pd_steps (es_db st))"

lemma stepKeys_setStep [simp]: "stepKeys (setStep st p n patch) = stepKeys st"
  by (simp add: stepKeys_def)

lemma pendingOrds_setStep:
  assumes "stable R" "sp_status patch = Some x" "x \<noteq> StPending"
  shows "pendingOrds R (setStep st p n patch) p = pendingOrds R st p - {n}"
proof -
  define g where "g = (\<lambda>s. if ps_planId s = p \<and> ps_ordinal s = n then stepPatched patch s else s)"
  define Q where "Q = (\<lambda>m (s :: RemediationPlanStep). ps_planId s = p \<and> ps_status s = StPending \<and> R s \<and> ps_ordinal s = m)"
  have g: "Q m (g s) \<longleftrightarrow> Q m s \<and> m \<noteq> n" for m s
    using assms by (cases "ps_planId s = p \<and> ps_ordinal s = n") (auto simp: g_def Q_def)
  have "pendingOrds R (setStep st p n patch) p = {m. \<exists>s\<in>set (map g (pd_steps (es_db st))). Q m s}"
    by (simp add: pendingOrds_def g_def Q_def)
  also have "\<dots> = {m. \<exists>s\<in>set (pd_steps (es_db st)). Q m s} - {n}" by (auto simp: g)
  finally show ?thesis by (simp add: pendingOrds_def Q_def)
qed

lemma skipLoop_effect:
  assumes "stable R"
  shows "pd_plans (es_db (skipLoop p n ss st)) = pd_plans (es_db st) \<and> es_calls (skipLoop p n ss st) = es_calls st
   \<and> stepKeys (skipLoop p n ss st) = stepKeys st
   \<and> pendingOrds R (skipLoop p n ss st) p = pendingOrds R st p - {ps_ordinal s | s. s \<in> set ss \<and> ps_ordinal s > n \<and> ps_status s = StPending}"
proof (induction ss arbitrary: st)
  case (Cons s ss)
  have "pendingOrds R (setStep st p (ps_ordinal s) (noStepPatch\<lparr>sp_status := Some StSkipped\<rparr>)) p = pendingOrds R st p - {ps_ordinal s}"
    by (rule pendingOrds_setStep [where x = StSkipped, OF assms]) simp_all
  then show ?case
    by (cases "ps_ordinal s > n \<and> ps_status s = StPending") (simp_all only: skipLoop.simps if_True if_False Cons.IH, simp_all, blast+)
qed simp

lemma find_setPlan:
  assumes "findByIdInOrg (es_db st) og p = Some plan"
  shows "\<exists>plan'. findByIdInOrg (es_db (setPlan st og p patch)) og p = Some plan'
    \<and> pl_status plan' = or_default (pp_status patch) (pl_status plan)
    \<and> pl_autoEdit plan' = or_default (pp_autoEdit patch) (pl_autoEdit plan)"
proof -
  have "es_db (setPlan st og p patch) = snd (updatePlan (es_db st) og p patch)" by (simp add: setPlan_def)
  then show ?thesis using updatePlan_found [OF assms, of patch] by auto
qed

lemma find_rows:
  assumes "findByIdInOrg (es_db st) og p = Some plan" "pd_plans (es_db st') = pd_plans (es_db st)"
  shows "\<exists>plan'. findByIdInOrg (es_db st') og p = Some plan' \<and> pl_status plan' = pl_status plan \<and> pl_autoEdit plan' = pl_autoEdit plan"
  using assms by (auto simp: findByIdInOrg_def planFromRows_def split: list.splits)

text \<open>The end of an execution: a step row no longer pending, the plan rows as they were, and the
  plan halted or not.\<close>

definition ended :: "(RemediationPlanStep \<Rightarrow> bool) \<Rightarrow> RemediationPlan \<Rightarrow> RemediationPlanStep \<Rightarrow> 'w exec_state \<Rightarrow> 'w exec_state \<Rightarrow> bool" where
  "ended R plan step st st' \<longleftrightarrow> (\<exists>st2. pd_plans (es_db st2) = pd_plans (es_db st)
     \<and> pendingOrds R st2 (pl_id plan) = pendingOrds R st (pl_id plan) - {ps_ordinal step}
     \<and> es_calls st2 = es_calls st \<and> stepKeys st2 = stepKeys st
     \<and> (st' = st2 \<or> (\<exists>reason. st' = fst (haltPlan (pl_orgId plan) (pl_id plan) (ps_ordinal step) reason st2))))"

lemma ended_halt:
  assumes "pd_plans (es_db st2) = pd_plans (es_db st)" "es_calls st2 = es_calls st" "stepKeys st2 = stepKeys st"
    "pendingOrds R st2 (pl_id plan) = pendingOrds R st (pl_id plan) - {ps_ordinal step}"
  shows "ended R plan step st (haltUnlessContinue plan step r st2)" "ended R plan step st st2"
  using assms by (auto simp: ended_def haltUnlessContinue_def)

lemma ended_set:
  assumes "stable R" "sp_status patch = Some x" "x \<noteq> StPending"
  shows "ended R plan step st (haltUnlessContinue plan step r (setStep st (pl_id plan) (ps_ordinal step) patch))"
    "ended R plan step st (haltUnlessContinue plan step r
       (auditRun opts plan step ok e ps (setStep st (pl_id plan) (ps_ordinal step) patch)))"
    "ended R plan step st (haltUnlessContinue plan step r
       (auditClusterShell opts plan step ok e cp (setStep st (pl_id plan) (ps_ordinal step) patch)))"
    "ended R plan step st (auditRun opts plan step ok e ps (setStep st (pl_id plan) (ps_ordinal step) patch))"
    "ended R plan step st (auditClusterShell opts plan step ok e cp (setStep st (pl_id plan) (ps_ordinal step) patch))"
proof -
  let ?st = "setStep st (pl_id plan) (ps_ordinal step) patch"
  have "pendingOrds R (auditRun opts plan step ok e ps ?st) (pl_id plan) = pendingOrds R st (pl_id plan) - {ps_ordinal step}"
      "pendingOrds R (auditClusterShell opts plan step ok e cp ?st) (pl_id plan) = pendingOrds R st (pl_id plan) - {ps_ordinal step}"
    using pendingOrds_setStep [OF assms, of st "pl_id plan" "ps_ordinal step"] by (simp_all only: pendingOrds_def audit_db)
  then show "ended R plan step st (haltUnlessContinue plan step r ?st)"
    "ended R plan step st (haltUnlessContinue plan step r (auditRun opts plan step ok e ps ?st))"
    "ended R plan step st (haltUnlessContinue plan step r (auditClusterShell opts plan step ok e cp ?st))"
    "ended R plan step st (auditRun opts plan step ok e ps ?st)" "ended R plan step st (auditClusterShell opts plan step ok e cp ?st)"
    using pendingOrds_setStep [OF assms, of st "pl_id plan" "ps_ordinal step"] by (simp_all add: ended_halt stepKeys_def)
qed

lemma fail_status: "sp_status (failPatch out err) = Some StFailed"
  by (simp add: failPatch_def)

lemmas ended_fail = ended_set [OF _ fail_status, simplified]

text \<open>An execution calls the adapter once or, when its parameters are not readable, not at all.\<close>

lemma run_ended:
  assumes "stable R"
  shows "\<exists>st1. ended R plan step st1 (executeRun opts plan step st) \<and> es_db st1 = es_db st
     \<and> es_calls st1 = es_calls st @ (if readOpsRunCommandParams step = None then [] else [(pl_id plan, ps_ordinal step)])"
proof (cases "readOpsRunCommandParams step")
  case None
  then show ?thesis by (intro exI [of _ st]) (simp add: executeRun_def Let_def ended_fail assms)
next
  case (Some params)
  obtain r st1 where c: "callAdapter opts plan step \<lparr>ac_type = ''ops.run_command'',
      ac_targetService = rc_connectorId params, ac_params = [(''argv'', JArr (map JStr (rc_argv params)))]\<rparr> st = (r, st1)"
    by fastforce
  have "ended R plan step st1 (executeRun opts plan step st)"
    unfolding executeRun_def Some option.case c
    by (cases r) (simp_all add: Let_def ended_fail assms ended_set(4) [where x = StDone, OF assms])
  then show ?thesis using callAdapter_db [OF c] Some by auto
qed

lemma shell_ended:
  assumes "stable R"
  shows "\<exists>st1. ended R plan step st1 (executeShell opts plan step st) \<and> es_db st1 = es_db st
     \<and> es_calls st1 = es_calls st @ (if readClusterShellParams step = None then [] else [(pl_id plan, ps_ordinal step)])"
proof (cases "readClusterShellParams step")
  case None
  then show ?thesis by (intro exI [of _ st]) (simp add: executeShell_def Let_def ended_fail assms)
next
  case (Some params)
  obtain r st1 where c: "callAdapter opts plan step \<lparr>ac_type = ''ops.cluster_shell'', ac_targetService = cs_connectorId params,
      ac_params = [(''script'', JStr (cs_script params)), (''scope'', JStr (cs_scope params))]
        @ optField ''namespace'' (cs_namespace params) @ optField ''image'' (cs_image params)\<rparr> st = (r, st1)"
    by fastforce
  have "ended R plan step st1 (executeShell opts plan step st)"
    unfolding executeShell_def Some option.case c
    by (cases r) (simp_all add: Let_def ended_fail assms ended_set(5) [where x = StDone, OF assms])
  then show ?thesis using callAdapter_db [OF c] Some by auto
qed

text \<open>The steps an execution hands to an adapter.\<close>

definition reachesAdapter :: "RemediationPlanStep \<Rightarrow> bool" where
  "reachesAdapter step \<longleftrightarrow> (if ps_kindOf step = ''ops.cluster_shell'' then readClusterShellParams step \<noteq> None
     else readOpsRunCommandParams step \<noteq> None)"

lemma read_patched:
  "readOpsRunCommandParams (stepPatched patch s) = readOpsRunCommandParams s"
  "readClusterShellParams (stepPatched patch s) = readClusterShellParams s"
  by (simp_all only: readOpsRunCommandParams_def readClusterShellParams_def stepPatched_simps)

lemma stable_reaches: "stable reachesAdapter" and stable_all: "stable (\<lambda>s. True)"
  by (simp_all only: stable_def reachesAdapter_def read_patched stepPatched_simps simp_thms)

lemma step_ended:
  assumes "stable R"
  shows "\<exists>st1. ended R plan step st1 (executeStep opts plan step st) \<and> pd_plans (es_db st1) = pd_plans (es_db st)
     \<and> stepKeys st1 = stepKeys st \<and> pendingOrds R st1 (pl_id plan) = pendingOrds R st (pl_id plan) - {ps_ordinal step}
     \<and> es_calls st1 = es_calls st @ (if reachesAdapter step then [(pl_id plan, ps_ordinal step)] else [])"
proof -
  let ?st = "setStep st (pl_id plan) (ps_ordinal step)
      (noStepPatch\<lparr>sp_status := Some StExecuting, sp_executedAt := Some (Some (es_now st))\<rparr>)"
  have s: "pendingOrds R ?st (pl_id plan) = pendingOrds R st (pl_id plan) - {ps_ordinal step}"
    by (rule pendingOrds_setStep [where x = StExecuting, OF assms]) simp_all
  have db: "pendingOrds R st1 p = pendingOrds R ?st p" "stepKeys st1 = stepKeys ?st" "pd_plans (es_db st1) = pd_plans (es_db st)"
    if "es_db st1 = es_db ?st" for p and st1 :: "'a exec_state"
    using that by (simp_all add: pendingOrds_def stepKeys_def)
  have "\<exists>st1. ended R plan step st1 (executeStep opts plan step st) \<and> es_db st1 = es_db ?st
      \<and> es_calls st1 = es_calls st @ (if reachesAdapter step then [(pl_id plan, ps_ordinal step)] else [])"
  proof (cases "ps_kindOf step = ''ops.cluster_shell''")
    case True
    then have "executeStep opts plan step st = executeShell opts plan step ?st"
        "reachesAdapter step \<longleftrightarrow> readClusterShellParams step \<noteq> None"
      by (simp_all only: executeStep_def Let_def reachesAdapter_def refl if_True)
    then show ?thesis using shell_ended [OF assms, of plan step opts ?st] by (cases "readClusterShellParams step") simp_all
  next
    case False
    then have "executeStep opts plan step st = executeRun opts plan step ?st"
        "reachesAdapter step \<longleftrightarrow> readOpsRunCommandParams step \<noteq> None"
      by (simp_all only: executeStep_def Let_def reachesAdapter_def if_False)
    then show ?thesis using run_ended [OF assms, of plan step opts ?st] by (cases "readOpsRunCommandParams step") simp_all
  qed
  then show ?thesis using db s by (metis stepKeys_setStep)
qed

lemma find_sorted:
  "sorted (map f xs) \<Longrightarrow> List.find P xs = Some x \<Longrightarrow> y \<in> set xs \<Longrightarrow> P y \<Longrightarrow> f x \<le> f y"
  by (induction xs) (auto split: if_splits)

lemma halt_effect:
  assumes "stable R" "findByIdInOrg (es_db st) og p = Some plan"
  shows "\<exists>plan'. findByIdInOrg (es_db (fst (haltPlan og p n r st))) og p = Some plan'
      \<and> pl_status plan' = PlExecutionFailed \<and> pl_autoEdit plan' = pl_autoEdit plan"
    "es_calls (fst (haltPlan og p n r st)) = es_calls st" "stepKeys (fst (haltPlan og p n r st)) = stepKeys st"
    "pendingOrds R (fst (haltPlan og p n r st)) p = pendingOrds R st p \<inter> {..n}"
proof -
  let ?st = "skipLoop p n (pl_steps plan) st"
  have h: "fst (haltPlan og p n r st) = setPlan ?st og p (noPlanPatch\<lparr>pp_status := Some PlExecutionFailed\<rparr>)"
    using assms(2) by (simp add: haltPlan_def)
  note sk = skipLoop_effect [OF assms(1), of p n "pl_steps plan" st]
  obtain plan1 where p1: "findByIdInOrg (es_db ?st) og p = Some plan1" "pl_autoEdit plan1 = pl_autoEdit plan"
    using find_rows [OF assms(2)] sk by blast
  show "\<exists>plan'. findByIdInOrg (es_db (fst (haltPlan og p n r st))) og p = Some plan'
      \<and> pl_status plan' = PlExecutionFailed \<and> pl_autoEdit plan' = pl_autoEdit plan"
    using find_setPlan [OF p1(1), of "noPlanPatch\<lparr>pp_status := Some PlExecutionFailed\<rparr>"] p1(2) unfolding h
    by (simp add: noPlanPatch_def)
  show "es_calls (fst (haltPlan og p n r st)) = es_calls st" "stepKeys (fst (haltPlan og p n r st)) = stepKeys st"
    using sk by (simp_all add: h stepKeys_def)
  have "pendingOrds R (fst (haltPlan og p n r st)) p = pendingOrds R ?st p" by (simp add: h pendingOrds_def)
  moreover have "pl_steps plan = stepsOf (es_db st) p" using find_SomeD [OF assms(2)] by simp
  ultimately show "pendingOrds R (fst (haltPlan og p n r st)) p = pendingOrds R st p \<inter> {..n}"
    using sk by (auto simp: pendingOrds_def not_less)
qed

text \<open>One execution of the first pending step: it and, on a halt, all later steps leave the pending
  ones, and at most its own call is made.\<close>

lemma exec_effect:
  assumes "stable R" "findByIdInOrg (es_db st) og p = Some plan" "pendingOrds R st p \<subseteq> {ps_ordinal step..}"
  shows "\<exists>plan'. findByIdInOrg (es_db (executeStep opts plan step st)) og p = Some plan' \<and> pl_autoEdit plan' = pl_autoEdit plan
      \<and> (pl_status plan' = pl_status plan \<and> pendingOrds R (executeStep opts plan step st) p = pendingOrds R st p - {ps_ordinal step}
         \<or> pl_status plan' = PlExecutionFailed \<and> pendingOrds R (executeStep opts plan step st) p = {})"
    "es_calls (executeStep opts plan step st) = es_calls st @ (if reachesAdapter step then [(p, ps_ordinal step)] else [])
     \<and> stepKeys (executeStep opts plan step st) = stepKeys st"
proof -
  let ?st' = "executeStep opts plan step st"
  have pid: "pl_id plan = p" "pl_orgId plan = og" using find_SomeD [OF assms(2)] by simp_all
  obtain st1 where st1: "ended R plan step st1 ?st'" "pd_plans (es_db st1) = pd_plans (es_db st)" "stepKeys st1 = stepKeys st"
      "pendingOrds R st1 p = pendingOrds R st p - {ps_ordinal step}"
      "es_calls st1 = es_calls st @ (if reachesAdapter step then [(p, ps_ordinal step)] else [])"
    using step_ended [OF assms(1), of plan step opts st] unfolding pid by blast
  then obtain st2 where st2: "pd_plans (es_db st2) = pd_plans (es_db st)" "stepKeys st2 = stepKeys st"
      "pendingOrds R st2 p = pendingOrds R st p - {ps_ordinal step}"
      "es_calls st2 = es_calls st @ (if reachesAdapter step then [(p, ps_ordinal step)] else [])"
      "?st' = st2 \<or> (\<exists>reason. ?st' = fst (haltPlan og p (ps_ordinal step) reason st2))"
    unfolding ended_def pid by auto
  obtain plan2 where p2: "findByIdInOrg (es_db st2) og p = Some plan2" "pl_status plan2 = pl_status plan" "pl_autoEdit plan2 = pl_autoEdit plan"
    using find_rows [OF assms(2) st2(1)] by blast
  have "pendingOrds R st2 p \<inter> {..ps_ordinal step} = {}" using st2(3) assms(3) by auto
  note h = halt_effect [OF assms(1) p2(1), of "ps_ordinal step", unfolded this]
  show "\<exists>plan'. findByIdInOrg (es_db ?st') og p = Some plan' \<and> pl_autoEdit plan' = pl_autoEdit plan
      \<and> (pl_status plan' = pl_status plan \<and> pendingOrds R ?st' p = pendingOrds R st p - {ps_ordinal step}
         \<or> pl_status plan' = PlExecutionFailed \<and> pendingOrds R ?st' p = {})"
    using st2(3,5) p2 h(1,4) by metis
  show "es_calls ?st' = es_calls st @ (if reachesAdapter step then [(p, ps_ordinal step)] else []) \<and> stepKeys ?st' = stepKeys st"
    using st2(2,4,5) h(2,3) by metis
qed

lemma first_pending:
  assumes "findByIdInOrg (es_db st) og p = Some plan" "List.find (\<lambda>s. ps_status s = StPending) (pl_steps plan) = Some nxt"
  shows "nxt \<in> set (pd_steps (es_db st))" "ps_planId nxt = p" "ps_status nxt = StPending" "pendingOrds R st p \<subseteq> {ps_ordinal nxt..}"
proof -
  have steps: "pl_steps plan = stepsOf (es_db st) p" using find_SomeD [OF assms(1)] by simp
  then show "nxt \<in> set (pd_steps (es_db st))" "ps_planId nxt = p" "ps_status nxt = StPending"
    using find_Some_iff_first [OF assms(2)] by simp_all
  have "sorted (map ps_ordinal (stepsOf (es_db st) p))" by (simp add: stepsOf_def)
  then have "ps_ordinal nxt \<le> ps_ordinal s" if "s \<in> set (pd_steps (es_db st))" "ps_planId s = p" "ps_status s = StPending" for s
    using find_sorted [where f = ps_ordinal, OF _ assms(2) [unfolded steps]] that by simp
  then show "pendingOrds R st p \<subseteq> {ps_ordinal nxt..}" by (auto simp: pendingOrds_def)
qed

lemma pending_unique:
  assumes "distinct (stepKeys st)" "s \<in> set (pd_steps (es_db st))" "ps_planId s = p" "ps_status s = StPending"
  shows "ps_ordinal s \<in> pendingOrds R st p \<longleftrightarrow> R s"
proof -
  have "t = s" if "t \<in> set (pd_steps (es_db st))" "ps_planId t = p" "ps_ordinal t = ps_ordinal s" for t
    using assms(1,2,3) that unfolding stepKeys_def distinct_map inj_on_def by blast
  then show ?thesis using assms(2,3,4) by (auto simp: pendingOrds_def)
qed

lemma auto_run:
  assumes "findByIdInOrg (es_db st) og p = Some plan" "pl_autoEdit plan" "distinct (stepKeys st)"
    and "pl_status plan \<noteq> PlFailed" "pl_status plan \<noteq> PlCancelled"
    and "pl_status plan = PlExecutionFailed \<Longrightarrow> pendingOrds (\<lambda>s. True) st p = {}"
  shows "\<exists>ns plan'. es_calls (fst (runNext opts og p st)) = es_calls st @ map (Pair p) ns \<and> sorted_wrt (<) ns
    \<and> set ns \<subseteq> pendingOrds (\<lambda>s. True) st p \<and> pendingOrds (\<lambda>s. True) (fst (runNext opts og p st)) p = {}
    \<and> findByIdInOrg (es_db (fst (runNext opts og p st))) og p = Some plan'
    \<and> (snd (runNext opts og p st) = Inr Completed \<and> pl_status plan' = PlApplied \<and> set ns = pendingOrds reachesAdapter st p
       \<or> (\<exists>n e. snd (runNext opts og p st) = Inr (Failed n e)) \<and> pl_status plan' = PlExecutionFailed)"
  using assms
proof (induction opts og p st arbitrary: plan rule: runNext.induct)
  case (1 opts og p st)
  note plan = "1.prems"(1) and unf = runNext.simps [of opts og p st]
  consider (failed) "pl_status plan = PlExecutionFailed"
    | (finished) "pl_status plan \<noteq> PlExecutionFailed" "List.find (\<lambda>s. ps_status s = StPending) (pl_steps plan) = None"
    | (pending) nxt where "pl_status plan \<noteq> PlExecutionFailed" "List.find (\<lambda>s. ps_status s = StPending) (pl_steps plan) = Some nxt"
    by (cases "List.find (\<lambda>s. ps_status s = StPending) (pl_steps plan)") auto
  then show ?case
  proof cases
    case failed
    then have "fst (runNext opts og p st) = st" "\<exists>n e. snd (runNext opts og p st) = Inr (Failed n e)"
      using plan by (auto simp: unf split: option.split)
    then show ?thesis using plan failed "1.prems"(6) by (intro exI [of _ "[]"]) simp
  next
    case finished
    have none: "pendingOrds R st p = {}" for R
      using finished(2) find_SomeD [OF plan] by (auto simp: pendingOrds_def find_None_all)
    have r: "runNext opts og p st = (setPlan st og p (noPlanPatch\<lparr>pp_status := Some PlApplied\<rparr>), Inr Completed)"
      using finished plan "1.prems"(4,5) by (simp add: unf)
    have "pendingOrds R (setPlan st og p (noPlanPatch\<lparr>pp_status := Some PlApplied\<rparr>)) p = {}" for R
      using none by (simp add: pendingOrds_def)
    then show ?thesis using find_setPlan [OF plan, of "noPlanPatch\<lparr>pp_status := Some PlApplied\<rparr>"] none
      by (intro exI [of _ "[]"]) (simp add: r, simp add: noPlanPatch_def, blast)
  next
    case pending
    let ?st = "executeStep opts plan nxt st" and ?n = "ps_ordinal nxt"
    note fp = first_pending [OF plan pending(2)]
    have r: "runNext opts og p st = runNext opts og p ?st"
      using pending plan "1.prems"(2,4,5) by (simp add: unf)
    note ef = exec_effect(1) [OF stable_all plan fp(4), of opts] exec_effect(1) [OF stable_reaches plan fp(4), of opts]
      exec_effect(2) [OF stable_all plan fp(4), of opts]
    obtain plan1 where p1: "findByIdInOrg (es_db ?st) og p = Some plan1" "pl_autoEdit plan1"
        "pl_status plan1 \<noteq> PlFailed" "pl_status plan1 \<noteq> PlCancelled"
        "pl_status plan1 = PlExecutionFailed \<Longrightarrow> pendingOrds (\<lambda>s. True) ?st p = {}"
        "pendingOrds (\<lambda>s. True) ?st p \<subseteq> pendingOrds (\<lambda>s. True) st p - {?n}"
        "pl_status plan1 \<noteq> PlExecutionFailed \<Longrightarrow> pendingOrds reachesAdapter ?st p = pendingOrds reachesAdapter st p - {?n}"
      using ef(1,2) "1.prems"(2,4,5) pending(1) by (auto 0 3)
    have keys: "distinct (stepKeys ?st)" using ef(3) "1.prems"(3) by simp
    have nf: "\<not> (pl_status plan = PlFailed \<or> pl_status plan = PlExecutionFailed)" using pending(1) "1.prems"(4) by simp
    obtain ns plan' where IH: "es_calls (fst (runNext opts og p ?st)) = es_calls ?st @ map (Pair p) ns" "sorted_wrt (<) ns"
        "set ns \<subseteq> pendingOrds (\<lambda>s. True) ?st p" "pendingOrds (\<lambda>s. True) (fst (runNext opts og p ?st)) p = {}"
        "findByIdInOrg (es_db (fst (runNext opts og p ?st))) og p = Some plan'"
        "snd (runNext opts og p ?st) = Inr Completed \<and> pl_status plan' = PlApplied \<and> set ns = pendingOrds reachesAdapter ?st p
         \<or> (\<exists>n e. snd (runNext opts og p ?st) = Inr (Failed n e)) \<and> pl_status plan' = PlExecutionFailed"
      using "1.IH" [OF plan nf "1.prems"(5) pending(2) "1.prems"(2) p1(1,2) keys p1(3,4,5)] by blast
    have comp: "pl_status plan1 \<noteq> PlExecutionFailed" if "snd (runNext opts og p ?st) = Inr Completed"
      using that p1(1) by (auto simp: runNext.simps [of opts og p ?st] split: option.splits)
    let ?cs = "if reachesAdapter nxt then [?n] else []"
    have mem: "?n \<in> pendingOrds (\<lambda>s. True) st p" "?n \<in> pendingOrds reachesAdapter st p \<longleftrightarrow> reachesAdapter nxt"
      using pending_unique [OF "1.prems"(3) fp(1,2,3)] by simp_all
    have "pendingOrds (\<lambda>s. True) ?st p \<subseteq> {?n<..}" proof -
      have "{?n..} - {?n} = {?n<..}" by auto
      then show ?thesis using p1(6) fp(4) [of "\<lambda>s. True"] by blast
    qed
    then have "sorted_wrt (<) (?cs @ ns)" using IH(2,3) by auto
    moreover have "set (?cs @ ns) \<subseteq> pendingOrds (\<lambda>s. True) st p" using IH(3) p1(6) mem(1) by auto
    moreover have "set (?cs @ ns) = pendingOrds reachesAdapter st p" if "set ns = pendingOrds reachesAdapter ?st p"
        "pl_status plan1 \<noteq> PlExecutionFailed"
      using that p1(7) mem(2) by auto
    moreover have "es_calls (fst (runNext opts og p ?st)) = es_calls st @ map (Pair p) (?cs @ ns)" using IH(1) ef(3) by simp
    ultimately show ?thesis unfolding r using IH(4,5,6) comp by (intro exI [of _ "?cs @ ns"] exI [of _ plan']) blast
  qed
qed

text \<open>C2: an approval that needs no step approvals runs the plan to its end. When a pending plan is
  approved for automatic execution, or has a single step, the call returns, whatever the adapters
  do; the steps reach the adapters one at a time in strictly increasing ordinal; no step stays
  pending; and either the plan is applied, in which case exactly the steps with readable
  parameters were handed to an adapter, or its execution failed.\<close>

theorem approve_runs_plan:
  assumes "findByIdInOrg (es_db st) og p = Some plan" "pl_status plan = PlPendingApproval"
    and "auto \<or> length (pl_steps plan) = 1" "distinct (stepKeys st)"
  shows "\<exists>ns plan'. es_calls (fst (approve opts og p auto u st)) = es_calls st @ map (Pair p) ns \<and> sorted_wrt (<) ns
    \<and> set ns \<subseteq> pendingOrds (\<lambda>s. True) st p \<and> pendingOrds (\<lambda>s. True) (fst (approve opts og p auto u st)) p = {}
    \<and> findByIdInOrg (es_db (fst (approve opts og p auto u st))) og p = Some plan'
    \<and> (snd (approve opts og p auto u st) = Inr Completed \<and> pl_status plan' = PlApplied \<and> set ns = pendingOrds reachesAdapter st p
       \<or> (\<exists>n e. snd (approve opts og p auto u st) = Inr (Failed n e)) \<and> pl_status plan' = PlExecutionFailed)"
proof -
  define st1 where "st1 = setPlan st og p (noPlanPatch\<lparr>pp_status := Some PlApproved,
      pp_autoEdit := Some (auto \<or> length (pl_steps plan) = 1), pp_resolvedAt := Some (Some (es_now st)),
      pp_resolvedBy := Some (Some u)\<rparr>)"
  define st2 where "st2 = (if truthy (pl_approvalRequestId plan) \<and> po_hasApprovals opts
      then st1\<lparr>es_approvals := snd (approvalApprove (es_now st1) (es_approvals st1) (the (pl_approvalRequestId plan)) u None)\<rparr> else st1)"
  define st3 where "st3 = setPlan st2 og p (noPlanPatch\<lparr>pp_status := Some PlExecuting\<rparr>)"
  have r: "approve opts og p auto u st = runNext opts og p st3"
    unfolding approve_def assms(1) option.case st1_def st2_def st3_def Let_def using assms(2) by simp
  have same: "pd_steps (es_db st3) = pd_steps (es_db st)" "es_calls st3 = es_calls st"
    by (simp_all add: st3_def st2_def st1_def)
  obtain plan1 where p1: "findByIdInOrg (es_db st1) og p = Some plan1" "pl_autoEdit plan1"
    using find_setPlan [OF assms(1)] assms(3) unfolding st1_def by fastforce
  have "findByIdInOrg (es_db st2) og p = Some plan1" using p1(1) by (simp add: st2_def)
  from find_setPlan [OF this] obtain plan3 where p3: "findByIdInOrg (es_db st3) og p = Some plan3" "pl_status plan3 = PlExecuting" "pl_autoEdit plan3"
    unfolding st3_def using p1(2) by (fastforce simp: noPlanPatch_def)
  have ords: "pendingOrds R st3 p = pendingOrds R st p" for R by (simp add: pendingOrds_def same)
  have "distinct (stepKeys st3)" using assms(4) by (simp add: stepKeys_def same)
  from auto_run [OF p3(1,3) this, of opts] p3(2) show ?thesis unfolding r ords same by simp
qed

theorem approve_runs_plan_witness:
  "\<exists>ns. es_calls (fst (approve exOpts ''org'' ''p'' True ''u'' exCreated)) = map (Pair ''p'') ns \<and> sorted_wrt (<) ns
     \<and> pendingOrds (\<lambda>s. True) (fst (approve exOpts ''org'' ''p'' True ''u'' exCreated)) ''p'' = {}"
proof -
  obtain plan where plan: "findByIdInOrg (es_db exCreated) ''org'' ''p'' = Some plan" "pl_status plan = PlPendingApproval"
  proof -
    have "map_option pl_status (findByIdInOrg (es_db exCreated) ''org'' ''p'') = Some PlPendingApproval" by code_simp
    then show thesis using that by auto
  qed
  have keys: "distinct (stepKeys exCreated)" by code_simp
  have calls: "es_calls exCreated = []" by code_simp
  show ?thesis
    using approve_runs_plan [OF plan disjI1 [OF TrueI] keys, of exOpts "''u''"] unfolding calls append_Nil by blast
qed

lemma halt_calls: "es_calls (fst (haltPlan og p n r st)) = es_calls st"
  by (cases "findByIdInOrg (es_db st) og p") (simp_all add: haltPlan_def skipLoop_effect [OF stable_all])

lemma step_calls:
  "es_calls (executeStep opts plan step st) = es_calls st @ (if reachesAdapter step then [(pl_id plan, ps_ordinal step)] else [])"
proof -
  obtain st1 where "ended (\<lambda>s. True) plan step st1 (executeStep opts plan step st)"
      "es_calls st1 = es_calls st @ (if reachesAdapter step then [(pl_id plan, ps_ordinal step)] else [])"
    using step_ended [OF stable_all, of plan step opts st] by blast
  then show ?thesis unfolding ended_def using halt_calls by metis
qed

lemma runNext_calls: "set (es_calls st) \<subseteq> set (es_calls (fst (runNext opts og p st)))"
proof (induction opts og p st rule: runNext.induct)
  case (1 opts og p st)
  have pause: "es_calls (fst (pauseForApproval opts og plan nxt st)) = es_calls st" for plan nxt
    by (simp add: pauseForApproval_def Let_def approvalSubmit_def)
  have step: "set (es_calls st) \<subseteq> set (es_calls (executeStep opts plan nxt st))" for plan nxt
    by (simp add: step_calls)
  show ?case
  proof (cases "findByIdInOrg (es_db st) og p")
    case None
    then show ?thesis by (simp add: runNext.simps [of opts og p st])
  next
    case (Some plan)
    show ?thesis
      using subset_trans [OF step "1.IH" [OF Some]] Some
      by (simp add: runNext.simps [of opts og p st] pause split: option.split)
  qed
qed

text \<open>A step approval is enough on its own. Whatever the state of the approval request it comes
  from and of the plan, the approved-step callback hands the step to its adapter: a rejected or
  expired request of a cancelled plan runs all the same.\<close>

theorem step_approval_unconditional:
  assumes "findStepByApproval opts og i st = (st1, Inr (plan, step))" "reachesAdapter step"
  shows "(pl_id plan, ps_ordinal step) \<in> set (es_calls (fst (onStepApproved opts og i st)))"
proof -
  have "(pl_id plan, ps_ordinal step) \<in> set (es_calls (executeStep opts plan step st1))"
    using assms(2) by (simp add: step_calls)
  then show ?thesis using runNext_calls unfolding onStepApproved_def assms(1) by fastforce
qed

definition exRejected :: "unit exec_state" where
  "exRejected = (let st = fst (cancel ''org'' ''p'' ''u'' (fst (approve exOpts ''org'' ''p'' False ''u'' exCreated)))
     in st\<lparr>es_approvals := snd (approvalReject 1 (es_approvals st) ''a'' ''u'' None)\<rparr>)"

theorem step_approval_unconditional_witness:
  "map_option ar_status (map_of (es_approvals exRejected) ''a'') = Some ApRejected
   \<and> map_option pl_status (findByIdInOrg (es_db exRejected) ''org'' ''p'') = Some PlCancelled
   \<and> es_calls exRejected = [] \<and> (''p'', 0) \<in> set (es_calls (fst (onStepApproved exOpts ''org'' ''a'' exRejected)))"
proof -
  obtain st1 res where f: "findStepByApproval exOpts ''org'' ''a'' exRejected = (st1, res)" by fastforce
  have "(case snd (findStepByApproval exOpts ''org'' ''a'' exRejected) of Inl e \<Rightarrow> None
      | Inr (plan, step) \<Rightarrow> Some (pl_id plan, ps_ordinal step, reachesAdapter step)) = Some (''p'', 0, True)" by code_simp
  then obtain plan step where ps: "res = Inr (plan, step)" "pl_id plan = ''p''" "ps_ordinal step = 0" "reachesAdapter step"
    unfolding f by (auto split: sum.splits)
  have "(''p'', 0) \<in> set (es_calls (fst (onStepApproved exOpts ''org'' ''a'' exRejected)))"
    using step_approval_unconditional [OF f [unfolded ps(1)] ps(4)] unfolding ps(2,3) .
  moreover have "map_option ar_status (map_of (es_approvals exRejected) ''a'') = Some ApRejected" by code_simp
  moreover have "map_option pl_status (findByIdInOrg (es_db exRejected) ''org'' ''p'') = Some PlCancelled" by code_simp
  moreover have "es_calls exRejected = []" by code_simp
  ultimately show ?thesis by blast
qed

end
