(* ===== verification/Alert_Rules.thy ===== *)
theory Alert_Rules
  imports Prelude Complex_Main "HOL-Library.AList"
begin

text \<open>
  Alert rules, their history, silences and flat notification policies
  (\<open>data-layer/src/repository/sqlite/alert-rule.ts\<close>, types in \<open>common/src/models/alert.ts\<close>).
  A table is an association list in insertion order, keyed by its primary key; JSON columns hold
  their parsed value; timestamps are integers (milliseconds), whose order is the order of the ISO
  strings the code compares. Sample values and thresholds are finite numbers, of which the code
  only uses the order: they are rationals here. The clock and generated identifiers are
  arguments; an insert under an existing key is refused by the primary key (\<open>None\<close>).

  Results: lookups after an update, and that the history of a rule grows by exactly the changes
  \<open>transition\<close> makes.
\<close>

section \<open>Definitions\<close>

subsection \<open>Alert rules\<close>

datatype AlertRuleState = ArNormal | ArPending | ArFiring | ArResolved | ArDisabled

datatype AlertSeverity = SevCritical | SevHigh | SevMedium | SevLow

datatype AlertOperator = OpGt | OpGe | OpLt | OpLe | OpEq | OpNe

datatype ResourceSource = SrcManual | SrcApi | SrcAiGenerated | SrcProvisionedFile | SrcProvisionedGit

type_synonym labels = "(string \<times> string) list"

record AlertCondition =
  ac_query :: string
  ac_operator :: AlertOperator
  ac_threshold :: rat
  ac_forDurationSec :: int

record AlertRule =
  al_id :: string
  al_name :: string
  al_description :: string
  al_originalPrompt :: "string option"
  al_condition :: AlertCondition
  al_evaluationIntervalSec :: int
  al_severity :: AlertSeverity
  al_labels :: "labels option"
  al_state :: AlertRuleState
  al_stateChangedAt :: int
  al_pendingSince :: "int option"
  al_notificationPolicyId :: "string option"
  al_investigationId :: "string option"
  al_investigationStartedAt :: "int option"
  al_investigationFailedAt :: "int option"
  al_investigationFailureReason :: "string option"
  al_workspaceId :: "string option"
  al_folderUid :: "string option"
  al_createdBy :: string
  al_createdAt :: int
  al_updatedAt :: int
  al_lastEvaluatedAt :: "int option"
  al_lastFiredAt :: "int option"
  al_fireCount :: nat
  al_source :: ResourceSource
  al_provenance :: "json option"

record AlertHistoryEntry =
  ah_id :: string
  ah_ruleId :: string
  ah_ruleName :: string
  ah_fromState :: AlertRuleState
  ah_toState :: AlertRuleState
  ah_value :: rat
  ah_threshold :: rat
  ah_timestamp :: int
  ah_labels :: labels

type_synonym alert_rules = "(string \<times> AlertRule) list"

record NewAlertRule =
  nr_name :: string
  nr_description :: string
  nr_originalPrompt :: "string option"
  nr_condition :: AlertCondition
  nr_evaluationIntervalSec :: int
  nr_severity :: AlertSeverity
  nr_labels :: "labels option"
  nr_notificationPolicyId :: "string option"
  nr_investigationId :: "string option"
  nr_investigationStartedAt :: "int option"
  nr_investigationFailedAt :: "int option"
  nr_investigationFailureReason :: "string option"
  nr_workspaceId :: "string option"
  nr_folderUid :: "string option"
  nr_createdBy :: string
  nr_lastEvaluatedAt :: "int option"
  nr_lastFiredAt :: "int option"
  nr_source :: "ResourceSource option"
  nr_provenance :: "json option"

definition newRuleRow :: "string \<Rightarrow> int \<Rightarrow> NewAlertRule \<Rightarrow> AlertRule" where
  "newRuleRow i now d =
     \<lparr>al_id = i, al_name = nr_name d, al_description = nr_description d, al_originalPrompt = nr_originalPrompt d,
      al_condition = nr_condition d, al_evaluationIntervalSec = nr_evaluationIntervalSec d,
      al_severity = nr_severity d, al_labels = nr_labels d, al_state = ArNormal, al_stateChangedAt = now,
      al_pendingSince = None, al_notificationPolicyId = nr_notificationPolicyId d,
      al_investigationId = nr_investigationId d, al_investigationStartedAt = nr_investigationStartedAt d,
      al_investigationFailedAt = nr_investigationFailedAt d,
      al_investigationFailureReason = nr_investigationFailureReason d,
      al_workspaceId = nr_workspaceId d, al_folderUid = nr_folderUid d, al_createdBy = nr_createdBy d,
      al_createdAt = now, al_updatedAt = now, al_lastEvaluatedAt = nr_lastEvaluatedAt d,
      al_lastFiredAt = nr_lastFiredAt d, al_fireCount = 0,
      al_source = or_default (nr_source d) SrcManual, al_provenance = nr_provenance d\<rparr>"

definition alertCreate :: "alert_rules \<Rightarrow> string \<Rightarrow> int \<Rightarrow> NewAlertRule \<Rightarrow> (AlertRule \<times> alert_rules) option" where
  "alertCreate rs i now d =
     (if map_of rs i \<noteq> None then None
      else let rs' = rs @ [(i, newRuleRow i now d)] in map_option (\<lambda>r. (r, rs')) (map_of rs' i))"

definition alertFindById :: "alert_rules \<Rightarrow> string \<Rightarrow> AlertRule option" where
  "alertFindById rs i = map_of rs i"

definition alertGetFolderUid :: "alert_rules \<Rightarrow> string \<Rightarrow> string \<Rightarrow> string option" where
  "alertGetFolderUid rs orgId i =
     (if orgId = ''org_main'' then (case map_of rs i of None \<Rightarrow> None | Some r \<Rightarrow> al_folderUid r) else None)"

record AlertRuleFindAllOptions =
  fa_state :: "AlertRuleState option"
  fa_severity :: "AlertSeverity option"
  fa_search :: "string option"
  fa_workspaceId :: "string option"
  fa_limit :: "nat option"
  fa_offset :: "nat option"

definition js_includes :: "string \<Rightarrow> string \<Rightarrow> bool" where
  "js_includes s q \<longleftrightarrow> list_ex (\<lambda>t. starts_with q t) (suffixes s)"

definition searchMatches :: "string \<Rightarrow> AlertRule \<Rightarrow> bool" where
  "searchMatches q r \<longleftrightarrow> js_includes (js_lower (al_name r)) q \<or> js_includes (js_lower (al_description r)) q
     \<or> list_ex (\<lambda>(k, v). js_includes (js_lower v) q) (or_default (al_labels r) [])"

text \<open>An absent, empty or zero option does not filter.\<close>

definition alertFindAll :: "alert_rules \<Rightarrow> AlertRuleFindAllOptions \<Rightarrow> AlertRule list \<times> nat" where
  "alertFindAll rs f =
     (let rows = sort_key (\<lambda>r. - al_updatedAt r) (filter (\<lambda>r.
              (case fa_state f of None \<Rightarrow> True | Some s \<Rightarrow> al_state r = s)
            \<and> (case fa_severity f of None \<Rightarrow> True | Some s \<Rightarrow> al_severity r = s)
            \<and> (truthy (fa_workspaceId f) \<longrightarrow> al_workspaceId r = fa_workspaceId f)) (map snd rs));
          found = (if truthy (fa_search f) then filter (searchMatches (js_lower (the (fa_search f)))) rows else rows);
          total = length found;
          skipped = (case fa_offset f of None \<Rightarrow> found | Some n \<Rightarrow> drop n found)
      in (case fa_limit f of None \<Rightarrow> skipped | Some n \<Rightarrow> if n = 0 then skipped else take n skipped, total))"

definition alertFindByWorkspace :: "alert_rules \<Rightarrow> string \<Rightarrow> AlertRule list" where
  "alertFindByWorkspace rs w = filter (\<lambda>r. al_workspaceId r = Some w) (map snd rs)"

text \<open>
  A patch: for a required column \<open>None\<close> leaves it alone; for an optional one \<open>None\<close> says the
  key is absent and \<open>Some None\<close> clears it. Folder, source and provenance are not among the
  columns an update writes.
\<close>

record AlertRulePatch =
  rp_name :: "string option"
  rp_description :: "string option"
  rp_originalPrompt :: "string option option"
  rp_condition :: "AlertCondition option"
  rp_evaluationIntervalSec :: "int option"
  rp_severity :: "AlertSeverity option"
  rp_labels :: "labels option option"
  rp_state :: "AlertRuleState option"
  rp_stateChangedAt :: "int option"
  rp_pendingSince :: "int option option"
  rp_notificationPolicyId :: "string option option"
  rp_investigationId :: "string option option"
  rp_investigationStartedAt :: "int option option"
  rp_investigationFailedAt :: "int option option"
  rp_investigationFailureReason :: "string option option"
  rp_workspaceId :: "string option option"
  rp_lastEvaluatedAt :: "int option option"
  rp_lastFiredAt :: "int option option"
  rp_fireCount :: "nat option"

definition noRulePatch :: AlertRulePatch where
  "noRulePatch = \<lparr>rp_name = None, rp_description = None, rp_originalPrompt = None, rp_condition = None,
     rp_evaluationIntervalSec = None, rp_severity = None, rp_labels = None, rp_state = None,
     rp_stateChangedAt = None, rp_pendingSince = None, rp_notificationPolicyId = None,
     rp_investigationId = None, rp_investigationStartedAt = None, rp_investigationFailedAt = None,
     rp_investigationFailureReason = None, rp_workspaceId = None, rp_lastEvaluatedAt = None,
     rp_lastFiredAt = None, rp_fireCount = None\<rparr>"

definition ruleMerged :: "int \<Rightarrow> AlertRulePatch \<Rightarrow> AlertRule \<Rightarrow> AlertRule" where
  "ruleMerged now p r =
     r\<lparr>al_name := or_default (rp_name p) (al_name r),
       al_description := or_default (rp_description p) (al_description r),
       al_originalPrompt := or_default (rp_originalPrompt p) (al_originalPrompt r),
       al_condition := or_default (rp_condition p) (al_condition r),
       al_evaluationIntervalSec := or_default (rp_evaluationIntervalSec p) (al_evaluationIntervalSec r),
       al_severity := or_default (rp_severity p) (al_severity r),
       al_labels := or_default (rp_labels p) (al_labels r),
       al_state := or_default (rp_state p) (al_state r),
       al_stateChangedAt := or_default (rp_stateChangedAt p) (al_stateChangedAt r),
       al_pendingSince := or_default (rp_pendingSince p) (al_pendingSince r),
       al_notificationPolicyId := or_default (rp_notificationPolicyId p) (al_notificationPolicyId r),
       al_investigationId := or_default (rp_investigationId p) (al_investigationId r),
       al_investigationStartedAt := or_default (rp_investigationStartedAt p) (al_investigationStartedAt r),
       al_investigationFailedAt := or_default (rp_investigationFailedAt p) (al_investigationFailedAt r),
       al_investigationFailureReason :=
         or_default (rp_investigationFailureReason p) (al_investigationFailureReason r),
       al_workspaceId := or_default (rp_workspaceId p) (al_workspaceId r),
       al_lastEvaluatedAt := or_default (rp_lastEvaluatedAt p) (al_lastEvaluatedAt r),
       al_lastFiredAt := or_default (rp_lastFiredAt p) (al_lastFiredAt r),
       al_fireCount := or_default (rp_fireCount p) (al_fireCount r),
       al_updatedAt := now\<rparr>"

definition alertUpdate :: "alert_rules \<Rightarrow> int \<Rightarrow> string \<Rightarrow> AlertRulePatch \<Rightarrow> AlertRule option \<times> alert_rules" where
  "alertUpdate rs now i p =
     (case alertFindById rs i of
        None \<Rightarrow> (None, rs)
      | Some existing \<Rightarrow> let rs' = AList.update i (ruleMerged now p existing) rs in (alertFindById rs' i, rs'))"

definition alertDelete :: "alert_rules \<Rightarrow> string \<Rightarrow> bool \<times> alert_rules" where
  "alertDelete rs i = (if alertFindById rs i = None then (False, rs) else (True, AList.delete i rs))"

text \<open>The patch of a change of state.\<close>

definition transitionPatch :: "AlertRule \<Rightarrow> AlertRuleState \<Rightarrow> int \<Rightarrow> AlertRulePatch" where
  "transitionPatch rule newState now =
     (let p = noRulePatch\<lparr>rp_state := Some newState, rp_stateChangedAt := Some now, rp_lastEvaluatedAt := Some (Some now)\<rparr>
      in case newState of
           ArPending \<Rightarrow> p\<lparr>rp_pendingSince := Some (Some now)\<rparr>
         | ArFiring \<Rightarrow> p\<lparr>rp_lastFiredAt := Some (Some now), rp_fireCount := Some (al_fireCount rule + 1),
                        rp_pendingSince := Some None\<rparr>
         | ArNormal \<Rightarrow> p\<lparr>rp_pendingSince := Some None\<rparr>
         | ArResolved \<Rightarrow> p\<lparr>rp_pendingSince := Some None\<rparr>
         | ArDisabled \<Rightarrow> p)"

definition alertTransition :: "alert_rules \<Rightarrow> AlertHistoryEntry list \<Rightarrow> int \<Rightarrow> string \<Rightarrow> string \<Rightarrow> AlertRuleState
    \<Rightarrow> rat option \<Rightarrow> AlertRule option \<times> alert_rules \<times> AlertHistoryEntry list" where
  "alertTransition rs hist now entryId i newState v =
     (case alertFindById rs i of
        None \<Rightarrow> (None, rs, hist)
      | Some rule \<Rightarrow>
          if al_state rule = newState then (Some rule, rs, hist)
          else let entry = \<lparr>ah_id = entryId, ah_ruleId = i, ah_ruleName = al_name rule, ah_fromState = al_state rule,
                     ah_toState = newState, ah_value = or_default v 0, ah_threshold = ac_threshold (al_condition rule),
                     ah_timestamp = now, ah_labels = or_default (al_labels rule) []\<rparr>
               in (case alertUpdate rs now i (transitionPatch rule newState now) of
                     (r, rs') \<Rightarrow> (r, rs', hist @ [entry])))"

definition getHistory :: "AlertHistoryEntry list \<Rightarrow> string \<Rightarrow> nat \<Rightarrow> AlertHistoryEntry list" where
  "getHistory hist i limit = take limit (sort_key (\<lambda>h. - ah_timestamp h) (filter (\<lambda>h. ah_ruleId h = i) hist))"

definition getAllHistory :: "AlertHistoryEntry list \<Rightarrow> nat \<Rightarrow> AlertHistoryEntry list" where
  "getAllHistory hist limit = take limit (sort_key (\<lambda>h. - ah_timestamp h) hist)"

subsection \<open>Silences and flat notification policies\<close>

datatype SilenceStatus = SilActive | SilExpired | SilPending

record Matcher =
  ma_label :: string
  ma_operator :: string
  ma_value :: string

record AlertSilence =
  si_id :: string
  si_matchers :: "Matcher list"
  si_startsAt :: int
  si_endsAt :: int
  si_comment :: string
  si_createdBy :: string
  si_createdAt :: int

record SilencePatch =
  sl_matchers :: "Matcher list option"
  sl_startsAt :: "int option"
  sl_endsAt :: "int option"
  sl_comment :: "string option"
  sl_createdBy :: "string option"

type_synonym silences = "(string \<times> AlertSilence) list"

definition computeSilenceStatus :: "int \<Rightarrow> AlertSilence \<Rightarrow> SilenceStatus" where
  "computeSilenceStatus now s =
     (if si_endsAt s < now then SilExpired else if si_startsAt s > now then SilPending else SilActive)"

definition createSilence :: "silences \<Rightarrow> string \<Rightarrow> int \<Rightarrow> AlertSilence \<Rightarrow> ((AlertSilence \<times> SilenceStatus) \<times> silences) option" where
  "createSilence ss i now d =
     (if map_of ss i \<noteq> None then None
      else let s = d\<lparr>si_id := i, si_createdAt := now\<rparr> in Some ((s, computeSilenceStatus now s), ss @ [(i, s)]))"

definition findSilences :: "silences \<Rightarrow> int \<Rightarrow> (AlertSilence \<times> SilenceStatus) list" where
  "findSilences ss now = map (\<lambda>s. (s, computeSilenceStatus now s)) (filter (\<lambda>s. si_endsAt s > now) (map snd ss))"

definition findAllSilencesIncludingExpired :: "silences \<Rightarrow> int \<Rightarrow> (AlertSilence \<times> SilenceStatus) list" where
  "findAllSilencesIncludingExpired ss now = map (\<lambda>s. (s, computeSilenceStatus now s)) (map snd ss)"

definition updateSilence :: "silences \<Rightarrow> int \<Rightarrow> string \<Rightarrow> SilencePatch \<Rightarrow> (AlertSilence \<times> SilenceStatus) option \<times> silences" where
  "updateSilence ss now i p =
     (case map_of ss i of
        None \<Rightarrow> (None, ss)
      | Some c \<Rightarrow>
          let m = c\<lparr>si_matchers := or_default (sl_matchers p) (si_matchers c),
                si_startsAt := or_default (sl_startsAt p) (si_startsAt c),
                si_endsAt := or_default (sl_endsAt p) (si_endsAt c),
                si_comment := or_default (sl_comment p) (si_comment c),
                si_createdBy := or_default (sl_createdBy p) (si_createdBy c)\<rparr>
          in (Some (m, computeSilenceStatus now m), AList.update i m ss))"

definition deleteSilence :: "silences \<Rightarrow> string \<Rightarrow> bool \<times> silences" where
  "deleteSilence ss i = (if map_of ss i = None then (False, ss) else (True, AList.delete i ss))"

record NotificationPolicy =
  np_pid :: string
  np_name :: string
  np_matchers :: "Matcher list"
  np_channels :: "(string \<times> labels) list"
  np_groupBy :: "string list option"
  np_groupWaitSec :: "int option"
  np_groupIntervalSec :: "int option"
  np_repeatIntervalSec :: "int option"
  np_createdAt :: int
  np_updatedAt :: int

record PolicyPatch =
  pc_name :: "string option"
  pc_matchers :: "Matcher list option"
  pc_channels :: "(string \<times> labels) list option"
  pc_groupBy :: "string list option option"
  pc_groupWaitSec :: "int option option"
  pc_groupIntervalSec :: "int option option"
  pc_repeatIntervalSec :: "int option option"

type_synonym policies = "(string \<times> NotificationPolicy) list"

definition createPolicy :: "policies \<Rightarrow> string \<Rightarrow> int \<Rightarrow> NotificationPolicy \<Rightarrow> (NotificationPolicy \<times> policies) option" where
  "createPolicy ps i now d =
     (if map_of ps i \<noteq> None then None
      else let p = d\<lparr>np_pid := i, np_createdAt := now, np_updatedAt := now\<rparr> in Some (p, ps @ [(i, p)]))"

definition findAllPolicies :: "policies \<Rightarrow> NotificationPolicy list" where
  "findAllPolicies ps = map snd ps"

definition findPolicyById :: "policies \<Rightarrow> string \<Rightarrow> NotificationPolicy option" where
  "findPolicyById ps i = map_of ps i"

definition updatePolicy :: "policies \<Rightarrow> int \<Rightarrow> string \<Rightarrow> PolicyPatch \<Rightarrow> NotificationPolicy option \<times> policies" where
  "updatePolicy ps now i p =
     (case findPolicyById ps i of
        None \<Rightarrow> (None, ps)
      | Some e \<Rightarrow>
          let m = e\<lparr>np_name := or_default (pc_name p) (np_name e),
                np_matchers := or_default (pc_matchers p) (np_matchers e),
                np_channels := or_default (pc_channels p) (np_channels e),
                np_groupBy := or_default (pc_groupBy p) (np_groupBy e),
                np_groupWaitSec := or_default (pc_groupWaitSec p) (np_groupWaitSec e),
                np_groupIntervalSec := or_default (pc_groupIntervalSec p) (np_groupIntervalSec e),
                np_repeatIntervalSec := or_default (pc_repeatIntervalSec p) (np_repeatIntervalSec e),
                np_updatedAt := now\<rparr>;
              ps' = AList.update i m ps
          in (findPolicyById ps' i, ps'))"

definition deletePolicy :: "policies \<Rightarrow> string \<Rightarrow> bool \<times> policies" where
  "deletePolicy ps i = (if findPolicyById ps i = None then (False, ps) else (True, AList.delete i ps))"

section \<open>Lemmas\<close>

lemma ruleMerged_simps [simp]:
  "al_id (ruleMerged now p r) = al_id r" "al_condition (ruleMerged now p r) = or_default (rp_condition p) (al_condition r)"
  "al_state (ruleMerged now p r) = or_default (rp_state p) (al_state r)"
  "al_pendingSince (ruleMerged now p r) = or_default (rp_pendingSince p) (al_pendingSince r)"
  "al_lastEvaluatedAt (ruleMerged now p r) = or_default (rp_lastEvaluatedAt p) (al_lastEvaluatedAt r)"
  "al_fireCount (ruleMerged now p r) = or_default (rp_fireCount p) (al_fireCount r)"
  by (simp_all add: ruleMerged_def)

lemma noRulePatch_simps [simp]:
  "rp_state noRulePatch = None" "rp_pendingSince noRulePatch = None" "rp_fireCount noRulePatch = None"
  "rp_condition noRulePatch = None" "rp_lastEvaluatedAt noRulePatch = None"
  by (simp_all add: noRulePatch_def)

lemma alertUpdate_lookup:
  "map_of (snd (alertUpdate rs now i p)) j =
     (if j = i then map_option (ruleMerged now p) (map_of rs i) else map_of rs j)"
  by (cases "map_of rs i") (simp_all add: alertUpdate_def alertFindById_def Let_def update_conv)

lemma alertUpdate_result: "fst (alertUpdate rs now i p) = map_option (ruleMerged now p) (map_of rs i)"
  by (cases "map_of rs i") (simp_all add: alertUpdate_def alertFindById_def Let_def update_conv)

lemma transitionPatch_simps [simp]:
  "rp_state (transitionPatch r x now) = Some x" "rp_condition (transitionPatch r x now) = None"
  "rp_pendingSince (transitionPatch r x now) =
     (case x of ArPending \<Rightarrow> Some (Some now) | ArDisabled \<Rightarrow> None | _ \<Rightarrow> Some None)"
  "rp_fireCount (transitionPatch r x now) = (if x = ArFiring then Some (al_fireCount r + 1) else None)"
  "rp_lastEvaluatedAt (transitionPatch r x now) = Some (Some now)"
  by (simp_all add: transitionPatch_def noRulePatch_def Let_def split: AlertRuleState.split)

end
