(* ===== verification/Alert_Evaluator.thy ===== *)
theory Alert_Evaluator
  imports Alert_Rules
begin

text \<open>
  The alert evaluator (\<open>api-gateway/src/services/alert-evaluator-service.ts\<close>): the predicate, the
  state machine of one rule, and the evaluation tick, which reads a rule, waits for its metric
  query and then writes. The tick is two steps of the model, with the read copy kept between
  them, so that edits, disabling and deletion of the rule can happen while the query runs; the
  set of rules in flight is the code's. The evaluator's clock and the repository's are two
  arguments of the second step. The state also keeps a trace of samples that the code does not.

  Results: an alert fires only after its condition held for the configured time, however ticks
  and edits interleave; the fired events, the firing entries of the history and the fire counts
  agree; a rule put into the pending state by hand never fires.
\<close>

section \<open>Definitions\<close>

definition evaluatePredicate :: "AlertOperator \<Rightarrow> rat \<Rightarrow> rat \<Rightarrow> bool" where
  "evaluatePredicate operator v threshold =
     (case operator of
        OpGt \<Rightarrow> v > threshold
      | OpGe \<Rightarrow> v \<ge> threshold
      | OpLt \<Rightarrow> v < threshold
      | OpLe \<Rightarrow> v \<le> threshold
      | OpEq \<Rightarrow> v = threshold
      | OpNe \<Rightarrow> v \<noteq> threshold)"

definition decideTransition :: "AlertRule \<Rightarrow> bool \<Rightarrow> int \<Rightarrow> AlertRuleState option" where
  "decideTransition rule predicateTrue now =
     (if al_state rule = ArDisabled then None
      else if predicateTrue
      then (if al_state rule = ArFiring then None
            else if al_state rule = ArPending
            then (case al_pendingSince rule of
                    None \<Rightarrow> None
                  | Some since \<Rightarrow>
                      if now - since \<ge> ac_forDurationSec (al_condition rule) * 1000 then Some ArFiring else None)
            else if ac_forDurationSec (al_condition rule) = 0 then Some ArFiring
            else Some ArPending)
      else if al_state rule = ArFiring then Some ArResolved
      else if al_state rule = ArPending then Some ArNormal
      else None)"

record AlertFiredPayload =
  af_ruleId :: string
  af_ruleName :: string
  af_severity :: AlertSeverity
  af_value :: rat
  af_threshold :: rat
  af_operator :: AlertOperator
  af_labels :: labels
  af_firedAt :: int

text \<open>A sample taken by a tick: when, and whether the condition held.\<close>

record Sample =
  sa_ruleId :: string
  sa_at :: int
  sa_holds :: bool

record evaluator =
  ev_rules :: alert_rules
  ev_history :: "AlertHistoryEntry list"
  ev_inFlight :: "(string \<times> AlertRule) list"
  ev_fired :: "AlertFiredPayload list"
  ev_samples :: "Sample list"
  ev_now :: int

text \<open>
  The first half of a tick: nothing when the rule is already in flight, missing or disabled.
\<close>

definition tickBegin :: "string \<Rightarrow> evaluator \<Rightarrow> evaluator" where
  "tickBegin i st =
     (if map_of (ev_inFlight st) i \<noteq> None then st
      else (case alertFindById (ev_rules st) i of
              None \<Rightarrow> st
            | Some fresh \<Rightarrow> if al_state fresh = ArDisabled then st
                else st\<lparr>ev_inFlight := AList.update i fresh (ev_inFlight st)\<rparr>))"

definition firedPayload :: "AlertRule \<Rightarrow> rat \<Rightarrow> int \<Rightarrow> AlertFiredPayload" where
  "firedPayload updated v now =
     \<lparr>af_ruleId = al_id updated, af_ruleName = al_name updated, af_severity = al_severity updated, af_value = v,
      af_threshold = ac_threshold (al_condition updated), af_operator = ac_operator (al_condition updated),
      af_labels = or_default (al_labels updated) [], af_firedAt = now\<rparr>"

text \<open>
  The second half, when the query has given a sample or none. \<open>now\<close> is the evaluator's clock,
  \<open>dbNow\<close> the clock the repository reads while it writes.
\<close>

definition tickCommit :: "string \<Rightarrow> rat option \<Rightarrow> int \<Rightarrow> int \<Rightarrow> string \<Rightarrow> evaluator \<Rightarrow> evaluator" where
  "tickCommit i sample now dbNow entryId st0 =
     (case map_of (ev_inFlight st0) i of
        None \<Rightarrow> st0
      | Some fresh \<Rightarrow>
          let st = st0\<lparr>ev_inFlight := AList.delete i (ev_inFlight st0)\<rparr> in
          (case sample of
             None \<Rightarrow> st
           | Some v \<Rightarrow>
               let p = evaluatePredicate (ac_operator (al_condition fresh)) v (ac_threshold (al_condition fresh));
                   st1 = st\<lparr>ev_rules := snd (alertUpdate (ev_rules st) dbNow i
                              (noRulePatch\<lparr>rp_lastEvaluatedAt := Some (Some now)\<rparr>)),
                            ev_samples := ev_samples st @ [\<lparr>sa_ruleId = i, sa_at = now, sa_holds = p\<rparr>]\<rparr>
               in (case decideTransition fresh p now of
                     None \<Rightarrow> st1
                   | Some nxt \<Rightarrow>
                       if nxt = al_state fresh then st1
                       else (case alertTransition (ev_rules st1) (ev_history st1) dbNow entryId i nxt (Some v) of
                               (updated, rs, hist) \<Rightarrow>
                                 st1\<lparr>ev_rules := rs, ev_history := hist,
                                     ev_fired := ev_fired st1 @ (case updated of
                                        Some u \<Rightarrow> if nxt = ArFiring then [firedPayload u v now] else []
                                      | None \<Rightarrow> [])\<rparr>))))"

text \<open>One pass over the rules, each with its sample; a disabled rule is passed over.\<close>

fun tickAllLoop :: "(AlertRule \<Rightarrow> rat option) \<Rightarrow> int \<Rightarrow> (string \<Rightarrow> string) \<Rightarrow> AlertRule list \<Rightarrow> evaluator \<Rightarrow> evaluator" where
  "tickAllLoop query now entryIds [] st = st"
| "tickAllLoop query now entryIds (rule # rest) st =
     tickAllLoop query now entryIds rest
       (if al_state rule = ArDisabled then st
        else (let st1 = tickBegin (al_id rule) st in
              case map_of (ev_inFlight st1) (al_id rule) of
                None \<Rightarrow> st1
              | Some fresh \<Rightarrow>
                  if map_of (ev_inFlight st) (al_id rule) \<noteq> None then st
                  else tickCommit (al_id rule) (query fresh) now now (entryIds (al_id rule)) st1))"

definition noFilter :: AlertRuleFindAllOptions where
  "noFilter = \<lparr>fa_state = None, fa_severity = None, fa_search = None, fa_workspaceId = None, fa_limit = None, fa_offset = None\<rparr>"

definition tickAll :: "(AlertRule \<Rightarrow> rat option) \<Rightarrow> int \<Rightarrow> (string \<Rightarrow> string) \<Rightarrow> evaluator \<Rightarrow> evaluator" where
  "tickAll query now entryIds st = tickAllLoop query now entryIds (fst (alertFindAll (ev_rules st) noFilter)) st"

text \<open>The routes that switch a rule off and on.\<close>

definition disableRule :: "string \<Rightarrow> int \<Rightarrow> evaluator \<Rightarrow> evaluator" where
  "disableRule i now st = st\<lparr>ev_rules := snd (alertUpdate (ev_rules st) now i (noRulePatch\<lparr>rp_state := Some ArDisabled\<rparr>))\<rparr>"

definition enableRule :: "string \<Rightarrow> int \<Rightarrow> evaluator \<Rightarrow> evaluator" where
  "enableRule i now st = st\<lparr>ev_rules := snd (alertUpdate (ev_rules st) now i (noRulePatch\<lparr>rp_state := Some ArNormal\<rparr>))\<rparr>"

subsection \<open>The system\<close>

text \<open>
  Rules are created under new identifiers, edited without touching the columns of the state
  machine, switched off and on, deleted and evaluated, in any order; time does not run backwards.
\<close>

definition plainEdit :: "AlertRulePatch \<Rightarrow> bool" where
  "plainEdit p \<longleftrightarrow> rp_state p = None \<and> rp_pendingSince p = None \<and> rp_fireCount p = None"

definition unknownRule :: "string \<Rightarrow> evaluator \<Rightarrow> bool" where
  "unknownRule i st \<longleftrightarrow> map_of (ev_rules st) i = None \<and> map_of (ev_inFlight st) i = None
     \<and> (\<forall>h\<in>set (ev_history st). ah_ruleId h \<noteq> i) \<and> (\<forall>s\<in>set (ev_samples st). sa_ruleId s \<noteq> i)
     \<and> (\<forall>f\<in>set (ev_fired st). af_ruleId f \<noteq> i)"

inductive alert_step :: "evaluator \<Rightarrow> evaluator \<Rightarrow> bool" where
  al_create: "unknownRule i st \<Longrightarrow> alertCreate (ev_rules st) i now d = Some (r, rs) \<Longrightarrow> alert_step st (st\<lparr>ev_rules := rs\<rparr>)"
| al_edit: "plainEdit p \<Longrightarrow> alert_step st (st\<lparr>ev_rules := snd (alertUpdate (ev_rules st) now i p)\<rparr>)"
| al_disable: "alert_step st (disableRule i now st)"
| al_enable: "alert_step st (enableRule i now st)"
| al_delete: "alert_step st (st\<lparr>ev_rules := snd (alertDelete (ev_rules st) i)\<rparr>)"
| al_begin: "alert_step st (tickBegin i st)"
| al_commit: "ev_now st \<le> now \<Longrightarrow> now \<le> dbNow \<Longrightarrow> alert_step st (tickCommit i sample now dbNow e (st\<lparr>ev_now := dbNow\<rparr>))"
| al_time: "ev_now st \<le> now \<Longrightarrow> alert_step st (st\<lparr>ev_now := now\<rparr>)"

definition evaluator_init :: "evaluator \<Rightarrow> bool" where
  "evaluator_init st \<longleftrightarrow> ev_rules st = [] \<and> ev_history st = [] \<and> ev_inFlight st = [] \<and> ev_fired st = [] \<and> ev_samples st = []"

section \<open>The invariant\<close>

text \<open>A pending rule: since when, and what the samples of the rule have said from then on.\<close>

definition pendOk :: "evaluator \<Rightarrow> string \<Rightarrow> AlertRule \<Rightarrow> bool" where
  "pendOk st i r \<longleftrightarrow> (al_state r = ArPending \<longrightarrow> (\<exists>t. al_pendingSince r = Some t
     \<and> (\<forall>s\<in>set (ev_samples st). sa_ruleId s = i \<longrightarrow> sa_at s > t \<longrightarrow> sa_holds s)
     \<and> (\<exists>s\<in>set (ev_samples st). sa_ruleId s = i \<and> sa_holds s \<and> sa_at s \<le> t)))"

definition firings :: "string \<Rightarrow> AlertHistoryEntry list \<Rightarrow> nat" where
  "firings i hist = length (filter (\<lambda>h. ah_ruleId h = i \<and> ah_toState h = ArFiring) hist)"

definition rowOk :: "evaluator \<Rightarrow> string \<Rightarrow> AlertRule \<Rightarrow> bool" where
  "rowOk st i r \<longleftrightarrow> al_id r = i \<and> pendOk st i r \<and> al_fireCount r = firings i (ev_history st)
     \<and> (\<forall>f. map_of (ev_inFlight st) i = Some f \<longrightarrow>
          al_state r = al_state f \<and> al_pendingSince r = al_pendingSince f \<or> al_state r = ArNormal \<or> al_state r = ArDisabled)"

definition evInv :: "evaluator \<Rightarrow> bool" where
  "evInv st \<longleftrightarrow> (\<forall>s\<in>set (ev_samples st). sa_at s \<le> ev_now st)
     \<and> (\<forall>i r. map_of (ev_rules st) i = Some r \<longrightarrow> rowOk st i r)
     \<and> (\<forall>i f. map_of (ev_inFlight st) i = Some f \<longrightarrow> pendOk st i f \<and> al_state f \<noteq> ArDisabled)
     \<and> map af_ruleId (ev_fired st) = map ah_ruleId (filter (\<lambda>h. ah_toState h = ArFiring) (ev_history st))"

text \<open>Replacing the rules, when every row comes from a good one.\<close>

lemma evInv_rules:
  assumes "evInv st" "\<And>i r. map_of rs i = Some r \<Longrightarrow> rowOk st i r"
  shows "evInv (st\<lparr>ev_rules := rs\<rparr>)"
proof -
  have "rowOk (st\<lparr>ev_rules := rs\<rparr>) i r = rowOk st i r" "pendOk (st\<lparr>ev_rules := rs\<rparr>) i r = pendOk st i r" for i r
    by (simp_all add: rowOk_def pendOk_def)
  then show ?thesis using assms by (simp add: evInv_def)
qed

lemma evInv_row: "evInv st \<Longrightarrow> map_of (ev_rules st) i = Some r \<Longrightarrow> rowOk st i r"
  by (simp add: evInv_def)

lemma update_inv:
  assumes "evInv st" "\<And>r. map_of (ev_rules st) i = Some r \<Longrightarrow> rowOk st i (ruleMerged now p r)"
  shows "evInv (st\<lparr>ev_rules := snd (alertUpdate (ev_rules st) now i p)\<rparr>)"
  by (rule evInv_rules [OF assms(1)]) (use assms in \<open>auto simp: alertUpdate_lookup evInv_row split: if_splits\<close>)

lemma edit_ok: "plainEdit p \<Longrightarrow> rowOk st i r \<Longrightarrow> rowOk st i (ruleMerged now p r)"
  by (simp add: plainEdit_def rowOk_def pendOk_def)

lemma switch_ok: "rowOk st i r \<Longrightarrow> x = ArNormal \<or> x = ArDisabled \<Longrightarrow> rowOk st i (ruleMerged now (noRulePatch\<lparr>rp_state := Some x\<rparr>) r)"
  by (auto simp: rowOk_def pendOk_def noRulePatch_def)

lemma create_ok:
  assumes "unknownRule i st" "evInv st"
  shows "rowOk st i (newRuleRow i now d)"
  using assms by (auto simp: rowOk_def pendOk_def newRuleRow_def firings_def unknownRule_def filter_empty_conv)

lemma pendOk_inFlight [simp]: "pendOk (st\<lparr>ev_inFlight := x\<rparr>) j r = pendOk st j r"
  by (simp add: pendOk_def)

lemma begin_inv: "evInv st \<Longrightarrow> evInv (tickBegin i st)"
proof (cases "map_of (ev_inFlight st) i = None \<and> (\<exists>f. map_of (ev_rules st) i = Some f \<and> al_state f \<noteq> ArDisabled)")
  case True
  then obtain f where f: "map_of (ev_rules st) i = Some f" "al_state f \<noteq> ArDisabled" by blast
  assume inv: "evInv st"
  let ?st = "st\<lparr>ev_inFlight := AList.update i f (ev_inFlight st)\<rparr>"
  have t: "tickBegin i st = ?st" using True f by (simp add: tickBegin_def alertFindById_def)
  have "rowOk ?st j r" if "map_of (ev_rules st) j = Some r" for j r
    using evInv_row [OF inv that] that f by (cases "j = i") (auto simp: rowOk_def update_conv)
  then show ?thesis using inv f evInv_row [OF inv f(1)] unfolding t
    by (auto simp: evInv_def rowOk_def update_conv split: if_splits)
next
  case False
  assume inv: "evInv st"
  have "tickBegin i st = st" using False by (auto simp: tickBegin_def alertFindById_def split: option.split)
  then show ?thesis using inv by simp
qed

subsection \<open>The effect of a commit\<close>

abbreviation evaluatedPatch :: "int \<Rightarrow> AlertRulePatch" where
  "evaluatedPatch now \<equiv> noRulePatch\<lparr>rp_lastEvaluatedAt := Some (Some now)\<rparr>"

definition holdsFor :: "AlertRule \<Rightarrow> rat \<Rightarrow> bool" where
  "holdsFor fresh v = evaluatePredicate (ac_operator (al_condition fresh)) v (ac_threshold (al_condition fresh))"

text \<open>The state a commit moves a row to, when it moves it.\<close>

definition moveTo :: "AlertRule \<Rightarrow> rat \<Rightarrow> int \<Rightarrow> AlertRule \<Rightarrow> AlertRuleState option" where
  "moveTo fresh v now r = (case decideTransition fresh (holdsFor fresh v) now of
     None \<Rightarrow> None | Some x \<Rightarrow> if x = al_state fresh \<or> x = al_state r then None else Some x)"

definition movedRow :: "AlertRule \<Rightarrow> rat \<Rightarrow> int \<Rightarrow> int \<Rightarrow> AlertRule \<Rightarrow> AlertRule" where
  "movedRow fresh v now dbNow r = (let r1 = ruleMerged dbNow (evaluatedPatch now) r in
     case moveTo fresh v now r of None \<Rightarrow> r1 | Some x \<Rightarrow> ruleMerged dbNow (transitionPatch r1 x dbNow) r1)"

lemma commit_frame:
  assumes "map_of (ev_inFlight st) i = Some fresh"
  shows "ev_inFlight (tickCommit i (Some v) now dbNow e st) = AList.delete i (ev_inFlight st)"
    "ev_now (tickCommit i (Some v) now dbNow e st) = ev_now st"
    "ev_samples (tickCommit i (Some v) now dbNow e st) = ev_samples st @ [\<lparr>sa_ruleId = i, sa_at = now, sa_holds = holdsFor fresh v\<rparr>]"
  using assms by (simp_all add: tickCommit_def Let_def holdsFor_def split: option.split prod.split)

lemma commit_missing:
  assumes "map_of (ev_inFlight st) i = Some fresh" "map_of (ev_rules st) i = None"
  shows "ev_rules (tickCommit i (Some v) now dbNow e st) = ev_rules st"
    "ev_history (tickCommit i (Some v) now dbNow e st) = ev_history st"
    "ev_fired (tickCommit i (Some v) now dbNow e st) = ev_fired st"
  using assms by (simp_all add: tickCommit_def Let_def alertUpdate_def alertTransition_def alertFindById_def split: option.split)

lemma commit_row:
  assumes "map_of (ev_inFlight st) i = Some fresh" "map_of (ev_rules st) i = Some r"
    and "st' = tickCommit i (Some v) now dbNow e st"
  shows "map_of (ev_rules st') j = (if j = i then Some (movedRow fresh v now dbNow r) else map_of (ev_rules st) j)"
    "moveTo fresh v now r = None \<Longrightarrow> ev_history st' = ev_history st"
    "moveTo fresh v now r = Some x \<Longrightarrow> \<exists>h. ev_history st' = ev_history st @ [h] \<and> ah_ruleId h = i \<and> ah_toState h = x"
    "moveTo fresh v now r = Some ArFiring \<Longrightarrow> \<exists>f. ev_fired st' = ev_fired st @ [f] \<and> af_ruleId f = al_id r"
    "moveTo fresh v now r \<noteq> Some ArFiring \<Longrightarrow> al_state r = ArFiring \<longrightarrow> al_state fresh = ArFiring \<Longrightarrow> ev_fired st' = ev_fired st"
proof -
  let ?rs = "snd (alertUpdate (ev_rules st) dbNow i (evaluatedPatch now))"
  let ?r1 = "ruleMerged dbNow (evaluatedPatch now) r"
  have r1: "map_of ?rs i = Some ?r1" using assms(2) by (simp add: alertUpdate_lookup)
  have same: "al_state ?r1 = al_state r" by (simp add: noRulePatch_def)
  note unf = assms(1,2,3) tickCommit_def r1 Let_def alertTransition_def alertFindById_def holdsFor_def [symmetric]
    movedRow_def moveTo_def same alertUpdate_lookup alertUpdate_result
  show "map_of (ev_rules st') j = (if j = i then Some (movedRow fresh v now dbNow r) else map_of (ev_rules st) j)"
    by (cases "decideTransition fresh (holdsFor fresh v) now") (auto simp: unf case_prod_beta)
  show "ev_history st' = ev_history st" if "moveTo fresh v now r = None"
    using that by (cases "decideTransition fresh (holdsFor fresh v) now") (auto simp: unf case_prod_beta split: if_splits)
  show "\<exists>h. ev_history st' = ev_history st @ [h] \<and> ah_ruleId h = i \<and> ah_toState h = x" if "moveTo fresh v now r = Some x"
    using that by (cases "decideTransition fresh (holdsFor fresh v) now") (auto simp: unf case_prod_beta split: if_splits)
  show "\<exists>f. ev_fired st' = ev_fired st @ [f] \<and> af_ruleId f = al_id r" if "moveTo fresh v now r = Some ArFiring"
    using that by (cases "decideTransition fresh (holdsFor fresh v) now")
      (auto simp: unf case_prod_beta firedPayload_def split: if_splits)
  show "ev_fired st' = ev_fired st" if "moveTo fresh v now r \<noteq> Some ArFiring" "al_state r = ArFiring \<longrightarrow> al_state fresh = ArFiring"
    using that by (cases "decideTransition fresh (holdsFor fresh v) now") (auto simp: unf case_prod_beta split: if_splits)
qed

lemma firings_append [simp]: "firings i (hs @ hs') = firings i hs + firings i hs'"
  by (simp add: firings_def)

lemma moved_simps:
  "al_id (movedRow fresh v now dbNow r) = al_id r"
  "al_state (movedRow fresh v now dbNow r) = or_default (moveTo fresh v now r) (al_state r)"
  "al_pendingSince (movedRow fresh v now dbNow r) = (case moveTo fresh v now r of
     None \<Rightarrow> al_pendingSince r | Some ArPending \<Rightarrow> Some dbNow | Some ArDisabled \<Rightarrow> al_pendingSince r | Some _ \<Rightarrow> None)"
  "al_fireCount (movedRow fresh v now dbNow r) = al_fireCount r + (if moveTo fresh v now r = Some ArFiring then 1 else 0)"
  by (cases "moveTo fresh v now r"; simp add: movedRow_def Let_def split: AlertRuleState.split)+

lemma moveTo_pending:
  assumes "moveTo fresh v now r = Some ArPending"
  shows "holdsFor fresh v"
  using assms by (auto simp: moveTo_def decideTransition_def split: option.splits if_splits)

text \<open>A pending row keeps its record of samples when the next sample holds, and leaves when it does not.\<close>

lemma moved_pendOk:
  assumes "evInv st" "map_of (ev_inFlight st) i = Some fresh" "map_of (ev_rules st) i = Some r"
    and "ev_now st \<le> now" "now \<le> dbNow"
  shows "pendOk (tickCommit i (Some v) now dbNow e (st\<lparr>ev_now := dbNow\<rparr>)) i (movedRow fresh v now dbNow r)"
proof -
  let ?st' = "tickCommit i (Some v) now dbNow e (st\<lparr>ev_now := dbNow\<rparr>)"
  have smp: "ev_samples ?st' = ev_samples st @ [\<lparr>sa_ruleId = i, sa_at = now, sa_holds = holdsFor fresh v\<rparr>]"
    using commit_frame(3) [of "st\<lparr>ev_now := dbNow\<rparr>" i fresh] assms(2) by simp
  have old: "rowOk st i r" "pendOk st i fresh" "\<forall>s\<in>set (ev_samples st). sa_at s \<le> now"
    using assms unfolding evInv_def by force+
  show ?thesis
  proof (cases "moveTo fresh v now r")
    case None
    show ?thesis
    proof (cases "al_state r = ArPending")
      case True
      then have f: "al_state fresh = ArPending" "al_pendingSince r = al_pendingSince fresh"
        using old(1) assms(2) by (auto simp: rowOk_def)
      have "holdsFor fresh v"
        using None f True by (auto simp: moveTo_def decideTransition_def split: if_splits)
      then show ?thesis using old(1) True None smp by (auto simp: pendOk_def moved_simps rowOk_def)
    qed (simp add: pendOk_def moved_simps None)
  next
    case (Some x)
    show ?thesis
    proof (cases "x = ArPending")
      case True
      then have "holdsFor fresh v" using Some moveTo_pending by simp
      then show ?thesis using True Some old(3) assms(5) smp by (force simp: pendOk_def moved_simps)
    qed (simp add: pendOk_def moved_simps Some)
  qed
qed

lemma other_pendOk:
  assumes "map_of (ev_inFlight st) i = Some fresh" "j \<noteq> i"
  shows "pendOk (tickCommit i (Some v) now dbNow e st) j r = pendOk st j r"
  using commit_frame(3) [OF assms(1)] assms(2) by (simp add: pendOk_def)

lemma firing_row: "evInv st \<Longrightarrow> map_of (ev_inFlight st) i = Some fresh \<Longrightarrow> map_of (ev_rules st) i = Some r \<Longrightarrow>
    al_state r = ArFiring \<longrightarrow> al_state fresh = ArFiring"
  using evInv_row [of st i r] by (auto simp: rowOk_def)

lemma pendOk_now [simp]: "pendOk (st\<lparr>ev_now := n\<rparr>) i r = pendOk st i r"
  by (simp add: pendOk_def)

lemma time_inv: "evInv st \<Longrightarrow> ev_now st \<le> n \<Longrightarrow> evInv (st\<lparr>ev_now := n\<rparr>)"
  by (auto simp: evInv_def rowOk_def)

lemma unflight_inv: "evInv st \<Longrightarrow> evInv (st\<lparr>ev_inFlight := AList.delete i (ev_inFlight st)\<rparr>)"
  by (auto simp: evInv_def rowOk_def delete_conv split: if_splits)

lemma commit_row_inv:
  assumes "evInv st" "map_of (ev_inFlight st) i = Some fresh" "map_of (ev_rules st) i = Some r"
    and "ev_now st \<le> now" "now \<le> dbNow"
  shows "evInv (tickCommit i (Some v) now dbNow e (st\<lparr>ev_now := dbNow\<rparr>))"
proof -
  let ?st = "st\<lparr>ev_now := dbNow\<rparr>"
  define st' where "st' = tickCommit i (Some v) now dbNow e ?st"
  have fl: "map_of (ev_inFlight ?st) i = Some fresh" "map_of (ev_rules ?st) i = Some r" using assms(2,3) by simp_all
  note frame = commit_frame [OF fl(1), of v now dbNow e, folded st'_def] and row = commit_row [OF fl st'_def]
  note old = evInv_row [OF assms(1,3)] and fire = firing_row [OF assms(1,2,3)]
  have hist: "firings j (ev_history st') = firings j (ev_history st) + (if j = i \<and> moveTo fresh v now r = Some ArFiring then 1 else 0)"
      "filter (\<lambda>h. ah_toState h = ArFiring) (ev_history st') = filter (\<lambda>h. ah_toState h = ArFiring) (ev_history st) @
        (if moveTo fresh v now r = Some ArFiring then [last (ev_history st')] else [])"
      "moveTo fresh v now r = Some ArFiring \<Longrightarrow> ah_ruleId (last (ev_history st')) = i" for j
    using row(2,3) by (cases "moveTo fresh v now r"; auto simp: firings_def)+
  have "rowOk st' j r'" if "map_of (ev_rules st') j = Some r'" for j r'
  proof (cases "j = i")
    case True
    then have "r' = movedRow fresh v now dbNow r" using that row(1) by simp
    then show ?thesis using True old moved_pendOk [OF assms, of v e] frame(1) hist(1)
      by (auto simp: rowOk_def moved_simps st'_def [symmetric] delete_conv)
  next
    case False
    then have "rowOk st j r'" using that row(1) evInv_row [OF assms(1)] by simp
    then show ?thesis using False hist(1) frame(1) other_pendOk [OF fl(1) False, of v now dbNow e r']
      by (auto simp: rowOk_def st'_def [symmetric] delete_conv)
  qed
  moreover have "pendOk st' j f \<and> al_state f \<noteq> ArDisabled" if "map_of (ev_inFlight st') j = Some f" for j f
    using that assms(1) frame(1) other_pendOk [OF fl(1), of j v now dbNow e f]
    by (auto simp: evInv_def st'_def [symmetric] delete_conv split: if_splits)
  moreover have "\<forall>s\<in>set (ev_samples st'). sa_at s \<le> ev_now st'" using assms(1,4,5) frame(2,3) by (auto simp: evInv_def)
  moreover have "map af_ruleId (ev_fired st') = map ah_ruleId (filter (\<lambda>h. ah_toState h = ArFiring) (ev_history st'))"
  proof (cases "moveTo fresh v now r = Some ArFiring")
    case True
    then obtain f where f: "ev_fired st' = ev_fired ?st @ [f]" "af_ruleId f = al_id r" using row(4) by blast
    show ?thesis using f True hist(2,3) old assms(1) by (simp add: evInv_def rowOk_def)
  next
    case False
    then show ?thesis using row(5) fire hist(2) assms(1) by (simp add: evInv_def)
  qed
  ultimately show ?thesis unfolding st'_def [symmetric] by (simp add: evInv_def)
qed

lemma commit_inv:
  assumes "evInv st" "ev_now st \<le> now" "now \<le> dbNow"
  shows "evInv (tickCommit i sample now dbNow e (st\<lparr>ev_now := dbNow\<rparr>))"
proof -
  let ?st = "st\<lparr>ev_now := dbNow\<rparr>"
  have inv: "evInv ?st" using time_inv assms by simp
  show ?thesis
  proof (cases "map_of (ev_inFlight st) i")
    case None
    then show ?thesis using inv by (simp add: tickCommit_def)
  next
    case (Some fresh)
    then have fl: "map_of (ev_inFlight ?st) i = Some fresh" by simp
    show ?thesis
    proof (cases sample)
      case None
      then show ?thesis using unflight_inv [OF inv, of i] Some by (simp add: tickCommit_def Let_def)
    next
      case s: (Some v)
      show ?thesis
      proof (cases "map_of (ev_rules st) i")
        case None
        then have none: "map_of (ev_rules ?st) i = None" by simp
        note frame = commit_frame [OF fl, of v now dbNow e] and miss = commit_missing [OF fl none, of v now dbNow e]
        have o: "pendOk (tickCommit i (Some v) now dbNow e ?st) j r = pendOk st j r" if "j \<noteq> i" for j r
          using other_pendOk [OF fl that] by simp
        have "rowOk (tickCommit i (Some v) now dbNow e ?st) j r" if "map_of (ev_rules st) j = Some r" for j r
          using evInv_row [OF assms(1) that] that None o [of j r] frame(1) miss(2)
          by (cases "j = i") (auto simp: rowOk_def delete_conv)
        moreover have "pendOk (tickCommit i (Some v) now dbNow e ?st) j f \<and> al_state f \<noteq> ArDisabled"
          if "map_of (AList.delete i (ev_inFlight st)) j = Some f" for j f
          using that assms(1) o [of j f] by (auto simp: evInv_def delete_conv split: if_splits)
        ultimately show ?thesis using assms s frame miss by (auto simp: evInv_def)
      next
        case (Some r)
        then show ?thesis using commit_row_inv [OF assms(1) _ Some assms(2,3)] \<open>map_of (ev_inFlight st) i = Some fresh\<close> s by simp
      qed
    qed
  qed
qed

lemma alert_step_inv:
  assumes "evInv st" "alert_step st st'"
  shows "evInv st'"
  using assms(2)
proof cases
  case (al_create i now d r rs)
  have "rs = ev_rules st @ [(i, newRuleRow i now d)]" using al_create(3) by (auto simp: alertCreate_def Let_def split: if_splits)
  then show ?thesis unfolding al_create(1)
    using create_ok [OF al_create(2) assms(1)] evInv_row [OF assms(1)]
    by (intro evInv_rules [OF assms(1)]) (auto simp: map_add_def split: option.splits if_splits)
next
  case (al_edit p now i)
  then show ?thesis using edit_ok evInv_row [OF assms(1)] by (auto intro: update_inv [OF assms(1)])
next
  case (al_disable i now)
  then show ?thesis using switch_ok evInv_row [OF assms(1)] by (auto simp: disableRule_def intro: update_inv [OF assms(1)])
next
  case (al_enable i now)
  then show ?thesis using switch_ok evInv_row [OF assms(1)] by (auto simp: enableRule_def intro: update_inv [OF assms(1)])
next
  case (al_delete i)
  then show ?thesis using evInv_row [OF assms(1)] assms(1)
    by (auto simp: alertDelete_def delete_conv split: if_splits intro!: evInv_rules [OF assms(1)])
qed (simp_all add: assms(1) begin_inv commit_inv time_inv)

interpretation alerts: step_system evaluator_init alert_step evInv
  by unfold_locales (simp add: evaluator_init_def evInv_def, rule alert_step_inv)

section \<open>Properties\<close>


definition exCondition :: AlertCondition where
  "exCondition = \<lparr>ac_query = ''up'', ac_operator = OpGt, ac_threshold = 5, ac_forDurationSec = 60\<rparr>"

definition exNewRule :: NewAlertRule where
  "exNewRule = \<lparr>nr_name = ''n'', nr_description = [], nr_originalPrompt = None, nr_condition = exCondition,
     nr_evaluationIntervalSec = 60, nr_severity = SevHigh, nr_labels = None, nr_notificationPolicyId = None,
     nr_investigationId = None, nr_investigationStartedAt = None, nr_investigationFailedAt = None,
     nr_investigationFailureReason = None, nr_workspaceId = None, nr_folderUid = None, nr_createdBy = ''u'',
     nr_lastEvaluatedAt = None, nr_lastFiredAt = None, nr_source = None, nr_provenance = None\<rparr>"

definition exEvaluator :: evaluator where
  "exEvaluator = \<lparr>ev_rules = [], ev_history = [], ev_inFlight = [], ev_fired = [], ev_samples = [], ev_now = 0\<rparr>"

definition exWithRule :: evaluator where
  "exWithRule = exEvaluator\<lparr>ev_rules := [(''r'', newRuleRow ''r'' 0 exNewRule)]\<rparr>"

definition exPendingTick :: evaluator where
  "exPendingTick = tickBegin ''r'' (tickCommit ''r'' (Some 7) 1000 1000 ''h'' ((tickBegin ''r'' exWithRule)\<lparr>ev_now := 1000\<rparr>))"

lemma exInit_ok: "evaluator_init exEvaluator"
  by (simp add: evaluator_init_def exEvaluator_def)

lemma exWithRule_step: "alert_step exEvaluator exWithRule"
proof -
  have c: "alertCreate (ev_rules exEvaluator) ''r'' 0 exNewRule = Some (newRuleRow ''r'' 0 exNewRule, [(''r'', newRuleRow ''r'' 0 exNewRule)])"
    by (simp add: alertCreate_def exEvaluator_def)
  have "unknownRule ''r'' exEvaluator" by (simp add: unknownRule_def exEvaluator_def)
  from alert_step.al_create [OF this c] show ?thesis by (simp add: exWithRule_def)
qed

lemma exPendingTick_reachable: "alert_step\<^sup>*\<^sup>* exEvaluator exPendingTick"
proof -
  have "alert_step (tickBegin ''r'' exWithRule)
      (tickCommit ''r'' (Some 7) 1000 1000 ''h'' ((tickBegin ''r'' exWithRule)\<lparr>ev_now := 1000\<rparr>))"
    by (rule alert_step.al_commit) (simp_all add: tickBegin_def exWithRule_def exEvaluator_def split: option.split)
  then have "alert_step\<^sup>*\<^sup>* (tickBegin ''r'' exWithRule) exPendingTick"
    unfolding exPendingTick_def using alert_step.al_begin by (meson rtranclp.intros)
  then show ?thesis using exWithRule_step alert_step.al_begin [of exWithRule "''r''"]
    by (meson converse_rtranclp_into_rtranclp)
qed


text \<open>The books agree. In every reachable state the fired events are, one for one and in order,
  the firing entries of the history, and the fire count of every rule is the number of its
  firing entries.\<close>

theorem alert_books_agree:
  assumes "evaluator_init st0" "alert_step\<^sup>*\<^sup>* st0 st"
  shows "map af_ruleId (ev_fired st) = map ah_ruleId (filter (\<lambda>h. ah_toState h = ArFiring) (ev_history st))
    \<and> (\<forall>i r. alertFindById (ev_rules st) i = Some r \<longrightarrow>
         al_id r = i \<and> al_fireCount r = length (filter (\<lambda>h. ah_ruleId h = i \<and> ah_toState h = ArFiring) (ev_history st)))"
  using alerts.reachable_inv [OF assms] by (auto simp: evInv_def rowOk_def firings_def alertFindById_def)

theorem alert_books_agree_witness:
  "map af_ruleId (ev_fired exPendingTick) = [] \<and> (\<exists>r. alertFindById (ev_rules exPendingTick) ''r'' = Some r \<and> al_fireCount r = 0)"
proof -
  have "map_option al_state (alertFindById (ev_rules exPendingTick) ''r'') = Some ArPending" by code_simp
  from map_option_SomeD [OF this] obtain r where r: "alertFindById (ev_rules exPendingTick) ''r'' = Some r" by blast
  have "map ah_toState (ev_history exPendingTick) = [ArPending]" by code_simp
  from map_single [OF this] obtain h where h: "ev_history exPendingTick = [h]" "ah_toState h = ArPending" by blast
  from alert_books_agree [OF exInit_ok exPendingTick_reachable] r h show ?thesis by simp
qed

text \<open>C31: a condition that keeps holding fires. Two ticks of a quiet rule whose sample satisfies the
  condition, with at least the configured time between the first write and the second tick, leave
  the rule firing with exactly one event added; with no configured time one tick is enough.\<close>

theorem alert_eventually_fires:
  assumes "alertFindById (ev_rules st) i = Some r" "map_of (ev_inFlight st) i = None"
    and "al_state r = ArNormal \<or> al_state r = ArResolved" "holdsFor r v" "holdsFor r w"
    and "ac_forDurationSec (al_condition r) > 0" "t2 - db1 \<ge> ac_forDurationSec (al_condition r) * 1000"
  shows "\<exists>r' f. alertFindById (ev_rules (tickCommit i (Some w) t2 db2 e2 (tickBegin i (tickCommit i (Some v) t1 db1 e1 (tickBegin i st))))) i = Some r'
    \<and> al_state r' = ArFiring \<and> al_fireCount r' = al_fireCount r + 1
    \<and> ev_fired (tickCommit i (Some w) t2 db2 e2 (tickBegin i (tickCommit i (Some v) t1 db1 e1 (tickBegin i st)))) = ev_fired st @ [f]"
proof -
  let ?b = "tickBegin i st" and ?c = "tickCommit i (Some v) t1 db1 e1 (tickBegin i st)"
  have rows: "map_of (ev_rules st) i = Some r" using assms(1) by (simp add: alertFindById_def)
  have nd: "al_state r \<noteq> ArDisabled" using assms(3) by auto
  have b: "?b = st\<lparr>ev_inFlight := AList.update i r (ev_inFlight st)\<rparr>" using assms(1,2) nd by (simp add: tickBegin_def)
  have fl: "map_of (ev_inFlight ?b) i = Some r" "map_of (ev_rules ?b) i = Some r" using rows by (simp_all add: b update_conv)
  have m1: "moveTo r v t1 r = Some ArPending" using assms(3,4,6) by (auto simp: moveTo_def decideTransition_def)
  define r1 where "r1 = movedRow r v t1 db1 r"
  have s1: "al_state r1 = ArPending" "al_pendingSince r1 = Some db1" "al_condition r1 = al_condition r" "al_fireCount r1 = al_fireCount r"
    by (simp_all add: r1_def moved_simps m1) (simp add: movedRow_def Let_def m1)
  have c1: "map_of (ev_rules ?c) i = Some r1" "ev_fired ?c = ev_fired st" "map_of (ev_inFlight ?c) i = None"
    using commit_row(1,5) [OF fl refl, of v t1 db1 e1] commit_frame(1) [OF fl(1), of v t1 db1 e1] m1 assms(3)
    by (auto simp: r1_def b delete_conv)
  let ?b2 = "tickBegin i ?c"
  have b2: "?b2 = ?c\<lparr>ev_inFlight := AList.update i r1 (ev_inFlight ?c)\<rparr>"
    using c1 s1(1) by (simp add: tickBegin_def alertFindById_def)
  have fl2: "map_of (ev_inFlight ?b2) i = Some r1" "map_of (ev_rules ?b2) i = Some r1" using c1(1) by (simp_all add: b2 update_conv)
  have h: "holdsFor r1 w" using assms(5) s1(3) by (simp add: holdsFor_def)
  have m2: "moveTo r1 w t2 r1 = Some ArFiring" using s1 h assms(7) by (simp add: moveTo_def decideTransition_def)
  obtain f where "ev_fired (tickCommit i (Some w) t2 db2 e2 ?b2) = ev_fired ?b2 @ [f]"
    using commit_row(4) [OF fl2 refl m2, of db2 e2] by blast
  moreover have "ev_fired ?b2 = ev_fired st" using c1(2) by (simp add: b2)
  moreover have "map_of (ev_rules (tickCommit i (Some w) t2 db2 e2 ?b2)) i = Some (movedRow r1 w t2 db2 r1)"
    using commit_row(1) [OF fl2 refl, of w t2 db2 e2] by simp
  ultimately show ?thesis using s1(4) by (auto simp: alertFindById_def moved_simps m2)
qed

theorem alert_eventually_fires_witness:
  "\<exists>r'. alertFindById (ev_rules (tickCommit ''r'' (Some 8) 61000 61000 ''k'' (tickBegin ''r''
     (tickCommit ''r'' (Some 7) 1000 1000 ''h'' (tickBegin ''r'' exWithRule))))) ''r'' = Some r' \<and> al_state r' = ArFiring"
proof -
  let ?r = "newRuleRow ''r'' 0 exNewRule"
  have r: "alertFindById (ev_rules exWithRule) ''r'' = Some ?r" "map_of (ev_inFlight exWithRule) ''r'' = None"
    by (simp_all add: exWithRule_def exEvaluator_def alertFindById_def)
  have c: "al_condition ?r = exCondition" "al_state ?r = ArNormal" by (simp_all add: newRuleRow_def exNewRule_def)
  have h: "holdsFor ?r 7" "holdsFor ?r 8" by (simp_all add: holdsFor_def c exCondition_def evaluatePredicate_def)
  have d: "ac_forDurationSec (al_condition ?r) > 0" "61000 - 1000 \<ge> ac_forDurationSec (al_condition ?r) * 1000"
    by (simp_all add: c exCondition_def)
  from alert_eventually_fires [OF r disjI1 [OF c(2)] h d] show ?thesis by blast
qed

text \<open>Switching a rule off does not stop a tick that has already read it. When the query returns,
  a rule that was disabled meanwhile is moved to the state the tick decided on; if that state is
  firing, the alert is emitted.\<close>

theorem disable_lost_to_tick:
  assumes "map_of (ev_inFlight st) i = Some fresh" "alertFindById (ev_rules st) i = Some r" "al_state r = ArDisabled"
    and "decideTransition fresh (holdsFor fresh v) now = Some x" "x \<noteq> al_state fresh" "x \<noteq> ArDisabled"
  shows "\<exists>r'. alertFindById (ev_rules (tickCommit i (Some v) now dbNow e st)) i = Some r' \<and> al_state r' = x
    \<and> (x = ArFiring \<longrightarrow> length (ev_fired (tickCommit i (Some v) now dbNow e st)) = length (ev_fired st) + 1)"
proof -
  have r: "map_of (ev_rules st) i = Some r" using assms(2) by (simp add: alertFindById_def)
  have m: "moveTo fresh v now r = Some x" using assms(3-6) by (auto simp: moveTo_def)
  then show ?thesis using commit_row(1,4) [OF assms(1) r refl, of v now dbNow e]
    by (auto simp: alertFindById_def moved_simps)
qed

theorem disable_lost_to_tick_witness:
  "\<exists>r'. alertFindById (ev_rules (tickCommit ''r'' (Some 8) 61000 61000 ''k'' (disableRule ''r'' 2000 exPendingTick))) ''r'' = Some r'
     \<and> al_state r' = ArFiring"
proof -
  let ?st = "disableRule ''r'' 2000 exPendingTick"
  have "map_option (\<lambda>f. (decideTransition f (holdsFor f 8) 61000, al_state f)) (map_of (ev_inFlight ?st) ''r'') = Some (Some ArFiring, ArPending)"
    by code_simp
  from map_option_SomeD [OF this] obtain fresh where f: "map_of (ev_inFlight ?st) ''r'' = Some fresh" "decideTransition fresh (holdsFor fresh 8) 61000 = Some ArFiring"
      "al_state fresh = ArPending"
    by blast
  have "map_option al_state (alertFindById (ev_rules ?st) ''r'') = Some ArDisabled" by code_simp
  from map_option_SomeD [OF this] obtain r where r: "alertFindById (ev_rules ?st) ''r'' = Some r" "al_state r = ArDisabled" by blast
  have "ArFiring \<noteq> al_state fresh" using f(3) by simp
  from disable_lost_to_tick [OF f(1) r f(2) this] show ?thesis by blast
qed

end
