(* ===== verification/Leader_Lock.thy ===== *)
theory Leader_Lock
  imports Alert_Evaluator
begin

text \<open>
  The leader lock (\<open>api-gateway/src/services/leader-lock.ts\<close>) and the part of the alert evaluator
  that depends on it: leadership, and the timers of the rules
  (\<open>alert-evaluator-service.ts\<close>: \<open>start\<close>, \<open>stop\<close>, \<open>tickLeader\<close>, \<open>refreshSchedule\<close>). The lock row
  is one row of a settings table, shared by the replicas; a timer is a handle with its interval.
  Each operation is atomic here, and the replicas read one clock.

  Results: at any time at most one replica holds an unexpired lease, and of the replicas that
  believe themselves leader at most one has renewed within the lease time; a refresh schedules
  exactly the enabled rules and leaves unchanged timers alone.
\<close>

section \<open>Definitions\<close>

subsection \<open>The lock\<close>

record LockValue =
  lv_leaderId :: string
  lv_expiresAt :: int

type_synonym lock_row = "LockValue option"

definition lockHolder :: "lock_row \<Rightarrow> string option" where
  "lockHolder row = map_option lv_leaderId row"

definition tryAcquire :: "string \<Rightarrow> int \<Rightarrow> int \<Rightarrow> lock_row \<Rightarrow> bool \<times> lock_row" where
  "tryAcquire me ttl now row =
     (let v = \<lparr>lv_leaderId = me, lv_expiresAt = now + ttl\<rparr>;
          row' = (case row of
                    None \<Rightarrow> Some v
                  | Some cur \<Rightarrow> if lv_expiresAt cur < now then Some v else Some cur)
      in (lockHolder row' = Some me, row'))"

definition heartbeat :: "string \<Rightarrow> int \<Rightarrow> int \<Rightarrow> lock_row \<Rightarrow> bool \<times> lock_row" where
  "heartbeat me ttl now row =
     (let row' = (if lockHolder row = Some me then Some \<lparr>lv_leaderId = me, lv_expiresAt = now + ttl\<rparr> else row)
      in (lockHolder row' = Some me, row'))"

definition release :: "string \<Rightarrow> lock_row \<Rightarrow> lock_row" where
  "release me row = (if lockHolder row = Some me then None else row)"

subsection \<open>The timers of a replica\<close>

record Timer =
  tm_handle :: nat
  tm_intervalMs :: int
  tm_fingerprint :: "int \<times> AlertRuleState"

record replica =
  re_running :: bool
  re_isLeader :: bool
  re_timers :: "(string \<times> Timer) list"
  re_nextHandle :: nat

text \<open>\<open>evaluationIntervalSec || 60\<close>, in milliseconds.\<close>

definition ruleIntervalMs :: "AlertRule \<Rightarrow> int" where
  "ruleIntervalMs rule = (if al_evaluationIntervalSec rule = 0 then 60 else al_evaluationIntervalSec rule) * 1000"

definition scheduleFingerprint :: "AlertRule \<Rightarrow> int \<times> AlertRuleState" where
  "scheduleFingerprint rule = (ruleIntervalMs rule, al_state rule)"

fun scheduleLoop :: "AlertRule list \<Rightarrow> replica \<Rightarrow> replica" where
  "scheduleLoop [] st = st"
| "scheduleLoop (rule # rest) st =
     scheduleLoop rest
       (if al_state rule = ArDisabled then st
        else if map_option tm_fingerprint (map_of (re_timers st) (al_id rule)) = Some (scheduleFingerprint rule) then st
        else st\<lparr>re_timers := AList.update (al_id rule) \<lparr>tm_handle = re_nextHandle st,
                  tm_intervalMs = ruleIntervalMs rule, tm_fingerprint = scheduleFingerprint rule\<rparr> (re_timers st),
                re_nextHandle := Suc (re_nextHandle st)\<rparr>)"

definition enabledIds :: "AlertRule list \<Rightarrow> string list" where
  "enabledIds rules = map al_id (filter (\<lambda>r. al_state r \<noteq> ArDisabled) rules)"

definition refreshSchedule :: "AlertRule list \<Rightarrow> replica \<Rightarrow> replica" where
  "refreshSchedule rules st =
     (if \<not> re_running st then st
      else let st1 = scheduleLoop rules st
           in st1\<lparr>re_timers := filter (\<lambda>(i, t). i \<in> set (enabledIds rules)) (re_timers st1)\<rparr>)"

definition tickLeader :: "string \<Rightarrow> int \<Rightarrow> int \<Rightarrow> AlertRule list \<Rightarrow> replica \<times> lock_row \<Rightarrow> replica \<times> lock_row" where
  "tickLeader me ttl now rules = (\<lambda>(st, row).
     if re_isLeader st
     then (case heartbeat me ttl now row of
             (stillMine, row') \<Rightarrow> (if stillMine then st else st\<lparr>re_isLeader := False, re_timers := []\<rparr>, row'))
     else (case tryAcquire me ttl now row of
             (ok, row') \<Rightarrow> (if ok then refreshSchedule rules (st\<lparr>re_isLeader := True\<rparr>) else st, row')))"

definition startReplica :: "string \<Rightarrow> int \<Rightarrow> int \<Rightarrow> AlertRule list \<Rightarrow> replica \<times> lock_row \<Rightarrow> replica \<times> lock_row" where
  "startReplica me ttl now rules = (\<lambda>(st, row).
     if re_running st then (st, row) else tickLeader me ttl now rules (st\<lparr>re_running := True\<rparr>, row))"

definition stopReplica :: "string \<Rightarrow> replica \<times> lock_row \<Rightarrow> replica \<times> lock_row" where
  "stopReplica me = (\<lambda>(st, row).
     (st\<lparr>re_running := False, re_timers := [], re_isLeader := False\<rparr>, if re_isLeader st then release me row else row))"

subsection \<open>The cluster\<close>

text \<open>The replicas, the lock row and the clock; \<open>cl_renewed\<close> is when a replica last wrote the row or
  found it its own.\<close>

record cluster =
  cl_replicas :: "string \<Rightarrow> replica"
  cl_row :: lock_row
  cl_now :: int
  cl_renewed :: "string \<Rightarrow> int option"

definition putReplica :: "string \<Rightarrow> replica \<times> lock_row \<Rightarrow> cluster \<Rightarrow> cluster" where
  "putReplica me sr c = c\<lparr>cl_replicas := (cl_replicas c)(me := fst sr), cl_row := snd sr\<rparr>"

text \<open>The row was written by a replica in this step.\<close>

definition stamp :: "string \<Rightarrow> int \<Rightarrow> cluster \<Rightarrow> lock_row \<Rightarrow> cluster" where
  "stamp me ttl c row' =
     (if row' = Some \<lparr>lv_leaderId = me, lv_expiresAt = cl_now c + ttl\<rparr>
      then c\<lparr>cl_renewed := (cl_renewed c)(me := Some (cl_now c))\<rparr> else c)"

definition deadReplica :: replica where
  "deadReplica = \<lparr>re_running = False, re_isLeader = False, re_timers = [], re_nextHandle = 0\<rparr>"

text \<open>
  A step: a replica starts, checks its leadership, refreshes its timers, stops, or dies without
  releasing the lock; or time passes.
\<close>

inductive cluster_step :: "int \<Rightarrow> cluster \<Rightarrow> cluster \<Rightarrow> bool" for ttl where
  cs_start: "sr = startReplica me ttl (cl_now c) rules (cl_replicas c me, cl_row c) \<Longrightarrow>
     cluster_step ttl c (putReplica me sr (stamp me ttl c (snd sr)))"
| cs_tick: "re_running (cl_replicas c me) \<Longrightarrow> sr = tickLeader me ttl (cl_now c) rules (cl_replicas c me, cl_row c) \<Longrightarrow>
     cluster_step ttl c (putReplica me sr (stamp me ttl c (snd sr)))"
| cs_refresh: "re_running (cl_replicas c me) \<Longrightarrow> re_isLeader (cl_replicas c me) \<Longrightarrow> cluster_step ttl c (putReplica me (refreshSchedule rules (cl_replicas c me), cl_row c) c)"
| cs_stop: "cluster_step ttl c ((putReplica me (stopReplica me (cl_replicas c me, cl_row c)) c)
     \<lparr>cl_renewed := (cl_renewed c)(me := None)\<rparr>)"
| cs_crash: "cluster_step ttl c (c\<lparr>cl_replicas := (cl_replicas c)(me := deadReplica), cl_renewed := (cl_renewed c)(me := None)\<rparr>)"
| cs_time: "cl_now c \<le> t \<Longrightarrow> cluster_step ttl c (c\<lparr>cl_now := t\<rparr>)"

definition cluster_init :: "cluster \<Rightarrow> bool" where
  "cluster_init c \<longleftrightarrow> (\<forall>me. \<not> re_running (cl_replicas c me) \<and> \<not> re_isLeader (cl_replicas c me) \<and> re_timers (cl_replicas c me) = []
     \<and> cl_renewed c me = None)"

section \<open>Leadership\<close>

definition clusterInv :: "int \<Rightarrow> cluster \<Rightarrow> bool" where
  "clusterInv ttl c \<longleftrightarrow>
     (\<forall>me t. cl_renewed c me = Some t \<longrightarrow> t \<le> cl_now c \<and>
        (cl_now c \<le> t + ttl \<longrightarrow> cl_row c = Some \<lparr>lv_leaderId = me, lv_expiresAt = t + ttl\<rparr>))
     \<and> (\<forall>me. re_timers (cl_replicas c me) \<noteq> [] \<longrightarrow> re_running (cl_replicas c me) \<and> re_isLeader (cl_replicas c me))"

lemma row_kept:
  "heartbeat me ttl now (Some v) = (ok, row') \<Longrightarrow> row' = Some v \<or> row' = Some \<lparr>lv_leaderId = me, lv_expiresAt = now + ttl\<rparr> \<and> lv_leaderId v = me"
  "tryAcquire me ttl now (Some v) = (ok, row') \<Longrightarrow>
     row' = Some v \<or> row' = Some \<lparr>lv_leaderId = me, lv_expiresAt = now + ttl\<rparr> \<and> lv_expiresAt v < now"
  by (auto simp: heartbeat_def tryAcquire_def lockHolder_def Let_def split: if_splits)

text \<open>What an attempt of one replica does to the row, whichever attempt it is.\<close>

lemma tick_row:
  assumes "snd (tickLeader me ttl now rules (st, Some v)) = row'"
  shows "row' = Some v \<or> row' = Some \<lparr>lv_leaderId = me, lv_expiresAt = now + ttl\<rparr> \<and> (lv_leaderId v = me \<or> lv_expiresAt v < now)"
proof (cases "re_isLeader st")
  case True
  obtain ok r where h: "heartbeat me ttl now (Some v) = (ok, r)" by fastforce
  then show ?thesis using True assms row_kept(1) [OF h] by (auto simp: tickLeader_def)
next
  case False
  obtain ok r where h: "tryAcquire me ttl now (Some v) = (ok, r)" by fastforce
  then show ?thesis using False assms row_kept(2) [OF h] by (auto simp: tickLeader_def)
qed

lemma schedule_flags:
  "re_running (scheduleLoop rules st) = re_running st" "re_isLeader (scheduleLoop rules st) = re_isLeader st"
  by (induction rules arbitrary: st) simp_all

lemma refresh_flags [simp]:
  "re_running (refreshSchedule rules st) = re_running st" "re_isLeader (refreshSchedule rules st) = re_isLeader st"
  by (simp_all add: refreshSchedule_def Let_def schedule_flags)

lemma tick_timers:
  assumes "re_running st" "re_timers st \<noteq> [] \<longrightarrow> re_isLeader st" "tickLeader me ttl now rules (st, row) = (st', row')"
  shows "re_running st'" "re_timers st' \<noteq> [] \<longrightarrow> re_isLeader st'"
  using assms by (auto simp: tickLeader_def split: prod.splits if_splits)

lemma renewed_kept:
  assumes "clusterInv ttl c" "row' = snd (tickLeader me ttl (cl_now c) rules (st, cl_row c))"
  shows "\<forall>w t. cl_renewed (stamp me ttl c row') w = Some t \<longrightarrow> t \<le> cl_now c \<and>
     (cl_now c \<le> t + ttl \<longrightarrow> row' = Some \<lparr>lv_leaderId = w, lv_expiresAt = t + ttl\<rparr>)"
proof (intro allI impI)
  fix w t assume w: "cl_renewed (stamp me ttl c row') w = Some t"
  show "t \<le> cl_now c \<and> (cl_now c \<le> t + ttl \<longrightarrow> row' = Some \<lparr>lv_leaderId = w, lv_expiresAt = t + ttl\<rparr>)"
  proof (cases "row' = Some \<lparr>lv_leaderId = me, lv_expiresAt = cl_now c + ttl\<rparr> \<and> w = me")
    case True
    then show ?thesis using w by (simp add: stamp_def)
  next
    case False
    then have old: "cl_renewed c w = Some t" using w by (auto simp: stamp_def split: if_splits)
    then have inv: "t \<le> cl_now c" "cl_now c \<le> t + ttl \<longrightarrow> cl_row c = Some \<lparr>lv_leaderId = w, lv_expiresAt = t + ttl\<rparr>"
      using assms(1) by (auto simp: clusterInv_def)
    moreover have "row' = Some \<lparr>lv_leaderId = w, lv_expiresAt = t + ttl\<rparr>" if "cl_now c \<le> t + ttl"
    proof -
      have row: "cl_row c = Some \<lparr>lv_leaderId = w, lv_expiresAt = t + ttl\<rparr>" using inv that by simp
      show ?thesis using tick_row [OF assms(2) [symmetric, unfolded row]] False that by auto
    qed
    ultimately show ?thesis by blast
  qed
qed

lemma stamp_simps [simp]:
  "cl_now (stamp me ttl c row) = cl_now c" "cl_replicas (stamp me ttl c row) = cl_replicas c" "cl_row (stamp me ttl c row) = cl_row c"
  by (simp_all add: stamp_def)

lemma attempt_inv:
  assumes "clusterInv ttl c" "re_running st" "re_timers st \<noteq> [] \<longrightarrow> re_isLeader st"
    and "sr = tickLeader me ttl (cl_now c) rules (st, cl_row c)"
  shows "clusterInv ttl (putReplica me sr (stamp me ttl c (snd sr)))"
proof -
  obtain st' row' where sr: "sr = (st', row')" by fastforce
  then have e: "tickLeader me ttl (cl_now c) rules (st, cl_row c) = (st', row')" using assms(4) by simp
  note t = tick_timers [OF assms(2,3) e]
  have "row' = snd (tickLeader me ttl (cl_now c) rules (st, cl_row c))" using e by simp
  note r = renewed_kept [OF assms(1) this]
  show ?thesis using assms(1) r t unfolding sr by (simp add: clusterInv_def putReplica_def)
qed

lemma cluster_step_inv:
  assumes "clusterInv ttl c" "cluster_step ttl c c'"
  shows "clusterInv ttl c'"
  using assms(2)
proof cases
  case (cs_start sr me rules)
  have idle: "re_timers (cl_replicas c me) \<noteq> [] \<longrightarrow> re_running (cl_replicas c me) \<and> re_isLeader (cl_replicas c me)"
    using assms(1) by (simp add: clusterInv_def)
  show ?thesis
  proof (cases "re_running (cl_replicas c me)")
    case True
    then have "sr = (cl_replicas c me, cl_row c)" using cs_start by (simp add: startReplica_def)
    then show ?thesis using assms(1) unfolding cs_start(1)
      by (auto simp: clusterInv_def putReplica_def stamp_def split: if_splits)
  next
    case False
    then show ?thesis using attempt_inv [OF assms(1), of "(cl_replicas c me)\<lparr>re_running := True\<rparr>" sr me rules] idle cs_start
      by (simp add: startReplica_def)
  qed
next
  case (cs_tick me sr rules)
  then show ?thesis using attempt_inv [OF assms(1), of "cl_replicas c me" sr me rules] assms(1) by (simp add: clusterInv_def)
next
  case (cs_refresh me rules)
  then show ?thesis using assms(1) by (simp add: clusterInv_def putReplica_def)
next
  case (cs_stop me)
  have "release me row = row" if "lockHolder row \<noteq> Some me" for row using that by (simp add: release_def)
  then show ?thesis using assms(1) unfolding cs_stop clusterInv_def putReplica_def stopReplica_def
    by (auto simp: lockHolder_def)
next
  case (cs_crash me)
  then show ?thesis using assms(1) by (auto simp: clusterInv_def deadReplica_def)
next
  case (cs_time t)
  then show ?thesis using assms(1) unfolding clusterInv_def by force
qed

interpretation lock: step_system cluster_init "cluster_step ttl" "clusterInv ttl" for ttl
  by unfold_locales (simp add: cluster_init_def clusterInv_def, rule cluster_step_inv)


definition exCluster :: cluster where
  "exCluster = \<lparr>cl_replicas = (\<lambda>me. deadReplica), cl_row = None, cl_now = 0, cl_renewed = (\<lambda>me. None)\<rparr>"

definition exStarted :: cluster where
  "exStarted = putReplica ''a'' (startReplica ''a'' 30000 0 [] (deadReplica, None))
     (stamp ''a'' 30000 exCluster (snd (startReplica ''a'' 30000 0 [] (deadReplica, None))))"


section \<open>Scheduling\<close>

definition timersOk :: "replica \<Rightarrow> bool" where
  "timersOk st \<longleftrightarrow> (\<forall>i t. map_of (re_timers st) i = Some t \<longrightarrow> tm_intervalMs t = fst (tm_fingerprint t))"

definition scheduled :: "replica \<Rightarrow> AlertRule \<Rightarrow> replica \<Rightarrow> bool" where
  "scheduled st r st' \<longleftrightarrow> (\<exists>t. map_of (re_timers st') (al_id r) = Some t \<and> tm_fingerprint t = scheduleFingerprint r
     \<and> (\<forall>old. map_of (re_timers st) (al_id r) = Some old \<longrightarrow> tm_fingerprint old = scheduleFingerprint r \<longrightarrow> t = old))"

lemma scheduleLoop_effect:
  assumes "distinct (map al_id rules)" "timersOk st"
  shows "timersOk (scheduleLoop rules st)
    \<and> (\<forall>i. i \<notin> set (enabledIds rules) \<longrightarrow> map_of (re_timers (scheduleLoop rules st)) i = map_of (re_timers st) i)
    \<and> (\<forall>r\<in>set rules. al_state r \<noteq> ArDisabled \<longrightarrow> scheduled st r (scheduleLoop rules st))"
  using assms
proof (induction rules arbitrary: st)
  case Nil
  then show ?case by simp
next
  case (Cons rule rest)
  define st1 where "st1 = (if al_state rule = ArDisabled then st
        else if map_option tm_fingerprint (map_of (re_timers st) (al_id rule)) = Some (scheduleFingerprint rule) then st
        else st\<lparr>re_timers := AList.update (al_id rule) \<lparr>tm_handle = re_nextHandle st,
                  tm_intervalMs = ruleIntervalMs rule, tm_fingerprint = scheduleFingerprint rule\<rparr> (re_timers st),
                re_nextHandle := Suc (re_nextHandle st)\<rparr>)"
  have loop: "scheduleLoop (rule # rest) st = scheduleLoop rest st1" by (simp only: scheduleLoop.simps st1_def)
  have d: "distinct (map al_id rest)" "al_id rule \<notin> al_id ` set rest" using Cons.prems(1) by simp_all
  have ok: "timersOk st1" using Cons.prems(2) by (auto simp: st1_def timersOk_def update_conv scheduleFingerprint_def split: if_splits)
  have other: "map_of (re_timers st1) i = map_of (re_timers st) i" if "i \<noteq> al_id rule \<or> al_state rule = ArDisabled" for i
    using that by (auto simp: st1_def update_conv)
  have own: "scheduled st rule st1" if "al_state rule \<noteq> ArDisabled" using that by (auto simp: st1_def scheduled_def update_conv)
  note IH = Cons.IH [OF d(1) ok]
  have nr: "al_id rule \<notin> set (enabledIds rest)" using d(2) by (auto simp: enabledIds_def)
  have "scheduled st r (scheduleLoop rest st1)" if r: "r \<in> set (rule # rest)" "al_state r \<noteq> ArDisabled" for r
  proof (cases "r = rule")
    case True
    then show ?thesis using own r IH nr unfolding scheduled_def by simp
  next
    case False
    then have "r \<in> set rest" "al_id r \<noteq> al_id rule" using r(1) d(2) by (metis imageI set_ConsD)+
    then show ?thesis using IH r(2) other [of "al_id r"] unfolding scheduled_def by auto
  qed
  moreover have "map_of (re_timers (scheduleLoop rest st1)) i = map_of (re_timers st) i"
    if "i \<notin> set (enabledIds (rule # rest))" for i
    using that IH other [of i] by (simp add: enabledIds_def split: if_splits)
  ultimately show ?case using IH unfolding loop by blast
qed

text \<open>A refresh schedules exactly what it should. In a running replica the timers after a refresh
  are those of the enabled rules and of no others, each with the rule's interval, and the timer of
  a rule whose interval and state are as they were is the same timer.\<close>

theorem refresh_exact:
  assumes "re_running st" "distinct (map al_id rules)" "timersOk st"
  shows "timersOk (refreshSchedule rules st)
    \<and> fst ` set (re_timers (refreshSchedule rules st)) = set (enabledIds rules)
    \<and> (\<forall>r\<in>set rules. al_state r \<noteq> ArDisabled \<longrightarrow>
         (\<exists>t. map_of (re_timers (refreshSchedule rules st)) (al_id r) = Some t \<and> tm_intervalMs t = ruleIntervalMs r
            \<and> (\<forall>old. map_of (re_timers st) (al_id r) = Some old \<longrightarrow> tm_fingerprint old = scheduleFingerprint r \<longrightarrow> t = old)))"
proof -
  let ?st = "scheduleLoop rules st" and ?st' = "refreshSchedule rules st"
  note L = scheduleLoop_effect [OF assms(2,3)]
  have ts: "re_timers ?st' = filter (\<lambda>(i, t). i \<in> set (enabledIds rules)) (re_timers ?st)"
    using assms(1) by (simp add: refreshSchedule_def Let_def)
  have lookup: "map_of (re_timers ?st') i = (if i \<in> set (enabledIds rules) then map_of (re_timers ?st) i else None)" for i
  proof -
    have "map_of (filter (\<lambda>(i, t). i \<in> X) ts) i = (if i \<in> X then map_of ts i else None)" for X and ts :: "(string \<times> Timer) list"
      by (induction ts) auto
    then show ?thesis unfolding ts by simp
  qed
  have each: "\<exists>t. map_of (re_timers ?st') (al_id r) = Some t \<and> tm_intervalMs t = ruleIntervalMs r
      \<and> (\<forall>old. map_of (re_timers st) (al_id r) = Some old \<longrightarrow> tm_fingerprint old = scheduleFingerprint r \<longrightarrow> t = old)"
    if r: "r \<in> set rules" "al_state r \<noteq> ArDisabled" for r
  proof -
    have "al_id r \<in> set (enabledIds rules)" using r by (auto simp: enabledIds_def)
    moreover obtain t where "map_of (re_timers ?st) (al_id r) = Some t" "tm_fingerprint t = scheduleFingerprint r"
        "\<forall>old. map_of (re_timers st) (al_id r) = Some old \<longrightarrow> tm_fingerprint old = scheduleFingerprint r \<longrightarrow> t = old"
      using L r unfolding scheduled_def by blast
    moreover from this have "tm_intervalMs t = ruleIntervalMs r" using L unfolding timersOk_def by (metis fst_conv scheduleFingerprint_def)
    ultimately show ?thesis using lookup by simp
  qed
  have "timersOk ?st'" using L lookup by (auto simp: timersOk_def split: if_splits)
  moreover have "fst ` set (re_timers ?st') \<subseteq> set (enabledIds rules)" unfolding ts by auto
  moreover have "set (enabledIds rules) \<subseteq> fst ` set (re_timers ?st')"
  proof
    fix i assume "i \<in> set (enabledIds rules)"
    then obtain r where "r \<in> set rules" "al_state r \<noteq> ArDisabled" "i = al_id r" by (auto simp: enabledIds_def)
    with each obtain t where "map_of (re_timers ?st') i = Some t" by blast
    then show "i \<in> fst ` set (re_timers ?st')" using map_of_SomeD by force
  qed
  ultimately show ?thesis using each by blast
qed

theorem refresh_exact_witness:
  "fst ` set (re_timers (refreshSchedule [newRuleRow ''r'' 0 exNewRule] (deadReplica\<lparr>re_running := True\<rparr>))) = {''r''}"
proof -
  have "timersOk (deadReplica\<lparr>re_running := True\<rparr>)" by (simp add: timersOk_def deadReplica_def)
  from refresh_exact [OF _ _ this, of "[newRuleRow ''r'' 0 exNewRule]"] show ?thesis
    by (simp add: enabledIds_def newRuleRow_def)
qed

end
