(* ===== verification/Plan_Verification.thy ===== *)
theory Plan_Verification
  imports Plan_Repo Alert_Evaluator
begin

text \<open>
  Verification of applied plans (\<open>api-gateway/src/services/plan-verification-service.ts\<close>): after a
  plan's execution has completed, the service waits for the linked alert rule to be evaluated and
  records a verdict. The state is the plan tables; the rules are read from the alert-rule table.
  Times in the evidence are numbers here instead of ISO strings. The periodic timer calls
  \<open>sweep\<close>; starting the service calls \<open>recoverInterrupted\<close>.

  Results: together with the evaluator, the verdict at the deadline is exactly whether the sample
  taken after the plan was applied satisfied the alert condition; a sweep leaves no plan of its
  batch waiting past its deadline.
\<close>

section \<open>Definitions\<close>

fun stateName :: "AlertRuleState \<Rightarrow> string" where
  "stateName ArNormal = ''normal''"
| "stateName ArPending = ''pending''"
| "stateName ArFiring = ''firing''"
| "stateName ArResolved = ''resolved''"
| "stateName ArDisabled = ''disabled''"

definition orNull :: "('a \<Rightarrow> json) \<Rightarrow> 'a option \<Rightarrow> json" where
  "orNull f x = (case x of None \<Rightarrow> JNull | Some y \<Rightarrow> f y)"

definition ruleSnapshot :: "AlertRule \<Rightarrow> json" where
  "ruleSnapshot rule = JObj [(''id'', JStr (al_id rule)), (''name'', JStr (al_name rule)),
     (''state'', JStr (stateName (al_state rule))), (''evaluationIntervalSec'', JNum (al_evaluationIntervalSec rule)),
     (''stateChangedAt'', JNum (al_stateChangedAt rule)), (''lastEvaluatedAt'', orNull JNum (al_lastEvaluatedAt rule)),
     (''pendingSince'', orNull JNum (al_pendingSince rule))]"

definition isFreshForPlan :: "AlertRule \<Rightarrow> RemediationPlan \<Rightarrow> bool" where
  "isFreshForPlan rule plan =
     (case (al_lastEvaluatedAt rule, pl_verificationStartedAt plan) of
        (Some e, Some s) \<Rightarrow> e \<ge> s
      | _ \<Rightarrow> False)"

definition evidence :: "RemediationPlan \<Rightarrow> int option \<Rightarrow> int option \<Rightarrow> string \<Rightarrow> int \<Rightarrow> AlertRule option \<Rightarrow> (string \<times> json) list" where
  "evidence plan startedAt deadlineAt reason checkedAt rule =
     [(''reason'', JStr reason), (''checkedAt'', JNum checkedAt), (''targetObject'', orNull JStr (pl_targetObject plan)),
      (''validationMethod'', orNull JStr (pl_validationMethod plan)),
      (''linkedAlertRuleId'', orNull JStr (pl_linkedAlertRuleId plan)),
      (''startedAt'', orNull JNum startedAt), (''deadlineAt'', orNull JNum deadlineAt)]
     @ (case rule of None \<Rightarrow> [] | Some r \<Rightarrow> [(''rule'', ruleSnapshot r)])"

definition planEvidence :: "RemediationPlan \<Rightarrow> string \<Rightarrow> int \<Rightarrow> AlertRule option \<Rightarrow> json" where
  "planEvidence plan reason checkedAt rule =
     JObj (evidence plan (pl_verificationStartedAt plan) (pl_verificationDeadlineAt plan) reason checkedAt rule)"

definition finish :: "plan_db \<Rightarrow> RemediationPlan \<Rightarrow> RemediationPlanVerificationStatus \<Rightarrow> string \<Rightarrow> int \<Rightarrow> AlertRule option
    \<Rightarrow> RemediationPlan option \<times> plan_db" where
  "finish db plan status reason checkedAt rule =
     updatePlan db (pl_orgId plan) (pl_id plan) (noPlanPatch\<lparr>pp_verificationStatus := Some status,
       pp_verificationEvidenceJson := Some (Some (planEvidence plan reason checkedAt rule))\<rparr>)"

definition beginVerification :: "alert_rules \<Rightarrow> int \<Rightarrow> int \<Rightarrow> plan_db \<Rightarrow> RemediationPlan \<Rightarrow> RemediationPlan option \<times> plan_db" where
  "beginVerification rules floorMs now db plan =
     (if \<not> truthy (pl_linkedAlertRuleId plan)
      then updatePlan db (pl_orgId plan) (pl_id plan) (noPlanPatch\<lparr>pp_verificationStatus := Some VsSkipped,
             pp_verificationStartedAt := Some None, pp_verificationDeadlineAt := Some None,
             pp_verificationEvidenceJson := Some (Some (planEvidence plan ''no linked alert rule'' now None))\<rparr>)
      else (case alertFindById rules (the (pl_linkedAlertRuleId plan)) of
              None \<Rightarrow> finish db plan VsInconclusive ''linked alert rule missing'' now None
            | Some rule \<Rightarrow>
                if al_state rule = ArDisabled
                then finish db plan VsInconclusive ''linked alert rule disabled'' now (Some rule)
                else let waitMs = max (al_evaluationIntervalSec rule * 2 * 1000) floorMs;
                         deadlineAt = now + waitMs
                     in updatePlan db (pl_orgId plan) (pl_id plan) (noPlanPatch\<lparr>pp_verificationStatus := Some VsWaiting,
                          pp_verificationStartedAt := Some (Some now), pp_verificationDeadlineAt := Some (Some deadlineAt),
                          pp_verificationEvidenceJson := Some (Some (JObj (evidence plan (Some now) (Some deadlineAt)
                             ''waiting for linked alert rule evaluation'' now (Some rule) @ [(''waitMs'', JNum waitMs)])))\<rparr>)))"

definition onExecutionOutcome :: "alert_rules \<Rightarrow> int \<Rightarrow> int \<Rightarrow> plan_db \<Rightarrow> string \<Rightarrow> string \<Rightarrow> bool \<Rightarrow> RemediationPlan option \<times> plan_db" where
  "onExecutionOutcome rules floorMs now db orgId planId completed =
     (case findByIdInOrg db orgId planId of
        None \<Rightarrow> (None, db)
      | Some plan \<Rightarrow> if completed then beginVerification rules floorMs now db plan else (Some plan, db))"

definition checkWaitingPlan :: "alert_rules \<Rightarrow> int \<Rightarrow> plan_db \<Rightarrow> RemediationPlan \<Rightarrow> RemediationPlan option \<times> plan_db" where
  "checkWaitingPlan rules now db plan =
     (if \<not> truthy (pl_linkedAlertRuleId plan)
      then updatePlan db (pl_orgId plan) (pl_id plan) (noPlanPatch\<lparr>pp_verificationStatus := Some VsSkipped,
             pp_verificationEvidenceJson := Some (Some (planEvidence plan ''no linked alert rule'' now None))\<rparr>)
      else (case alertFindById rules (the (pl_linkedAlertRuleId plan)) of
              None \<Rightarrow> finish db plan VsInconclusive ''linked alert rule missing'' now None
            | Some rule \<Rightarrow>
                let deadlineReached = (case pl_verificationDeadlineAt plan of None \<Rightarrow> True | Some d \<Rightarrow> d \<le> now);
                    fresh = isFreshForPlan rule plan
                in if al_state rule = ArDisabled
                   then finish db plan VsInconclusive ''linked alert rule disabled'' now (Some rule)
                   else if (al_state rule = ArNormal \<or> al_state rule = ArResolved) \<and> fresh
                   then finish db plan VsPassed ''linked alert rule evaluated normal/resolved'' now (Some rule)
                   else if \<not> deadlineReached then (Some plan, db)
                   else if \<not> fresh
                   then finish db plan VsInconclusive ''linked alert rule was not evaluated after verification started'' now (Some rule)
                   else if al_state rule = ArPending \<or> al_state rule = ArFiring
                   then finish db plan VsFailed ''linked alert rule still pending/firing at deadline'' now (Some rule)
                   else finish db plan VsInconclusive (''linked alert rule state '' @ [CHR 39] @ stateName (al_state rule)
                          @ [CHR 39] @ '' cannot verify remediation'') now (Some rule)))"

text \<open>The waiting plans by deadline (a missing one first), then by age.\<close>

definition listWaitingVerification :: "plan_db \<Rightarrow> nat \<Rightarrow> RemediationPlan list" where
  "listWaitingVerification db limit =
     map (\<lambda>r. rowToPlan r (stepsOf db (pl_id r)))
       (take limit (sort_key (\<lambda>r. pl_verificationDeadlineAt r \<noteq> None)
         (sort_key (\<lambda>r. or_default (pl_verificationDeadlineAt r) 0)
           (sort_key pl_createdAt (filter (\<lambda>p. pl_verificationStatus p = VsWaiting) (pd_plans db))))))"

fun sweepLoop :: "alert_rules \<Rightarrow> int \<Rightarrow> RemediationPlan list \<Rightarrow> plan_db \<Rightarrow> nat \<Rightarrow> nat \<times> plan_db" where
  "sweepLoop rules now [] db updated = (updated, db)"
| "sweepLoop rules now (plan # rest) db updated =
     (case checkWaitingPlan rules now db plan of
        (after, db') \<Rightarrow>
          sweepLoop rules now rest db'
            (case after of None \<Rightarrow> updated | Some p \<Rightarrow> if pl_verificationStatus p \<noteq> VsWaiting then updated + 1 else updated))"

definition sweep :: "alert_rules \<Rightarrow> int \<Rightarrow> plan_db \<Rightarrow> nat \<Rightarrow> nat \<times> plan_db" where
  "sweep rules now db limit = sweepLoop rules now (listWaitingVerification db limit) db 0"

fun recoverLoop :: "alert_rules \<Rightarrow> int \<Rightarrow> int \<Rightarrow> RemediationPlan list \<Rightarrow> plan_db \<Rightarrow> nat \<Rightarrow> nat \<times> plan_db" where
  "recoverLoop rules floorMs now [] db recovered = (recovered, db)"
| "recoverLoop rules floorMs now (plan # rest) db recovered =
     (case beginVerification rules floorMs now db plan of
        (after, db') \<Rightarrow>
          recoverLoop rules floorMs now rest db'
            (case after of None \<Rightarrow> recovered | Some p \<Rightarrow> if pl_verificationStatus p = VsNotStarted then recovered else recovered + 1))"

definition recoverInterrupted :: "alert_rules \<Rightarrow> int \<Rightarrow> int \<Rightarrow> plan_db \<Rightarrow> nat \<Rightarrow> nat \<times> plan_db" where
  "recoverInterrupted rules floorMs now db limit =
     (case recoverLoop rules floorMs now (listAppliedAwaitingVerification db limit) db 0 of
        (recovered, db') \<Rightarrow> (case sweep rules now db' limit of (n, db'') \<Rightarrow> (recovered + n, db'')))"

section \<open>Lemmas\<close>

lemma finish_result:
  assumes "findByIdInOrg db (pl_orgId plan) (pl_id plan) = Some p"
  shows "\<exists>plan'. finish db plan status reason t rule = (Some plan', snd (finish db plan status reason t rule))
    \<and> findByIdInOrg (snd (finish db plan status reason t rule)) (pl_orgId plan) (pl_id plan) = Some plan'
    \<and> pl_verificationStatus plan' = status"
  using updatePlan_found [OF assms] unfolding finish_def by (fastforce simp: noPlanPatch_def prod_eq_iff)

text \<open>The linked rule after a tick that took a sample.\<close>

lemma ticked_row:
  assumes "alertFindById (ev_rules st) i = Some r" "al_state r \<noteq> ArDisabled" "map_of (ev_inFlight st) i = None"
  shows "alertFindById (ev_rules (tickCommit i (Some v) now dbNow e (tickBegin i st))) i = Some (movedRow r v now dbNow r)"
proof -
  let ?b = "tickBegin i st"
  have b: "?b = st\<lparr>ev_inFlight := AList.update i r (ev_inFlight st)\<rparr>" using assms by (simp add: tickBegin_def)
  have "map_of (ev_inFlight ?b) i = Some r" "map_of (ev_rules ?b) i = Some r"
    using assms(1) by (simp_all add: b update_conv alertFindById_def)
  from commit_row(1) [OF this refl, of v now dbNow e i] show ?thesis by (simp add: alertFindById_def)
qed

lemma moved_evaluated:
  "al_lastEvaluatedAt (movedRow fresh v now dbNow r) = Some (if moveTo fresh v now r = None then now else dbNow)"
  by (cases "moveTo fresh v now r") (simp_all add: movedRow_def Let_def)

lemma moved_state:
  assumes "al_state r \<noteq> ArDisabled"
  shows "holdsFor r v \<Longrightarrow> al_state (movedRow r v now dbNow r) = ArPending \<or> al_state (movedRow r v now dbNow r) = ArFiring"
    "\<not> holdsFor r v \<Longrightarrow> al_state (movedRow r v now dbNow r) = ArNormal \<or> al_state (movedRow r v now dbNow r) = ArResolved"
  using assms by (cases "al_state r"; auto simp: moved_simps moveTo_def decideTransition_def split: option.splits)+

text \<open>C10: the verdict is what the sample said. Take an applied plan that waits for its linked rule, and a
  tick of the evaluator on that rule at or after the start of the verification. At the deadline the
  check records that the plan passed if the sample did not satisfy the alert condition, and that it
  failed if it did, whatever state the rule was in before.\<close>

theorem verdict_follows_sample:
  assumes "findByIdInOrg db (pl_orgId plan) (pl_id plan) = Some plan" "pl_linkedAlertRuleId plan = Some i" "i \<noteq> []"
    and "pl_verificationStartedAt plan = Some s" "pl_verificationDeadlineAt plan = Some d"
    and "alertFindById (ev_rules st) i = Some r" "al_state r \<noteq> ArDisabled" "map_of (ev_inFlight st) i = None"
    and "s \<le> now" "now \<le> dbNow" "d \<le> t"
  shows "\<exists>plan'. findByIdInOrg (snd (checkWaitingPlan
        (ev_rules (tickCommit i (Some v) now dbNow e (tickBegin i st))) t db plan)) (pl_orgId plan) (pl_id plan) = Some plan'
      \<and> pl_verificationStatus plan' = (if holdsFor r v then VsFailed else VsPassed)"
proof -
  let ?rules = "ev_rules (tickCommit i (Some v) now dbNow e (tickBegin i st))" and ?r = "movedRow r v now dbNow r"
  have row: "alertFindById ?rules i = Some ?r" by (rule ticked_row [OF assms(6,7,8)])
  have fresh: "isFreshForPlan ?r plan" using assms(4,9,10) by (simp add: isFreshForPlan_def moved_evaluated)
  note fin = finish_result [OF assms(1)]
  show ?thesis
  proof (cases "holdsFor r v")
    case True
    then have "checkWaitingPlan ?rules t db plan = finish db plan VsFailed ''linked alert rule still pending/firing at deadline'' t (Some ?r)"
      using moved_state(1) [OF assms(7) True, of now dbNow] assms(2,3,5,11) row fresh
      by (auto simp: checkWaitingPlan_def Let_def simp del: append.simps)
    then show ?thesis using fin True by fastforce
  next
    case False
    then have "checkWaitingPlan ?rules t db plan = finish db plan VsPassed ''linked alert rule evaluated normal/resolved'' t (Some ?r)"
      using moved_state(2) [OF assms(7) False, of now dbNow] assms(2,3) row fresh
      by (auto simp: checkWaitingPlan_def Let_def simp del: append.simps)
    then show ?thesis using fin False by fastforce
  qed
qed

definition exWaitingRow :: PlanRow where
  "exWaitingRow = \<lparr>pl_id = ''p'', pl_orgId = ''org'', pl_investigationId = ''i'', pl_rescueForPlanId = None, pl_summary = ''s'',
     pl_status = PlApplied, pl_linkedAlertRuleId = Some ''r'', pl_targetObject = None, pl_validationMethod = None,
     pl_verificationStatus = VsWaiting, pl_verificationStartedAt = Some 500, pl_verificationDeadlineAt = Some 60500,
     pl_verificationEvidenceJson = None, pl_continuationInvestigationId = None, pl_autoEdit = True,
     pl_approvalRequestId = None, pl_createdBy = ''agent'', pl_createdAt = 0, pl_expiresAt = 0,
     pl_resolvedAt = None, pl_resolvedBy = Some ''u''\<rparr>"

definition exWaitingDb :: plan_db where
  "exWaitingDb = \<lparr>pd_plans = [exWaitingRow], pd_steps = []\<rparr>"

theorem verdict_follows_sample_witness:
  "\<exists>plan'. findByIdInOrg (snd (checkWaitingPlan (ev_rules (tickCommit ''r'' (Some 3) 1000 1000 ''h'' (tickBegin ''r'' exWithRule)))
        60500 exWaitingDb (rowToPlan exWaitingRow []))) ''org'' ''p'' = Some plan' \<and> pl_verificationStatus plan' = VsPassed"
proof -
  let ?plan = "rowToPlan exWaitingRow []" and ?r = "newRuleRow ''r'' 0 exNewRule"
  have ids: "pl_orgId ?plan = ''org''" "pl_id ?plan = ''p''" by (simp_all add: exWaitingRow_def)
  have plan: "findByIdInOrg exWaitingDb (pl_orgId ?plan) (pl_id ?plan) = Some ?plan"
    by (simp add: findByIdInOrg_def planFromRows_def exWaitingDb_def stepsOf_def)
  have f: "pl_linkedAlertRuleId ?plan = Some ''r''" "pl_verificationStartedAt ?plan = Some 500" "pl_verificationDeadlineAt ?plan = Some 60500"
    by (simp_all add: exWaitingRow_def)
  have r: "alertFindById (ev_rules exWithRule) ''r'' = Some ?r" "map_of (ev_inFlight exWithRule) ''r'' = None"
    by (simp_all add: exWithRule_def exEvaluator_def alertFindById_def)
  have c: "al_state ?r \<noteq> ArDisabled" by (simp add: newRuleRow_def)
  have h: "\<not> holdsFor ?r 3" by (simp add: holdsFor_def newRuleRow_def exNewRule_def exCondition_def evaluatePredicate_def)
  show ?thesis
    using verdict_follows_sample [OF plan f(1) _ f(2,3) r(1) c r(2), of 1000 1000 60500 3 "''h''"] h ids by simp
qed

section \<open>Sweeps\<close>

text \<open>A plan row that still waits although its deadline has come (or was never set).\<close>

definition overdue :: "int \<Rightarrow> PlanRow \<Rightarrow> bool" where
  "overdue now r \<longleftrightarrow> pl_verificationStatus r = VsWaiting \<and> (case pl_verificationDeadlineAt r of None \<Rightarrow> True | Some d \<Rightarrow> d \<le> now)"

definition sameRow :: "RemediationPlan \<Rightarrow> PlanRow \<Rightarrow> bool" where
  "sameRow plan r \<longleftrightarrow> pl_id plan = pl_id r \<and> pl_orgId plan = pl_orgId r \<and> pl_verificationDeadlineAt plan = pl_verificationDeadlineAt r"

lemma patched_rows:
  assumes "r \<in> set (pd_plans (snd (updatePlan db og p patch)))" "pp_verificationStatus patch = Some x" "x \<noteq> VsWaiting"
    and "pl_verificationStatus r = VsWaiting"
  shows "r \<in> set (pd_plans db) \<and> \<not> (pl_orgId r = og \<and> pl_id r = p)"
proof -
  obtain r0 where r0: "r0 \<in> set (pd_plans db)" "r = (if pl_orgId r0 = og \<and> pl_id r0 = p then planPatched patch r0 else r0)"
    using assms(1) unfolding updatePlan_db by fastforce
  moreover have "\<not> (pl_orgId r0 = og \<and> pl_id r0 = p)" using r0(2) assms(2,3,4) by auto
  ultimately show ?thesis by auto
qed

lemma finish_rows:
  assumes "r \<in> set (pd_plans (snd (finish db plan x reason t rule)))" "x \<noteq> VsWaiting" "overdue now r"
  shows "r \<in> set (pd_plans db) \<and> \<not> sameRow plan r"
  using patched_rows [OF assms(1) [unfolded finish_def] _ assms(2)] assms(3) by (auto simp: overdue_def sameRow_def)

lemma check_rows:
  assumes "r \<in> set (pd_plans (snd (checkWaitingPlan rules now db plan)))" "overdue now r"
  shows "r \<in> set (pd_plans db) \<and> \<not> sameRow plan r"
proof (cases "truthy (pl_linkedAlertRuleId plan)")
  case False
  then show ?thesis using assms patched_rows [of r db "pl_orgId plan" "pl_id plan"]
    by (fastforce simp: checkWaitingPlan_def overdue_def sameRow_def)
next
  case link: True
  show ?thesis
  proof (cases "snd (checkWaitingPlan rules now db plan) = db")
    case True
    moreover have "\<not> sameRow plan r" if "r \<in> set (pd_plans db)"
      using assms finish_rows [of r db plan] link that
      by (fastforce simp: checkWaitingPlan_def Let_def overdue_def sameRow_def split: option.splits if_splits)
    ultimately show ?thesis using assms(1) by simp
  next
    case False
    then show ?thesis using assms finish_rows [of r db plan] link
      by (fastforce simp: checkWaitingPlan_def Let_def split: option.splits if_splits)
  qed
qed

lemma sweepLoop_rows:
  assumes "r \<in> set (pd_plans (snd (sweepLoop rules now plans db n)))" "overdue now r"
  shows "r \<in> set (pd_plans db) \<and> (\<forall>plan\<in>set plans. \<not> sameRow plan r)"
  using assms(1)
proof (induction plans arbitrary: db n)
  case (Cons plan plans)
  obtain after db' where c: "checkWaitingPlan rules now db plan = (after, db')" by fastforce
  have "r \<in> set (pd_plans db') \<and> (\<forall>plan\<in>set plans. \<not> sameRow plan r)"
    using Cons.IH Cons.prems unfolding sweepLoop.simps c prod.case by blast
  then show ?case using check_rows [of r rules now db plan, OF _ assms(2)] c by simp
qed simp

text \<open>C32: no plan is left waiting. A sweep whose batch is large enough for the waiting plans leaves a
  plan waiting only if its deadline is still to come.\<close>

theorem sweep_settles_overdue:
  assumes "length (filter (\<lambda>r. pl_verificationStatus r = VsWaiting) (pd_plans db)) \<le> limit"
    and "r \<in> set (pd_plans (snd (sweep rules now db limit)))" "pl_verificationStatus r = VsWaiting"
  shows "\<exists>d. pl_verificationDeadlineAt r = Some d \<and> now < d"
proof (rule ccontr)
  assume "\<not> ?thesis"
  then have over: "overdue now r" using assms(3) by (auto simp: overdue_def not_less split: option.splits)
  note rows = sweepLoop_rows [OF assms(2) [unfolded sweep_def] over]
  have "rowToPlan r (stepsOf db (pl_id r)) \<in> set (listWaitingVerification db limit)"
    using rows assms(1,3) by (simp add: listWaitingVerification_def)
  moreover have "sameRow (rowToPlan r (stepsOf db (pl_id r))) r" by (simp add: sameRow_def)
  ultimately show False using rows by blast
qed

theorem sweep_settles_overdue_witness:
  "\<exists>r. pd_plans (snd (sweep [] 60500 exWaitingDb 100)) = [r] \<and> pl_verificationStatus r = VsInconclusive
     \<and> pl_verificationStatus exWaitingRow = VsWaiting \<and> (\<exists>d. pl_verificationDeadlineAt exWaitingRow = Some d \<and> 500 < d)"
proof -
  have "map pl_verificationStatus (pd_plans (snd (sweep [] 60500 exWaitingDb 100))) = [VsInconclusive]" by code_simp
  from map_single [OF this] obtain r where r: "pd_plans (snd (sweep [] 60500 exWaitingDb 100)) = [r]" "pl_verificationStatus r = VsInconclusive"
    by blast
  let ?rules = "[(''r'', newRuleRow ''r'' 0 exNewRule)]"
  have "map (\<lambda>r. (pl_verificationStatus r, pl_verificationDeadlineAt r)) (pd_plans (snd (sweep ?rules 500 exWaitingDb 100)))
      = [(VsWaiting, Some 60500)]" by code_simp
  from map_single [OF this] obtain w where w: "pd_plans (snd (sweep ?rules 500 exWaitingDb 100)) = [w]"
      "pl_verificationStatus w = VsWaiting" "pl_verificationDeadlineAt w = Some 60500" by auto
  have len: "length (filter (\<lambda>r. pl_verificationStatus r = VsWaiting) (pd_plans exWaitingDb)) \<le> 100"
    by (simp add: exWaitingDb_def)
  have "w \<in> set (pd_plans (snd (sweep ?rules 500 exWaitingDb 100)))" using w(1) by simp
  from sweep_settles_overdue [OF len this w(2)] w(3) r show ?thesis by (auto simp: exWaitingRow_def)
qed

end
