(* ===== verification/Rate_Limiter.thy ===== *)
theory Rate_Limiter
  imports Prelude "HOL-Library.AList"
begin

text \<open>
  The sliding-window rate limiter in front of the API
  (\<open>api-gateway/src/middleware/rate-limiter.ts\<close>).

  The limiter's \<open>Map\<close> is an association list from keys to window entries; times are
  integers (milliseconds). A limiter is driven by two kinds of events, a request and the
  periodic janitor; a run keeps beside the store the log of the requests it let through.

  Results: a request passes exactly when fewer than \<open>max\<close> requests of its key passed within the
  last window, whatever the janitor removed, so that no window of that length ever holds more
  than \<open>max\<close> of them; waiting for the announced time is enough.
\<close>

section \<open>Definitions\<close>

record Request =
  rq_forwarded :: "string option"
  rq_remoteAddress :: "string option"
  rq_userId :: "string option"

record WindowEntry =
  we_timestamps :: "int list"
  we_lastSeen :: int

record RateLimiterOptions =
  rl_windowMs :: int
  rl_max :: nat
  rl_keyFn :: "(Request \<Rightarrow> string option) option"

type_synonym limiter_store = "(string \<times> WindowEntry) list"

text \<open>The answer to a request: passed on unlimited, passed on with the two headers, or
  refused with status 429 and the \<open>Retry-After\<close> header; the wrapper adds 401.\<close>

datatype RateResponse =
    Skipped
  | Accepted nat int
  | RateLimited int nat
  | Unauthenticated

definition janitor :: "RateLimiterOptions \<Rightarrow> int \<Rightarrow> limiter_store \<Rightarrow> limiter_store" where
  "janitor opts now st = filter (\<lambda>(k, v). \<not> we_lastSeen v < now - rl_windowMs opts * 2) st"

definition getKey :: "RateLimiterOptions \<Rightarrow> Request \<Rightarrow> string option" where
  "getKey opts req =
     (case rl_keyFn opts of
        Some f \<Rightarrow> f req
      | None \<Rightarrow>
          (case rq_forwarded req of
             Some forwarded \<Rightarrow> Some (or_default (map_option js_trim (js_at (split_on (CHR '','') forwarded) 0)) ''unknown'')
           | None \<Rightarrow> Some (or_default (rq_remoteAddress req) ''unknown'')))"

text \<open>\<open>Math.ceil(ms / 1000)\<close>.\<close>

definition ceilSeconds :: "int \<Rightarrow> int" where
  "ceilSeconds ms = - ((- ms) div 1000)"

definition limitKey :: "RateLimiterOptions \<Rightarrow> int \<Rightarrow> string \<Rightarrow> limiter_store \<Rightarrow> RateResponse \<times> limiter_store" where
  "limitKey opts now key st =
     (let entry = or_default (map_of st key) \<lparr>we_timestamps = [], we_lastSeen = now\<rparr>;
          ts = filter (\<lambda>t. t > now - rl_windowMs opts) (we_timestamps entry)
      in if length ts \<ge> rl_max opts
         then (RateLimited (ceilSeconds (case js_at ts 0 of Some oldest \<Rightarrow> oldest + rl_windowMs opts - now | None \<Rightarrow> rl_windowMs opts))
                 (rl_max opts),
               AList.update key \<lparr>we_timestamps = ts, we_lastSeen = now\<rparr> st)
         else (Accepted (rl_max opts) (int (rl_max opts) - int (length (ts @ [now]))),
               AList.update key \<lparr>we_timestamps = ts @ [now], we_lastSeen = now\<rparr> st))"

definition rateLimiter :: "RateLimiterOptions \<Rightarrow> int \<Rightarrow> Request \<Rightarrow> limiter_store \<Rightarrow> RateResponse \<times> limiter_store" where
  "rateLimiter opts now req st =
     (case getKey opts req of
        None \<Rightarrow> (Skipped, st)
      | Some key \<Rightarrow> limitKey opts now key st)"

text \<open>\<open>Number.parseInt\<close> of the environment variable, \<open>None\<close> for \<open>NaN\<close>.\<close>

definition configuredMax :: "int option \<Rightarrow> nat" where
  "configuredMax parsed = (case parsed of Some n \<Rightarrow> if n > 0 then nat n else 600 | None \<Rightarrow> 600)"

definition defaultRateLimiter :: "int option \<Rightarrow> RateLimiterOptions" where
  "defaultRateLimiter parsed = \<lparr>rl_windowMs = 60000, rl_max = configuredMax parsed, rl_keyFn = None\<rparr>"

definition loginRateLimiter :: RateLimiterOptions where
  "loginRateLimiter = \<lparr>rl_windowMs = 60000, rl_max = 10, rl_keyFn = None\<rparr>"

definition createUserRateLimiter :: "int option \<Rightarrow> RateLimiterOptions" where
  "createUserRateLimiter parsed = \<lparr>rl_windowMs = 60000, rl_max = configuredMax parsed, rl_keyFn = Some rq_userId\<rparr>"

definition TOKEN_ISSUE_RATE_LIMIT_MAX :: nat where
  "TOKEN_ISSUE_RATE_LIMIT_MAX = 5"

definition createTokenIssueRateLimiter :: RateLimiterOptions where
  "createTokenIssueRateLimiter = \<lparr>rl_windowMs = 60000, rl_max = TOKEN_ISSUE_RATE_LIMIT_MAX,
     rl_keyFn = Some (\<lambda>req. Some (or_default (rq_userId req) ''__unauth__''))\<rparr>"

definition tokenIssueRateLimiter :: "int \<Rightarrow> Request \<Rightarrow> limiter_store \<Rightarrow> RateResponse \<times> limiter_store" where
  "tokenIssueRateLimiter now req st =
     (if \<not> truthy (rq_userId req) then (Unauthenticated, st)
      else rateLimiter createTokenIssueRateLimiter now req st)"

subsection \<open>Runs\<close>

datatype limiter_event = Hit int Request | Janitor int

fun eventTime :: "limiter_event \<Rightarrow> int" where
  "eventTime (Hit now req) = now"
| "eventTime (Janitor now) = now"

text \<open>A step handles one event; the log gains the key and the time of a request that passed.\<close>

fun limiterStep :: "RateLimiterOptions \<Rightarrow> limiter_store \<times> (string \<times> int) list \<Rightarrow> limiter_event
    \<Rightarrow> limiter_store \<times> (string \<times> int) list" where
  "limiterStep opts (st, passed) (Janitor now) = (janitor opts now st, passed)"
| "limiterStep opts (st, passed) (Hit now req) =
     (case rateLimiter opts now req st of
        (resp, st') \<Rightarrow>
          (st', passed @ (case (resp, getKey opts req) of
                            (Accepted _ _, Some key) \<Rightarrow> [(key, now)]
                          | _ \<Rightarrow> [])))"

definition limiterRun :: "RateLimiterOptions \<Rightarrow> limiter_event list \<Rightarrow> limiter_store \<times> (string \<times> int) list" where
  "limiterRun opts events = foldl (limiterStep opts) ([], []) events"

text \<open>The requests of a key that passed after \<open>a\<close>, and up to \<open>b\<close>.\<close>

definition passedIn :: "string \<Rightarrow> int \<Rightarrow> int \<Rightarrow> (string \<times> int) list \<Rightarrow> nat" where
  "passedIn key a b passed = length (filter (\<lambda>(k, t). k = key \<and> a < t \<and> t \<le> b) passed)"

subsection \<open>Specification vocabulary\<close>

text \<open>The timestamps the store holds for a key, and those of the log within the last window.\<close>

definition stampsOf :: "limiter_store \<Rightarrow> string \<Rightarrow> int list" where
  "stampsOf st key = (case map_of st key of None \<Rightarrow> [] | Some e \<Rightarrow> we_timestamps e)"

definition recentOf :: "int \<Rightarrow> string \<Rightarrow> (string \<times> int) list \<Rightarrow> int list" where
  "recentOf since key passed = map snd (filter (\<lambda>(k, t). k = key \<and> since < t) passed)"

definition entryOk :: "RateLimiterOptions \<Rightarrow> WindowEntry \<Rightarrow> bool" where
  "entryOk opts e \<longleftrightarrow> length (we_timestamps e) \<le> rl_max opts \<and> (\<forall>t\<in>set (we_timestamps e). t \<le> we_lastSeen e)"

definition limiterInv :: "RateLimiterOptions \<Rightarrow> int \<Rightarrow> limiter_store \<times> (string \<times> int) list \<Rightarrow> bool" where
  "limiterInv opts now s \<longleftrightarrow>
     (case s of (st, passed) \<Rightarrow>
        distinct (map fst st) \<and> (\<forall>(k, e)\<in>set st. entryOk opts e) \<and> (\<forall>(k, t)\<in>set passed. t \<le> now)
        \<and> (\<forall>key. filter (\<lambda>t. now - rl_windowMs opts < t) (stampsOf st key) = recentOf (now - rl_windowMs opts) key passed)
        \<and> (\<forall>key t. passedIn key (t - rl_windowMs opts) t passed \<le> rl_max opts))"

section \<open>Lemmas\<close>

lemma filter_since:
  assumes "(a::int) \<le> b"
  shows "filter (\<lambda>t. b < t) (filter (\<lambda>t. a < t) xs) = filter (\<lambda>t. b < t) xs"
  using assms by (induction xs) auto

lemma recentOf_since:
  assumes "a \<le> b"
  shows "filter (\<lambda>t. b < t) (recentOf a key passed) = recentOf b key passed"
  using assms by (induction passed) (auto simp: recentOf_def)

lemma passedIn_recent:
  assumes "\<forall>(k, t)\<in>set passed. t \<le> now" "now \<le> b"
  shows "passedIn key a b passed = length (recentOf a key passed)"
  using assms by (induction passed) (auto simp: recentOf_def passedIn_def)

lemma passedIn_mono:
  assumes "a \<le> a'" "b' \<le> b"
  shows "passedIn key a' b' passed \<le> passedIn key a b passed"
  using assms by (induction passed) (auto simp: passedIn_def)

lemma passedIn_snoc:
  "passedIn key a b (passed @ [(k, t)]) = passedIn key a b passed + (if k = key \<and> a < t \<and> t \<le> b then 1 else 0)"
  by (simp add: passedIn_def)

lemma stampsOf_update: "stampsOf (AList.update k e st) key = (if key = k then we_timestamps e else stampsOf st key)"
  by (simp add: stampsOf_def update_conv)

lemma entry_update:
  assumes "\<forall>(k, e)\<in>set st. entryOk opts e" "distinct (map fst st)" "entryOk opts e"
  shows "\<forall>(k, e)\<in>set (AList.update key e st). entryOk opts e"
proof -
  have "entryOk opts e'" if "(k, e') \<in> set (AList.update key e st)" for k e'
  proof -
    have "map_of (AList.update key e st) k = Some e'"
      using that distinct_update [OF assms(2)] by simp
    then show ?thesis using assms by (auto simp: update_conv dest!: map_of_SomeD split: if_splits)
  qed
  then show ?thesis by blast
qed

lemma janitor_stamps:
  assumes "distinct (map fst st)" "\<forall>(k, e)\<in>set st. entryOk opts e" "0 \<le> rl_windowMs opts"
  shows "filter (\<lambda>t. now - rl_windowMs opts < t) (stampsOf (janitor opts now st) key)
    = filter (\<lambda>t. now - rl_windowMs opts < t) (stampsOf st key)"
proof (cases "map_of st key")
  case None
  then have "map_of (janitor opts now st) key = None" by (auto simp: janitor_def map_of_eq_None_iff)
  with None show ?thesis by (simp add: stampsOf_def)
next
  case (Some e)
  then have e: "(key, e) \<in> set st" by (rule map_of_SomeD)
  show ?thesis
  proof (cases "we_lastSeen e < now - rl_windowMs opts * 2")
    case True
    have "map_of (janitor opts now st) key = None"
      using True e assms(1) by (auto simp: janitor_def map_of_eq_None_iff dest: map_of_is_SomeI [OF assms(1)] eq_key_imp_eq_value)
    moreover have "filter (\<lambda>t. now - rl_windowMs opts < t) (we_timestamps e) = []"
      using True assms(2,3) e by (fastforce simp: entryOk_def filter_empty_conv)
    ultimately show ?thesis using Some by (simp add: stampsOf_def)
  next
    case False
    then have "(key, e) \<in> set (janitor opts now st)" using e by (simp add: janitor_def)
    moreover have "distinct (map fst (janitor opts now st))"
      using assms(1) by (simp add: janitor_def distinct_map_filter)
    ultimately show ?thesis using Some by (simp add: stampsOf_def map_of_is_SomeI)
  qed
qed

text \<open>Time passes: the invariant is about the present window.\<close>

lemma inv_later:
  assumes "limiterInv opts a (st, passed)" "a \<le> b"
  shows "limiterInv opts b (st, passed)"
proof -
  have "filter (\<lambda>t. b - rl_windowMs opts < t) (stampsOf st key) = recentOf (b - rl_windowMs opts) key passed" for key
    using assms filter_since [of "a - rl_windowMs opts" "b - rl_windowMs opts" "stampsOf st key"]
      recentOf_since [of "a - rl_windowMs opts" "b - rl_windowMs opts" key passed]
    by (simp add: limiterInv_def)
  then show ?thesis using assms by (auto simp: limiterInv_def)
qed

lemma inv_janitor:
  assumes "limiterInv opts now (st, passed)" "0 \<le> rl_windowMs opts"
  shows "limiterInv opts now (janitor opts now st, passed)"
  using assms janitor_stamps [of st opts now]
  by (auto simp: limiterInv_def distinct_map_filter) (auto simp: janitor_def distinct_map_filter)

text \<open>What a limited request does to the store, and when it passes.\<close>

lemma limitKey_pair:
  assumes "ts = filter (\<lambda>t. now - rl_windowMs opts < t) (stampsOf st key)"
  shows "length ts < rl_max opts \<Longrightarrow> limitKey opts now key st
      = (Accepted (rl_max opts) (int (rl_max opts) - int (length (ts @ [now]))), AList.update key \<lparr>we_timestamps = ts @ [now], we_lastSeen = now\<rparr> st)"
    "\<not> length ts < rl_max opts \<Longrightarrow> \<exists>s. limitKey opts now key st
      = (RateLimited s (rl_max opts), AList.update key \<lparr>we_timestamps = ts, we_lastSeen = now\<rparr> st)"
  unfolding assms by (auto simp: limitKey_def stampsOf_def Let_def not_less split: option.splits)

lemma inv_entry:
  assumes "limiterInv opts now (st, passed)"
  shows "length (stampsOf st key) \<le> rl_max opts" "t \<in> set (recentOf since key passed) \<Longrightarrow> t \<le> now"
  using assms by (auto simp: limiterInv_def entryOk_def stampsOf_def recentOf_def split: option.splits dest!: map_of_SomeD)

lemma inv_refused:
  assumes "limiterInv opts now (st, passed)" "ts = filter (\<lambda>t. now - rl_windowMs opts < t) (stampsOf st key)"
  shows "limiterInv opts now (AList.update key \<lparr>we_timestamps = ts, we_lastSeen = now\<rparr> st, passed)"
proof -
  have ts: "ts = recentOf (now - rl_windowMs opts) key passed" using assms by (simp add: limiterInv_def)
  have "length ts \<le> rl_max opts" unfolding assms(2) by (meson assms(1) inv_entry(1) length_filter_le order_trans)
  then have "entryOk opts \<lparr>we_timestamps = ts, we_lastSeen = now\<rparr>"
    using inv_entry(2) [OF assms(1)] unfolding ts by (simp add: entryOk_def)
  moreover have "filter (\<lambda>t. now - rl_windowMs opts < t) ts = recentOf (now - rl_windowMs opts) key passed"
    using assms(2) ts by (simp add: recentOf_since)
  ultimately show ?thesis using assms(1) entry_update distinct_update
    by (fastforce simp: limiterInv_def stampsOf_update)
qed

lemma inv_accepted:
  assumes "limiterInv opts now (st, passed)" "ts = filter (\<lambda>t. now - rl_windowMs opts < t) (stampsOf st key)"
    and "length ts < rl_max opts"
  shows "limiterInv opts now (AList.update key \<lparr>we_timestamps = ts @ [now], we_lastSeen = now\<rparr> st, passed @ [(key, now)])"
proof -
  have ts: "ts = recentOf (now - rl_windowMs opts) key passed" using assms(1,2) by (simp add: limiterInv_def)
  have ok: "entryOk opts \<lparr>we_timestamps = ts @ [now], we_lastSeen = now\<rparr>"
    using inv_entry(2) [OF assms(1)] assms(3) unfolding ts by (auto simp: entryOk_def)
  have before: "\<forall>(k, t)\<in>set passed. t \<le> now" using assms(1) by (simp add: limiterInv_def)
  have "passedIn k (t - rl_windowMs opts) t (passed @ [(key, now)]) \<le> rl_max opts" for k t
  proof (cases "k = key \<and> t - rl_windowMs opts < now \<and> now \<le> t")
    case True
    then have "passedIn k (t - rl_windowMs opts) t passed \<le> passedIn key (now - rl_windowMs opts) t passed"
      by (simp add: passedIn_mono)
    also have "\<dots> = length ts" using passedIn_recent [OF before] True ts by simp
    finally show ?thesis using assms(3) by (simp add: passedIn_snoc)
  next
    case False
    then show ?thesis using assms(1) by (auto simp: passedIn_snoc limiterInv_def)
  qed
  moreover have "filter (\<lambda>t. now - rl_windowMs opts < t) (ts @ [now]) = recentOf (now - rl_windowMs opts) key (passed @ [(key, now)])"
    using ts by (simp add: recentOf_since) (simp add: recentOf_def)
  moreover have "recentOf since k (passed @ [(key, now)]) = recentOf since k passed" if "k \<noteq> key" for k since
    using that by (simp add: recentOf_def)
  ultimately show ?thesis
    using assms(1) entry_update [OF _ _ ok, of st key] distinct_update [of st key]
    by (auto simp: limiterInv_def stampsOf_update)
qed

lemma inv_step:
  assumes "limiterInv opts (eventTime e) (st, passed)" "0 \<le> rl_windowMs opts"
  shows "limiterInv opts (eventTime e) (limiterStep opts (st, passed) e)"
proof (cases e)
  case (Janitor now)
  then show ?thesis using inv_janitor assms by simp
next
  case (Hit now req)
  then have inv: "limiterInv opts now (st, passed)" using assms(1) by simp
  show ?thesis
  proof (cases "getKey opts req")
    case None
    then show ?thesis using Hit inv by (simp add: rateLimiter_def)
  next
    case (Some key)
    define ts where "ts = filter (\<lambda>t. now - rl_windowMs opts < t) (stampsOf st key)"
    show ?thesis
    proof (cases "length ts < rl_max opts")
      case True
      then show ?thesis using limitKey_pair(1) [OF ts_def] inv_accepted [OF inv ts_def] Hit Some
        by (simp add: rateLimiter_def)
    next
      case False
      then show ?thesis using limitKey_pair(2) [OF ts_def] inv_refused [OF inv ts_def] Hit Some
        by (auto simp: rateLimiter_def)
    qed
  qed
qed

lemma inv_run:
  assumes "0 \<le> rl_windowMs opts" "sorted (map eventTime events)" "\<forall>e\<in>set events. eventTime e \<le> now"
  shows "limiterInv opts now (limiterRun opts events)"
  using assms(2,3)
proof (induction events arbitrary: now rule: rev_induct)
  case Nil
  then show ?case by (simp add: limiterRun_def limiterInv_def stampsOf_def recentOf_def passedIn_def)
next
  case (snoc e events)
  obtain st passed where run: "limiterRun opts events = (st, passed)" by fastforce
  have "limiterInv opts (eventTime e) (st, passed)"
    using snoc.IH [of "eventTime e"] snoc.prems(1) run by (simp add: sorted_append)
  from inv_step [OF this assms(1)] have "limiterInv opts (eventTime e) (limiterRun opts (events @ [e]))"
    using run by (simp add: limiterRun_def)
  then show ?case using inv_later snoc.prems(2) by (cases "limiterRun opts (events @ [e])") auto
qed

section \<open>Properties\<close>

text \<open>C23: the limit is exact. After any run of requests and janitor passes in time order, a request
  passes if and only if fewer than \<open>max\<close> requests of its key passed within the last window, so that no
  window of that length holds more than \<open>max\<close> of them; what the janitor removed is never missed.\<close>

theorem rate_limit_exact:
  assumes "0 \<le> rl_windowMs opts" "sorted (map eventTime events)" "\<forall>e\<in>set events. eventTime e \<le> now"
    and "getKey opts req = Some key"
  shows "((\<exists>m r. fst (rateLimiter opts now req (fst (limiterRun opts events))) = Accepted m r)
      \<longleftrightarrow> passedIn key (now - rl_windowMs opts) now (snd (limiterRun opts events)) < rl_max opts)
    \<and> (\<forall>t. passedIn key (t - rl_windowMs opts) t (snd (limiterRun opts events)) \<le> rl_max opts)"
proof -
  obtain st passed where run: "limiterRun opts events = (st, passed)" by fastforce
  have inv: "limiterInv opts now (st, passed)" using inv_run [OF assms(1-3)] run by simp
  define ts where "ts = filter (\<lambda>t. now - rl_windowMs opts < t) (stampsOf st key)"
  have "length ts = passedIn key (now - rl_windowMs opts) now passed"
    using inv passedIn_recent [of passed now now] unfolding ts_def by (simp add: limiterInv_def)
  then have "(\<exists>m r. fst (rateLimiter opts now req st) = Accepted m r)
      \<longleftrightarrow> passedIn key (now - rl_windowMs opts) now passed < rl_max opts"
    using limitKey_pair [OF ts_def] assms(4) by (cases "length ts < rl_max opts") (auto simp: rateLimiter_def)
  then show ?thesis using inv run by (simp add: limiterInv_def)
qed

definition exCaller :: Request where
  "exCaller = \<lparr>rq_forwarded = None, rq_remoteAddress = None, rq_userId = Some ''u''\<rparr>"

definition exHits :: "limiter_event list" where
  "exHits = [Hit 0 exCaller, Hit 1 exCaller, Hit 2 exCaller, Hit 3 exCaller, Hit 4 exCaller, Hit 5 exCaller, Janitor 60000]"

theorem rate_limit_exact_witness:
  "passedIn ''u'' 0 60000 (snd (limiterRun createTokenIssueRateLimiter exHits)) = 4
   \<and> (\<exists>m r. fst (rateLimiter createTokenIssueRateLimiter 60000 exCaller (fst (limiterRun createTokenIssueRateLimiter exHits))) = Accepted m r)
   \<and> passedIn ''u'' (- 100) 59900 (snd (limiterRun createTokenIssueRateLimiter exHits)) \<le> 5"
proof -
  have h: "0 \<le> rl_windowMs createTokenIssueRateLimiter" "sorted (map eventTime exHits)" "\<forall>e\<in>set exHits. eventTime e \<le> 60000"
    "getKey createTokenIssueRateLimiter exCaller = Some ''u''" by code_simp+
  have c: "passedIn ''u'' (60000 - rl_windowMs createTokenIssueRateLimiter) 60000 (snd (limiterRun createTokenIssueRateLimiter exHits)) = 4"
    by code_simp
  have w: "rl_windowMs createTokenIssueRateLimiter = 60000" "rl_max createTokenIssueRateLimiter = 5"
    by (simp_all add: createTokenIssueRateLimiter_def TOKEN_ISSUE_RATE_LIMIT_MAX_def)
  note exact = rate_limit_exact [OF h, unfolded w]
  have "passedIn ''u'' (59900 - 60000) 59900 (snd (limiterRun createTokenIssueRateLimiter exHits)) \<le> 5" using exact by blast
  then show ?thesis using exact c unfolding w by simp
qed

lemma ceilSeconds_enough: "ms \<le> ceilSeconds ms * 1000"
  using div_mult_mod_eq [of "- ms" 1000] pos_mod_sign [of 1000 "- ms"] unfolding ceilSeconds_def by simp

text \<open>The announced time is enough. A client that was refused and sends nothing more under its key
  until \<open>Retry-After\<close> seconds are over passes with its next request.\<close>

theorem retry_after_enough:
  assumes "0 \<le> rl_windowMs opts" "sorted (map eventTime events)" "\<forall>e\<in>set events. eventTime e \<le> now"
    and "fst (rateLimiter opts now req (fst (limiterRun opts events))) = RateLimited secs m" "0 < rl_max opts"
    and "now + secs * 1000 \<le> later"
  shows "\<exists>m r. fst (rateLimiter opts later req (snd (rateLimiter opts now req (fst (limiterRun opts events))))) = Accepted m r"
proof -
  obtain st passed where run: "limiterRun opts events = (st, passed)" by fastforce
  have inv: "limiterInv opts now (st, passed)" using inv_run [OF assms(1-3)] run by simp
  obtain key where key: "getKey opts req = Some key"
    using assms(4) by (auto simp: rateLimiter_def split: option.splits)
  define ts where "ts = filter (\<lambda>t. now - rl_windowMs opts < t) (stampsOf st key)"
  have refused: "\<not> length ts < rl_max opts"
    using assms(4) limitKey_pair(1) [OF ts_def] by (auto simp: run key rateLimiter_def)
  then obtain s where s: "limitKey opts now key st = (RateLimited s (rl_max opts), AList.update key \<lparr>we_timestamps = ts, we_lastSeen = now\<rparr> st)"
    using limitKey_pair(2) [OF ts_def] by blast
  obtain oldest rest where ts: "ts = oldest # rest" using refused assms(5) by (cases ts) auto
  have secs: "secs = ceilSeconds (oldest + rl_windowMs opts - now)"
    using assms(4) refused ts unfolding ts_def stampsOf_def
    by (auto simp: run key rateLimiter_def limitKey_def Let_def js_at_def split: option.splits)
  have "oldest \<le> later - rl_windowMs opts"
    using ceilSeconds_enough [of "oldest + rl_windowMs opts - now"] assms(6) secs by linarith
  then have "length (filter (\<lambda>t. later - rl_windowMs opts < t) ts) \<le> length rest" using ts by simp
  moreover have "length ts \<le> rl_max opts"
    unfolding ts_def by (meson inv inv_entry(1) length_filter_le order_trans)
  ultimately have "length (filter (\<lambda>t. later - rl_windowMs opts < t) (stampsOf (AList.update key \<lparr>we_timestamps = ts, we_lastSeen = now\<rparr> st) key)) < rl_max opts"
    using ts by (simp add: stampsOf_update)
  then show ?thesis using limitKey_pair(1) [OF refl] s by (simp add: run key rateLimiter_def)
qed

theorem retry_after_enough_witness:
  "\<exists>m r. fst (rateLimiter loginRateLimiter 70001 exCaller (snd (rateLimiter loginRateLimiter 10001 exCaller
     (fst (limiterRun loginRateLimiter (replicate 10 (Hit 10000 exCaller))))))) = Accepted m r"
proof -
  have h: "0 \<le> rl_windowMs loginRateLimiter" "sorted (map eventTime (replicate 10 (Hit 10000 exCaller)))"
    "\<forall>e\<in>set (replicate 10 (Hit 10000 exCaller)). eventTime e \<le> 10001"
    "fst (rateLimiter loginRateLimiter 10001 exCaller (fst (limiterRun loginRateLimiter (replicate 10 (Hit 10000 exCaller))))) = RateLimited 60 10"
    "0 < rl_max loginRateLimiter" by code_simp+
  show ?thesis by (rule retry_after_enough [OF h]) simp
qed

end
