(* ===== verification/Notification_Policy.thy ===== *)
theory Notification_Policy
  imports Alert_Rules
begin

text \<open>
  Contact points, the notification policy tree and mute timings
  (\<open>data-layer/src/repository/sqlite/notification.ts\<close>), with the routing helpers of
  \<open>data-layer/src/repository/notification-routing.ts\<close>; types from
  \<open>common/src/models/alert.ts\<close>.

  A policy node is a record of its own fields with the list of its children. The regular
  expression test \<open>new RegExp(p).test(v)\<close> is an argument \<open>re\<close>, \<open>None\<close> where the
  constructor throws; the local date and time of a time zone (\<open>Intl.DateTimeFormat\<close>) is an
  argument too, \<open>None\<close> for an unknown zone. What throws gives \<open>None\<close>.
\<close>

section \<open>Definitions\<close>

type_synonym regex = "string \<Rightarrow> string \<Rightarrow> bool option"

datatype ContactPointIntegrationType =
  ItSlack | ItEmail | ItPagerduty | ItWebhook | ItTeams | ItOpsgenie | ItTelegram | ItDiscord

record ContactPointIntegration =
  ci_id :: string
  ci_type :: ContactPointIntegrationType
  ci_name :: string
  ci_settings :: "(string \<times> string) list"
  ci_disableResolveMessage :: "bool option"

record ContactPoint =
  cp_id :: string
  cp_name :: string
  cp_integrations :: "ContactPointIntegration list"
  cp_createdAt :: int
  cp_updatedAt :: int

record PolicyFields =
  nn_id :: string
  nn_matchers :: "Matcher list"
  nn_contactPointId :: string
  nn_groupBy :: "string list option"
  nn_groupWaitSec :: "int option"
  nn_groupIntervalSec :: "int option"
  nn_repeatIntervalSec :: "int option"
  nn_continueMatching :: "bool option"
  nn_muteTimingIds :: "string list option"
  nn_isDefault :: "bool option"
  nn_createdAt :: int
  nn_updatedAt :: int

datatype NotificationPolicyNode = PolicyNode (nn_fields: PolicyFields) (nn_children: "NotificationPolicyNode list")

record MinuteRange =
  mr_startMinute :: int
  mr_endMinute :: int

record TimeInterval =
  ti_timesOfDay :: "MinuteRange list option"
  ti_weekdays :: "int list option"
  ti_daysOfMonth :: "int list option"
  ti_months :: "int list option"
  ti_years :: "int list option"
  ti_location :: "string option"

record MuteTiming =
  mt_id :: string
  mt_name :: string
  mt_timeIntervals :: "TimeInterval list"
  mt_createdAt :: int
  mt_updatedAt :: int

subsection \<open>Label matching and routing\<close>

definition matchesLabel :: "regex \<Rightarrow> string option \<Rightarrow> string \<Rightarrow> string \<Rightarrow> bool option" where
  "matchesLabel re labelValue operator matchValue =
     (let v = or_default labelValue [] in
      if operator = ''='' then Some (v = matchValue)
      else if operator = ''!='' then Some (v \<noteq> matchValue)
      else if operator = ''=~'' then re matchValue v
      else if operator = ''!~'' then map_option Not (re matchValue v)
      else Some False)"

text \<open>\<open>matchers.every(\<dots>)\<close> stops at the first matcher that fails.\<close>

fun everyMatcher :: "regex \<Rightarrow> labels \<Rightarrow> Matcher list \<Rightarrow> bool option" where
  "everyMatcher re ls [] = Some True"
| "everyMatcher re ls (m # ms) =
     (case matchesLabel re (map_of ls (ma_label m)) (ma_operator m) (ma_value m) of
        None \<Rightarrow> None
      | Some False \<Rightarrow> Some False
      | Some True \<Rightarrow> everyMatcher re ls ms)"

definition nodeMatchesLabels :: "regex \<Rightarrow> PolicyFields \<Rightarrow> labels \<Rightarrow> bool option" where
  "nodeMatchesLabels re node ls = everyMatcher re ls (nn_matchers node)"

definition entersNode :: "regex \<Rightarrow> labels \<Rightarrow> PolicyFields \<Rightarrow> bool option" where
  "entersNode re ls f = (if nn_isDefault f = Some True then Some True else nodeMatchesLabels re f ls)"

fun walkTree :: "regex \<Rightarrow> labels \<Rightarrow> NotificationPolicyNode \<Rightarrow> PolicyFields list option"
  and walkTrees :: "regex \<Rightarrow> labels \<Rightarrow> NotificationPolicyNode list \<Rightarrow> PolicyFields list option" where
  "walkTree re ls (PolicyNode f cs) =
     (case entersNode re ls f of
        None \<Rightarrow> None
      | Some False \<Rightarrow> Some []
      | Some True \<Rightarrow> map_option ((#) f) (walkTrees re ls cs))"
| "walkTrees re ls [] = Some []"
| "walkTrees re ls (c # cs) =
     (case walkTree re ls c of
        None \<Rightarrow> None
      | Some xs \<Rightarrow> map_option ((@) xs) (walkTrees re ls cs))"

record CollectedRoute =
  cr_contactPointId :: string
  cr_groupBy :: "string list"
  cr_muteTimingIds :: "string list"

definition collectedRoute :: "PolicyFields \<Rightarrow> CollectedRoute" where
  "collectedRoute f = \<lparr>cr_contactPointId = nn_contactPointId f, cr_groupBy = or_default (nn_groupBy f) [],
     cr_muteTimingIds = or_default (nn_muteTimingIds f) []\<rparr>"

text \<open>The result of the recursive router is the hit flag and the routes it pushes, in order.\<close>

fun routeIntoTree :: "regex \<Rightarrow> labels \<Rightarrow> NotificationPolicyNode \<Rightarrow> (bool \<times> CollectedRoute list) option"
  and routeChildren :: "regex \<Rightarrow> labels \<Rightarrow> NotificationPolicyNode list \<Rightarrow> (bool \<times> CollectedRoute list) option" where
  "routeIntoTree re ls (PolicyNode f cs) =
     (case entersNode re ls f of
        None \<Rightarrow> None
      | Some False \<Rightarrow> Some (False, [])
      | Some True \<Rightarrow>
          (case routeChildren re ls cs of
             None \<Rightarrow> None
           | Some (childMatched, collected) \<Rightarrow>
               Some (True, collected @
                 (if (\<not> childMatched \<or> nn_isDefault f = Some True) \<and> nn_contactPointId f \<noteq> [] then [collectedRoute f] else []))))"
| "routeChildren re ls [] = Some (False, [])"
| "routeChildren re ls (c # cs) =
     (case routeIntoTree re ls c of
        None \<Rightarrow> None
      | Some (hit, collected) \<Rightarrow>
          if hit \<and> nn_continueMatching (nn_fields c) \<noteq> Some True then Some (True, collected)
          else (case routeChildren re ls cs of
                  None \<Rightarrow> None
                | Some (rest, others) \<Rightarrow> Some (hit \<or> rest, collected @ others)))"

subsection \<open>Mute timings\<close>

record LocalTime =
  lt_weekday :: int
  lt_day :: int
  lt_month :: int
  lt_year :: int
  lt_minuteOfDay :: int

type_synonym local_clock = "string \<Rightarrow> int \<Rightarrow> LocalTime option"

definition leapYear :: "int \<Rightarrow> bool" where
  "leapYear y \<longleftrightarrow> y mod 4 = 0 \<and> (y mod 100 \<noteq> 0 \<or> y mod 400 = 0)"

text \<open>\<open>new Date(Date.UTC(year, month, 0)).getUTCDate()\<close>: day 0 of the next month.\<close>

definition daysInMonth :: "int \<Rightarrow> int \<Rightarrow> int" where
  "daysInMonth year month =
     (if month = 2 then (if leapYear year then 29 else 28)
      else if month \<in> {4, 6, 9, 11} then 30 else 31)"

definition listedIn :: "int list option \<Rightarrow> int \<Rightarrow> bool" where
  "listedIn xs x \<longleftrightarrow> (case xs of None \<Rightarrow> True | Some l \<Rightarrow> length l > 0 \<longrightarrow> x \<in> set l)"

definition intervalActive :: "local_clock \<Rightarrow> TimeInterval \<Rightarrow> int \<Rightarrow> bool option" where
  "intervalActive clock interval now =
     (case clock (or_default (ti_location interval) ''UTC'') now of
        None \<Rightarrow> None
      | Some t \<Rightarrow>
          Some (listedIn (ti_years interval) (lt_year t)
            \<and> listedIn (ti_months interval) (lt_month t)
            \<and> listedIn (ti_weekdays interval) (lt_weekday t)
            \<and> listedIn (map_option (map (\<lambda>d. if d < 0 then daysInMonth (lt_year t) (lt_month t) + d + 1 else d))
                (ti_daysOfMonth interval)) (lt_day t)
            \<and> (case ti_timesOfDay interval of
                 None \<Rightarrow> True
               | Some rs \<Rightarrow> length rs > 0 \<longrightarrow>
                   list_ex (\<lambda>r. mr_startMinute r \<le> lt_minuteOfDay t \<and> lt_minuteOfDay t \<le> mr_endMinute r) rs)))"

fun anyIntervalActive :: "local_clock \<Rightarrow> int \<Rightarrow> TimeInterval list \<Rightarrow> bool option" where
  "anyIntervalActive clock now [] = Some False"
| "anyIntervalActive clock now (i # is) =
     (case intervalActive clock i now of
        None \<Rightarrow> None
      | Some True \<Rightarrow> Some True
      | Some False \<Rightarrow> anyIntervalActive clock now is)"

fun isMutedByTimings :: "local_clock \<Rightarrow> int \<Rightarrow> (string \<times> MuteTiming) list \<Rightarrow> string list \<Rightarrow> bool option" where
  "isMutedByTimings clock now timings [] = Some False"
| "isMutedByTimings clock now timings (i # is) =
     (case map_of timings i of
        None \<Rightarrow> isMutedByTimings clock now timings is
      | Some mt \<Rightarrow>
          (case anyIntervalActive clock now (mt_timeIntervals mt) of
             None \<Rightarrow> None
           | Some True \<Rightarrow> Some True
           | Some False \<Rightarrow> isMutedByTimings clock now timings is))"

subsection \<open>The repository\<close>

record notification_db =
  nd_contactPoints :: "(string \<times> ContactPoint) list"
  nd_tree :: "NotificationPolicyNode option"
  nd_muteTimings :: "(string \<times> MuteTiming) list"

definition defaultPolicyTree :: "int \<Rightarrow> NotificationPolicyNode" where
  "defaultPolicyTree now = PolicyNode \<lparr>nn_id = ''root'', nn_matchers = [], nn_contactPointId = [], nn_groupBy = Some [''alertname''],
     nn_groupWaitSec = Some 30, nn_groupIntervalSec = Some 300, nn_repeatIntervalSec = Some 3600,
     nn_continueMatching = Some False, nn_muteTimingIds = Some [], nn_isDefault = Some True,
     nn_createdAt = now, nn_updatedAt = now\<rparr> []"

definition createContactPoint :: "notification_db \<Rightarrow> string \<Rightarrow> int \<Rightarrow> string \<Rightarrow> ContactPointIntegration list
    \<Rightarrow> (ContactPoint \<times> notification_db) option" where
  "createContactPoint db i now name integrations =
     (if i \<in> fst ` set (nd_contactPoints db) then None
      else let row = \<lparr>cp_id = i, cp_name = name, cp_integrations = integrations, cp_createdAt = now, cp_updatedAt = now\<rparr>
           in Some (row, db\<lparr>nd_contactPoints := nd_contactPoints db @ [(i, row)]\<rparr>))"

definition findAllContactPoints :: "notification_db \<Rightarrow> ContactPoint list" where
  "findAllContactPoints db = map snd (nd_contactPoints db)"

definition findContactPointById :: "notification_db \<Rightarrow> string \<Rightarrow> ContactPoint option" where
  "findContactPointById db i = map_of (nd_contactPoints db) i"

definition updateContactPoint :: "notification_db \<Rightarrow> string \<Rightarrow> int \<Rightarrow> string option \<Rightarrow> ContactPointIntegration list option
    \<Rightarrow> ContactPoint option \<times> notification_db" where
  "updateContactPoint db i now name integrations =
     (case map_of (nd_contactPoints db) i of
        None \<Rightarrow> (None, db)
      | Some row \<Rightarrow>
          let row' = row\<lparr>cp_updatedAt := now, cp_name := or_default name (cp_name row),
                cp_integrations := or_default integrations (cp_integrations row)\<rparr>
          in (Some row', db\<lparr>nd_contactPoints := AList.update i row' (nd_contactPoints db)\<rparr>))"

definition deleteContactPoint :: "notification_db \<Rightarrow> string \<Rightarrow> bool \<times> notification_db" where
  "deleteContactPoint db i =
     (map_of (nd_contactPoints db) i \<noteq> None, db\<lparr>nd_contactPoints := AList.delete i (nd_contactPoints db)\<rparr>)"

definition getPolicyTree :: "notification_db \<Rightarrow> int \<Rightarrow> NotificationPolicyNode" where
  "getPolicyTree db now = (case nd_tree db of None \<Rightarrow> defaultPolicyTree now | Some t \<Rightarrow> t)"

definition updatePolicyTree :: "notification_db \<Rightarrow> int \<Rightarrow> NotificationPolicyNode \<Rightarrow> notification_db" where
  "updatePolicyTree db now t =
     db\<lparr>nd_tree := Some (PolicyNode ((nn_fields t)\<lparr>nn_updatedAt := now\<rparr>) (nn_children t))\<rparr>"

fun findNodeById :: "string \<Rightarrow> NotificationPolicyNode \<Rightarrow> NotificationPolicyNode option"
  and findNodeIn :: "string \<Rightarrow> NotificationPolicyNode list \<Rightarrow> NotificationPolicyNode option" where
  "findNodeById i (PolicyNode f cs) = (if nn_id f = i then Some (PolicyNode f cs) else findNodeIn i cs)"
| "findNodeIn i [] = None"
| "findNodeIn i (c # cs) = (case findNodeById i c of Some n \<Rightarrow> Some n | None \<Rightarrow> findNodeIn i cs)"

text \<open>The callers change the object that \<open>findNodeById\<close> returns in place: the tree with
  that node replaced.\<close>

fun replaceNode :: "string \<Rightarrow> NotificationPolicyNode \<Rightarrow> NotificationPolicyNode \<Rightarrow> NotificationPolicyNode"
  and replaceIn :: "string \<Rightarrow> NotificationPolicyNode \<Rightarrow> NotificationPolicyNode list \<Rightarrow> NotificationPolicyNode list" where
  "replaceNode i n (PolicyNode f cs) = (if nn_id f = i then n else PolicyNode f (replaceIn i n cs))"
| "replaceIn i n [] = []"
| "replaceIn i n (c # cs) =
     (if findNodeById i c \<noteq> None then replaceNode i n c # cs else c # replaceIn i n cs)"

definition addChildPolicy :: "notification_db \<Rightarrow> string \<Rightarrow> int \<Rightarrow> string \<Rightarrow> PolicyFields
    \<Rightarrow> NotificationPolicyNode option \<times> notification_db" where
  "addChildPolicy db parentId now newId policy =
     (let tree = getPolicyTree db now;
          newNode = PolicyNode (policy\<lparr>nn_id := newId, nn_createdAt := now, nn_updatedAt := now\<rparr>) []
      in case findNodeById parentId tree of
           None \<Rightarrow> (None, db)
         | Some p \<Rightarrow> (Some newNode,
             updatePolicyTree db now (replaceNode parentId (PolicyNode (nn_fields p) (nn_children p @ [newNode])) tree)))"

text \<open>A patch assigns every field it names; a field can be set to a value, never removed.\<close>

record PolicyNodePatch =
  np_matchers :: "Matcher list option"
  np_contactPointId :: "string option"
  np_groupBy :: "string list option"
  np_groupWaitSec :: "int option"
  np_groupIntervalSec :: "int option"
  np_repeatIntervalSec :: "int option"
  np_continueMatching :: "bool option"
  np_muteTimingIds :: "string list option"
  np_isDefault :: "bool option"

definition assignPatch :: "int \<Rightarrow> PolicyNodePatch \<Rightarrow> PolicyFields \<Rightarrow> PolicyFields" where
  "assignPatch now p f =
     f\<lparr>nn_matchers := or_default (np_matchers p) (nn_matchers f),
       nn_contactPointId := or_default (np_contactPointId p) (nn_contactPointId f),
       nn_groupBy := (if np_groupBy p \<noteq> None then np_groupBy p else nn_groupBy f),
       nn_groupWaitSec := (if np_groupWaitSec p \<noteq> None then np_groupWaitSec p else nn_groupWaitSec f),
       nn_groupIntervalSec := (if np_groupIntervalSec p \<noteq> None then np_groupIntervalSec p else nn_groupIntervalSec f),
       nn_repeatIntervalSec := (if np_repeatIntervalSec p \<noteq> None then np_repeatIntervalSec p else nn_repeatIntervalSec f),
       nn_continueMatching := (if np_continueMatching p \<noteq> None then np_continueMatching p else nn_continueMatching f),
       nn_muteTimingIds := (if np_muteTimingIds p \<noteq> None then np_muteTimingIds p else nn_muteTimingIds f),
       nn_isDefault := (if np_isDefault p \<noteq> None then np_isDefault p else nn_isDefault f),
       nn_updatedAt := now\<rparr>"

definition updatePolicyNode :: "notification_db \<Rightarrow> int \<Rightarrow> string \<Rightarrow> PolicyNodePatch
    \<Rightarrow> NotificationPolicyNode option \<times> notification_db" where
  "updatePolicyNode db now i patch =
     (let tree = getPolicyTree db now
      in case findNodeById i tree of
           None \<Rightarrow> (None, db)
         | Some n \<Rightarrow>
             let n' = PolicyNode (assignPatch now patch (nn_fields n)) (nn_children n)
             in (Some n', updatePolicyTree db now (replaceNode i n' tree)))"

text \<open>\<open>findIndex\<close> and \<open>splice\<close> on the children, then the children in order.\<close>

fun dropFirst :: "string \<Rightarrow> NotificationPolicyNode list \<Rightarrow> NotificationPolicyNode list" where
  "dropFirst i [] = []"
| "dropFirst i (c # cs) = (if nn_id (nn_fields c) = i then cs else c # dropFirst i cs)"

fun removeNodeById :: "string \<Rightarrow> NotificationPolicyNode \<Rightarrow> bool \<times> NotificationPolicyNode"
  and removeNodeIn :: "string \<Rightarrow> NotificationPolicyNode list \<Rightarrow> bool \<times> NotificationPolicyNode list" where
  "removeNodeById i (PolicyNode f cs) =
     (if list_ex (\<lambda>c. nn_id (nn_fields c) = i) cs then (True, PolicyNode f (dropFirst i cs))
      else (case removeNodeIn i cs of (hit, cs') \<Rightarrow> (hit, PolicyNode f cs')))"
| "removeNodeIn i [] = (False, [])"
| "removeNodeIn i (c # cs) =
     (case removeNodeById i c of
        (True, c') \<Rightarrow> (True, c' # cs)
      | (False, c') \<Rightarrow> (case removeNodeIn i cs of (hit, cs') \<Rightarrow> (hit, c' # cs')))"

definition deletePolicyNode :: "notification_db \<Rightarrow> int \<Rightarrow> string \<Rightarrow> bool \<times> notification_db" where
  "deletePolicyNode db now i =
     (if i = ''root'' then (False, db)
      else case removeNodeById i (getPolicyTree db now) of
             (deleted, tree) \<Rightarrow> (deleted, if deleted then updatePolicyTree db now tree else db))"

definition createMuteTiming :: "notification_db \<Rightarrow> string \<Rightarrow> int \<Rightarrow> string \<Rightarrow> TimeInterval list
    \<Rightarrow> (MuteTiming \<times> notification_db) option" where
  "createMuteTiming db i now name intervals =
     (if i \<in> fst ` set (nd_muteTimings db) then None
      else let row = \<lparr>mt_id = i, mt_name = name, mt_timeIntervals = intervals, mt_createdAt = now, mt_updatedAt = now\<rparr>
           in Some (row, db\<lparr>nd_muteTimings := nd_muteTimings db @ [(i, row)]\<rparr>))"

definition findAllMuteTimings :: "notification_db \<Rightarrow> MuteTiming list" where
  "findAllMuteTimings db = map snd (nd_muteTimings db)"

definition findMuteTimingById :: "notification_db \<Rightarrow> string \<Rightarrow> MuteTiming option" where
  "findMuteTimingById db i = map_of (nd_muteTimings db) i"

definition updateMuteTiming :: "notification_db \<Rightarrow> string \<Rightarrow> int \<Rightarrow> string option \<Rightarrow> TimeInterval list option
    \<Rightarrow> MuteTiming option \<times> notification_db" where
  "updateMuteTiming db i now name intervals =
     (case map_of (nd_muteTimings db) i of
        None \<Rightarrow> (None, db)
      | Some row \<Rightarrow>
          let row' = row\<lparr>mt_updatedAt := now, mt_name := or_default name (mt_name row),
                mt_timeIntervals := or_default intervals (mt_timeIntervals row)\<rparr>
          in (Some row', db\<lparr>nd_muteTimings := AList.update i row' (nd_muteTimings db)\<rparr>))"

definition deleteMuteTiming :: "notification_db \<Rightarrow> string \<Rightarrow> bool \<times> notification_db" where
  "deleteMuteTiming db i =
     (map_of (nd_muteTimings db) i \<noteq> None, db\<lparr>nd_muteTimings := AList.delete i (nd_muteTimings db)\<rparr>)"

definition isMuted :: "local_clock \<Rightarrow> int \<Rightarrow> notification_db \<Rightarrow> string list \<Rightarrow> bool option" where
  "isMuted clock now db ids = isMutedByTimings clock now (map (\<lambda>mt. (mt_id mt, mt)) (findAllMuteTimings db)) ids"

record RoutedAlert =
  ro_contactPointId :: string
  ro_groupBy :: "string list"
  ro_isMuted :: bool

fun muteLoop :: "local_clock \<Rightarrow> int \<Rightarrow> notification_db \<Rightarrow> CollectedRoute list \<Rightarrow> RoutedAlert list option" where
  "muteLoop clock now db [] = Some []"
| "muteLoop clock now db (c # cs) =
     (case isMuted clock now db (cr_muteTimingIds c) of
        None \<Rightarrow> None
      | Some muted \<Rightarrow> map_option ((#) \<lparr>ro_contactPointId = cr_contactPointId c, ro_groupBy = cr_groupBy c, ro_isMuted = muted\<rparr>)
                        (muteLoop clock now db cs))"

definition routeAlert :: "regex \<Rightarrow> local_clock \<Rightarrow> int \<Rightarrow> notification_db \<Rightarrow> labels \<Rightarrow> RoutedAlert list option" where
  "routeAlert re clock now db ls =
     (case routeIntoTree re ls (getPolicyTree db now) of
        None \<Rightarrow> None
      | Some (hit, collected) \<Rightarrow> muteLoop clock now db collected)"

end
