(* ===== verification/Account_Repo.thy ===== *)
theory Account_Repo
  imports Prelude
begin

text \<open>
  Users and memberships (\<open>data-layer/src/repository/auth/user-repository.ts\<close> and
  \<open>org-user-repository.ts\<close>).

  Tables are lists of rows in the order of insertion; an operation that violates the schema throws,
  here the result \<open>None\<close>: e-mail addresses, logins and identifiers of users are unique, a user has one
  membership per organisation, organisations must exist, and a membership goes with its user. Of a
  membership the identifier and the dates are left out.

  Results: the constraints hold in every reachable state, so that a login, an e-mail address and a
  membership each name one row.
\<close>

section \<open>Definitions\<close>

record User =
  u_id :: string
  u_version :: nat
  u_email :: string
  u_name :: string
  u_login :: string
  u_password :: "string option"
  u_salt :: "string option"
  u_rands :: "string option"
  u_company :: "string option"
  u_orgId :: string
  u_isAdmin :: bool
  u_emailVerified :: bool
  u_theme :: "string option"
  u_helpFlags1 :: int
  u_isDisabled :: bool
  u_isServiceAccount :: bool
  u_created :: int
  u_updated :: int
  u_lastSeenAt :: "int option"

record NewUser =
  nu_id :: "string option"
  nu_email :: string
  nu_name :: string
  nu_login :: string
  nu_password :: "string option"
  nu_salt :: "string option"
  nu_rands :: "string option"
  nu_company :: "string option"
  nu_orgId :: string
  nu_isAdmin :: "bool option"
  nu_emailVerified :: "bool option"
  nu_theme :: "string option"
  nu_helpFlags1 :: "int option"
  nu_isDisabled :: "bool option"
  nu_isServiceAccount :: "bool option"

text \<open>A patch: an absent field keeps the value; a nullable field may be set to null.\<close>

record UserPatch =
  up_email :: "string option"
  up_name :: "string option"
  up_login :: "string option"
  up_password :: "string option option"
  up_salt :: "string option option"
  up_rands :: "string option option"
  up_company :: "string option option"
  up_orgId :: "string option"
  up_isAdmin :: "bool option"
  up_emailVerified :: "bool option"
  up_theme :: "string option option"
  up_helpFlags1 :: "int option"
  up_isDisabled :: "bool option"
  up_isServiceAccount :: "bool option"

record OrgUser =
  ou_orgId :: string
  ou_userId :: string
  ou_role :: string

record account_tables =
  ak_orgs :: "string list"
  ak_users :: "User list"
  ak_orgUsers :: "OrgUser list"

subsection \<open>Users\<close>

definition userFindById :: "account_tables \<Rightarrow> string \<Rightarrow> User option" where
  "userFindById t i = List.find (\<lambda>u. u_id u = i) (ak_users t)"

definition findByLogin :: "account_tables \<Rightarrow> string \<Rightarrow> User option" where
  "findByLogin t login = List.find (\<lambda>u. u_login u = login) (ak_users t)"

definition findByEmail :: "account_tables \<Rightarrow> string \<Rightarrow> User option" where
  "findByEmail t email = List.find (\<lambda>u. u_email u = email) (ak_users t)"

definition userRow :: "int \<Rightarrow> string \<Rightarrow> NewUser \<Rightarrow> User" where
  "userRow now i input =
     \<lparr>u_id = i, u_version = 0, u_email = nu_email input, u_name = nu_name input, u_login = nu_login input,
      u_password = nu_password input, u_salt = nu_salt input, u_rands = nu_rands input, u_company = nu_company input,
      u_orgId = nu_orgId input, u_isAdmin = (nu_isAdmin input = Some True),
      u_emailVerified = (nu_emailVerified input = Some True), u_theme = nu_theme input,
      u_helpFlags1 = or_default (nu_helpFlags1 input) 0, u_isDisabled = (nu_isDisabled input = Some True),
      u_isServiceAccount = (nu_isServiceAccount input = Some True), u_created = now, u_updated = now, u_lastSeenAt = None\<rparr>"

definition userCreate :: "account_tables \<Rightarrow> int \<Rightarrow> string \<Rightarrow> NewUser \<Rightarrow> (User \<times> account_tables) option" where
  "userCreate t now uid input =
     (let i = or_default (nu_id input) uid; row = userRow now i input in
      if list_ex (\<lambda>u. u_id u = i \<or> u_email u = nu_email input \<or> u_login u = nu_login input) (ak_users t)
         \<or> nu_orgId input \<notin> set (ak_orgs t)
      then None
      else Some (row, t\<lparr>ak_users := ak_users t @ [row]\<rparr>))"

definition mergedUser :: "int \<Rightarrow> UserPatch \<Rightarrow> User \<Rightarrow> User" where
  "mergedUser now patch u =
     u\<lparr>u_version := u_version u + 1,
       u_email := or_default (up_email patch) (u_email u), u_name := or_default (up_name patch) (u_name u),
       u_login := or_default (up_login patch) (u_login u), u_password := or_default (up_password patch) (u_password u),
       u_salt := or_default (up_salt patch) (u_salt u), u_rands := or_default (up_rands patch) (u_rands u),
       u_company := or_default (up_company patch) (u_company u), u_orgId := or_default (up_orgId patch) (u_orgId u),
       u_isAdmin := or_default (up_isAdmin patch) (u_isAdmin u),
       u_emailVerified := or_default (up_emailVerified patch) (u_emailVerified u),
       u_theme := or_default (up_theme patch) (u_theme u), u_helpFlags1 := or_default (up_helpFlags1 patch) (u_helpFlags1 u),
       u_isDisabled := or_default (up_isDisabled patch) (u_isDisabled u),
       u_isServiceAccount := or_default (up_isServiceAccount patch) (u_isServiceAccount u), u_updated := now\<rparr>"

definition userUpdate :: "account_tables \<Rightarrow> int \<Rightarrow> string \<Rightarrow> UserPatch \<Rightarrow> (User option \<times> account_tables) option" where
  "userUpdate t now i patch =
     (case userFindById t i of
        None \<Rightarrow> Some (None, t)
      | Some existing \<Rightarrow>
          let m = mergedUser now patch existing in
          if list_ex (\<lambda>u. u_id u \<noteq> i \<and> (u_email u = u_email m \<or> u_login u = u_login m)) (ak_users t)
             \<or> u_orgId m \<notin> set (ak_orgs t)
          then None
          else let t' = t\<lparr>ak_users := map (\<lambda>u. if u_id u = i then m else u) (ak_users t)\<rparr>
               in Some (userFindById t' i, t'))"

definition userDelete :: "account_tables \<Rightarrow> string \<Rightarrow> bool \<times> account_tables" where
  "userDelete t i =
     (case userFindById t i of
        None \<Rightarrow> (False, t)
      | Some _ \<Rightarrow> (True, t\<lparr>ak_users := filter (\<lambda>u. u_id u \<noteq> i) (ak_users t),
                           ak_orgUsers := filter (\<lambda>m. ou_userId m \<noteq> i) (ak_orgUsers t)\<rparr>))"

definition setDisabled :: "account_tables \<Rightarrow> int \<Rightarrow> string \<Rightarrow> bool \<Rightarrow> account_tables" where
  "setDisabled t now i disabled =
     t\<lparr>ak_users := map (\<lambda>u. if u_id u = i then u\<lparr>u_isDisabled := disabled, u_updated := now\<rparr> else u) (ak_users t)\<rparr>"

definition updateLastSeen :: "account_tables \<Rightarrow> string \<Rightarrow> int \<Rightarrow> account_tables" where
  "updateLastSeen t i at =
     t\<lparr>ak_users := map (\<lambda>u. if u_id u = i then u\<lparr>u_lastSeenAt := Some at\<rparr> else u) (ak_users t)\<rparr>"

definition countServiceAccounts :: "account_tables \<Rightarrow> string \<Rightarrow> nat" where
  "countServiceAccounts t orgId = length (filter (\<lambda>u. u_orgId u = orgId \<and> u_isServiceAccount u) (ak_users t))"

subsection \<open>Memberships\<close>

definition findMembership :: "account_tables \<Rightarrow> string \<Rightarrow> string \<Rightarrow> OrgUser option" where
  "findMembership t orgId userId = List.find (\<lambda>m. ou_orgId m = orgId \<and> ou_userId m = userId) (ak_orgUsers t)"

definition membershipCreate :: "account_tables \<Rightarrow> OrgUser \<Rightarrow> (OrgUser \<times> account_tables) option" where
  "membershipCreate t input =
     (if list_ex (\<lambda>m. ou_orgId m = ou_orgId input \<and> ou_userId m = ou_userId input) (ak_orgUsers t)
         \<or> ou_orgId input \<notin> set (ak_orgs t) \<or> ou_userId input \<notin> u_id ` set (ak_users t)
      then None
      else Some (input, t\<lparr>ak_orgUsers := ak_orgUsers t @ [input]\<rparr>))"

definition listOrgsByUser :: "account_tables \<Rightarrow> string \<Rightarrow> OrgUser list" where
  "listOrgsByUser t userId = filter (\<lambda>m. ou_userId m = userId) (ak_orgUsers t)"

definition membershipUpdateRole :: "account_tables \<Rightarrow> string \<Rightarrow> string \<Rightarrow> string \<Rightarrow> OrgUser option \<times> account_tables" where
  "membershipUpdateRole t orgId userId role =
     (case findMembership t orgId userId of
        None \<Rightarrow> (None, t)
      | Some _ \<Rightarrow>
          let t' = t\<lparr>ak_orgUsers := map (\<lambda>m. if ou_orgId m = orgId \<and> ou_userId m = userId then m\<lparr>ou_role := role\<rparr> else m) (ak_orgUsers t)\<rparr>
          in (findMembership t' orgId userId, t'))"

definition membershipRemove :: "account_tables \<Rightarrow> string \<Rightarrow> string \<Rightarrow> bool \<times> account_tables" where
  "membershipRemove t orgId userId =
     (case findMembership t orgId userId of
        None \<Rightarrow> (False, t)
      | Some _ \<Rightarrow> (True, t\<lparr>ak_orgUsers := filter (\<lambda>m. \<not> (ou_orgId m = orgId \<and> ou_userId m = userId)) (ak_orgUsers t)\<rparr>))"

inductive account_step :: "account_tables \<Rightarrow> account_tables \<Rightarrow> bool" where
  as_create: "userCreate t now uid input = Some (u, t') \<Longrightarrow> account_step t t'"
| as_update: "userUpdate t now i patch = Some (r, t') \<Longrightarrow> account_step t t'"
| as_delete: "userDelete t i = (b, t') \<Longrightarrow> account_step t t'"
| as_disable: "account_step t (setDisabled t now i disabled)"
| as_seen: "account_step t (updateLastSeen t i at)"
| as_join: "membershipCreate t m = Some (m', t') \<Longrightarrow> account_step t t'"
| as_role: "membershipUpdateRole t orgId userId role = (r, t') \<Longrightarrow> account_step t t'"
| as_leave: "membershipRemove t orgId userId = (b, t') \<Longrightarrow> account_step t t'"
| as_org: "account_step t (t\<lparr>ak_orgs := orgId # ak_orgs t\<rparr>)"

section \<open>The constraints\<close>

definition memberKey :: "OrgUser \<Rightarrow> string \<times> string" where
  "memberKey m = (ou_orgId m, ou_userId m)"

definition accountsOk :: "account_tables \<Rightarrow> bool" where
  "accountsOk t \<longleftrightarrow> distinct (map u_id (ak_users t)) \<and> distinct (map u_email (ak_users t)) \<and> distinct (map u_login (ak_users t))
     \<and> (\<forall>u\<in>set (ak_users t). u_orgId u \<in> set (ak_orgs t))
     \<and> distinct (map memberKey (ak_orgUsers t))
     \<and> (\<forall>m\<in>set (ak_orgUsers t). ou_orgId m \<in> set (ak_orgs t) \<and> ou_userId m \<in> u_id ` set (ak_users t))"

definition noAccounts :: "account_tables \<Rightarrow> bool" where
  "noAccounts t \<longleftrightarrow> ak_users t = [] \<and> ak_orgUsers t = []"

lemma map_keyed: "(\<And>x. x \<in> set xs \<Longrightarrow> key (f x) = key x) \<Longrightarrow> map key (map f xs) = map key xs"
  by (induction xs) auto

lemma distinct_put:
  assumes "distinct (map i xs)" "distinct (map key xs)" "\<forall>x\<in>set xs. i x \<noteq> j \<longrightarrow> key x \<noteq> key m"
  shows "distinct (map key (map (\<lambda>x. if i x = j then m else x) xs))"
  using assms
proof (induction xs)
  case (Cons x xs)
  show ?case
  proof (cases "i x = j")
    case True
    have "i x \<notin> i ` set xs" using Cons.prems(1) by simp
    then have "i y \<noteq> j" if "y \<in> set xs" for y using True that by (metis imageI)
    then have "map (\<lambda>x. if i x = j then m else x) xs = xs" by (intro map_idI) auto
    then show ?thesis using Cons True by (auto simp: image_iff) metis
  next
    case False
    then show ?thesis using Cons by (auto simp: image_iff)
  qed
qed simp

lemma userFind: "userFindById t i = Some u \<Longrightarrow> u \<in> set (ak_users t) \<and> u_id u = i"
  by (auto simp: userFindById_def find_Some_iff)

text \<open>A change of other columns keeps the constraints.\<close>

lemma users_changed_ok:
  assumes ok: "accountsOk t" and f: "\<And>u. u_id (f u) = u_id u \<and> u_email (f u) = u_email u \<and> u_login (f u) = u_login u \<and> u_orgId (f u) = u_orgId u"
  shows "accountsOk (t\<lparr>ak_users := map f (ak_users t)\<rparr>)"
proof -
  have "map u_id (map f (ak_users t)) = map u_id (ak_users t)" "map u_email (map f (ak_users t)) = map u_email (ak_users t)"
    "map u_login (map f (ak_users t)) = map u_login (ak_users t)" by (rule map_keyed; simp add: f)+
  moreover have "u_id ` set (map f (ak_users t)) = u_id ` set (ak_users t)" using calculation(1) by (metis list.set_map)
  ultimately show ?thesis using ok f by (auto simp: accountsOk_def simp del: map_map)
qed

lemma user_create_ok: "accountsOk t \<Longrightarrow> userCreate t now uid input = Some (u, t') \<Longrightarrow> accountsOk t'"
proof -
  assume ok: "accountsOk t" and c: "userCreate t now uid input = Some (u, t')"
  have t': "t' = t\<lparr>ak_users := ak_users t @ [u]\<rparr>" and org: "u_orgId u \<in> set (ak_orgs t)"
    and new: "\<forall>v\<in>set (ak_users t). u_id v \<noteq> u_id u \<and> u_email v \<noteq> u_email u \<and> u_login v \<noteq> u_login u"
    using c by (auto simp: userCreate_def Let_def list_ex_iff userRow_def split: if_splits)
  then have "u_id u \<notin> u_id ` set (ak_users t)" "u_email u \<notin> u_email ` set (ak_users t)" "u_login u \<notin> u_login ` set (ak_users t)"
    by (metis imageE)+
  then show "accountsOk t'" using ok org by (auto simp: accountsOk_def t')
qed

lemma user_update_ok:
  assumes ok: "accountsOk t" and up: "userUpdate t now i patch = Some (r, t')"
  shows "accountsOk t'"
proof (cases "userFindById t i")
  case None
  then show ?thesis using assms by (simp add: userUpdate_def)
next
  case (Some x)
  let ?m = "mergedUser now patch x"
  have x: "x \<in> set (ak_users t)" "u_id ?m = i" using userFind [OF Some] by (simp_all add: mergedUser_def)
  have t': "t' = t\<lparr>ak_users := map (\<lambda>u. if u_id u = i then ?m else u) (ak_users t)\<rparr>"
    and free: "\<forall>u\<in>set (ak_users t). u_id u \<noteq> i \<longrightarrow> u_email u \<noteq> u_email ?m" "\<forall>u\<in>set (ak_users t). u_id u \<noteq> i \<longrightarrow> u_login u \<noteq> u_login ?m"
    and org: "u_orgId ?m \<in> set (ak_orgs t)"
    using up Some by (auto simp: userUpdate_def Let_def list_ex_iff split: if_splits)
  have ids: "map u_id (map (\<lambda>u. if u_id u = i then ?m else u) (ak_users t)) = map u_id (ak_users t)"
    by (rule map_keyed) (simp add: x)
  then have "u_id ` set (map (\<lambda>u. if u_id u = i then ?m else u) (ak_users t)) = u_id ` set (ak_users t)" by (metis list.set_map)
  moreover have "\<forall>u\<in>set (map (\<lambda>u. if u_id u = i then ?m else u) (ak_users t)). u_orgId u \<in> set (ak_orgs t)"
    using ok org by (auto simp: accountsOk_def)
  ultimately show ?thesis using ok distinct_put [OF _ _ free(1)] distinct_put [OF _ _ free(2)] ids
    by (simp add: accountsOk_def t' del: map_map set_map)
qed

lemma account_step_ok: "account_step t t' \<Longrightarrow> accountsOk t \<Longrightarrow> accountsOk t'"
proof (induction rule: account_step.induct)
  case (as_delete t i b t')
  then show ?case by (auto simp: userDelete_def accountsOk_def distinct_map_filter image_iff split: option.splits) metis
next
  case (as_disable t now i disabled)
  then show ?case unfolding setDisabled_def by (rule users_changed_ok) simp
next
  case (as_seen t i at)
  then show ?case unfolding updateLastSeen_def by (rule users_changed_ok) simp
next
  case (as_join t m m' t')
  then show ?case by (auto simp: membershipCreate_def accountsOk_def list_ex_iff memberKey_def split: if_splits) blast
next
  case (as_role t orgId userId role r t')
  have "map memberKey (map (\<lambda>m. if ou_orgId m = orgId \<and> ou_userId m = userId then m\<lparr>ou_role := role\<rparr> else m) (ak_orgUsers t)) = map memberKey (ak_orgUsers t)"
    by (rule map_keyed) (simp add: memberKey_def)
  with as_role show ?case
    by (auto simp: membershipUpdateRole_def accountsOk_def Let_def simp del: map_map split: option.splits)
next
  case (as_leave t orgId userId b t')
  then show ?case by (auto simp: membershipRemove_def accountsOk_def distinct_map_filter split: option.splits)
next
  case (as_org t orgId)
  then show ?case by (auto simp: accountsOk_def)
qed (blast intro: user_create_ok user_update_ok)+

interpretation accounts: step_system noAccounts account_step accountsOk
proof
  fix t assume "noAccounts t"
  then show "accountsOk t" by (simp add: noAccounts_def accountsOk_def)
qed (rule account_step_ok)

end
