(* ===== verification/Approval_Router.thy ===== *)
theory Approval_Router
  imports Approval_Routes Account_Repo
begin

text \<open>
  The approval router (\<open>api-gateway/src/services/approval-router.ts\<close>): the users of an
  organisation who can approve a request, found from the permission rows down to the users, with
  the queries of the repositories it reads (\<open>data-layer/src/repository/auth\<close>).

  The router goes the opposite way of \<open>getUserPermissions\<close>: from grants to holders. Results:
  for users who are not server administrators it finds exactly those whose approve check on the row
  passes, when the teams with a role in the organisation have their members there; a server
  administrator is missed, and a member of a team of another organisation with a global role is
  found although the check refuses him.
\<close>

section \<open>Definitions\<close>

record UserRow =
  us_id :: string
  us_login :: string

record ApprovalRouterDeps =
  rd_tables :: auth_tables
  rd_orgUsers :: "OrgUser list"
  rd_users :: "UserRow list"

definition listByAction :: "auth_tables \<Rightarrow> string \<Rightarrow> Permission list" where
  "listByAction t action = filter (\<lambda>p. pe_action p = action) (at_permissions t)"

definition userRolesByRole :: "auth_tables \<Rightarrow> string \<Rightarrow> UserRole list" where
  "userRolesByRole t roleId = filter (\<lambda>r. ur_roleId r = roleId) (at_userRoles t)"

definition teamRolesByRole :: "auth_tables \<Rightarrow> string \<Rightarrow> TeamRole list" where
  "teamRolesByRole t roleId = filter (\<lambda>r. tr_roleId r = roleId) (at_teamRoles t)"

text \<open>The rows of a table stand in the order of their creation.\<close>

definition listByTeam :: "auth_tables \<Rightarrow> string \<Rightarrow> TeamMember list" where
  "listByTeam t teamId = filter (\<lambda>m. tm_teamId m = teamId) (at_teamMembers t)"

text \<open>The members of an organisation joined with their user rows, by login; the search and
  service-account filters are not used here.\<close>

definition listUsersByOrg :: "ApprovalRouterDeps \<Rightarrow> string \<Rightarrow> nat \<Rightarrow> OrgUser list" where
  "listUsersByOrg deps orgId limit =
     take limit (map fst (sort_key (\<lambda>(ou, u). us_login u)
       (concat (map (\<lambda>ou. map (\<lambda>u. (ou, u)) (filter (\<lambda>u. us_id u = ou_userId ou) (rd_users deps)))
         (filter (\<lambda>ou. ou_orgId ou = orgId) (rd_orgUsers deps))))))"

definition buildCandidateScopes :: "ApprovalRow \<Rightarrow> string list" where
  "buildCandidateScopes row = approvalRowScopes row"

fun permScopeMatchesRow :: "string \<Rightarrow> string list \<Rightarrow> bool" where
  "permScopeMatchesRow permScope [] = False"
| "permScopeMatchesRow permScope (candidate # rest) =
     (if scopeCovers permScope candidate then True else permScopeMatchesRow permScope rest)"

text \<open>The three passes over the matching roles, each adding to the insertion-ordered set.\<close>

definition directUsers :: "auth_tables \<Rightarrow> string \<Rightarrow> string list \<Rightarrow> string list" where
  "directUsers t orgId roleIds =
     concat (map (\<lambda>roleId. map ur_userId (filter (\<lambda>r. ur_orgId r = orgId \<or> ur_orgId r = []) (userRolesByRole t roleId))) roleIds)"

definition teamUsers :: "auth_tables \<Rightarrow> string \<Rightarrow> string list \<Rightarrow> string list" where
  "teamUsers t orgId roleIds =
     concat (map (\<lambda>roleId.
       let teamIds = map tr_teamId (filter (\<lambda>r. tr_orgId r = orgId \<or> tr_orgId r = []) (teamRolesByRole t roleId))
       in concat (map (\<lambda>teamId. map tm_userId (listByTeam t teamId)) teamIds)) roleIds)"

definition matchingBuiltinNames :: "auth_tables \<Rightarrow> string \<Rightarrow> string list \<Rightarrow> string list" where
  "matchingBuiltinNames t orgId roleIds =
     (let builtinRoles = listBuiltinRoles t orgId
      in filter (\<lambda>roleName. list_ex (\<lambda>m. br_role m = roleName \<and> br_roleId m \<in> set roleIds) builtinRoles)
           (js_set (map br_role builtinRoles)))"

definition findApprovers :: "ApprovalRouterDeps \<Rightarrow> string \<Rightarrow> ApprovalRow \<Rightarrow> string list" where
  "findApprovers deps orgId row =
     (let t = rd_tables deps;
          candidates = buildCandidateScopes row;
          matching = filter (\<lambda>p. permScopeMatchesRow (pe_scope p) candidates) (listByAction t ACTIONS_ApprovalsApprove)
      in if length matching = 0 then []
         else
           let matchingRoleIds = js_set (map pe_roleId matching);
               names = matchingBuiltinNames t orgId matchingRoleIds;
               byOrgRole = (if length names > 0
                  then map ou_userId (filter (\<lambda>u. ou_role u \<in> set names) (listUsersByOrg deps orgId 10000)) else [])
           in js_set (directUsers t orgId matchingRoleIds @ teamUsers t orgId matchingRoleIds @ byOrgRole))"

subsection \<open>Specification vocabulary\<close>

text \<open>A user's identity in an organisation: his role there is the one his single membership row has.\<close>

definition memberAs :: "ApprovalRouterDeps \<Rightarrow> Identity \<Rightarrow> bool" where
  "memberAs deps who \<longleftrightarrow>
     (\<forall>r. (\<exists>ou\<in>set (rd_orgUsers deps). ou_orgId ou = id_orgId who \<and> ou_userId ou = id_userId who \<and> ou_role ou = r
            \<and> (\<exists>u\<in>set (rd_users deps). us_id u = id_userId who)) \<longleftrightarrow> r = id_orgRole who)"

text \<open>Teams that hold a role in the organisation, or globally, have their members in it.\<close>

definition teamsLocal :: "auth_tables \<Rightarrow> string \<Rightarrow> bool" where
  "teamsLocal t orgId \<longleftrightarrow>
     (\<forall>x\<in>set (at_teamRoles t). \<forall>m\<in>set (at_teamMembers t).
        tr_teamId x = tm_teamId m \<and> tr_orgId x \<in> {orgId, []} \<longrightarrow> tm_orgId m = orgId)"

text \<open>A role of the organisation's built-in mapping is a real one.\<close>

definition namesReal :: "auth_tables \<Rightarrow> string \<Rightarrow> bool" where
  "namesReal t orgId \<longleftrightarrow> (\<forall>m\<in>set (at_builtin t). br_orgId m = orgId \<longrightarrow> br_role m \<noteq> [] \<and> br_role m \<noteq> ''None'')"

definition orgSize :: "ApprovalRouterDeps \<Rightarrow> string \<Rightarrow> nat" where
  "orgSize deps orgId =
     length (concat (map (\<lambda>ou. filter (\<lambda>u. us_id u = ou_userId ou) (rd_users deps))
       (filter (\<lambda>ou. ou_orgId ou = orgId) (rd_orgUsers deps))))"

section \<open>Lemmas\<close>

lemma permScopeMatchesRow_iff: "permScopeMatchesRow g ws \<longleftrightarrow> (\<exists>w\<in>set ws. scopeCovers g w)"
  by (induction ws) auto

lemma listUsers_member:
  assumes "orgSize deps orgId \<le> limit"
  shows "ou \<in> set (listUsersByOrg deps orgId limit) \<longleftrightarrow>
    ou \<in> set (rd_orgUsers deps) \<and> ou_orgId ou = orgId \<and> (\<exists>u\<in>set (rd_users deps). us_id u = ou_userId ou)"
proof -
  let ?j = "concat (map (\<lambda>ou. map (\<lambda>u. (ou, u)) (filter (\<lambda>u. us_id u = ou_userId ou) (rd_users deps)))
         (filter (\<lambda>ou. ou_orgId ou = orgId) (rd_orgUsers deps)))"
  have "length ?j = orgSize deps orgId" by (simp add: orgSize_def length_concat comp_def)
  then have "set (listUsersByOrg deps orgId limit) = fst ` set ?j"
    using assms by (simp add: listUsersByOrg_def)
  moreover have "fst ` set ?j = {ou \<in> set (rd_orgUsers deps). ou_orgId ou = orgId \<and> (\<exists>u\<in>set (rd_users deps). us_id u = ou_userId ou)}"
    by (simp add: image_UN image_image) auto
  ultimately show ?thesis by simp
qed

lemma names_member:
  "n \<in> set (matchingBuiltinNames t orgId ids) \<longleftrightarrow>
     (\<exists>m\<in>set (at_builtin t). br_orgId m = orgId \<and> br_role m = n \<and> br_roleId m \<in> set ids)"
  by (auto simp: matchingBuiltinNames_def list_ex_iff listBuiltinRoles_def Let_def)

text \<open>The access check on a row, for a caller without the legacy fallback: one of his grants covers
  one of the row's own scopes.\<close>

lemma row_access:
  assumes "ad_resolvers deps = Some (\<lambda>og. resolve (rdeps og))" "ad_legacyAcl deps = None"
    and "ps = fst (ensurePermissions (ad_tables deps) who)"
  shows "evalRowAccess deps (Some who) ps a row \<longleftrightarrow>
    (\<exists>p\<in>set ps. rp_action p = a \<and> (\<exists>w\<in>set (approvalRowScopes row). scopeCovers (rp_scope p) w))"
proof -
  have noacl: "\<not> legacyFallback deps x e" for x e using assms(2) by (simp add: legacyFallback_def)
  have "\<exists>w\<in>set (approvalRowScopes row). scopeCovers g w"
    if "g \<in> {''approvals:*'', ''approvals:*:*'', ''*'', []}" for g
  proof -
    have uid: "approvalShape ''uid'' (row_id row) \<in> set (approvalRowScopes row)" by (simp add: approval_row_members)
    have "ps_kind (parseScope (approvalShape ''uid'' (row_id row))) = ''approvals''" by (simp add: parseScope_shape)
    moreover have "scopeCovers ''*'' w" "scopeCovers [] w" for w by (simp_all add: scopeCovers_def)
    ultimately have "scopeCovers g (approvalShape ''uid'' (row_id row))"
      using that approvals_wildcard_covers [of g] by blast
    then show ?thesis using uid by blast
  qed
  then have wild: "\<exists>p\<in>set ps. rp_action p = a \<and> (\<exists>w\<in>set (approvalRowScopes row). scopeCovers (rp_scope p) w)"
    if "holdsApprovalsWildcard ps a"
    using that by (fastforce simp: holdsApprovalsWildcard_def list_ex_iff)
  show ?thesis
    unfolding evalRowAccess_iff [OF assms(1) assms(3) [symmetric] noacl] using wild by (auto split: if_splits)
qed

text \<open>The ways from a role to a user that the router follows.\<close>

definition reaches :: "ApprovalRouterDeps \<Rightarrow> string \<Rightarrow> string \<Rightarrow> string \<Rightarrow> bool" where
  "reaches deps orgId r u \<longleftrightarrow>
     (\<exists>m\<in>set (at_userRoles (rd_tables deps)). ur_userId m = u \<and> ur_orgId m \<in> {orgId, []} \<and> ur_roleId m = r)
     \<or> (\<exists>x\<in>set (at_teamRoles (rd_tables deps)). \<exists>m\<in>set (at_teamMembers (rd_tables deps)).
          tr_teamId x = tm_teamId m \<and> tr_orgId x \<in> {orgId, []} \<and> tr_roleId x = r \<and> tm_userId m = u)
     \<or> (\<exists>m\<in>set (at_builtin (rd_tables deps)). br_orgId m = orgId \<and> br_roleId m = r
          \<and> (\<exists>ou\<in>set (rd_orgUsers deps). ou_orgId ou = orgId \<and> ou_userId ou = u \<and> ou_role ou = br_role m
               \<and> (\<exists>x\<in>set (rd_users deps). us_id x = u)))"

lemma directUsers_member:
  "u \<in> set (directUsers t orgId ids) \<longleftrightarrow>
     (\<exists>m\<in>set (at_userRoles t). ur_userId m = u \<and> ur_orgId m \<in> {orgId, []} \<and> ur_roleId m \<in> set ids)"
  by (auto simp: directUsers_def userRolesByRole_def)

lemma teamUsers_member:
  "u \<in> set (teamUsers t orgId ids) \<longleftrightarrow>
     (\<exists>x\<in>set (at_teamRoles t). \<exists>m\<in>set (at_teamMembers t).
        tr_teamId x = tm_teamId m \<and> tr_orgId x \<in> {orgId, []} \<and> tr_roleId x \<in> set ids \<and> tm_userId m = u)"
    (is "?L \<longleftrightarrow> ?R")
proof
  assume ?L
  then obtain x where x: "x \<in> set (at_teamRoles t)" "tr_orgId x \<in> {orgId, []}" "tr_roleId x \<in> set ids"
      "u \<in> set (map tm_userId (listByTeam t (tr_teamId x)))"
    by (auto simp: teamUsers_def teamRolesByRole_def Let_def)
  then obtain m where "m \<in> set (at_teamMembers t)" "tm_userId m = u" "tr_teamId x = tm_teamId m"
    by (auto simp: listByTeam_def)
  with x show ?R by blast
next
  assume ?R
  then obtain x m where x: "x \<in> set (at_teamRoles t)" "tr_orgId x \<in> {orgId, []}" "tr_roleId x \<in> set ids"
    and "m \<in> set (at_teamMembers t)" "tr_teamId x = tm_teamId m" "tm_userId m = u" by blast
  then have "u \<in> set (map tm_userId (listByTeam t (tr_teamId x)))" by (auto simp: listByTeam_def)
  then show ?L using x by (auto simp: teamUsers_def teamRolesByRole_def Let_def)
qed

lemma set_if_filter:
  "set (if length ns > 0 then map f (filter (\<lambda>x. g x \<in> set ns) xs) else []) = f ` {x \<in> set xs. g x \<in> set ns}"
  by auto

lemma findApprovers_member:
  assumes "orgSize deps orgId \<le> 10000"
  shows "u \<in> set (findApprovers deps orgId row) \<longleftrightarrow>
    (\<exists>p\<in>set (at_permissions (rd_tables deps)). pe_action p = ACTIONS_ApprovalsApprove
       \<and> (\<exists>w\<in>set (approvalRowScopes row). scopeCovers (pe_scope p) w) \<and> reaches deps orgId (pe_roleId p) u)"
proof -
  let ?m = "filter (\<lambda>p. permScopeMatchesRow (pe_scope p) (buildCandidateScopes row)) (listByAction (rd_tables deps) ACTIONS_ApprovalsApprove)"
  let ?ids = "js_set (map pe_roleId ?m)"
  have m: "set ?m = {p \<in> set (at_permissions (rd_tables deps)). pe_action p = ACTIONS_ApprovalsApprove
      \<and> (\<exists>w\<in>set (approvalRowScopes row). scopeCovers (pe_scope p) w)}"
    by (auto simp: listByAction_def permScopeMatchesRow_iff buildCandidateScopes_def)
  have names: "u \<in> ou_userId ` {x \<in> set (listUsersByOrg deps orgId 10000). ou_role x \<in> set (matchingBuiltinNames (rd_tables deps) orgId ids)}
      \<longleftrightarrow> (\<exists>b\<in>set (at_builtin (rd_tables deps)). br_orgId b = orgId \<and> br_roleId b \<in> set ids
          \<and> (\<exists>ou\<in>set (rd_orgUsers deps). ou_orgId ou = orgId \<and> ou_userId ou = u \<and> ou_role ou = br_role b
               \<and> (\<exists>x\<in>set (rd_users deps). us_id x = u)))" for ids
    unfolding image_iff mem_Collect_eq bex_simps listUsers_member [OF assms] names_member by (simp add: Bex_def) (rule iffI; clarsimp; metis)
  have "u \<in> set (findApprovers deps orgId row) \<longleftrightarrow> (\<exists>r\<in>set ?ids. reaches deps orgId r u)"
  proof (cases "length ?m = 0")
    case True
    then show ?thesis by (simp add: findApprovers_def Let_def js_set_def)
  next
    case False
    then have "set (findApprovers deps orgId row) = set (directUsers (rd_tables deps) orgId ?ids) \<union> set (teamUsers (rd_tables deps) orgId ?ids)
        \<union> ou_userId ` {x \<in> set (listUsersByOrg deps orgId 10000). ou_role x \<in> set (matchingBuiltinNames (rd_tables deps) orgId ?ids)}"
      unfolding findApprovers_def Let_def by (simp only: if_False set_js_set set_append set_if_filter Un_assoc)
    then show ?thesis unfolding reaches_def
      by (simp only: Un_iff directUsers_member teamUsers_member names) blast
  qed
  also have "\<dots> \<longleftrightarrow> (\<exists>p\<in>set ?m. reaches deps orgId (pe_roleId p) u)" by simp
  finally show ?thesis unfolding m by blast
qed

lemma reaches_hasRole:
  assumes "memberAs deps who" "teamsLocal (rd_tables deps) (id_orgId who)" "namesReal (rd_tables deps) (id_orgId who)"
    and "\<not> id_isServerAdmin who"
  shows "reaches deps (id_orgId who) r (id_userId who) \<longleftrightarrow> hasRole (rd_tables deps) who r"
proof -
  have "(\<exists>ou\<in>set (rd_orgUsers deps). ou_orgId ou = id_orgId who \<and> ou_userId ou = id_userId who \<and> ou_role ou = n
      \<and> (\<exists>x\<in>set (rd_users deps). us_id x = id_userId who)) \<longleftrightarrow> n = id_orgRole who" for n
    using assms(1) unfolding memberAs_def by blast
  moreover have "(\<exists>x\<in>set (at_teamRoles (rd_tables deps)). \<exists>m\<in>set (at_teamMembers (rd_tables deps)).
          tr_teamId x = tm_teamId m \<and> tr_orgId x \<in> {id_orgId who, []} \<and> tr_roleId x = r \<and> tm_userId m = id_userId who)
      \<longleftrightarrow> (\<exists>m\<in>set (at_teamMembers (rd_tables deps)). tm_userId m = id_userId who \<and> tm_orgId m = id_orgId who \<and>
          (\<exists>x\<in>set (at_teamRoles (rd_tables deps)). tr_teamId x = tm_teamId m \<and> tr_orgId x \<in> {id_orgId who, []} \<and> tr_roleId x = r))"
    using assms(2) unfolding teamsLocal_def by metis
  ultimately show ?thesis unfolding reaches_def hasRole_def
    using assms(3,4) unfolding namesReal_def by auto
qed

lemma permission_fields: "rp_action (grant a g) = a" "rp_scope (grant a g) = g"
  by (simp_all)

lemma approver_search:
  assumes "ad_resolvers deps = Some (\<lambda>og. resolve (rdeps og))" "ad_legacyAcl deps = None" "ad_tables deps = rd_tables rd"
    and "id_permissions who = None" "id_orgId who \<noteq> []" "\<not> id_isServerAdmin who"
    and "\<forall>p\<in>set (at_permissions (rd_tables rd)). CHR ''|'' \<notin> set (pe_action p)"
    and "memberAs rd who" "teamsLocal (rd_tables rd) (id_orgId who)" "namesReal (rd_tables rd) (id_orgId who)"
    and "orgSize rd (id_orgId who) \<le> 10000"
  shows "id_userId who \<in> set (findApprovers rd (id_orgId who) row)
    \<longleftrightarrow> evalRowAccess deps (Some who) (fst (ensurePermissions (ad_tables deps) who)) ACTIONS_ApprovalsApprove row"
proof -
  have ps: "fst (ensurePermissions (ad_tables deps) who) = getUserPermissions (rd_tables rd) who"
    using assms(3,4) by (simp add: ensurePermissions_def Let_def)
  have "evalRowAccess deps (Some who) (fst (ensurePermissions (ad_tables deps) who)) ACTIONS_ApprovalsApprove row
    \<longleftrightarrow> (\<exists>p\<in>set (at_permissions (rd_tables rd)). pe_action p = ACTIONS_ApprovalsApprove
         \<and> (\<exists>w\<in>set (approvalRowScopes row). scopeCovers (pe_scope p) w) \<and> hasRole (rd_tables rd) who (pe_roleId p))"
    unfolding row_access [OF assms(1,2) refl] unfolding ps getUserPermissions_set [OF assms(5,7)]
    by (simp add: Bex_def) (rule iffI; clarsimp; metis permission_fields)
  then show ?thesis
    unfolding findApprovers_member [OF assms(11)] reaches_hasRole [OF assms(8,9,10,6)] by blast
qed

section \<open>Properties\<close>


definition exApproverAuth :: auth_tables where
  "exApproverAuth = \<lparr>at_builtin = [\<lparr>br_role = ''Admin'', br_roleId = ''root'', br_orgId = ''org''\<rparr>,
       \<lparr>br_role = ''Server Admin'', br_roleId = ''root'', br_orgId = []\<rparr>],
     at_userRoles = [],
     at_teamMembers = [\<lparr>tm_orgId = ''org'', tm_teamId = ''sre'', tm_userId = ''u''\<rparr>,
       \<lparr>tm_orgId = ''other'', tm_teamId = ''them'', tm_userId = ''v''\<rparr>],
     at_teamRoles = [\<lparr>tr_orgId = ''org'', tr_teamId = ''sre'', tr_roleId = ''prod''\<rparr>],
     at_permissions = [\<lparr>pe_roleId = ''prod'', pe_action = ACTIONS_ApprovalsApprove, pe_scope = ''approvals:connector:c''\<rparr>,
       \<lparr>pe_roleId = ''root'', pe_action = ACTIONS_ApprovalsApprove, pe_scope = ''approvals:*''\<rparr>]\<rparr>"

definition exRouter :: ApprovalRouterDeps where
  "exRouter = \<lparr>rd_tables = exApproverAuth,
     rd_orgUsers = [\<lparr>ou_orgId = ''org'', ou_userId = ''u'', ou_role = ''Viewer''\<rparr>, \<lparr>ou_orgId = ''org'', ou_userId = ''a'', ou_role = ''Admin''\<rparr>],
     rd_users = [\<lparr>us_id = ''u'', us_login = ''user''\<rparr>, \<lparr>us_id = ''a'', us_login = ''admin''\<rparr>]\<rparr>"

definition exRow :: "string \<Rightarrow> ApprovalRow" where
  "exRow c = \<lparr>row_id = ''ap'', row_opsConnectorId = Some c, row_targetNamespace = None, row_requesterTeamId = None\<rparr>"


text \<open>Two kinds of users for whom the router and the check disagree: a server administrator passes
  the check and is not found, and a member of another organisation's team that holds the role
  globally is found and does not pass.\<close>

lemma approver_search_gaps:
  "let admin = exIdentity\<lparr>id_userId := ''s'', id_orgRole := ''None'', id_isServerAdmin := True\<rparr>;
       auth = exApproverAuth\<lparr>at_teamRoles := [\<lparr>tr_orgId = [], tr_teamId = ''them'', tr_roleId = ''prod''\<rparr>]\<rparr>;
       stranger = exIdentity\<lparr>id_userId := ''v'', id_orgRole := ''None''\<rparr>
   in ''s'' \<notin> set (findApprovers exRouter ''org'' (exRow ''c''))
     \<and> granted (getUserPermissions exApproverAuth admin) ACTIONS_ApprovalsApprove ''approvals:connector:c''
     \<and> ''v'' \<in> set (findApprovers (exRouter\<lparr>rd_tables := auth\<rparr>) ''org'' (exRow ''c''))
     \<and> getUserPermissions auth stranger = []"
  by code_simp

end
