(* ===== verification/Notification_Consumer.thy ===== *)
theory Notification_Consumer
  imports Notification_Policy Approval_Router Alert_Evaluator
begin

text \<open>
  The notification consumer (\<open>api-gateway/src/services/notification-consumer.ts\<close>) with its
  dispatch table (\<open>data-layer/src/repository/sqlite/notification-dispatch.ts\<close>) and the
  event the alert evaluator publishes.

  The outside world is a value of type \<open>'w\<close>: the clock reads it and a sender call, which may
  succeed, fail or throw, changes it. A run handles one event after the other; the log records
  the calls that reached a sender and the records of successful dispatches.

  Results: the routes of an alert are exactly those the policy tree selects; between two recorded
  sends of an alert to one contact point lies at least the smaller of the two configured
  intervals; an approval is announced only through routes of teams whose members can approve it.
\<close>

section \<open>Definitions\<close>

definition DEFAULT_GROUP_INTERVAL_SEC :: int where "DEFAULT_GROUP_INTERVAL_SEC = 300"

definition DEFAULT_REPEAT_INTERVAL_SEC :: int where "DEFAULT_REPEAT_INTERVAL_SEC = 3600"

record AlertFiredEventPayload =
  fe_ruleId :: string
  fe_ruleName :: string
  fe_orgId :: string
  fe_severity :: AlertSeverity
  fe_value :: rat
  fe_threshold :: rat
  fe_operator :: string
  fe_labels :: labels
  fe_firedAt :: int
  fe_fingerprint :: string

record ApprovalCreatedEventPayload =
  ce_approvalId :: string
  ce_orgId :: string
  ce_planId :: "string option"
  ce_investigationId :: "string option"
  ce_opsConnectorId :: "string option"
  ce_targetNamespace :: "string option"
  ce_requesterTeamId :: "string option"
  ce_summary :: string
  ce_severity :: "AlertSeverity option"
  ce_createdAt :: int

record MatchedRoute =
  mr_contactPointId :: string
  mr_groupBy :: "string list"
  mr_groupIntervalSec :: int
  mr_repeatIntervalSec :: int

definition toRoute :: "PolicyFields \<Rightarrow> MatchedRoute" where
  "toRoute f = \<lparr>mr_contactPointId = nn_contactPointId f, mr_groupBy = or_default (nn_groupBy f) [],
     mr_groupIntervalSec = or_default (nn_groupIntervalSec f) DEFAULT_GROUP_INTERVAL_SEC,
     mr_repeatIntervalSec = or_default (nn_repeatIntervalSec f) DEFAULT_REPEAT_INTERVAL_SEC\<rparr>"

text \<open>One pass of the matcher loop; an operator outside the four does not refuse.\<close>

definition matcherHolds :: "regex \<Rightarrow> labels \<Rightarrow> Matcher \<Rightarrow> bool option" where
  "matcherHolds re ls m =
     (let v = or_default (map_of ls (ma_label m)) [] in
      if ma_operator m = ''='' then Some (v = ma_value m)
      else if ma_operator m = ''!='' then Some (v \<noteq> ma_value m)
      else if ma_operator m = ''=~'' then re (ma_value m) v
      else if ma_operator m = ''!~'' then map_option Not (re (ma_value m) v)
      else Some True)"

fun matchersMatch :: "regex \<Rightarrow> labels \<Rightarrow> Matcher list \<Rightarrow> bool option" where
  "matchersMatch re ls [] = Some True"
| "matchersMatch re ls (m # ms) =
     (case matcherHolds re ls m of
        None \<Rightarrow> None
      | Some False \<Rightarrow> Some False
      | Some True \<Rightarrow> matchersMatch re ls ms)"

text \<open>
  The walk over the tree. The loop over the children carries \<open>anyChildMatched\<close> and what has
  been pushed; its first component tells that it returned from inside the loop.
\<close>

fun policyWalk :: "regex \<Rightarrow> labels \<Rightarrow> NotificationPolicyNode \<Rightarrow> MatchedRoute list \<Rightarrow> (bool \<times> MatchedRoute list) option"
  and childLoop :: "regex \<Rightarrow> labels \<Rightarrow> NotificationPolicyNode list \<Rightarrow> bool \<Rightarrow> MatchedRoute list
    \<Rightarrow> (bool \<times> bool \<times> MatchedRoute list) option" where
  "policyWalk re ls (PolicyNode f cs) out =
     (case childLoop re ls cs False out of
        None \<Rightarrow> None
      | Some (returned, anyChildMatched, out') \<Rightarrow>
          if returned then Some (True, out')
          else Some (anyChildMatched, out' @
            (if \<not> anyChildMatched \<and> nn_isDefault f = Some True \<and> nn_contactPointId f \<noteq> [] then [toRoute f] else [])))"
| "childLoop re ls [] anyChildMatched out = Some (False, anyChildMatched, out)"
| "childLoop re ls (c # cs) anyChildMatched out =
     (case matchersMatch re ls (nn_matchers (nn_fields c)) of
        None \<Rightarrow> None
      | Some False \<Rightarrow> childLoop re ls cs anyChildMatched out
      | Some True \<Rightarrow>
          (case policyWalk re ls c (out @ [toRoute (nn_fields c)]) of
             None \<Rightarrow> None
           | Some (_, out') \<Rightarrow>
               if nn_continueMatching (nn_fields c) \<noteq> Some True then Some (True, True, out')
               else childLoop re ls cs True out'))"

definition collectMatchingRoutes :: "regex \<Rightarrow> NotificationPolicyNode \<Rightarrow> labels \<Rightarrow> MatchedRoute list option" where
  "collectMatchingRoutes re tree ls = map_option snd (policyWalk re ls tree [])"

definition computeGroupKey :: "string list \<Rightarrow> labels \<Rightarrow> string" where
  "computeGroupKey groupBy ls =
     (if length groupBy = 0 then []
      else join_with ''|'' (map (\<lambda>label. or_default (map_of ls label) []) groupBy))"

record NotificationDispatchRow =
  dr_id :: string
  dr_orgId :: string
  dr_fingerprint :: string
  dr_contactPointId :: string
  dr_groupKey :: string
  dr_lastSentAt :: int
  dr_sentCount :: nat

datatype DispatchDecision = SendNow | SkipGroupWindow

definition decideDispatch :: "NotificationDispatchRow option \<Rightarrow> MatchedRoute \<Rightarrow> int \<Rightarrow> DispatchDecision" where
  "decideDispatch existing route now =
     (case existing of
        None \<Rightarrow> SendNow
      | Some row \<Rightarrow>
          let elapsedMs = now - dr_lastSentAt row in
          if dr_sentCount row > 0 \<and> elapsedMs \<ge> mr_repeatIntervalSec route * 1000 then SendNow
          else if elapsedMs < mr_groupIntervalSec route * 1000 then SkipGroupWindow
          else SendNow)"

subsection \<open>The dispatch table\<close>

definition hasKey :: "string \<Rightarrow> string \<Rightarrow> string \<Rightarrow> string \<Rightarrow> NotificationDispatchRow \<Rightarrow> bool" where
  "hasKey orgId fingerprint contactPointId groupKey r \<longleftrightarrow> dr_orgId r = orgId \<and> dr_fingerprint r = fingerprint
     \<and> dr_contactPointId r = contactPointId \<and> dr_groupKey r = groupKey"

definition findByKey :: "NotificationDispatchRow list \<Rightarrow> string \<Rightarrow> string \<Rightarrow> string \<Rightarrow> string \<Rightarrow> NotificationDispatchRow option" where
  "findByKey rows orgId fingerprint contactPointId groupKey =
     js_at (filter (hasKey orgId fingerprint contactPointId groupKey) rows) 0"

definition upsertSent :: "NotificationDispatchRow list \<Rightarrow> string \<Rightarrow> string \<Rightarrow> string \<Rightarrow> string \<Rightarrow> string \<Rightarrow> int
    \<Rightarrow> NotificationDispatchRow list" where
  "upsertSent rows newId orgId fingerprint contactPointId groupKey sentAt =
     (case findByKey rows orgId fingerprint contactPointId groupKey of
        Some existing \<Rightarrow>
          map (\<lambda>r. if dr_id r = dr_id existing then r\<lparr>dr_lastSentAt := sentAt, dr_sentCount := dr_sentCount existing + 1\<rparr> else r) rows
      | None \<Rightarrow> rows @ [\<lparr>dr_id = newId, dr_orgId = orgId, dr_fingerprint = fingerprint, dr_contactPointId = contactPointId,
                         dr_groupKey = groupKey, dr_lastSentAt = sentAt, dr_sentCount = 1\<rparr>])"

subsection \<open>The consumer\<close>

datatype SenderResult = SenderOk | SenderFailed | SenderThrew

record 'w consumer_opts =
  co_regex :: regex
  co_senders :: "ContactPointIntegrationType \<Rightarrow> (ContactPointIntegration \<Rightarrow> AlertFiredEventPayload \<Rightarrow> 'w \<Rightarrow> SenderResult \<times> 'w) option"
  co_clock :: "'w \<Rightarrow> int"
  co_newId :: "nat \<Rightarrow> string"

text \<open>The types with a sender; the senders themselves are the argument.\<close>

fun senderFor :: "'s \<Rightarrow> 's \<Rightarrow> 's \<Rightarrow> 's \<Rightarrow> ContactPointIntegrationType \<Rightarrow> 's option" where
  "senderFor slack webhook discord teams ItSlack = Some slack"
| "senderFor slack webhook discord teams ItWebhook = Some webhook"
| "senderFor slack webhook discord teams ItDiscord = Some discord"
| "senderFor slack webhook discord teams ItTeams = Some teams"
| "senderFor slack webhook discord teams ItPagerduty = None"
| "senderFor slack webhook discord teams ItEmail = None"
| "senderFor slack webhook discord teams ItOpsgenie = None"
| "senderFor slack webhook discord teams ItTelegram = None"

record SentRecord =
  se_key :: "string \<times> string \<times> string \<times> string"
  se_at :: int

record 'w consumer_state =
  cs_notifications :: notification_db
  cs_dispatch :: "NotificationDispatchRow list"
  cs_calls :: "(string \<times> string) list"
  cs_sent :: "SentRecord list"
  cs_world :: 'w

text \<open>The calls of a contact point: contact point and integration of every call that was made.\<close>

fun integrationLoop :: "'w consumer_opts \<Rightarrow> AlertFiredEventPayload \<Rightarrow> string \<Rightarrow> ContactPointIntegration list \<Rightarrow> bool
    \<Rightarrow> 'w consumer_state \<Rightarrow> bool \<times> 'w consumer_state" where
  "integrationLoop opts payload cpId [] anySent st = (anySent, st)"
| "integrationLoop opts payload cpId (i # is) anySent st =
     (case co_senders opts (ci_type i) of
        None \<Rightarrow> integrationLoop opts payload cpId is anySent st
      | Some sender \<Rightarrow>
          (case sender i payload (cs_world st) of
             (result, w) \<Rightarrow>
               integrationLoop opts payload cpId is (anySent \<or> result = SenderOk)
                 (st\<lparr>cs_world := w, cs_calls := cs_calls st @ [(cpId, ci_id i)]\<rparr>)))"

definition sendAndRecord :: "'w consumer_opts \<Rightarrow> AlertFiredEventPayload \<Rightarrow> MatchedRoute \<Rightarrow> string
    \<Rightarrow> 'w consumer_state \<Rightarrow> 'w consumer_state" where
  "sendAndRecord opts payload route groupKey st =
     (case findContactPointById (cs_notifications st) (mr_contactPointId route) of
        None \<Rightarrow> st
      | Some cp \<Rightarrow>
          (case integrationLoop opts payload (cp_id cp) (cp_integrations cp) False st of
             (anySent, st1) \<Rightarrow>
               if anySent
               then st1\<lparr>cs_dispatch := upsertSent (cs_dispatch st1) (co_newId opts (length (cs_dispatch st1))) (fe_orgId payload)
                          (fe_fingerprint payload) (mr_contactPointId route) groupKey (co_clock opts (cs_world st1)),
                        cs_sent := cs_sent st1 @ [\<lparr>se_key = (fe_orgId payload, fe_fingerprint payload, mr_contactPointId route, groupKey),
                          se_at = co_clock opts (cs_world st1)\<rparr>]\<rparr>
               else st1))"

definition dispatchToContactPoint :: "'w consumer_opts \<Rightarrow> AlertFiredEventPayload \<Rightarrow> MatchedRoute
    \<Rightarrow> 'w consumer_state \<Rightarrow> 'w consumer_state" where
  "dispatchToContactPoint opts payload route st =
     (let groupKey = computeGroupKey (mr_groupBy route) (fe_labels payload);
          now = co_clock opts (cs_world st);
          existing = findByKey (cs_dispatch st) (fe_orgId payload) (fe_fingerprint payload) (mr_contactPointId route) groupKey
      in case decideDispatch existing route now of
           SkipGroupWindow \<Rightarrow> st
         | SendNow \<Rightarrow> sendAndRecord opts payload route groupKey st)"

fun routeLoop :: "'w consumer_opts \<Rightarrow> AlertFiredEventPayload \<Rightarrow> MatchedRoute list \<Rightarrow> 'w consumer_state \<Rightarrow> 'w consumer_state" where
  "routeLoop opts payload [] st = st"
| "routeLoop opts payload (r # rs) st = routeLoop opts payload rs (dispatchToContactPoint opts payload r st)"

text \<open>The routes without a contact point dropped, one route kept per contact point.\<close>

definition uniqueRoutes :: "MatchedRoute list \<Rightarrow> MatchedRoute list" where
  "uniqueRoutes routes = dedup_by mr_contactPointId [] (filter (\<lambda>r. mr_contactPointId r \<noteq> []) routes)"

definition handle :: "'w consumer_opts \<Rightarrow> AlertFiredEventPayload \<Rightarrow> 'w consumer_state \<Rightarrow> 'w consumer_state" where
  "handle opts payload st =
     (case collectMatchingRoutes (co_regex opts) (getPolicyTree (cs_notifications st) (co_clock opts (cs_world st))) (fe_labels payload) of
        None \<Rightarrow> st
      | Some routes \<Rightarrow> routeLoop opts payload (uniqueRoutes routes) st)"

text \<open>The routes of the teams of the users found, one per contact point over all of them.\<close>

fun teamRoutes :: "regex \<Rightarrow> NotificationPolicyNode \<Rightarrow> TeamMember list \<Rightarrow> MatchedRoute list option" where
  "teamRoutes re tree [] = Some []"
| "teamRoutes re tree (m # ms) =
     (case collectMatchingRoutes re tree [(''team'', tm_teamId m)] of
        None \<Rightarrow> None
      | Some rs \<Rightarrow> map_option ((@) rs) (teamRoutes re tree ms))"

definition approvalLabels :: "ApprovalCreatedEventPayload \<Rightarrow> labels" where
  "approvalLabels p = [(''approvalId'', ce_approvalId p)]
     @ (if truthy (ce_opsConnectorId p) then [(''connector'', the (ce_opsConnectorId p))] else [])
     @ (if truthy (ce_targetNamespace p) then [(''namespace'', the (ce_targetNamespace p))] else [])
     @ (if truthy (ce_requesterTeamId p) then [(''team'', the (ce_requesterTeamId p))] else [])"

definition adaptedPayload :: "ApprovalCreatedEventPayload \<Rightarrow> AlertFiredEventPayload" where
  "adaptedPayload p = \<lparr>fe_ruleId = ce_approvalId p, fe_ruleName = ''Approval pending: '' @ ce_summary p, fe_orgId = ce_orgId p,
     fe_severity = or_default (ce_severity p) SevMedium, fe_value = 0, fe_threshold = 0, fe_operator = ''pending'',
     fe_labels = approvalLabels p, fe_firedAt = ce_createdAt p, fe_fingerprint = ce_approvalId p\<rparr>"

definition createdRow :: "ApprovalCreatedEventPayload \<Rightarrow> ApprovalRow" where
  "createdRow p = \<lparr>row_id = ce_approvalId p, row_opsConnectorId = ce_opsConnectorId p,
     row_targetNamespace = ce_targetNamespace p, row_requesterTeamId = ce_requesterTeamId p\<rparr>"

definition approvalRoutes :: "regex \<Rightarrow> ApprovalRouterDeps \<Rightarrow> NotificationPolicyNode \<Rightarrow> ApprovalCreatedEventPayload \<Rightarrow> MatchedRoute list option" where
  "approvalRoutes re router tree p =
     map_option uniqueRoutes (teamRoutes re tree
       (concat (map (\<lambda>u. listTeamsForUser (rd_tables router) u (ce_orgId p)) (findApprovers router (ce_orgId p) (createdRow p)))))"

definition handleApprovalCreated :: "'w consumer_opts \<Rightarrow> ApprovalRouterDeps option \<Rightarrow> ApprovalCreatedEventPayload
    \<Rightarrow> 'w consumer_state \<Rightarrow> 'w consumer_state" where
  "handleApprovalCreated opts approvalRouter p st =
     (case approvalRouter of
        None \<Rightarrow> st
      | Some router \<Rightarrow>
          if length (findApprovers router (ce_orgId p) (createdRow p)) = 0 then st
          else (case approvalRoutes (co_regex opts) router (getPolicyTree (cs_notifications st) (co_clock opts (cs_world st))) p of
                  None \<Rightarrow> st
                | Some routes \<Rightarrow> routeLoop opts (adaptedPayload p) routes st))"

text \<open>The event the evaluator publishes when a rule fires; the fingerprint is a hash of the rule and
  its labels.\<close>

fun operatorName :: "AlertOperator \<Rightarrow> string" where
  "operatorName OpGt = ''>''"
| "operatorName OpGe = ''>=''"
| "operatorName OpLt = ''<''"
| "operatorName OpLe = ''<=''"
| "operatorName OpEq = ''==''"
| "operatorName OpNe = ''!=''"

definition busPayload :: "(string \<Rightarrow> labels \<Rightarrow> string) \<Rightarrow> string \<Rightarrow> AlertFiredPayload \<Rightarrow> AlertFiredEventPayload" where
  "busPayload computeAlertFingerprint orgId p =
     \<lparr>fe_ruleId = af_ruleId p, fe_ruleName = af_ruleName p, fe_orgId = orgId, fe_severity = af_severity p, fe_value = af_value p,
      fe_threshold = af_threshold p, fe_operator = operatorName (af_operator p), fe_labels = af_labels p,
      fe_firedAt = af_firedAt p, fe_fingerprint = computeAlertFingerprint (af_ruleId p) (af_labels p)\<rparr>"

subsection \<open>The publishing approval repository\<close>

definition deriveSummary :: "ApprovalAction \<Rightarrow> ApprovalContext \<Rightarrow> string" where
  "deriveSummary action ctx =
     (case json_str (prop_of ctx ''reason'') of
        Some r \<Rightarrow> if length r > 0 then r else aa_type action @ '' on '' @ aa_targetService action
      | None \<Rightarrow> aa_type action @ '' on '' @ aa_targetService action)"

definition derivePlanId :: "ApprovalAction \<Rightarrow> ApprovalContext \<Rightarrow> string option" where
  "derivePlanId action ctx =
     (if aa_type action = ''plan'' then json_str (prop_of (aa_params action) ''planId'')
      else json_str (prop_of ctx ''planId''))"

text \<open>\<open>submit\<close> stores the request and then publishes the event; a bus that fails to publish does
  not undo the row.\<close>

definition publishingSubmit :: "string \<Rightarrow> int \<Rightarrow> string \<Rightarrow> approval_store \<Rightarrow> SubmitParams
    \<Rightarrow> ApprovalRequest \<times> approval_store \<times> ApprovalCreatedEventPayload" where
  "publishingSubmit orgId now genId st ps =
     (case approvalSubmit now genId st ps of
        (row, st') \<Rightarrow> (row, st', \<lparr>ce_approvalId = ar_id row, ce_orgId = orgId, ce_planId = derivePlanId (sp_action ps) (sp_context ps),
          ce_investigationId = json_str (prop_of (sp_context ps) ''investigationId''), ce_opsConnectorId = sp_opsConnectorId ps,
          ce_targetNamespace = sp_targetNamespace ps, ce_requesterTeamId = sp_requesterTeamId ps,
          ce_summary = deriveSummary (sp_action ps) (sp_context ps), ce_severity = None, ce_createdAt = ar_createdAt row\<rparr>))"

subsection \<open>Specification vocabulary\<close>

text \<open>A node's matchers accept the labels, and the loop over its siblings ends with it.\<close>

definition accepts :: "regex \<Rightarrow> labels \<Rightarrow> NotificationPolicyNode \<Rightarrow> bool" where
  "accepts re ls c \<longleftrightarrow> matchersMatch re ls (nn_matchers (nn_fields c)) = Some True"

definition ends :: "NotificationPolicyNode \<Rightarrow> bool" where
  "ends c \<longleftrightarrow> nn_continueMatching (nn_fields c) \<noteq> Some True"

text \<open>A child is considered when it accepts and no earlier sibling accepted and ended the loop.\<close>

definition considered :: "regex \<Rightarrow> labels \<Rightarrow> NotificationPolicyNode list \<Rightarrow> NotificationPolicyNode \<Rightarrow> bool" where
  "considered re ls cs c \<longleftrightarrow>
     (\<exists>pre post. cs = pre @ c # post \<and> accepts re ls c \<and> (\<forall>d\<in>set pre. \<not> (accepts re ls d \<and> ends d)))"

text \<open>The routes the policy tree selects: every considered node on every path, and the default node
  where no child accepts.\<close>

inductive delivers :: "regex \<Rightarrow> labels \<Rightarrow> NotificationPolicyNode \<Rightarrow> MatchedRoute \<Rightarrow> bool" for re ls where
  dl_child: "considered re ls cs c \<Longrightarrow> delivers re ls (PolicyNode f cs) (toRoute (nn_fields c))"
| dl_below: "considered re ls cs c \<Longrightarrow> delivers re ls c r \<Longrightarrow> delivers re ls (PolicyNode f cs) r"
| dl_default: "\<forall>c\<in>set cs. \<not> accepts re ls c \<Longrightarrow> nn_isDefault f = Some True \<Longrightarrow> nn_contactPointId f \<noteq> []
    \<Longrightarrow> delivers re ls (PolicyNode f cs) (toRoute f)"

inductive_simps delivers_node: "delivers re ls (PolicyNode f cs) r"

section \<open>Routing lemmas\<close>

lemma considered_Nil: "\<not> considered re ls [] c"
  by (simp add: considered_def)

lemma considered_Cons:
  "considered re ls (d # cs) c \<longleftrightarrow>
     (c = d \<and> accepts re ls d) \<or> (\<not> (accepts re ls d \<and> ends d) \<and> considered re ls cs c)"
proof
  show "considered re ls (d # cs) c \<Longrightarrow> (c = d \<and> accepts re ls d) \<or> (\<not> (accepts re ls d \<and> ends d) \<and> considered re ls cs c)"
    unfolding considered_def by (auto simp: Cons_eq_append_conv)
next
  assume "(c = d \<and> accepts re ls d) \<or> (\<not> (accepts re ls d \<and> ends d) \<and> considered re ls cs c)"
  then show "considered re ls (d # cs) c"
  proof
    assume "c = d \<and> accepts re ls d"
    then show ?thesis unfolding considered_def by (intro exI [of _ "[]"] exI [of _ cs]) simp
  next
    assume h: "\<not> (accepts re ls d \<and> ends d) \<and> considered re ls cs c"
    then obtain pre post where "cs = pre @ c # post" "accepts re ls c" "\<forall>d\<in>set pre. \<not> (accepts re ls d \<and> ends d)"
      unfolding considered_def by blast
    then show ?thesis using h unfolding considered_def by (intro exI [of _ "d # pre"] exI [of _ post]) simp
  qed
qed

text \<open>What the walk appends.\<close>

definition childRoutes :: "regex \<Rightarrow> labels \<Rightarrow> NotificationPolicyNode list \<Rightarrow> MatchedRoute set" where
  "childRoutes re ls cs = {r. \<exists>c. considered re ls cs c \<and> (r = toRoute (nn_fields c) \<or> delivers re ls c r)}"

lemma childRoutes_Cons:
  "childRoutes re ls (d # cs) = (if accepts re ls d then insert (toRoute (nn_fields d)) {r. delivers re ls d r} else {})
     \<union> (if accepts re ls d \<and> ends d then {} else childRoutes re ls cs)"
  by (auto simp: childRoutes_def considered_Cons)

lemma childRoutes_none: "\<forall>c\<in>set cs. \<not> accepts re ls c \<Longrightarrow> childRoutes re ls cs = {}"
  by (auto simp: childRoutes_def considered_def)

lemma delivers_eq:
  "{r. delivers re ls (PolicyNode f cs) r} = childRoutes re ls cs
     \<union> (if (\<forall>c\<in>set cs. \<not> accepts re ls c) \<and> nn_isDefault f = Some True \<and> nn_contactPointId f \<noteq> [] then {toRoute f} else {})"
  by (auto simp: delivers_node childRoutes_def)

lemma walk_routes:
  "policyWalk re ls n out = Some (b, out') \<Longrightarrow> \<exists>new. out' = out @ new \<and> set new = {r. delivers re ls n r}"
  "childLoop re ls cs any out = Some (ret, any', out') \<Longrightarrow>
     (\<exists>new. out' = out @ new \<and> set new = childRoutes re ls cs)
     \<and> (any' \<longleftrightarrow> any \<or> (\<exists>c\<in>set cs. accepts re ls c)) \<and> (ret \<longrightarrow> (\<exists>c\<in>set cs. accepts re ls c))"
proof (induction re ls n out and re ls cs any out arbitrary: b out' and ret any' out' rule: policyWalk_childLoop.induct)
  case (1 re ls f cs out)
  then obtain ret any1 out1 where loop: "childLoop re ls cs False out = Some (ret, any1, out1)"
    by (auto split: option.splits)
  from "1.IH" [OF this] obtain new where new: "out1 = out @ new" "set new = childRoutes re ls cs"
    and any1: "any1 \<longleftrightarrow> (\<exists>c\<in>set cs. accepts re ls c)" and ret: "ret \<longrightarrow> (\<exists>c\<in>set cs. accepts re ls c)" by auto
  have "out' = out @ new @ (if \<not> any1 \<and> nn_isDefault f = Some True \<and> nn_contactPointId f \<noteq> [] then [toRoute f] else [])"
    using "1.prems" loop new(1) ret any1 by (auto split: if_splits)
  then show ?case unfolding delivers_eq using new(2) any1 by auto
next
  case (2 re ls any out)
  then show ?case by (simp add: childRoutes_def considered_Nil)
next
  case (3 re ls c cs any out)
  consider (skip) "matchersMatch re ls (nn_matchers (nn_fields c)) = Some False" "childLoop re ls cs any out = Some (ret, any', out')"
    | (go) b1 out1 where "matchersMatch re ls (nn_matchers (nn_fields c)) = Some True"
        "policyWalk re ls c (out @ [toRoute (nn_fields c)]) = Some (b1, out1)"
        "if ends c then ret \<and> any' \<and> out' = out1 else childLoop re ls cs True out1 = Some (ret, any', out')"
    using "3.prems" by (auto simp: ends_def split: option.splits bool.splits if_splits)
  then show ?case
  proof cases
    case skip
    from "3.IH"(3) [OF skip(1) _ skip(2)] skip(1) show ?thesis by (auto simp: childRoutes_Cons accepts_def)
  next
    case go
    from "3.IH"(1) [OF go(1) _ go(2)] obtain new1 where new1: "out1 = out @ toRoute (nn_fields c) # new1" "set new1 = {r. delivers re ls c r}"
      by auto
    show ?thesis
    proof (cases "ends c")
      case True
      then show ?thesis using go new1 by (auto simp: childRoutes_Cons accepts_def)
    next
      case False
      then have c: "nn_continueMatching (nn_fields c) = Some True" and l: "childLoop re ls cs True out1 = Some (ret, any', out')"
        using go(3) by (auto simp: ends_def)
      from "3.IH"(2) [OF go(1) _ go(2) refl] c l
      obtain new2 where "out' = out1 @ new2" "set new2 = childRoutes re ls cs" "any'" by auto
      then show ?thesis using new1 go(1) False by (auto simp: childRoutes_Cons accepts_def)
    qed
  qed
qed

lemma matcher_total: "\<forall>p v. re p v \<noteq> None \<Longrightarrow> \<exists>b. matcherHolds re ls m = Some b"
  by (auto simp: matcherHolds_def Let_def)

lemma matchers_total:
  assumes "\<forall>p v. re p v \<noteq> None"
  shows "\<exists>b. matchersMatch re ls ms = Some b"
proof (induction ms)
  case (Cons m ms)
  obtain b where "matcherHolds re ls m = Some b" using matcher_total [OF assms] by blast
  then show ?case using Cons.IH by (cases b) auto
qed auto

lemma walk_total:
  "\<forall>p v. re p v \<noteq> None \<Longrightarrow> \<exists>b out'. policyWalk re ls n out = Some (b, out')"
  "\<forall>p v. re p v \<noteq> None \<Longrightarrow> \<exists>ret any' out'. childLoop re ls cs any out = Some (ret, any', out')"
proof (induction re ls n out and re ls cs any out rule: policyWalk_childLoop.induct)
  case (1 re ls f cs out)
  then obtain ret any1 out1 where "childLoop re ls cs False out = Some (ret, any1, out1)" by blast
  then show ?case by (cases ret) auto
next
  case (2 re ls any out)
  show ?case by (intro exI [of _ False] exI [of _ any] exI [of _ out]) simp
next
  case (3 re ls c cs any out)
  obtain m where m: "matchersMatch re ls (nn_matchers (nn_fields c)) = Some m" using matchers_total [OF "3.prems"] by blast
  show ?case
  proof (cases m)
    case True
    from "3.IH"(1) [OF m eqTrueI [OF True] "3.prems"] obtain b1 out1 where w: "policyWalk re ls c (out @ [toRoute (nn_fields c)]) = Some (b1, out1)" by blast
    show ?thesis
    proof (cases "nn_continueMatching (nn_fields c) = Some True")
      case go: True
      then show ?thesis using "3.IH"(2) [OF m eqTrueI [OF True] w refl _ "3.prems"] m True w by simp
    next
      case False
      then show ?thesis using m True w by auto
    qed
  next
    case False
    then show ?thesis using "3.IH"(3) [OF m _ "3.prems"] m by simp
  qed
qed


definition exNode :: "string \<Rightarrow> Matcher list \<Rightarrow> bool option \<Rightarrow> PolicyFields" where
  "exNode cp ms go = \<lparr>nn_id = cp, nn_matchers = ms, nn_contactPointId = cp, nn_groupBy = None, nn_groupWaitSec = None,
     nn_groupIntervalSec = None, nn_repeatIntervalSec = None, nn_continueMatching = go, nn_muteTimingIds = None,
     nn_isDefault = None, nn_createdAt = 0, nn_updatedAt = 0\<rparr>"

definition exTeam :: "string \<Rightarrow> Matcher" where
  "exTeam t = \<lparr>ma_label = ''team'', ma_operator = ''='', ma_value = t\<rparr>"

definition exTree :: NotificationPolicyNode where
  "exTree = PolicyNode ((exNode ''ops'' [] None)\<lparr>nn_isDefault := Some True\<rparr>)
     [PolicyNode (exNode ''sre'' [exTeam ''sre''] (Some True)) [PolicyNode (exNode ''sre-chat'' [] None) []],
      PolicyNode (exNode ''db'' [exTeam ''db''] None) []]"

definition exRegex :: regex where
  "exRegex p v = Some (p = v)"


section \<open>The pace of notifications\<close>

text \<open>
  What the consumer relies on: a table that remembers, for every key, when it was last written
  and how often. A log of the writes that keeps a distance between the writes of a key agrees
  with the table, and stays so with one more write at a distance from what the table remembers.
\<close>

definition timesOf :: "'k \<Rightarrow> ('k \<times> int) list \<Rightarrow> int list" where
  "timesOf k writes = map snd (filter (\<lambda>(k', t). k' = k) writes)"

lemma timesOf_snoc: "timesOf k (writes @ [(k', t)]) = timesOf k writes @ (if k' = k then [t] else [])"
  by (simp add: timesOf_def)

definition spaced :: "int \<Rightarrow> ('k \<times> int) list \<Rightarrow> bool" where
  "spaced gap writes \<longleftrightarrow> (\<forall>k. sorted_wrt (\<lambda>a b. a + gap \<le> b) (timesOf k writes))"

locale dispatch_contract =
  fixes ok :: "'d \<Rightarrow> bool"
    and seek :: "'d \<Rightarrow> 'k \<Rightarrow> (int \<times> nat) option"
    and put :: "'d \<Rightarrow> 'k \<Rightarrow> int \<Rightarrow> 'd"
  assumes put_ok: "ok d \<Longrightarrow> ok (put d k t)"
    and seek_put: "ok d \<Longrightarrow> seek (put d k t) k' =
      (if k' = k then Some (t, case seek d k of None \<Rightarrow> 1 | Some (_, n) \<Rightarrow> n + 1) else seek d k')"
begin

definition agrees :: "'d \<Rightarrow> ('k \<times> int) list \<Rightarrow> bool" where
  "agrees d writes \<longleftrightarrow>
     (\<forall>k. case seek d k of None \<Rightarrow> timesOf k writes = []
          | Some (t, n) \<Rightarrow> n = length (timesOf k writes) \<and> timesOf k writes \<noteq> [] \<and> last (timesOf k writes) = t)"

lemma agrees_put:
  assumes "ok d" "agrees d writes"
  shows "agrees (put d k t) (writes @ [(k, t)])"
proof -
  have "case seek (put d k t) k' of None \<Rightarrow> timesOf k' (writes @ [(k, t)]) = []
      | Some (t', n) \<Rightarrow> n = length (timesOf k' (writes @ [(k, t)])) \<and> timesOf k' (writes @ [(k, t)]) \<noteq> []
          \<and> last (timesOf k' (writes @ [(k, t)])) = t'" for k'
    using assms(2) [unfolded agrees_def, THEN spec, of k'] seek_put [OF assms(1), of k t k']
    by (cases "k' = k") (auto simp: timesOf_snoc split: option.splits)
  then show ?thesis unfolding agrees_def by blast
qed

lemma spaced_put:
  assumes "agrees d writes" "spaced gap writes" "0 \<le> gap"
    and "\<And>l n. seek d k = Some (l, n) \<Longrightarrow> l + gap \<le> t"
  shows "spaced gap (writes @ [(k, t)])"
proof -
  have "a + gap \<le> t" if a: "a \<in> set (timesOf k writes)" for a
  proof -
    obtain l n where s: "seek d k = Some (l, n)" "last (timesOf k writes) = l"
      using assms(1) [unfolded agrees_def, THEN spec, of k] a by (cases "seek d k") auto
    have "sorted_wrt (\<lambda>a b. a + gap \<le> b) (butlast (timesOf k writes) @ [l])"
      using assms(2) s(2) a by (metis append_butlast_last_id empty_iff empty_set spaced_def)
    moreover have "a \<in> set (butlast (timesOf k writes)) \<or> a = l"
      using a s(2) by (metis append_butlast_last_id empty_iff empty_set rotate1.simps(2) set_ConsD set_rotate1)
    ultimately have "a \<le> l" using assms(3) by (force simp: sorted_wrt_append)
    then show ?thesis using assms(4) [OF s(1)] by linarith
  qed
  then show ?thesis using assms(2) by (auto simp: spaced_def timesOf_snoc sorted_wrt_append)
qed

end

subsection \<open>The dispatch table keeps the contract\<close>

type_synonym dispatch_key = "string \<times> string \<times> string \<times> string"

definition rowKey :: "NotificationDispatchRow \<Rightarrow> dispatch_key" where
  "rowKey r = (dr_orgId r, dr_fingerprint r, dr_contactPointId r, dr_groupKey r)"

definition seekRow :: "NotificationDispatchRow list \<Rightarrow> dispatch_key \<Rightarrow> (int \<times> nat) option" where
  "seekRow rows k = (case k of (og, fp, cp, gk) \<Rightarrow>
     map_option (\<lambda>r. (dr_lastSentAt r, dr_sentCount r)) (findByKey rows og fp cp gk))"

definition writeRow :: "(nat \<Rightarrow> string) \<Rightarrow> NotificationDispatchRow list \<Rightarrow> dispatch_key \<Rightarrow> int \<Rightarrow> NotificationDispatchRow list" where
  "writeRow newId rows k t = (case k of (og, fp, cp, gk) \<Rightarrow> upsertSent rows (newId (length rows)) og fp cp gk t)"

text \<open>Row ids are fresh (random identifiers do not repeat), and there is one row per key.\<close>

definition dispatchOk :: "(nat \<Rightarrow> string) \<Rightarrow> NotificationDispatchRow list \<Rightarrow> bool" where
  "dispatchOk newId rows \<longleftrightarrow> inj newId \<and> distinct (map rowKey rows) \<and> map dr_id rows = map newId [0..<length rows]"

lemma findByKey_iff:
  assumes "distinct (map rowKey rows)"
  shows "findByKey rows og fp cp gk = map_of (map (\<lambda>r. (rowKey r, r)) rows) (og, fp, cp, gk)"
  using assms
proof (induction rows)
  case (Cons r rows)
  have "hasKey og fp cp gk r \<longleftrightarrow> rowKey r = (og, fp, cp, gk)" by (auto simp: hasKey_def rowKey_def)
  then show ?case using Cons by (auto simp: findByKey_def)
qed (simp add: findByKey_def)

lemma rowKey_upd [simp]: "rowKey (r\<lparr>dr_lastSentAt := t, dr_sentCount := n\<rparr>) = rowKey r"
  by (simp add: rowKey_def)

lemma map_of_keyed_update:
  assumes "\<And>r. key (f r) = key r"
  shows "map_of (map (\<lambda>r. (key r, r)) (map (\<lambda>r. if key r = k then f r else r) rows)) k'
    = (if k' = k then map_option f (map_of (map (\<lambda>r. (key r, r)) rows) k) else map_of (map (\<lambda>r. (key r, r)) rows) k')"
  by (induction rows) (auto simp: assms)

lemma writeRow_hit:
  assumes "dispatchOk newId rows" "findByKey rows og fp cp gk = Some r"
  shows "writeRow newId rows (og, fp, cp, gk) t
    = map (\<lambda>x. if rowKey x = (og, fp, cp, gk) then x\<lparr>dr_lastSentAt := t, dr_sentCount := dr_sentCount r + 1\<rparr> else x) rows"
proof -
  have d: "distinct (map rowKey rows)" "distinct (map dr_id rows)"
    using assms(1) by (auto simp: dispatchOk_def distinct_map inj_on_def)
  have r: "r \<in> set rows" "rowKey r = (og, fp, cp, gk)"
    using assms(2) findByKey_iff [OF d(1)] by (auto dest!: map_of_SomeD)
  have "dr_id x = dr_id r \<longleftrightarrow> rowKey x = (og, fp, cp, gk)" if "x \<in> set rows" for x
    using that r d by (metis distinct_map inj_onD)
  then show ?thesis using assms(2) by (simp add: writeRow_def upsertSent_def cong: map_cong)
qed

lemma writeRow_ok:
  assumes "dispatchOk newId rows"
  shows "dispatchOk newId (writeRow newId rows k t)"
proof -
  obtain og fp cp gk where k: "k = (og, fp, cp, gk)" by (cases k)
  show ?thesis
  proof (cases "findByKey rows og fp cp gk")
    case None
    have d: "distinct (map rowKey rows)" using assms by (simp add: dispatchOk_def)
    have "k \<notin> rowKey ` set rows"
      using None findByKey_iff [OF d] by (auto simp: k map_of_eq_None_iff image_image)
    then show ?thesis using assms None by (simp add: k writeRow_def upsertSent_def dispatchOk_def) (simp add: rowKey_def)
  next
    case (Some r)
    have "map rowKey (writeRow newId rows k t) = map rowKey rows" "map dr_id (writeRow newId rows k t) = map dr_id rows"
      "length (writeRow newId rows k t) = length rows"
      unfolding k writeRow_hit [OF assms Some] by (simp_all add: comp_def if_distrib cong: if_cong)
    then show ?thesis using assms by (simp add: dispatchOk_def)
  qed
qed

lemma seek_writeRow:
  assumes "dispatchOk newId rows"
  shows "seekRow (writeRow newId rows k t) k' =
    (if k' = k then Some (t, case seekRow rows k of None \<Rightarrow> 1 | Some (_, n) \<Rightarrow> n + 1) else seekRow rows k')"
proof -
  obtain og fp cp gk where k: "k = (og, fp, cp, gk)" by (cases k)
  have d: "distinct (map rowKey rows)" "distinct (map rowKey (writeRow newId rows k t))"
    using assms writeRow_ok [OF assms] by (auto simp: dispatchOk_def)
  have seek: "seekRow rs q = map_option (\<lambda>r. (dr_lastSentAt r, dr_sentCount r)) (map_of (map (\<lambda>r. (rowKey r, r)) rs) q)"
    if "distinct (map rowKey rs)" for rs q
    using findByKey_iff [OF that] by (cases q) (simp add: seekRow_def)
  show ?thesis
  proof (cases "findByKey rows og fp cp gk")
    case None
    then have "map_of (map (\<lambda>r. (rowKey r, r)) rows) k = None" using findByKey_iff [OF d(1)] k by simp
    then show ?thesis using None unfolding seek [OF d(2)] seek [OF d(1)]
      by (auto simp: k writeRow_def upsertSent_def rowKey_def map_add_def split: option.splits)
  next
    case (Some r)
    then have "map_of (map (\<lambda>r. (rowKey r, r)) rows) k = Some r" using findByKey_iff [OF d(1)] k by simp
    moreover have "writeRow newId rows k t
        = map (\<lambda>x. if rowKey x = k then x\<lparr>dr_lastSentAt := t, dr_sentCount := dr_sentCount r + 1\<rparr> else x) rows"
      using writeRow_hit [OF assms Some] k by simp
    ultimately show ?thesis unfolding seek [OF d(2)] seek [OF d(1)]
      by (simp add: map_of_keyed_update del: map_map)
  qed
qed

interpretation dispatch: dispatch_contract "dispatchOk newId" seekRow "writeRow newId" for newId
  by unfold_locales (simp_all add: writeRow_ok seek_writeRow)

subsection \<open>Runs of the consumer\<close>

text \<open>Time does not run backwards while a sender works.\<close>

definition clockForward :: "'w consumer_opts \<Rightarrow> bool" where
  "clockForward opts \<longleftrightarrow> (\<forall>ty s i p w. co_senders opts ty = Some s \<longrightarrow> co_clock opts w \<le> co_clock opts (snd (s i p w)))"

text \<open>Both intervals of every node, given or defaulted, are at least \<open>g\<close> seconds.\<close>

fun paced :: "int \<Rightarrow> NotificationPolicyNode \<Rightarrow> bool" where
  "paced g (PolicyNode f cs) \<longleftrightarrow>
     g \<le> mr_groupIntervalSec (toRoute f) \<and> g \<le> mr_repeatIntervalSec (toRoute f) \<and> (\<forall>c\<in>set cs. paced g c)"

definition sentWrites :: "'w consumer_state \<Rightarrow> (dispatch_key \<times> int) list" where
  "sentWrites st = map (\<lambda>s. (se_key s, se_at s)) (cs_sent st)"

text \<open>Events are handled one after the other; in between time passes and the configuration may change
  in any way.\<close>

inductive consumer_step :: "'w consumer_opts \<Rightarrow> ApprovalRouterDeps option \<Rightarrow> int \<Rightarrow> 'w consumer_state \<Rightarrow> 'w consumer_state \<Rightarrow> bool"
  for opts router g where
  ns_alert: "\<forall>now. paced g (getPolicyTree (cs_notifications st) now) \<Longrightarrow> consumer_step opts router g st (handle opts payload st)"
| ns_approval: "\<forall>now. paced g (getPolicyTree (cs_notifications st) now)
    \<Longrightarrow> consumer_step opts router g st (handleApprovalCreated opts router p st)"
| ns_other: "co_clock opts (cs_world st) \<le> co_clock opts w
    \<Longrightarrow> consumer_step opts router g st (st\<lparr>cs_world := w, cs_notifications := db\<rparr>)"

definition consumer_init :: "'w consumer_opts \<Rightarrow> int \<Rightarrow> 'w consumer_state \<Rightarrow> bool" where
  "consumer_init opts g st \<longleftrightarrow> clockForward opts \<and> inj (co_newId opts) \<and> 0 \<le> g \<and> cs_dispatch st = [] \<and> cs_sent st = []"

definition consumerInv :: "'w consumer_opts \<Rightarrow> int \<Rightarrow> 'w consumer_state \<Rightarrow> bool" where
  "consumerInv opts g st \<longleftrightarrow> clockForward opts \<and> 0 \<le> g \<and> dispatchOk (co_newId opts) (cs_dispatch st)
     \<and> dispatch_contract.agrees seekRow (cs_dispatch st) (sentWrites st) \<and> spaced (g * 1000) (sentWrites st)"

lemma delivers_paced:
  "delivers re ls n r \<Longrightarrow> paced g n \<Longrightarrow> g \<le> mr_groupIntervalSec r \<and> g \<le> mr_repeatIntervalSec r"
proof (induction rule: delivers.induct)
  case (dl_child cs c f)
  then have "paced g c" by (auto simp: considered_def)
  then show ?case by (cases c) simp
next
  case (dl_below cs c r f)
  then show ?case by (auto simp: considered_def)
qed simp

lemma loop_frame:
  assumes "clockForward opts" "integrationLoop opts payload cpId is anySent st = (sent, st')"
  shows "cs_notifications st' = cs_notifications st \<and> cs_dispatch st' = cs_dispatch st \<and> cs_sent st' = cs_sent st
    \<and> co_clock opts (cs_world st) \<le> co_clock opts (cs_world st')"
  using assms(2)
proof (induction "is" arbitrary: anySent st)
  case (Cons i "is")
  show ?case
  proof (cases "co_senders opts (ci_type i)")
    case None
    then show ?thesis using Cons by simp
  next
    case (Some s)
    obtain res w where w: "s i payload (cs_world st) = (res, w)" by fastforce
    have "co_clock opts (cs_world st) \<le> co_clock opts w"
      using assms(1) Some w unfolding clockForward_def by (metis snd_conv)
    with Cons.IH Cons.prems Some w show ?thesis by fastforce
  qed
qed simp

text \<open>The two intervals work as one: after a recorded send the next is due when the smaller of them is
  over, so that a repeat interval longer than the group interval has no effect.\<close>

lemma decideDispatch_min:
  assumes "dr_sentCount row > 0"
  shows "decideDispatch (Some row) route now = SendNow \<longleftrightarrow>
    min (mr_groupIntervalSec route) (mr_repeatIntervalSec route) * 1000 \<le> now - dr_lastSentAt row"
  using assms by (auto simp: decideDispatch_def Let_def min_def)

text \<open>One dispatch keeps the table, the log and the distances.\<close>

lemma dispatch_inv:
  assumes "consumerInv opts g st" "g \<le> mr_groupIntervalSec route" "g \<le> mr_repeatIntervalSec route"
  shows "consumerInv opts g (dispatchToContactPoint opts payload route st)"
proof -
  let ?gk = "computeGroupKey (mr_groupBy route) (fe_labels payload)"
  let ?k = "(fe_orgId payload, fe_fingerprint payload, mr_contactPointId route, ?gk)"
  let ?now = "co_clock opts (cs_world st)"
  have inv: "clockForward opts" "0 \<le> g" "dispatchOk (co_newId opts) (cs_dispatch st)"
    "dispatch_contract.agrees seekRow (cs_dispatch st) (sentWrites st)" "spaced (g * 1000) (sentWrites st)"
    using assms(1) by (auto simp: consumerInv_def)
  show ?thesis
  proof (cases "decideDispatch (findByKey (cs_dispatch st) (fe_orgId payload) (fe_fingerprint payload) (mr_contactPointId route) ?gk) route ?now")
    case SkipGroupWindow
    then show ?thesis using assms(1) by (simp add: dispatchToContactPoint_def Let_def)
  next
    case SendNow
    have wait: "l + g * 1000 \<le> ?now" if "seekRow (cs_dispatch st) ?k = Some (l, n)" for l n
      using that SendNow assms(2,3) by (auto simp: seekRow_def decideDispatch_def Let_def split: if_splits)
    show ?thesis
    proof (cases "findContactPointById (cs_notifications st) (mr_contactPointId route)")
      case None
      then show ?thesis using SendNow assms(1) by (simp add: dispatchToContactPoint_def sendAndRecord_def Let_def)
    next
      case (Some cp)
      obtain sent st1 where loop: "integrationLoop opts payload (cp_id cp) (cp_integrations cp) False st = (sent, st1)" by fastforce
      note frame = loop_frame [OF inv(1) loop]
      let ?t = "co_clock opts (cs_world st1)"
      have "dispatch_contract.agrees seekRow (writeRow (co_newId opts) (cs_dispatch st) ?k ?t) (sentWrites st @ [(?k, ?t)])"
        by (rule dispatch.agrees_put [OF inv(3,4)])
      moreover have "spaced (g * 1000) (sentWrites st @ [(?k, ?t)])"
        by (rule dispatch.spaced_put [OF inv(4,5)]) (use inv(2) wait frame in force)+
      moreover have "dispatchToContactPoint opts payload route st = (if sent
          then st1\<lparr>cs_dispatch := writeRow (co_newId opts) (cs_dispatch st) ?k ?t, cs_sent := cs_sent st @ [\<lparr>se_key = ?k, se_at = ?t\<rparr>]\<rparr>
          else st1)"
        using SendNow Some loop frame by (simp add: dispatchToContactPoint_def sendAndRecord_def Let_def writeRow_def)
      ultimately show ?thesis using inv frame writeRow_ok [OF inv(3)]
        by (auto simp: consumerInv_def sentWrites_def)
    qed
  qed
qed

lemma routeLoop_inv:
  assumes "\<forall>r\<in>set routes. g \<le> mr_groupIntervalSec r \<and> g \<le> mr_repeatIntervalSec r" "consumerInv opts g st"
  shows "consumerInv opts g (routeLoop opts payload routes st)"
  using assms by (induction routes arbitrary: st) (auto simp: dispatch_inv)

lemma collect_delivers:
  "collectMatchingRoutes re tree ls = Some routes \<Longrightarrow> set routes = {r. delivers re ls tree r}"
  using walk_routes(1) [of re ls tree "[]"] by (auto simp: collectMatchingRoutes_def)

lemma uniqueRoutes_subset: "r \<in> set (uniqueRoutes routes) \<Longrightarrow> r \<in> set routes \<and> mr_contactPointId r \<noteq> []"
  using set_dedup_by_subset [of mr_contactPointId "[]" "filter (\<lambda>r. mr_contactPointId r \<noteq> []) routes"]
  by (auto simp: uniqueRoutes_def)

lemma teamRoutes_member:
  "teamRoutes re tree ms = Some routes \<Longrightarrow>
     r \<in> set routes \<longleftrightarrow> (\<exists>m\<in>set ms. delivers re [(''team'', tm_teamId m)] tree r)"
proof (induction ms arbitrary: routes)
  case (Cons m ms)
  then obtain rs rest where "collectMatchingRoutes re tree [(''team'', tm_teamId m)] = Some rs" "teamRoutes re tree ms = Some rest"
      "routes = rs @ rest" by (auto split: option.splits)
  then show ?case using Cons.IH [of rest] collect_delivers [of re tree "[(''team'', tm_teamId m)]" rs] by auto
qed simp

lemma approvalRoutes_member:
  assumes "approvalRoutes re router tree p = Some routes" "r \<in> set routes"
  shows "mr_contactPointId r \<noteq> [] \<and> (\<exists>u\<in>set (findApprovers router (ce_orgId p) (createdRow p)).
    \<exists>m\<in>set (listTeamsForUser (rd_tables router) u (ce_orgId p)). delivers re [(''team'', tm_teamId m)] tree r)"
proof -
  obtain all where all: "teamRoutes re tree (concat (map (\<lambda>u. listTeamsForUser (rd_tables router) u (ce_orgId p))
      (findApprovers router (ce_orgId p) (createdRow p)))) = Some all" "routes = uniqueRoutes all"
    using assms(1) by (auto simp: approvalRoutes_def)
  then show ?thesis using uniqueRoutes_subset [of r all] assms(2) teamRoutes_member [OF all(1), of r] by auto
qed

lemma consumer_step_inv:
  assumes "consumerInv opts g st" "consumer_step opts router g st st'"
  shows "consumerInv opts g st'"
  using assms(2)
proof cases
  case (ns_alert payload)
  let ?tree = "getPolicyTree (cs_notifications st) (co_clock opts (cs_world st))"
  have "\<forall>r\<in>set (uniqueRoutes routes). g \<le> mr_groupIntervalSec r \<and> g \<le> mr_repeatIntervalSec r"
    if "collectMatchingRoutes (co_regex opts) ?tree (fe_labels payload) = Some routes" for routes
    using uniqueRoutes_subset collect_delivers [OF that] delivers_paced ns_alert(2) by blast
  then show ?thesis using ns_alert(1) assms(1) routeLoop_inv by (auto simp: handle_def split: option.splits)
next
  case (ns_approval p)
  let ?tree = "getPolicyTree (cs_notifications st) (co_clock opts (cs_world st))"
  have "\<forall>r\<in>set routes. g \<le> mr_groupIntervalSec r \<and> g \<le> mr_repeatIntervalSec r"
    if "approvalRoutes (co_regex opts) rd ?tree p = Some routes" for rd routes
    using approvalRoutes_member [OF that] delivers_paced ns_approval(2) by blast
  then have "consumerInv opts g (routeLoop opts (adaptedPayload p) routes st)"
    if "approvalRoutes (co_regex opts) rd ?tree p = Some routes" for rd routes
    using routeLoop_inv [OF _ assms(1)] that by blast
  then show ?thesis using ns_approval(1) assms(1) by (auto simp: handleApprovalCreated_def split: option.splits)
next
  case (ns_other w db)
  then show ?thesis using assms(1) by (simp add: consumerInv_def sentWrites_def)
qed

interpretation consumer: step_system "consumer_init opts g" "consumer_step opts router g" "consumerInv opts g" for opts router g
proof
  fix s :: "'a consumer_state"
  assume "consumer_init opts g s"
  moreover have "dispatch_contract.agrees seekRow [] []"
    by (auto simp: dispatch.agrees_def seekRow_def findByKey_def js_at_def timesOf_def)
  ultimately show "consumerInv opts g s"
    by (simp add: consumer_init_def consumerInv_def dispatchOk_def sentWrites_def spaced_def timesOf_def)
qed (rule consumer_step_inv)


definition exSlack :: ContactPointIntegration where
  "exSlack = \<lparr>ci_id = ''i'', ci_type = ItSlack, ci_name = ''chat'', ci_settings = [], ci_disableResolveMessage = None\<rparr>"

definition exOpts :: "int consumer_opts" where
  "exOpts = \<lparr>co_regex = exRegex, co_senders = senderFor (\<lambda>i p w. (SenderOk, w + 5)) (\<lambda>i p w. (SenderFailed, w))
     (\<lambda>i p w. (SenderThrew, w)) (\<lambda>i p w. (SenderOk, w)), co_clock = (\<lambda>w. w), co_newId = (\<lambda>n. replicate n (CHR ''x''))\<rparr>"

definition exNotifications :: notification_db where
  "exNotifications = \<lparr>nd_contactPoints = [(''ops'', \<lparr>cp_id = ''ops'', cp_name = ''Ops'', cp_integrations = [exSlack], cp_createdAt = 0, cp_updatedAt = 0\<rparr>),
       (''sre'', \<lparr>cp_id = ''sre'', cp_name = ''SRE'', cp_integrations = [exSlack], cp_createdAt = 0, cp_updatedAt = 0\<rparr>)],
     nd_tree = Some exTree, nd_muteTimings = []\<rparr>"

definition exConsumer :: "int consumer_state" where
  "exConsumer = \<lparr>cs_notifications = exNotifications, cs_dispatch = [], cs_calls = [], cs_sent = [], cs_world = 0\<rparr>"

definition exFired :: AlertFiredEventPayload where
  "exFired = \<lparr>fe_ruleId = ''r'', fe_ruleName = ''cpu'', fe_orgId = ''org'', fe_severity = SevHigh, fe_value = 8, fe_threshold = 5,
     fe_operator = ''>'', fe_labels = [], fe_firedAt = 0, fe_fingerprint = ''f''\<rparr>"

definition exAt :: "int \<Rightarrow> int consumer_state \<Rightarrow> int consumer_state" where
  "exAt t st = handle exOpts exFired (st\<lparr>cs_world := t, cs_notifications := exNotifications\<rparr>)"

definition exThree :: "int consumer_state" where
  "exThree = exAt 400000 (exAt 200000 (exAt 0 exConsumer))"

lemma exAt_steps:
  assumes "cs_world st \<le> t"
  shows "(consumer_step exOpts router 300)\<^sup>*\<^sup>* st (exAt t st)"
proof -
  have "paced 300 exTree" by code_simp
  then have "\<forall>now. paced 300 (getPolicyTree (cs_notifications (st\<lparr>cs_world := t, cs_notifications := exNotifications\<rparr>)) now)"
    by (simp add: getPolicyTree_def exNotifications_def)
  from ns_alert [OF this] have "consumer_step exOpts router 300 (st\<lparr>cs_world := t, cs_notifications := exNotifications\<rparr>) (exAt t st)"
    by (simp add: exAt_def)
  moreover have "consumer_step exOpts router 300 st (st\<lparr>cs_world := t, cs_notifications := exNotifications\<rparr>)"
    by (rule ns_other) (simp add: exOpts_def assms)
  ultimately show ?thesis by (meson converse_rtranclp_into_rtranclp r_into_rtranclp)
qed


section \<open>Who hears of an approval\<close>

text \<open>The calls of a run of dispatches go to integrations of the contact points of its routes.\<close>

definition callOf :: "notification_db \<Rightarrow> MatchedRoute list \<Rightarrow> string \<times> string \<Rightarrow> bool" where
  "callOf db routes c \<longleftrightarrow> (\<exists>r\<in>set routes. \<exists>cp. findContactPointById db (mr_contactPointId r) = Some cp
     \<and> fst c = cp_id cp \<and> (\<exists>i\<in>set (cp_integrations cp). ci_id i = snd c))"

lemma loop_calls:
  assumes "integrationLoop opts payload cpId is anySent st = (sent, st')"
  shows "\<exists>new. cs_calls st' = cs_calls st @ new \<and> (\<forall>c\<in>set new. fst c = cpId \<and> (\<exists>i\<in>set is. ci_id i = snd c))
    \<and> cs_notifications st' = cs_notifications st"
  using assms
proof (induction "is" arbitrary: anySent st)
  case (Cons i "is")
  show ?case
  proof (cases "co_senders opts (ci_type i)")
    case None
    then have "integrationLoop opts payload cpId is anySent st = (sent, st')" using Cons.prems by simp
    from Cons.IH [OF this] show ?thesis by fastforce
  next
    case (Some s)
    obtain res w where w: "s i payload (cs_world st) = (res, w)" by fastforce
    have "integrationLoop opts payload cpId is (anySent \<or> res = SenderOk)
        (st\<lparr>cs_world := w, cs_calls := cs_calls st @ [(cpId, ci_id i)]\<rparr>) = (sent, st')"
      using Cons.prems Some w by simp
    from Cons.IH [OF this] show ?thesis by fastforce
  qed
qed simp

lemma dispatch_calls:
  "\<exists>new. cs_calls (dispatchToContactPoint opts payload r st) = cs_calls st @ new \<and> (\<forall>c\<in>set new. callOf (cs_notifications st) [r] c)
     \<and> cs_notifications (dispatchToContactPoint opts payload r st) = cs_notifications st"
proof (cases "findContactPointById (cs_notifications st) (mr_contactPointId r)")
  case None
  then show ?thesis by (auto simp: dispatchToContactPoint_def sendAndRecord_def Let_def split: DispatchDecision.splits)
next
  case (Some cp)
  obtain sent st1 where loop: "integrationLoop opts payload (cp_id cp) (cp_integrations cp) False st = (sent, st1)" by fastforce
  from loop_calls [OF loop] obtain new where "cs_calls st1 = cs_calls st @ new"
      "\<forall>c\<in>set new. fst c = cp_id cp \<and> (\<exists>i\<in>set (cp_integrations cp). ci_id i = snd c)"
      "cs_notifications st1 = cs_notifications st" by blast
  then show ?thesis using Some loop
    by (auto simp: callOf_def dispatchToContactPoint_def sendAndRecord_def Let_def split: DispatchDecision.splits)
qed

lemma routeLoop_calls:
  "\<exists>new. cs_calls (routeLoop opts payload routes st) = cs_calls st @ new \<and> (\<forall>c\<in>set new. callOf (cs_notifications st) routes c)"
proof (induction routes arbitrary: st)
  case (Cons r routes)
  from dispatch_calls [of opts payload r st] obtain new1 where
    n1: "cs_calls (dispatchToContactPoint opts payload r st) = cs_calls st @ new1" "\<forall>c\<in>set new1. callOf (cs_notifications st) [r] c"
      "cs_notifications (dispatchToContactPoint opts payload r st) = cs_notifications st" by blast
  from Cons.IH [of "dispatchToContactPoint opts payload r st"] obtain new2 where
    n2: "cs_calls (routeLoop opts payload (r # routes) st) = (cs_calls st @ new1) @ new2" "\<forall>c\<in>set new2. callOf (cs_notifications st) routes c"
    unfolding n1 routeLoop.simps by blast
  have "\<forall>c\<in>set (new1 @ new2). callOf (cs_notifications st) (r # routes) c"
    using n1(2) n2(2) by (auto simp: callOf_def)
  then show ?case using n2(1) by (intro exI [of _ "new1 @ new2"]) simp
qed simp

text \<open>An approval is announced only to teams with someone who may approve it. Every call that the
  handler of an approval event makes goes to the contact point of a route that the policy tree
  selects for a team, in the organisation of the approval, of some user; and that user's identity, if he is not
  a server administrator, passes the check of the approve route on the request's row.\<close>

theorem approval_notice_authorised:
  assumes "ad_resolvers deps = Some (\<lambda>og. resolve (rdeps og))" "ad_legacyAcl deps = None" "ad_tables deps = rd_tables rd"
    and "\<forall>q\<in>set (at_permissions (rd_tables rd)). CHR ''|'' \<notin> set (pe_action q)" "ce_orgId p \<noteq> []"
    and "teamsLocal (rd_tables rd) (ce_orgId p)" "namesReal (rd_tables rd) (ce_orgId p)" "orgSize rd (ce_orgId p) \<le> 10000"
    and "c \<in> set (drop (length (cs_calls st)) (cs_calls (handleApprovalCreated opts (Some rd) p st)))"
  shows "\<exists>r m now. delivers (co_regex opts) [(''team'', tm_teamId m)] (getPolicyTree (cs_notifications st) now) r
    \<and> callOf (cs_notifications st) [r] c
    \<and> m \<in> set (at_teamMembers (rd_tables rd)) \<and> tm_orgId m = ce_orgId p
    \<and> (\<forall>who. id_userId who = tm_userId m \<and> id_orgId who = ce_orgId p \<and> id_permissions who = None
         \<and> \<not> id_isServerAdmin who \<and> memberAs rd who
       \<longrightarrow> evalRowAccess deps (Some who) (fst (ensurePermissions (ad_tables deps) who)) ACTIONS_ApprovalsApprove (createdRow p))"
proof -
  let ?tree = "getPolicyTree (cs_notifications st) (co_clock opts (cs_world st))"
  obtain routes where routes: "approvalRoutes (co_regex opts) rd ?tree p = Some routes"
    and run: "handleApprovalCreated opts (Some rd) p st = routeLoop opts (adaptedPayload p) routes st"
    using assms(9) by (auto simp: handleApprovalCreated_def split: option.splits if_splits)
  obtain new where "cs_calls (routeLoop opts (adaptedPayload p) routes st) = cs_calls st @ new"
      "\<forall>c\<in>set new. callOf (cs_notifications st) routes c" using routeLoop_calls by blast
  then have "callOf (cs_notifications st) routes c" using assms(9) unfolding run by simp
  then obtain r where r: "r \<in> set routes" "callOf (cs_notifications st) [r] c" by (auto simp: callOf_def)
  from approvalRoutes_member [OF routes r(1)] obtain u m where u: "u \<in> set (findApprovers rd (ce_orgId p) (createdRow p))"
    "m \<in> set (listTeamsForUser (rd_tables rd) u (ce_orgId p))" "delivers (co_regex opts) [(''team'', tm_teamId m)] ?tree r" by blast
  have m: "m \<in> set (at_teamMembers (rd_tables rd))" "tm_orgId m = ce_orgId p" "tm_userId m = u"
    using u(2) assms(5) by (auto simp: listTeamsForUser_def)
  have "evalRowAccess deps (Some who) (fst (ensurePermissions (ad_tables deps) who)) ACTIONS_ApprovalsApprove (createdRow p)"
    if "id_userId who = tm_userId m" "id_orgId who = ce_orgId p" "id_permissions who = None" "\<not> id_isServerAdmin who" "memberAs rd who" for who
    using approver_search [OF assms(1-3) that(3) _ that(4) assms(4) that(5)] assms(5-8) that(1,2) u(1) m(3) by metis
  then show ?thesis using u(3) r(2) m by blast
qed

definition exCreated :: ApprovalCreatedEventPayload where
  "exCreated = \<lparr>ce_approvalId = ''ap'', ce_orgId = ''org'', ce_planId = None, ce_investigationId = None, ce_opsConnectorId = Some ''c'',
     ce_targetNamespace = None, ce_requesterTeamId = None, ce_summary = ''restart'', ce_severity = None, ce_createdAt = 0\<rparr>"

theorem approval_notice_authorised_witness:
  "cs_calls (handleApprovalCreated exOpts (Some exRouter) exCreated exConsumer) = [(''sre'', ''i'')]
   \<and> evalRowAccess (exDeps\<lparr>ad_tables := exApproverAuth\<rparr>) (Some exIdentity)
       (fst (ensurePermissions exApproverAuth exIdentity)) ACTIONS_ApprovalsApprove (createdRow exCreated)"
proof -
  let ?deps = "exDeps\<lparr>ad_tables := exApproverAuth\<rparr>"
  have res: "ad_resolvers ?deps = Some (\<lambda>og. resolve (repoDeps exTable og (\<lambda>_ _. Some ''b'') (\<lambda>_ _. None)))"
    and acl: "ad_legacyAcl ?deps = None" and tbl: "ad_tables ?deps = rd_tables exRouter" and t: "ad_tables ?deps = exApproverAuth"
    by (simp_all add: exDeps_def exRouter_def)
  have bars: "\<forall>q\<in>set (at_permissions (rd_tables exRouter)). CHR ''|'' \<notin> set (pe_action q)" by code_simp
  have conds: "ce_orgId exCreated \<noteq> []" "teamsLocal (rd_tables exRouter) (ce_orgId exCreated)"
    "namesReal (rd_tables exRouter) (ce_orgId exCreated)" "orgSize exRouter (ce_orgId exCreated) \<le> 10000" by code_simp+
  have calls: "cs_calls (handleApprovalCreated exOpts (Some exRouter) exCreated exConsumer) = [(''sre'', ''i'')]" by code_simp
  then have "(''sre'', ''i'') \<in> set (drop (length (cs_calls exConsumer)) (cs_calls (handleApprovalCreated exOpts (Some exRouter) exCreated exConsumer)))"
    by (simp add: exConsumer_def)
  from approval_notice_authorised [OF res acl tbl bars conds this] obtain m where
    m: "m \<in> set (at_teamMembers (rd_tables exRouter))" "tm_orgId m = ce_orgId exCreated"
    and pass: "\<And>who. id_userId who = tm_userId m \<Longrightarrow> id_orgId who = ce_orgId exCreated \<Longrightarrow> id_permissions who = None
      \<Longrightarrow> \<not> id_isServerAdmin who \<Longrightarrow> memberAs exRouter who \<Longrightarrow>
      evalRowAccess ?deps (Some who) (fst (ensurePermissions (ad_tables ?deps) who)) ACTIONS_ApprovalsApprove (createdRow exCreated)"
    by blast
  have "tm_userId m = ''u''" using m by (auto simp: exRouter_def exApproverAuth_def exCreated_def)
  moreover have "memberAs exRouter exIdentity" by (auto simp: memberAs_def exRouter_def exIdentity_def)
  ultimately show ?thesis using pass [of exIdentity] calls unfolding t by (simp add: exIdentity_def exCreated_def)
qed

text \<open>The event describes the stored row: the router looks for approvers of the row the routes check.\<close>

lemma published_row:
  assumes "publishingSubmit orgId now genId st ps = (row, st', p)"
  shows "createdRow p = requestRow row" "ce_orgId p = orgId" "approvalSubmit now genId st ps = (row, st')"
  using assms by (auto simp: publishingSubmit_def approvalSubmit_def createdRow_def requestRow_def Let_def)

end
