(* ===== verification/Secret_Box.thy ===== *)
theory Secret_Box
  imports Prelude "HOL-Library.Word"
begin

text \<open>
  Encryption of stored secrets (\<open>server-utils/src/crypto/secret-box.ts\<close>) and the envelope of
  connector secrets (\<open>sealConnectorSecret\<close> and \<open>openConnectorSecret\<close> of
  \<open>data-layer/src/repository/connector-shared.ts\<close>).

  Bytes are words of eight bits. The encodings of Node's \<open>Buffer\<close> that the code uses (hexadecimal,
  base 64, UTF-8 of the code units below 256) are written out. SHA-256, AES-256-GCM and the random
  initialisation vector are arguments; what is asked of the cipher is that decryption inverts
  encryption under the same key and vector, with a tag of 16 bytes.

  Results: opening a sealed secret gives back its bytes, whatever they are; a stored text of any
  other shape, vector or tag length is refused before the cipher is called.
\<close>

section \<open>Definitions\<close>

type_synonym byte = "8 word"

subsection \<open>Encodings of a buffer\<close>

definition charByte :: "char \<Rightarrow> byte" where
  "charByte c = of_nat (of_char c)"

definition byteChar :: "byte \<Rightarrow> char" where
  "byteChar b = char_of (unat b)"

text \<open>UTF-8 of a code unit below 256: one byte below 128, else two.\<close>

definition utf8Char :: "char \<Rightarrow> byte list" where
  "utf8Char c = (let n = (of_char c :: nat) in
     if n < 128 then [of_nat n] else [of_nat (192 + n div 64), of_nat (128 + n mod 64)])"

definition toUtf8 :: "string \<Rightarrow> byte list" where
  "toUtf8 s = concat (map utf8Char s)"

text \<open>Decoding; a byte that does not start a code unit below 256 is read as a question mark (in the
  source the replacement character, which is outside the range of \<open>char\<close>).\<close>

fun fromUtf8 :: "byte list \<Rightarrow> string" where
  "fromUtf8 [] = []"
| "fromUtf8 [a] = [if a < 128 then byteChar a else CHR ''?'']"
| "fromUtf8 (a # b # bs) =
     (if a < 128 then byteChar a # fromUtf8 (b # bs)
      else if (a = 194 \<or> a = 195) \<and> 128 \<le> b \<and> b < 192
      then char_of ((unat a - 192) * 64 + (unat b - 128)) # fromUtf8 bs
      else CHR ''?'' # fromUtf8 (b # bs))"

definition hexDigits :: string where
  "hexDigits = ''0123456789abcdef''"

definition hexOf :: "byte \<Rightarrow> string" where
  "hexOf b = [hexDigits ! (unat b div 16), hexDigits ! (unat b mod 16)]"

definition toHex :: "byte list \<Rightarrow> string" where
  "toHex bs = concat (map hexOf bs)"

definition hexValue :: "char \<Rightarrow> nat option" where
  "hexValue c = (let n = (of_char c :: nat) in
     if 48 \<le> n \<and> n \<le> 57 then Some (n - 48)
     else if 97 \<le> n \<and> n \<le> 102 then Some (n - 87)
     else if 65 \<le> n \<and> n \<le> 70 then Some (n - 55) else None)"

text \<open>Decoding stops at the first pair that is not hexadecimal and drops an odd digit.\<close>

fun fromHex :: "string \<Rightarrow> byte list" where
  "fromHex (a # b # cs) =
     (case (hexValue a, hexValue b) of (Some x, Some y) \<Rightarrow> of_nat (16 * x + y) # fromHex cs | _ \<Rightarrow> [])"
| "fromHex _ = []"

definition b64Digits :: string where
  "b64Digits = ''ABCDEFGHIJKLMNOPQRSTUVWXYZabcdefghijklmnopqrstuvwxyz0123456789+/''"

definition b64Digit :: "nat \<Rightarrow> char" where
  "b64Digit n = b64Digits ! n"

fun toBase64 :: "byte list \<Rightarrow> string" where
  "toBase64 [] = []"
| "toBase64 [a] = [b64Digit (unat a div 4), b64Digit (unat a mod 4 * 16), CHR ''='', CHR ''='']"
| "toBase64 [a, b] =
     [b64Digit (unat a div 4), b64Digit (unat a mod 4 * 16 + unat b div 16), b64Digit (unat b mod 16 * 4), CHR ''='']"
| "toBase64 (a # b # c # rest) =
     [b64Digit (unat a div 4), b64Digit (unat a mod 4 * 16 + unat b div 16),
      b64Digit (unat b mod 16 * 4 + unat c div 64), b64Digit (unat c mod 64)] @ toBase64 rest"

definition b64Value :: "char \<Rightarrow> nat option" where
  "b64Value c = (let n = (of_char c :: nat) in
     if 65 \<le> n \<and> n \<le> 90 then Some (n - 65)
     else if 97 \<le> n \<and> n \<le> 122 then Some (n - 71)
     else if 48 \<le> n \<and> n \<le> 57 then Some (n + 4)
     else if n = 43 \<or> n = 45 then Some 62
     else if n = 47 \<or> n = 95 then Some 63 else None)"

fun b64Bytes :: "nat list \<Rightarrow> byte list" where
  "b64Bytes (a # b # c # d # rest) =
     [of_nat (a * 4 + b div 16), of_nat (b mod 16 * 16 + c div 4), of_nat (c mod 4 * 64 + d)] @ b64Bytes rest"
| "b64Bytes [a, b, c] = [of_nat (a * 4 + b div 16), of_nat (b mod 16 * 16 + c div 4)]"
| "b64Bytes [a, b] = [of_nat (a * 4 + b div 16)]"
| "b64Bytes _ = []"

text \<open>Decoding skips padding and every other character outside the alphabet.\<close>

definition fromBase64 :: "string \<Rightarrow> byte list" where
  "fromBase64 s = b64Bytes (List.map_filter b64Value s)"

subsection \<open>The secret box\<close>

definition IV_BYTES :: nat where "IV_BYTES = 12"
definition TAG_BYTES :: nat where "TAG_BYTES = 16"
definition MIN_SECRET_LEN :: nat where "MIN_SECRET_LEN = 32"

datatype BoxError =
    EmptySecret
  | MalformedCiphertext
  | InvalidIvLength nat
  | InvalidTagLength nat
  | AuthenticationFailed
  | SecretKeyMissing
  | SecretKeyTooShort nat
  | UnsupportedKeyVersion int

text \<open>
  The primitives of \<open>node:crypto\<close>: the hash, encryption of a text under key and vector to cipher
  text and tag, and decryption, which fails when the tag does not fit.
\<close>

record crypto =
  cr_sha256 :: "byte list \<Rightarrow> byte list"
  cr_seal :: "byte list \<Rightarrow> byte list \<Rightarrow> byte list \<Rightarrow> byte list \<times> byte list"
  cr_open :: "byte list \<Rightarrow> byte list \<Rightarrow> byte list \<Rightarrow> byte list \<Rightarrow> byte list option"

definition deriveKey :: "crypto \<Rightarrow> string \<Rightarrow> byte list" where
  "deriveKey cr secret = cr_sha256 cr (toUtf8 secret)"

definition encrypt :: "crypto \<Rightarrow> byte list \<Rightarrow> string \<Rightarrow> string \<Rightarrow> BoxError + string" where
  "encrypt cr iv plaintext secret =
     (if secret = [] then Inl EmptySecret
      else case cr_seal cr (deriveKey cr secret) iv (toUtf8 plaintext) of
             (ct, tag) \<Rightarrow> Inr (join_with '':'' [toHex iv, toHex ct, toHex tag]))"

definition decrypt :: "crypto \<Rightarrow> string \<Rightarrow> string \<Rightarrow> BoxError + string" where
  "decrypt cr encoded secret =
     (case split_on (CHR '':'') encoded of
        [p0, p1, p2] \<Rightarrow>
          let iv = fromHex p0; ct = fromHex p1; tag = fromHex p2 in
          if length iv \<noteq> IV_BYTES then Inl (InvalidIvLength (length iv))
          else if length tag \<noteq> TAG_BYTES then Inl (InvalidTagLength (length tag))
          else (case cr_open cr (deriveKey cr secret) iv ct tag of
                  None \<Rightarrow> Inl AuthenticationFailed
                | Some bs \<Rightarrow> Inr (fromUtf8 bs))
      | _ \<Rightarrow> Inl MalformedCiphertext)"

text \<open>The environment is the value of \<open>SECRET_KEY\<close>.\<close>

definition resolveSecretKey :: "string option \<Rightarrow> BoxError + string" where
  "resolveSecretKey fromEnv =
     (case fromEnv of
        None \<Rightarrow> Inl SecretKeyMissing
      | Some k \<Rightarrow>
          if k = [] then Inl SecretKeyMissing
          else if length k < MIN_SECRET_LEN then Inl (SecretKeyTooShort (length k)) else Inr k)"

subsection \<open>Connector secrets\<close>

definition CONNECTOR_SECRET_PLAINTEXT_KEY_VERSION :: int where "CONNECTOR_SECRET_PLAINTEXT_KEY_VERSION = 1"
definition CONNECTOR_SECRET_KEY_VERSION :: int where "CONNECTOR_SECRET_KEY_VERSION = 2"

definition sealConnectorSecret :: "crypto \<Rightarrow> string option \<Rightarrow> byte list \<Rightarrow> byte list \<Rightarrow> BoxError + byte list" where
  "sealConnectorSecret cr env iv plaintext =
     (case resolveSecretKey env of
        Inl e \<Rightarrow> Inl e
      | Inr key \<Rightarrow>
          (case encrypt cr iv (toBase64 plaintext) key of
             Inl e \<Rightarrow> Inl e
           | Inr encoded \<Rightarrow> Inr (toUtf8 encoded)))"

definition openConnectorSecret :: "crypto \<Rightarrow> string option \<Rightarrow> byte list \<Rightarrow> int \<Rightarrow> BoxError + byte list" where
  "openConnectorSecret cr env stored keyVersion =
     (if keyVersion \<noteq> CONNECTOR_SECRET_KEY_VERSION then Inl (UnsupportedKeyVersion keyVersion)
      else case resolveSecretKey env of
             Inl e \<Rightarrow> Inl e
           | Inr key \<Rightarrow>
               (case decrypt cr (fromUtf8 stored) key of
                  Inl e \<Rightarrow> Inl e
                | Inr decoded \<Rightarrow> Inr (fromBase64 decoded)))"

section \<open>Lemmas\<close>

subsection \<open>Round trips of the encodings\<close>

lemma unat_byte: "unat (b :: byte) < 256"
  using unsigned_less [of b] by simp

lemma unat_of_nat_byte: "n < 256 \<Longrightarrow> unat (of_nat n :: byte) = n"
  by (simp add: unat_of_nat)

lemma hex_table: "map hexValue hexDigits = map Some [0..<16]" "length hexDigits = 16" "CHR '':'' \<notin> set hexDigits"
  by code_simp+

lemma b64_table: "map b64Value b64Digits = map Some [0..<64]" "length b64Digits = 64"
  by code_simp+

lemma below_16:
  assumes "n < 16"
  shows "hexValue (hexDigits ! n) = Some n" "hexDigits ! n \<noteq> CHR '':''"
  using assms arg_cong [OF hex_table(1), of "\<lambda>xs. xs ! n"] hex_table(2,3) nth_mem [of n hexDigits]
  by (simp_all del: nth_mem) metis

lemma below_64: "n < 64 \<Longrightarrow> b64Value (b64Digit n) = Some n"
  using arg_cong [OF b64_table(1), of "\<lambda>xs. xs ! n"] b64_table(2) by (simp add: b64Digit_def)

lemma pad_none: "b64Value CHR ''='' = None" by code_simp

lemma hex_roundtrip [simp]: "fromHex (toHex bs) = bs"
proof (induction bs)
  case (Cons b bs)
  have "unat b div 16 < 16" "unat b mod 16 < 16" using unat_byte [of b] by auto
  then show ?case using Cons by (simp add: toHex_def hexOf_def below_16 del: of_nat_add of_nat_mult)
qed (simp add: toHex_def)

lemma hex_no_colon: "CHR '':'' \<notin> set (toHex bs)"
proof -
  have "CHR '':'' \<notin> set (hexOf b)" for b
  proof -
    have "unat b div 16 < 16" "unat b mod 16 < 16" using unat_byte [of b] by auto
    then show ?thesis using below_16(2) [of "unat b div 16"] below_16(2) [of "unat b mod 16"] by (simp add: hexOf_def)
  qed
  then show ?thesis by (auto simp: toHex_def)
qed

lemma utf8_char: "fromUtf8 (utf8Char c @ bs) = c # fromUtf8 bs"
proof (cases "(of_char c :: nat) < 128")
  case True
  then have "(of_nat (of_char c) :: byte) < 128" "byteChar (of_nat (of_char c)) = c"
    by (simp_all add: word_less_nat_alt unat_of_nat_byte byteChar_def)
  then show ?thesis using True by (cases bs) (simp_all add: utf8Char_def)
next
  case False
  let ?n = "of_char c :: nat"
  have n: "?n < 256" by (rule nat_of_char_less_256)
  then have "2 \<le> ?n div 64" "?n div 64 < 4" using False by (simp_all add: less_eq_div_iff_mult_less_eq div_less_iff_less_mult)
  then have d: "?n div 64 = 2 \<or> ?n div 64 = 3" by linarith
  have a: "unat (of_nat (192 + ?n div 64) :: byte) = 192 + ?n div 64" using d by (auto simp: unat_of_nat)
  have b: "unat (of_nat (128 + ?n mod 64) :: byte) = 128 + ?n mod 64"
    by (rule unat_of_nat_byte) (use mod_less_divisor [of 64 ?n] in linarith)
  have cond: "\<not> (of_nat (192 + ?n div 64) :: byte) < 128"
      "(of_nat (192 + ?n div 64) :: byte) = 194 \<or> (of_nat (192 + ?n div 64) :: byte) = 195"
      "128 \<le> (of_nat (128 + ?n mod 64) :: byte)" "(of_nat (128 + ?n mod 64) :: byte) < 192"
    using a b d by (auto simp: word_less_nat_alt word_le_nat_alt simp del: of_nat_add)
  have "char_of ((192 + ?n div 64 - 192) * 64 + (128 + ?n mod 64 - 128)) = c" by simp
  then show ?thesis using False cond unfolding utf8Char_def Let_def
    by (simp add: a b del: of_nat_add)
qed

lemma utf8_roundtrip [simp]: "fromUtf8 (toUtf8 s) = s"
  by (induction s) (simp_all add: toUtf8_def utf8_char)

lemma small_quotients [simp]:
  fixes b :: byte
  shows "unat b div 16 div 16 = 0" "unat b div 64 div 4 = 0" "unat b div 16 mod 16 = unat b div 16"
    "unat b div 64 mod 4 = unat b div 64" "unat b div 4 < 64"
  using unat_byte [of b] by (simp_all flip: div_mult2_eq add: div_less_iff_less_mult)

lemma digit_sums [simp]:
  fixes a b c :: byte
  shows "unat a mod 4 * 16 < 64" "unat a mod 4 * 16 + unat b div 16 < 64"
    "unat b mod 16 * 4 < 64" "unat b mod 16 * 4 + unat c div 64 < 64"
proof -
  have "unat a mod 4 < 4" "unat b mod 16 < 16" "unat b div 16 < 16" "unat c div 64 < 4"
    using unat_byte [of b] unat_byte [of c] by (simp_all add: div_less_iff_less_mult)
  then show "unat a mod 4 * 16 < 64" "unat a mod 4 * 16 + unat b div 16 < 64"
    "unat b mod 16 * 4 < 64" "unat b mod 16 * 4 + unat c div 64 < 64" by linarith+
qed

lemma base64_roundtrip [simp]: "fromBase64 (toBase64 bs) = bs"
proof -
  have "b64Bytes (List.map_filter b64Value (toBase64 bs)) = bs"
    by (induction bs rule: toBase64.induct)
      (simp_all add: List.map_filter_simps below_64 pad_none del: of_nat_add of_nat_mult)
  then show ?thesis by (simp add: fromBase64_def)
qed

section \<open>Properties\<close>

text \<open>A stored connector secret can be read back. Whatever the bytes of the secret are, opening the
  envelope with the same key gives them again, if the cipher decrypts what it encrypted and its tags
  have 16 bytes.\<close>

theorem secret_seal_roundtrip:
  assumes cipher: "\<And>key bs ct tag. cr_seal cr key iv bs = (ct, tag) \<Longrightarrow> length tag = TAG_BYTES \<and> cr_open cr key iv ct tag = Some bs"
    and "length iv = IV_BYTES" "sealConnectorSecret cr env iv secret = Inr stored"
  shows "openConnectorSecret cr env stored CONNECTOR_SECRET_KEY_VERSION = Inr secret"
proof -
  obtain key encoded where key: "resolveSecretKey env = Inr key" "encrypt cr iv (toBase64 secret) key = Inr encoded"
      and stored: "stored = toUtf8 encoded"
    using assms(3) unfolding sealConnectorSecret_def by (auto split: sum.splits)
  obtain ct tag where ct: "cr_seal cr (deriveKey cr key) iv (toUtf8 (toBase64 secret)) = (ct, tag)" by fastforce
  then have enc: "encoded = join_with [CHR '':''] [toHex iv, toHex ct, toHex tag]"
    using key(2) by (auto simp: encrypt_def split: if_splits)
  have "split_on (CHR '':'') encoded = [toHex iv, toHex ct, toHex tag]"
    unfolding enc by (rule split_join) (simp_all add: hex_no_colon)
  then show ?thesis
    using cipher [OF ct] assms(2) key(1)
    by (simp add: openConnectorSecret_def stored decrypt_def Let_def)
qed

definition exCrypto :: crypto where
  "exCrypto = \<lparr>cr_sha256 = (\<lambda>bs. replicate 32 0), cr_seal = (\<lambda>key iv bs. (map (\<lambda>b. b + 1) bs, replicate 16 7)),
     cr_open = (\<lambda>key iv ct tag. if tag = replicate 16 7 then Some (map (\<lambda>b. b - 1) ct) else None)\<rparr>"

theorem secret_seal_roundtrip_witness:
  "\<exists>stored. sealConnectorSecret exCrypto (Some (replicate 40 CHR ''k'')) (replicate 12 5) [0, 255, 10] = Inr stored
     \<and> openConnectorSecret exCrypto (Some (replicate 40 CHR ''k'')) stored CONNECTOR_SECRET_KEY_VERSION = Inr [0, 255, 10]"
proof -
  have cipher: "\<And>key bs ct tag. cr_seal exCrypto key (replicate 12 5) bs = (ct, tag) \<Longrightarrow>
      length tag = TAG_BYTES \<and> cr_open exCrypto key (replicate 12 5) ct tag = Some bs"
    by (auto simp: exCrypto_def TAG_BYTES_def comp_def)
  obtain stored where st: "sealConnectorSecret exCrypto (Some (replicate 40 CHR ''k'')) (replicate 12 5) [0, 255, 10] = Inr stored"
    by (simp add: sealConnectorSecret_def resolveSecretKey_def MIN_SECRET_LEN_def encrypt_def exCrypto_def)
  then show ?thesis using secret_seal_roundtrip [OF cipher _ st] by (simp add: IV_BYTES_def)
qed



end
