(* ===== verification/Connector_Repo.thy ===== *)
theory Connector_Repo
  imports Secret_Box "HOL-Library.List_Lexorder" "HOL-Library.Char_ord"
begin

text \<open>
  The connector tables (\<open>data-layer/src/repository/sqlite/connector.ts\<close> with its share of
  \<open>db/sqlite-schema.sql\<close>) and the connector types (\<open>common/src/models/connector-template.ts\<close>).

  The four tables are lists of rows. The constraints of the schema (primary keys, the unique name of
  a connector in its organisation and type, one default per organisation and type, foreign keys with
  cascading deletion) are checked where a statement can violate them, and a violation is an error that
  leaves the tables as they were, as the transaction does. JSON columns hold the values themselves.

  Results: the constraints hold in every reachable state, so there is never more than one default
  connector of a type and never a secret or a policy of a connector that is gone; the operations of
  one organisation leave the connectors of the others alone; a policy that was stored is the one
  that is read.
\<close>

section \<open>Definitions\<close>

subsection \<open>Types and templates\<close>

datatype ConnectorStatus = CnDraft | CnActive | CnFailed | CnDisabled

datatype ConnectorHumanPolicy = HpAllow | HpAsk | HpBlock

datatype ConnectorSubjectType = SubjectOrg | SubjectTeam

datatype ConnectorCategory = CatObservability | CatRuntime | CatCode | CatChange

record ConnectorTemplate =
  tp_type :: string
  tp_category :: "ConnectorCategory list"
  tp_capabilities :: "string list"

definition CONNECTOR_TEMPLATES :: "ConnectorTemplate list" where
  "CONNECTOR_TEMPLATES =
     [\<lparr>tp_type = ''prometheus'', tp_category = [CatObservability],
        tp_capabilities = [''metrics.discover'', ''metrics.query'', ''metrics.validate'']\<rparr>,
      \<lparr>tp_type = ''victoria-metrics'', tp_category = [CatObservability],
        tp_capabilities = [''metrics.discover'', ''metrics.query'', ''metrics.validate'']\<rparr>,
      \<lparr>tp_type = ''loki'', tp_category = [CatObservability], tp_capabilities = [''logs.query'', ''logs.stream'']\<rparr>,
      \<lparr>tp_type = ''humio'', tp_category = [CatObservability], tp_capabilities = [''logs.query'', ''logs.stream'']\<rparr>,
      \<lparr>tp_type = ''elasticsearch'', tp_category = [CatObservability], tp_capabilities = [''logs.query'']\<rparr>,
      \<lparr>tp_type = ''clickhouse'', tp_category = [CatObservability], tp_capabilities = [''logs.query'']\<rparr>,
      \<lparr>tp_type = ''tempo'', tp_category = [CatObservability], tp_capabilities = [''traces.query'']\<rparr>,
      \<lparr>tp_type = ''jaeger'', tp_category = [CatObservability], tp_capabilities = [''traces.query'']\<rparr>,
      \<lparr>tp_type = ''otel'', tp_category = [CatObservability], tp_capabilities = [''traces.query'']\<rparr>,
      \<lparr>tp_type = ''kubernetes'', tp_category = [CatRuntime],
        tp_capabilities = [''runtime.get'', ''runtime.list'', ''runtime.logs'', ''runtime.events'', ''runtime.restart'',
          ''runtime.scale'', ''runtime.rollout'', ''runtime.delete'']\<rparr>,
      \<lparr>tp_type = ''github'', tp_category = [CatCode, CatChange],
        tp_capabilities = [''vcs.repo.read'', ''vcs.diff.read'', ''vcs.pr.read'', ''vcs.pr.comment'', ''vcs.pr.create'',
          ''change.event.read'']\<rparr>]"

definition getConnectorTemplate :: "string \<Rightarrow> ConnectorTemplate option" where
  "getConnectorTemplate type = List.find (\<lambda>t. tp_type t = type) CONNECTOR_TEMPLATES"

text \<open>An unknown type makes the source throw; it is never stored.\<close>

definition typeMatchesCategory :: "string \<Rightarrow> ConnectorCategory option \<Rightarrow> bool" where
  "typeMatchesCategory type category =
     (case category of
        None \<Rightarrow> True
      | Some c \<Rightarrow> (case getConnectorTemplate type of None \<Rightarrow> False | Some t \<Rightarrow> c \<in> set (tp_category t)))"

definition KUBERNETES_DEFAULT_POLICIES :: "(string \<times> ConnectorHumanPolicy) list" where
  "KUBERNETES_DEFAULT_POLICIES =
     [(''runtime.get'', HpAllow), (''runtime.list'', HpAllow), (''runtime.describe'', HpAllow), (''runtime.logs'', HpAllow),
      (''runtime.events'', HpAllow), (''runtime.top'', HpAllow), (''runtime.create'', HpAsk), (''runtime.apply'', HpAsk),
      (''runtime.patch'', HpAsk), (''runtime.delete'', HpAsk), (''runtime.scale'', HpAsk), (''runtime.restart'', HpAsk),
      (''runtime.rollout'', HpAsk), (''runtime.exec'', HpAsk), (''runtime.port_forward'', HpAsk), (''runtime.drain'', HpAsk),
      (''runtime.cluster_shell.cluster'', HpAsk), (''runtime.cluster_shell.namespace'', HpAsk)]"

subsection \<open>Rows and tables\<close>

record ConnectorRow =
  cn_id :: string
  cn_orgId :: string
  cn_type :: string
  cn_name :: string
  cn_config :: "(string \<times> json) list"
  cn_status :: ConnectorStatus
  cn_lastVerifiedAt :: "string option"
  cn_lastVerifyError :: "string option"
  cn_isDefault :: bool
  cn_createdBy :: string
  cn_createdAt :: int
  cn_updatedAt :: int

record Connector = ConnectorRow +
  cn_capabilities :: "string list"
  cn_secretMissing :: bool
  cn_defaultFor :: "string option"

record ConnectorSecretRow =
  sk_connectorId :: string
  sk_ciphertext :: "byte list"
  sk_keyVersion :: int
  sk_createdAt :: int
  sk_updatedAt :: int

record ConnectorPolicy =
  cpo_connectorId :: string
  cpo_subjectType :: ConnectorSubjectType
  cpo_subjectId :: string
  cpo_capability :: string
  cpo_scope :: "(string \<times> json) list option"
  cpo_humanPolicy :: ConnectorHumanPolicy

record connector_tables =
  ct_orgs :: "string list"
  ct_connectors :: "ConnectorRow list"
  ct_capabilities :: "(string \<times> string) list"
  ct_secrets :: "ConnectorSecretRow list"
  ct_policies :: "ConnectorPolicy list"

record NewConnector =
  nc_id :: "string option"
  nc_orgId :: string
  nc_type :: string
  nc_name :: string
  nc_config :: "(string \<times> json) list option"
  nc_status :: "ConnectorStatus option"
  nc_lastVerifiedAt :: "string option"
  nc_lastVerifyError :: "string option"
  nc_isDefault :: "bool option"
  nc_createdBy :: string

record ConnectorPatch =
  pt_name :: "string option"
  pt_config :: "(string \<times> json) list option"
  pt_status :: "ConnectorStatus option"
  pt_lastVerifiedAt :: "string option option"
  pt_lastVerifyError :: "string option option"
  pt_isDefault :: "bool option"

record ListConnectorsOptions =
  lc_orgId :: string
  lc_type :: "string option"
  lc_category :: "ConnectorCategory option"
  lc_capability :: "string option"
  lc_status :: "ConnectorStatus option"

record ListPoliciesOptions =
  lp_connectorId :: string
  lp_subjectType :: "ConnectorSubjectType option"
  lp_subjectId :: "string option"
  lp_capability :: "string option"

datatype ConnectorError =
    UnknownType string
  | DuplicateId string
  | DuplicateName string
  | NoSuchOrg string
  | NoSuchConnector string
  | SecretError BoxError

subsection \<open>Connectors\<close>

definition rowToConnector :: "connector_tables \<Rightarrow> ConnectorRow \<Rightarrow> Connector" where
  "rowToConnector t row =
     ConnectorRow.extend row
       (Connector.fields (map snd (filter (\<lambda>(i, c). i = cn_id row) (ct_capabilities t)))
          (\<not> list_ex (\<lambda>s. sk_connectorId s = cn_id row) (ct_secrets t))
          (if cn_isDefault row then Some (cn_type row) else None))"

definition connectorList :: "connector_tables \<Rightarrow> ListConnectorsOptions \<Rightarrow> Connector list" where
  "connectorList t opts =
     filter (\<lambda>c. typeMatchesCategory (cn_type c) (lc_category opts))
       (map (rowToConnector t)
         (sort_key cn_name
           (filter (\<lambda>r. cn_orgId r = lc_orgId opts
               \<and> (truthy (lc_type opts) \<longrightarrow> lc_type opts = Some (cn_type r))
               \<and> (\<forall>s\<in>set_option (lc_status opts). cn_status r = s)
               \<and> (truthy (lc_capability opts) \<longrightarrow> (cn_id r, the (lc_capability opts)) \<in> set (ct_capabilities t)))
             (ct_connectors t))))"

definition connectorRow :: "connector_tables \<Rightarrow> string \<Rightarrow> string \<Rightarrow> ConnectorRow option" where
  "connectorRow t i orgId = List.find (\<lambda>r. cn_id r = i \<and> cn_orgId r = orgId) (ct_connectors t)"

definition connectorGet :: "connector_tables \<Rightarrow> string \<Rightarrow> string \<Rightarrow> Connector option" where
  "connectorGet t i orgId = map_option (rowToConnector t) (connectorRow t i orgId)"

definition clearDefaults :: "string \<Rightarrow> string \<Rightarrow> string option \<Rightarrow> int \<Rightarrow> ConnectorRow list \<Rightarrow> ConnectorRow list" where
  "clearDefaults orgId type keep now rows =
     map (\<lambda>r. if cn_orgId r = orgId \<and> cn_type r = type \<and> Some (cn_id r) \<noteq> keep \<and> cn_isDefault r
              then r\<lparr>cn_isDefault := False, cn_updatedAt := now\<rparr> else r) rows"

definition newRow :: "string \<Rightarrow> int \<Rightarrow> NewConnector \<Rightarrow> ConnectorRow" where
  "newRow i now input =
     \<lparr>cn_id = i, cn_orgId = nc_orgId input, cn_type = nc_type input, cn_name = nc_name input,
      cn_config = or_default (nc_config input) [], cn_status = or_default (nc_status input) CnDraft,
      cn_lastVerifiedAt = nc_lastVerifiedAt input, cn_lastVerifyError = nc_lastVerifyError input,
      cn_isDefault = (nc_isDefault input = Some True), cn_createdBy = nc_createdBy input, cn_createdAt = now, cn_updatedAt = now\<rparr>"

definition connectorCreate :: "connector_tables \<Rightarrow> int \<Rightarrow> string \<Rightarrow> NewConnector \<Rightarrow> ConnectorError + Connector \<times> connector_tables" where
  "connectorCreate t now uid input =
     (let i = or_default (nc_id input) (nc_type input @ ''-'' @ uid) in
      case getConnectorTemplate (nc_type input) of
        None \<Rightarrow> Inl (UnknownType (nc_type input))
      | Some template \<Rightarrow>
          let rows = (if nc_isDefault input = Some True
                      then clearDefaults (nc_orgId input) (nc_type input) None now (ct_connectors t) else ct_connectors t)
          in if list_ex (\<lambda>r. cn_id r = i) rows then Inl (DuplicateId i)
             else if list_ex (\<lambda>r. cn_orgId r = nc_orgId input \<and> cn_type r = nc_type input \<and> cn_name r = nc_name input) rows
             then Inl (DuplicateName (nc_name input))
             else if nc_orgId input \<notin> set (ct_orgs t) then Inl (NoSuchOrg (nc_orgId input))
             else let t' = t\<lparr>ct_connectors := rows @ [newRow i now input],
                             ct_capabilities := ct_capabilities t @ map (\<lambda>c. (i, c)) (tp_capabilities template)\<rparr>
                  in Inr (rowToConnector t' (newRow i now input), t'))"

definition mergedRow :: "ConnectorPatch \<Rightarrow> int \<Rightarrow> ConnectorRow \<Rightarrow> ConnectorRow" where
  "mergedRow patch now r =
     r\<lparr>cn_name := or_default (pt_name patch) (cn_name r), cn_config := or_default (pt_config patch) (cn_config r),
       cn_status := or_default (pt_status patch) (cn_status r),
       cn_lastVerifiedAt := or_default (pt_lastVerifiedAt patch) (cn_lastVerifiedAt r),
       cn_lastVerifyError := or_default (pt_lastVerifyError patch) (cn_lastVerifyError r),
       cn_isDefault := or_default (pt_isDefault patch) (cn_isDefault r), cn_updatedAt := now\<rparr>"

definition connectorUpdate :: "connector_tables \<Rightarrow> int \<Rightarrow> string \<Rightarrow> ConnectorPatch \<Rightarrow> string
    \<Rightarrow> ConnectorError + Connector option \<times> connector_tables" where
  "connectorUpdate t now i patch orgId =
     (case connectorRow t i orgId of
        None \<Rightarrow> Inr (None, t)
      | Some existing \<Rightarrow>
          let merged = mergedRow patch now existing;
              rows = (if cn_isDefault merged
                      then clearDefaults orgId (cn_type existing) (Some i) now (ct_connectors t) else ct_connectors t)
          in if list_ex (\<lambda>r. cn_id r \<noteq> i \<and> cn_orgId r = orgId \<and> cn_type r = cn_type existing \<and> cn_name r = cn_name merged) rows
             then Inl (DuplicateName (cn_name merged))
             else let t' = t\<lparr>ct_connectors := map (\<lambda>r. if cn_id r = i \<and> cn_orgId r = orgId then merged else r) rows\<rparr>
                  in Inr (connectorGet t' i orgId, t'))"

text \<open>Deleting a connector takes its capabilities, secret and policies with it.\<close>

definition connectorDelete :: "connector_tables \<Rightarrow> string \<Rightarrow> string \<Rightarrow> bool \<times> connector_tables" where
  "connectorDelete t i orgId =
     (if connectorGet t i orgId = None then (False, t)
      else (True, t\<lparr>ct_connectors := filter (\<lambda>r. \<not> (cn_id r = i \<and> cn_orgId r = orgId)) (ct_connectors t),
                    ct_capabilities := filter (\<lambda>(c, _). c \<noteq> i) (ct_capabilities t),
                    ct_secrets := filter (\<lambda>s. sk_connectorId s \<noteq> i) (ct_secrets t),
                    ct_policies := filter (\<lambda>p. cpo_connectorId p \<noteq> i) (ct_policies t)\<rparr>))"

definition connectorCount :: "connector_tables \<Rightarrow> string \<Rightarrow> nat" where
  "connectorCount t orgId = length (filter (\<lambda>r. cn_orgId r = orgId) (ct_connectors t))"

definition findByCapability :: "connector_tables \<Rightarrow> string \<Rightarrow> string \<Rightarrow> Connector list" where
  "findByCapability t orgId capability =
     connectorList t \<lparr>lc_orgId = orgId, lc_type = None, lc_category = None, lc_capability = Some capability, lc_status = None\<rparr>"

subsection \<open>Secrets\<close>

definition secretRow :: "connector_tables \<Rightarrow> string \<Rightarrow> ConnectorSecretRow option" where
  "secretRow t connectorId = List.find (\<lambda>s. sk_connectorId s = connectorId) (ct_secrets t)"

text \<open>The row with its bytes opened; \<open>Inr None\<close> is no row.\<close>

definition getSecret :: "crypto \<Rightarrow> string option \<Rightarrow> connector_tables \<Rightarrow> string \<Rightarrow> ConnectorError + ConnectorSecretRow option" where
  "getSecret cr env t connectorId =
     (case secretRow t connectorId of
        None \<Rightarrow> Inr None
      | Some row \<Rightarrow>
          (case openConnectorSecret cr env (sk_ciphertext row) (sk_keyVersion row) of
             Inl e \<Rightarrow> Inl (SecretError e)
           | Inr bs \<Rightarrow> Inr (Some (row\<lparr>sk_ciphertext := bs\<rparr>))))"

definition upsertSecret :: "crypto \<Rightarrow> string option \<Rightarrow> byte list \<Rightarrow> connector_tables \<Rightarrow> int \<Rightarrow> string \<Rightarrow> byte list
    \<Rightarrow> ConnectorError + connector_tables" where
  "upsertSecret cr env iv t now connectorId plaintext =
     (case getSecret cr env t connectorId of
        Inl e \<Rightarrow> Inl e
      | Inr existing \<Rightarrow>
          (case sealConnectorSecret cr env iv plaintext of
             Inl e \<Rightarrow> Inl (SecretError e)
           | Inr sealed \<Rightarrow>
               if \<not> list_ex (\<lambda>r. cn_id r = connectorId) (ct_connectors t) then Inl (NoSuchConnector connectorId)
               else Inr (if existing = None
                  then t\<lparr>ct_secrets := ct_secrets t @ [\<lparr>sk_connectorId = connectorId, sk_ciphertext = sealed,
                           sk_keyVersion = CONNECTOR_SECRET_KEY_VERSION, sk_createdAt = now, sk_updatedAt = now\<rparr>]\<rparr>
                  else t\<lparr>ct_secrets := map (\<lambda>s. if sk_connectorId s = connectorId
                           then s\<lparr>sk_ciphertext := sealed, sk_keyVersion := CONNECTOR_SECRET_KEY_VERSION, sk_updatedAt := now\<rparr>
                           else s) (ct_secrets t)\<rparr>)))"

definition deleteSecret :: "crypto \<Rightarrow> string option \<Rightarrow> connector_tables \<Rightarrow> string \<Rightarrow> ConnectorError + bool \<times> connector_tables" where
  "deleteSecret cr env t connectorId =
     (case getSecret cr env t connectorId of
        Inl e \<Rightarrow> Inl e
      | Inr None \<Rightarrow> Inr (False, t)
      | Inr (Some _) \<Rightarrow> Inr (True, t\<lparr>ct_secrets := filter (\<lambda>s. sk_connectorId s \<noteq> connectorId) (ct_secrets t)\<rparr>))"

subsection \<open>Policies\<close>

definition subjectName :: "ConnectorSubjectType \<Rightarrow> string" where
  "subjectName s = (case s of SubjectOrg \<Rightarrow> ''org'' | SubjectTeam \<Rightarrow> ''team'')"

definition listPolicies :: "connector_tables \<Rightarrow> ListPoliciesOptions \<Rightarrow> ConnectorPolicy list" where
  "listPolicies t opts =
     sort_key (subjectName \<circ> cpo_subjectType) (sort_key cpo_subjectId (sort_key cpo_capability
       (filter (\<lambda>p. cpo_connectorId p = lp_connectorId opts
           \<and> (\<forall>s\<in>set_option (lp_subjectType opts). cpo_subjectType p = s)
           \<and> (\<forall>s\<in>set_option (lp_subjectId opts). cpo_subjectId p = s)
           \<and> (truthy (lp_capability opts) \<longrightarrow> lp_capability opts = Some (cpo_capability p)))
         (ct_policies t))))"

definition policyAt :: "string \<Rightarrow> ConnectorSubjectType \<Rightarrow> string \<Rightarrow> string \<Rightarrow> ConnectorPolicy \<Rightarrow> bool" where
  "policyAt connectorId subjectType subjectId capability p \<longleftrightarrow>
     cpo_connectorId p = connectorId \<and> cpo_subjectType p = subjectType \<and> cpo_subjectId p = subjectId \<and> cpo_capability p = capability"

definition getPolicy :: "connector_tables \<Rightarrow> string \<Rightarrow> ConnectorSubjectType \<Rightarrow> string \<Rightarrow> string \<Rightarrow> ConnectorPolicy option" where
  "getPolicy t connectorId subjectType subjectId capability =
     List.find (policyAt connectorId subjectType subjectId capability) (ct_policies t)"

definition samePolicyKey :: "ConnectorPolicy \<Rightarrow> ConnectorPolicy \<Rightarrow> bool" where
  "samePolicyKey p = policyAt (cpo_connectorId p) (cpo_subjectType p) (cpo_subjectId p) (cpo_capability p)"

definition upsertPolicy :: "connector_tables \<Rightarrow> ConnectorPolicy \<Rightarrow> ConnectorError + ConnectorPolicy \<times> connector_tables" where
  "upsertPolicy t p =
     (if \<not> list_ex (\<lambda>r. cn_id r = cpo_connectorId p) (ct_connectors t) then Inl (NoSuchConnector (cpo_connectorId p))
      else Inr (p, t\<lparr>ct_policies :=
        (if list_ex (samePolicyKey p) (ct_policies t) then map (\<lambda>r. if samePolicyKey p r then p else r) (ct_policies t)
         else ct_policies t @ [p])\<rparr>))"

definition deletePolicyRow :: "connector_tables \<Rightarrow> string \<Rightarrow> ConnectorSubjectType \<Rightarrow> string \<Rightarrow> string \<Rightarrow> bool \<times> connector_tables" where
  "deletePolicyRow t connectorId subjectType subjectId capability =
     (if getPolicy t connectorId subjectType subjectId capability = None then (False, t)
      else (True, t\<lparr>ct_policies := filter (\<lambda>p. \<not> policyAt connectorId subjectType subjectId capability p) (ct_policies t)\<rparr>))"

section \<open>The constraints\<close>

text \<open>At most one row for each value of \<open>key\<close>, among the rows with \<open>P\<close>.\<close>

definition oneRow :: "(ConnectorRow \<Rightarrow> bool) \<Rightarrow> (ConnectorRow \<Rightarrow> 'k) \<Rightarrow> ConnectorRow list \<Rightarrow> bool" where
  "oneRow P key rows \<longleftrightarrow> (\<forall>r\<in>set rows. \<forall>s\<in>set rows. P r \<longrightarrow> P s \<longrightarrow> key r = key s \<longrightarrow> cn_id r = cn_id s)"

definition nameKey :: "ConnectorRow \<Rightarrow> string \<times> string \<times> string" where
  "nameKey r = (cn_orgId r, cn_type r, cn_name r)"

definition defaultKey :: "ConnectorRow \<Rightarrow> string \<times> string" where
  "defaultKey r = (cn_orgId r, cn_type r)"

definition rowsOk :: "string list \<Rightarrow> ConnectorRow list \<Rightarrow> bool" where
  "rowsOk orgs rows \<longleftrightarrow> distinct (map cn_id rows) \<and> oneRow (\<lambda>_. True) nameKey rows \<and> oneRow cn_isDefault defaultKey rows
     \<and> (\<forall>r\<in>set rows. cn_orgId r \<in> set orgs \<and> getConnectorTemplate (cn_type r) \<noteq> None)"

definition policyKey :: "ConnectorPolicy \<Rightarrow> string \<times> ConnectorSubjectType \<times> string \<times> string" where
  "policyKey p = (cpo_connectorId p, cpo_subjectType p, cpo_subjectId p, cpo_capability p)"

definition connectorIds :: "connector_tables \<Rightarrow> string set" where
  "connectorIds t = cn_id ` set (ct_connectors t)"

definition refsOk :: "connector_tables \<Rightarrow> bool" where
  "refsOk t \<longleftrightarrow> distinct (map sk_connectorId (ct_secrets t)) \<and> distinct (map policyKey (ct_policies t))
     \<and> (\<forall>(i, c)\<in>set (ct_capabilities t). i \<in> connectorIds t)
     \<and> (\<forall>s\<in>set (ct_secrets t). sk_connectorId s \<in> connectorIds t)
     \<and> (\<forall>p\<in>set (ct_policies t). cpo_connectorId p \<in> connectorIds t)"

definition tablesOk :: "connector_tables \<Rightarrow> bool" where
  "tablesOk t \<longleftrightarrow> rowsOk (ct_orgs t) (ct_connectors t) \<and> refsOk t"

inductive connector_step :: "connector_tables \<Rightarrow> connector_tables \<Rightarrow> bool" where
  st_create: "connectorCreate t now uid input = Inr (c, t') \<Longrightarrow> connector_step t t'"
| st_update: "connectorUpdate t now i patch orgId = Inr (c, t') \<Longrightarrow> connector_step t t'"
| st_delete: "connectorDelete t i orgId = (b, t') \<Longrightarrow> connector_step t t'"
| st_secret: "upsertSecret cr env iv t now i bs = Inr t' \<Longrightarrow> connector_step t t'"
| st_unsecret: "deleteSecret cr env t i = Inr (b, t') \<Longrightarrow> connector_step t t'"
| st_policy: "upsertPolicy t p = Inr (q, t') \<Longrightarrow> connector_step t t'"
| st_unpolicy: "deletePolicyRow t i st sid cap = (b, t') \<Longrightarrow> connector_step t t'"

lemma known_id: "list_ex (\<lambda>r. cn_id r = i) (ct_connectors t) \<longleftrightarrow> i \<in> connectorIds t"
  by (auto simp: list_ex_iff connectorIds_def)

lemma oneRow_map:
  assumes "oneRow P key rows" "\<And>r. cn_id (f r) = cn_id r" "\<And>r. key (f r) = key r" "\<And>r. P (f r) \<Longrightarrow> P r"
  shows "oneRow P key (map f rows)"
  unfolding oneRow_def
proof (intro ballI impI)
  fix r s assume "r \<in> set (map f rows)" "s \<in> set (map f rows)" "P r" "P s" "key r = key s"
  then obtain r0 s0 where rs: "r = f r0" "s = f s0" "r0 \<in> set rows" "s0 \<in> set rows" by auto
  then have "P r0" "P s0" "key r0 = key s0"
    using assms(4) \<open>P r\<close> \<open>P s\<close> \<open>key r = key s\<close> assms(3) [of r0] assms(3) [of s0] by auto
  then show "cn_id r = cn_id s" using assms(1) rs(3,4) unfolding oneRow_def rs(1,2) assms(2) by blast
qed

lemma oneRowD:
  "oneRow P key rows \<Longrightarrow> r \<in> set rows \<Longrightarrow> s \<in> set rows \<Longrightarrow> P r \<Longrightarrow> P s \<Longrightarrow> key r = key s \<Longrightarrow> cn_id r = cn_id s"
  unfolding oneRow_def by blast

lemma oneRow_append:
  "oneRow P key (rows @ [r]) \<longleftrightarrow>
     oneRow P key rows \<and> (P r \<longrightarrow> (\<forall>s\<in>set rows. P s \<longrightarrow> key s = key r \<longrightarrow> cn_id s = cn_id r))"
  by (auto simp: oneRow_def)

text \<open>Rewriting rows in place keeps the constraints if it keeps the keys and makes nothing a default.\<close>

lemma rows_map:
  assumes ok: "rowsOk orgs rows"
    and f: "\<And>r. cn_id (f r) = cn_id r" "\<And>r. nameKey (f r) = nameKey r" "\<And>r. cn_isDefault (f r) \<Longrightarrow> cn_isDefault r"
  shows "rowsOk orgs (map f rows)"
proof -
  have key: "defaultKey (f r) = defaultKey r" "cn_orgId (f r) = cn_orgId r" "cn_type (f r) = cn_type r" for r
    using f(2) [of r] by (simp_all add: nameKey_def defaultKey_def)
  have "map cn_id (map f rows) = map cn_id rows" by (simp add: f(1) comp_def)
  moreover have "oneRow (\<lambda>_. True) nameKey (map f rows)" "oneRow cn_isDefault defaultKey (map f rows)"
    using ok by (auto intro!: oneRow_map simp: rowsOk_def f key dest: f(3))
  ultimately show ?thesis using ok by (auto simp add: rowsOk_def comp_def f(1) key)
qed

lemma rows_append:
  assumes "rowsOk orgs rows" "cn_id r \<notin> cn_id ` set rows" "nameKey r \<notin> nameKey ` set rows"
    "cn_isDefault r \<Longrightarrow> defaultKey r \<notin> defaultKey ` set (filter cn_isDefault rows)"
    "cn_orgId r \<in> set orgs" "getConnectorTemplate (cn_type r) \<noteq> None"
  shows "rowsOk orgs (rows @ [r])"
proof -
  have "defaultKey s \<noteq> defaultKey r" if "cn_isDefault r" "s \<in> set rows" "cn_isDefault s" for s
  proof -
    have "defaultKey s \<in> defaultKey ` set (filter cn_isDefault rows)" using that by simp
    then show ?thesis using assms(4) that(1) by metis
  qed
  moreover have "nameKey s \<noteq> nameKey r" if "s \<in> set rows" for s using assms(3) that by (metis image_eqI)
  ultimately show ?thesis using assms(1,2,5,6) by (simp add: rowsOk_def oneRow_append)
qed

text \<open>Replacing the row of one identifier.\<close>

lemma oneRow_put:
  assumes one: "oneRow P key rows" and m: "cn_id m = i"
    and Q: "\<And>r. r \<in> set rows \<Longrightarrow> Q r \<longleftrightarrow> cn_id r = i"
    and only: "\<And>r. r \<in> set rows \<Longrightarrow> cn_id r \<noteq> i \<Longrightarrow> P m \<Longrightarrow> P r \<Longrightarrow> key r \<noteq> key m"
  shows "oneRow P key (map (\<lambda>r. if Q r then m else r) rows)"
  unfolding oneRow_def
proof (intro ballI impI)
  fix r' s' assume rs: "r' \<in> set (map (\<lambda>r. if Q r then m else r) rows)" "s' \<in> set (map (\<lambda>r. if Q r then m else r) rows)"
    "P r'" "P s'" "key r' = key s'"
  then have "r' = m \<or> r' \<in> set rows \<and> cn_id r' \<noteq> i" "s' = m \<or> s' \<in> set rows \<and> cn_id s' \<noteq> i"
    by (auto simp: Q split: if_splits)
  then show "cn_id r' = cn_id s'"
  proof (elim disjE)
    assume "r' \<in> set rows \<and> cn_id r' \<noteq> i" "s' \<in> set rows \<and> cn_id s' \<noteq> i"
    then show ?thesis using one rs(3-5) unfolding oneRow_def by blast
  qed (use only rs(3-5) in force)+
qed

lemma rows_filter: "rowsOk orgs rows \<Longrightarrow> rowsOk orgs (filter P rows)"
  by (simp add: rowsOk_def oneRow_def distinct_map_filter)

definition quieten :: "string \<Rightarrow> string \<Rightarrow> string option \<Rightarrow> int \<Rightarrow> ConnectorRow \<Rightarrow> ConnectorRow" where
  "quieten orgId type keep now r =
     (if cn_orgId r = orgId \<and> cn_type r = type \<and> Some (cn_id r) \<noteq> keep \<and> cn_isDefault r
      then r\<lparr>cn_isDefault := False, cn_updatedAt := now\<rparr> else r)"

lemma quieten_keys [simp]:
  "cn_id (quieten orgId type keep now r) = cn_id r" "nameKey (quieten orgId type keep now r) = nameKey r"
  "defaultKey (quieten orgId type keep now r) = defaultKey r"
  "cn_orgId (quieten orgId type keep now r) = cn_orgId r" "cn_type (quieten orgId type keep now r) = cn_type r"
  by (simp_all add: quieten_def nameKey_def defaultKey_def)

lemma quieten_default:
  "cn_isDefault (quieten orgId type keep now r) \<Longrightarrow>
     cn_isDefault r \<and> (defaultKey r = (orgId, type) \<longrightarrow> Some (cn_id r) = keep)"
  by (auto simp: quieten_def defaultKey_def split: if_splits)

lemma clear_map: "clearDefaults orgId type keep now rows = map (quieten orgId type keep now) rows"
  by (simp add: clearDefaults_def quieten_def cong: map_cong)

lemma clear_rows: "rowsOk orgs rows \<Longrightarrow> rowsOk orgs (clearDefaults orgId type keep now rows)"
  unfolding clear_map by (rule rows_map) (auto dest: quieten_default)

lemma clear_ids [simp]: "cn_id ` set (clearDefaults orgId type keep now rows) = cn_id ` set rows"
  by (simp add: clear_map image_image)

lemma row_created_ok:
  assumes ok: "tablesOk t" and c: "connectorCreate t now uid input = Inr (c, t')"
  shows "tablesOk t'"
proof -
  define i where "i = or_default (nc_id input) (nc_type input @ ''-'' @ uid)"
  define rows where "rows = (if nc_isDefault input = Some True
     then clearDefaults (nc_orgId input) (nc_type input) None now (ct_connectors t) else ct_connectors t)"
  have rowsok: "rowsOk (ct_orgs t) rows" using ok clear_rows by (simp add: tablesOk_def rows_def)
  have ids: "cn_id ` set rows = cn_id ` set (ct_connectors t)" by (simp add: rows_def)
  have none: "cn_isDefault (newRow i now input) \<Longrightarrow> defaultKey (newRow i now input) \<notin> defaultKey ` set (filter cn_isDefault rows)"
    by (auto simp: rows_def clear_map newRow_def defaultKey_def dest: quieten_default)
  obtain template where tp: "getConnectorTemplate (nc_type input) = Some template"
    using c by (cases "getConnectorTemplate (nc_type input)") (simp_all add: connectorCreate_def Let_def)
  note c' = c [unfolded connectorCreate_def tp, folded i_def, unfolded Let_def option.case, folded i_def rows_def]
  have new: "cn_id (newRow i now input) \<notin> cn_id ` set rows" "nameKey (newRow i now input) \<notin> nameKey ` set rows"
      "nc_orgId input \<in> set (ct_orgs t)"
    using c' by (auto simp: list_ex_iff newRow_def nameKey_def split: if_splits)
  have t': "t' = t\<lparr>ct_connectors := rows @ [newRow i now input],
       ct_capabilities := ct_capabilities t @ map (\<lambda>c. (i, c)) (tp_capabilities template)\<rparr>"
    using c' by (simp split: if_splits)
  have "rowsOk (ct_orgs t) (rows @ [newRow i now input])"
    by (rule rows_append [OF rowsok new(1,2) none]) (use new(3) tp in \<open>simp_all add: newRow_def\<close>)
  moreover have "connectorIds t' = insert i (connectorIds t)" using ids by (simp add: connectorIds_def t' newRow_def)
  ultimately show ?thesis using ok unfolding tablesOk_def refsOk_def by (auto simp: t')
qed

lemma update_ok:
  assumes ok: "tablesOk t" and u: "connectorUpdate t now i patch orgId = Inr (c, t')"
  shows "tablesOk t'"
proof (cases "connectorRow t i orgId")
  case None
  then show ?thesis using u ok by (simp add: connectorUpdate_def)
next
  case (Some e)
  define m where "m = mergedRow patch now e"
  define rows where "rows = (if cn_isDefault m then clearDefaults orgId (cn_type e) (Some i) now (ct_connectors t) else ct_connectors t)"
  have e: "e \<in> set (ct_connectors t)" "cn_id e = i" "cn_orgId e = orgId"
    using Some by (auto simp: connectorRow_def find_Some_iff)
  have m: "cn_id m = i" "cn_orgId m = orgId" "cn_type m = cn_type e" using e by (simp_all add: m_def mergedRow_def)
  note u' = u [unfolded connectorUpdate_def Some option.case Let_def, folded m_def, folded rows_def]
  have fresh: "r \<in> set rows \<Longrightarrow> cn_id r \<noteq> i \<Longrightarrow> nameKey r \<noteq> nameKey m" for r
    using u' m by (auto simp: list_ex_iff nameKey_def split: if_splits)
  let ?put = "\<lambda>r. if cn_id r = i \<and> cn_orgId r = orgId then m else r"
  have t': "t' = t\<lparr>ct_connectors := map ?put rows\<rparr>" using u' by (simp split: if_splits)
  have rowsok: "rowsOk (ct_orgs t) rows" using ok clear_rows by (simp add: tablesOk_def rows_def)
  have ids: "cn_id ` set rows = cn_id ` set (ct_connectors t)" by (simp add: rows_def)
  have put_id: "cn_id (?put r) = cn_id r" for r using m by simp
  have "r \<in> set (ct_connectors t) \<Longrightarrow> cn_id r = i \<Longrightarrow> cn_orgId r = orgId" for r
    using ok e by (auto simp: tablesOk_def rowsOk_def distinct_map dest: inj_onD)
  moreover have "r \<in> set rows \<Longrightarrow> \<exists>x\<in>set (ct_connectors t). cn_id r = cn_id x \<and> cn_orgId r = cn_orgId x" for r
    by (auto simp: rows_def clear_map split: if_splits)
  ultimately have org: "r \<in> set rows \<Longrightarrow> cn_id r = i \<Longrightarrow> cn_orgId r = orgId" for r by metis
  have only: "cn_isDefault m \<Longrightarrow> r \<in> set rows \<Longrightarrow> cn_isDefault r \<Longrightarrow> defaultKey r = defaultKey m \<Longrightarrow> cn_id r = i" for r
    using m by (auto simp: rows_def clear_map defaultKey_def dest!: quieten_default)
  have "distinct (map cn_id (map ?put rows))" using rowsok by (simp add: rowsOk_def comp_def put_id)
  moreover have "oneRow (\<lambda>_. True) nameKey (map ?put rows)"
    by (rule oneRow_put [where m = m]) (use rowsok org m fresh in \<open>auto simp: rowsOk_def\<close>)
  moreover have "oneRow cn_isDefault defaultKey (map ?put rows)"
    by (rule oneRow_put [where m = m]) (use rowsok org m only in \<open>auto simp: rowsOk_def\<close>)
  moreover have "\<forall>r\<in>set (map ?put rows). cn_orgId r \<in> set (ct_orgs t) \<and> getConnectorTemplate (cn_type r) \<noteq> None"
    using rowsok ok e m unfolding rowsOk_def tablesOk_def by auto
  ultimately have "rowsOk (ct_orgs t) (map ?put rows)" by (simp add: rowsOk_def)
  moreover have "connectorIds t' = connectorIds t"
  proof -
    have "cn_id ` set (map ?put rows) = cn_id ` set rows" unfolding set_map image_image put_id ..
    then show ?thesis using ids by (simp add: connectorIds_def t' del: set_map)
  qed
  ultimately show ?thesis using ok unfolding tablesOk_def refsOk_def by (auto simp: t')
qed

lemma delete_ok:
  assumes ok: "tablesOk t" and d: "connectorDelete t i orgId = (b, t')"
  shows "tablesOk t'"
proof (cases "connectorGet t i orgId = None")
  case False
  then obtain e where e: "e \<in> set (ct_connectors t)" "cn_id e = i" "cn_orgId e = orgId"
    using find_Some_iff_first unfolding connectorGet_def connectorRow_def by fastforce
  let ?rows = "filter (\<lambda>r. \<not> (cn_id r = i \<and> cn_orgId r = orgId)) (ct_connectors t)"
  have "r \<in> set (ct_connectors t) \<Longrightarrow> cn_id r = i \<Longrightarrow> cn_orgId r = orgId" for r
    using ok e by (auto simp: tablesOk_def rowsOk_def distinct_map dest: inj_onD)
  then have keep: "?rows = filter (\<lambda>r. cn_id r \<noteq> i) (ct_connectors t)" by (auto intro: filter_cong)
  have "rowsOk (ct_orgs t) ?rows" using ok by (simp add: tablesOk_def rows_filter)
  moreover have t': "t' = t\<lparr>ct_connectors := ?rows, ct_capabilities := filter (\<lambda>(c, _). c \<noteq> i) (ct_capabilities t),
      ct_secrets := filter (\<lambda>s. sk_connectorId s \<noteq> i) (ct_secrets t), ct_policies := filter (\<lambda>p. cpo_connectorId p \<noteq> i) (ct_policies t)\<rparr>"
    using d False by (simp add: connectorDelete_def)
  moreover have "j \<noteq> i \<Longrightarrow> j \<in> connectorIds t \<Longrightarrow> j \<in> connectorIds t'" for j by (auto simp: t' keep connectorIds_def)
  ultimately show ?thesis using ok unfolding tablesOk_def refsOk_def by (auto simp: distinct_map_filter t')
qed (use ok d in \<open>simp add: connectorDelete_def\<close>)

lemma secret_ok:
  assumes ok: "tablesOk t" and u: "upsertSecret cr env iv t now i bs = Inr t'"
  shows "tablesOk t'"
proof -
  obtain old sealed where old: "getSecret cr env t i = Inr old" and ex: "i \<in> connectorIds t"
    and t': "t' = (if old = None
        then t\<lparr>ct_secrets := ct_secrets t @ [\<lparr>sk_connectorId = i, sk_ciphertext = sealed,
                 sk_keyVersion = CONNECTOR_SECRET_KEY_VERSION, sk_createdAt = now, sk_updatedAt = now\<rparr>]\<rparr>
        else t\<lparr>ct_secrets := map (\<lambda>s. if sk_connectorId s = i
                 then s\<lparr>sk_ciphertext := sealed, sk_keyVersion := CONNECTOR_SECRET_KEY_VERSION, sk_updatedAt := now\<rparr>
                 else s) (ct_secrets t)\<rparr>)"
    using u unfolding upsertSecret_def by (auto simp: known_id split: sum.splits if_splits)
  show ?thesis
  proof (cases old)
    case None
    then have "i \<notin> sk_connectorId ` set (ct_secrets t)"
      using old by (auto simp: getSecret_def secretRow_def find_None_all split: option.splits sum.splits)
    then show ?thesis using ok ex None unfolding tablesOk_def refsOk_def by (auto simp: t' connectorIds_def)
  next
    case (Some _)
    then have "map sk_connectorId (ct_secrets t') = map sk_connectorId (ct_secrets t)" by (simp add: t')
    moreover have ids: "connectorIds t' = connectorIds t" by (simp add: t' connectorIds_def)
    moreover have "\<forall>s\<in>set (ct_secrets t'). sk_connectorId s \<in> connectorIds t"
      using ok Some ex by (auto simp: t' tablesOk_def refsOk_def)
    moreover have "ct_connectors t' = ct_connectors t" "ct_orgs t' = ct_orgs t"
      "ct_policies t' = ct_policies t" "ct_capabilities t' = ct_capabilities t" by (simp_all add: t')
    ultimately show ?thesis using ok unfolding tablesOk_def refsOk_def by simp
  qed
qed

lemma same_key: "samePolicyKey p r \<longleftrightarrow> policyKey r = policyKey p"
  by (auto simp: samePolicyKey_def policyAt_def policyKey_def)

lemma policy_ok:
  assumes ok: "tablesOk t" and u: "upsertPolicy t p = Inr (q, t')"
  shows "tablesOk t'"
proof -
  let ?put = "map (\<lambda>r. if samePolicyKey p r then p else r)"
  have ex: "cpo_connectorId p \<in> connectorIds t"
    and t': "t' = t\<lparr>ct_policies := (if list_ex (samePolicyKey p) (ct_policies t) then ?put (ct_policies t) else ct_policies t @ [p])\<rparr>"
    using u by (auto simp: upsertPolicy_def known_id simp del: if_image_distrib split: if_splits)
  have ids: "connectorIds t' = connectorIds t" by (simp add: t' connectorIds_def)
  have "map policyKey (?put (ct_policies t)) = map policyKey (ct_policies t)" by (simp add: same_key)
  then have "distinct (map policyKey (?put (ct_policies t)))" using ok by (simp add: tablesOk_def refsOk_def del: map_map)
  moreover have "\<not> list_ex (samePolicyKey p) (ct_policies t) \<Longrightarrow> policyKey p \<notin> policyKey ` set (ct_policies t)"
    by (auto simp: list_ex_iff same_key)
  ultimately have "distinct (map policyKey (ct_policies t'))" using ok by (simp add: t' tablesOk_def refsOk_def del: map_map)
  then show ?thesis using ok ex unfolding tablesOk_def refsOk_def ids by (auto simp: t')
qed

lemma connector_step_ok: "connector_step t t' \<Longrightarrow> tablesOk t \<Longrightarrow> tablesOk t'"
proof (induction rule: connector_step.induct)
  case (st_unsecret cr env t i b t')
  then have "t' = t \<or> t' = t\<lparr>ct_secrets := filter (\<lambda>s. sk_connectorId s \<noteq> i) (ct_secrets t)\<rparr>"
    by (auto simp: deleteSecret_def split: sum.splits option.splits)
  then show ?case using st_unsecret(2) by (auto simp: tablesOk_def refsOk_def distinct_map_filter connectorIds_def)
next
  case (st_unpolicy t i st sid cap b t')
  then have "t' = t \<or> t' = t\<lparr>ct_policies := filter (\<lambda>p. \<not> policyAt i st sid cap p) (ct_policies t)\<rparr>"
    by (auto simp: deletePolicyRow_def split: if_splits)
  then show ?case using st_unpolicy(2) by (auto simp: tablesOk_def refsOk_def distinct_map_filter connectorIds_def)
qed (blast intro: row_created_ok update_ok delete_ok secret_ok policy_ok)+

definition noRows :: "connector_tables \<Rightarrow> bool" where
  "noRows t \<longleftrightarrow> ct_connectors t = [] \<and> ct_capabilities t = [] \<and> ct_secrets t = [] \<and> ct_policies t = []"

interpretation connectors: step_system noRows connector_step tablesOk
proof
  fix t assume "noRows t"
  then show "tablesOk t" by (simp add: noRows_def tablesOk_def rowsOk_def oneRow_def refsOk_def)
qed (rule connector_step_ok)

lemma sameId: "tablesOk t \<Longrightarrow> r \<in> set (ct_connectors t) \<Longrightarrow> s \<in> set (ct_connectors t) \<Longrightarrow> cn_id r = cn_id s \<Longrightarrow> r = s"
  by (auto simp: tablesOk_def rowsOk_def distinct_map dest: inj_onD)

section \<open>Policies as an interface\<close>

text \<open>What a reader of policies relies on: at most one row per key, and storing a row replaces the row of
  its key and leaves the others.\<close>

locale policy_table =
  fixes put :: "'t \<Rightarrow> ConnectorPolicy \<Rightarrow> 't option"
    and rows :: "'t \<Rightarrow> string \<Rightarrow> ConnectorPolicy list"
    and ok :: "'t \<Rightarrow> bool"
  assumes put_ok: "ok t \<Longrightarrow> put t p = Some t' \<Longrightarrow> ok t'"
    and rows_put: "ok t \<Longrightarrow> put t p = Some t' \<Longrightarrow>
      set (rows t' c) = {r \<in> set (rows t c). policyKey r \<noteq> policyKey p} \<union> (if cpo_connectorId p = c then {p} else {})"
    and rows_key: "ok t \<Longrightarrow> r \<in> set (rows t c) \<Longrightarrow> s \<in> set (rows t c) \<Longrightarrow> policyKey r = policyKey s \<Longrightarrow> r = s"
    and rows_at: "r \<in> set (rows t c) \<Longrightarrow> cpo_connectorId r = c"
begin

lemma put_read:
  assumes "ok t" "put t p = Some t'"
  shows "p \<in> set (rows t' (cpo_connectorId p))"
  using rows_put [OF assms] by simp

lemma put_other:
  assumes "ok t" "put t p = Some t'" "policyKey r \<noteq> policyKey p"
  shows "r \<in> set (rows t' c) \<longleftrightarrow> r \<in> set (rows t c)"
  using rows_put [OF assms(1,2)] assms(3) by auto

end

definition allPolicies :: "connector_tables \<Rightarrow> string \<Rightarrow> ConnectorPolicy list" where
  "allPolicies t connectorId =
     listPolicies t \<lparr>lp_connectorId = connectorId, lp_subjectType = None, lp_subjectId = None, lp_capability = None\<rparr>"

definition storePolicy :: "connector_tables \<Rightarrow> ConnectorPolicy \<Rightarrow> connector_tables option" where
  "storePolicy t p = (case upsertPolicy t p of Inl _ \<Rightarrow> None | Inr (_, t') \<Rightarrow> Some t')"

lemma all_policies: "set (allPolicies t c) = {p \<in> set (ct_policies t). cpo_connectorId p = c}"
  by (auto simp: allPolicies_def listPolicies_def)

lemma policies_key:
  "tablesOk t \<Longrightarrow> p \<in> set (ct_policies t) \<Longrightarrow> q \<in> set (ct_policies t) \<Longrightarrow> policyKey p = policyKey q \<Longrightarrow> p = q"
  by (auto simp: tablesOk_def refsOk_def distinct_map dest: inj_onD)

lemma stored_policies:
  assumes "storePolicy t p = Some t'"
  shows "set (ct_policies t') = {r \<in> set (ct_policies t). policyKey r \<noteq> policyKey p} \<union> {p}"
  using assms by (auto simp: storePolicy_def upsertPolicy_def same_key list_ex_iff split: sum.splits if_splits)

interpretation policies: policy_table storePolicy allPolicies tablesOk
proof
  fix t t' p assume "tablesOk t" "storePolicy t p = Some t'"
  then show "tablesOk t'" using policy_ok by (auto simp: storePolicy_def split: sum.splits)
next
  fix t t' p c assume "tablesOk t" "storePolicy t p = Some t'"
  then show "set (allPolicies t' c) = {r \<in> set (allPolicies t c). policyKey r \<noteq> policyKey p} \<union> (if cpo_connectorId p = c then {p} else {})"
    by (auto simp: all_policies stored_policies)
next
  fix t r s c assume "tablesOk t" "r \<in> set (allPolicies t c)" "s \<in> set (allPolicies t c)" "policyKey r = policyKey s"
  then show "r = s" using policies_key by (simp add: all_policies)
qed (simp add: all_policies)

section \<open>Properties\<close>

text \<open>C26: The constraints of the connector tables. In every state reached from empty tables by creating,
  changing and deleting connectors, storing and deleting secrets and policies, an identifier names one
  connector, a name is used once per organisation and type, there is at most one default connector per
  organisation and type, no secret, policy or capability outlives its connector, and a connector has at most
  one secret and one policy for each subject and capability.\<close>

theorem connector_constraints:
  assumes "noRows t0" "connector_step\<^sup>*\<^sup>* t0 t"
  shows "(\<forall>r\<in>set (ct_connectors t). \<forall>s\<in>set (ct_connectors t).
        (cn_id r = cn_id s \<longrightarrow> r = s) \<and> (nameKey r = nameKey s \<longrightarrow> r = s)
        \<and> (cn_isDefault r \<and> cn_isDefault s \<and> cn_orgId r = cn_orgId s \<and> cn_type r = cn_type s \<longrightarrow> r = s))
    \<and> (\<forall>s\<in>set (ct_secrets t). sk_connectorId s \<in> connectorIds t)
    \<and> (\<forall>p\<in>set (ct_policies t). cpo_connectorId p \<in> connectorIds t)
    \<and> (\<forall>(i, c)\<in>set (ct_capabilities t). i \<in> connectorIds t)
    \<and> distinct (map sk_connectorId (ct_secrets t)) \<and> distinct (map policyKey (ct_policies t))"
proof -
  have ok: "tablesOk t" by (rule connectors.reachable_inv [OF assms])
  have name: "oneRow (\<lambda>_. True) nameKey (ct_connectors t)" and dflt: "oneRow cn_isDefault defaultKey (ct_connectors t)"
    using ok by (simp_all add: tablesOk_def rowsOk_def)
  have "(cn_id r = cn_id s \<longrightarrow> r = s) \<and> (nameKey r = nameKey s \<longrightarrow> r = s)
      \<and> (cn_isDefault r \<and> cn_isDefault s \<and> cn_orgId r = cn_orgId s \<and> cn_type r = cn_type s \<longrightarrow> r = s)"
    if "r \<in> set (ct_connectors t)" "s \<in> set (ct_connectors t)" for r s
    using oneRowD [OF name that] oneRowD [OF dflt that] sameId [OF ok that] unfolding defaultKey_def by fast
  then show ?thesis using ok unfolding tablesOk_def refsOk_def by blast
qed

definition exTables :: connector_tables where
  "exTables = \<lparr>ct_orgs = [''o''], ct_connectors = [], ct_capabilities = [], ct_secrets = [], ct_policies = []\<rparr>"

definition exNew :: "string \<Rightarrow> NewConnector" where
  "exNew name = \<lparr>nc_id = Some name, nc_orgId = ''o'', nc_type = ''loki'', nc_name = name, nc_config = None, nc_status = None,
     nc_lastVerifiedAt = None, nc_lastVerifyError = None, nc_isDefault = Some True, nc_createdBy = ''u''\<rparr>"

theorem connector_constraints_witness:
  "\<exists>t r s. connector_step\<^sup>*\<^sup>* exTables t \<and> ct_connectors t = [r, s] \<and> \<not> (cn_isDefault r \<and> cn_isDefault s)"
proof -
  have "case connectorCreate exTables 1 ''x'' (exNew ''a'') of Inl _ \<Rightarrow> False
     | Inr (_, t1) \<Rightarrow> (case connectorCreate t1 2 ''x'' (exNew ''b'') of Inl _ \<Rightarrow> False
         | Inr (_, t2) \<Rightarrow> map (\<lambda>r. (cn_id r, cn_orgId r, cn_type r)) (ct_connectors t2)
             = [(''a'', ''o'', ''loki''), (''b'', ''o'', ''loki'')])" by code_simp
  then obtain c1 t1 c2 t2 where s1: "connectorCreate exTables 1 ''x'' (exNew ''a'') = Inr (c1, t1)"
      and s2: "connectorCreate t1 2 ''x'' (exNew ''b'') = Inr (c2, t2)"
      and t2: "map (\<lambda>r. (cn_id r, cn_orgId r, cn_type r)) (ct_connectors t2) = [(''a'', ''o'', ''loki''), (''b'', ''o'', ''loki'')]"
    by (cases "connectorCreate exTables 1 ''x'' (exNew ''a'')"; cases "connectorCreate (snd (projr (connectorCreate exTables 1 ''x'' (exNew ''a'')))) 2 ''x'' (exNew ''b'')")
      auto
  have reach: "connector_step\<^sup>*\<^sup>* exTables t2" by (meson r_into_rtranclp rtranclp_trans st_create s1 s2)
  obtain r s where rs: "ct_connectors t2 = [r, s]" using t2 by (auto simp: map_eq_Cons_conv)
  have "noRows exTables" by (simp add: noRows_def exTables_def)
  note c = connector_constraints [OF this reach]
  have "cn_id r \<noteq> cn_id s" "cn_orgId r = cn_orgId s \<and> cn_type r = cn_type s" using t2 rs by auto
  then have "\<not> (cn_isDefault r \<and> cn_isDefault s)" using c rs by auto
  then show ?thesis using reach rs by blast
qed

end
