(* ===== verification/Ops_Policy.thy ===== *)
theory Ops_Policy
  imports Kubectl_Allowlist Connector_Repo
begin

text \<open>
  The policy of a shell command on a cluster connector
  (\<open>api-gateway/src/services/ops-policy.ts\<close>), the default table of
  \<open>common/src/models/connector-template.ts\<close>, and the pattern tests on command strings of
  \<open>ops-command-runner.ts\<close> (risk and read safety).

  A regular expression of the source is a scan over the positions of the string that tells whether
  (or where first) the pattern matches; \<open>\b\<close> is a change between word and other characters.

  Results: the capability of a command is that of its first \<open>kubectl\<close> verb, so a block on a verb is
  not seen behind another command or a flag; a block of a team of the caller wins over every other
  row, and a remembered approval holds for everyone without a row of a team.
\<close>

section \<open>Definitions\<close>

datatype PolicyDecision = Explicit ConnectorHumanPolicy | NoPolicy

definition kubectlVerbToCapability :: "string \<Rightarrow> string option" where
  "kubectlVerbToCapability verb =
     map_of [(''get'', ''runtime.get''), (''list'', ''runtime.list''), (''describe'', ''runtime.describe''),
       (''logs'', ''runtime.logs''), (''events'', ''runtime.events''), (''top'', ''runtime.top''),
       (''version'', ''runtime.get''), (''api-resources'', ''runtime.get''), (''api-versions'', ''runtime.get''),
       (''cluster-info'', ''runtime.get''), (''explain'', ''runtime.get''), (''auth'', ''runtime.get''), (''config'', ''runtime.get''),
       (''apply'', ''runtime.apply''), (''create'', ''runtime.create''), (''patch'', ''runtime.patch''), (''edit'', ''runtime.patch''),
       (''replace'', ''runtime.patch''), (''delete'', ''runtime.delete''), (''scale'', ''runtime.scale''), (''restart'', ''runtime.restart''),
       (''rollout'', ''runtime.rollout''), (''exec'', ''runtime.exec''), (''cp'', ''runtime.port_forward''),
       (''port-forward'', ''runtime.port_forward''), (''drain'', ''runtime.drain''), (''cordon'', ''runtime.cordon''),
       (''uncordon'', ''runtime.uncordon'')] verb"

subsection \<open>Patterns\<close>

definition wordChar :: "char \<Rightarrow> bool" where
  "wordChar c \<longleftrightarrow> (let n = (of_char c :: nat) in
     (48 \<le> n \<and> n \<le> 57) \<or> (65 \<le> n \<and> n \<le> 90) \<or> n = 95 \<or> (97 \<le> n \<and> n \<le> 122))"

definition lowerChar :: "char \<Rightarrow> bool" where
  "lowerChar c \<longleftrightarrow> (let n = (of_char c :: nat) in 97 \<le> n \<and> n \<le> 122)"

definition wordAt :: "string \<Rightarrow> bool" where
  "wordAt s \<longleftrightarrow> (case s of [] \<Rightarrow> False | c # _ \<Rightarrow> wordChar c)"

text \<open>\<open>\s+([a-z][a-z-]*)\b\<close> at the front: the longest run that ends at a word boundary.\<close>

definition verbAfter :: "string \<Rightarrow> string option" where
  "verbAfter r =
     (let r2 = dropWhile js_space r; run = takeWhile (\<lambda>c. lowerChar c \<or> c = CHR ''-'') r2 in
      if r = r2 \<or> run = [] \<or> \<not> lowerChar (hd run) then None
      else map_option (\<lambda>n. take n run)
             (List.find (\<lambda>n. wordChar (run ! (n - 1)) \<noteq> wordAt (drop n r2)) (rev [1..<length run + 1])))"

text \<open>\<open>KUBECTL_VERB_RE.exec\<close>: the first position where the pattern matches. \<open>inWord\<close> tells
  whether the character before is a word character.\<close>

fun firstKubectlVerb :: "bool \<Rightarrow> string \<Rightarrow> string option" where
  "firstKubectlVerb inWord [] = None"
| "firstKubectlVerb inWord (c # cs) =
     (case (if \<not> inWord \<and> starts_with ''kubectl'' (c # cs) then verbAfter (drop 7 (c # cs)) else None) of
        Some v \<Rightarrow> Some v
      | None \<Rightarrow> firstKubectlVerb (wordChar c) cs)"

definition capabilityForShellCommand :: "string \<Rightarrow> string" where
  "capabilityForShellCommand command =
     (case firstKubectlVerb False command of
        None \<Rightarrow> ''runtime.exec''
      | Some v \<Rightarrow> or_default (kubectlVerbToCapability v) ''runtime.exec'')"

text \<open>One of the verbs at the front, ending at a word boundary.\<close>

definition verbHere :: "string list \<Rightarrow> string \<Rightarrow> bool" where
  "verbHere verbs s \<longleftrightarrow> list_ex (\<lambda>v. starts_with v s \<and> \<not> wordAt (drop (length v) s)) verbs"

text \<open>\<open>\s+(?:[^\n|;&]*\s)?(verbs)\b\<close> at the front. After the leading white space either a verb
  follows at once, or after a stretch without separators that ends in white space. Taking less of
  the leading white space never helps: the stretch would only be longer.\<close>

definition verbBehind :: "string list \<Rightarrow> string \<Rightarrow> bool" where
  "verbBehind verbs r =
     (let n = length (takeWhile js_space r) in
      n > 0 \<and> list_ex (\<lambda>j. verbHere verbs (drop j r) \<and>
        (j \<le> n \<or> (js_space (r ! (j - 1)) \<and> list_all (\<lambda>c. c \<notin> set [CHR 10, CHR ''|'', CHR '';'', CHR ''&'']) (take (j - 1 - n) (drop n r)))))
        [1..<length r + 1])"

text \<open>\<open>\bkubectl\<close> followed by the given rest, anywhere.\<close>

fun kubectlThen :: "(string \<Rightarrow> bool) \<Rightarrow> bool \<Rightarrow> string \<Rightarrow> bool" where
  "kubectlThen rest inWord [] = False"
| "kubectlThen rest inWord (c # cs) =
     ((\<not> inWord \<and> starts_with ''kubectl'' (c # cs) \<and> rest (drop 7 (c # cs))) \<or> kubectlThen rest (wordChar c) cs)"

definition KUBECTL_CRITICAL :: "string list" where
  "KUBECTL_CRITICAL = [''delete'', ''drain'']"

definition KUBECTL_HIGH :: "string list" where
  "KUBECTL_HIGH = [''apply'', ''create'', ''patch'', ''edit'', ''replace'', ''scale'', ''cordon'', ''uncordon'', ''rollout'',
     ''exec'', ''cp'', ''annotate'', ''label'', ''taint'', ''set'']"

definition KUBECTL_READ :: "string list" where
  "KUBECTL_READ = [''get'', ''list'', ''describe'', ''logs'', ''events'', ''top'', ''version'', ''api-resources'', ''api-versions'',
     ''cluster-info'', ''explain'', ''auth'', ''config'']"

definition KUBECTL_UNAMBIGUOUS_WRITE :: "string list" where
  "KUBECTL_UNAMBIGUOUS_WRITE = [''apply'', ''create'', ''patch'', ''edit'', ''replace'', ''scale'', ''cordon'', ''uncordon'',
     ''rollout'', ''annotate'', ''label'', ''taint'', ''set'']"

text \<open>\<open>SHELL_DESTRUCTIVE_RE\<close>: at the start or after white space or a separator.\<close>

definition destructiveHere :: "string \<Rightarrow> bool" where
  "destructiveHere s \<longleftrightarrow> verbHere [''rm'', ''mv'', ''dd'', ''mkfs''] s
     \<or> (case s of [] \<Rightarrow> False | c # cs \<Rightarrow> c = CHR ''>'' \<and> starts_with ''/'' (dropWhile js_space cs))"

fun destructiveIn :: "bool \<Rightarrow> string \<Rightarrow> bool" where
  "destructiveIn fresh [] = False"
| "destructiveIn fresh (c # cs) =
     ((fresh \<and> destructiveHere (c # cs)) \<or> destructiveIn (js_space c \<or> c \<in> set [CHR ''|'', CHR '';'', CHR ''&'']) cs)"

datatype Risk = RiskLow | RiskMedium | RiskHigh | RiskCritical

definition classifyShellCommandRisk :: "string \<Rightarrow> Risk" where
  "classifyShellCommandRisk command =
     (if kubectlThen (verbBehind KUBECTL_CRITICAL) False command \<or> destructiveIn True command then RiskCritical
      else if kubectlThen (verbBehind KUBECTL_HIGH) False command then RiskHigh
      else if kubectlThen (\<lambda>s. \<not> wordAt s) False command \<and> \<not> kubectlThen (verbBehind KUBECTL_READ) False command then RiskMedium
      else RiskLow)"

definition shellCommandNeedsConfirmation :: "string \<Rightarrow> bool" where
  "shellCommandNeedsConfirmation command \<longleftrightarrow> classifyShellCommandRisk command \<noteq> RiskLow"

definition isAgentReadSafeCommand :: "string \<Rightarrow> bool" where
  "isAgentReadSafeCommand command =
     (if classifyShellCommandRisk command = RiskCritical then False
      else if kubectlThen (verbBehind KUBECTL_UNAMBIGUOUS_WRITE) False command then False
      else True)"

subsection \<open>Policy rows\<close>

text \<open>The decision from the rows of the connector.\<close>

definition policyFrom :: "ConnectorPolicy list \<Rightarrow> string \<Rightarrow> string \<Rightarrow> string list \<Rightarrow> PolicyDecision" where
  "policyFrom rows capability orgId userTeamIds =
     (let matching = filter (\<lambda>r. cpo_capability r = capability) rows;
          teamHits = map cpo_humanPolicy (filter (\<lambda>r. cpo_subjectType r = SubjectTeam \<and> cpo_subjectId r \<in> set userTeamIds) matching);
          byOrg = (case List.find (\<lambda>r. cpo_subjectType r = SubjectOrg \<and> cpo_subjectId r = orgId) matching of
                     Some r \<Rightarrow> Explicit (cpo_humanPolicy r) | None \<Rightarrow> NoPolicy)
      in if length teamHits > 0
         then (if HpBlock \<in> set teamHits then Explicit HpBlock
               else if HpAsk \<in> set teamHits then Explicit HpAsk
               else if HpAllow \<in> set teamHits then Explicit HpAllow
               else byOrg)
         else byOrg)"

definition resolveConnectorPolicy :: "connector_tables \<Rightarrow> string \<Rightarrow> string \<Rightarrow> string \<Rightarrow> string list \<Rightarrow> PolicyDecision" where
  "resolveConnectorPolicy t connectorId capability orgId userTeamIds =
     policyFrom (allPolicies t connectorId) capability orgId userTeamIds"

definition templateDefaultPolicy :: "string \<Rightarrow> string \<Rightarrow> ConnectorHumanPolicy option" where
  "templateDefaultPolicy connectorType capability =
     (if connectorType \<noteq> ''kubernetes'' then None else map_of KUBERNETES_DEFAULT_POLICIES capability)"

section \<open>Lemmas\<close>

subsection \<open>The capability of a command\<close>

lemma lower_word: "lowerChar c \<Longrightarrow> wordChar c \<and> \<not> js_space c"
  by (auto simp: lowerChar_def wordChar_def js_space_def Let_def)

lemma blank_facts: "js_space CHR '' ''" "\<not> lowerChar CHR '' ''" "\<not> wordChar CHR '' ''" "CHR '' '' \<noteq> CHR ''-''"
  by code_simp+

text \<open>A verb as the table has them: lower-case letters and inner hyphens.\<close>

definition plainVerb :: "string \<Rightarrow> bool" where
  "plainVerb v \<longleftrightarrow> v \<noteq> [] \<and> list_all (\<lambda>c. lowerChar c \<or> c = CHR ''-'') v \<and> lowerChar (hd v) \<and> lowerChar (last v)"

lemma verbAfter_plain:
  assumes "plainVerb v"
  shows "verbAfter (CHR '' '' # v @ CHR '' '' # rest) = Some v"
proof -
  let ?run = "\<lambda>c. lowerChar c \<or> c = CHR ''-''"
  have v: "v \<noteq> []" "\<And>c. c \<in> set v \<Longrightarrow> ?run c" "lowerChar (hd v)" "lowerChar (last v)"
    using assms by (auto simp: plainVerb_def list_all_iff)
  have drop: "dropWhile js_space (CHR '' '' # v @ CHR '' '' # rest) = v @ CHR '' '' # rest"
    using v(1,3) blank_facts(1) lower_word by (cases v) auto
  have run: "takeWhile ?run (v @ CHR '' '' # rest) = v"
    using v(2) blank_facts(2,4) by (subst takeWhile_append2) auto
  have at: "wordChar (v ! (length v - 1)) \<noteq> wordAt (drop (length v) (v @ CHR '' '' # rest))"
    using v(1,4) blank_facts(3) lower_word by (simp add: wordAt_def last_conv_nth)
  have "rev [1..<length v + 1] = length v # rev [1..<length v]" using v(1) by (cases v) simp_all
  then show ?thesis using at v(1,3) unfolding verbAfter_def Let_def drop run by simp
qed

lemma capability_first_verb:
  assumes "plainVerb v"
  shows "capabilityForShellCommand (''kubectl '' @ v @ CHR '' '' # rest) = or_default (kubectlVerbToCapability v) ''runtime.exec''"
proof -
  have "firstKubectlVerb False (''kubectl '' @ v @ CHR '' '' # rest) = Some v"
    using verbAfter_plain [OF assms, of rest] by (simp add: starts_with_def)
  then show ?thesis by (simp add: capabilityForShellCommand_def)
qed

subsection \<open>The effective policy\<close>

definition teamRow :: "string \<Rightarrow> string list \<Rightarrow> ConnectorPolicy \<Rightarrow> bool" where
  "teamRow capability teams r \<longleftrightarrow> cpo_capability r = capability \<and> cpo_subjectType r = SubjectTeam \<and> cpo_subjectId r \<in> set teams"

definition orgRow :: "string \<Rightarrow> string \<Rightarrow> ConnectorPolicy \<Rightarrow> bool" where
  "orgRow capability orgId r \<longleftrightarrow> cpo_capability r = capability \<and> cpo_subjectType r = SubjectOrg \<and> cpo_subjectId r = orgId"

lemma policyFrom_iff:
  "policyFrom rows capability orgId teams =
     (let hits = cpo_humanPolicy ` {r \<in> set rows. teamRow capability teams r} in
      if HpBlock \<in> hits then Explicit HpBlock else if HpAsk \<in> hits then Explicit HpAsk else if HpAllow \<in> hits then Explicit HpAllow
      else (case List.find (orgRow capability orgId) rows of Some r \<Rightarrow> Explicit (cpo_humanPolicy r) | None \<Rightarrow> NoPolicy))"
proof -
  have find: "List.find P (filter Q rows) = List.find (\<lambda>r. Q r \<and> P r) rows" for P Q :: "ConnectorPolicy \<Rightarrow> bool"
    by (induction rows) auto
  have hits: "set (map cpo_humanPolicy (filter (\<lambda>r. cpo_subjectType r = SubjectTeam \<and> cpo_subjectId r \<in> set teams)
      (filter (\<lambda>r. cpo_capability r = capability) rows))) = cpo_humanPolicy ` {r \<in> set rows. teamRow capability teams r}"
    by (auto simp: teamRow_def)
  show ?thesis unfolding policyFrom_def Let_def find hits [symmetric] orgRow_def [abs_def] by (simp del: set_map)
qed

context policy_table
begin

text \<open>Remembering an approval makes it the policy of everyone without a row of a team.\<close>

lemma remembered:
  assumes "ok t" "put t p = Some t'" "cpo_subjectType p = SubjectOrg"
    and "\<forall>r\<in>set (rows t (cpo_connectorId p)). \<not> teamRow (cpo_capability p) teams r"
  shows "policyFrom (rows t' (cpo_connectorId p)) (cpo_capability p) (cpo_subjectId p) teams = Explicit (cpo_humanPolicy p)"
proof -
  note rs = rows_put [OF assms(1,2), of "cpo_connectorId p"]
  have none: "{r \<in> set (rows t' (cpo_connectorId p)). teamRow (cpo_capability p) teams r} = {}"
    using rs assms(3,4) by (auto simp: teamRow_def)
  have "r = p" if "r \<in> set (rows t' (cpo_connectorId p))" "orgRow (cpo_capability p) (cpo_subjectId p) r" for r
    using that rows_key [OF put_ok [OF assms(1,2)] that(1) put_read [OF assms(1,2)]] rows_at [OF that(1)] assms(3)
    by (simp add: orgRow_def policyKey_def)
  moreover have "orgRow (cpo_capability p) (cpo_subjectId p) p" using assms(3) by (simp add: orgRow_def)
  ultimately have "List.find (orgRow (cpo_capability p) (cpo_subjectId p)) (rows t' (cpo_connectorId p)) = Some p"
    using put_read [OF assms(1,2)] find_Some_iff_first find_None_all by (metis not_None_eq)
  then show ?thesis unfolding policyFrom_iff none by simp
qed

end

lemma org_policy_row:
  assumes "tablesOk t"
  shows "List.find (orgRow capability orgId) (allPolicies t c) = getPolicy t c SubjectOrg orgId capability"
proof (cases "getPolicy t c SubjectOrg orgId capability")
  case None
  then have "List.find (orgRow capability orgId) (allPolicies t c) = None"
    unfolding getPolicy_def find_None_all by (auto simp: all_policies orgRow_def policyAt_def)
  then show ?thesis using None by simp
next
  case (Some r)
  then have r: "r \<in> set (allPolicies t c)" "orgRow capability orgId r" "policyAt c SubjectOrg orgId capability r"
    using find_Some_iff_first unfolding getPolicy_def by (fastforce simp: all_policies orgRow_def policyAt_def)+
  have "s = r" if "s \<in> set (allPolicies t c)" "orgRow capability orgId s" for s
    using that r policies.rows_key [OF assms that(1) r(1)] policies.rows_at [OF that(1)]
    by (simp add: orgRow_def policyAt_def policyKey_def)
  then show ?thesis using Some r find_Some_iff_first find_None_all by (metis not_None_eq)
qed

text \<open>The row an approval leaves behind when the approver asks to remember it.\<close>

lemma remembered_policy:
  assumes "tablesOk t" "upsertPolicy t p = Inr (q, t')" "cpo_subjectType p = SubjectOrg"
    "{r \<in> set (ct_policies t). cpo_connectorId r = cpo_connectorId p \<and> teamRow (cpo_capability p) teams r} = {}"
  shows "resolveConnectorPolicy t' (cpo_connectorId p) (cpo_capability p) (cpo_subjectId p) teams = Explicit (cpo_humanPolicy p)"
  using policies.remembered [OF assms(1), of p t' teams] assms(2-)
  by (auto simp: resolveConnectorPolicy_def storePolicy_def all_policies)

section \<open>Properties\<close>

text \<open>C25: precedence of connector policies. Over tables that meet their constraints, the policy for a
  capability is the strictest among the rows of the caller's teams (block before ask before allow), and only
  without such a row that of the organisation's row for the capability.\<close>

theorem connector_policy_precedence:
  assumes "tablesOk t"
  shows "resolveConnectorPolicy t c capability orgId teams =
      (let rows = {r \<in> set (ct_policies t). cpo_connectorId r = c \<and> teamRow capability teams r} in
       if \<exists>r\<in>rows. cpo_humanPolicy r = HpBlock then Explicit HpBlock
       else if \<exists>r\<in>rows. cpo_humanPolicy r = HpAsk then Explicit HpAsk
       else if rows \<noteq> {} then Explicit HpAllow
       else (case getPolicy t c SubjectOrg orgId capability of Some r \<Rightarrow> Explicit (cpo_humanPolicy r) | None \<Rightarrow> NoPolicy))"
proof -
  define R where "R = {r \<in> set (ct_policies t). cpo_connectorId r = c \<and> teamRow capability teams r}"
  have hits: "{r \<in> set (allPolicies t c). teamRow capability teams r} = R" by (auto simp: all_policies R_def)
  have mem: "h \<in> cpo_humanPolicy ` R \<longleftrightarrow> (\<exists>r\<in>R. cpo_humanPolicy r = h)" for h by auto
  have "\<not> (\<exists>r\<in>R. cpo_humanPolicy r = HpBlock) \<Longrightarrow> \<not> (\<exists>r\<in>R. cpo_humanPolicy r = HpAsk) \<Longrightarrow>
      (\<exists>r\<in>R. cpo_humanPolicy r = HpAllow) \<longleftrightarrow> R \<noteq> {}"
    by (metis ConnectorHumanPolicy.exhaust equals0I empty_iff)
  then show ?thesis
    unfolding resolveConnectorPolicy_def policyFrom_iff hits org_policy_row [OF assms] Let_def mem R_def [symmetric]
    by (simp only: split: if_split) blast
qed

definition exPolicy :: "ConnectorSubjectType \<Rightarrow> string \<Rightarrow> ConnectorHumanPolicy \<Rightarrow> ConnectorPolicy" where
  "exPolicy st sid h = \<lparr>cpo_connectorId = ''k'', cpo_subjectType = st, cpo_subjectId = sid, cpo_capability = ''runtime.delete'',
     cpo_scope = None, cpo_humanPolicy = h\<rparr>"

definition exRow :: ConnectorRow where
  "exRow = \<lparr>cn_id = ''k'', cn_orgId = ''o'', cn_type = ''kubernetes'', cn_name = ''prod'', cn_config = [], cn_status = CnActive,
     cn_lastVerifiedAt = None, cn_lastVerifyError = None, cn_isDefault = False, cn_createdBy = ''u'', cn_createdAt = 0, cn_updatedAt = 0\<rparr>"

definition exPolicyTables :: connector_tables where
  "exPolicyTables = exTables\<lparr>ct_connectors := [exRow],
     ct_policies := [exPolicy SubjectOrg ''o'' HpAllow, exPolicy SubjectTeam ''t1'' HpAllow, exPolicy SubjectTeam ''t2'' HpBlock]\<rparr>"

theorem connector_policy_precedence_witness:
  "resolveConnectorPolicy exPolicyTables ''k'' ''runtime.delete'' ''o'' [''t1'', ''t2''] = Explicit HpBlock"
proof -
  have ok: "tablesOk exPolicyTables" by code_simp
  have "exPolicy SubjectTeam ''t2'' HpBlock \<in> {r \<in> set (ct_policies exPolicyTables). cpo_connectorId r = ''k'' \<and>
      teamRow ''runtime.delete'' [''t1'', ''t2''] r}" "cpo_humanPolicy (exPolicy SubjectTeam ''t2'' HpBlock) = HpBlock" by code_simp+
  then show ?thesis
    unfolding connector_policy_precedence [OF ok, of "''k''" "''runtime.delete''" "''o''" "[''t1'', ''t2'']"] Let_def
    by (intro if_P) blast
qed

end
