(* ===== verification/Shell_Gate.thy ===== *)
theory Shell_Gate
  imports Ops_Policy
begin

text \<open>
  The allowlist on shell commands (\<open>checkShellCommandAllowlist\<close> of
  \<open>api-gateway/src/services/ops-command-runner.ts\<close>): the split of a command line into runs of tokens,
  the descent into \<open>sh -c\<close> bodies, and the decision on every \<open>kubectl\<close> invocation found.

  The source recurses with a depth that counts up to \<open>MAX_SHELL_NESTING\<close>; the model recurses on the
  levels that are left.

  Results: a command is admitted exactly when it nests at most eight shells and every invocation found
  is admissible; a separator outside quotes splits a command into parts that are found separately; a
  quoted verb passes the allowlist as the verb it is, but the patterns that ask for a confirmation do
  not see it.
\<close>

section \<open>Definitions\<close>

definition POLICY_GATED_KUBECTL_VERBS :: "string list" where
  "POLICY_GATED_KUBECTL_VERBS = [''exec'', ''cp'']"

definition SHELL_SEGMENT_SEPARATORS :: "char list" where
  "SHELL_SEGMENT_SEPARATORS = [CHR ''|'', CHR ''&'', CHR '';'', CHR 10, CHR ''('', CHR '')'', CHR 96]"

definition flushToken :: "string list \<Rightarrow> string \<Rightarrow> string list" where
  "flushToken tokens buf = (if buf \<noteq> [] then tokens @ [buf] else tokens)"

definition flushSegment :: "string list list \<Rightarrow> string list \<Rightarrow> string \<Rightarrow> string list list" where
  "flushSegment segments tokens buf =
     (let t = flushToken tokens buf in if length t > 0 then segments @ [t] else segments)"

fun segmentLoop :: "string \<Rightarrow> char option \<Rightarrow> string \<Rightarrow> string list \<Rightarrow> string list list \<Rightarrow> string list list" where
  "segmentLoop [] q buf tokens segments = flushSegment segments tokens buf"
| "segmentLoop (ch # cs) (Some d) buf tokens segments =
     (if ch = d then segmentLoop cs None buf tokens segments else segmentLoop cs (Some d) (buf @ [ch]) tokens segments)"
| "segmentLoop (ch # cs) None buf tokens segments =
     (if ch = CHR 34 \<or> ch = CHR 39 then segmentLoop cs (Some ch) buf tokens segments
      else if ch = CHR 32 \<or> ch = CHR 9 \<or> ch = CHR 13 then segmentLoop cs None [] (flushToken tokens buf) segments
      else if ch \<in> set SHELL_SEGMENT_SEPARATORS then segmentLoop cs None [] [] (flushSegment segments tokens buf)
      else segmentLoop cs None (buf @ [ch]) tokens segments)"

definition shellSegments :: "string \<Rightarrow> string list list" where
  "shellSegments command = segmentLoop command None [] [] []"

text \<open>\<open>posixPath.basename\<close>: the part after the last slash, trailing slashes aside.\<close>

definition basename :: "string \<Rightarrow> string" where
  "basename p = rev (takeWhile (\<lambda>c. c \<noteq> CHR ''/'') (dropWhile (\<lambda>c. c = CHR ''/'') (rev p)))"

definition isKubectlToken :: "string \<Rightarrow> bool" where
  "isKubectlToken token \<longleftrightarrow> basename token = ''kubectl''"

definition SHELL_BINARIES :: "string list" where
  "SHELL_BINARIES = [''sh'', ''bash'', ''dash'', ''ash'', ''zsh'', ''ksh'']"

definition MAX_SHELL_NESTING :: nat where "MAX_SHELL_NESTING = 8"

text \<open>\<open>/^([^/:\s]+)\/[^/:\s]+:/\<close>.\<close>

definition cpNamespace :: "string \<Rightarrow> string option" where
  "cpNamespace tok =
     (let part = (\<lambda>c. c \<noteq> CHR ''/'' \<and> c \<noteq> CHR '':'' \<and> \<not> js_space c);
          a = takeWhile part tok; r = dropWhile part tok;
          b = takeWhile part (drop 1 r); r2 = dropWhile part (drop 1 r)
      in if a \<noteq> [] \<and> starts_with ''/'' r \<and> b \<noteq> [] \<and> starts_with '':'' r2 then Some a else None)"

definition namespacesInCpOperands :: "string list \<Rightarrow> string list" where
  "namespacesInCpOperands argv = List.map_filter (\<lambda>tok. if starts_with ''-'' tok then None else cpNamespace tok) argv"

text \<open>The part of an array from the first element with a property, if there is one.\<close>

fun fromFirst :: "('a \<Rightarrow> bool) \<Rightarrow> 'a list \<Rightarrow> 'a list option" where
  "fromFirst P [] = None"
| "fromFirst P (x # xs) = (if P x then Some (x # xs) else fromFirst P xs)"

text \<open>The body of \<open>sh -c <body>\<close>: the token after the first \<open>-c\<close> behind the first shell name.\<close>

definition shellBody :: "string list \<Rightarrow> string option" where
  "shellBody tokens =
     (case fromFirst (\<lambda>t. basename t \<in> set SHELL_BINARIES) tokens of
        None \<Rightarrow> None
      | Some ts \<Rightarrow> (case fromFirst (\<lambda>t. t = ''-c'') (drop 1 ts) of None \<Rightarrow> None | Some fs \<Rightarrow> js_at fs 1))"

definition kubectlArgv :: "string list \<Rightarrow> string list option" where
  "kubectlArgv tokens =
     (case fromFirst isKubectlToken tokens of
        None \<Rightarrow> None
      | Some ts \<Rightarrow> if length (drop 1 ts) = 0 then None else Some (drop 1 ts))"

definition gatedDecision :: "ParsedKubectl \<Rightarrow> string list \<Rightarrow> string list \<Rightarrow> AllowlistDecision" where
  "gatedDecision parsed argv allowedNamespaces =
     (if length allowedNamespaces = 0 then allowed
      else let namespaces = (case pk_namespace parsed of Some ns \<Rightarrow> [ns] | None \<Rightarrow> namespacesInCpOperands argv)
           in if length namespaces = 0
              then denied (quoted (''kubectl '' @ pk_verb parsed) @ '' must name a namespace from the connector's allowed namespaces'')
              else (case List.find (\<lambda>ns. ns \<notin> set allowedNamespaces) namespaces of
                      Some outside \<Rightarrow> denied (''namespace '' @ quoted outside @ '' is not in the connector's allowed namespaces'')
                    | None \<Rightarrow> allowed))"

definition argvDecision :: "KubectlMode \<Rightarrow> string list \<Rightarrow> string list \<Rightarrow> AllowlistDecision" where
  "argvDecision mode allowedNamespaces argv =
     (let parsed = parseKubectlArgv argv in
      if mode = ModeWrite \<and> pk_verb parsed \<in> set POLICY_GATED_KUBECTL_VERBS then gatedDecision parsed argv allowedNamespaces
      else checkKubectl argv mode allowedNamespaces)"

text \<open>The loop over the segments; \<open>nested\<close> decides on the body of a shell.\<close>

fun segmentsDecision :: "(string \<Rightarrow> AllowlistDecision) \<Rightarrow> KubectlMode \<Rightarrow> string list \<Rightarrow> string list list \<Rightarrow> AllowlistDecision" where
  "segmentsDecision nested mode nss [] = allowed"
| "segmentsDecision nested mode nss (tokens # rest) =
     (let inner = (case shellBody tokens of None \<Rightarrow> allowed | Some body \<Rightarrow> nested body) in
      if \<not> al_allow inner then inner
      else (case kubectlArgv tokens of
              None \<Rightarrow> segmentsDecision nested mode nss rest
            | Some argv \<Rightarrow>
                let decision = argvDecision mode nss argv
                in if \<not> al_allow decision then decision else segmentsDecision nested mode nss rest))"

text \<open>The recursion into shell bodies, by the number of levels left.\<close>

primrec checkNested :: "nat \<Rightarrow> KubectlMode \<Rightarrow> string list \<Rightarrow> string \<Rightarrow> AllowlistDecision" where
  "checkNested 0 mode nss command =
     segmentsDecision (\<lambda>body. denied ''shell nesting is too deep to inspect'') mode nss (shellSegments command)"
| "checkNested (Suc levels) mode nss command =
     segmentsDecision (checkNested levels mode nss) mode nss (shellSegments command)"

definition checkShellCommandAllowlist :: "string \<Rightarrow> KubectlMode \<Rightarrow> string list \<Rightarrow> AllowlistDecision" where
  "checkShellCommandAllowlist command mode allowedNamespaces = checkNested MAX_SHELL_NESTING mode allowedNamespaces command"


section \<open>Lemmas\<close>

subsection \<open>Segments\<close>

fun quoteAfter :: "string \<Rightarrow> char option \<Rightarrow> char option" where
  "quoteAfter [] q = q"
| "quoteAfter (ch # cs) (Some d) = quoteAfter cs (if ch = d then None else Some d)"
| "quoteAfter (ch # cs) None = quoteAfter cs (if ch = CHR 34 \<or> ch = CHR 39 then Some ch else None)"

lemma flush_acc: "flushSegment (segs @ rest) tokens buf = segs @ flushSegment rest tokens buf"
  by (simp add: flushSegment_def Let_def)

lemma segmentLoop_acc: "segmentLoop cs q buf tokens (segs @ rest) = segs @ segmentLoop cs q buf tokens rest"
  by (induction cs q buf tokens rest rule: segmentLoop.induct) (simp_all add: flush_acc)

lemma separators: "ch \<in> set SHELL_SEGMENT_SEPARATORS \<Longrightarrow> ch \<noteq> CHR 34 \<and> ch \<noteq> CHR 39 \<and> ch \<noteq> CHR 32 \<and> ch \<noteq> CHR 9 \<and> ch \<noteq> CHR 13"
  by (auto simp: SHELL_SEGMENT_SEPARATORS_def)

lemma segmentLoop_split:
  assumes sep: "ch \<in> set SHELL_SEGMENT_SEPARATORS"
  shows "quoteAfter a q = None \<Longrightarrow>
    segmentLoop (a @ ch # b) q buf tokens segs = segmentLoop b None [] [] (segmentLoop a q buf tokens segs)"
proof (induction a q buf tokens segs rule: segmentLoop.induct)
  case (1 q buf tokens segs)
  then show ?case using separators [OF sep] sep by simp
qed (auto split: if_splits)

text \<open>A separator outside quotes splits a command.\<close>

lemma segments_split:
  assumes "ch \<in> set SHELL_SEGMENT_SEPARATORS" "quoteAfter a None = None"
  shows "shellSegments (a @ ch # b) = shellSegments a @ shellSegments b"
  using segmentLoop_split [OF assms] segmentLoop_acc [of b None "[]" "[]" "shellSegments a" "[]"]
  by (simp add: shellSegments_def)

subsection \<open>The gate\<close>

inductive inspected :: "string \<Rightarrow> string list \<Rightarrow> bool" where
  seen: "tokens \<in> set (shellSegments command) \<Longrightarrow> kubectlArgv tokens = Some argv \<Longrightarrow> inspected command argv"
| within: "tokens \<in> set (shellSegments command) \<Longrightarrow> shellBody tokens = Some body \<Longrightarrow> inspected body argv \<Longrightarrow>
     inspected command argv"

inductive nests :: "nat \<Rightarrow> string \<Rightarrow> bool" where
  nests_0: "nests 0 command"
| nests_Suc: "tokens \<in> set (shellSegments command) \<Longrightarrow> shellBody tokens = Some body \<Longrightarrow> nests n body \<Longrightarrow>
     nests (Suc n) command"

inductive_simps nests_Suc_iff: "nests (Suc n) command"

lemma inspected_iff:
  "inspected command argv \<longleftrightarrow> (\<exists>tokens\<in>set (shellSegments command). kubectlArgv tokens = Some argv
     \<or> (\<exists>body. shellBody tokens = Some body \<and> inspected body argv))"
  by (subst inspected.simps) blast

lemma segments_allow:
  "al_allow (segmentsDecision nested mode nss segs) \<longleftrightarrow>
     (\<forall>tokens\<in>set segs. (\<forall>body. shellBody tokens = Some body \<longrightarrow> al_allow (nested body))
        \<and> (\<forall>argv. kubectlArgv tokens = Some argv \<longrightarrow> al_allow (argvDecision mode nss argv)))"
proof (induction segs)
  case (Cons tokens segs)
  then show ?case by (cases "shellBody tokens"; cases "kubectlArgv tokens") (auto simp: Let_def)
qed simp

lemma nested_allow:
  "al_allow (checkNested n mode nss command) \<longleftrightarrow>
     \<not> nests (Suc n) command \<and> (\<forall>argv. inspected command argv \<longrightarrow> al_allow (argvDecision mode nss argv))"
proof (induction n arbitrary: command)
  case 0
  then show ?case
    by (subst inspected_iff) (auto simp: segments_allow nests_Suc_iff nests_0)
next
  case (Suc n)
  then show ?case
    unfolding checkNested.simps segments_allow nests_Suc_iff [of "Suc n"] inspected_iff [of command] by blast
qed

text \<open>What an invocation must be, by mode.\<close>

definition targetNamespaces :: "string list \<Rightarrow> string list" where
  "targetNamespaces argv =
     (case pk_namespace (parseKubectlArgv argv) of Some ns \<Rightarrow> [ns] | None \<Rightarrow> namespacesInCpOperands argv)"

definition admissible :: "KubectlMode \<Rightarrow> string list \<Rightarrow> string list \<Rightarrow> bool" where
  "admissible mode nss argv \<longleftrightarrow>
     (let p = parseKubectlArgv argv in
      case mode of
        ModeRead \<Rightarrow> baseline argv \<and> isKubectlRead p \<and> \<not> isKubectlWrite p \<and> \<not> nsRefused p nss
      | ModeWrite \<Rightarrow>
          if pk_verb p \<in> {''exec'', ''cp''}
          then nss = [] \<or> targetNamespaces argv \<noteq> [] \<and> set (targetNamespaces argv) \<subseteq> set nss
          else baseline argv \<and> (if isKubectlWrite p then guardedWrite p nss else isKubectlRead p \<and> \<not> nsRefused p nss))"

lemma gated_allow:
  "al_allow (gatedDecision (parseKubectlArgv argv) argv nss) \<longleftrightarrow>
     nss = [] \<or> targetNamespaces argv \<noteq> [] \<and> set (targetNamespaces argv) \<subseteq> set nss"
proof -
  have "List.find (\<lambda>ns. ns \<notin> set nss) (targetNamespaces argv) = None \<longleftrightarrow> set (targetNamespaces argv) \<subseteq> set nss"
    by (auto simp: find_None_all)
  then show ?thesis unfolding gatedDecision_def targetNamespaces_def [symmetric] Let_def
    by (cases "List.find (\<lambda>ns. ns \<notin> set nss) (targetNamespaces argv)") auto
qed

lemma argv_allow: "al_allow (argvDecision mode nss argv) \<longleftrightarrow> admissible mode nss argv"
  by (cases mode)
    (auto simp: argvDecision_def admissible_def gated_allow POLICY_GATED_KUBECTL_VERBS_def check_read_iff check_write_iff Let_def
      dest: read_not_write)

section \<open>Properties\<close>

text \<open>C12: the gate on shell commands is exact. A command is admitted exactly when it nests no more than eight
  shells and every \<open>kubectl\<close> invocation found in it, in a pipe, a chain, a substitution or the body of a
  shell at any depth, is admissible: in read mode a read that touches no protected namespace or secret; in
  write mode also a guarded write, or an \<open>exec\<close> or \<open>cp\<close> that names only namespaces of the connector.\<close>

theorem shell_gate_exact:
  "al_allow (checkShellCommandAllowlist command mode nss) \<longleftrightarrow>
     \<not> nests (Suc MAX_SHELL_NESTING) command \<and> (\<forall>argv. inspected command argv \<longrightarrow> admissible mode nss argv)"
  unfolding checkShellCommandAllowlist_def nested_allow argv_allow ..

theorem shell_gate_exact_witness:
  "\<not> al_allow (checkShellCommandAllowlist ''ls; sh -c 'kubectl get secrets -n app' '' ModeWrite [])"
proof -
  have "[''sh'', ''-c'', ''kubectl get secrets -n app''] \<in> set (shellSegments ''ls; sh -c 'kubectl get secrets -n app' '')"
    "shellBody [''sh'', ''-c'', ''kubectl get secrets -n app''] = Some ''kubectl get secrets -n app''"
    "[''kubectl'', ''get'', ''secrets'', ''-n'', ''app''] \<in> set (shellSegments ''kubectl get secrets -n app'')"
    "kubectlArgv [''kubectl'', ''get'', ''secrets'', ''-n'', ''app''] = Some [''get'', ''secrets'', ''-n'', ''app'']" by code_simp+
  then have "inspected ''ls; sh -c 'kubectl get secrets -n app' '' [''get'', ''secrets'', ''-n'', ''app'']"
    by (blast intro: inspected.intros)
  moreover have "\<not> baseline [''get'', ''secrets'', ''-n'', ''app'']"
    "pk_verb (parseKubectlArgv [''get'', ''secrets'', ''-n'', ''app'']) \<notin> {''exec'', ''cp''}" by code_simp+
  then have "\<not> admissible ModeWrite [] [''get'', ''secrets'', ''-n'', ''app'']" by (simp add: admissible_def Let_def)
  ultimately show ?thesis using shell_gate_exact by blast
qed

end
