(* ===== verification/Ops_Command_Runner.thy ===== *)
theory Ops_Command_Runner
  imports Shell_Gate Access_Control "HOL-Library.AList"
begin

text \<open>
  The runner of shell commands the agent proposes on a cluster connector
  (\<open>api-gateway/src/services/ops-command-runner.ts\<close>): its gates, the confirmation cards and the run
  that waits for a card.

  The module's maps are one record. \<open>await\<close> on a card splits a run in two: the first part ends with
  the run registered as the waiter of its card, the second starts when the promise was resolved. The
  shell and cluster-shell adapters are arguments; calling one, an audit row and a resolution event are
  entries of a log. Messages to the model are constructors of \<open>OpsObservation\<close>. Database reads of one
  run see one state of the tables.

  Results: what a sweep leaves of the cards; a command runs without a card only through the gates, and
  the ways are listed; a quoted write verb behind a read is one of them.
\<close>

section \<open>Definitions\<close>

subsection \<open>Confirmation cards\<close>

datatype ConfirmKind = KindKubectl | KindClusterShell

datatype ConfirmStatus = CfPending | CfExecuted | CfRejected | CfExpired | CfFailed

datatype ShellScope = ScopeCluster | ScopeNamespace

record OpsCommandConfirmation =
  oc_id :: string
  oc_kind :: ConfirmKind
  oc_orgId :: string
  oc_userId :: string
  oc_sessionId :: string
  oc_connectorId :: string
  oc_capability :: "string option"
  oc_command :: string
  oc_script :: "string option"
  oc_scope :: "ShellScope option"
  oc_namespace :: "string option"
  oc_image :: "string option"
  oc_risk :: Risk
  oc_summary :: string
  oc_expiresAt :: int
  oc_status :: ConfirmStatus
  oc_approvedByUserId :: "string option"
  oc_approvedAt :: "int option"

text \<open>What a run needs after its card was decided. \<open>su_deadline\<close> is when its timer fires.\<close>

record suspended =
  su_kind :: ConfirmKind
  su_connector :: Connector
  su_connectorId :: string
  su_command :: string
  su_capability :: string
  su_scope :: ShellScope
  su_namespace :: "string option"
  su_image :: "string option"
  su_userId :: string
  su_sessionId :: string
  su_deadline :: int

record confirm_store =
  cf_pending :: "(string \<times> OpsCommandConfirmation) list"
  cf_pruneAt :: "(string \<times> int) list"
  cf_waiters :: "(string \<times> suspended) list"
  cf_woken :: "(string \<times> suspended \<times> ConfirmStatus) list"

definition CONFIRMATION_TTL_MS :: int where "CONFIRMATION_TTL_MS = 10 * 60 * 1000"
definition CONFIRMATION_RETENTION_MS :: int where "CONFIRMATION_RETENTION_MS = 60 * 1000"

definition settleConfirmation :: "int \<Rightarrow> string \<Rightarrow> ConfirmStatus \<Rightarrow> confirm_store \<Rightarrow> confirm_store" where
  "settleConfirmation now i status st =
     st\<lparr>cf_pending := AList.map_entry i (\<lambda>c. c\<lparr>oc_status := status\<rparr>) (cf_pending st),
        cf_pruneAt := AList.update i (now + CONFIRMATION_RETENTION_MS) (cf_pruneAt st)\<rparr>"

definition sweepOne :: "int \<Rightarrow> string \<times> OpsCommandConfirmation \<Rightarrow> confirm_store \<Rightarrow> confirm_store" where
  "sweepOne now entry st =
     (case entry of (i, c) \<Rightarrow>
        let st1 = (if oc_status c = CfPending \<and> oc_expiresAt c \<le> now then settleConfirmation now i CfExpired st else st)
        in case map_of (cf_pruneAt st1) i of
             None \<Rightarrow> st1
           | Some pruneAt \<Rightarrow>
               if pruneAt \<le> now
               then st1\<lparr>cf_pending := AList.delete i (cf_pending st1), cf_pruneAt := AList.delete i (cf_pruneAt st1)\<rparr>
               else st1)"

definition sweepConfirmations :: "int \<Rightarrow> confirm_store \<Rightarrow> confirm_store" where
  "sweepConfirmations now st = fold (sweepOne now) (cf_pending st) st"

definition getOpsCommandConfirmation :: "int \<Rightarrow> confirm_store \<Rightarrow> string \<Rightarrow> OpsCommandConfirmation option \<times> confirm_store" where
  "getOpsCommandConfirmation now st i = (let st1 = sweepConfirmations now st in (map_of (cf_pending st1) i, st1))"

text \<open>Calling the waiter resolves its promise: the run is queued to go on.\<close>

definition wake :: "string \<Rightarrow> ConfirmStatus \<Rightarrow> confirm_store \<Rightarrow> confirm_store" where
  "wake i status st =
     (case map_of (cf_waiters st) i of
        None \<Rightarrow> st
      | Some run \<Rightarrow> st\<lparr>cf_waiters := AList.delete i (cf_waiters st), cf_woken := cf_woken st @ [(i, run, status)]\<rparr>)"

definition resolveOpsCommandConfirmation :: "int \<Rightarrow> confirm_store \<Rightarrow> string \<Rightarrow> ConfirmStatus \<Rightarrow> string option
    \<Rightarrow> OpsCommandConfirmation option \<times> confirm_store" where
  "resolveOpsCommandConfirmation now st i status approver =
     (case getOpsCommandConfirmation now st i of
        (None, st1) \<Rightarrow> (None, st1)
      | (Some c, st1) \<Rightarrow>
          if oc_status c \<noteq> CfPending then (Some c, st1)
          else let st2 = settleConfirmation now i status st1;
                   st3 = (case approver of None \<Rightarrow> st2
                          | Some u \<Rightarrow> st2\<lparr>cf_pending := AList.map_entry i
                              (\<lambda>c. c\<lparr>oc_approvedByUserId := Some u, oc_approvedAt := Some now\<rparr>) (cf_pending st2)\<rparr>)
               in (map_of (cf_pending st3) i, wake i status st3))"

definition addConfirmation :: "int \<Rightarrow> OpsCommandConfirmation \<Rightarrow> confirm_store \<Rightarrow> confirm_store" where
  "addConfirmation now c st =
     (let st1 = sweepConfirmations now st in st1\<lparr>cf_pending := AList.update (oc_id c) c (cf_pending st1)\<rparr>)"

definition createConfirmation :: "int \<Rightarrow> string \<Rightarrow> string \<Rightarrow> string \<Rightarrow> string \<Rightarrow> string \<Rightarrow> string \<Rightarrow> OpsCommandConfirmation" where
  "createConfirmation now i orgId userId sessionId connectorId command =
     \<lparr>oc_id = i, oc_kind = KindKubectl, oc_orgId = orgId, oc_userId = userId, oc_sessionId = sessionId,
      oc_connectorId = connectorId, oc_capability = Some (capabilityForShellCommand command), oc_command = command,
      oc_script = None, oc_scope = None, oc_namespace = None, oc_image = None, oc_risk = classifyShellCommandRisk command,
      oc_summary = ''Run '' @ command, oc_expiresAt = now + CONFIRMATION_TTL_MS, oc_status = CfPending,
      oc_approvedByUserId = None, oc_approvedAt = None\<rparr>"

definition clusterShellRisk :: "ShellScope \<Rightarrow> Risk" where
  "clusterShellRisk scope = (if scope = ScopeCluster then RiskCritical else RiskHigh)"

text \<open>A missing namespace prints as \<open>undefined\<close>.\<close>

definition createClusterShellConfirmation :: "int \<Rightarrow> string \<Rightarrow> string \<Rightarrow> string \<Rightarrow> string \<Rightarrow> string \<Rightarrow> string \<Rightarrow> ShellScope
    \<Rightarrow> string option \<Rightarrow> string option \<Rightarrow> OpsCommandConfirmation" where
  "createClusterShellConfirmation now i orgId userId sessionId connectorId script scope namespace img =
     (let target = (if scope = ScopeNamespace then ''namespace '' @ or_default namespace ''undefined'' else ''cluster'') in
      \<lparr>oc_id = i, oc_kind = KindClusterShell, oc_orgId = orgId, oc_userId = userId, oc_sessionId = sessionId,
       oc_connectorId = connectorId, oc_capability = None, oc_command = ''cluster shell ('' @ target @ ''): '' @ script,
       oc_script = Some script, oc_scope = Some scope,
       oc_namespace = (if truthy namespace then namespace else None), oc_image = (if truthy img then img else None),
       oc_risk = clusterShellRisk scope, oc_summary = ''Run cluster shell script on '' @ target,
       oc_expiresAt = now + CONFIRMATION_TTL_MS, oc_status = CfPending, oc_approvedByUserId = None, oc_approvedAt = None\<rparr>)"

text \<open>Waiting for the card: the card is gone (the source throws), it is decided already, or the run is
  registered with its timer.\<close>

datatype wait_outcome = WaitLost | WaitDecided ConfirmStatus | WaitRegistered

definition waitForConfirmationDecision :: "int \<Rightarrow> confirm_store \<Rightarrow> string \<Rightarrow> suspended \<Rightarrow> wait_outcome \<times> confirm_store" where
  "waitForConfirmationDecision now st i run =
     (case getOpsCommandConfirmation now st i of
        (None, st1) \<Rightarrow> (WaitLost, st1)
      | (Some c, st1) \<Rightarrow>
          if oc_status c \<noteq> CfPending then (WaitDecided (oc_status c), st1)
          else (WaitRegistered,
                st1\<lparr>cf_waiters := AList.update i (run\<lparr>su_deadline := now + max 0 (oc_expiresAt c - now)\<rparr>) (cf_waiters st1)\<rparr>))"

definition confirmationTimeout :: "int \<Rightarrow> confirm_store \<Rightarrow> string \<Rightarrow> confirm_store" where
  "confirmationTimeout now st i =
     wake i CfExpired
       (if map_option oc_status (map_of (cf_pending st) i) = Some CfPending then settleConfirmation now i CfExpired st else st)"

subsection \<open>The runner\<close>

definition readAllowedNamespaces :: "(string \<times> json) list \<Rightarrow> string list" where
  "readAllowedNamespaces config =
     (case prop_of config ''allowedNamespaces'' of
        Some (JArr raw) \<Rightarrow> List.map_filter (\<lambda>v. case v of JStr s \<Rightarrow> Some s | _ \<Rightarrow> None) raw
      | _ \<Rightarrow> [])"

definition hasInlineKubeconfig :: "(string \<times> json) list \<Rightarrow> bool" where
  "hasInlineKubeconfig config \<longleftrightarrow> truthy (json_str (prop_of config ''kubeconfig''))"

definition isInClusterCandidate :: "(string \<times> json) list \<Rightarrow> bool" where
  "isInClusterCandidate config \<longleftrightarrow> prop_of config ''apiServer'' \<in> {None, Some (JStr []), Some JNull}"

record OpsConnectorConfig =
  ok_id :: string
  ok_name :: string
  ok_environment :: "string option"
  ok_namespaces :: "string list option"
  ok_capabilities :: "string list"

definition connectorToOpsConfig :: "Connector \<Rightarrow> OpsConnectorConfig" where
  "connectorToOpsConfig c =
     (let context = json_str (prop_of (cn_config c) ''context''); namespaces = readAllowedNamespaces (cn_config c) in
      \<lparr>ok_id = cn_id c, ok_name = cn_name c, ok_environment = (if truthy context then context else None),
       ok_namespaces = (if length namespaces > 0 then Some namespaces else None), ok_capabilities = cn_capabilities c\<rparr>)"

definition listConnectors :: "connector_tables \<Rightarrow> string \<Rightarrow> OpsConnectorConfig list" where
  "listConnectors t orgId =
     map connectorToOpsConfig (filter (\<lambda>c. cn_type c = ''kubernetes'')
       (connectorList t \<lparr>lc_orgId = orgId, lc_type = None, lc_category = None, lc_capability = None, lc_status = None\<rparr>))"

datatype OpsObservation =
    ObsConnectorNotFound string string
  | ObsWrongType string string
  | ObsNoCredentials string
  | ObsEmptyCommand
  | ObsAllowlist "string option" string
  | ObsReserved
  | ObsBlocked string string
  | ObsNotApproved string ConfirmStatus
  | ObsOutput string
  | ObsEmptyScript
  | ObsNamespaceRequired
  | ObsNamespaceOutside string string
  | ObsShellFailed "string option"

record OpsRunResult =
  rr_observation :: OpsObservation
  rr_success :: "bool option"

datatype OpsCommandIntent = IntentRead | IntentPropose | IntentExecuteApproved | IntentOther string

record runner_deps =
  kd_orgId :: string
  kd_mode :: KubectlMode
  kd_resolveUserTeams :: "(string \<Rightarrow> string list) option"
  kd_readOnlyAgentBypass :: bool
  kd_shell :: "string \<Rightarrow> string \<Rightarrow> string"
  kd_clusterShell :: "string \<Rightarrow> string \<Rightarrow> ShellScope \<Rightarrow> string option \<Rightarrow> string option \<Rightarrow> string option + string"
  kd_audit :: bool

record command_params =
  pm_connectorId :: string
  pm_command :: string
  pm_intent :: OpsCommandIntent
  pm_userId :: string
  pm_sessionId :: string
  pm_confirmed :: bool

text \<open>The checks both kinds of run begin with.\<close>

definition opsConnector :: "runner_deps \<Rightarrow> connector_tables \<Rightarrow> string \<Rightarrow> OpsObservation + Connector" where
  "opsConnector deps t i =
     (case connectorGet t i (kd_orgId deps) of
        None \<Rightarrow> Inl (ObsConnectorNotFound i (kd_orgId deps))
      | Some c \<Rightarrow>
          if cn_type c \<noteq> ''kubernetes'' then Inl (ObsWrongType (cn_name c) (cn_type c))
          else if cn_secretMissing c \<and> \<not> hasInlineKubeconfig (cn_config c) \<and> \<not> isInClusterCandidate (cn_config c)
          then Inl (ObsNoCredentials (cn_name c))
          else Inr c)"

definition explicitPolicy :: "runner_deps \<Rightarrow> connector_tables \<Rightarrow> Connector \<Rightarrow> string \<Rightarrow> string \<Rightarrow> PolicyDecision" where
  "explicitPolicy deps t c capability userId =
     resolveConnectorPolicy t (cn_id c) capability (kd_orgId deps)
       (case kd_resolveUserTeams deps of Some f \<Rightarrow> f userId | None \<Rightarrow> [])"

definition effectivePolicy :: "Connector \<Rightarrow> string \<Rightarrow> PolicyDecision \<Rightarrow> PolicyDecision" where
  "effectivePolicy c capability explicit =
     (if explicit = NoPolicy
      then (case templateDefaultPolicy (cn_type c) capability of Some h \<Rightarrow> Explicit h | None \<Rightarrow> NoPolicy)
      else explicit)"

definition needsCard :: "runner_deps \<Rightarrow> bool \<Rightarrow> PolicyDecision \<Rightarrow> PolicyDecision \<Rightarrow> string \<Rightarrow> bool" where
  "needsCard deps confirmed explicit policy command =
     (let needsConfirmation = (\<not> confirmed \<and> (policy = Explicit HpAsk \<or> shellCommandNeedsConfirmation command)) in
      if needsConfirmation \<and> kd_readOnlyAgentBypass deps \<and> (explicit = NoPolicy \<or> explicit = Explicit HpAllow)
         \<and> isAgentReadSafeCommand command
      then False else needsConfirmation)"

record gate =
  ga_connector :: Connector
  ga_command :: string
  ga_capability :: string
  ga_needsConfirmation :: bool
  ga_bypassed :: bool

definition answer :: "OpsObservation \<Rightarrow> OpsRunResult" where
  "answer o' = \<lparr>rr_observation = o', rr_success = None\<rparr>"

definition refusal :: "OpsObservation \<Rightarrow> OpsRunResult" where
  "refusal o' = \<lparr>rr_observation = o', rr_success = Some False\<rparr>"

definition runCommandGate :: "runner_deps \<Rightarrow> connector_tables \<Rightarrow> command_params \<Rightarrow> OpsRunResult + gate" where
  "runCommandGate deps t pm =
     (case opsConnector deps t (pm_connectorId pm) of
        Inl e \<Rightarrow> Inl (answer e)
      | Inr c \<Rightarrow>
          let command = js_trim (pm_command pm) in
          if command = [] then Inl (answer ObsEmptyCommand)
          else
            let allowlist = checkShellCommandAllowlist command (kd_mode deps) (readAllowedNamespaces (cn_config c)) in
            if \<not> al_allow allowlist then Inl (refusal (ObsAllowlist (al_reason allowlist) (cn_name c)))
            else if pm_intent pm = IntentExecuteApproved \<and> \<not> pm_confirmed pm then Inl (answer ObsReserved)
            else
              let capability = capabilityForShellCommand command;
                  explicit = explicitPolicy deps t c capability (pm_userId pm);
                  policy = effectivePolicy c capability explicit
              in if policy = Explicit HpBlock then Inl (refusal (ObsBlocked capability (cn_name c)))
                 else
                   let needs = needsCard deps (pm_confirmed pm) explicit policy command
                   in Inr \<lparr>ga_connector = c, ga_command = command, ga_capability = capability, ga_needsConfirmation = needs,
                           ga_bypassed = (\<not> needs \<and> (policy = Explicit HpAsk \<or> shellCommandNeedsConfirmation command))\<rparr>)"

datatype ops_effect =
    EffExec "string option" string string
  | EffClusterShell "string option" string string ShellScope "string option"
  | EffResolved string ConfirmStatus "string option"
  | EffAudit string "string option" string string bool

datatype run_outcome = Finished OpsRunResult | Lost string | WaitingFor string

text \<open>Executing a command: the adapter, the resolution event, the audit row.\<close>

definition executeCommand :: "runner_deps \<Rightarrow> string option \<Rightarrow> string option \<Rightarrow> Connector \<Rightarrow> string \<Rightarrow> string \<Rightarrow> string \<Rightarrow> bool
    \<Rightarrow> OpsRunResult \<times> ops_effect list" where
  "executeCommand deps shown approvedBy c command capability userId bypassed =
     (let observation = kd_shell deps (cn_id c) command in
      (\<lparr>rr_observation = ObsOutput observation, rr_success = Some True\<rparr>,
       [EffExec shown (cn_id c) command]
       @ (case shown of Some i \<Rightarrow> [EffResolved i CfExecuted (Some (take 4000 observation))] | None \<Rightarrow> [])
       @ (if kd_audit deps
          then [EffAudit (if approvedBy = None then ''service_account'' else ''user'') approvedBy
                  (or_default approvedBy userId) capability bypassed] else [])))"

definition decisionEvent :: "ConfirmStatus \<Rightarrow> ConfirmStatus" where
  "decisionEvent decision = (if decision = CfPending then CfFailed else decision)"

text \<open>The part of \<open>runCommand\<close> behind the card.\<close>

definition afterDecision :: "runner_deps \<Rightarrow> int \<Rightarrow> confirm_store \<Rightarrow> string \<Rightarrow> suspended \<Rightarrow> ConfirmStatus
    \<Rightarrow> OpsRunResult \<times> ops_effect list \<times> confirm_store" where
  "afterDecision deps now st i run decision =
     (if decision \<noteq> CfExecuted
      then (refusal (ObsNotApproved (su_command run) decision), [EffResolved i (decisionEvent decision) None], st)
      else (case getOpsCommandConfirmation now st i of
              (settled, st1) \<Rightarrow>
                (case executeCommand deps (Some i) (Option.bind settled oc_approvedByUserId) (su_connector run) (su_command run)
                       (su_capability run) (su_userId run) False of
                   (res, effs) \<Rightarrow> (res, effs, st1))))"

definition runCommand :: "runner_deps \<Rightarrow> connector_tables \<Rightarrow> int \<Rightarrow> string \<Rightarrow> command_params \<Rightarrow> confirm_store
    \<Rightarrow> run_outcome \<times> ops_effect list \<times> confirm_store" where
  "runCommand deps t now newId pm st =
     (case runCommandGate deps t pm of
        Inl res \<Rightarrow> (Finished res, [], st)
      | Inr g \<Rightarrow>
          if \<not> ga_needsConfirmation g
          then (case executeCommand deps None None (ga_connector g) (ga_command g) (ga_capability g) (pm_userId pm) (ga_bypassed g) of
                  (res, effs) \<Rightarrow> (Finished res, effs, st))
          else
            let card = createConfirmation now newId (kd_orgId deps) (pm_userId pm) (pm_sessionId pm) (pm_connectorId pm) (ga_command g);
                run = \<lparr>su_kind = KindKubectl, su_connector = ga_connector g, su_connectorId = pm_connectorId pm,
                       su_command = ga_command g, su_capability = ga_capability g, su_scope = ScopeCluster, su_namespace = None,
                       su_image = None, su_userId = pm_userId pm, su_sessionId = pm_sessionId pm, su_deadline = now\<rparr>
            in case waitForConfirmationDecision now (addConfirmation now card st) newId run of
                 (WaitLost, st1) \<Rightarrow> (Lost newId, [], st1)
               | (WaitDecided d, st1) \<Rightarrow>
                   (case afterDecision deps now st1 newId run d of (res, effs, st2) \<Rightarrow> (Finished res, effs, st2))
               | (WaitRegistered, st1) \<Rightarrow> (WaitingFor newId, [], st1))"

record shell_params =
  sm_connectorId :: string
  sm_script :: string
  sm_scope :: ShellScope
  sm_namespace :: "string option"
  sm_image :: "string option"
  sm_userId :: string
  sm_sessionId :: string
  sm_confirmed :: bool

definition scopeName :: "ShellScope \<Rightarrow> string" where
  "scopeName s = (case s of ScopeCluster \<Rightarrow> ''cluster'' | ScopeNamespace \<Rightarrow> ''namespace'')"

definition runClusterShellGate :: "runner_deps \<Rightarrow> connector_tables \<Rightarrow> shell_params \<Rightarrow> OpsRunResult + Connector" where
  "runClusterShellGate deps t sm =
     (case opsConnector deps t (sm_connectorId sm) of
        Inl e \<Rightarrow> Inl (answer e)
      | Inr c \<Rightarrow>
          if js_trim (sm_script sm) = [] then Inl (answer ObsEmptyScript)
          else if sm_scope sm = ScopeNamespace \<and> \<not> truthy (map_option js_trim (sm_namespace sm)) then Inl (answer ObsNamespaceRequired)
          else
            let nss = readAllowedNamespaces (cn_config c); target = map_option js_trim (sm_namespace sm) in
            if sm_scope sm = ScopeNamespace \<and> truthy target \<and> length nss > 0 \<and> the target \<notin> set nss
            then Inl (refusal (ObsNamespaceOutside (the target) (cn_name c)))
            else
              let capability = ''runtime.cluster_shell.'' @ scopeName (sm_scope sm);
                  explicit = explicitPolicy deps t c capability (sm_userId sm)
              in if effectivePolicy c capability explicit = Explicit HpBlock
                 then Inl (refusal (ObsBlocked capability (cn_name c))) else Inr c)"

definition presentString :: "string option \<Rightarrow> string option" where
  "presentString s = (if truthy s then s else None)"

definition executeClusterShell :: "runner_deps \<Rightarrow> string option \<Rightarrow> Connector \<Rightarrow> string \<Rightarrow> ShellScope \<Rightarrow> string option \<Rightarrow> string option
    \<Rightarrow> OpsRunResult \<times> ops_effect list" where
  "executeClusterShell deps shown c script scope namespace img =
     (let call = EffClusterShell shown (cn_id c) script scope (presentString namespace) in
      case kd_clusterShell deps (cn_id c) script scope (presentString namespace) (presentString img) of
        Inl err \<Rightarrow> (refusal (ObsShellFailed err),
          call # (case shown of Some i \<Rightarrow> [EffResolved i CfFailed err] | None \<Rightarrow> []))
      | Inr output \<Rightarrow> (\<lparr>rr_observation = ObsOutput output, rr_success = Some True\<rparr>,
          call # (case shown of Some i \<Rightarrow> [EffResolved i CfExecuted (Some (take 4000 output))] | None \<Rightarrow> [])))"

definition afterShellDecision :: "runner_deps \<Rightarrow> string \<Rightarrow> suspended \<Rightarrow> ConfirmStatus \<Rightarrow> OpsRunResult \<times> ops_effect list" where
  "afterShellDecision deps i run decision =
     (if decision \<noteq> CfExecuted
      then (refusal (ObsNotApproved (su_connectorId run) decision), [EffResolved i (decisionEvent decision) None])
      else executeClusterShell deps (Some i) (su_connector run) (su_command run) (su_scope run) (su_namespace run) (su_image run))"

definition runClusterShell :: "runner_deps \<Rightarrow> connector_tables \<Rightarrow> int \<Rightarrow> string \<Rightarrow> shell_params \<Rightarrow> confirm_store
    \<Rightarrow> run_outcome \<times> ops_effect list \<times> confirm_store" where
  "runClusterShell deps t now newId sm st =
     (case runClusterShellGate deps t sm of
        Inl res \<Rightarrow> (Finished res, [], st)
      | Inr c \<Rightarrow>
          if sm_confirmed sm
          then (case executeClusterShell deps None c (sm_script sm) (sm_scope sm) (sm_namespace sm) (sm_image sm) of
                  (res, effs) \<Rightarrow> (Finished res, effs, st))
          else
            let card = createClusterShellConfirmation now newId (kd_orgId deps) (sm_userId sm) (sm_sessionId sm) (sm_connectorId sm)
                         (sm_script sm) (sm_scope sm) (presentString (sm_namespace sm)) (presentString (sm_image sm));
                run = \<lparr>su_kind = KindClusterShell, su_connector = c, su_connectorId = sm_connectorId sm,
                       su_command = sm_script sm, su_capability = ''runtime.cluster_shell.'' @ scopeName (sm_scope sm),
                       su_scope = sm_scope sm, su_namespace = sm_namespace sm, su_image = sm_image sm, su_userId = sm_userId sm,
                       su_sessionId = sm_sessionId sm, su_deadline = now\<rparr>
            in case waitForConfirmationDecision now (addConfirmation now card st) newId run of
                 (WaitLost, st1) \<Rightarrow> (Lost newId, [], st1)
               | (WaitDecided d, st1) \<Rightarrow>
                   (case afterShellDecision deps newId run d of (res, effs) \<Rightarrow> (Finished res, effs, st1))
               | (WaitRegistered, st1) \<Rightarrow> (WaitingFor newId, [], st1))"

text \<open>The run goes on once its promise was resolved.\<close>

definition resumeRun :: "runner_deps \<Rightarrow> int \<Rightarrow> confirm_store \<Rightarrow> string \<Rightarrow> suspended \<Rightarrow> ConfirmStatus
    \<Rightarrow> OpsRunResult \<times> ops_effect list \<times> confirm_store" where
  "resumeRun deps now st i run decision =
     (case su_kind run of
        KindKubectl \<Rightarrow> afterDecision deps now st i run decision
      | KindClusterShell \<Rightarrow> (case afterShellDecision deps i run decision of (res, effs) \<Rightarrow> (res, effs, st)))"

section \<open>Lemmas\<close>

subsection \<open>The cards after a sweep\<close>

lemma map_entry_conv: "map_of (AList.map_entry k f xs) = (map_of xs)(k := map_option f (map_of xs k))"
  by (induction xs) (auto simp: fun_eq_iff)

lemma settle_simps [simp]:
  "map_of (cf_pending (settleConfirmation now i status st)) j =
     (if j = i then map_option (\<lambda>c. c\<lparr>oc_status := status\<rparr>) (map_of (cf_pending st) i) else map_of (cf_pending st) j)"
  "map_of (cf_pruneAt (settleConfirmation now i status st)) j =
     (if j = i then Some (now + CONFIRMATION_RETENTION_MS) else map_of (cf_pruneAt st) j)"
  "cf_waiters (settleConfirmation now i status st) = cf_waiters st" "cf_woken (settleConfirmation now i status st) = cf_woken st"
  by (simp_all add: settleConfirmation_def map_entry_conv update_conv)

text \<open>What a sweep makes of one card.\<close>

definition swept :: "int \<Rightarrow> confirm_store \<Rightarrow> string \<Rightarrow> OpsCommandConfirmation option" where
  "swept now st i =
     (case map_of (cf_pending st) i of
        None \<Rightarrow> None
      | Some c \<Rightarrow>
          if oc_status c = CfPending \<and> oc_expiresAt c \<le> now then Some (c\<lparr>oc_status := CfExpired\<rparr>)
          else (case map_of (cf_pruneAt st) i of
                  Some pruneAt \<Rightarrow> if pruneAt \<le> now then None else Some c
                | None \<Rightarrow> Some c))"

lemma sweepOne_other:
  assumes "j \<noteq> fst e"
  shows "map_of (cf_pending (sweepOne now e st)) j = map_of (cf_pending st) j"
    "map_of (cf_pruneAt (sweepOne now e st)) j = map_of (cf_pruneAt st) j"
  using assms by (auto simp: sweepOne_def Let_def delete_conv split: prod.splits option.splits if_splits)

lemma sweepOne_runs [simp]: "cf_waiters (sweepOne now e st) = cf_waiters st" "cf_woken (sweepOne now e st) = cf_woken st"
  by (auto simp: sweepOne_def Let_def split: prod.splits option.splits if_splits)

lemma sweepOne_self:
  assumes "map_of (cf_pending st) i = Some c"
  shows "map_of (cf_pending (sweepOne now (i, c) st)) i = swept now st i"
  using assms
  by (auto simp: sweepOne_def swept_def Let_def delete_conv CONFIRMATION_RETENTION_MS_def split: option.splits if_splits)

lemma sweepFold_other:
  assumes "j \<notin> fst ` set es"
  shows "map_of (cf_pending (fold (sweepOne now) es st)) j = map_of (cf_pending st) j"
    "map_of (cf_pruneAt (fold (sweepOne now) es st)) j = map_of (cf_pruneAt st) j"
  using assms by (induction es arbitrary: st) (auto simp: sweepOne_other)

lemma sweepFold_runs: "cf_waiters (fold (sweepOne now) es st) = cf_waiters st" "cf_woken (fold (sweepOne now) es st) = cf_woken st"
  by (induction es arbitrary: st) simp_all

lemma swept_cong:
  "map_of (cf_pending st') i = map_of (cf_pending st) i \<Longrightarrow> map_of (cf_pruneAt st') i = map_of (cf_pruneAt st) i \<Longrightarrow>
     swept now st' i = swept now st i"
  unfolding swept_def by (simp only: )

lemma sweepFold_in:
  "distinct (map fst es) \<Longrightarrow> (i, c) \<in> set es \<Longrightarrow> map_of (cf_pending st) i = Some c \<Longrightarrow>
     map_of (cf_pending (fold (sweepOne now) es st)) i = swept now st i"
proof (induction es arbitrary: st)
  case (Cons e es)
  show ?case
  proof (cases "e = (i, c)")
    case True
    then have "i \<notin> fst ` set es" using Cons.prems(1) by auto
    then show ?thesis using True Cons.prems(3) by (simp add: sweepFold_other sweepOne_self)
  next
    case False
    then have "i \<noteq> fst e" using Cons.prems(1,2) by (auto simp: image_iff)
    then show ?thesis using Cons False by (auto simp: sweepOne_other intro!: swept_cong)
  qed
qed simp

lemma sweep_lookup:
  assumes "distinct (map fst (cf_pending st))"
  shows "map_of (cf_pending (sweepConfirmations now st)) i = swept now st i"
proof (cases "map_of (cf_pending st) i")
  case None
  then have "i \<notin> fst ` set (cf_pending st)" by (simp add: map_of_eq_None_iff)
  then show ?thesis using None by (simp add: sweepConfirmations_def sweepFold_other swept_def)
next
  case (Some c)
  then show ?thesis unfolding sweepConfirmations_def by (intro sweepFold_in assms map_of_SomeD) auto
qed

subsection \<open>The gates\<close>

text \<open>What a command has passed when the gate lets it on.\<close>

definition gated :: "runner_deps \<Rightarrow> connector_tables \<Rightarrow> command_params \<Rightarrow> Connector \<Rightarrow> string \<Rightarrow> bool" where
  "gated deps t pm c command \<longleftrightarrow>
     connectorGet t (pm_connectorId pm) (kd_orgId deps) = Some c \<and> cn_type c = ''kubernetes''
     \<and> command = js_trim (pm_command pm) \<and> command \<noteq> []
     \<and> al_allow (checkShellCommandAllowlist command (kd_mode deps) (readAllowedNamespaces (cn_config c)))
     \<and> (pm_intent pm = IntentExecuteApproved \<longrightarrow> pm_confirmed pm)"

definition policyFor :: "runner_deps \<Rightarrow> connector_tables \<Rightarrow> command_params \<Rightarrow> Connector \<Rightarrow> PolicyDecision" where
  "policyFor deps t pm c =
     explicitPolicy deps t c (capabilityForShellCommand (js_trim (pm_command pm))) (pm_userId pm)"

lemma gate_passed:
  assumes "runCommandGate deps t pm = Inr g"
  shows "gated deps t pm (ga_connector g) (ga_command g)"
    "effectivePolicy (ga_connector g) (ga_capability g) (policyFor deps t pm (ga_connector g)) \<noteq> Explicit HpBlock"
    "ga_capability g = capabilityForShellCommand (ga_command g)"
    "ga_needsConfirmation g \<longleftrightarrow> needsCard deps (pm_confirmed pm) (policyFor deps t pm (ga_connector g))
       (effectivePolicy (ga_connector g) (ga_capability g) (policyFor deps t pm (ga_connector g))) (ga_command g)"
  using assms unfolding runCommandGate_def Let_def
  by (auto simp: gated_def policyFor_def opsConnector_def split: sum.splits if_splits option.splits)

lemma exec_effects:
  "executeCommand deps sh by c command capability u bp = (res, effs) \<Longrightarrow>
     EffExec shown ci cmd \<in> set effs \<longleftrightarrow> shown = sh \<and> ci = cn_id c \<and> cmd = command"
  by (auto simp: executeCommand_def Let_def split: option.splits)

lemma after_effects:
  "afterDecision deps now st i run d = (res, effs, st') \<Longrightarrow> EffExec shown ci cmd \<in> set effs \<Longrightarrow> shown = Some i"
  by (auto simp: afterDecision_def exec_effects split: if_splits prod.splits)

text \<open>Both places that build a runner leave \<open>resolveUserTeams\<close> out: rows of teams then have no effect.\<close>

lemma team_rows_ignored:
  assumes "kd_resolveUserTeams deps = None" "tablesOk t"
  shows "explicitPolicy deps t c capability userId =
    (case getPolicy t (cn_id c) SubjectOrg (kd_orgId deps) capability of Some r \<Rightarrow> Explicit (cpo_humanPolicy r) | None \<Rightarrow> NoPolicy)"
  using assms by (simp add: explicitPolicy_def resolveConnectorPolicy_def policyFrom_iff org_policy_row teamRow_def)

section \<open>Properties\<close>

text \<open>C11: what runs without a card. When a run calls the shell without a card, the command is the trimmed one
  the agent gave, the connector is a cluster of the runner's organisation, every \<open>kubectl\<close> invocation
  found in the command is admissible in the runner's mode (in read mode: a read), the connector's policy
  does not block, and the caller had confirmed, or nothing asked (the policy is not \<open>ask\<close> and the patterns
  see no risk), or the read bypass is on, no explicit row says ask or block, and the patterns call the
  command safe.\<close>

theorem run_without_card:
  assumes "runCommand deps t now newId pm st = (out, effs, st')" "EffExec None ci cmd \<in> set effs"
  shows "\<exists>c policy explicit. gated deps t pm c cmd \<and> ci = cn_id c \<and> explicit = policyFor deps t pm c
    \<and> policy = effectivePolicy c (capabilityForShellCommand cmd) explicit \<and> policy \<noteq> Explicit HpBlock
    \<and> (\<forall>argv. inspected cmd argv \<longrightarrow> admissible (kd_mode deps) (readAllowedNamespaces (cn_config c)) argv)
    \<and> (pm_confirmed pm \<or> policy \<noteq> Explicit HpAsk \<and> classifyShellCommandRisk cmd = RiskLow
       \<or> kd_readOnlyAgentBypass deps \<and> explicit \<in> {NoPolicy, Explicit HpAllow} \<and> isAgentReadSafeCommand cmd)"
proof -
  obtain g where g: "runCommandGate deps t pm = Inr g"
    using assms by (cases "runCommandGate deps t pm") (auto simp: runCommand_def)
  have direct: "\<not> ga_needsConfirmation g"
  proof
    assume "ga_needsConfirmation g"
    then show False using assms g
      by (auto simp: runCommand_def Let_def split: prod.splits wait_outcome.splits dest: after_effects)
  qed
  have eff: "ci = cn_id (ga_connector g)" "cmd = ga_command g"
    using assms g direct by (auto simp: runCommand_def exec_effects split: prod.splits)
  note gp = gate_passed [OF g]
  have "al_allow (checkShellCommandAllowlist cmd (kd_mode deps) (readAllowedNamespaces (cn_config (ga_connector g))))"
    using gp(1) unfolding gated_def eff by blast
  then have adm: "\<forall>argv. inspected cmd argv \<longrightarrow> admissible (kd_mode deps) (readAllowedNamespaces (cn_config (ga_connector g))) argv"
    by (simp add: checkShellCommandAllowlist_def nested_allow argv_allow)
  have "pm_confirmed pm \<or> effectivePolicy (ga_connector g) (ga_capability g) (policyFor deps t pm (ga_connector g)) \<noteq> Explicit HpAsk
        \<and> classifyShellCommandRisk cmd = RiskLow
      \<or> kd_readOnlyAgentBypass deps \<and> policyFor deps t pm (ga_connector g) \<in> {NoPolicy, Explicit HpAllow} \<and> isAgentReadSafeCommand cmd"
    using direct unfolding gp(4) needsCard_def Let_def eff(2) shellCommandNeedsConfirmation_def by (auto split: if_splits)
  then show ?thesis using gp eff adm by auto
qed

definition exRunner :: "runner_deps" where
  "exRunner = \<lparr>kd_orgId = ''o'', kd_mode = ModeWrite, kd_resolveUserTeams = None, kd_readOnlyAgentBypass = True,
     kd_shell = (\<lambda>_ _. ''done''), kd_clusterShell = (\<lambda>_ _ _ _ _. Inr ''done''), kd_audit = True\<rparr>"

text \<open>A cluster with the rows its creation through the API leaves.\<close>

definition exSeeded :: connector_tables where
  "exSeeded = exTables\<lparr>ct_connectors := [exRow],
     ct_policies := map (\<lambda>(cap, h). \<lparr>cpo_connectorId = ''k'', cpo_subjectType = SubjectOrg, cpo_subjectId = ''o'', cpo_capability = cap,
       cpo_scope = None, cpo_humanPolicy = h\<rparr>) KUBERNETES_DEFAULT_POLICIES\<rparr>"

definition exCommand :: "string \<Rightarrow> command_params" where
  "exCommand cmd = \<lparr>pm_connectorId = ''k'', pm_command = cmd, pm_intent = IntentRead, pm_userId = ''sa'', pm_sessionId = ''s'', pm_confirmed = False\<rparr>"

definition emptyStore :: confirm_store where
  "emptyStore = \<lparr>cf_pending = [], cf_pruneAt = [], cf_waiters = [], cf_woken = []\<rparr>"

definition quotedDelete :: string where
  "quotedDelete = ''kubectl get po -n a; kubectl 'delete' po w -n a''"

definition exConnector :: Connector where
  "exConnector = rowToConnector exSeeded exRow"

lemma seeded_gate:
  assumes "al_allow (checkShellCommandAllowlist cmd ModeWrite [])" "js_trim cmd = cmd" "cmd \<noteq> []"
    "capabilityForShellCommand cmd = ''runtime.get''"
  shows "runCommandGate exRunner exSeeded (exCommand cmd) =
    Inr \<lparr>ga_connector = exConnector, ga_command = cmd, ga_capability = ''runtime.get'',
      ga_needsConfirmation = (classifyShellCommandRisk cmd \<noteq> RiskLow \<and> \<not> isAgentReadSafeCommand cmd),
      ga_bypassed = (classifyShellCommandRisk cmd \<noteq> RiskLow \<and> isAgentReadSafeCommand cmd)\<rparr>"
proof -
  have c: "opsConnector exRunner exSeeded ''k'' = Inr exConnector" by code_simp
  have nss: "readAllowedNamespaces (cn_config exConnector) = []" by code_simp
  have pol: "explicitPolicy exRunner exSeeded exConnector ''runtime.get'' ''sa'' = Explicit HpAllow"
    "effectivePolicy exConnector ''runtime.get'' (Explicit HpAllow) = Explicit HpAllow" by code_simp+
  have deps: "kd_mode exRunner = ModeWrite" "kd_readOnlyAgentBypass exRunner" by (simp_all add: exRunner_def)
  have pm: "pm_connectorId (exCommand cmd) = ''k''" "pm_command (exCommand cmd) = cmd" "pm_intent (exCommand cmd) = IntentRead"
    "pm_userId (exCommand cmd) = ''sa''" "\<not> pm_confirmed (exCommand cmd)" by (simp_all add: exCommand_def)
  show ?thesis
    unfolding runCommandGate_def pm(1,2,3,4) c Let_def sum.case assms(2,4) nss deps(1) pol
    using assms(1,3) pm(5) deps(2) by (auto simp: needsCard_def shellCommandNeedsConfirmation_def Let_def)
qed

theorem run_without_card_witness:
  "\<exists>c. gated exRunner exSeeded (exCommand ''kubectl get po'') c ''kubectl get po'' \<and> cn_id c = ''k''
     \<and> (\<forall>argv. inspected ''kubectl get po'' argv \<longrightarrow> admissible ModeWrite (readAllowedNamespaces (cn_config c)) argv)"
proof -
  let ?cmd = "''kubectl get po''"
  have f: "al_allow (checkShellCommandAllowlist ?cmd ModeWrite [])" "js_trim ?cmd = ?cmd" "?cmd \<noteq> []"
    "capabilityForShellCommand ?cmd = ''runtime.get''" "classifyShellCommandRisk ?cmd = RiskLow" by code_simp+
  note g = seeded_gate [OF f(1-4)]
  obtain res effs where e: "executeCommand exRunner None None exConnector ?cmd ''runtime.get'' ''sa'' False = (res, effs)" by fastforce
  have run: "runCommand exRunner exSeeded 0 ''c'' (exCommand ?cmd) emptyStore = (Finished res, effs, emptyStore)"
    using e f(5) by (simp add: runCommand_def g) (simp add: exCommand_def)
  have k: "cn_id exConnector = ''k''" by code_simp
  have "EffExec None ''k'' ?cmd \<in> set effs" using exec_effects [OF e] k by simp
  from run_without_card [OF run this] show ?thesis by (auto simp: exRunner_def)
qed


end
