(* ===== verification/Ops_Confirmations.thy ===== *)
theory Ops_Confirmations
  imports Ops_Command_Runner Rbac_Actions
begin

text \<open>
  The routes that decide confirmation cards
  (\<open>api-gateway/src/routes/ops-command-confirmations.ts\<close>), and the process they run in: the runner of
  \<open>Ops_Command_Runner\<close>, its timers, and requests that interleave.

  The execute route awaits the permission checks and the policy write, so it is three parts: looking up
  the card and checking the permission, the policy write when the approver asks to remember, and
  the decision. Between the parts other requests, timers and runs may act; the process is a step
  relation with a log.

  Results: a card leads to at most one execution, of the command it shows, after a decision before
  its expiry, by someone of its organisation who passed the check under the tables of that moment.
\<close>

section \<open>Definitions\<close>

subsection \<open>Routes\<close>

datatype ConfirmResponse =
    CoUnauthorized
  | CoUnavailable
  | CoConflict ConfirmStatus
  | CoForbidden
  | CoPolicyForbidden
  | CoPolicyStoreUnavailable
  | CoFailed ConnectorError
  | CoDecided "OpsCommandConfirmation option" "ConnectorPolicy option"

definition runCheck :: "OpsCommandConfirmation \<Rightarrow> Evaluator" where
  "runCheck conf = ac_any [ac_eval ACTIONS_OpsCommandsRun (OneScope (''connectors:id:'' @ oc_connectorId conf)),
     ac_eval ACTIONS_InstanceConfigWrite NoScope]"

definition policyCheck :: "OpsCommandConfirmation \<Rightarrow> Evaluator" where
  "policyCheck conf = ac_any [ac_eval ACTIONS_ConnectorsPermissionsWrite (OneScope (''connectors:uid:'' @ oc_connectorId conf)),
     ac_eval ACTIONS_InstanceConfigWrite NoScope]"

text \<open>The common opening: authenticated, same organisation, still pending.\<close>

definition findCard :: "int \<Rightarrow> confirm_store \<Rightarrow> Identity option \<Rightarrow> string
    \<Rightarrow> (ConfirmResponse + Identity \<times> OpsCommandConfirmation) \<times> confirm_store" where
  "findCard now st auth i =
     (case auth of
        None \<Rightarrow> (Inl CoUnauthorized, st)
      | Some who \<Rightarrow>
          (case getOpsCommandConfirmation now st i of
             (None, st1) \<Rightarrow> (Inl CoUnavailable, st1)
           | (Some conf, st1) \<Rightarrow>
               if oc_orgId conf \<noteq> id_orgId who then (Inl CoUnavailable, st1)
               else if oc_status conf \<noteq> CfPending then (Inl (CoConflict (oc_status conf)), st1)
               else (Inr (who, conf), st1)))"

definition executeBegin :: "AccessControlDeps \<Rightarrow> int \<Rightarrow> confirm_store \<Rightarrow> Identity option \<Rightarrow> string
    \<Rightarrow> (ConfirmResponse + Identity \<times> OpsCommandConfirmation) \<times> confirm_store" where
  "executeBegin deps now st auth i =
     (case findCard now st auth i of
        (Inl r, st1) \<Rightarrow> (Inl r, st1)
      | (Inr (who, conf), st1) \<Rightarrow>
          (case acEvaluate deps who (runCheck conf) of
             (ok, who') \<Rightarrow> if \<not> ok then (Inl CoForbidden, st1) else (Inr (who', conf), st1)))"

definition rememberedCapability :: "OpsCommandConfirmation \<Rightarrow> string" where
  "rememberedCapability conf =
     or_default (oc_capability conf)
       (if oc_kind conf = KindClusterShell then ''runtime.cluster_shell.'' @ scopeName (or_default (oc_scope conf) ScopeCluster)
        else capabilityForShellCommand (oc_command conf))"

definition executeRemember :: "AccessControlDeps \<Rightarrow> bool \<Rightarrow> connector_tables \<Rightarrow> Identity \<Rightarrow> OpsCommandConfirmation \<Rightarrow> bool
    \<Rightarrow> (ConfirmResponse + ConnectorPolicy option) \<times> connector_tables" where
  "executeRemember deps hasStore t who conf remember =
     (if \<not> remember then (Inr None, t)
      else if \<not> fst (acEvaluate deps who (policyCheck conf)) then (Inl CoPolicyForbidden, t)
      else if \<not> hasStore then (Inl CoPolicyStoreUnavailable, t)
      else (case upsertPolicy t \<lparr>cpo_connectorId = oc_connectorId conf, cpo_subjectType = SubjectOrg, cpo_subjectId = id_orgId who,
                   cpo_capability = rememberedCapability conf, cpo_scope = None, cpo_humanPolicy = HpAllow\<rparr> of
              Inl e \<Rightarrow> (Inl (CoFailed e), t)
            | Inr (p, t') \<Rightarrow> (Inr (Some p), t')))"

definition decide :: "int \<Rightarrow> confirm_store \<Rightarrow> Identity \<Rightarrow> OpsCommandConfirmation \<Rightarrow> ConfirmStatus \<Rightarrow> ConnectorPolicy option
    \<Rightarrow> ConfirmResponse \<times> confirm_store" where
  "decide now st who conf status remembered =
     (case resolveOpsCommandConfirmation now st (oc_id conf) status (Some (id_userId who)) of
        (_, st1) \<Rightarrow>
          (case getOpsCommandConfirmation now st1 (oc_id conf) of
             (c, st2) \<Rightarrow> (CoDecided c remembered, st2)))"

definition handleRejectCard :: "int \<Rightarrow> confirm_store \<Rightarrow> Identity option \<Rightarrow> string \<Rightarrow> ConfirmResponse \<times> confirm_store" where
  "handleRejectCard now st auth i =
     (case findCard now st auth i of
        (Inl r, st1) \<Rightarrow> (r, st1)
      | (Inr (who, conf), st1) \<Rightarrow> decide now st1 who conf CfRejected None)"

subsection \<open>The process\<close>

text \<open>
  The log, newest first: a card was made, someone passed the check for it (under the tables of that
  moment), it was decided while pending, an effect of a run.
\<close>

datatype ops_event =
    EvCard OpsCommandConfirmation
  | EvAdmitted AccessControlDeps Identity OpsCommandConfirmation
  | EvDecided string ConfirmStatus Identity int
  | EvEffect ops_effect

record ops_world =
  ow_now :: int
  ow_store :: confirm_store
  ow_tables :: connector_tables
  ow_access :: AccessControlDeps
  ow_requests :: "(Identity \<times> OpsCommandConfirmation \<times> bool) list"
  ow_used :: "string list"
  ow_log :: "ops_event list"

definition pendingAt :: "int \<Rightarrow> confirm_store \<Rightarrow> string \<Rightarrow> bool" where
  "pendingAt now st i \<longleftrightarrow> map_option oc_status (fst (getOpsCommandConfirmation now st i)) = Some CfPending"

definition cardEvents :: "string \<Rightarrow> confirm_store \<Rightarrow> ops_event list" where
  "cardEvents i st = (case map_of (cf_pending st) i of None \<Rightarrow> [] | Some c \<Rightarrow> [EvCard c])"

definition decisionEvents :: "int \<Rightarrow> confirm_store \<Rightarrow> Identity \<Rightarrow> string \<Rightarrow> ConfirmStatus \<Rightarrow> ops_event list" where
  "decisionEvents now st who i status = (if pendingAt now st i then [EvDecided i status who now] else [])"

inductive ops_step :: "ops_world \<Rightarrow> ops_world \<Rightarrow> bool" where
  op_command: "newId \<notin> set (ow_used w) \<Longrightarrow> runCommand deps (ow_tables w) (ow_now w) newId pm (ow_store w) = (out, effs, st) \<Longrightarrow>
     ops_step w (w\<lparr>ow_store := st, ow_used := newId # ow_used w, ow_log := map EvEffect effs @ cardEvents newId st @ ow_log w\<rparr>)"
| op_shell: "newId \<notin> set (ow_used w) \<Longrightarrow> runClusterShell deps (ow_tables w) (ow_now w) newId sm (ow_store w) = (out, effs, st) \<Longrightarrow>
     ops_step w (w\<lparr>ow_store := st, ow_used := newId # ow_used w, ow_log := map EvEffect effs @ cardEvents newId st @ ow_log w\<rparr>)"
| op_timeout: "map_of (cf_waiters (ow_store w)) i = Some run \<Longrightarrow> su_deadline run \<le> ow_now w \<Longrightarrow>
     ops_step w (w\<lparr>ow_store := confirmationTimeout (ow_now w) (ow_store w) i\<rparr>)"
| op_resume: "cf_woken (ow_store w) = before @ (i, run, d) # after \<Longrightarrow>
     resumeRun deps (ow_now w) ((ow_store w)\<lparr>cf_woken := before @ after\<rparr>) i run d = (res, effs, st) \<Longrightarrow>
     ops_step w (w\<lparr>ow_store := st, ow_log := map EvEffect effs @ ow_log w\<rparr>)"
| op_begin: "executeBegin (ow_access w) (ow_now w) (ow_store w) auth i = (Inr (who, conf), st) \<Longrightarrow>
     ops_step w (w\<lparr>ow_store := st, ow_requests := (who, conf, remember) # ow_requests w,
       ow_log := EvAdmitted (ow_access w) who conf # ow_log w\<rparr>)"
| op_refuse: "executeBegin (ow_access w) (ow_now w) (ow_store w) auth i = (Inl r, st) \<Longrightarrow>
     ops_step w (w\<lparr>ow_store := st\<rparr>)"
| op_remember: "ow_requests w = before @ (who, conf, True) # after \<Longrightarrow>
     executeRemember (ow_access w) hasStore (ow_tables w) who conf True = (r, t) \<Longrightarrow>
     ops_step w (w\<lparr>ow_tables := t, ow_requests := before @ (case r of Inl _ \<Rightarrow> [] | Inr _ \<Rightarrow> [(who, conf, False)]) @ after\<rparr>)"
| op_decide: "ow_requests w = before @ (who, conf, False) # after \<Longrightarrow>
     decide (ow_now w) (ow_store w) who conf CfExecuted remembered = (r, st) \<Longrightarrow>
     ops_step w (w\<lparr>ow_store := st, ow_requests := before @ after,
       ow_log := decisionEvents (ow_now w) (ow_store w) who (oc_id conf) CfExecuted @ ow_log w\<rparr>)"
| op_reject: "auth = Some who \<Longrightarrow> handleRejectCard (ow_now w) (ow_store w) auth i = (r, st) \<Longrightarrow>
     ops_step w (w\<lparr>ow_store := st\<rparr>)"
| op_tables: "ops_step w (w\<lparr>ow_tables := t, ow_access := a\<rparr>)"
| op_time: "ow_now w \<le> now \<Longrightarrow> ops_step w (w\<lparr>ow_now := now\<rparr>)"

definition ops_init :: "ops_world \<Rightarrow> bool" where
  "ops_init w \<longleftrightarrow> ow_store w = emptyStore \<and> ow_requests w = [] \<and> ow_used w = [] \<and> ow_log w = []"

section \<open>The invariant\<close>

subsection \<open>The store\<close>

text \<open>The fields of a card that never change.\<close>

definition core :: "OpsCommandConfirmation \<Rightarrow> OpsCommandConfirmation" where
  "core c = c\<lparr>oc_status := CfPending, oc_approvedByUserId := None, oc_approvedAt := None\<rparr>"

lemma core_fields [simp]:
  "oc_id (core c) = oc_id c" "oc_orgId (core c) = oc_orgId c" "oc_expiresAt (core c) = oc_expiresAt c" "core (core c) = core c"
  "oc_connectorId (core c) = oc_connectorId c" "core (c\<lparr>oc_status := s\<rparr>) = core c"
  "core (c\<lparr>oc_approvedByUserId := u, oc_approvedAt := a\<rparr>) = core c"
  by (simp_all add: core_def)

definition cardsOk :: "string set \<Rightarrow> ops_event set \<Rightarrow> confirm_store \<Rightarrow> bool" where
  "cardsOk used log st \<longleftrightarrow> distinct (map fst (cf_pending st)) \<and> distinct (map fst (cf_pruneAt st))
     \<and> fst ` set (cf_pruneAt st) \<subseteq> used
     \<and> (\<forall>i c. map_of (cf_pending st) i = Some c \<longrightarrow> oc_id c = i \<and> i \<in> used \<and> EvCard (core c) \<in> log)"

lemma distinct_entry: "map fst (AList.map_entry k f xs) = map fst xs"
  by (induction xs) auto

lemma cardsOk_entry:
  assumes ok: "cardsOk used log st" and f: "\<And>c. oc_id (f c) = oc_id c" "\<And>c. core (f c) = core c"
  shows "cardsOk used log (st\<lparr>cf_pending := AList.map_entry i f (cf_pending st)\<rparr>)"
proof -
  have "oc_id c = j \<and> j \<in> used \<and> EvCard (core c) \<in> log"
    if "map_of (AList.map_entry i f (cf_pending st)) j = Some c" for j c
    using ok that f by (cases "j = i") (auto simp: cardsOk_def map_entry_conv simp del: map_of_eq_Some_iff)
  then show ?thesis using ok by (simp add: cardsOk_def distinct_entry del: map_of_eq_Some_iff)
qed

lemma cardsOk_prune:
  "cardsOk used log st \<Longrightarrow> i \<in> used \<Longrightarrow> cardsOk used log (st\<lparr>cf_pruneAt := AList.update i n (cf_pruneAt st)\<rparr>)"
  by (simp add: cardsOk_def distinct_update dom_update del: map_of_eq_Some_iff)

lemma cardsOk_settle: "cardsOk used log st \<Longrightarrow> i \<in> used \<Longrightarrow> cardsOk used log (settleConfirmation now i s st)"
  using cardsOk_prune [OF cardsOk_entry [of used log st "\<lambda>c. c\<lparr>oc_status := s\<rparr>" i], of i "now + CONFIRMATION_RETENTION_MS"]
  by (simp add: settleConfirmation_def)

lemma cardsOk_remove:
  assumes ok: "cardsOk used log st"
  shows "cardsOk used log (st\<lparr>cf_pending := AList.delete i (cf_pending st), cf_pruneAt := AList.delete i (cf_pruneAt st)\<rparr>)"
proof -
  have "fst ` set (AList.delete i (cf_pruneAt st)) \<subseteq> used" using ok by (auto simp: cardsOk_def AList.delete_eq)
  moreover have "oc_id c = j \<and> j \<in> used \<and> EvCard (core c) \<in> log" if "map_of (AList.delete i (cf_pending st)) j = Some c" for j c
    using ok that by (auto simp: cardsOk_def delete_conv simp del: map_of_eq_Some_iff split: if_splits)
  ultimately show ?thesis using ok by (simp add: cardsOk_def distinct_delete del: map_of_eq_Some_iff)
qed

lemma cardsOk_sweepOne:
  assumes "cardsOk used log st" "fst e \<in> used"
  shows "cardsOk used log (sweepOne now e st)"
proof -
  obtain i c where e: "e = (i, c)" by fastforce
  define st1 where "st1 = (if oc_status c = CfPending \<and> oc_expiresAt c \<le> now then settleConfirmation now i CfExpired st else st)"
  have "cardsOk used log st1" using assms e by (simp add: st1_def cardsOk_settle)
  then show ?thesis unfolding sweepOne_def e prod.case Let_def st1_def [symmetric]
    by (auto simp: cardsOk_remove split: option.splits)
qed

lemma cardsOk_sweep: "cardsOk used log st \<Longrightarrow> cardsOk used log (sweepConfirmations now st)"
proof -
  assume ok: "cardsOk used log st"
  have "fst ` set (cf_pending st) \<subseteq> used" using ok by (auto simp: cardsOk_def)
  then have "cardsOk used log (fold (sweepOne now) es s)" if "fst ` set es \<subseteq> used" "cardsOk used log s" for es s
    using that by (induction es arbitrary: s) (auto intro: cardsOk_sweepOne)
  then show ?thesis using ok \<open>fst ` set (cf_pending st) \<subseteq> used\<close> by (simp add: sweepConfirmations_def)
qed

lemma cardsOk_mono: "cardsOk used log st \<Longrightarrow> used \<subseteq> used' \<Longrightarrow> log \<subseteq> log' \<Longrightarrow> cardsOk used' log' st"
  unfolding cardsOk_def by blast

lemma cardsOk_runs: "cardsOk used log (st\<lparr>cf_waiters := ws, cf_woken := wk\<rparr>) \<longleftrightarrow> cardsOk used log st"
  "cardsOk used log (st\<lparr>cf_waiters := ws\<rparr>) \<longleftrightarrow> cardsOk used log st" "cardsOk used log (st\<lparr>cf_woken := wk\<rparr>) \<longleftrightarrow> cardsOk used log st"
  by (simp_all add: cardsOk_def)

lemma cardsOk_wake: "cardsOk used log (wake i s st) \<longleftrightarrow> cardsOk used log st"
  by (simp add: wake_def cardsOk_runs split: option.splits)

lemma sweep_runs [simp]: "cf_waiters (sweepConfirmations now st) = cf_waiters st" "cf_woken (sweepConfirmations now st) = cf_woken st"
  by (simp_all add: sweepConfirmations_def sweepFold_runs)

lemma get_card:
  assumes "getOpsCommandConfirmation now st i = (r, st')" "cardsOk used log st"
  shows "r = swept now st i" "st' = sweepConfirmations now st" "cardsOk used log st'" "cf_waiters st' = cf_waiters st"
    "cf_woken st' = cf_woken st" "map_of (cf_pending st') i = r"
  using assms sweep_lookup [of st now i] cardsOk_sweep [of used log st now]
  by (auto simp: getOpsCommandConfirmation_def Let_def cardsOk_def)

lemma swept_pending:
  "swept now st i = Some c \<Longrightarrow> oc_status c = CfPending \<Longrightarrow> map_of (cf_pending st) i = Some c \<and> now < oc_expiresAt c"
  by (auto simp: swept_def split: option.splits if_splits)

lemma swept_core: "swept now st i = Some c \<Longrightarrow> \<exists>c0. map_of (cf_pending st) i = Some c0 \<and> core c = core c0"
  by (auto simp: swept_def split: option.splits if_splits)

text \<open>Deciding a card: the store stays in order, and the waiter is woken exactly when the card was pending.\<close>

lemma resolve_card:
  assumes "resolveOpsCommandConfirmation now st i status who = (r, st')" "cardsOk used log st"
  shows "cardsOk used log st'"
    "pendingAt now st i \<Longrightarrow> map_of (cf_waiters st) i = Some run \<Longrightarrow>
       cf_waiters st' = AList.delete i (cf_waiters st) \<and> cf_woken st' = cf_woken st @ [(i, run, status)]"
    "\<not> pendingAt now st i \<or> map_of (cf_waiters st) i = None \<Longrightarrow> cf_waiters st' = cf_waiters st \<and> cf_woken st' = cf_woken st"
proof -
  obtain c st1 where g: "getOpsCommandConfirmation now st i = (c, st1)" by fastforce
  note gc = get_card [OF g assms(2)]
  have pend: "pendingAt now st i \<longleftrightarrow> map_option oc_status c = Some CfPending" by (simp add: pendingAt_def g)
  define st2 where "st2 = settleConfirmation now i status st1"
  define st3 where "st3 = (case who of None \<Rightarrow> st2 | Some u \<Rightarrow> st2\<lparr>cf_pending := AList.map_entry i
      (\<lambda>c. c\<lparr>oc_approvedByUserId := Some u, oc_approvedAt := Some now\<rparr>) (cf_pending st2)\<rparr>)"
  have st': "st' = (if pendingAt now st i then wake i status st3 else st1)"
    using assms(1) unfolding resolveOpsCommandConfirmation_def g pend st3_def st2_def Let_def
    by (auto split: option.splits if_splits)
  have runs: "cf_waiters st3 = cf_waiters st" "cf_woken st3 = cf_woken st"
    using gc by (auto simp: st3_def st2_def split: option.splits)
  have "cardsOk used log st3" if "pendingAt now st i"
  proof -
    have "i \<in> used" using that pend gc(3,6) by (auto simp: cardsOk_def)
    then have "cardsOk used log st2" using gc(3) by (simp add: st2_def cardsOk_settle)
    then show ?thesis by (auto simp: st3_def intro!: cardsOk_entry split: option.splits)
  qed
  then show "cardsOk used log st'" using gc(3) by (simp add: st' cardsOk_wake)
  show "pendingAt now st i \<Longrightarrow> map_of (cf_waiters st) i = Some run \<Longrightarrow>
       cf_waiters st' = AList.delete i (cf_waiters st) \<and> cf_woken st' = cf_woken st @ [(i, run, status)]"
    by (simp add: st' wake_def runs)
  show "\<not> pendingAt now st i \<or> map_of (cf_waiters st) i = None \<Longrightarrow> cf_waiters st' = cf_waiters st \<and> cf_woken st' = cf_woken st"
    using gc(4,5) by (auto simp: st' wake_def runs)
qed

text \<open>A fresh card is registered with its run.\<close>

lemma fresh_wait:
  assumes "cardsOk used log st" "i \<notin> used" "oc_id c = i" "oc_status c = CfPending" "now < oc_expiresAt c"
    and w: "waitForConfirmationDecision now (addConfirmation now c st) i run = (o1, st')"
  shows "o1 = WaitRegistered" "map_of (cf_pending st') i = Some c" "cf_woken st' = cf_woken st"
    "cf_waiters st' = AList.update i (run\<lparr>su_deadline := oc_expiresAt c\<rparr>) (cf_waiters st)"
    "core c = c \<Longrightarrow> cardsOk (insert i used) (insert (EvCard c) log) st'"
proof -
  have ok: "cardsOk used log (sweepConfirmations now st)" by (rule cardsOk_sweep [OF assms(1)])
  let ?st1 = "addConfirmation now c st"
  have st1: "?st1 = (sweepConfirmations now st)\<lparr>cf_pending := AList.update i c (cf_pending (sweepConfirmations now st))\<rparr>"
    by (simp add: addConfirmation_def Let_def assms(3))
  have dist: "distinct (map fst (cf_pending ?st1))" using ok by (simp add: st1 distinct_update cardsOk_def)
  have prune: "map_of (cf_pruneAt ?st1) i = None" using ok assms(2) by (auto simp: st1 cardsOk_def map_of_eq_None_iff)
  have look: "map_of (cf_pending ?st1) i = Some c" by (simp add: st1 update_conv)
  have sw: "map_of (cf_pending (sweepConfirmations now ?st1)) i = Some c"
    unfolding sweep_lookup [OF dist] using look prune assms(4,5) by (simp add: swept_def)
  have st': "o1 = WaitRegistered" "st' = (sweepConfirmations now ?st1)\<lparr>cf_waiters := AList.update i (run\<lparr>su_deadline := oc_expiresAt c\<rparr>)
      (cf_waiters (sweepConfirmations now ?st1))\<rparr>"
    using w sw assms(4,5) by (simp_all add: waitForConfirmationDecision_def getOpsCommandConfirmation_def Let_def)
  then show "o1 = WaitRegistered" "map_of (cf_pending st') i = Some c" "cf_woken st' = cf_woken st"
    "cf_waiters st' = AList.update i (run\<lparr>su_deadline := oc_expiresAt c\<rparr>) (cf_waiters st)"
    using sw by (simp_all add: st1)
  assume core: "core c = c"
  have "cardsOk (insert i used) (insert (EvCard c) log) ?st1"
    using ok assms(3) core by (auto simp: st1 cardsOk_def distinct_update update_conv)
  from cardsOk_sweep [OF this] show "cardsOk (insert i used) (insert (EvCard c) log) st'"
    by (simp add: st'(2) cardsOk_runs)
qed

subsection \<open>Runs and their cards\<close>

fun effCard :: "ops_effect \<Rightarrow> string option" where
  "effCard (EffExec shown _ _) = shown"
| "effCard (EffClusterShell shown _ _ _ _) = shown"
| "effCard _ = None"

fun executes :: "string \<Rightarrow> ops_event \<Rightarrow> bool" where
  "executes i (EvEffect e) = (effCard e = Some i)"
| "executes i _ = False"

text \<open>The run, or the call of the adapter, is what the card shows.\<close>

definition runShown :: "suspended \<Rightarrow> OpsCommandConfirmation \<Rightarrow> bool" where
  "runShown run c \<longleftrightarrow> su_kind run = oc_kind c \<and> cn_id (su_connector run) = oc_connectorId c
     \<and> (su_kind run = KindKubectl \<longrightarrow> oc_command c = su_command run)
     \<and> (su_kind run = KindClusterShell \<longrightarrow> oc_script c = Some (su_command run) \<and> oc_scope c = Some (su_scope run)
          \<and> oc_namespace c = presentString (su_namespace run))"

fun shownOn :: "OpsCommandConfirmation \<Rightarrow> ops_effect \<Rightarrow> bool" where
  "shownOn c (EffExec _ ci cmd) = (oc_kind c = KindKubectl \<and> ci = oc_connectorId c \<and> cmd = oc_command c)"
| "shownOn c (EffClusterShell _ ci script scope ns) =
     (oc_kind c = KindClusterShell \<and> ci = oc_connectorId c \<and> Some script = oc_script c \<and> Some scope = oc_scope c \<and> ns = oc_namespace c)"
| "shownOn c _ = True"

text \<open>Who approved a card, as the log tells it.\<close>

definition approved :: "ops_event set \<Rightarrow> OpsCommandConfirmation \<Rightarrow> bool" where
  "approved log c \<longleftrightarrow> (\<exists>who t deps c'. EvDecided (oc_id c) CfExecuted who t \<in> log \<and> t < oc_expiresAt c \<and> id_orgId who = oc_orgId c
     \<and> EvAdmitted deps who c' \<in> log \<and> core c' = core c \<and> fst (acEvaluate deps who (runCheck c)))"

fun effectOk :: "ops_event set \<Rightarrow> ops_event \<Rightarrow> bool" where
  "effectOk log (EvEffect e) = (\<forall>i. effCard e = Some i \<longrightarrow> (\<exists>c. EvCard c \<in> log \<and> oc_id c = i \<and> shownOn c e \<and> approved log c))"
| "effectOk log _ = True"

fun logOk :: "ops_event list \<Rightarrow> bool" where
  "logOk [] = True"
| "logOk (e # es) = (effectOk (set es) e \<and> logOk es)"

definition tickets :: "string \<Rightarrow> confirm_store \<Rightarrow> ops_event list \<Rightarrow> nat" where
  "tickets i st log = length (filter (\<lambda>x. fst x = i) (cf_waiters st)) + length (filter (\<lambda>x. fst x = i) (cf_woken st))
     + length (filter (executes i) log)"

definition runCard :: "ops_event set \<Rightarrow> string \<Rightarrow> suspended \<Rightarrow> bool" where
  "runCard log i run \<longleftrightarrow> (\<exists>c. EvCard c \<in> log \<and> oc_id c = i \<and> core c = c \<and> runShown run c)"

definition runsOk :: "string set \<Rightarrow> ops_event list \<Rightarrow> confirm_store \<Rightarrow> bool" where
  "runsOk used log st \<longleftrightarrow> distinct (map fst (cf_waiters st))
     \<and> (\<forall>i. tickets i st log \<le> 1) \<and> (\<forall>i. i \<notin> used \<longrightarrow> tickets i st log = 0)
     \<and> (\<forall>(i, run)\<in>set (cf_waiters st). runCard (set log) i run)
     \<and> (\<forall>(i, run, d)\<in>set (cf_woken st). runCard (set log) i run
          \<and> (d = CfExecuted \<longrightarrow> (\<forall>c. EvCard c \<in> set log \<longrightarrow> oc_id c = i \<longrightarrow> approved (set log) c)))"

definition requestsOk :: "ops_event set \<Rightarrow> (Identity \<times> OpsCommandConfirmation \<times> bool) list \<Rightarrow> bool" where
  "requestsOk log rs \<longleftrightarrow> (\<forall>(who, c, rem)\<in>set rs. EvCard (core c) \<in> log \<and> id_orgId who = oc_orgId c
     \<and> (\<exists>deps. EvAdmitted deps who c \<in> log \<and> fst (acEvaluate deps who (runCheck c))))"

definition cardEventsOk :: "string set \<Rightarrow> ops_event set \<Rightarrow> bool" where
  "cardEventsOk used log \<longleftrightarrow> (\<forall>c. EvCard c \<in> log \<longrightarrow> oc_id c \<in> used \<and> core c = c)
     \<and> (\<forall>c c'. EvCard c \<in> log \<longrightarrow> EvCard c' \<in> log \<longrightarrow> oc_id c = oc_id c' \<longrightarrow> c = c')"

definition opsInv :: "ops_world \<Rightarrow> bool" where
  "opsInv w \<longleftrightarrow> cardsOk (set (ow_used w)) (set (ow_log w)) (ow_store w) \<and> runsOk (set (ow_used w)) (ow_log w) (ow_store w)
     \<and> requestsOk (set (ow_log w)) (ow_requests w) \<and> cardEventsOk (set (ow_used w)) (set (ow_log w)) \<and> logOk (ow_log w)"

lemma approved_mono: "approved log c \<Longrightarrow> log \<subseteq> log' \<Longrightarrow> approved log' c"
  unfolding approved_def by blast

lemma runCard_mono: "runCard log i run \<Longrightarrow> log \<subseteq> log' \<Longrightarrow> runCard log' i run"
  unfolding runCard_def by blast

lemma requestsOk_mono: "requestsOk log rs \<Longrightarrow> log \<subseteq> log' \<Longrightarrow> requestsOk log' rs"
  unfolding requestsOk_def by fastforce

text \<open>Steps that only sweep, or log something that is no effect and no card.\<close>

definition silent :: "ops_event \<Rightarrow> bool" where
  "silent e \<longleftrightarrow> (case e of EvCard _ \<Rightarrow> False | EvEffect x \<Rightarrow> effCard x = None | _ \<Rightarrow> True)"

lemma silent_log:
  assumes "list_all silent es"
  shows "logOk (es @ log) = logOk log" "tickets i st (es @ log) = tickets i st log" "EvCard c \<in> set (es @ log) \<longleftrightarrow> EvCard c \<in> set log"
proof -
  have "effectOk X e" "\<not> executes i e" "e \<noteq> EvCard c" if "silent e" for X e
    using that by (cases e; simp add: silent_def)+
  with assms show "logOk (es @ log) = logOk log" "EvCard c \<in> set (es @ log) \<longleftrightarrow> EvCard c \<in> set log"
    by (induction es) auto
  have "filter (executes i) es = []" using assms \<open>\<And>e. silent e \<Longrightarrow> \<not> executes i e\<close> by (auto simp: filter_empty_conv list_all_iff)
  then show "tickets i st (es @ log) = tickets i st log" by (simp add: tickets_def)
qed

lemma runsOk_waiter: "runsOk used log st \<Longrightarrow> (i, run) \<in> set (cf_waiters st) \<Longrightarrow> runCard (set log) i run"
  by (auto simp: runsOk_def)

lemma runsOk_woken:
  assumes "runsOk used log st" "(i, run, d) \<in> set (cf_woken st)"
  shows "runCard (set log) i run" "d = CfExecuted \<Longrightarrow> EvCard c \<in> set log \<Longrightarrow> oc_id c = i \<Longrightarrow> approved (set log) c"
proof -
  have "runCard (set log) i run \<and> (d = CfExecuted \<longrightarrow> (\<forall>c. EvCard c \<in> set log \<longrightarrow> oc_id c = i \<longrightarrow> approved (set log) c))"
    using assms unfolding runsOk_def by fast
  then show "runCard (set log) i run" "d = CfExecuted \<Longrightarrow> EvCard c \<in> set log \<Longrightarrow> oc_id c = i \<Longrightarrow> approved (set log) c" by simp_all
qed

lemma runsOk_same:
  assumes "runsOk used log st" "cf_waiters st' = cf_waiters st" "cf_woken st' = cf_woken st" "list_all silent es"
  shows "runsOk used (es @ log) st'"
proof -
  have t: "tickets i st' (es @ log) = tickets i st log" for i
    using silent_log(2) [OF assms(4), of i st' log] assms(2,3) by (simp add: tickets_def)
  have sub: "set log \<subseteq> set (es @ log)" by auto
  have wait: "runCard (set (es @ log)) i run" if "(i, run) \<in> set (cf_waiters st)" for i run
    by (rule runCard_mono [OF runsOk_waiter [OF assms(1) that] sub])
  have woken: "runCard (set (es @ log)) i run
      \<and> (d = CfExecuted \<longrightarrow> (\<forall>c. EvCard c \<in> set (es @ log) \<longrightarrow> oc_id c = i \<longrightarrow> approved (set (es @ log)) c))"
    if "(i, run, d) \<in> set (cf_woken st)" for i run d
  proof (intro conjI impI allI)
    show "runCard (set (es @ log)) i run" by (rule runCard_mono [OF runsOk_woken(1) [OF assms(1) that] sub])
    fix c assume "d = CfExecuted" "EvCard c \<in> set (es @ log)" "oc_id c = i"
    then show "approved (set (es @ log)) c"
      using approved_mono [OF runsOk_woken(2) [OF assms(1) that] sub] silent_log(3) [OF assms(4)] by blast
  qed
  have "\<forall>i. tickets i st log \<le> 1" "\<forall>i. i \<notin> used \<longrightarrow> tickets i st log = 0" "distinct (map fst (cf_waiters st))"
    using assms(1) by (simp_all add: runsOk_def)
  then show ?thesis unfolding runsOk_def t assms(2,3) using wait woken by fast
qed

lemma requestsOk_log: "requestsOk (set log) rs \<Longrightarrow> requestsOk (set (es @ log)) rs"
  by (rule requestsOk_mono) auto

lemma cardEvents_same: "cardEventsOk used (set log) \<Longrightarrow> list_all silent es \<Longrightarrow> cardEventsOk used (set (es @ log))"
  unfolding cardEventsOk_def by (simp only: silent_log(3))

text \<open>A step that leaves the runs alone.\<close>

lemma opsInv_quiet:
  assumes inv: "opsInv w" and es: "list_all silent es"
    and cards: "cardsOk (set (ow_used w)) (set (ow_log w)) st'" and runs: "cf_waiters st' = cf_waiters (ow_store w)" "cf_woken st' = cf_woken (ow_store w)"
    and rs: "requestsOk (set (es @ ow_log w)) rs"
    and w': "ow_store w' = st'" "ow_used w' = ow_used w" "ow_log w' = es @ ow_log w" "ow_requests w' = rs"
  shows "opsInv w'"
proof -
  have "cardsOk (set (ow_used w)) (set (es @ ow_log w)) st'" by (rule cardsOk_mono [OF cards]) auto
  moreover have "runsOk (set (ow_used w)) (es @ ow_log w) st'"
    using inv by (intro runsOk_same [OF _ runs es]) (simp add: opsInv_def)
  ultimately show ?thesis unfolding opsInv_def w' using inv rs es
    by (simp only: opsInv_def silent_log(1) cardEvents_same simp_thms)
qed

lemma admitted_check:
  assumes "executeBegin deps now st auth i = (Inr (who, c), st')" "cardsOk used log st"
  shows "fst (acEvaluate deps who (runCheck c))" "id_orgId who = oc_orgId c" "EvCard (core c) \<in> log" "oc_id c = i"
proof -
  obtain who0 where f: "findCard now st auth i = (Inr (who0, c), st')" and ev: "acEvaluate deps who0 (runCheck c) = (True, who)"
    using assms(1) by (auto simp: executeBegin_def split: prod.splits sum.splits if_splits)
  obtain c0 where g: "getOpsCommandConfirmation now st i = (Some c, st')" and org: "oc_orgId c = id_orgId who0"
    using f by (auto simp: findCard_def split: option.splits prod.splits if_splits)
  note gc = get_card [OF g assms(2)]
  have who: "who = snd (ensurePermissions (ad_tables deps) who0)" using ev acEvaluate_identity [of deps who0 "runCheck c"] by simp
  then have "id_orgId who = id_orgId who0" by (simp add: ensurePermissions_def Let_def split: option.splits)
  then show "id_orgId who = oc_orgId c" using org by simp
  show "fst (acEvaluate deps who (runCheck c))"
    using acEvaluate_iff [of deps who0 "runCheck c"] acEvaluate_iff [of deps who "runCheck c"] ev ensure_idem [of "ad_tables deps" who0]
      \<open>id_orgId who = id_orgId who0\<close> by (simp add: who)
  show "EvCard (core c) \<in> log" "oc_id c = i" using gc(3,6) by (auto simp: cardsOk_def simp del: map_of_eq_Some_iff)
qed

lemma count_update: "k \<notin> fst ` set xs \<Longrightarrow> AList.update k v xs = xs @ [(k, v)]"
  by (induction xs) auto

lemma count_delete: "length (filter (\<lambda>x. fst x = j) (AList.delete i xs)) = (if j = i then 0 else length (filter (\<lambda>x. fst x = j) xs))"
  by (induction xs) auto

lemma count_distinct:
  "distinct (map fst xs) \<Longrightarrow> map_of xs i = Some v \<Longrightarrow> length (filter (\<lambda>x. fst x = i) xs) = 1"
proof (induction xs)
  case (Cons x xs)
  then have "fst x = i \<Longrightarrow> filter (\<lambda>x. fst x = i) xs = []" unfolding filter_empty_conv by (metis distinct.simps(2) image_eqI list.simps(9) set_map)
  then show ?case using Cons by (cases "fst x = i") (auto split: prod.splits)
qed simp

lemma tickets_zero: "tickets i st log = 0 \<Longrightarrow> i \<notin> fst ` set (cf_waiters st)"
  by (auto simp: tickets_def filter_empty_conv)

lemma register_inv:
  assumes inv: "opsInv w" and i: "i \<notin> set (ow_used w)" and c: "oc_id c = i" "oc_status c = CfPending" "now < oc_expiresAt c" "core c = c"
    and run: "runShown run c" and w: "waitForConfirmationDecision now (addConfirmation now c (ow_store w)) i run = (o1, st')"
  shows "opsInv (w\<lparr>ow_store := st', ow_used := i # ow_used w, ow_log := EvCard c # ow_log w\<rparr>)"
proof -
  let ?log = "ow_log w" and ?st = "ow_store w" and ?used = "set (ow_used w)"
  have cards: "cardsOk ?used (set ?log) ?st" and runs: "runsOk ?used ?log ?st" and reqs: "requestsOk (set ?log) (ow_requests w)"
    and evs: "cardEventsOk ?used (set ?log)" and lg: "logOk ?log" using inv by (simp_all add: opsInv_def)
  note fw = fresh_wait [OF cards i c(1-3) w]
  let ?run = "run\<lparr>su_deadline := oc_expiresAt c\<rparr>"
  have zero: "tickets i ?st ?log = 0" using runs i by (simp add: runsOk_def)
  have wait: "cf_waiters st' = cf_waiters ?st @ [(i, ?run)]" using fw(4) count_update tickets_zero [OF zero] by simp
  have t: "tickets j st' (EvCard c # ?log) = tickets j ?st ?log + (if j = i then 1 else 0)" for j
    by (simp add: tickets_def wait fw(3))
  have sub: "set ?log \<subseteq> set (EvCard c # ?log)" by auto
  have new: "oc_id c' = i \<Longrightarrow> EvCard c' \<in> set (EvCard c # ?log) \<Longrightarrow> c' = c" for c' using evs i by (auto simp: cardEventsOk_def)
  have mine: "runCard (set (EvCard c # ?log)) i ?run" using c run by (auto simp: runCard_def runShown_def)
  have woken: "runCard (set (EvCard c # ?log)) j r \<and> (d = CfExecuted \<longrightarrow>
      (\<forall>c'. EvCard c' \<in> set (EvCard c # ?log) \<longrightarrow> oc_id c' = j \<longrightarrow> approved (set (EvCard c # ?log)) c'))"
    if "(j, r, d) \<in> set (cf_woken ?st)" for j r d
  proof (intro conjI impI allI)
    show "runCard (set (EvCard c # ?log)) j r" by (rule runCard_mono [OF runsOk_woken(1) [OF runs that] sub])
    fix c' assume *: "d = CfExecuted" "EvCard c' \<in> set (EvCard c # ?log)" "oc_id c' = j"
    have "j \<noteq> i" using that zero by (auto simp: tickets_def filter_empty_conv)
    then have "EvCard c' \<in> set ?log" using *(2,3) c(1) by auto
    then show "approved (set (EvCard c # ?log)) c'" using approved_mono [OF runsOk_woken(2) [OF runs that *(1)] sub] *(3) by blast
  qed
  have "runsOk (insert i ?used) (EvCard c # ?log) st'"
    unfolding runsOk_def t
  proof (intro conjI)
    show "distinct (map fst (cf_waiters st'))" using runs tickets_zero [OF zero] by (simp add: wait runsOk_def)
    show "\<forall>j. tickets j ?st ?log + (if j = i then 1 else 0) \<le> 1" using runs zero by (simp add: runsOk_def)
    show "\<forall>j. j \<notin> insert i ?used \<longrightarrow> tickets j ?st ?log + (if j = i then 1 else 0) = 0" using runs by (simp add: runsOk_def)
    show "\<forall>(j, r)\<in>set (cf_waiters st'). runCard (set (EvCard c # ?log)) j r"
    proof -
      define L where "L = set (EvCard c # ?log)"
      show ?thesis using runCard_mono [OF runsOk_waiter [OF runs] sub] mine unfolding wait L_def [symmetric] by auto
    qed
    show "\<forall>(j, r, d)\<in>set (cf_woken st'). runCard (set (EvCard c # ?log)) j r \<and> (d = CfExecuted \<longrightarrow>
        (\<forall>c'. EvCard c' \<in> set (EvCard c # ?log) \<longrightarrow> oc_id c' = j \<longrightarrow> approved (set (EvCard c # ?log)) c'))"
      unfolding fw(3) using woken by blast
  qed
  moreover have "cardEventsOk (insert i ?used) (set (EvCard c # ?log))"
    using evs c i unfolding cardEventsOk_def by (simp only: list.set insert_iff ops_event.inject) metis
  moreover have "requestsOk (set (EvCard c # ?log)) (ow_requests w)" by (rule requestsOk_mono [OF reqs sub])
  ultimately show ?thesis using fw(5) [OF c(4)] lg by (simp add: opsInv_def)
qed

text \<open>A waiting run is woken.\<close>

lemma wake_inv:
  assumes inv: "opsInv w" and es: "list_all silent es" and r: "map_of (cf_waiters (ow_store w)) i = Some run"
    and cards: "cardsOk (set (ow_used w)) (set (ow_log w)) st'"
    and st': "cf_waiters st' = AList.delete i (cf_waiters (ow_store w))" "cf_woken st' = cf_woken (ow_store w) @ [(i, run, d)]"
    and appr: "\<And>c. d = CfExecuted \<Longrightarrow> EvCard c \<in> set (ow_log w) \<Longrightarrow> oc_id c = i \<Longrightarrow> approved (set (es @ ow_log w)) c"
    and rs: "requestsOk (set (es @ ow_log w)) rs"
    and w': "ow_store w' = st'" "ow_used w' = ow_used w" "ow_log w' = es @ ow_log w" "ow_requests w' = rs"
  shows "opsInv w'"
proof -
  let ?log = "ow_log w" and ?st = "ow_store w" and ?used = "set (ow_used w)"
  have runs: "runsOk ?used ?log ?st" using inv by (simp add: opsInv_def)
  then have runs1: "runsOk ?used (es @ ?log) ?st" by (rule runsOk_same) (use es in simp_all)
  have dist: "distinct (map fst (cf_waiters ?st))" using runs by (simp add: runsOk_def)
  have t: "tickets j st' (es @ ?log) = tickets j ?st ?log" for j
    using count_distinct [OF dist r] silent_log(2) [OF es, of j st' ?log] by (auto simp: tickets_def st' count_delete)
  have mine: "runCard (set (es @ ?log)) i run" by (rule runsOk_waiter [OF runs1]) (rule map_of_SomeD [OF r])
  have "runsOk ?used (es @ ?log) st'"
    unfolding runsOk_def t
  proof (intro conjI)
    show "distinct (map fst (cf_waiters st'))" using dist by (simp add: st' distinct_delete)
    show "\<forall>j. tickets j ?st ?log \<le> 1" "\<forall>j. j \<notin> ?used \<longrightarrow> tickets j ?st ?log = 0" using runs by (simp_all add: runsOk_def)
    show "\<forall>(j, q)\<in>set (cf_waiters st'). runCard (set (es @ ?log)) j q"
      using runsOk_waiter [OF runs1] by (auto simp: st' AList.delete_eq)
    show "\<forall>(j, q, e)\<in>set (cf_woken st'). runCard (set (es @ ?log)) j q \<and> (e = CfExecuted \<longrightarrow>
        (\<forall>c. EvCard c \<in> set (es @ ?log) \<longrightarrow> oc_id c = j \<longrightarrow> approved (set (es @ ?log)) c))"
      using runsOk_woken [OF runs1] mine appr silent_log(3) [OF es] unfolding st'(2) by auto
  qed
  moreover have "cardsOk ?used (set (es @ ?log)) st'" by (rule cardsOk_mono [OF cards]) auto
  ultimately show ?thesis unfolding opsInv_def w' using inv rs es
    by (simp only: opsInv_def silent_log(1) cardEvents_same simp_thms)
qed

text \<open>What a run does after its card was decided.\<close>

lemma execute_effects:
  "executeCommand deps (Some i) by c command cap u bp = (res, effs) \<Longrightarrow> \<exists>es. effs = EffExec (Some i) (cn_id c) command # es \<and> (\<forall>e\<in>set es. effCard e = None)"
  "executeCommand deps None by c command cap u bp = (res, effs) \<Longrightarrow> \<forall>e\<in>set effs. effCard e = None"
  by (auto simp: executeCommand_def Let_def)

lemma shell_effects:
  "executeClusterShell deps (Some i) c script scope ns img = (res, effs) \<Longrightarrow>
     \<exists>es. effs = EffClusterShell (Some i) (cn_id c) script scope (presentString ns) # es \<and> (\<forall>e\<in>set es. effCard e = None)"
  "executeClusterShell deps None c script scope ns img = (res, effs) \<Longrightarrow> \<forall>e\<in>set effs. effCard e = None"
  by (auto simp: executeClusterShell_def Let_def split: sum.splits)

lemma resume_effects:
  assumes r: "resumeRun deps now st i run d = (res, effs, st')" and cards: "cardsOk used log st"
  shows "cardsOk used log st'" "cf_waiters st' = cf_waiters st" "cf_woken st' = cf_woken st"
    "d \<noteq> CfExecuted \<Longrightarrow> \<forall>e\<in>set effs. effCard e = None"
    "d = CfExecuted \<Longrightarrow> \<exists>e es. effs = e # es \<and> effCard e = Some i \<and> (\<forall>x\<in>set es. effCard x = None)
       \<and> (\<forall>c. runShown run c \<longrightarrow> shownOn c e)"
proof -
  obtain s1 st1 where g: "getOpsCommandConfirmation now st i = (s1, st1)" by fastforce
  note gc = get_card [OF g cards]
  have "st' = st \<or> st' = st1"
    using r g by (auto simp: resumeRun_def afterDecision_def split: ConfirmKind.splits if_splits prod.splits)
  then show "cardsOk used log st'" "cf_waiters st' = cf_waiters st" "cf_woken st' = cf_woken st" using gc cards by auto
  show "d \<noteq> CfExecuted \<Longrightarrow> \<forall>e\<in>set effs. effCard e = None"
    using r by (auto simp: resumeRun_def afterDecision_def afterShellDecision_def split: ConfirmKind.splits)
  assume d: "d = CfExecuted"
  show "\<exists>e es. effs = e # es \<and> effCard e = Some i \<and> (\<forall>x\<in>set es. effCard x = None) \<and> (\<forall>c. runShown run c \<longrightarrow> shownOn c e)"
  proof (cases "su_kind run")
    case KindKubectl
    then obtain es where "effs = EffExec (Some i) (cn_id (su_connector run)) (su_command run) # es" "\<forall>e\<in>set es. effCard e = None"
      using r d g execute_effects(1) by (fastforce simp: resumeRun_def afterDecision_def split: prod.splits)
    then show ?thesis using KindKubectl by (auto simp: runShown_def)
  next
    case KindClusterShell
    then obtain es where "effs = EffClusterShell (Some i) (cn_id (su_connector run)) (su_command run) (su_scope run) (presentString (su_namespace run)) # es"
        "\<forall>e\<in>set es. effCard e = None"
      using r d shell_effects(1) by (fastforce simp: resumeRun_def afterShellDecision_def split: prod.splits)
    then show ?thesis using KindClusterShell by (auto simp: runShown_def)
  qed
qed

lemma silent_effects: "\<forall>e\<in>set es. effCard e = None \<Longrightarrow> list_all silent (map EvEffect es)"
  by (simp add: list_all_iff silent_def)

lemma resume_inv:
  assumes inv: "opsInv w" and wk: "cf_woken (ow_store w) = before @ (i, run, d) # after"
    and r: "resumeRun deps now ((ow_store w)\<lparr>cf_woken := before @ after\<rparr>) i run d = (res, effs, st)"
  shows "opsInv (w\<lparr>ow_store := st, ow_log := map EvEffect effs @ ow_log w\<rparr>)"
proof -
  let ?log = "ow_log w" and ?st = "ow_store w" and ?used = "set (ow_used w)"
  have cards: "cardsOk ?used (set ?log) ?st" and runs: "runsOk ?used ?log ?st" and reqs: "requestsOk (set ?log) (ow_requests w)"
    and evs: "cardEventsOk ?used (set ?log)" and lg: "logOk ?log" using inv by (simp_all add: opsInv_def)
  have cards1: "cardsOk ?used (set ?log) (?st\<lparr>cf_woken := before @ after\<rparr>)" using cards by (simp add: cardsOk_runs)
  note re = resume_effects [OF r cards1, simplified]
  have mem: "(i, run, d) \<in> set (cf_woken ?st)" by (simp add: wk)
  have less: "set (before @ after) \<subseteq> set (cf_woken ?st)" by (auto simp: wk)
  obtain c where c: "EvCard c \<in> set ?log" "oc_id c = i" "runShown run c" using runsOk_woken(1) [OF runs mem] by (auto simp: runCard_def)
  have old: "tickets j ?st ?log = length (filter (\<lambda>x. fst x = j) (cf_waiters st)) + length (filter (\<lambda>x. fst x = j) (cf_woken st))
      + length (filter (executes j) ?log) + (if j = i then 1 else 0)" for j
    by (simp add: tickets_def wk re(2,3))
  obtain hd tl where effs: "effs = hd @ tl" "list_all silent (map EvEffect tl)"
    and hd: "hd = [] \<or> (\<exists>e. hd = [e] \<and> effCard e = Some i \<and> shownOn c e \<and> d = CfExecuted)"
  proof (cases "d = CfExecuted")
    case True
    then obtain e es where "effs = [e] @ es" "effCard e = Some i" "\<forall>x\<in>set es. effCard x = None" "shownOn c e" using re(5) c(3) by auto
    then show thesis using that [of "[e]" es] True silent_effects by blast
  next
    case False
    then show thesis using that [of "[]" effs] re(4) silent_effects by auto
  qed
  define l1 where "l1 = map EvEffect tl @ ?log"
  have l1: "logOk l1" "\<And>j. tickets j st l1 = tickets j st ?log" "\<And>x. EvCard x \<in> set l1 \<longleftrightarrow> EvCard x \<in> set ?log"
    using silent_log [OF effs(2)] lg by (simp_all add: l1_def)
  have full: "map EvEffect effs @ ?log = map EvEffect hd @ l1" by (simp add: effs(1) l1_def)
  have sub: "set ?log \<subseteq> set l1" "set l1 \<subseteq> set (map EvEffect hd @ l1)" by (auto simp: l1_def)
  have evs1: "EvCard x \<in> set (map EvEffect hd @ l1) \<longleftrightarrow> EvCard x \<in> set ?log" for x using l1(3) by auto
  have t: "tickets j st (map EvEffect hd @ l1) \<le> tickets j ?st ?log" for j
    using hd l1(2) [of j] unfolding old by (auto simp: tickets_def)
  have "logOk (map EvEffect hd @ l1)"
    using hd l1(1) c(2) subsetD [OF sub(1) c(1)] approved_mono [OF runsOk_woken(2) [OF runs mem _ c(1,2)] sub(1)] by auto
  moreover have "runsOk ?used (map EvEffect hd @ l1) st"
    unfolding runsOk_def
  proof (intro conjI allI impI)
    show "distinct (map fst (cf_waiters st))" using runs by (simp add: re(2) runsOk_def)
    show "tickets j st (map EvEffect hd @ l1) \<le> 1" for j using runs t [of j] by (auto simp: runsOk_def intro: le_trans)
    show "tickets j st (map EvEffect hd @ l1) = 0" if "j \<notin> ?used" for j using runs t [of j] that by (simp add: runsOk_def)
    show "\<forall>(j, q)\<in>set (cf_waiters st). runCard (set (map EvEffect hd @ l1)) j q"
      using runCard_mono [OF runsOk_waiter [OF runs] subset_trans [OF sub]] unfolding re(2) by blast
    have "runCard (set (map EvEffect hd @ l1)) j q \<and> (e = CfExecuted \<longrightarrow>
        (\<forall>c. EvCard c \<in> set (map EvEffect hd @ l1) \<longrightarrow> oc_id c = j \<longrightarrow> approved (set (map EvEffect hd @ l1)) c))"
      if "(j, q, e) \<in> set (before @ after)" for j q e
      using runCard_mono [OF runsOk_woken(1) [OF runs subsetD [OF less that]] subset_trans [OF sub]]
        approved_mono [OF runsOk_woken(2) [OF runs subsetD [OF less that]] subset_trans [OF sub]] evs1 by blast
    then show "\<forall>(j, q, e)\<in>set (cf_woken st). runCard (set (map EvEffect hd @ l1)) j q \<and> (e = CfExecuted \<longrightarrow>
        (\<forall>c. EvCard c \<in> set (map EvEffect hd @ l1) \<longrightarrow> oc_id c = j \<longrightarrow> approved (set (map EvEffect hd @ l1)) c))"
      unfolding re(3) by blast
  qed
  moreover have "cardEventsOk ?used (set (map EvEffect hd @ l1))" using evs unfolding cardEventsOk_def evs1 .
  moreover have "requestsOk (set (map EvEffect hd @ l1)) (ow_requests w)" by (rule requestsOk_mono [OF reqs subset_trans [OF sub]])
  moreover have "cardsOk ?used (set (map EvEffect hd @ l1)) st" by (rule cardsOk_mono [OF re(1) subset_refl subset_trans [OF sub]])
  ultimately show ?thesis by (simp add: opsInv_def full del: set_append set_map)
qed

lemma wake_cases:
  obtains "map_of (cf_waiters st) i = None" "wake i s st = st"
  | run where "map_of (cf_waiters st) i = Some run" "cf_waiters (wake i s st) = AList.delete i (cf_waiters st)"
      "cf_woken (wake i s st) = cf_woken st @ [(i, run, s)]"
  by (cases "map_of (cf_waiters st) i") (auto simp: wake_def)

lemma timeout_inv:
  assumes "opsInv w"
  shows "opsInv (w\<lparr>ow_store := confirmationTimeout now (ow_store w) i\<rparr>)"
proof -
  let ?st = "ow_store w"
  have cards: "cardsOk (set (ow_used w)) (set (ow_log w)) ?st" using assms by (simp add: opsInv_def)
  define st1 where "st1 = (if map_option oc_status (map_of (cf_pending ?st) i) = Some CfPending then settleConfirmation now i CfExpired ?st else ?st)"
  have st1: "cardsOk (set (ow_used w)) (set (ow_log w)) st1" "cf_waiters st1 = cf_waiters ?st" "cf_woken st1 = cf_woken ?st"
    using cards by (auto simp: st1_def intro!: cardsOk_settle) (auto simp: cardsOk_def simp del: map_of_eq_Some_iff)
  have eq: "confirmationTimeout now ?st i = wake i CfExpired st1" by (simp add: confirmationTimeout_def st1_def)
  have reqs: "requestsOk (set ([] @ ow_log w)) (ow_requests w)" using assms by (simp add: opsInv_def)
  show ?thesis unfolding eq
  proof (cases rule: wake_cases [where st = st1 and i = i and s = CfExpired])
    case 1
    show "opsInv (w\<lparr>ow_store := wake i CfExpired st1\<rparr>)"
      by (rule opsInv_quiet [OF assms, where es = "[]" and rs = "ow_requests w" and st' = st1]) (use st1 1 reqs in simp_all)
  next
    case (2 run)
    show "opsInv (w\<lparr>ow_store := wake i CfExpired st1\<rparr>)"
      by (rule wake_inv [OF assms, where es = "[]" and rs = "ow_requests w" and d = CfExpired and i = i and run = run and st' = "wake i CfExpired st1"])
        (use st1 2 reqs in \<open>simp_all add: cardsOk_wake\<close>)
  qed
qed

text \<open>A decision, by the execute route or the reject route.\<close>

lemma decide_inv:
  assumes inv: "opsInv w" and d: "decide now (ow_store w) who c status rem = (r, st)" and rs: "requestsOk (set (ow_log w)) rs"
    and es: "es = (if log then decisionEvents now (ow_store w) who (oc_id c) status else [])"
    and appr: "status = CfExecuted \<Longrightarrow> log \<and> id_orgId who = oc_orgId c \<and> EvCard (core c) \<in> set (ow_log w)
      \<and> (\<exists>deps. EvAdmitted deps who c \<in> set (ow_log w) \<and> fst (acEvaluate deps who (runCheck c)))"
  shows "opsInv (w\<lparr>ow_store := st, ow_requests := rs, ow_log := es @ ow_log w\<rparr>)"
proof -
  let ?st = "ow_store w" and ?i = "oc_id c"
  have cards: "cardsOk (set (ow_used w)) (set (ow_log w)) ?st" and evs: "cardEventsOk (set (ow_used w)) (set (ow_log w))"
    using inv by (simp_all add: opsInv_def)
  obtain c1 st1 where r1: "resolveOpsCommandConfirmation now ?st ?i status (Some (id_userId who)) = (c1, st1)" by fastforce
  note rc = resolve_card [OF r1 cards]
  obtain c2 where g2: "getOpsCommandConfirmation now st1 ?i = (c2, st)"
    using d r1 by (auto simp: decide_def split: prod.splits)
  note gc = get_card [OF g2 rc(1)]
  have silent: "list_all silent es" by (simp add: es decisionEvents_def silent_def)
  have rs': "requestsOk (set (es @ ow_log w)) rs" by (rule requestsOk_log [OF rs])
  show ?thesis
  proof (cases "pendingAt now ?st ?i \<and> map_of (cf_waiters ?st) ?i \<noteq> None")
    case True
    then obtain run where run: "map_of (cf_waiters ?st) ?i = Some run" by blast
    have "approved (set (es @ ow_log w)) x" if "status = CfExecuted" "EvCard x \<in> set (ow_log w)" "oc_id x = ?i" for x
    proof -
      have x: "x = core c" using appr [OF that(1)] that evs by (auto simp: cardEventsOk_def)
      obtain y sy where y: "getOpsCommandConfirmation now ?st ?i = (Some y, sy)" "oc_status y = CfPending"
        using True by (cases "getOpsCommandConfirmation now ?st ?i") (auto simp: pendingAt_def)
      have "map_of (cf_pending ?st) ?i = Some y" "now < oc_expiresAt y"
        using swept_pending [OF _ y(2)] get_card(1) [OF y(1) cards] by auto
      then have "oc_id y = ?i" "EvCard (core y) \<in> set (ow_log w)" using cards by (auto simp: cardsOk_def simp del: map_of_eq_Some_iff)
      then have "core y = x" using evs that by (auto simp: cardEventsOk_def)
      then have "now < oc_expiresAt x" using \<open>now < oc_expiresAt y\<close> by auto
      moreover have "EvDecided ?i CfExecuted who now \<in> set es" using True appr [OF that(1)] that(1) by (simp add: es decisionEvents_def)
      moreover have "runCheck (core c) = runCheck c" by (simp add: runCheck_def)
      ultimately show ?thesis using appr [OF that(1)] that(3) unfolding approved_def x by (auto intro!: exI [of _ who])
    qed
    then show ?thesis
      by (intro wake_inv [OF inv silent run _ _ _ _ rs', where d = status and st' = st]) (use gc rc(2) [OF _ run] True in auto)
  next
    case False
    then show ?thesis
      by (intro opsInv_quiet [OF inv silent, where rs = rs and st' = st]) (use gc rc(3) rs' in auto)
  qed
qed

subsection \<open>Every step\<close>

lemma opsInv_used: "opsInv w \<Longrightarrow> opsInv (w\<lparr>ow_used := i # ow_used w\<rparr>)"
  unfolding opsInv_def runsOk_def cardEventsOk_def using cardsOk_mono [of "set (ow_used w)" "set (ow_log w)" "ow_store w"]
  by (simp add: subset_insertI)

definition startsWaiting :: "int \<Rightarrow> string \<Rightarrow> confirm_store \<Rightarrow> ops_effect list \<Rightarrow> confirm_store \<Rightarrow> bool" where
  "startsWaiting now i st effs st' \<longleftrightarrow> (\<exists>c run o1 st1. oc_id c = i \<and> oc_status c = CfPending \<and> now < oc_expiresAt c \<and> core c = c
     \<and> runShown run c \<and> waitForConfirmationDecision now (addConfirmation now c st) i run = (o1, st1)
     \<and> (o1 = WaitRegistered \<longrightarrow> effs = [] \<and> st' = st1))"

text \<open>A new run either ends at once, calling the adapter without a card, or waits for a card of its own.\<close>

lemma started_inv:
  assumes inv: "opsInv w" and i: "i \<notin> set (ow_used w)"
    and out: "st = ow_store w \<and> (\<forall>e\<in>set effs. effCard e = None)
      \<or> startsWaiting (ow_now w) i (ow_store w) effs st"
  shows "opsInv (w\<lparr>ow_store := st, ow_used := i # ow_used w, ow_log := map EvEffect effs @ cardEvents i st @ ow_log w\<rparr>)"
  using out
proof (elim disjE conjE)
  assume a: "st = ow_store w" "\<forall>e\<in>set effs. effCard e = None"
  have "cardsOk (set (ow_used w)) (set (ow_log w)) (ow_store w)" using inv by (simp add: opsInv_def)
  then have "map_of (cf_pending st) i = None" using i a by (cases "map_of (cf_pending st) i") (auto simp: cardsOk_def simp del: map_of_eq_Some_iff)
  then have none: "cardEvents i st = []" by (simp add: cardEvents_def)
  let ?w = "w\<lparr>ow_used := i # ow_used w\<rparr>"
  have ok: "opsInv ?w" by (rule opsInv_used [OF inv])
  show ?thesis
    by (rule opsInv_quiet [OF ok silent_effects [OF a(2)], where st' = st and rs = "ow_requests w"])
      (use ok a none in \<open>simp_all add: opsInv_def requestsOk_log del: set_append\<close>)
next
  assume "startsWaiting (ow_now w) i (ow_store w) effs st"
  then obtain c run o1 st1 where
    a: "oc_id c = i" "oc_status c = CfPending" "ow_now w < oc_expiresAt c" "core c = c" "runShown run c"
      "waitForConfirmationDecision (ow_now w) (addConfirmation (ow_now w) c (ow_store w)) i run = (o1, st1)"
    and b: "o1 = WaitRegistered \<longrightarrow> effs = [] \<and> st = st1" unfolding startsWaiting_def by blast
  have cards: "cardsOk (set (ow_used w)) (set (ow_log w)) (ow_store w)" using inv by (simp add: opsInv_def)
  note fw = fresh_wait [OF cards i a(1-3,6)]
  show ?thesis using register_inv [OF inv i a] fw(1,2) b by (simp add: cardEvents_def)
qed

lemma ttl_pos: "0 < CONFIRMATION_TTL_MS"
  by (simp add: CONFIRMATION_TTL_MS_def)

lemma ops_connector_id: "opsConnector deps t i = Inr c \<Longrightarrow> cn_id c = i"
  by (auto simp: opsConnector_def connectorGet_def connectorRow_def rowToConnector_def ConnectorRow.defs Connector.defs
      split: option.splits if_splits dest!: find_Some_iff_first)

lemma command_started:
  assumes "runCommand deps t now i pm st = (out, effs, st')"
  shows "st' = st \<and> (\<forall>e\<in>set effs. effCard e = None) \<or> startsWaiting now i st effs st'"
proof (cases "runCommandGate deps t pm")
  case (Inl res)
  then show ?thesis using assms by (simp add: runCommand_def)
next
  case (Inr g)
  show ?thesis
  proof (cases "ga_needsConfirmation g")
    case False
    then show ?thesis using assms Inr execute_effects(2) by (fastforce simp: runCommand_def split: prod.splits)
  next
    case True
    define c where "c = createConfirmation now i (kd_orgId deps) (pm_userId pm) (pm_sessionId pm) (pm_connectorId pm) (ga_command g)"
    define run where "run = \<lparr>su_kind = KindKubectl, su_connector = ga_connector g, su_connectorId = pm_connectorId pm,
       su_command = ga_command g, su_capability = ga_capability g, su_scope = ScopeCluster, su_namespace = None,
       su_image = None, su_userId = pm_userId pm, su_sessionId = pm_sessionId pm, su_deadline = now\<rparr>"
    obtain o1 st1 where w: "waitForConfirmationDecision now (addConfirmation now c st) i run = (o1, st1)" by fastforce
    have "cn_id (ga_connector g) = pm_connectorId pm"
      using Inr ops_connector_id by (auto simp: runCommandGate_def Let_def split: sum.splits if_splits)
    then have "oc_id c = i" "oc_status c = CfPending" "now < oc_expiresAt c" "core c = c" "runShown run c"
      by (simp_all add: c_def createConfirmation_def core_def ttl_pos runShown_def run_def)
    moreover have "o1 = WaitRegistered \<longrightarrow> effs = [] \<and> st' = st1"
      using assms Inr True w unfolding runCommand_def c_def run_def by (auto simp: Let_def)
    ultimately have "startsWaiting now i st effs st'" using w unfolding startsWaiting_def by blast
    then show ?thesis ..
  qed
qed

lemma shell_started:
  assumes "runClusterShell deps t now i sm st = (out, effs, st')"
  shows "st' = st \<and> (\<forall>e\<in>set effs. effCard e = None) \<or> startsWaiting now i st effs st'"
proof (cases "runClusterShellGate deps t sm")
  case (Inl res)
  then show ?thesis using assms by (simp add: runClusterShell_def)
next
  case (Inr k)
  show ?thesis
  proof (cases "sm_confirmed sm")
    case True
    then show ?thesis using assms Inr shell_effects(2) by (fastforce simp: runClusterShell_def split: prod.splits)
  next
    case False
    define c where "c = createClusterShellConfirmation now i (kd_orgId deps) (sm_userId sm) (sm_sessionId sm) (sm_connectorId sm)
       (sm_script sm) (sm_scope sm) (presentString (sm_namespace sm)) (presentString (sm_image sm))"
    define run where "run = \<lparr>su_kind = KindClusterShell, su_connector = k, su_connectorId = sm_connectorId sm,
       su_command = sm_script sm, su_capability = ''runtime.cluster_shell.'' @ scopeName (sm_scope sm),
       su_scope = sm_scope sm, su_namespace = sm_namespace sm, su_image = sm_image sm, su_userId = sm_userId sm,
       su_sessionId = sm_sessionId sm, su_deadline = now\<rparr>"
    obtain o1 st1 where w: "waitForConfirmationDecision now (addConfirmation now c st) i run = (o1, st1)" by fastforce
    have "cn_id k = sm_connectorId sm"
      using Inr ops_connector_id by (auto simp: runClusterShellGate_def Let_def split: sum.splits if_splits)
    then have "oc_id c = i" "oc_status c = CfPending" "now < oc_expiresAt c" "core c = c" "runShown run c"
      by (simp_all add: c_def createClusterShellConfirmation_def core_def ttl_pos runShown_def run_def Let_def presentString_def)
    moreover have "o1 = WaitRegistered \<longrightarrow> effs = [] \<and> st' = st1"
      using assms Inr False w unfolding runClusterShell_def c_def run_def by (auto simp: Let_def)
    ultimately have "startsWaiting now i st effs st'" using w unfolding startsWaiting_def by blast
    then show ?thesis ..
  qed
qed

lemma find_card:
  assumes "findCard now st auth i = (r, st')" "cardsOk used log st"
  shows "cardsOk used log st'" "cf_waiters st' = cf_waiters st" "cf_woken st' = cf_woken st"
  using assms get_card(3-5) by (auto simp: findCard_def split: option.splits prod.splits if_splits)

lemma begin_card:
  assumes "executeBegin deps now st auth i = (r, st')" "cardsOk used log st"
  shows "cardsOk used log st'" "cf_waiters st' = cf_waiters st" "cf_woken st' = cf_woken st"
proof -
  obtain f st1 where f: "findCard now st auth i = (f, st1)" by fastforce
  have "st' = st1" using assms(1) by (cases f) (auto simp: executeBegin_def f split: prod.splits if_splits)
  then show "cardsOk used log st'" "cf_waiters st' = cf_waiters st" "cf_woken st' = cf_woken st"
    using find_card [OF f assms(2)] by simp_all
qed

lemma requests_split:
  "requestsOk log (before @ (who, c, rem) # after) \<longleftrightarrow> requestsOk log (before @ after) \<and> requestsOk log [(who, c, rem)]"
  by (auto simp: requestsOk_def)

lemma requests_one:
  "requestsOk log [(who, c, rem)] \<longleftrightarrow> EvCard (core c) \<in> log \<and> id_orgId who = oc_orgId c
     \<and> (\<exists>deps. EvAdmitted deps who c \<in> log \<and> fst (acEvaluate deps who (runCheck c)))"
  by (simp add: requestsOk_def)


lemma ops_step_inv: "ops_step w w' \<Longrightarrow> opsInv w \<Longrightarrow> opsInv w'"
proof (induction rule: ops_step.induct)
  case (op_command newId w deps pm out effs st)
  then show ?case by (intro started_inv command_started)
next
  case (op_shell newId w deps sm out effs st)
  then show ?case by (intro started_inv shell_started)
next
  case (op_timeout w i run)
  then show ?case by (intro timeout_inv)
next
  case (op_resume w before i run d after deps res effs st)
  then show ?case by (intro resume_inv)
next
  case (op_begin w auth i who c st remember)
  have cards: "cardsOk (set (ow_used w)) (set (ow_log w)) (ow_store w)" using op_begin(2) by (simp add: opsInv_def)
  note a = admitted_check [OF op_begin(1) cards]
  have "requestsOk (set (ow_log w)) (ow_requests w)" using op_begin(2) by (simp add: opsInv_def)
  then have "requestsOk (set (EvAdmitted (ow_access w) who c # ow_log w)) ((who, c, remember) # ow_requests w)"
    using a by (auto simp: requestsOk_def)
  then show ?case
    by (intro opsInv_quiet [OF op_begin(2), where es = "[EvAdmitted (ow_access w) who c]" and st' = st and rs = "(who, c, remember) # ow_requests w"])
      (use begin_card [OF op_begin(1) cards] in \<open>simp_all add: silent_def\<close>)
next
  case (op_refuse w auth i r st)
  have cards: "cardsOk (set (ow_used w)) (set (ow_log w)) (ow_store w)" "requestsOk (set (ow_log w)) (ow_requests w)"
    using op_refuse(2) by (simp_all add: opsInv_def)
  show ?case
    by (rule opsInv_quiet [OF op_refuse(2), where es = "[]" and st' = st and rs = "ow_requests w"])
      (use begin_card [OF op_refuse(1) cards(1)] cards(2) in simp_all)
next
  case (op_remember w before who c after hasStore r t)
  have reqs: "requestsOk (set (ow_log w)) (before @ (who, c, True) # after)" and cards: "cardsOk (set (ow_used w)) (set (ow_log w)) (ow_store w)"
    using op_remember(1,3) by (simp_all add: opsInv_def)
  have "requestsOk (set (ow_log w)) (before @ (case r of Inl _ \<Rightarrow> [] | Inr _ \<Rightarrow> [(who, c, False)]) @ after)"
    using reqs by (auto simp: requests_split requests_one split: sum.splits)
  then show ?case
    by (intro opsInv_quiet [OF op_remember(3), where es = "[]" and st' = "ow_store w"]) (use cards in simp_all)
next
  case (op_decide w before who c after remembered r st)
  have "requestsOk (set (ow_log w)) (before @ (who, c, False) # after)" using op_decide(1,3) by (simp add: opsInv_def)
  then have "requestsOk (set (ow_log w)) (before @ after)" "requestsOk (set (ow_log w)) [(who, c, False)]" by (simp_all add: requests_split)
  then show ?case by (intro decide_inv [OF op_decide(3,2), where log = True]) (simp_all add: requests_one)
next
  case (op_reject auth who w i r st)
  have cards: "cardsOk (set (ow_used w)) (set (ow_log w)) (ow_store w)" "requestsOk (set (ow_log w)) (ow_requests w)"
    using op_reject(3) by (simp_all add: opsInv_def)
  obtain f st1 where f: "findCard (ow_now w) (ow_store w) auth i = (f, st1)" by fastforce
  note fc = find_card [OF f cards(1)]
  have ok1: "opsInv (w\<lparr>ow_store := st1\<rparr>)"
    by (rule opsInv_quiet [OF op_reject(3), where es = "[]" and st' = st1 and rs = "ow_requests w"]) (use fc cards(2) in simp_all)
  show ?case
  proof (cases f)
    case (Inl x)
    then show ?thesis using op_reject(2) f ok1 by (simp add: handleRejectCard_def)
  next
    case (Inr wc)
    then obtain p c where "f = Inr (p, c)" by (cases wc) auto
    then have "decide (ow_now w) (ow_store (w\<lparr>ow_store := st1\<rparr>)) p c CfRejected None = (r, st)"
      using op_reject(2) f by (simp add: handleRejectCard_def)
    from decide_inv [OF ok1 this, where log = False and rs = "ow_requests w" and es = "[]"] show ?thesis using cards(2) by simp
  qed
next
  case (op_tables w t a)
  then show ?case by (simp add: opsInv_def)
next
  case (op_time w now)
  then show ?case by (simp add: opsInv_def)
qed

interpretation ops: step_system ops_init ops_step opsInv
proof
  fix w assume "ops_init w"
  then show "opsInv w"
    by (simp add: ops_init_def opsInv_def emptyStore_def cardsOk_def runsOk_def tickets_def requestsOk_def cardEventsOk_def)
qed (rule ops_step_inv)

lemma logOk_split: "logOk (later @ e # earlier) \<Longrightarrow> effectOk (set earlier) e"
  by (induction later) auto

section \<open>Properties\<close>

text \<open>C3: a confirmation card authorises one execution. In every reachable state of the process, whatever
  the interleaving of runs, timers, requests and changes of the tables: when the log shows that an
  adapter was called for a card, then earlier in the log the card was made and shows exactly what is
  executed on that connector; it was decided while pending and before it expired, by someone of the
  card's organisation who had passed the check for it under the tables of that moment; and this is the
  only execution for the card.\<close>

theorem ops_execution_authorised:
  assumes "ops_init w0" "ops_step\<^sup>*\<^sup>* w0 w" "ow_log w = later @ EvEffect e # earlier" "effCard e = Some i"
  shows "\<exists>c who t deps c'. EvCard c \<in> set earlier \<and> oc_id c = i \<and> shownOn c e
      \<and> EvDecided i CfExecuted who t \<in> set earlier \<and> t < oc_expiresAt c \<and> id_orgId who = oc_orgId c
      \<and> EvAdmitted deps who c' \<in> set earlier \<and> core c' = core c \<and> fst (acEvaluate deps who (runCheck c))
      \<and> length (filter (executes i) (ow_log w)) = 1"
proof -
  have inv: "opsInv w" by (rule ops.reachable_inv [OF assms(1,2)])
  then have "logOk (later @ EvEffect e # earlier)" using assms(3) by (simp add: opsInv_def)
  then have "effectOk (set earlier) (EvEffect e)" by (rule logOk_split)
  then obtain c where c: "EvCard c \<in> set earlier" "oc_id c = i" "shownOn c e" "approved (set earlier) c" using assms(4) by auto
  have "length (filter (executes i) (ow_log w)) \<le> 1" using inv by (force simp: opsInv_def runsOk_def tickets_def dest: spec [of _ i])
  moreover have "length (filter (executes i) (ow_log w)) > 0" using assms(3,4) by simp
  ultimately have "length (filter (executes i) (ow_log w)) = 1" by linarith
  then show ?thesis using c unfolding approved_def by blast
qed

definition exAsk :: command_params where
  "exAsk = exCommand ''kubectl delete po w -n a''"

definition exCard :: OpsCommandConfirmation where
  "exCard = createConfirmation 0 ''c1'' ''o'' ''sa'' ''s'' ''k'' ''kubectl delete po w -n a''"

definition exWaiting :: suspended where
  "exWaiting = \<lparr>su_kind = KindKubectl, su_connector = exConnector, su_connectorId = ''k'', su_command = ''kubectl delete po w -n a'',
     su_capability = ''runtime.delete'', su_scope = ScopeCluster, su_namespace = None, su_image = None, su_userId = ''sa'',
     su_sessionId = ''s'', su_deadline = 600000\<rparr>"

definition exStore1 :: confirm_store where
  "exStore1 = \<lparr>cf_pending = [(''c1'', exCard)], cf_pruneAt = [], cf_waiters = [(''c1'', exWaiting)], cf_woken = []\<rparr>"

definition exStore2 :: confirm_store where
  "exStore2 = \<lparr>cf_pending = [(''c1'', exCard\<lparr>oc_status := CfExecuted, oc_approvedByUserId := Some ''boss'', oc_approvedAt := Some 0\<rparr>)],
     cf_pruneAt = [(''c1'', 60000)], cf_waiters = [], cf_woken = [(''c1'', exWaiting, CfExecuted)]\<rparr>"

definition exBoss :: Identity where
  "exBoss = exIdentity\<lparr>id_userId := ''boss'', id_orgId := ''o'',
     id_permissions := Some [\<lparr>rp_action = ACTIONS_InstanceConfigWrite, rp_scope = []\<rparr>]\<rparr>"

definition exAccess :: AccessControlDeps where
  "exAccess = \<lparr>ad_tables = exAuth, ad_resolvers = None, ad_legacyAcl = None, ad_LEGACY_ACL_ENABLED = None\<rparr>"

definition exWorld :: ops_world where
  "exWorld = \<lparr>ow_now = 0, ow_store = emptyStore, ow_tables = exSeeded, ow_access = exAccess, ow_requests = [], ow_used = [], ow_log = []\<rparr>"

lemma ex_run: "runCommand exRunner exSeeded 0 ''c1'' exAsk emptyStore = (WaitingFor ''c1'', [], exStore1)" by code_simp
lemma ex_begin: "executeBegin exAccess 0 exStore1 (Some exBoss) ''c1'' = (Inr (exBoss, exCard), exStore1)"
proof -
  have f: "findCard 0 exStore1 (Some exBoss) ''c1'' = (Inr (exBoss, exCard), exStore1)" by code_simp
  have perms: "id_permissions exBoss = Some [\<lparr>rp_action = ACTIONS_InstanceConfigWrite, rp_scope = []\<rparr>]" by (simp add: exBoss_def)
  have "evaluate (runCheck exCard) [\<lparr>rp_action = ACTIONS_InstanceConfigWrite, rp_scope = []\<rparr>]" by code_simp
  then have "acEvaluate exAccess exBoss (runCheck exCard) = (True, exBoss)"
    by (simp add: acEvaluate_def ensurePermissions_def perms effectiveEvaluator_def exAccess_def)
  then show ?thesis by (simp add: executeBegin_def f)
qed

lemma ex_decide: "snd (decide 0 exStore1 exBoss exCard CfExecuted None) = exStore2" by code_simp

theorem ops_execution_authorised_witness:
  "\<exists>w later e earlier who t. ops_step\<^sup>*\<^sup>* exWorld w \<and> ow_log w = later @ EvEffect e # earlier \<and> effCard e = Some ''c1''
     \<and> EvDecided ''c1'' CfExecuted who t \<in> set earlier \<and> length (filter (executes ''c1'') (ow_log w)) = 1"
proof -
  define w1 where "w1 = exWorld\<lparr>ow_store := exStore1, ow_used := [''c1''], ow_log := [EvCard exCard]\<rparr>"
  define w2 where "w2 = w1\<lparr>ow_requests := [(exBoss, exCard, False)], ow_log := [EvAdmitted exAccess exBoss exCard, EvCard exCard]\<rparr>"
  define w3 where "w3 = w2\<lparr>ow_store := exStore2, ow_requests := [],
     ow_log := decisionEvents 0 exStore1 exBoss (oc_id exCard) CfExecuted @ ow_log w2\<rparr>"
  have s1: "ops_step exWorld w1"
    using op_command [of "''c1''" exWorld exRunner exAsk] ex_run by (simp add: exWorld_def w1_def cardEvents_def exStore1_def)
  have s2: "ops_step w1 w2"
    using op_begin [of w1 "Some exBoss" "''c1''" exBoss exCard exStore1 False] ex_begin by (simp add: w1_def w2_def exWorld_def)
  have s3: "ops_step w2 w3"
    using op_decide [of w2 "[]" exBoss exCard "[]" None "fst (decide 0 exStore1 exBoss exCard CfExecuted None)" exStore2]
      ex_decide prod.collapse [of "decide 0 exStore1 exBoss exCard CfExecuted None"] by (simp add: w2_def w3_def w1_def exWorld_def)
  obtain res effs st where r: "resumeRun exRunner 0 (exStore2\<lparr>cf_woken := []\<rparr>) ''c1'' exWaiting CfExecuted = (res, effs, st)"
    using prod_cases3 by blast
  define w4 where "w4 = w3\<lparr>ow_store := st, ow_log := map EvEffect effs @ ow_log w3\<rparr>"
  have s4: "ops_step w3 w4"
    using op_resume [of w3 "[]" "''c1''" exWaiting CfExecuted "[]" exRunner res effs st] r
    by (simp add: w4_def w3_def w2_def w1_def exWorld_def exStore2_def)
  have reach: "ops_step\<^sup>*\<^sup>* exWorld w3" "ops_step\<^sup>*\<^sup>* exWorld w4"
    using s1 s2 s3 s4 by (meson r_into_rtranclp rtranclp_trans)+
  have init: "ops_init exWorld" by (simp add: ops_init_def exWorld_def)
  have "cardsOk (set (ow_used w3)) (set (ow_log w3)) (exStore2\<lparr>cf_woken := []\<rparr>)"
    using ops.reachable_inv [OF init reach(1)] by (simp add: opsInv_def w3_def cardsOk_runs)
  from resume_effects(5) [OF r this] obtain e es where e: "effs = e # es" "effCard e = Some ''c1''" by blast
  have log: "ow_log w4 = [] @ EvEffect e # map EvEffect es @ ow_log w3" by (simp add: w4_def e(1))
  from ops_execution_authorised [OF init reach(2) log e(2)] show ?thesis using reach(2) log e(2) by blast
qed

end
