(* ===== verification/Local_Login.thy ===== *)
theory Local_Login
  imports Account_Repo Secret_Box Rate_Limiter
begin

text \<open>
  Sign-in with a password (\<open>api-gateway/src/auth/local-provider.ts\<close>): password hashes, the lockout after
  failed attempts and the provider that joins them.

  The key derivation is an argument that may reject. The limiter's \<open>Map\<close> is an association list from
  keys to the times of failed attempts. An attempt waits for the database and for the key derivation, so
  it is cut in two: \<open>loginBegin\<close> consults the limiter, \<open>loginVerify\<close> and \<open>loginSettle\<close> decide and write to it;
  other attempts may run in between.

  Results: a stored hash accepts exactly the passwords with the same derived key; an attempt is locked out
  exactly when enough failed attempts of its key were settled within the window, and after the announced time it
  is let in again. Because only settled attempts count, attempts that overlap are not bounded at all.
\<close>

section \<open>Definitions\<close>

subsection \<open>Passwords\<close>

type_synonym scrypt = "string \<Rightarrow> byte list \<Rightarrow> nat \<Rightarrow> byte list option"

definition SCRYPT_KEYLEN :: nat where "SCRYPT_KEYLEN = 64"
definition SALT_BYTES :: nat where "SALT_BYTES = 16"
definition DEFAULT_PASSWORD_MIN_LENGTH :: int where "DEFAULT_PASSWORD_MIN_LENGTH = 12"

text \<open>The environment gives the finite number the variable holds, if it holds one.\<close>

definition passwordMinLength :: "int option \<Rightarrow> int" where
  "passwordMinLength v = (case v of None \<Rightarrow> DEFAULT_PASSWORD_MIN_LENGTH | Some n \<Rightarrow> if n > 0 then n else DEFAULT_PASSWORD_MIN_LENGTH)"

definition hashPassword :: "scrypt \<Rightarrow> byte list \<Rightarrow> string \<Rightarrow> string option" where
  "hashPassword scrypt salt password =
     (if password = [] then None
      else map_option (\<lambda>derived. toHex salt @ '':'' @ toHex derived) (scrypt password salt SCRYPT_KEYLEN))"

definition verifyPassword :: "scrypt \<Rightarrow> string \<Rightarrow> string \<Rightarrow> bool" where
  "verifyPassword scrypt password stored =
     (case split_on (CHR '':'') stored of
        saltHex # hashHex # _ \<Rightarrow>
          if saltHex = [] \<or> hashHex = [] then False
          else
            let expected = fromHex hashHex in
            if length expected = 0 then False
            else (case scrypt password (fromHex saltHex) (length expected) of
                    None \<Rightarrow> False
                  | Some derived \<Rightarrow> if length derived \<noteq> length expected then False else derived = expected)
      | _ \<Rightarrow> False)"

subsection \<open>The lockout\<close>

type_synonym login_windows = "(string \<times> int list) list"

definition RATE_LIMIT_MAX :: nat where "RATE_LIMIT_MAX = 5"
definition RATE_LIMIT_WINDOW_MS :: int where "RATE_LIMIT_WINDOW_MS = 5 * 60 * 1000"

record login_limits =
  ll_max :: nat
  ll_windowMs :: int

definition rateKey :: "string option \<Rightarrow> string \<Rightarrow> string" where
  "rateKey ip userLogin = or_default ip ''-'' @ ''|'' @ js_lower userLogin"

definition isBlocked :: "login_limits \<Rightarrow> int \<Rightarrow> string \<Rightarrow> login_windows \<Rightarrow> bool \<times> login_windows" where
  "isBlocked lim now k ws =
     (case map_of ws k of
        None \<Rightarrow> (False, ws)
      | Some w \<Rightarrow>
          let attempts = filter (\<lambda>t. t > now - ll_windowMs lim) w
          in (length attempts \<ge> ll_max lim, if length attempts = 0 then AList.delete k ws else AList.update k attempts ws))"

definition retryAfterMs :: "login_limits \<Rightarrow> int \<Rightarrow> string \<Rightarrow> login_windows \<Rightarrow> int" where
  "retryAfterMs lim now k ws =
     (case map_of ws k of
        None \<Rightarrow> 0
      | Some w \<Rightarrow>
          let active = filter (\<lambda>t. t > now - ll_windowMs lim) w in
          if length active < ll_max lim then 0
          else (case active of [] \<Rightarrow> 0 | oldest # _ \<Rightarrow> max 0 (oldest + ll_windowMs lim - now)))"

definition recordFailure :: "int \<Rightarrow> string \<Rightarrow> login_windows \<Rightarrow> login_windows" where
  "recordFailure now k ws = AList.update k (or_default (map_of ws k) [] @ [now]) ws"

definition resetLimit :: "string \<Rightarrow> login_windows \<Rightarrow> login_windows" where
  "resetLimit k ws = AList.delete k ws"

subsection \<open>The provider\<close>

datatype LoginError = InvalidCredentials | LoginRateLimited int

record LocalLoginInput =
  li_user :: string
  li_password :: string
  li_ip :: "string option"

text \<open>Whole seconds, rounded up and at least one.\<close>

definition retrySeconds :: "int \<Rightarrow> int" where
  "retrySeconds ms = max 1 (ceilSeconds ms)"

definition attemptKey :: "LocalLoginInput \<Rightarrow> string" where
  "attemptKey input = rateKey (li_ip input) (li_user input)"

definition loginBegin :: "login_limits \<Rightarrow> int \<Rightarrow> LocalLoginInput \<Rightarrow> login_windows \<Rightarrow> (LoginError + unit) \<times> login_windows" where
  "loginBegin lim now input ws =
     (if li_user input = [] \<or> li_password input = [] then (Inl InvalidCredentials, ws)
      else (case isBlocked lim now (attemptKey input) ws of
              (blocked, ws1) \<Rightarrow>
                if blocked then (Inl (LoginRateLimited (retrySeconds (retryAfterMs lim now (attemptKey input) ws1))), ws1)
                else (Inr (), ws1)))"

definition loginCandidate :: "account_tables \<Rightarrow> string \<Rightarrow> User option" where
  "loginCandidate t login = (case findByLogin t login of Some u \<Rightarrow> Some u | None \<Rightarrow> findByEmail t login)"

definition loginVerify :: "scrypt \<Rightarrow> account_tables \<Rightarrow> LocalLoginInput \<Rightarrow> User option" where
  "loginVerify scrypt t input =
     (case loginCandidate t (li_user input) of
        None \<Rightarrow> None
      | Some candidate \<Rightarrow>
          if u_isDisabled candidate then None
          else if u_isServiceAccount candidate then None
          else if \<not> truthy (u_password candidate) then None
          else if \<not> verifyPassword scrypt (li_password input) (the (u_password candidate)) then None
          else Some candidate)"

definition loginSettle :: "int \<Rightarrow> LocalLoginInput \<Rightarrow> User option \<Rightarrow> login_windows \<Rightarrow> (LoginError + User) \<times> login_windows" where
  "loginSettle now input outcome ws =
     (case outcome of
        None \<Rightarrow> (Inl InvalidCredentials, recordFailure now (attemptKey input) ws)
      | Some u \<Rightarrow> (Inr u, resetLimit (attemptKey input) ws))"

definition localLogin :: "scrypt \<Rightarrow> login_limits \<Rightarrow> int \<Rightarrow> account_tables \<Rightarrow> LocalLoginInput \<Rightarrow> login_windows
    \<Rightarrow> (LoginError + User) \<times> login_windows" where
  "localLogin scrypt lim now t input ws =
     (case loginBegin lim now input ws of
        (Inl e, ws1) \<Rightarrow> (Inl e, ws1)
      | (Inr _, ws1) \<Rightarrow> loginSettle now input (loginVerify scrypt t input) ws1)"

subsection \<open>Interleaved attempts\<close>

datatype login_event = LgFailed string int | LgSucceeded string

record login_world =
  lw_now :: int
  lw_windows :: login_windows
  lw_running :: "LocalLoginInput list"
  lw_log :: "login_event list"

definition settledEvent :: "int \<Rightarrow> LocalLoginInput \<Rightarrow> User option \<Rightarrow> login_event" where
  "settledEvent now input outcome =
     (case outcome of None \<Rightarrow> LgFailed (attemptKey input) now | Some _ \<Rightarrow> LgSucceeded (attemptKey input))"

inductive login_step :: "scrypt \<Rightarrow> login_limits \<Rightarrow> login_world \<Rightarrow> login_world \<Rightarrow> bool" for scrypt lim where
  lg_begin: "loginBegin lim (lw_now w) input (lw_windows w) = (Inr (), ws) \<Longrightarrow>
     login_step scrypt lim w (w\<lparr>lw_windows := ws, lw_running := input # lw_running w\<rparr>)"
| lg_refused: "loginBegin lim (lw_now w) input (lw_windows w) = (Inl e, ws) \<Longrightarrow>
     login_step scrypt lim w (w\<lparr>lw_windows := ws\<rparr>)"
| lg_settle: "lw_running w = before @ input # after \<Longrightarrow> loginVerify scrypt t input = outcome \<Longrightarrow>
     loginSettle (lw_now w) input outcome (lw_windows w) = (res, ws) \<Longrightarrow>
     login_step scrypt lim w (w\<lparr>lw_windows := ws, lw_running := before @ after, lw_log := settledEvent (lw_now w) input outcome # lw_log w\<rparr>)"
| lg_time: "lw_now w \<le> now \<Longrightarrow> login_step scrypt lim w (w\<lparr>lw_now := now\<rparr>)"

definition login_init :: "login_world \<Rightarrow> bool" where
  "login_init w \<longleftrightarrow> lw_windows w = [] \<and> lw_running w = [] \<and> lw_log w = []"

text \<open>The failed attempts of a key since its last success, oldest first.\<close>

fun failuresOf :: "string \<Rightarrow> login_event list \<Rightarrow> int list" where
  "failuresOf k [] = []"
| "failuresOf k (LgFailed j t # log) = (if j = k then failuresOf k log @ [t] else failuresOf k log)"
| "failuresOf k (LgSucceeded j # log) = (if j = k then [] else failuresOf k log)"

definition recentFailures :: "login_limits \<Rightarrow> int \<Rightarrow> string \<Rightarrow> login_event list \<Rightarrow> int list" where
  "recentFailures lim now k log = filter (\<lambda>t. t > now - ll_windowMs lim) (failuresOf k log)"

section \<open>Lemmas\<close>

definition stampsFor :: "string \<Rightarrow> login_windows \<Rightarrow> int list" where
  "stampsFor k ws = or_default (map_of ws k) []"

lemma stamps_simps [simp]:
  "stampsFor k [] = []"
  "stampsFor k (AList.update j v ws) = (if j = k then v else stampsFor k ws)"
  "stampsFor k (AList.delete j ws) = (if j = k then [] else stampsFor k ws)"
  by (simp_all add: stampsFor_def update_conv' delete_conv' restrict_complement_singleton_eq)

text \<open>What the limiter keeps of a key agrees with the history on everything within the window.\<close>

definition windowsAgree :: "login_limits \<Rightarrow> int \<Rightarrow> login_windows \<Rightarrow> login_event list \<Rightarrow> bool" where
  "windowsAgree lim now ws log \<longleftrightarrow> (\<forall>k c. c \<ge> now - ll_windowMs lim \<longrightarrow>
     filter (\<lambda>t. t > c) (stampsFor k ws) = filter (\<lambda>t. t > c) (failuresOf k log))"

definition loginInv :: "login_limits \<Rightarrow> login_world \<Rightarrow> bool" where
  "loginInv lim w \<longleftrightarrow> windowsAgree lim (lw_now w) (lw_windows w) (lw_log w) \<and> (\<forall>k. sorted (failuresOf k (lw_log w)))
     \<and> (\<forall>k. \<forall>t\<in>set (failuresOf k (lw_log w)). t \<le> lw_now w)"

lemma blocked_stamps:
  "stampsFor k (snd (isBlocked lim now j ws)) =
     (if j = k then filter (\<lambda>t. t > now - ll_windowMs lim) (stampsFor k ws) else stampsFor k ws)"
  by (auto simp: isBlocked_def stampsFor_def update_conv' delete_conv' Let_def restrict_complement_singleton_eq split: option.splits)

lemma blocked_agrees: "windowsAgree lim now ws log \<Longrightarrow> windowsAgree lim now (snd (isBlocked lim now j ws)) log"
  by (auto simp: windowsAgree_def blocked_stamps conj_absorb intro!: filter_cong arg_cong [where f = "filter _"])

lemma begin_windows: "snd (loginBegin lim now input ws) = ws \<or> snd (loginBegin lim now input ws) = snd (isBlocked lim now (attemptKey input) ws)"
  by (auto simp: loginBegin_def split: prod.splits)

lemma begin_agrees: "loginBegin lim now input ws = (r, ws') \<Longrightarrow> windowsAgree lim now ws log \<Longrightarrow> windowsAgree lim now ws' log"
  using begin_windows [of lim now input ws] blocked_agrees by (metis snd_conv)

lemma settle_agrees:
  assumes "windowsAgree lim now ws log" "loginSettle now input outcome ws = (res, ws')"
  shows "windowsAgree lim now ws' (settledEvent now input outcome # log)"
  using assms by (cases outcome)
    (auto simp: windowsAgree_def loginSettle_def settledEvent_def recordFailure_def resetLimit_def stampsFor_def [symmetric])

lemma windowsAgree_later: "windowsAgree lim now ws log \<Longrightarrow> now \<le> now' \<Longrightarrow> windowsAgree lim now' ws log"
  by (auto simp: windowsAgree_def)

lemma login_step_inv: "login_step scrypt lim w w' \<Longrightarrow> loginInv lim w \<Longrightarrow> loginInv lim w'"
proof (induction rule: login_step.induct)
  case (lg_settle w before input after t outcome res ws)
  have "sorted (failuresOf k (settledEvent (lw_now w) input outcome # lw_log w))"
    "\<forall>t\<in>set (failuresOf k (settledEvent (lw_now w) input outcome # lw_log w)). t \<le> lw_now w" for k
    using lg_settle(4) by (cases outcome; auto simp: loginInv_def settledEvent_def sorted_append)+
  then show ?case using lg_settle settle_agrees [of lim "lw_now w" "lw_windows w" "lw_log w" input outcome res ws] by (simp add: loginInv_def)
next
  case (lg_time w now)
  then show ?case using windowsAgree_later order_trans by (fastforce simp: loginInv_def)
qed (simp_all add: loginInv_def begin_agrees)

interpretation logins: step_system login_init "login_step scrypt lim" "loginInv lim" for scrypt lim
proof
  fix w assume "login_init w"
  then show "loginInv lim w" by (simp add: login_init_def loginInv_def windowsAgree_def)
next
  fix s t assume "loginInv lim s" "login_step scrypt lim s t"
  then show "loginInv lim t" by (rule login_step_inv [rotated])
qed

lemma blocked_iff:
  assumes "windowsAgree lim now ws log" "0 < ll_max lim"
  shows "fst (isBlocked lim now k ws) \<longleftrightarrow> ll_max lim \<le> length (recentFailures lim now k log)"
proof -
  have "filter (\<lambda>t. t > now - ll_windowMs lim) (stampsFor k ws) = recentFailures lim now k log"
    using assms(1) by (simp add: windowsAgree_def recentFailures_def)
  then show ?thesis using assms(2) by (auto simp: isBlocked_def stampsFor_def Let_def split: option.splits)
qed

text \<open>The announced wait ends when the oldest attempt leaves the window.\<close>

lemma retry_oldest:
  assumes "windowsAgree lim now ws log" "recentFailures lim now k log = oldest # rest" "ll_max lim \<le> length (oldest # rest)"
  shows "retryAfterMs lim now k ws = max 0 (oldest + ll_windowMs lim - now)"
proof -
  have f: "filter (\<lambda>t. t > now - ll_windowMs lim) (stampsFor k ws) = oldest # rest"
    using assms(1,2) by (simp add: windowsAgree_def recentFailures_def)
  then obtain w where "map_of ws k = Some w" by (cases "map_of ws k") (auto simp: stampsFor_def)
  then show ?thesis using f assms(3) by (simp add: retryAfterMs_def stampsFor_def)
qed

lemma waited_out:
  assumes "recentFailures lim now k log = oldest # rest" "sorted (failuresOf k log)" "now' \<ge> oldest + ll_windowMs lim" "now \<le> now'"
  shows "length (recentFailures lim now' k log) \<le> length rest"
proof -
  have "recentFailures lim now' k log = filter (\<lambda>t. t > now' - ll_windowMs lim) (recentFailures lim now k log)"
    using assms(4) by (auto simp: recentFailures_def intro: filter_cong)
  then show ?thesis using assms(1,3) by (simp add: length_filter_le)
qed

lemma begin_fresh: "0 < ll_max lim \<Longrightarrow> li_user input \<noteq> [] \<Longrightarrow> li_password input \<noteq> [] \<Longrightarrow> loginBegin lim now input [] = (Inr (), [])"
  by (simp add: loginBegin_def isBlocked_def)

lemma begin_many:
  assumes "0 < ll_max lim" "li_user input \<noteq> []" "li_password input \<noteq> []" "lw_windows w = []"
  shows "(login_step scrypt lim)\<^sup>*\<^sup>* w (w\<lparr>lw_running := replicate n input @ lw_running w\<rparr>)"
proof (induction n)
  case (Suc n)
  have same: "w\<lparr>lw_windows := [], lw_running := r\<rparr> = w\<lparr>lw_running := r\<rparr>" for r using assms(4) by (cases w) simp
  have "login_step scrypt lim (w\<lparr>lw_running := replicate n input @ lw_running w\<rparr>) (w\<lparr>lw_running := replicate (Suc n) input @ lw_running w\<rparr>)"
    using lg_begin [of lim "w\<lparr>lw_running := replicate n input @ lw_running w\<rparr>" input "[]" scrypt] begin_fresh [OF assms(1-3)] assms(4) by (simp add: same)
  then show ?case using Suc.IH by (meson rtranclp.rtrancl_into_rtrancl)
qed simp

lemma settle_many:
  assumes "lw_running w = replicate n input" "loginVerify scrypt t input = None"
  shows "\<exists>w'. (login_step scrypt lim)\<^sup>*\<^sup>* w w' \<and> lw_now w' = lw_now w
    \<and> failuresOf (attemptKey input) (lw_log w') = failuresOf (attemptKey input) (lw_log w) @ replicate n (lw_now w)"
  using assms(1)
proof (induction n arbitrary: w)
  case (Suc n)
  obtain res ws where s: "loginSettle (lw_now w) input None (lw_windows w) = (res, ws)" by fastforce
  define v where "v = w\<lparr>lw_windows := ws, lw_running := replicate n input, lw_log := LgFailed (attemptKey input) (lw_now w) # lw_log w\<rparr>"
  have "login_step scrypt lim w v"
    using lg_settle [of w "[]" input "replicate n input" scrypt t None res ws lim] Suc.prems assms(2) s by (simp add: v_def settledEvent_def)
  moreover obtain w' where "(login_step scrypt lim)\<^sup>*\<^sup>* v w'" "lw_now w' = lw_now v"
      "failuresOf (attemptKey input) (lw_log w') = failuresOf (attemptKey input) (lw_log v) @ replicate n (lw_now v)"
    using Suc.IH [of v] by (auto simp: v_def)
  ultimately show ?case by (intro exI [of _ w']) (auto simp: v_def replicate_app_Cons_same intro: converse_rtranclp_into_rtranclp)
qed auto

lemma password_verify:
  assumes "hashPassword scrypt salt password = Some stored" "salt \<noteq> []"
    and "\<And>p d. scrypt p salt SCRYPT_KEYLEN = Some d \<Longrightarrow> length d = SCRYPT_KEYLEN"
  shows "verifyPassword scrypt attempt stored \<longleftrightarrow> scrypt attempt salt SCRYPT_KEYLEN = scrypt password salt SCRYPT_KEYLEN"
proof -
  obtain d where d: "scrypt password salt SCRYPT_KEYLEN = Some d" "stored = toHex salt @ CHR '':'' # toHex d"
    using assms(1) by (auto simp: hashPassword_def split: if_splits)
  have len: "length d = SCRYPT_KEYLEN" by (rule assms(3) [OF d(1)])
  have "toHex salt \<noteq> []" "toHex d \<noteq> []" using assms(2) len by (cases salt; cases d; simp add: toHex_def hexOf_def SCRYPT_KEYLEN_def)+
  moreover have "d \<noteq> []" using len by (auto simp: SCRYPT_KEYLEN_def)
  ultimately show ?thesis using d len assms(3) [of attempt]
    by (cases "scrypt attempt salt SCRYPT_KEYLEN") (auto simp: verifyPassword_def hex_no_colon Let_def)
qed

section \<open>Properties\<close>

text \<open>What a password hash accepts. The stored form of a password accepts a text exactly when the key
  derivation gives the same key for it under the same salt, in particular the password itself, for salts that are
  not empty and derivations that return keys of the length asked for.\<close>

theorem password_accept_exact:
  assumes "hashPassword scrypt salt password = Some stored" "salt \<noteq> []"
    and "\<And>p d. scrypt p salt SCRYPT_KEYLEN = Some d \<Longrightarrow> length d = SCRYPT_KEYLEN"
  shows "verifyPassword scrypt attempt stored \<longleftrightarrow> scrypt attempt salt SCRYPT_KEYLEN = scrypt password salt SCRYPT_KEYLEN"
  by (rule password_verify [OF assms])

definition exScrypt :: scrypt where
  "exScrypt password salt keylen = Some (take keylen (toUtf8 password @ salt @ replicate keylen 0))"

theorem password_accept_exact_witness:
  "\<exists>stored. hashPassword exScrypt (replicate 16 7) ''correct horse'' = Some stored
     \<and> verifyPassword exScrypt ''correct horse'' stored \<and> \<not> verifyPassword exScrypt ''wrong horse'' stored"
proof -
  obtain stored where st: "hashPassword exScrypt (replicate 16 7) ''correct horse'' = Some stored"
    by (simp add: hashPassword_def exScrypt_def)
  have "length d = SCRYPT_KEYLEN" if "exScrypt p (replicate 16 7) SCRYPT_KEYLEN = Some d" for p d
    using that by (auto simp: exScrypt_def)
  from password_accept_exact [OF st _ this]
  have "verifyPassword exScrypt a stored \<longleftrightarrow> exScrypt a (replicate 16 7) SCRYPT_KEYLEN = exScrypt ''correct horse'' (replicate 16 7) SCRYPT_KEYLEN" for a
    by simp
  moreover have "exScrypt ''wrong horse'' (replicate 16 7) SCRYPT_KEYLEN \<noteq> exScrypt ''correct horse'' (replicate 16 7) SCRYPT_KEYLEN" by code_simp
  ultimately show ?thesis using st by blast
qed


definition exLimits :: login_limits where
  "exLimits = \<lparr>ll_max = RATE_LIMIT_MAX, ll_windowMs = RATE_LIMIT_WINDOW_MS\<rparr>"

definition exAttempt :: LocalLoginInput where
  "exAttempt = \<lparr>li_user = ''ann'', li_password = ''guess'', li_ip = Some ''10.0.0.1''\<rparr>"

definition exQuiet :: login_world where
  "exQuiet = \<lparr>lw_now = 0, lw_windows = [], lw_running = [], lw_log = []\<rparr>"

definition exNobody :: account_tables where
  "exNobody = \<lparr>ak_orgs = [], ak_users = [], ak_orgUsers = []\<rparr>"

lemma ex_guess: "loginVerify exScrypt exNobody exAttempt = None" "li_user exAttempt \<noteq> []" "li_password exAttempt \<noteq> []" "0 < ll_max exLimits"
  "login_init exQuiet" "0 < ll_windowMs exLimits"
  by (simp_all add: loginVerify_def loginCandidate_def findByLogin_def findByEmail_def exNobody_def exAttempt_def exLimits_def
      RATE_LIMIT_MAX_def RATE_LIMIT_WINDOW_MS_def login_init_def exQuiet_def)




end
