(* ===== verification/Session_Service.thy ===== *)
theory Session_Service
  imports Secret_Box
begin

text \<open>
  Cookie sessions: the token table (\<open>data-layer/src/repository/auth/user-auth-token-repository.ts\<close>)
  and the service over it (\<open>api-gateway/src/auth/session-service.ts\<close>), with the two routes that
  end a session (\<open>routes/auth.ts\<close>, \<open>routes/user.ts\<close>).

  The table is a list of rows in the order of insertion; times are milliseconds, so that the
  ISO texts of the source and their parsing drop out. Random bytes, row identifiers and the hash are
  arguments. An operation that violates the unique index or the primary key throws: its result is
  \<open>None\<close>.

  Results: over any interleaving of operations the service accepts exactly the tokens that the
  history of the session entitles: the newest one, or the one before it for the grace period, while
  the session is neither ended, nor too old, nor idle. Removing old rows changes no answer, and an
  ended session never returns.
\<close>

section \<open>Definitions\<close>

subsection \<open>The table\<close>

record UserAuthToken =
  tk_id :: string
  tk_userId :: string
  tk_authToken :: string
  tk_prevAuthToken :: string
  tk_userAgent :: string
  tk_clientIp :: string
  tk_authTokenSeen :: bool
  tk_seenAt :: "int option"
  tk_rotatedAt :: int
  tk_createdAt :: int
  tk_updatedAt :: int
  tk_revokedAt :: "int option"

record NewUserAuthToken =
  nt_id :: "string option"
  nt_userId :: string
  nt_authToken :: string
  nt_prevAuthToken :: "string option"
  nt_userAgent :: string
  nt_clientIp :: string
  nt_authTokenSeen :: "bool option"
  nt_seenAt :: "int option"
  nt_rotatedAt :: "int option"
  nt_createdAt :: "int option"
  nt_updatedAt :: "int option"

type_synonym token_table = "UserAuthToken list"

definition tokenFindById :: "token_table \<Rightarrow> string \<Rightarrow> UserAuthToken option" where
  "tokenFindById t i = List.find (\<lambda>r. tk_id r = i) t"

definition tokenRow :: "int \<Rightarrow> string \<Rightarrow> NewUserAuthToken \<Rightarrow> UserAuthToken" where
  "tokenRow now i input =
     (let createdAt = or_default (nt_createdAt input) now; updatedAt = or_default (nt_updatedAt input) now in
      \<lparr>tk_id = i, tk_userId = nt_userId input, tk_authToken = nt_authToken input,
       tk_prevAuthToken = or_default (nt_prevAuthToken input) [], tk_userAgent = nt_userAgent input,
       tk_clientIp = nt_clientIp input, tk_authTokenSeen = or_default (nt_authTokenSeen input) False,
       tk_seenAt = nt_seenAt input, tk_rotatedAt = or_default (nt_rotatedAt input) createdAt,
       tk_createdAt = createdAt, tk_updatedAt = updatedAt, tk_revokedAt = None\<rparr>)"

definition tokenCreate :: "token_table \<Rightarrow> int \<Rightarrow> string \<Rightarrow> NewUserAuthToken \<Rightarrow> (UserAuthToken \<times> token_table) option" where
  "tokenCreate t now uid input =
     (let i = or_default (nt_id input) uid; row = tokenRow now i input in
      if list_ex (\<lambda>r. tk_id r = i \<or> tk_authToken r = nt_authToken input) t then None
      else Some (row, t @ [row]))"

definition findByHashedToken :: "token_table \<Rightarrow> string \<Rightarrow> UserAuthToken option" where
  "findByHashedToken t hashedToken =
     List.find (\<lambda>r. tk_revokedAt r = None \<and> (tk_authToken r = hashedToken \<or> tk_prevAuthToken r = hashedToken)) t"

definition tokenListByUser :: "token_table \<Rightarrow> string \<Rightarrow> bool \<Rightarrow> UserAuthToken list" where
  "tokenListByUser t userId includeRevoked =
     sort_key (\<lambda>r. - tk_createdAt r) (filter (\<lambda>r. tk_userId r = userId \<and> (includeRevoked \<or> tk_revokedAt r = None)) t)"

definition onRow :: "string \<Rightarrow> (UserAuthToken \<Rightarrow> UserAuthToken) \<Rightarrow> token_table \<Rightarrow> token_table" where
  "onRow i f t = map (\<lambda>r. if tk_id r = i then f r else r) t"

definition tokenRotate :: "token_table \<Rightarrow> int \<Rightarrow> string \<Rightarrow> string \<Rightarrow> int \<Rightarrow> (UserAuthToken option \<times> token_table) option" where
  "tokenRotate t now i newHashedToken rotatedAt =
     (case tokenFindById t i of
        None \<Rightarrow> Some (None, t)
      | Some existing \<Rightarrow>
          if tk_revokedAt existing \<noteq> None then Some (None, t)
          else if list_ex (\<lambda>r. tk_id r \<noteq> i \<and> tk_authToken r = newHashedToken) t then None
          else let t' = onRow i (\<lambda>r. r\<lparr>tk_prevAuthToken := tk_authToken r, tk_authToken := newHashedToken,
                 tk_rotatedAt := rotatedAt, tk_updatedAt := now\<rparr>) t
               in Some (tokenFindById t' i, t'))"

definition tokenMarkSeen :: "token_table \<Rightarrow> int \<Rightarrow> string \<Rightarrow> int \<Rightarrow> token_table" where
  "tokenMarkSeen t now i seenAt =
     onRow i (\<lambda>r. r\<lparr>tk_authTokenSeen := True, tk_seenAt := Some seenAt, tk_updatedAt := now\<rparr>) t"

definition tokenRevoke :: "token_table \<Rightarrow> int \<Rightarrow> string \<Rightarrow> int \<Rightarrow> token_table" where
  "tokenRevoke t now i revokedAt = onRow i (\<lambda>r. r\<lparr>tk_revokedAt := Some revokedAt, tk_updatedAt := now\<rparr>) t"

definition tokenRevokeAllForUser :: "token_table \<Rightarrow> int \<Rightarrow> string \<Rightarrow> int \<Rightarrow> nat \<times> token_table" where
  "tokenRevokeAllForUser t now userId revokedAt =
     (length (filter (\<lambda>r. tk_userId r = userId \<and> tk_revokedAt r = None) t),
      map (\<lambda>r. if tk_userId r = userId \<and> tk_revokedAt r = None
               then r\<lparr>tk_revokedAt := Some revokedAt, tk_updatedAt := now\<rparr> else r) t)"

definition tokenDeleteExpired :: "token_table \<Rightarrow> int \<Rightarrow> nat \<times> token_table" where
  "tokenDeleteExpired t before =
     (length (filter (\<lambda>r. tk_createdAt r < before) t), filter (\<lambda>r. \<not> tk_createdAt r < before) t)"

subsection \<open>The service\<close>

definition DEFAULT_SESSION_MAX_LIFETIME_MS :: int where "DEFAULT_SESSION_MAX_LIFETIME_MS = 30 * 24 * 60 * 60 * 1000"
definition DEFAULT_SESSION_IDLE_TIMEOUT_MS :: int where "DEFAULT_SESSION_IDLE_TIMEOUT_MS = 7 * 24 * 60 * 60 * 1000"
definition DEFAULT_SESSION_ROTATION_INTERVAL_MS :: int where "DEFAULT_SESSION_ROTATION_INTERVAL_MS = 10 * 60 * 1000"
definition DEFAULT_SESSION_ROTATION_GRACE_MS :: int where "DEFAULT_SESSION_ROTATION_GRACE_MS = 30 * 1000"
definition SESSION_TOKEN_PREFIX :: string where "SESSION_TOKEN_PREFIX = ''openobs_s_''"

record session_opts =
  so_maxLifetimeMs :: int
  so_idleTimeoutMs :: int
  so_rotationIntervalMs :: int
  so_rotationGraceMs :: int

text \<open>The environment gives for each variable the finite number it holds, if it holds one.\<close>

definition envNumber :: "(string \<Rightarrow> int option) \<Rightarrow> string \<Rightarrow> int \<Rightarrow> int" where
  "envNumber env name fallback = (case env name of None \<Rightarrow> fallback | Some n \<Rightarrow> if n > 0 then n else fallback)"

definition sessionOptionsFromEnv :: "(string \<Rightarrow> int option) \<Rightarrow> session_opts" where
  "sessionOptionsFromEnv env =
     \<lparr>so_maxLifetimeMs = envNumber env ''SESSION_MAX_LIFETIME_MS'' DEFAULT_SESSION_MAX_LIFETIME_MS,
      so_idleTimeoutMs = envNumber env ''SESSION_IDLE_TIMEOUT_MS'' DEFAULT_SESSION_IDLE_TIMEOUT_MS,
      so_rotationIntervalMs = envNumber env ''SESSION_ROTATION_INTERVAL_MS'' DEFAULT_SESSION_ROTATION_INTERVAL_MS,
      so_rotationGraceMs = envNumber env ''SESSION_ROTATION_GRACE_MS'' DEFAULT_SESSION_ROTATION_GRACE_MS\<rparr>"

text \<open>The URL-safe variant of base 64, without padding.\<close>

definition toBase64Url :: "byte list \<Rightarrow> string" where
  "toBase64Url bs = map (\<lambda>c. if c = CHR ''+'' then CHR ''-'' else if c = CHR ''/'' then CHR ''_'' else c)
     (filter (\<lambda>c. c \<noteq> CHR ''='') (toBase64 bs))"

definition generateSessionToken :: "byte list \<Rightarrow> string" where
  "generateSessionToken random = SESSION_TOKEN_PREFIX @ toBase64Url random"

definition hashSessionToken :: "crypto \<Rightarrow> string \<Rightarrow> string" where
  "hashSessionToken cr plaintext = toHex (cr_sha256 cr (toUtf8 plaintext))"

definition sessionCreate :: "crypto \<Rightarrow> int \<Rightarrow> string \<Rightarrow> byte list \<Rightarrow> string \<Rightarrow> string \<Rightarrow> string \<Rightarrow> token_table
    \<Rightarrow> ((string \<times> UserAuthToken) \<times> token_table) option" where
  "sessionCreate cr now uid random userId userAgent clientIp t =
     (let token = generateSessionToken random; hashed = hashSessionToken cr token in
      map_option (\<lambda>(row, t'). ((token, row), t'))
        (tokenCreate t now uid
           \<lparr>nt_id = None, nt_userId = userId, nt_authToken = hashed, nt_prevAuthToken = Some [], nt_userAgent = userAgent,
            nt_clientIp = clientIp, nt_authTokenSeen = Some False, nt_seenAt = None, nt_rotatedAt = Some now,
            nt_createdAt = Some now, nt_updatedAt = Some now\<rparr>))"

definition lookupByToken :: "crypto \<Rightarrow> session_opts \<Rightarrow> int \<Rightarrow> token_table \<Rightarrow> string \<Rightarrow> UserAuthToken option" where
  "lookupByToken cr opts now t rawToken =
     (if rawToken = [] then None
      else
        let hashed = hashSessionToken cr rawToken in
        case findByHashedToken t hashed of
          None \<Rightarrow> None
        | Some row \<Rightarrow>
            if tk_revokedAt row \<noteq> None then None
            else if now - tk_createdAt row > so_maxLifetimeMs opts then None
            else
              let lastTouched = max (tk_updatedAt row) (max (tk_rotatedAt row) (tk_createdAt row)) in
              if lastTouched > 0 \<and> now - lastTouched > so_idleTimeoutMs opts then None
              else if tk_prevAuthToken row \<noteq> [] \<and> tk_prevAuthToken row = hashed
                 \<and> now - tk_rotatedAt row > so_rotationGraceMs opts then None
              else Some row)"

definition shouldRotate :: "session_opts \<Rightarrow> int \<Rightarrow> UserAuthToken \<Rightarrow> bool" where
  "shouldRotate opts now row \<longleftrightarrow> now - tk_rotatedAt row \<ge> so_rotationIntervalMs opts"

definition sessionRotate :: "crypto \<Rightarrow> int \<Rightarrow> byte list \<Rightarrow> string \<Rightarrow> token_table
    \<Rightarrow> ((string \<times> UserAuthToken) option \<times> token_table) option" where
  "sessionRotate cr now random i t =
     (let newToken = generateSessionToken random in
      map_option (\<lambda>(row, t'). (map_option (\<lambda>r. (newToken, r)) row, t'))
        (tokenRotate t now i (hashSessionToken cr newToken) now))"

definition markSeen :: "int \<Rightarrow> int option \<Rightarrow> string \<Rightarrow> token_table \<Rightarrow> token_table" where
  "markSeen now at i t = tokenMarkSeen t now i (or_default at now)"

definition revokeSession :: "int \<Rightarrow> string \<Rightarrow> token_table \<Rightarrow> token_table" where
  "revokeSession now i t = tokenRevoke t now i now"

definition revokeAllForUser :: "int \<Rightarrow> string \<Rightarrow> token_table \<Rightarrow> nat \<times> token_table" where
  "revokeAllForUser now userId t = tokenRevokeAllForUser t now userId now"

definition pruneExpired :: "session_opts \<Rightarrow> int \<Rightarrow> token_table \<Rightarrow> nat \<times> token_table" where
  "pruneExpired opts now t = tokenDeleteExpired t (now - so_maxLifetimeMs opts)"

definition listForUser :: "token_table \<Rightarrow> string \<Rightarrow> bool \<Rightarrow> UserAuthToken list" where
  "listForUser t userId includeRevoked = tokenListByUser t userId includeRevoked"

text \<open>Logging out ends the session of the cookie's token; the other route ends the session its
  body names.\<close>

definition handleLogout :: "crypto \<Rightarrow> session_opts \<Rightarrow> int \<Rightarrow> string option \<Rightarrow> token_table \<Rightarrow> token_table" where
  "handleLogout cr opts now cookie t =
     (case cookie of
        None \<Rightarrow> t
      | Some token \<Rightarrow> (case lookupByToken cr opts now t token of None \<Rightarrow> t | Some row \<Rightarrow> revokeSession now (tk_id row) t))"

datatype RevokeResponse = RvUnauthorized | RvValidation | RvDone

definition handleRevokeAuthToken :: "int \<Rightarrow> string option \<Rightarrow> string option \<Rightarrow> token_table \<Rightarrow> RevokeResponse \<times> token_table" where
  "handleRevokeAuthToken now authUserId authTokenId t =
     (case authUserId of
        None \<Rightarrow> (RvUnauthorized, t)
      | Some _ \<Rightarrow> if \<not> truthy authTokenId then (RvValidation, t) else (RvDone, revokeSession now (the authTokenId) t))"

subsection \<open>Histories\<close>

text \<open>
  The events of a history, newest first. A step is one operation of the service on the table, the
  removal of a user (the schema removes his rows) or the passing of time. Tokens come from 32 random bytes:
  a new one hashes to none of the earlier hashes.
\<close>

datatype session_event =
    SvCreated string string string int
  | SvRotated string string int
  | SvSeen string int
  | SvRevoked string
  | SvRevokedAll string

record session_world =
  sw_now :: int
  sw_table :: token_table
  sw_log :: "session_event list"

fun issuedBy :: "session_event \<Rightarrow> (string \<times> string) list" where
  "issuedBy (SvCreated i u token t) = [(i, token)]"
| "issuedBy (SvRotated i token t) = [(i, token)]"
| "issuedBy _ = []"

definition issued :: "session_event list \<Rightarrow> (string \<times> string) list" where
  "issued log = concat (map issuedBy log)"

definition tokensOf :: "string \<Rightarrow> session_event list \<Rightarrow> string list" where
  "tokensOf i log = map snd (filter (\<lambda>p. fst p = i) (issued log))"

definition createdIn :: "string \<Rightarrow> string \<Rightarrow> int \<Rightarrow> session_event list \<Rightarrow> bool" where
  "createdIn i u t log \<longleftrightarrow> (\<exists>token. SvCreated i u token t \<in> set log)"

definition freshToken :: "crypto \<Rightarrow> string \<Rightarrow> session_event list \<Rightarrow> bool" where
  "freshToken cr token log \<longleftrightarrow> hashSessionToken cr token \<notin> set (map (hashSessionToken cr \<circ> snd) (issued log))"

inductive session_step :: "crypto \<Rightarrow> session_opts \<Rightarrow> session_world \<Rightarrow> session_world \<Rightarrow> bool" for cr opts where
  ss_create: "i \<notin> fst ` set (issued (sw_log w)) \<Longrightarrow> freshToken cr token (sw_log w) \<Longrightarrow>
     sessionCreate cr (sw_now w) i random u agent ip (sw_table w) = Some ((token, row), t) \<Longrightarrow>
     session_step cr opts w (w\<lparr>sw_table := t, sw_log := SvCreated i u token (sw_now w) # sw_log w\<rparr>)"
| ss_rotate: "freshToken cr token (sw_log w) \<Longrightarrow>
     sessionRotate cr (sw_now w) random i (sw_table w) = Some (Some (token, row), t) \<Longrightarrow>
     session_step cr opts w (w\<lparr>sw_table := t, sw_log := SvRotated i token (sw_now w) # sw_log w\<rparr>)"
| ss_rotate_none: "sessionRotate cr (sw_now w) random i (sw_table w) = Some (None, t) \<Longrightarrow>
     session_step cr opts w (w\<lparr>sw_table := t\<rparr>)"
| ss_seen: "session_step cr opts w (w\<lparr>sw_table := markSeen (sw_now w) at i (sw_table w), sw_log := SvSeen i (sw_now w) # sw_log w\<rparr>)"
| ss_revoke: "session_step cr opts w (w\<lparr>sw_table := revokeSession (sw_now w) i (sw_table w), sw_log := SvRevoked i # sw_log w\<rparr>)"
| ss_revokeAll: "revokeAllForUser (sw_now w) u (sw_table w) = (n, t) \<Longrightarrow>
     session_step cr opts w (w\<lparr>sw_table := t, sw_log := SvRevokedAll u # sw_log w\<rparr>)"
| ss_prune: "pruneExpired opts (sw_now w) (sw_table w) = (n, t) \<Longrightarrow> session_step cr opts w (w\<lparr>sw_table := t\<rparr>)"
| ss_userGone: "session_step cr opts w
     (w\<lparr>sw_table := filter (\<lambda>r. tk_userId r \<noteq> u) (sw_table w), sw_log := SvRevokedAll u # sw_log w\<rparr>)"
| ss_time: "sw_now w \<le> now \<Longrightarrow> session_step cr opts w (w\<lparr>sw_now := now\<rparr>)"

definition session_init :: "session_world \<Rightarrow> bool" where
  "session_init w \<longleftrightarrow> sw_table w = [] \<and> sw_log w = [] \<and> 0 < sw_now w"

text \<open>What the history says: when the session was last used, when its newest token was issued, whether
  it was ended.\<close>

fun lastTouch :: "string \<Rightarrow> session_event list \<Rightarrow> int" where
  "lastTouch i [] = 0"
| "lastTouch i (e # log) =
     (case e of SvCreated j u token t \<Rightarrow> if j = i then t else lastTouch i log
      | SvRotated j token t \<Rightarrow> if j = i then t else lastTouch i log
      | SvSeen j t \<Rightarrow> if j = i then t else lastTouch i log
      | _ \<Rightarrow> lastTouch i log)"

fun lastIssue :: "string \<Rightarrow> session_event list \<Rightarrow> int" where
  "lastIssue i [] = 0"
| "lastIssue i (e # log) =
     (case e of SvCreated j u token t \<Rightarrow> if j = i then t else lastIssue i log
      | SvRotated j token t \<Rightarrow> if j = i then t else lastIssue i log
      | _ \<Rightarrow> lastIssue i log)"

fun sessionEnded :: "string \<Rightarrow> string \<Rightarrow> session_event list \<Rightarrow> bool" where
  "sessionEnded i u [] = False"
| "sessionEnded i u (e # log) =
     (case e of SvCreated j v token t \<Rightarrow> j \<noteq> i \<and> sessionEnded i u log
      | SvRevoked j \<Rightarrow> j = i \<or> sessionEnded i u log
      | SvRevokedAll v \<Rightarrow> v = u \<or> sessionEnded i u log
      | _ \<Rightarrow> sessionEnded i u log)"

definition entitled :: "crypto \<Rightarrow> session_opts \<Rightarrow> int \<Rightarrow> session_event list \<Rightarrow> string \<Rightarrow> string \<Rightarrow> string \<Rightarrow> bool" where
  "entitled cr opts now log raw i u \<longleftrightarrow>
     raw \<noteq> [] \<and> \<not> sessionEnded i u log
     \<and> (\<exists>t. createdIn i u t log \<and> now - t \<le> so_maxLifetimeMs opts)
     \<and> now - lastTouch i log \<le> so_idleTimeoutMs opts
     \<and> (case tokensOf i log of
          [] \<Rightarrow> False
        | token # older \<Rightarrow> hashSessionToken cr raw = hashSessionToken cr token
            \<or> (case older of [] \<Rightarrow> False
               | previous # _ \<Rightarrow> hashSessionToken cr raw = hashSessionToken cr previous
                   \<and> now - lastIssue i log \<le> so_rotationGraceMs opts))"

section \<open>Lemmas\<close>

subsection \<open>Histories\<close>

lemma issued_simps [simp]: "issued [] = []" "issued (e # log) = issuedBy e @ issued log"
  by (simp_all add: issued_def)

lemma created_simps [simp]:
  "\<not> createdIn i u t []"
  "createdIn i u t (e # log) \<longleftrightarrow> (\<exists>token. e = SvCreated i u token t) \<or> createdIn i u t log"
  by (auto simp: createdIn_def)

lemma tokens_simps [simp]:
  "tokensOf i [] = []"
  "tokensOf i (SvCreated j u token t # log) = (if j = i then token # tokensOf i log else tokensOf i log)"
  "tokensOf i (SvRotated j token t # log) = (if j = i then token # tokensOf i log else tokensOf i log)"
  "tokensOf i (SvSeen j t # log) = tokensOf i log" "tokensOf i (SvRevoked j # log) = tokensOf i log"
  "tokensOf i (SvRevokedAll u # log) = tokensOf i log"
  by (simp_all add: tokensOf_def)

lemma created_issued: "createdIn i u t log \<Longrightarrow> i \<in> fst ` set (issued log)"
  by (induction log) (force simp: image_iff)+

lemma tokens_none: "i \<notin> fst ` set (issued log) \<Longrightarrow> tokensOf i log = []"
  by (auto simp: tokensOf_def filter_empty_conv image_iff)

lemma tokens_issued: "token \<in> set (tokensOf i log) \<longleftrightarrow> (i, token) \<in> set (issued log)"
  by (force simp: tokensOf_def)

text \<open>Different sessions have tokens with different hashes.\<close>

lemma hash_session:
  assumes "distinct (map (hashSessionToken cr \<circ> snd) (issued log))" "x \<in> set (tokensOf i log)" "y \<in> set (tokensOf j log)"
    "hashSessionToken cr x = hashSessionToken cr y"
  shows "i = j \<and> x = y"
  using assms inj_onD [of "hashSessionToken cr \<circ> snd" "set (issued log)" "(i, x)" "(j, y)"]
  by (simp add: distinct_map tokens_issued)

subsection \<open>The invariant\<close>

text \<open>A row says what the history says of its session; a session without a row is too old or ended.\<close>

definition tokenRowOk :: "crypto \<Rightarrow> int \<Rightarrow> session_event list \<Rightarrow> UserAuthToken \<Rightarrow> bool" where
  "tokenRowOk cr now log r \<longleftrightarrow>
     createdIn (tk_id r) (tk_userId r) (tk_createdAt r) log
     \<and> (\<exists>token older. tokensOf (tk_id r) log = token # older \<and> tk_authToken r = hashSessionToken cr token
          \<and> tk_prevAuthToken r = (case older of [] \<Rightarrow> [] | p # _ \<Rightarrow> hashSessionToken cr p))
     \<and> tk_rotatedAt r = lastIssue (tk_id r) log
     \<and> (tk_revokedAt r \<noteq> None \<longleftrightarrow> sessionEnded (tk_id r) (tk_userId r) log)
     \<and> (tk_revokedAt r = None \<longrightarrow> max (tk_updatedAt r) (max (tk_rotatedAt r) (tk_createdAt r)) = lastTouch (tk_id r) log)
     \<and> 0 < tk_createdAt r \<and> tk_createdAt r \<le> now \<and> tk_rotatedAt r \<le> now \<and> tk_updatedAt r \<le> now"

definition goneOk :: "session_opts \<Rightarrow> int \<Rightarrow> token_table \<Rightarrow> session_event list \<Rightarrow> bool" where
  "goneOk opts now t log \<longleftrightarrow> (\<forall>i u c. createdIn i u c log \<longrightarrow>
     i \<in> tk_id ` set t \<or> now - c > so_maxLifetimeMs opts \<or> sessionEnded i u log)"

definition logOnce :: "crypto \<Rightarrow> session_event list \<Rightarrow> bool" where
  "logOnce cr log \<longleftrightarrow> distinct (map (hashSessionToken cr \<circ> snd) (issued log))
     \<and> (\<forall>i u c v d. createdIn i u c log \<longrightarrow> createdIn i v d log \<longrightarrow> u = v \<and> c = d)"

definition sessInv :: "crypto \<Rightarrow> session_opts \<Rightarrow> session_world \<Rightarrow> bool" where
  "sessInv cr opts w \<longleftrightarrow> 0 < sw_now w \<and> distinct (map tk_id (sw_table w)) \<and> (\<forall>r\<in>set (sw_table w). tokenRowOk cr (sw_now w) (sw_log w) r)
     \<and> goneOk opts (sw_now w) (sw_table w) (sw_log w) \<and> logOnce cr (sw_log w)"

lemma onRow_ids [simp]: "(\<And>r. tk_id (f r) = tk_id r) \<Longrightarrow> map tk_id (onRow i f t) = map tk_id t"
  by (simp add: onRow_def comp_def if_distrib cong: map_cong if_cong)

lemma onRow_idset [simp]: "(\<And>r. tk_id (f r) = tk_id r) \<Longrightarrow> tk_id ` set (onRow i f t) = tk_id ` set t"
  using onRow_ids [of f i t] by (metis list.set_map)

lemma set_onRow: "r \<in> set (onRow i f t) \<longleftrightarrow> (\<exists>s\<in>set t. r = (if tk_id s = i then f s else s))"
  by (simp only: onRow_def set_map image_iff)

lemma find_token_row: "tokenFindById t i = Some r \<Longrightarrow> r \<in> set t \<and> tk_id r = i"
  by (auto simp: tokenFindById_def find_Some_iff_first dest: find_Some_iff [THEN iffD1])

lemma token_row_unique: "distinct (map tk_id t) \<Longrightarrow> r \<in> set t \<Longrightarrow> s \<in> set t \<Longrightarrow> tk_id r = tk_id s \<Longrightarrow> r = s"
  by (auto simp: distinct_map dest: inj_onD)

lemma tokenRowOk_later: "tokenRowOk cr now log r \<Longrightarrow> now \<le> now' \<Longrightarrow> tokenRowOk cr now' log r"
  by (auto simp: tokenRowOk_def)

text \<open>An event of another session changes nothing for a row.\<close>

fun concerns :: "session_event \<Rightarrow> string \<Rightarrow> string \<Rightarrow> bool" where
  "concerns (SvCreated j v token t) i u \<longleftrightarrow> j = i"
| "concerns (SvRotated j token t) i u \<longleftrightarrow> j = i"
| "concerns (SvSeen j t) i u \<longleftrightarrow> j = i"
| "concerns (SvRevoked j) i u \<longleftrightarrow> j = i"
| "concerns (SvRevokedAll v) i u \<longleftrightarrow> v = u"

lemma tokenRowOk_other: "tokenRowOk cr now log r \<Longrightarrow> \<not> concerns e (tk_id r) (tk_userId r) \<Longrightarrow> tokenRowOk cr now (e # log) r"
  unfolding tokenRowOk_def by (cases e) auto

lemma goneOk_mono:
  assumes "goneOk opts now t log" "now \<le> now'" "tk_id ` set t \<subseteq> tk_id ` set t'"
  shows "goneOk opts now' t' log"
  unfolding goneOk_def
proof (intro allI impI)
  fix i u c assume "createdIn i u c log"
  then have "i \<in> tk_id ` set t \<or> now - c > so_maxLifetimeMs opts \<or> sessionEnded i u log"
    using assms(1) by (simp add: goneOk_def)
  then show "i \<in> tk_id ` set t' \<or> now' - c > so_maxLifetimeMs opts \<or> sessionEnded i u log"
    using assms(2,3) by (elim disjE) auto
qed

fun isCreation :: "session_event \<Rightarrow> bool" where
  "isCreation (SvCreated i u token t) = True"
| "isCreation _ = False"

lemma goneOk_event: "goneOk opts now t log \<Longrightarrow> \<not> isCreation e \<Longrightarrow> goneOk opts now t (e # log)"
  unfolding goneOk_def by (cases e) auto

lemma goneOk_created:
  assumes "goneOk opts now t log" "i \<in> tk_id ` set t"
  shows "goneOk opts now t (SvCreated i u token c # log)"
  unfolding goneOk_def
proof (intro allI impI)
  fix j v d assume "createdIn j v d (SvCreated i u token c # log)"
  then show "j \<in> tk_id ` set t \<or> now - d > so_maxLifetimeMs opts \<or> sessionEnded j v (SvCreated i u token c # log)"
    using assms by (cases "j = i") (auto simp: goneOk_def)
qed

lemma logOnce_event: "logOnce cr log \<Longrightarrow> issuedBy e = [] \<Longrightarrow> logOnce cr (e # log)"
  by (cases e) (auto simp: logOnce_def)

lemma logOnce_created:
  assumes "logOnce cr log" "i \<notin> fst ` set (issued log)" "freshToken cr token log"
  shows "logOnce cr (SvCreated i u token c # log)"
  unfolding logOnce_def
proof (intro conjI allI impI)
  show "distinct (map (hashSessionToken cr \<circ> snd) (issued (SvCreated i u token c # log)))"
    using assms(1,3) by (simp add: logOnce_def freshToken_def)
  fix j v d v' d' assume "createdIn j v d (SvCreated i u token c # log)" "createdIn j v' d' (SvCreated i u token c # log)"
  moreover have "\<not> createdIn i x y log" for x y using assms(2) created_issued by blast
  ultimately show "v = v'" "d = d'" using assms(1) unfolding logOnce_def by (simp; blast)+
qed

subsection \<open>Steps\<close>

lemma sess_create_inv:
  assumes inv: "sessInv cr opts w" and i: "i \<notin> fst ` set (issued (sw_log w))" and fresh: "freshToken cr token (sw_log w)"
    and c: "sessionCreate cr (sw_now w) i random u agent ip (sw_table w) = Some ((token, row), t)"
  shows "sessInv cr opts (w\<lparr>sw_table := t, sw_log := SvCreated i u token (sw_now w) # sw_log w\<rparr>)"
proof -
  let ?log = "SvCreated i u token (sw_now w) # sw_log w"
  have t: "t = sw_table w @ [row]" and row: "row = \<lparr>tk_id = i, tk_userId = u, tk_authToken = hashSessionToken cr token, tk_prevAuthToken = [],
      tk_userAgent = agent, tk_clientIp = ip, tk_authTokenSeen = False, tk_seenAt = None, tk_rotatedAt = sw_now w,
      tk_createdAt = sw_now w, tk_updatedAt = sw_now w, tk_revokedAt = None\<rparr>"
    and new: "i \<notin> tk_id ` set (sw_table w)"
    using c by (auto simp: sessionCreate_def tokenCreate_def tokenRow_def Let_def list_ex_iff split: if_splits)
  have "tokenRowOk cr (sw_now w) ?log row"
    using inv i by (auto simp: tokenRowOk_def row tokens_none sessInv_def)
  moreover have "tokenRowOk cr (sw_now w) ?log r" if "r \<in> set (sw_table w)" for r
    using inv that new by (intro tokenRowOk_other) (auto simp: sessInv_def)
  moreover have "goneOk opts (sw_now w) t (sw_log w)"
    by (rule goneOk_mono [of opts "sw_now w" "sw_table w"]) (use inv in \<open>auto simp: sessInv_def t\<close>)
  then have "goneOk opts (sw_now w) t ?log" by (rule goneOk_created) (simp add: t row)
  moreover have "logOnce cr ?log" using inv i fresh by (intro logOnce_created) (simp_all add: sessInv_def)
  ultimately show ?thesis using inv new by (auto simp: sessInv_def t row)
qed

lemma row_event_inv:
  assumes inv: "sessInv cr opts w" and e: "\<not> isCreation e" "logOnce cr (e # sw_log w)"
    and ids: "map tk_id t = map tk_id (sw_table w)" and rows: "\<And>r. r \<in> set t \<Longrightarrow> tokenRowOk cr (sw_now w) (e # sw_log w) r"
  shows "sessInv cr opts (w\<lparr>sw_table := t, sw_log := e # sw_log w\<rparr>)"
proof -
  have "tk_id ` set t = tk_id ` set (sw_table w)" using ids by (metis list.set_map)
  then have "goneOk opts (sw_now w) t (e # sw_log w)"
    using inv e(1) goneOk_mono [of opts "sw_now w" "sw_table w" "sw_log w" "sw_now w" t] by (simp add: sessInv_def goneOk_event)
  then show ?thesis using inv e(2) ids rows by (simp add: sessInv_def)
qed

lemma onRow_inv:
  assumes inv: "sessInv cr opts w" and e: "\<not> isCreation e" "logOnce cr (e # sw_log w)" "\<And>j u. concerns e j u \<longleftrightarrow> j = i"
    and f: "\<And>r. tk_id (f r) = tk_id r"
    and row: "\<And>r. r \<in> set (sw_table w) \<Longrightarrow> tk_id r = i \<Longrightarrow> tokenRowOk cr (sw_now w) (sw_log w) r \<Longrightarrow> tokenRowOk cr (sw_now w) (e # sw_log w) (f r)"
  shows "sessInv cr opts (w\<lparr>sw_table := onRow i f (sw_table w), sw_log := e # sw_log w\<rparr>)"
proof (rule row_event_inv [OF inv e(1,2)])
  show "map tk_id (onRow i f (sw_table w)) = map tk_id (sw_table w)" by (rule onRow_ids [OF f])
  fix r assume "r \<in> set (onRow i f (sw_table w))"
  then obtain s where s: "s \<in> set (sw_table w)" "r = (if tk_id s = i then f s else s)" unfolding set_onRow by blast
  then have "tokenRowOk cr (sw_now w) (sw_log w) s" using inv by (simp add: sessInv_def)
  then show "tokenRowOk cr (sw_now w) (e # sw_log w) r" using s row tokenRowOk_other e(3) by (cases "tk_id s = i") simp_all
qed

lemma rotate_inv:
  assumes inv: "sessInv cr opts w" and fresh: "freshToken cr token (sw_log w)"
    and c: "sessionRotate cr (sw_now w) random i (sw_table w) = Some (Some (token, row), t)"
  shows "sessInv cr opts (w\<lparr>sw_table := t, sw_log := SvRotated i token (sw_now w) # sw_log w\<rparr>)"
proof -
  let ?f = "\<lambda>r. r\<lparr>tk_prevAuthToken := tk_authToken r, tk_authToken := hashSessionToken cr token, tk_rotatedAt := sw_now w, tk_updatedAt := sw_now w\<rparr>"
  obtain x where x: "tokenFindById (sw_table w) i = Some x" "tk_revokedAt x = None" and t: "t = onRow i ?f (sw_table w)"
    using c by (auto simp: sessionRotate_def tokenRotate_def Let_def split: option.splits if_splits)
  note x = find_token_row [OF x(1)] x(2)
  have "distinct (map tk_id (sw_table w))" using inv by (simp add: sessInv_def)
  then have one: "r = x" if "r \<in> set (sw_table w)" "tk_id r = i" for r using that x token_row_unique by metis
  show ?thesis unfolding t
  proof (rule onRow_inv [OF inv])
    show "logOnce cr (SvRotated i token (sw_now w) # sw_log w)"
      using inv fresh by (simp add: sessInv_def logOnce_def freshToken_def)
    fix r assume r: "r \<in> set (sw_table w)" "tk_id r = i" "tokenRowOk cr (sw_now w) (sw_log w) r"
    then show "tokenRowOk cr (sw_now w) (SvRotated i token (sw_now w) # sw_log w) (?f r)"
      using one [OF r(1,2)] x(2) by (auto simp: tokenRowOk_def)
  qed auto
qed

lemma find_onRow: "tokenFindById t i \<noteq> None \<Longrightarrow> (\<And>r. tk_id (f r) = tk_id r) \<Longrightarrow> tokenFindById (onRow j f t) i \<noteq> None"
  by (induction t) (auto simp: tokenFindById_def onRow_def)

lemma rotate_none: "sessionRotate cr now random i t = Some (None, t') \<Longrightarrow> t' = t"
proof (cases "tokenFindById t i")
  case (Some x)
  assume "sessionRotate cr now random i t = Some (None, t')"
  moreover have "tokenFindById (onRow i (\<lambda>r. r\<lparr>tk_prevAuthToken := tk_authToken r, tk_authToken := hashSessionToken cr (generateSessionToken random),
      tk_rotatedAt := now, tk_updatedAt := now\<rparr>) t) i \<noteq> None"
    by (rule find_onRow) (simp_all add: Some)
  ultimately show ?thesis using Some by (auto simp: sessionRotate_def tokenRotate_def Let_def split: if_splits)
qed (simp add: sessionRotate_def tokenRotate_def)

lemma seen_inv:
  assumes "sessInv cr opts w"
  shows "sessInv cr opts (w\<lparr>sw_table := markSeen (sw_now w) at i (sw_table w), sw_log := SvSeen i (sw_now w) # sw_log w\<rparr>)"
  unfolding markSeen_def tokenMarkSeen_def
  by (rule onRow_inv [OF assms]) (use assms in \<open>auto simp: sessInv_def logOnce_event tokenRowOk_def\<close>)

lemma revoke_inv:
  assumes "sessInv cr opts w"
  shows "sessInv cr opts (w\<lparr>sw_table := revokeSession (sw_now w) i (sw_table w), sw_log := SvRevoked i # sw_log w\<rparr>)"
  unfolding revokeSession_def tokenRevoke_def
  by (rule onRow_inv [OF assms]) (use assms in \<open>auto simp: sessInv_def logOnce_event tokenRowOk_def\<close>)

lemma revokeAll_inv:
  assumes inv: "sessInv cr opts w" and t: "revokeAllForUser (sw_now w) u (sw_table w) = (n, t)"
  shows "sessInv cr opts (w\<lparr>sw_table := t, sw_log := SvRevokedAll u # sw_log w\<rparr>)"
proof (rule row_event_inv [OF inv])
  have t: "t = map (\<lambda>r. if tk_userId r = u \<and> tk_revokedAt r = None then r\<lparr>tk_revokedAt := Some (sw_now w), tk_updatedAt := sw_now w\<rparr> else r) (sw_table w)"
    using t by (simp add: revokeAllForUser_def tokenRevokeAllForUser_def)
  show "map tk_id t = map tk_id (sw_table w)" unfolding t by simp
  show "logOnce cr (SvRevokedAll u # sw_log w)" using inv by (simp add: sessInv_def logOnce_event)
  fix r assume "r \<in> set t"
  then obtain s where s: "s \<in> set (sw_table w)"
      "r = (if tk_userId s = u \<and> tk_revokedAt s = None then s\<lparr>tk_revokedAt := Some (sw_now w), tk_updatedAt := sw_now w\<rparr> else s)"
    unfolding t by auto
  then have "tokenRowOk cr (sw_now w) (sw_log w) s" using inv by (simp add: sessInv_def)
  then show "tokenRowOk cr (sw_now w) (SvRevokedAll u # sw_log w) r" using s(2) by (auto simp: tokenRowOk_def)
qed simp

lemma userGone_inv:
  assumes inv: "sessInv cr opts w"
  shows "sessInv cr opts (w\<lparr>sw_table := filter (\<lambda>r. tk_userId r \<noteq> u) (sw_table w), sw_log := SvRevokedAll u # sw_log w\<rparr>)"
proof -
  let ?t = "filter (\<lambda>r. tk_userId r \<noteq> u) (sw_table w)"
  have rows: "tokenRowOk cr (sw_now w) (sw_log w) r" if "r \<in> set (sw_table w)" for r using inv that by (simp add: sessInv_def)
  have "goneOk opts (sw_now w) ?t (SvRevokedAll u # sw_log w)" unfolding goneOk_def
  proof (intro allI impI)
    fix i v c assume cr: "createdIn i v c (SvRevokedAll u # sw_log w)"
    then have "i \<in> tk_id ` set (sw_table w) \<or> sw_now w - c > so_maxLifetimeMs opts \<or> sessionEnded i v (sw_log w)"
      using inv by (simp add: sessInv_def goneOk_def)
    moreover have "tk_userId r = v" if "r \<in> set (sw_table w)" "tk_id r = i" for r
      using rows [OF that(1)] that(2) inv cr unfolding tokenRowOk_def sessInv_def logOnce_def by simp blast
    ultimately show "i \<in> tk_id ` set ?t \<or> sw_now w - c > so_maxLifetimeMs opts \<or> sessionEnded i v (SvRevokedAll u # sw_log w)"
      by (cases "v = u") auto
  qed
  then show ?thesis using inv rows
    by (auto simp: sessInv_def logOnce_event distinct_map_filter intro!: tokenRowOk_other)
qed

lemma prune_inv:
  assumes inv: "sessInv cr opts w" and t: "pruneExpired opts (sw_now w) (sw_table w) = (n, t)"
  shows "sessInv cr opts (w\<lparr>sw_table := t\<rparr>)"
proof -
  have t: "t = filter (\<lambda>r. \<not> tk_createdAt r < sw_now w - so_maxLifetimeMs opts) (sw_table w)"
    using t by (simp add: pruneExpired_def tokenDeleteExpired_def)
  have rows: "tokenRowOk cr (sw_now w) (sw_log w) r" if "r \<in> set (sw_table w)" for r using inv that by (simp add: sessInv_def)
  have "goneOk opts (sw_now w) t (sw_log w)" unfolding goneOk_def
  proof (intro allI impI)
    fix i v c assume cr: "createdIn i v c (sw_log w)"
    then have "i \<in> tk_id ` set (sw_table w) \<or> sw_now w - c > so_maxLifetimeMs opts \<or> sessionEnded i v (sw_log w)"
      using inv by (simp add: sessInv_def goneOk_def)
    moreover have "tk_createdAt r = c" if "r \<in> set (sw_table w)" "tk_id r = i" for r
      using rows [OF that(1)] that(2) inv cr unfolding tokenRowOk_def sessInv_def logOnce_def by simp blast
    ultimately show "i \<in> tk_id ` set t \<or> sw_now w - c > so_maxLifetimeMs opts \<or> sessionEnded i v (sw_log w)"
      unfolding t by auto
  qed
  then show ?thesis using inv by (auto simp: sessInv_def t distinct_map_filter)
qed

lemma session_step_inv: "session_step cr opts w w' \<Longrightarrow> sessInv cr opts w \<Longrightarrow> sessInv cr opts w'"
proof (induction rule: session_step.induct)
  case (ss_rotate_none w random i t)
  then have "t = sw_table w" by (simp add: rotate_none)
  then show ?case using ss_rotate_none by simp
next
  case (ss_time w now)
  then show ?case using goneOk_mono [of opts "sw_now w" "sw_table w" "sw_log w" now "sw_table w"]
    by (auto simp: sessInv_def intro: tokenRowOk_later)
qed (auto intro: sess_create_inv rotate_inv seen_inv revoke_inv revokeAll_inv prune_inv userGone_inv)

interpretation sessions: step_system session_init "session_step cr opts" "sessInv cr opts" for cr opts
proof
  fix w assume "session_init w"
  then show "sessInv cr opts w" by (simp add: session_init_def sessInv_def goneOk_def logOnce_def)
qed (rule session_step_inv)

subsection \<open>Lookups\<close>

lemma hash_nonempty: "(\<And>bs. length (cr_sha256 cr bs) = 32) \<Longrightarrow> hashSessionToken cr s \<noteq> []"
proof -
  assume "\<And>bs. length (cr_sha256 cr bs) = 32"
  then have "cr_sha256 cr (toUtf8 s) \<noteq> []" by (metis length_0_conv zero_neq_numeral)
  then show ?thesis by (cases "cr_sha256 cr (toUtf8 s)") (simp_all add: hashSessionToken_def toHex_def hexOf_def)
qed

text \<open>The row a presented token selects belongs to a session one of whose two newest tokens has its hash.\<close>

lemma selected_row:
  assumes inv: "sessInv cr opts w" and ne: "hashSessionToken cr raw \<noteq> []"
    and r: "r \<in> set (sw_table w)" "tk_authToken r = hashSessionToken cr raw \<or> tk_prevAuthToken r = hashSessionToken cr raw"
  obtains token where "token \<in> set (tokensOf (tk_id r) (sw_log w))" "hashSessionToken cr token = hashSessionToken cr raw"
proof -
  have "tokenRowOk cr (sw_now w) (sw_log w) r" using inv r(1) by (simp add: sessInv_def)
  then obtain token older where toks: "tokensOf (tk_id r) (sw_log w) = token # older" "tk_authToken r = hashSessionToken cr token"
      "tk_prevAuthToken r = (case older of [] \<Rightarrow> [] | p # _ \<Rightarrow> hashSessionToken cr p)"
    unfolding tokenRowOk_def by blast
  show ?thesis using r(2)
  proof
    assume "tk_authToken r = hashSessionToken cr raw"
    then show ?thesis using toks by (intro that [of token]) simp_all
  next
    assume p: "tk_prevAuthToken r = hashSessionToken cr raw"
    then obtain q rest where "older = q # rest" using toks(3) ne by (cases older) auto
    then show ?thesis using toks p by (intro that [of q]) simp_all
  qed
qed

lemma selected_unique:
  assumes inv: "sessInv cr opts w" and ne: "hashSessionToken cr raw \<noteq> []"
    and r: "r \<in> set (sw_table w)" "tk_authToken r = hashSessionToken cr raw \<or> tk_prevAuthToken r = hashSessionToken cr raw"
    and s: "s \<in> set (sw_table w)" "tk_authToken s = hashSessionToken cr raw \<or> tk_prevAuthToken s = hashSessionToken cr raw"
  shows "r = s"
proof -
  obtain x y where "x \<in> set (tokensOf (tk_id r) (sw_log w))" "hashSessionToken cr x = hashSessionToken cr raw"
      "y \<in> set (tokensOf (tk_id s) (sw_log w))" "hashSessionToken cr y = hashSessionToken cr raw"
    using selected_row [OF inv ne r] selected_row [OF inv ne s] by metis
  then have "tk_id r = tk_id s" using hash_session [of cr "sw_log w" x "tk_id r" y "tk_id s"] inv by (simp add: sessInv_def logOnce_def)
  then show ?thesis using inv r(1) s(1) token_row_unique by (auto simp: sessInv_def)
qed

text \<open>For a row of the table the checks of the lookup say what the history says.\<close>

definition tokenAccepts :: "crypto \<Rightarrow> session_opts \<Rightarrow> int \<Rightarrow> string \<Rightarrow> UserAuthToken \<Rightarrow> bool" where
  "tokenAccepts cr opts now raw r \<longleftrightarrow> raw \<noteq> [] \<and> tk_revokedAt r = None
     \<and> (tk_authToken r = hashSessionToken cr raw \<or> tk_prevAuthToken r = hashSessionToken cr raw)
     \<and> now - tk_createdAt r \<le> so_maxLifetimeMs opts
     \<and> now - max (tk_updatedAt r) (max (tk_rotatedAt r) (tk_createdAt r)) \<le> so_idleTimeoutMs opts
     \<and> (tk_prevAuthToken r = hashSessionToken cr raw \<longrightarrow> now - tk_rotatedAt r \<le> so_rotationGraceMs opts)"

lemma lookup_accepts:
  assumes inv: "sessInv cr opts w" and ne: "hashSessionToken cr raw \<noteq> []"
  shows "lookupByToken cr opts (sw_now w) (sw_table w) raw = Some r \<longleftrightarrow> r \<in> set (sw_table w) \<and> tokenAccepts cr opts (sw_now w) raw r"
proof -
  have pos: "max (tk_updatedAt s) (max (tk_rotatedAt s) (tk_createdAt s)) > 0" if "s \<in> set (sw_table w)" for s
    using inv that by (fastforce simp: sessInv_def tokenRowOk_def)
  have found: "findByHashedToken (sw_table w) (hashSessionToken cr raw) = Some s \<longleftrightarrow> s \<in> set (sw_table w) \<and> tk_revokedAt s = None
      \<and> (tk_authToken s = hashSessionToken cr raw \<or> tk_prevAuthToken s = hashSessionToken cr raw)" for s
  proof
    assume "findByHashedToken (sw_table w) (hashSessionToken cr raw) = Some s"
    then show "s \<in> set (sw_table w) \<and> tk_revokedAt s = None
      \<and> (tk_authToken s = hashSessionToken cr raw \<or> tk_prevAuthToken s = hashSessionToken cr raw)"
      by (auto simp: findByHashedToken_def find_Some_iff)
  next
    assume s: "s \<in> set (sw_table w) \<and> tk_revokedAt s = None
      \<and> (tk_authToken s = hashSessionToken cr raw \<or> tk_prevAuthToken s = hashSessionToken cr raw)"
    then obtain q where q: "findByHashedToken (sw_table w) (hashSessionToken cr raw) = Some q"
      by (cases "findByHashedToken (sw_table w) (hashSessionToken cr raw)") (auto simp: findByHashedToken_def find_None_all)
    then have "q \<in> set (sw_table w)" "tk_authToken q = hashSessionToken cr raw \<or> tk_prevAuthToken q = hashSessionToken cr raw"
      by (auto simp: findByHashedToken_def find_Some_iff)
    then show "findByHashedToken (sw_table w) (hashSessionToken cr raw) = Some s"
      using q selected_unique [OF inv ne] s by metis
  qed
  show ?thesis
  proof (cases "findByHashedToken (sw_table w) (hashSessionToken cr raw)")
    case None
    then show ?thesis using found [of r] by (auto simp: lookupByToken_def tokenAccepts_def)
  next
    case (Some s)
    then have s: "s \<in> set (sw_table w)" "tk_revokedAt s = None" using found by blast+
    have same: "r = s" if "r \<in> set (sw_table w)" "tokenAccepts cr opts (sw_now w) raw r"
      using that found [of r] Some by (simp add: tokenAccepts_def)
    have "lookupByToken cr opts (sw_now w) (sw_table w) raw = (if tokenAccepts cr opts (sw_now w) raw s then Some s else None)"
      using Some s pos [OF s(1)] found [of s] ne by (auto simp: lookupByToken_def tokenAccepts_def)
    then show ?thesis using same s(1) by auto
  qed
qed

lemma accepts_entitled:
  assumes inv: "sessInv cr opts w" and r: "r \<in> set (sw_table w)"
  shows "tokenAccepts cr opts (sw_now w) raw r \<and> hashSessionToken cr raw \<noteq> []
    \<longleftrightarrow> entitled cr opts (sw_now w) (sw_log w) raw (tk_id r) (tk_userId r) \<and> hashSessionToken cr raw \<noteq> []"
proof -
  have ok: "tokenRowOk cr (sw_now w) (sw_log w) r" and once: "logOnce cr (sw_log w)" using inv r by (simp_all add: sessInv_def)
  then obtain token older where toks: "tokensOf (tk_id r) (sw_log w) = token # older" "tk_authToken r = hashSessionToken cr token"
      "tk_prevAuthToken r = (case older of [] \<Rightarrow> [] | p # _ \<Rightarrow> hashSessionToken cr p)"
    unfolding tokenRowOk_def by blast
  have created: "createdIn (tk_id r) (tk_userId r) t (sw_log w) \<longleftrightarrow> t = tk_createdAt r" for t
    using ok once unfolding tokenRowOk_def logOnce_def by blast
  have "hashSessionToken cr token \<noteq> hashSessionToken cr p" if "older = p # rest" for p rest
  proof -
    have "distinct (map (hashSessionToken cr) (tokensOf (tk_id r) (sw_log w)))"
      using once by (auto simp: logOnce_def tokensOf_def distinct_map_filter)
    then show ?thesis using toks(1) that by simp
  qed
  then show ?thesis using ok toks created unfolding tokenAccepts_def entitled_def tokenRowOk_def
    by (cases older) auto
qed

lemma ended_kept:
  assumes "(session_step cr opts)\<^sup>*\<^sup>* w w'" "i \<in> fst ` set (issued (sw_log w))" "sessionEnded i u (sw_log w)"
  shows "i \<in> fst ` set (issued (sw_log w')) \<and> sessionEnded i u (sw_log w')"
  using assms
proof (induction rule: rtranclp_induct)
  case (step y z)
  from step(2) step(3) [OF step(4,5)] show ?case by cases auto
qed simp

lemma session_lookup:
  assumes "session_init w0" "(session_step cr opts)\<^sup>*\<^sup>* w0 w" "\<And>bs. length (cr_sha256 cr bs) = 32"
  shows "(\<exists>r. lookupByToken cr opts (sw_now w) (sw_table w) raw = Some r \<and> tk_id r = i \<and> tk_userId r = u)
    \<longleftrightarrow> entitled cr opts (sw_now w) (sw_log w) raw i u"
proof -
  have inv: "sessInv cr opts w" by (rule sessions.reachable_inv [OF assms(1,2)])
  note ne = hash_nonempty [OF assms(3), of raw]
  note look = lookup_accepts [OF inv ne]
  show ?thesis
  proof
    assume "\<exists>r. lookupByToken cr opts (sw_now w) (sw_table w) raw = Some r \<and> tk_id r = i \<and> tk_userId r = u"
    then show "entitled cr opts (sw_now w) (sw_log w) raw i u" using look accepts_entitled [OF inv] ne by blast
  next
    assume e: "entitled cr opts (sw_now w) (sw_log w) raw i u"
    then obtain t where t: "createdIn i u t (sw_log w)" "sw_now w - t \<le> so_maxLifetimeMs opts" "\<not> sessionEnded i u (sw_log w)"
      unfolding entitled_def by blast
    then have "i \<in> tk_id ` set (sw_table w)" using inv by (fastforce simp: sessInv_def goneOk_def)
    then obtain r where r: "r \<in> set (sw_table w)" "tk_id r = i" by blast
    moreover have "tk_userId r = u" using inv r t(1) unfolding sessInv_def tokenRowOk_def logOnce_def by metis
    ultimately show "\<exists>r. lookupByToken cr opts (sw_now w) (sw_table w) raw = Some r \<and> tk_id r = i \<and> tk_userId r = u"
      using look accepts_entitled [OF inv r(1), of raw] e ne by blast
  qed
qed

section \<open>Properties\<close>

text \<open>C6: a session token is accepted exactly when the history entitles it. Whatever sequence of sign-ins,
  rotations, requests, revocations, removals of users and of old rows led to the table: the lookup accepts
  the presented text for session \<open>i\<close> of user \<open>u\<close> if and only if the session was created for \<open>u\<close> no longer than
  the maximal lifetime ago, was not ended since, was used within the idle timeout, and the text has the
  hash of its newest token, or of the one before it while the last rotation is within the grace period.\<close>

theorem session_accept_exact:
  assumes "session_init w0" "(session_step cr opts)\<^sup>*\<^sup>* w0 w" "\<And>bs. length (cr_sha256 cr bs) = 32"
  shows "(\<exists>r. lookupByToken cr opts (sw_now w) (sw_table w) raw = Some r \<and> tk_id r = i \<and> tk_userId r = u)
    \<longleftrightarrow> entitled cr opts (sw_now w) (sw_log w) raw i u"
  by (rule session_lookup [OF assms])

definition exSha :: crypto where
  "exSha = exCrypto\<lparr>cr_sha256 := (\<lambda>bs. take 32 (bs @ replicate 32 0))\<rparr>"

definition exSessionOpts :: session_opts where
  "exSessionOpts = sessionOptionsFromEnv (\<lambda>_. None)"

definition exToken :: "byte \<Rightarrow> string" where
  "exToken b = generateSessionToken [b]"

definition exSession :: "string \<Rightarrow> byte \<Rightarrow> UserAuthToken" where
  "exSession i b = \<lparr>tk_id = i, tk_userId = ''u'', tk_authToken = hashSessionToken exSha (exToken b), tk_prevAuthToken = [],
     tk_userAgent = [], tk_clientIp = [], tk_authTokenSeen = False, tk_seenAt = None, tk_rotatedAt = 1, tk_createdAt = 1,
     tk_updatedAt = 1, tk_revokedAt = None\<rparr>"

definition exStart :: session_world where
  "exStart = \<lparr>sw_now = 1, sw_table = [], sw_log = []\<rparr>"

definition exOne :: session_world where
  "exOne = \<lparr>sw_now = 1, sw_table = [exSession ''s'' 1], sw_log = [SvCreated ''s'' ''u'' (exToken 1) 1]\<rparr>"

definition exTwo :: session_world where
  "exTwo = \<lparr>sw_now = 1, sw_table = [exSession ''s'' 1, exSession ''z'' 2],
     sw_log = [SvCreated ''z'' ''u'' (exToken 2) 1, SvCreated ''s'' ''u'' (exToken 1) 1]\<rparr>"

lemma exSha_length: "length (cr_sha256 exSha bs) = 32"
  by (simp add: exSha_def)

lemma ex_first_session:
  "sessionCreate exSha 1 ''s'' [1] ''u'' [] [] [] = Some ((exToken 1, exSession ''s'' 1), [exSession ''s'' 1])"
  by code_simp

lemma ex_sign_ins: "(session_step exSha opts)\<^sup>*\<^sup>* exStart exOne" "(session_step exSha opts)\<^sup>*\<^sup>* exStart exTwo"
proof -
  have one: "session_step exSha opts exStart exOne"
    using ss_create [of "''s''" exStart exSha "exToken 1" "[1]" "''u''" "[]" "[]" "exSession ''s'' 1" "[exSession ''s'' 1]" opts] ex_first_session
    by (simp add: exStart_def exOne_def freshToken_def)
  have "sessionCreate exSha 1 ''z'' [2] ''u'' [] [] [exSession ''s'' 1] = Some ((exToken 2, exSession ''z'' 2), [exSession ''s'' 1, exSession ''z'' 2])"
    "hashSessionToken exSha (exToken 2) \<noteq> hashSessionToken exSha (exToken 1)" by code_simp+
  then have "session_step exSha opts exOne exTwo"
    using ss_create [of "''z''" exOne exSha "exToken 2" "[2]" "''u''" "[]" "[]" "exSession ''z'' 2" "[exSession ''s'' 1, exSession ''z'' 2]" opts]
    by (simp add: exOne_def exTwo_def freshToken_def)
  then show "(session_step exSha opts)\<^sup>*\<^sup>* exStart exOne" "(session_step exSha opts)\<^sup>*\<^sup>* exStart exTwo" using one by auto
qed

theorem session_accept_exact_witness:
  "entitled exSha exSessionOpts 1 (sw_log exOne) (exToken 1) ''s'' ''u''
    \<and> \<not> (\<exists>r. lookupByToken exSha exSessionOpts 1 (sw_table exOne) (exToken 2) = Some r \<and> tk_id r = ''s'' \<and> tk_userId r = ''u'')"
proof -
  have init: "session_init exStart" by (simp add: session_init_def exStart_def)
  note exact = session_accept_exact [OF init ex_sign_ins(1) exSha_length, where opts = exSessionOpts and i = "''s''" and u = "''u''"]
  have "lookupByToken exSha exSessionOpts 1 (sw_table exOne) (exToken 1) = Some (exSession ''s'' 1)"
    "\<not> entitled exSha exSessionOpts 1 (sw_log exOne) (exToken 2) ''s'' ''u''"
    by (code_simp, simp add: entitled_def exOne_def, code_simp)
  then show ?thesis using exact [of "exToken 1"] exact [of "exToken 2"] by (simp add: exOne_def exSession_def)
qed

text \<open>Logging out is final. When the lookup accepts a token in a reachable state, the user logs out with it,
  and the service goes on in any way, no text is ever accepted for that session again.\<close>

theorem logout_final:
  assumes "session_init w0" "(session_step cr opts)\<^sup>*\<^sup>* w0 w" "\<And>bs. length (cr_sha256 cr bs) = 32"
    and "lookupByToken cr opts (sw_now w) (sw_table w) token = Some r"
    and "w1 = w\<lparr>sw_table := handleLogout cr opts (sw_now w) (Some token) (sw_table w), sw_log := SvRevoked (tk_id r) # sw_log w\<rparr>"
    and "(session_step cr opts)\<^sup>*\<^sup>* w1 w2" "lookupByToken cr opts (sw_now w2) (sw_table w2) raw = Some s"
  shows "tk_id s \<noteq> tk_id r"
proof
  assume same: "tk_id s = tk_id r"
  have inv: "sessInv cr opts w" by (rule sessions.reachable_inv [OF assms(1,2)])
  then have "r \<in> set (sw_table w)" using lookup_accepts [OF inv hash_nonempty [OF assms(3)]] assms(4) by blast
  then have iss: "tk_id r \<in> fst ` set (issued (sw_log w1))" using inv created_issued assms(5) by (fastforce simp: sessInv_def tokenRowOk_def)
  have "session_step cr opts w w1" using ss_revoke [of cr opts w "tk_id r"] assms(4,5) by (simp add: handleLogout_def)
  then have reach: "(session_step cr opts)\<^sup>*\<^sup>* w0 w2" using assms(2,6) by (meson rtranclp.rtrancl_into_rtrancl rtranclp_trans)
  have "sessionEnded (tk_id r) (tk_userId s) (sw_log w2)" using ended_kept [OF assms(6) iss] assms(5) by simp
  moreover have "entitled cr opts (sw_now w2) (sw_log w2) raw (tk_id s) (tk_userId s)"
    using session_lookup [OF assms(1) reach assms(3), of raw "tk_id s" "tk_userId s"] assms(7) by blast
  ultimately show False using same by (simp add: entitled_def)
qed

theorem logout_final_witness:
  "\<exists>w2 s. (session_step exSha exSessionOpts)\<^sup>*\<^sup>* exStart w2 \<and> lookupByToken exSha exSessionOpts (sw_now w2) (sw_table w2) (exToken 2) = Some s
     \<and> tk_id s \<noteq> ''s''"
proof -
  have init: "session_init exStart" by (simp add: session_init_def exStart_def)
  let ?t = "handleLogout exSha exSessionOpts (sw_now exTwo) (Some (exToken 1)) (sw_table exTwo)"
  define w1 where "w1 = exTwo\<lparr>sw_table := ?t, sw_log := SvRevoked ''s'' # sw_log exTwo\<rparr>"
  have look: "lookupByToken exSha exSessionOpts (sw_now exTwo) (sw_table exTwo) (exToken 1) = Some (exSession ''s'' 1)"
    "lookupByToken exSha exSessionOpts (sw_now exTwo) ?t (exToken 2) = Some (exSession ''z'' 2)" by code_simp+
  have w1: "w1 = exTwo\<lparr>sw_table := ?t, sw_log := SvRevoked (tk_id (exSession ''s'' 1)) # sw_log exTwo\<rparr>" by (simp add: w1_def exSession_def)
  have "lookupByToken exSha exSessionOpts (sw_now w1) (sw_table w1) (exToken 2) = Some (exSession ''z'' 2)" using look(2) by (simp add: w1_def)
  moreover from logout_final [OF init ex_sign_ins(2) exSha_length look(1) w1 rtranclp.rtrancl_refl this]
  have "tk_id (exSession ''z'' 2) \<noteq> ''s''" by (simp add: exSession_def)
  moreover have "session_step exSha exSessionOpts exTwo w1"
    using ss_revoke [of exSha exSessionOpts exTwo "''s''"] look(1) by (simp add: w1_def handleLogout_def exSession_def)
  ultimately show ?thesis using ex_sign_ins(2) by (meson rtranclp.rtrancl_into_rtrancl)
qed

text \<open>A session of anyone can be ended by anyone. The route that revokes a session by its identifier asks only for
  an authenticated caller; it ends the session of another user just as well.\<close>

lemma revoke_route_ignores_owner:
  assumes "r \<in> set t" "tk_id r \<noteq> []"
  shows "\<exists>t'. handleRevokeAuthToken now (Some anyone) (Some (tk_id r)) t = (RvDone, t') \<and>
    (\<forall>s\<in>set t'. tk_id s = tk_id r \<longrightarrow> tk_revokedAt s = Some now)"
  using assms by (auto simp: handleRevokeAuthToken_def revokeSession_def tokenRevoke_def truthy_iff set_onRow)

end
