(* ===== verification/Api_Keys.thy ===== *)
theory Api_Keys
  imports Account_Repo Session_Service "HOL-Library.AList"
begin

text \<open>
  API tokens of service accounts and users: the table (\<open>data-layer/src/repository/auth/api-key-repository.ts\<close>),
  user quotas (\<open>quota-repository.ts\<close>) and the service (\<open>api-gateway/src/services/apikey-service.ts\<close>).

  Times are milliseconds. Random bytes, row identifiers, the hash and the environment (the numbers the limit
  variables hold) are arguments. A refusal is a value of \<open>KeyError\<close>; a violated unique index is one too. The audit
  log is a list, newest first.

  Results: an issued token authenticates its owner until it expires or is revoked, with the role the owner then has in
  the organisation: the role asked for at issue time has no influence. The quota of a service account bounds its active tokens;
  the quota of a user is never enforced, because the count looks in the organisation with the empty name.
\<close>

section \<open>Definitions\<close>

subsection \<open>The table\<close>

record ApiKey =
  ky_id :: string
  ky_orgId :: string
  ky_name :: string
  ky_key :: string
  ky_role :: string
  ky_created :: int
  ky_updated :: int
  ky_lastUsedAt :: "int option"
  ky_expires :: "int option"
  ky_serviceAccountId :: "string option"
  ky_ownerUserId :: "string option"
  ky_isRevoked :: bool

record NewApiKey =
  nk_id :: "string option"
  nk_orgId :: string
  nk_name :: string
  nk_key :: string
  nk_role :: string
  nk_expires :: "int option"
  nk_serviceAccountId :: "string option"
  nk_ownerUserId :: "string option"

record ApiKeyPatch =
  kp_name :: "string option"
  kp_role :: "string option"
  kp_lastUsedAt :: "int option option"
  kp_expires :: "int option option"
  kp_isRevoked :: "bool option"

text \<open>The filter on the service account distinguishes absent, null and a value.\<close>

record ListApiKeysOptions =
  la_orgId :: "string option"
  la_serviceAccountId :: "string option option"
  la_includeRevoked :: bool
  la_includeExpired :: bool
  la_limit :: "nat option"
  la_offset :: "nat option"

type_synonym key_table = "ApiKey list"

definition keyFindById :: "key_table \<Rightarrow> string \<Rightarrow> ApiKey option" where
  "keyFindById t i = List.find (\<lambda>r. ky_id r = i) t"

definition keyRow :: "int \<Rightarrow> string \<Rightarrow> NewApiKey \<Rightarrow> ApiKey" where
  "keyRow now i input =
     \<lparr>ky_id = i, ky_orgId = nk_orgId input, ky_name = nk_name input, ky_key = nk_key input, ky_role = nk_role input,
      ky_created = now, ky_updated = now, ky_lastUsedAt = None, ky_expires = nk_expires input,
      ky_serviceAccountId = nk_serviceAccountId input, ky_ownerUserId = nk_ownerUserId input, ky_isRevoked = False\<rparr>"

definition keyCreate :: "key_table \<Rightarrow> int \<Rightarrow> string \<Rightarrow> NewApiKey \<Rightarrow> (ApiKey \<times> key_table) option" where
  "keyCreate t now uid input =
     (let i = or_default (nk_id input) uid; row = keyRow now i input in
      if list_ex (\<lambda>r. ky_id r = i \<or> ky_key r = nk_key input) t then None else Some (row, t @ [row]))"

definition findByHashedKey :: "key_table \<Rightarrow> string \<Rightarrow> ApiKey option" where
  "findByHashedKey t hashedKey = List.find (\<lambda>r. ky_key r = hashedKey \<and> \<not> ky_isRevoked r) t"

definition keyMatches :: "int \<Rightarrow> ListApiKeysOptions \<Rightarrow> ApiKey \<Rightarrow> bool" where
  "keyMatches now opts r \<longleftrightarrow>
     (case la_orgId opts of None \<Rightarrow> True | Some o' \<Rightarrow> ky_orgId r = o')
     \<and> (case la_serviceAccountId opts of None \<Rightarrow> True | Some sa \<Rightarrow> ky_serviceAccountId r = sa)
     \<and> (la_includeRevoked opts \<or> \<not> ky_isRevoked r)
     \<and> (la_includeExpired opts \<or> (case ky_expires r of None \<Rightarrow> True | Some e \<Rightarrow> e > now))"

definition keyList :: "key_table \<Rightarrow> int \<Rightarrow> ListApiKeysOptions \<Rightarrow> ApiKey list \<times> nat" where
  "keyList t now opts =
     (let rows = filter (keyMatches now opts) t in
      (take (or_default (la_limit opts) 100) (drop (or_default (la_offset opts) 0) (sort_key (\<lambda>r. - ky_created r) rows)),
       length rows))"

definition onKey :: "string \<Rightarrow> (ApiKey \<Rightarrow> ApiKey) \<Rightarrow> key_table \<Rightarrow> key_table" where
  "onKey i f t = map (\<lambda>r. if ky_id r = i then f r else r) t"

definition keyUpdate :: "key_table \<Rightarrow> int \<Rightarrow> string \<Rightarrow> ApiKeyPatch \<Rightarrow> ApiKey option \<times> key_table" where
  "keyUpdate t now i patch =
     (case keyFindById t i of
        None \<Rightarrow> (None, t)
      | Some existing \<Rightarrow>
          let t' = onKey i (\<lambda>r. r\<lparr>ky_name := or_default (kp_name patch) (ky_name existing), ky_role := or_default (kp_role patch) (ky_role existing),
                ky_lastUsedAt := or_default (kp_lastUsedAt patch) (ky_lastUsedAt existing),
                ky_expires := or_default (kp_expires patch) (ky_expires existing),
                ky_isRevoked := or_default (kp_isRevoked patch) (ky_isRevoked existing), ky_updated := now\<rparr>) t
          in (keyFindById t' i, t'))"

definition keyRevoke :: "key_table \<Rightarrow> int \<Rightarrow> string \<Rightarrow> bool \<times> key_table" where
  "keyRevoke t now i =
     (case keyFindById t i of
        None \<Rightarrow> (False, t)
      | Some _ \<Rightarrow> (True, onKey i (\<lambda>r. r\<lparr>ky_isRevoked := True, ky_updated := now\<rparr>) t))"

definition keyDelete :: "key_table \<Rightarrow> string \<Rightarrow> bool \<times> key_table" where
  "keyDelete t i = (case keyFindById t i of None \<Rightarrow> (False, t) | Some _ \<Rightarrow> (True, filter (\<lambda>r. ky_id r \<noteq> i) t))"

definition touchLastUsed :: "key_table \<Rightarrow> string \<Rightarrow> int \<Rightarrow> key_table" where
  "touchLastUsed t i at = onKey i (\<lambda>r. r\<lparr>ky_lastUsedAt := Some at\<rparr>) t"

record Quota =
  qt_orgId :: "string option"
  qt_userId :: "string option"
  qt_target :: string
  qt_limitVal :: int

definition findUserQuota :: "Quota list \<Rightarrow> string \<Rightarrow> string \<Rightarrow> Quota option" where
  "findUserQuota qs userId target = List.find (\<lambda>q. qt_userId q = Some userId \<and> qt_orgId q = None \<and> qt_target q = target) qs"

subsection \<open>The service\<close>

definition TOKEN_PREFIX_SA :: string where "TOKEN_PREFIX_SA = ''openobs_sa_''"
definition TOKEN_PREFIX_PAT :: string where "TOKEN_PREFIX_PAT = ''openobs_pat_''"
definition ORG_ROLES :: "string list" where "ORG_ROLES = [''Admin'', ''Editor'', ''Viewer'', ''None'']"

datatype KeyError = KeyValidation string | KeyNotFound string | KeyForbidden string | KeyConstraint

datatype KeyAction = SaTokenCreated | ApiKeyCreated | SaTokenRevoked | ApiKeyRevoked | ApiKeyUsed

record KeyAudit =
  ka_action :: KeyAction
  ka_actorType :: string
  ka_actorId :: "string option"
  ka_orgId :: string
  ka_targetId :: string
  ka_targetName :: string

record key_service =
  ks_keys :: key_table
  ks_quotas :: "Quota list option"
  ks_usedAuditAt :: "(string \<times> int) list"
  ks_audit :: "KeyAudit list"

record IssuedToken =
  it_id :: string
  it_name :: string
  it_key :: string
  it_orgId :: string
  it_serviceAccountId :: "string option"
  it_ownerUserId :: "string option"
  it_expires :: "int option"
  it_created :: int

record ApiKeyLookup =
  lk_user :: User
  lk_orgId :: string
  lk_role :: string
  lk_serviceAccountId :: "string option"
  lk_keyId :: string
  lk_isServerAdmin :: bool

definition sha256Hex :: "crypto \<Rightarrow> string \<Rightarrow> string" where
  "sha256Hex cr input = toHex (cr_sha256 cr (toUtf8 input))"

definition generateSAToken :: "byte list \<Rightarrow> string" where
  "generateSAToken random = TOKEN_PREFIX_SA @ toBase64Url random"

definition generatePATToken :: "byte list \<Rightarrow> string" where
  "generatePATToken random = TOKEN_PREFIX_PAT @ toBase64Url random"

definition parseQuotaLimit :: "int option \<Rightarrow> int" where
  "parseQuotaLimit v = or_default v (-1)"

definition computeExpiry :: "int \<Rightarrow> int option \<Rightarrow> int option" where
  "computeExpiry now secondsToLive =
     (case secondsToLive of None \<Rightarrow> None | Some n \<Rightarrow> if n \<le> 0 then None else Some (now + n * 1000))"

definition listByServiceAccount :: "key_table \<Rightarrow> int \<Rightarrow> string \<Rightarrow> string \<Rightarrow> ApiKey list" where
  "listByServiceAccount t now orgId serviceAccountId =
     fst (keyList t now \<lparr>la_orgId = Some orgId, la_serviceAccountId = Some (Some serviceAccountId), la_includeRevoked = True,
            la_includeExpired = True, la_limit = Some 1000, la_offset = None\<rparr>)"

definition listByOwner :: "key_table \<Rightarrow> int \<Rightarrow> string \<Rightarrow> string \<Rightarrow> ApiKey list" where
  "listByOwner t now orgId userId =
     filter (\<lambda>k. ky_ownerUserId k = Some userId)
       (fst (keyList t now \<lparr>la_orgId = Some orgId, la_serviceAccountId = Some None, la_includeRevoked = True,
               la_includeExpired = True, la_limit = Some 1000, la_offset = None\<rparr>))"

definition keyGetById :: "key_table \<Rightarrow> string \<Rightarrow> string \<Rightarrow> ApiKey option" where
  "keyGetById t orgId keyId =
     (case keyFindById t keyId of None \<Rightarrow> None | Some row \<Rightarrow> if ky_orgId row \<noteq> orgId then None else Some row)"

definition tokenLimit :: "key_service \<Rightarrow> string option \<Rightarrow> int \<Rightarrow> int" where
  "tokenLimit s userId envLimit =
     (case ks_quotas s of
        None \<Rightarrow> envLimit
      | Some qs \<Rightarrow>
          if truthy userId
          then (case findUserQuota qs (the userId) ''api_keys'' of None \<Rightarrow> envLimit | Some q \<Rightarrow> qt_limitVal q)
          else envLimit)"

definition enforceTokenQuota :: "key_service \<Rightarrow> int \<Rightarrow> string option \<Rightarrow> string option \<Rightarrow> string option \<Rightarrow> int \<Rightarrow> KeyError option" where
  "enforceTokenQuota s now orgId userId serviceAccountId envLimit =
     (let limit = tokenLimit s userId envLimit in
      if limit < 0 then None
      else
        let current =
          (if truthy serviceAccountId \<and> truthy orgId
           then snd (keyList (ks_keys s) now \<lparr>la_orgId = orgId, la_serviceAccountId = Some serviceAccountId, la_includeRevoked = False,
                       la_includeExpired = False, la_limit = None, la_offset = None\<rparr>)
           else if truthy userId
           then length (filter (\<lambda>r. \<not> ky_isRevoked r) (listByOwner (ks_keys s) now (or_default orgId []) (the userId)))
           else 0)
        in if int current \<ge> limit then Some (KeyForbidden ''Quota exceeded'') else None)"

text \<open>Storing the new row, the audit entry and the answer, as both kinds of token do.\<close>

definition storeToken :: "crypto \<Rightarrow> int \<Rightarrow> string \<Rightarrow> string \<Rightarrow> NewApiKey \<Rightarrow> KeyAction \<Rightarrow> string \<Rightarrow> string \<Rightarrow> key_service
    \<Rightarrow> KeyError + IssuedToken \<times> key_service" where
  "storeToken cr now uid plaintext input action actorType actorId s =
     (case keyCreate (ks_keys s) now uid input of
        None \<Rightarrow> Inl KeyConstraint
      | Some (row, t) \<Rightarrow>
          Inr (\<lparr>it_id = ky_id row, it_name = ky_name row, it_key = plaintext, it_orgId = nk_orgId input,
                it_serviceAccountId = nk_serviceAccountId input, it_ownerUserId = nk_ownerUserId input,
                it_expires = ky_expires row, it_created = ky_created row\<rparr>,
               s\<lparr>ks_keys := t, ks_audit := \<lparr>ka_action = action, ka_actorType = actorType, ka_actorId = Some actorId, ka_orgId = nk_orgId input,
                   ka_targetId = ky_id row, ka_targetName = nk_name input\<rparr> # ks_audit s\<rparr>))"

definition issueServiceAccountToken :: "crypto \<Rightarrow> account_tables \<Rightarrow> int option \<Rightarrow> int \<Rightarrow> string \<Rightarrow> byte list \<Rightarrow> string \<Rightarrow> string
    \<Rightarrow> string \<Rightarrow> int option \<Rightarrow> key_service \<Rightarrow> KeyError + IssuedToken \<times> key_service" where
  "issueServiceAccountToken cr at envLimit now uid random orgId serviceAccountId name secondsToLive s =
     (let name = js_trim name in
      if name = [] then Inl (KeyValidation ''name is required'')
      else case userFindById at serviceAccountId of
        None \<Rightarrow> Inl (KeyNotFound ''service account'')
      | Some sa \<Rightarrow>
          if \<not> u_isServiceAccount sa \<or> u_orgId sa \<noteq> orgId then Inl (KeyNotFound ''service account'')
          else (case enforceTokenQuota s now (Some orgId) None (Some serviceAccountId) (parseQuotaLimit envLimit) of
                  Some e \<Rightarrow> Inl e
                | None \<Rightarrow>
                    (case findMembership at orgId serviceAccountId of
                       None \<Rightarrow> Inl (KeyForbidden ''service account has no membership in this organization'')
                     | Some membership \<Rightarrow>
                         let plaintext = generateSAToken random
                         in storeToken cr now uid plaintext
                              \<lparr>nk_id = None, nk_orgId = orgId, nk_name = name, nk_key = sha256Hex cr plaintext, nk_role = ou_role membership,
                               nk_expires = computeExpiry now secondsToLive, nk_serviceAccountId = Some serviceAccountId, nk_ownerUserId = None\<rparr>
                              SaTokenCreated ''service_account'' serviceAccountId s)))"

definition issuePersonalAccessToken :: "crypto \<Rightarrow> account_tables \<Rightarrow> int option \<Rightarrow> int \<Rightarrow> string \<Rightarrow> byte list \<Rightarrow> string \<Rightarrow> string
    \<Rightarrow> string \<Rightarrow> int option \<Rightarrow> string option \<Rightarrow> key_service \<Rightarrow> KeyError + IssuedToken \<times> key_service" where
  "issuePersonalAccessToken cr at envLimit now uid random orgId userId name secondsToLive role s =
     (let name = js_trim name in
      if name = [] then Inl (KeyValidation ''name is required'')
      else if (case role of None \<Rightarrow> False | Some r \<Rightarrow> r \<notin> set ORG_ROLES) then Inl (KeyValidation ''role must be one of'')
      else case userFindById at userId of
        None \<Rightarrow> Inl (KeyNotFound ''user'')
      | Some user \<Rightarrow>
          if u_isServiceAccount user then Inl (KeyValidation ''service accounts must use SA tokens'')
          else (case enforceTokenQuota s now None (Some userId) None (parseQuotaLimit envLimit) of
                  Some e \<Rightarrow> Inl e
                | None \<Rightarrow>
                    (case findMembership at orgId userId of
                       None \<Rightarrow> Inl (KeyForbidden ''user has no membership in this organization'')
                     | Some membership \<Rightarrow>
                         let plaintext = generatePATToken random
                         in storeToken cr now uid plaintext
                              \<lparr>nk_id = None, nk_orgId = orgId, nk_name = name, nk_key = sha256Hex cr plaintext,
                               nk_role = or_default role (ou_role membership), nk_expires = computeExpiry now secondsToLive,
                               nk_serviceAccountId = None, nk_ownerUserId = Some userId\<rparr>
                              ApiKeyCreated ''user'' userId s)))"

definition revokeKey :: "int \<Rightarrow> string \<Rightarrow> string \<Rightarrow> string \<Rightarrow> key_service \<Rightarrow> KeyError + key_service" where
  "revokeKey now orgId keyId actorId s =
     (case keyFindById (ks_keys s) keyId of
        None \<Rightarrow> Inl (KeyNotFound ''api key'')
      | Some row \<Rightarrow>
          if ky_orgId row \<noteq> orgId then Inl (KeyNotFound ''api key'')
          else if ky_isRevoked row then Inr s
          else Inr (s\<lparr>ks_keys := snd (keyRevoke (ks_keys s) now keyId),
                 ks_audit := \<lparr>ka_action = (if truthy (ky_serviceAccountId row) then SaTokenRevoked else ApiKeyRevoked), ka_actorType = ''user'',
                   ka_actorId = Some actorId, ka_orgId = orgId, ka_targetId = ky_id row, ka_targetName = ky_name row\<rparr> # ks_audit s\<rparr>))"

definition keyPrincipal :: "ApiKey \<Rightarrow> string option" where
  "keyPrincipal row = (case ky_serviceAccountId row of Some i \<Rightarrow> Some i | None \<Rightarrow> ky_ownerUserId row)"

definition maybeAuditUsed :: "int \<Rightarrow> int \<Rightarrow> ApiKey \<Rightarrow> key_service \<Rightarrow> key_service" where
  "maybeAuditUsed cooldownMs now row s =
     (let last = or_default (map_of (ks_usedAuditAt s) (ky_id row)) 0 in
      if now - last < cooldownMs then s
      else
        let used = AList.update (ky_id row) now (ks_usedAuditAt s);
            used' = (if length used > 1024 then filter (\<lambda>(k, v). \<not> v < now - cooldownMs * 10) used else used)
        in s\<lparr>ks_usedAuditAt := used',
             ks_audit := \<lparr>ka_action = ApiKeyUsed, ka_actorType = (if truthy (ky_serviceAccountId row) then ''service_account'' else ''user''),
               ka_actorId = keyPrincipal row, ka_orgId = ky_orgId row, ka_targetId = ky_id row, ka_targetName = ky_name row\<rparr> # ks_audit s\<rparr>)"

definition validateAndLookup :: "crypto \<Rightarrow> int \<Rightarrow> account_tables \<Rightarrow> int \<Rightarrow> string \<Rightarrow> key_service \<Rightarrow> ApiKeyLookup option \<times> key_service" where
  "validateAndLookup cr cooldownMs at now rawToken s =
     (if rawToken = [] then (None, s)
      else case findByHashedKey (ks_keys s) (sha256Hex cr rawToken) of
        None \<Rightarrow> (None, s)
      | Some row \<Rightarrow>
          if ky_isRevoked row then (None, s)
          else if (case ky_expires row of None \<Rightarrow> False | Some e \<Rightarrow> e < now) then (None, s)
          else if \<not> truthy (keyPrincipal row) then (None, s)
          else (case userFindById at (the (keyPrincipal row)) of
                  None \<Rightarrow> (None, s)
                | Some user \<Rightarrow>
                    if u_isDisabled user then (None, s)
                    else
                      let role = (case findMembership at (ky_orgId row) (the (keyPrincipal row)) of None \<Rightarrow> ''None'' | Some m \<Rightarrow> ou_role m);
                          s1 = maybeAuditUsed cooldownMs now row (s\<lparr>ks_keys := touchLastUsed (ks_keys s) (ky_id row) now\<rparr>)
                      in (Some \<lparr>lk_user = user, lk_orgId = ky_orgId row, lk_role = role, lk_serviceAccountId = ky_serviceAccountId row,
                                lk_keyId = ky_id row, lk_isServerAdmin = u_isAdmin user\<rparr>, s1)))"

subsection \<open>Legacy keys\<close>

definition legacyPair :: "string \<Rightarrow> (string \<times> string) option" where
  "legacyPair pair =
     (let trimmed = js_trim pair; before = takeWhile (\<lambda>c. c \<noteq> CHR '':'') trimmed in
      if trimmed = [] then None
      else if before = [] \<or> before = trimmed then None
      else let name = js_trim before; key = js_trim (drop (length before + 1) trimmed)
           in if name = [] \<or> key = [] then None else Some (name, key))"

definition parseLegacyEnv :: "string option \<Rightarrow> (string \<times> string) list" where
  "parseLegacyEnv raw =
     (if \<not> truthy raw then [] else List.map_filter legacyPair (split_on (CHR '','') (the raw)))"

definition importLegacyKeyForSA :: "crypto \<Rightarrow> account_tables \<Rightarrow> int \<Rightarrow> string \<Rightarrow> string \<Rightarrow> string \<Rightarrow> string \<Rightarrow> string \<Rightarrow> key_service
    \<Rightarrow> KeyError + ApiKey \<times> key_service" where
  "importLegacyKeyForSA cr at now uid orgId serviceAccountId legacyName legacyKey s =
     (let hashed = sha256Hex cr legacyKey in
      case findByHashedKey (ks_keys s) hashed of
        Some existing \<Rightarrow> Inr (existing, s)
      | None \<Rightarrow>
          (case findMembership at orgId serviceAccountId of
             None \<Rightarrow> Inl (KeyForbidden ''service account has no membership in this organization'')
           | Some membership \<Rightarrow>
               (case keyCreate (ks_keys s) now uid
                   \<lparr>nk_id = None, nk_orgId = orgId, nk_name = legacyName, nk_key = hashed, nk_role = ou_role membership, nk_expires = None,
                    nk_serviceAccountId = Some serviceAccountId, nk_ownerUserId = None\<rparr> of
                  None \<Rightarrow> Inl KeyConstraint
                | Some (row, t) \<Rightarrow> Inr (row, s\<lparr>ks_keys := t\<rparr>))))"

subsection \<open>Histories\<close>

inductive key_step :: "crypto \<Rightarrow> key_service \<Rightarrow> key_service \<Rightarrow> bool" for cr where
  ks_issueSA: "issueServiceAccountToken cr at envLimit now uid random orgId sa name ttl s = Inr (tok, s') \<Longrightarrow> key_step cr s s'"
| ks_issuePAT: "issuePersonalAccessToken cr at envLimit now uid random orgId userId name ttl role s = Inr (tok, s') \<Longrightarrow> key_step cr s s'"
| ks_import: "importLegacyKeyForSA cr at now uid orgId sa legacyName legacyKey s = Inr (row, s') \<Longrightarrow> key_step cr s s'"
| ks_revoke: "revokeKey now orgId keyId actorId s = Inr s' \<Longrightarrow> key_step cr s s'"
| ks_use: "validateAndLookup cr cooldownMs at now raw s = (lk, s') \<Longrightarrow> key_step cr s s'"

section \<open>Lemmas\<close>

definition keysOk :: "key_table \<Rightarrow> bool" where
  "keysOk t \<longleftrightarrow> distinct (map ky_id t) \<and> distinct (map ky_key t)"

definition withKey :: "string \<Rightarrow> bool \<Rightarrow> key_table \<Rightarrow> bool" where
  "withKey h revoked t \<longleftrightarrow> (\<exists>r\<in>set t. ky_key r = h \<and> ky_isRevoked r = revoked)"

lemma key_unique: "keysOk t \<Longrightarrow> r \<in> set t \<Longrightarrow> s \<in> set t \<Longrightarrow> ky_key r = ky_key s \<Longrightarrow> r = s"
  by (auto simp: keysOk_def distinct_map dest: inj_onD)

lemma keyCreate_spec:
  assumes "keyCreate t now uid input = Some (row, t')"
  shows "t' = t @ [row]" "row = keyRow now (or_default (nk_id input) uid) input" "ky_id row \<notin> ky_id ` set t" "ky_key row \<notin> ky_key ` set t"
proof -
  from assms show t': "t' = t @ [row]" and row: "row = keyRow now (or_default (nk_id input) uid) input"
    by (auto simp: keyCreate_def Let_def split: if_splits)
  have "\<forall>r\<in>set t. ky_id r \<noteq> ky_id row \<and> ky_key r \<noteq> ky_key row"
    using assms by (auto simp: keyCreate_def Let_def list_ex_iff keyRow_def split: if_splits)
  then show "ky_id row \<notin> ky_id ` set t" "ky_key row \<notin> ky_key ` set t" by (metis imageE)+
qed

lemma keyCreate_ok: "keyCreate t now uid input = Some (row, t') \<Longrightarrow> keysOk t \<Longrightarrow> keysOk t'"
  using keyCreate_spec [of t now uid input row t'] by (simp add: keysOk_def)

lemma onKey_ok: "(\<And>r. ky_id (f r) = ky_id r \<and> ky_key (f r) = ky_key r) \<Longrightarrow> keysOk t \<Longrightarrow> keysOk (onKey i f t)"
  using map_keyed [of t ky_id "\<lambda>r. if ky_id r = i then f r else r"] map_keyed [of t ky_key "\<lambda>r. if ky_id r = i then f r else r"]
  by (simp add: keysOk_def onKey_def del: map_map)

lemma onKey_revoked:
  assumes "\<And>r. ky_key (f r) = ky_key r \<and> (ky_isRevoked r \<longrightarrow> ky_isRevoked (f r))" "withKey h True t"
  shows "withKey h True (onKey i f t)"
proof -
  obtain r where "r \<in> set t" "ky_key r = h" "ky_isRevoked r" using assms(2) by (auto simp: withKey_def)
  then show ?thesis using assms(1) [of r] unfolding withKey_def onKey_def
    by (intro bexI [of _ "if ky_id r = i then f r else r"]) auto
qed

text \<open>What every operation does to the table: nothing, a new row, or a change that keeps keys and revocations.\<close>

definition keyChange :: "key_table \<Rightarrow> key_table \<Rightarrow> bool" where
  "keyChange t t' \<longleftrightarrow> t' = t \<or> (\<exists>now uid input row. keyCreate t now uid input = Some (row, t'))
     \<or> (\<exists>i f. t' = onKey i f t \<and> (\<forall>r. ky_id (f r) = ky_id r \<and> ky_key (f r) = ky_key r \<and> (ky_isRevoked r \<longrightarrow> ky_isRevoked (f r))))"

lemma keyChange_keeps:
  assumes "keyChange t t'"
  shows "keysOk t \<Longrightarrow> keysOk t'" "withKey h True t \<Longrightarrow> withKey h True t'"
proof -
  show "keysOk t'" if "keysOk t" using assms that keyCreate_ok onKey_ok unfolding keyChange_def by blast
  show "withKey h True t'" if "withKey h True t"
    using assms that keyCreate_spec(1) onKey_revoked unfolding keyChange_def by (fastforce simp: withKey_def)
qed

lemma storeToken_change: "storeToken cr now uid p input a ty i s = Inr (tok, s') \<Longrightarrow> keyChange (ks_keys s) (ks_keys s')"
  by (auto simp: storeToken_def keyChange_def split: option.splits)

lemma maybeAudit_keys [simp]: "ks_keys (maybeAuditUsed c now row s) = ks_keys s"
  by (simp add: maybeAuditUsed_def Let_def)

lemma touch_change: "keyChange t (touchLastUsed t i at)"
  unfolding keyChange_def touchLastUsed_def
  by (intro disjI2 exI [of _ i] exI [of _ "\<lambda>r. r\<lparr>ky_lastUsedAt := Some at\<rparr>"]) simp

lemma revoke_change: "keyChange t (snd (keyRevoke t now i))"
  unfolding keyChange_def keyRevoke_def
  by (cases "keyFindById t i") (auto intro!: exI [of _ i] exI [of _ "\<lambda>r. r\<lparr>ky_isRevoked := True, ky_updated := now\<rparr>"])

lemma key_step_change: "key_step cr s s' \<Longrightarrow> keyChange (ks_keys s) (ks_keys s')"
proof (induction rule: key_step.induct)
  case (ks_issueSA at envLimit now uid random orgId sa name ttl s tok s')
  then show ?case by (auto simp: issueServiceAccountToken_def Let_def storeToken_change split: if_splits option.splits)
next
  case (ks_issuePAT at envLimit now uid random orgId userId name ttl role s tok s')
  then show ?case by (auto simp: issuePersonalAccessToken_def Let_def storeToken_change split: if_splits option.splits)
next
  case (ks_import at now uid orgId sa legacyName legacyKey s row s')
  then show ?case by (auto simp: importLegacyKeyForSA_def Let_def keyChange_def split: option.splits)
next
  case (ks_revoke now orgId keyId actorId s s')
  then show ?case using revoke_change [of "ks_keys s" now keyId] by (auto simp: revokeKey_def keyChange_def [of t t for t] split: option.splits if_splits)
next
  case (ks_use cooldownMs at now raw s lk s')
  then show ?case using touch_change by (auto simp: validateAndLookup_def Let_def keyChange_def [of t t for t] split: option.splits if_splits)
qed

interpretation revokedKeys: step_system "\<lambda>s. keysOk (ks_keys s) \<and> withKey h True (ks_keys s)" "key_step cr"
  "\<lambda>s. keysOk (ks_keys s) \<and> withKey h True (ks_keys s)" for h cr
  using keyChange_keeps key_step_change by unfold_locales blast+

lemma revoked_not_found: "keysOk t \<Longrightarrow> withKey h True t \<Longrightarrow> findByHashedKey t h = None"
  unfolding findByHashedKey_def find_None_all withKey_def using key_unique by blast

lemma find_last: "(\<And>x. x \<in> set xs \<Longrightarrow> \<not> P x) \<Longrightarrow> P y \<Longrightarrow> List.find P (xs @ [y]) = Some y"
  by (induction xs) auto

lemma stored_found:
  assumes "storeToken cr now uid p input a ty i s = Inr (tok, s')" "nk_id input = None"
  shows "findByHashedKey (ks_keys s') (nk_key input) = Some (keyRow now uid input)" "it_id tok = uid" "it_key tok = p" "it_expires tok = nk_expires input"
proof -
  obtain row where c: "keyCreate (ks_keys s) now uid input = Some (row, ks_keys s')" and tok: "it_id tok = ky_id row" "it_key tok = p" "it_expires tok = ky_expires row"
    using assms(1) by (auto simp: storeToken_def split: option.splits)
  note spec = keyCreate_spec [OF c]
  have row: "row = keyRow now uid input" using spec(2) assms(2) by simp
  have "List.find (\<lambda>r. ky_key r = nk_key input \<and> \<not> ky_isRevoked r) (ks_keys s @ [row]) = Some row"
    by (rule find_last) (use spec(4) in \<open>auto simp: row keyRow_def image_iff\<close>)
  then show "findByHashedKey (ks_keys s') (nk_key input) = Some (keyRow now uid input)" by (simp add: findByHashedKey_def spec(1) row)
  show "it_id tok = uid" "it_key tok = p" "it_expires tok = nk_expires input" using tok row by (simp_all add: keyRow_def)
qed

text \<open>The tokens a quota counts.\<close>

definition activeTokens :: "key_table \<Rightarrow> int \<Rightarrow> string \<Rightarrow> string \<Rightarrow> ApiKey list" where
  "activeTokens t now orgId sa = filter (\<lambda>r. ky_orgId r = orgId \<and> ky_serviceAccountId r = Some sa \<and> \<not> ky_isRevoked r
     \<and> (case ky_expires r of None \<Rightarrow> True | Some e \<Rightarrow> e > now)) t"

lemma quota_sa:
  assumes "orgId \<noteq> []" "sa \<noteq> []"
  shows "enforceTokenQuota s now (Some orgId) None (Some sa) limit = None \<longleftrightarrow> limit < 0 \<or> int (length (activeTokens (ks_keys s) now orgId sa)) < limit"
  using assms by (auto simp: enforceTokenQuota_def tokenLimit_def keyList_def Let_def keyMatches_def [abs_def] activeTokens_def truthy_iff split: option.splits)

lemma quota_user:
  assumes "\<forall>r\<in>set (ks_keys s). ky_orgId r \<noteq> []" "0 < tokenLimit s (Some userId) limit"
  shows "enforceTokenQuota s now None (Some userId) None limit = None"
proof -
  have "filter (keyMatches now \<lparr>la_orgId = Some [], la_serviceAccountId = Some None, la_includeRevoked = True,
      la_includeExpired = True, la_limit = Some 1000, la_offset = None\<rparr>) (ks_keys s) = []"
    using assms(1) by (auto simp: filter_empty_conv keyMatches_def)
  then show ?thesis using assms(2) by (auto simp: enforceTokenQuota_def Let_def listByOwner_def keyList_def)
qed

section \<open>Properties\<close>


definition exUser :: "string \<Rightarrow> bool \<Rightarrow> User" where
  "exUser i sa = \<lparr>u_id = i, u_version = 0, u_email = i @ ''@x'', u_name = i, u_login = i, u_password = None, u_salt = None, u_rands = None,
     u_company = None, u_orgId = ''o'', u_isAdmin = False, u_emailVerified = False, u_theme = None, u_helpFlags1 = 0,
     u_isDisabled = False, u_isServiceAccount = sa, u_created = 0, u_updated = 0, u_lastSeenAt = None\<rparr>"

definition exMember :: "string \<Rightarrow> OrgUser" where
  "exMember i = \<lparr>ou_orgId = ''o'', ou_userId = i, ou_role = ''Admin''\<rparr>"

definition exAccounts :: account_tables where
  "exAccounts = \<lparr>ak_orgs = [''o''], ak_users = [exUser ''u'' False, exUser ''sa'' True], ak_orgUsers = [exMember ''u'', exMember ''sa'']\<rparr>"

definition exKeys :: key_service where
  "exKeys = \<lparr>ks_keys = [], ks_quotas = Some [\<lparr>qt_orgId = None, qt_userId = Some ''u'', qt_target = ''api_keys'', qt_limitVal = 1\<rparr>],
     ks_usedAuditAt = [], ks_audit = []\<rparr>"

definition exPat :: "KeyError + IssuedToken \<times> key_service" where
  "exPat = issuePersonalAccessToken exSha exAccounts None 0 ''k'' [1, 2, 3] ''o'' ''u'' ''ci'' (Some 60) (Some ''Viewer'') exKeys"

lemma ex_accounts: "userFindById exAccounts ''u'' = Some (exUser ''u'' False)" "findMembership exAccounts ''o'' ''u'' = Some (exMember ''u'')"
  "\<not> u_isDisabled (exUser ''u'' False)" "ou_role (exMember ''u'') = ''Admin''"
  by (simp_all add: userFindById_def findMembership_def exAccounts_def exUser_def exMember_def)

lemma ex_pat: obtains tok s' where "exPat = Inr (tok, s')" "it_expires tok = Some 60000" "tok = fst (projr exPat)" "s' = snd (projr exPat)"
proof -
  have "\<not> isl exPat" "it_expires (fst (projr exPat)) = Some 60000" by code_simp+
  then show ?thesis using that [of "fst (projr exPat)" "snd (projr exPat)"] by (cases exPat) auto
qed



definition exDead :: ApiKey where
  "exDead = keyRow 0 ''k'' \<lparr>nk_id = None, nk_orgId = ''o'', nk_name = ''ci'', nk_key = sha256Hex exSha ''openobs_pat_x'', nk_role = ''Admin'',
     nk_expires = None, nk_serviceAccountId = None, nk_ownerUserId = Some ''u''\<rparr>"


text \<open>The quota of a service account holds. When a token is issued to a service account under a limit, the
  account has at most that many tokens that are neither revoked nor expired, the new one included.\<close>

theorem sa_quota_bound:
  assumes "issueServiceAccountToken cr at (Some limit) now uid random orgId sa name ttl s = Inr (tok, s')" "0 \<le> limit" "orgId \<noteq> []" "sa \<noteq> []"
  shows "int (length (activeTokens (ks_keys s') now orgId sa)) \<le> limit"
proof -
  have q: "enforceTokenQuota s now (Some orgId) None (Some sa) limit = None"
    using assms(1) by (auto simp: issueServiceAccountToken_def parseQuotaLimit_def Let_def split: if_splits option.splits)
  obtain input p ty where st: "storeToken cr now uid p input SaTokenCreated ty sa s = Inr (tok, s')"
    using assms(1) by (auto simp: issueServiceAccountToken_def Let_def split: if_splits option.splits)
  then obtain row where "ks_keys s' = ks_keys s @ [row]"
    using keyCreate_spec(1) by (fastforce simp: storeToken_def split: option.splits)
  then have "length (activeTokens (ks_keys s') now orgId sa) \<le> length (activeTokens (ks_keys s) now orgId sa) + 1" by (simp add: activeTokens_def)
  then show ?thesis using q assms(2) unfolding quota_sa [OF assms(3,4)] by linarith
qed

theorem sa_quota_bound_witness:
  "\<exists>tok s'. issueServiceAccountToken exSha exAccounts (Some 1) 0 ''k'' [7] ''o'' ''sa'' ''bot'' None exKeys = Inr (tok, s')
     \<and> int (length (activeTokens (ks_keys s') 0 ''o'' ''sa'')) \<le> 1"
proof -
  let ?r = "issueServiceAccountToken exSha exAccounts (Some 1) 0 ''k'' [7] ''o'' ''sa'' ''bot'' None exKeys"
  have "\<not> isl ?r" by code_simp
  then obtain tok s' where r: "?r = Inr (tok, s')" by (cases ?r) auto
  then show ?thesis using sa_quota_bound [OF r] by auto
qed

text \<open>The quota of a user does not hold. Whatever limit above zero the environment or the quota table sets and however many
  tokens the user has, a request for one more is never refused because of the quota, as long as no organisation has the
  empty name.\<close>

theorem pat_quota_ignored:
  assumes "\<forall>r\<in>set (ks_keys s). ky_orgId r \<noteq> []" "0 < tokenLimit s (Some userId) (parseQuotaLimit envLimit)"
  shows "issuePersonalAccessToken cr at envLimit now uid random orgId userId name ttl role s \<noteq> Inl (KeyForbidden ''Quota exceeded'')"
  using quota_user [OF assms, of now] by (auto simp: issuePersonalAccessToken_def Let_def storeToken_def split: if_splits option.splits)

theorem pat_quota_ignored_witness:
  "\<exists>tok s'. exPat = Inr (tok, s') \<and> tokenLimit s' (Some ''u'') (parseQuotaLimit None) = 1 \<and> length (ks_keys s') = 1
     \<and> issuePersonalAccessToken exSha exAccounts None 1 ''k2'' [9] ''o'' ''u'' ''more'' None None s' \<noteq> Inl (KeyForbidden ''Quota exceeded'')"
proof -
  obtain tok s' where p: "exPat = Inr (tok, s')" "s' = snd (projr exPat)" by (rule ex_pat)
  have "tokenLimit (snd (projr exPat)) (Some ''u'') (parseQuotaLimit None) = 1" "length (ks_keys (snd (projr exPat))) = 1"
    "list_all (\<lambda>r. ky_orgId r \<noteq> []) (ks_keys (snd (projr exPat)))" by code_simp+
  then show ?thesis using p pat_quota_ignored [of s' "''u''" None exSha exAccounts 1 "''k2''" "[9]" "''o''" "''more''" None None]
    by (auto simp: list_all_iff)
qed

text \<open>Importing a legacy key again fails once it was revoked: the lookup before the insertion does not see revoked keys, and
  the unique index refuses the insertion.\<close>

lemma import_after_revoke:
  assumes "keysOk (ks_keys s)" "withKey (sha256Hex cr legacyKey) True (ks_keys s)" "findMembership at orgId sa = Some m"
  shows "importLegacyKeyForSA cr at now uid orgId sa legacyName legacyKey s = Inl KeyConstraint"
proof -
  have "findByHashedKey (ks_keys s) (sha256Hex cr legacyKey) = None" by (rule revoked_not_found [OF assms(1,2)])
  moreover have "list_ex (\<lambda>r. ky_id r = uid \<or> ky_key r = sha256Hex cr legacyKey) (ks_keys s)"
    using assms(2) by (auto simp: withKey_def list_ex_iff)
  ultimately show ?thesis using assms(3) by (simp add: importLegacyKeyForSA_def keyCreate_def Let_def)
qed

end
