(* ===== verification/Auth_Middleware.thy ===== *)
theory Auth_Middleware
  imports Local_Login Api_Keys Access_Control
begin

text \<open>
  Authentication of requests (\<open>api-gateway/src/middleware/auth.ts\<close>): a session cookie if there is one, else a bearer token
  or API key, become the identity that access control works with.

  The sessions, accounts and keys are the tables of the theories before. A failing database call (status 500) and the fallback
  without the key service, which the source permits in tests only, are left out.

  Results: a request with a cookie is authenticated exactly when the history of the session entitles its token and the user is
  enabled, whatever other credentials it carries; who signs in with his password and sends the cookie back is recognised until the
  session ends, grows too old or idle.
\<close>

section \<open>Definitions\<close>

definition SESSION_COOKIE_NAME :: string where "SESSION_COOKIE_NAME = ''openobs_session''"

text \<open>One part of the header: its name and, when it is the wanted one, the value.\<close>

fun cookieLoop :: "string \<Rightarrow> string list \<Rightarrow> string option" where
  "cookieLoop name [] = None"
| "cookieLoop name (part # parts) =
     (case split_on (CHR ''='') (js_trim part) of
        k # rest \<Rightarrow>
          if k = name then (let v = join_with ''='' rest in if v = [] then None else Some v)
          else cookieLoop name parts
      | [] \<Rightarrow> cookieLoop name parts)"

definition readCookie :: "string option \<Rightarrow> string \<Rightarrow> string option" where
  "readCookie cookieHeader name =
     (if \<not> truthy cookieHeader then None else cookieLoop name (split_on (CHR '';'') (the cookieHeader)))"

record auth_request =
  rh_cookie :: "string option"
  rh_authorization :: "string option"
  rh_apiKey :: "string option"

definition bearerToken :: "auth_request \<Rightarrow> string option" where
  "bearerToken req =
     (case rh_authorization req of
        Some h \<Rightarrow>
          if starts_with ''Bearer '' h then Some (js_trim (drop 7 h))
          else (if truthy (rh_apiKey req) then rh_apiKey req else None)
      | None \<Rightarrow> (if truthy (rh_apiKey req) then rh_apiKey req else None))"

record auth_tables_state =
  aw_sessions :: token_table
  aw_accounts :: account_tables
  aw_keys :: key_service

datatype AuthOutcome = Unauthorized string | Authenticated Identity

definition sessionIdentity :: "account_tables \<Rightarrow> User \<Rightarrow> UserAuthToken \<Rightarrow> Identity" where
  "sessionIdentity at user row =
     \<lparr>id_userId = u_id user, id_orgId = u_orgId user,
      id_orgRole = (case findMembership at (u_orgId user) (u_id user) of Some m \<Rightarrow> ou_role m | None \<Rightarrow> ''None''),
      id_isServerAdmin = u_isAdmin user, id_authenticatedBy = ''session'', id_permissions = None,
      id_sessionId = Some (tk_id row), id_serviceAccountId = None\<rparr>"

definition keyIdentity :: "ApiKeyLookup \<Rightarrow> Identity" where
  "keyIdentity lookup =
     \<lparr>id_userId = u_id (lk_user lookup), id_orgId = lk_orgId lookup, id_orgRole = lk_role lookup,
      id_isServerAdmin = lk_isServerAdmin lookup, id_authenticatedBy = ''api_key'', id_permissions = None,
      id_sessionId = None, id_serviceAccountId = lk_serviceAccountId lookup\<rparr>"

definition authMiddleware :: "crypto \<Rightarrow> session_opts \<Rightarrow> int \<Rightarrow> int \<Rightarrow> auth_request \<Rightarrow> auth_tables_state \<Rightarrow> AuthOutcome \<times> auth_tables_state" where
  "authMiddleware cr opts cooldownMs now req st =
     (case readCookie (rh_cookie req) SESSION_COOKIE_NAME of
        Some rawSessionToken \<Rightarrow>
          (case lookupByToken cr opts now (aw_sessions st) rawSessionToken of
             None \<Rightarrow> (Unauthorized ''SESSION_EXPIRED'', st)
           | Some row \<Rightarrow>
               (case userFindById (aw_accounts st) (tk_userId row) of
                  None \<Rightarrow> (Unauthorized ''USER_DISABLED'', st)
                | Some user \<Rightarrow>
                    if u_isDisabled user then (Unauthorized ''USER_DISABLED'', st)
                    else (Authenticated (sessionIdentity (aw_accounts st) user row),
                          st\<lparr>aw_sessions := markSeen now None (tk_id row) (aw_sessions st)\<rparr>)))
      | None \<Rightarrow>
          if truthy (bearerToken req)
          then (case validateAndLookup cr cooldownMs (aw_accounts st) now (the (bearerToken req)) (aw_keys st) of
                  (None, ks) \<Rightarrow> (Unauthorized ''INVALID_API_KEY'', st\<lparr>aw_keys := ks\<rparr>)
                | (Some lookup, ks) \<Rightarrow> (Authenticated (keyIdentity lookup), st\<lparr>aw_keys := ks\<rparr>))
          else (Unauthorized ''UNAUTHORIZED'', st))"

section \<open>Lemmas\<close>

lemma readCookie_some: "readCookie h name = Some raw \<Longrightarrow> raw \<noteq> []"
proof -
  have "cookieLoop name parts = Some raw \<Longrightarrow> raw \<noteq> []" for parts
    by (induction parts) (auto simp: Let_def split: list.splits if_splits)
  then show "readCookie h name = Some raw \<Longrightarrow> raw \<noteq> []" by (auto simp: readCookie_def split: if_splits)
qed

text \<open>A cookie that was set comes back unchanged.\<close>

lemma b64_digit_set: "n < 64 \<Longrightarrow> b64Digit n \<in> set b64Digits"
proof -
  have "length b64Digits = 64" by code_simp
  then show "n < 64 \<Longrightarrow> b64Digit n \<in> set b64Digits" by (simp add: b64Digit_def)
qed

lemma base64_chars: "set (toBase64 bs) \<subseteq> insert (CHR ''='') (set b64Digits)"
  by (induction bs rule: toBase64.induct) (auto simp: Let_def intro!: b64_digit_set digit_sums)

lemma token_chars: "c \<in> set (generateSessionToken random) \<Longrightarrow> \<not> js_space c \<and> c \<noteq> CHR '';'' \<and> c \<noteq> CHR ''=''"
proof -
  let ?url = "\<lambda>c. if c = CHR ''+'' then CHR ''-'' else if c = CHR ''/'' then CHR ''_'' else c"
  have digits: "list_all (\<lambda>c. \<not> js_space (?url c) \<and> ?url c \<noteq> CHR '';'' \<and> ?url c \<noteq> CHR ''='') b64Digits"
    and pre: "list_all (\<lambda>c. \<not> js_space c \<and> c \<noteq> CHR '';'' \<and> c \<noteq> CHR ''='') SESSION_TOKEN_PREFIX" by code_simp+
  assume "c \<in> set (generateSessionToken random)"
  then have "c \<in> set SESSION_TOKEN_PREFIX \<or> c \<in> ?url ` {d \<in> set (toBase64 random). d \<noteq> CHR ''=''}"
    by (simp only: generateSessionToken_def toBase64Url_def set_append set_map set_filter Un_iff)
  then consider "c \<in> set SESSION_TOKEN_PREFIX" | d where "d \<in> set (toBase64 random)" "d \<noteq> CHR ''=''" "c = ?url d"
    by blast
  then show ?thesis
  proof cases
    case 2
    then have "d \<in> set b64Digits" using base64_chars [of random] by auto
    then show ?thesis using digits 2(3) by (simp only: list_all_iff) blast
  qed (use pre in \<open>simp add: list_all_iff\<close>)
qed

lemma js_trim_clean: "(\<And>c. c \<in> set s \<Longrightarrow> \<not> js_space c) \<Longrightarrow> js_trim s = s"
proof -
  have clean: "dropWhile js_space xs = xs" if "\<And>c. c \<in> set xs \<Longrightarrow> \<not> js_space c" for xs using that by (cases xs) auto
  assume "\<And>c. c \<in> set s \<Longrightarrow> \<not> js_space c"
  then show ?thesis using clean [of s] clean [of "rev s"] by (simp add: js_trim_def)
qed

lemma cookie_returns: "readCookie (Some (SESSION_COOKIE_NAME @ ''='' @ generateSessionToken random)) SESSION_COOKIE_NAME = Some (generateSessionToken random)"
proof -
  let ?t = "generateSessionToken random" let ?h = "SESSION_COOKIE_NAME @ ''='' @ ?t"
  have name: "list_all (\<lambda>c. \<not> js_space c \<and> c \<noteq> CHR '';'' \<and> c \<noteq> CHR ''='') SESSION_COOKIE_NAME" by code_simp
  have clean: "\<not> js_space c" "c \<noteq> CHR '';''" if "c \<in> set ?h" for c
  proof -
    have "\<not> js_space (CHR ''='')" by code_simp
    then show "\<not> js_space c" "c \<noteq> CHR '';''" using that token_chars [of c random] name by (auto simp: list_all_iff)
  qed
  have "split_on (CHR '';'') ?h = [?h]" using clean(2) by (intro split_on_id) blast
  moreover have "js_trim ?h = ?h" by (rule js_trim_clean) (rule clean(1))
  moreover have "CHR ''='' \<notin> set SESSION_COOKIE_NAME" "CHR ''='' \<notin> set ?t"
    using token_chars [of "CHR ''=''" random] name by (auto simp: list_all_iff)
  then have "split_on (CHR ''='') ?h = [SESSION_COOKIE_NAME, ?t]" by simp
  moreover have "?t \<noteq> []" "?h \<noteq> []" by (simp_all add: generateSessionToken_def SESSION_TOKEN_PREFIX_def)
  ultimately show ?thesis by (simp add: readCookie_def truthy_iff)
qed

lemma login_user:
  assumes "fst (localLogin scrypt lim now at input ws) = Inr user"
  shows "user \<in> set (ak_users at)" "\<not> u_isDisabled user"
proof -
  have "loginVerify scrypt at input = Some user"
    using assms by (auto simp: localLogin_def loginSettle_def split: prod.splits sum.splits option.splits)
  then show "user \<in> set (ak_users at)" "\<not> u_isDisabled user"
    by (auto simp: loginVerify_def loginCandidate_def findByLogin_def findByEmail_def find_Some_iff split: option.splits if_splits)
qed

lemma user_by_id: "accountsOk at \<Longrightarrow> u \<in> set (ak_users at) \<Longrightarrow> userFindById at (u_id u) = Some u"
proof -
  assume ok: "accountsOk at" and u: "u \<in> set (ak_users at)"
  then obtain v where v: "userFindById at (u_id u) = Some v" by (cases "userFindById at (u_id u)") (auto simp: userFindById_def find_None_all)
  have "distinct (map u_id (ak_users at))" using ok by (simp add: accountsOk_def)
  then show ?thesis using userFind [OF v] u v by (auto simp: distinct_map dest: inj_onD)
qed

section \<open>Properties\<close>

text \<open>What a cookie is worth. Over the sessions of any history, a request with a session cookie is authenticated
  exactly when the history entitles the presented token to some session and its user exists and is not disabled, and
  then as that user in his organisation. The other credentials of the request play no part.\<close>

theorem cookie_auth_exact:
  assumes "session_init w0" "(session_step cr opts)\<^sup>*\<^sup>* w0 w" "\<And>bs. length (cr_sha256 cr bs) = 32"
    and "aw_sessions st = sw_table w" "readCookie (rh_cookie req) SESSION_COOKIE_NAME = Some raw"
  shows "fst (authMiddleware cr opts cooldownMs (sw_now w) req st) = Authenticated who \<longleftrightarrow>
    (\<exists>i u user. entitled cr opts (sw_now w) (sw_log w) raw i u \<and> userFindById (aw_accounts st) u = Some user \<and> \<not> u_isDisabled user
      \<and> id_userId who = u_id user \<and> id_orgId who = u_orgId user \<and> id_sessionId who = Some i \<and> id_isServerAdmin who = u_isAdmin user
      \<and> id_orgRole who = (case findMembership (aw_accounts st) (u_orgId user) (u_id user) of Some m \<Rightarrow> ou_role m | None \<Rightarrow> ''None'')
      \<and> id_authenticatedBy who = ''session'' \<and> id_permissions who = None \<and> id_serviceAccountId who = None)"
proof -
  note ent = session_lookup [OF assms(1-3), of raw]
  have auth: "fst (authMiddleware cr opts cooldownMs (sw_now w) req st) = Authenticated who \<longleftrightarrow>
    (\<exists>row user. lookupByToken cr opts (sw_now w) (sw_table w) raw = Some row \<and> userFindById (aw_accounts st) (tk_userId row) = Some user
      \<and> \<not> u_isDisabled user \<and> who = sessionIdentity (aw_accounts st) user row)"
    using assms(4,5) by (auto simp: authMiddleware_def split: option.splits)
  have who: "who = sessionIdentity (aw_accounts st) user row \<longleftrightarrow> id_userId who = u_id user \<and> id_orgId who = u_orgId user
      \<and> id_sessionId who = Some (tk_id row) \<and> id_isServerAdmin who = u_isAdmin user
      \<and> id_orgRole who = (case findMembership (aw_accounts st) (u_orgId user) (u_id user) of Some m \<Rightarrow> ou_role m | None \<Rightarrow> ''None'')
      \<and> id_authenticatedBy who = ''session'' \<and> id_permissions who = None \<and> id_serviceAccountId who = None" for user row
    by (cases who) (auto simp: sessionIdentity_def)
  show ?thesis unfolding auth who ent [symmetric] by blast
qed

definition exRequest1 :: auth_request where
  "exRequest1 = \<lparr>rh_cookie = Some (SESSION_COOKIE_NAME @ ''='' @ generateSessionToken [1]), rh_authorization = None, rh_apiKey = None\<rparr>"

definition exAuthState :: auth_tables_state where
  "exAuthState = \<lparr>aw_sessions = [exSession ''s'' 1], aw_accounts = exAccounts, aw_keys = exKeys\<rparr>"

theorem cookie_auth_exact_witness:
  "\<exists>who i u. fst (authMiddleware exSha exSessionOpts 60000 1 exRequest1 exAuthState) = Authenticated who
     \<and> entitled exSha exSessionOpts 1 (sw_log exOne) (exToken 1) i u \<and> id_userId who = ''u'' \<and> id_orgRole who = ''Admin''"
proof -
  let ?who = "sessionIdentity exAccounts (exUser ''u'' False) (exSession ''s'' 1)"
  have init: "session_init exStart" by (simp add: session_init_def exStart_def)
  have cookie: "readCookie (rh_cookie exRequest1) SESSION_COOKIE_NAME = Some (exToken 1)"
    using cookie_returns [of "[1]"] by (simp add: exRequest1_def exToken_def)
  have look: "lookupByToken exSha exSessionOpts 1 [exSession ''s'' 1] (exToken 1) = Some (exSession ''s'' 1)" by code_simp
  have ok: "fst (authMiddleware exSha exSessionOpts 60000 1 exRequest1 exAuthState) = Authenticated ?who"
    using cookie look ex_accounts(1,3) by (simp add: authMiddleware_def exAuthState_def exSession_def)
  have "sw_now exOne = 1" "aw_sessions exAuthState = sw_table exOne" "id_orgRole ?who = ''Admin''" "id_userId ?who = ''u''"
    using ex_accounts(2,4) by (simp_all add: exOne_def exAuthState_def sessionIdentity_def exUser_def)
  then show ?thesis using cookie_auth_exact [OF init ex_sign_ins(1) exSha_length _ cookie, of exAuthState exSessionOpts 60000 ?who] ok by auto
qed

text \<open>C14: signing in works. When the password provider lets a user in, a session is created for him and his browser sends its cookie back
  at a later time within the idle timeout and the lifetime, the request is authenticated as that user.\<close>

theorem sign_in_roundtrip:
  assumes "session_init w0" "(session_step cr opts)\<^sup>*\<^sup>* w0 w" "\<And>bs. length (cr_sha256 cr bs) = 32" "accountsOk at"
    and "fst (localLogin scrypt lim (sw_now w) at input ws) = Inr user"
    and "sessionCreate cr (sw_now w) i random (u_id user) agent ip (sw_table w) = Some ((token, row), t)"
    and "i \<notin> fst ` set (issued (sw_log w))" "freshToken cr token (sw_log w)"
    and "sw_now w \<le> now" "now - sw_now w \<le> so_idleTimeoutMs opts" "now - sw_now w \<le> so_maxLifetimeMs opts"
    and "rh_cookie req = Some (SESSION_COOKIE_NAME @ ''='' @ token)" "aw_sessions st = t" "aw_accounts st = at"
  shows "\<exists>who. fst (authMiddleware cr opts cooldownMs now req st) = Authenticated who
    \<and> id_userId who = u_id user \<and> id_orgId who = u_orgId user \<and> id_sessionId who = Some i"
proof -
  define w' where "w' = w\<lparr>sw_table := t, sw_log := SvCreated i (u_id user) token (sw_now w) # sw_log w, sw_now := now\<rparr>"
  have token: "token = generateSessionToken random" using assms(6) by (auto simp: sessionCreate_def Let_def)
  have "session_step cr opts w (w\<lparr>sw_table := t, sw_log := sw_log w'\<rparr>)" using ss_create [OF assms(7,8,6), of opts] by (simp add: w'_def)
  moreover have "session_step cr opts (w\<lparr>sw_table := t, sw_log := sw_log w'\<rparr>) w'"
    using ss_time [of "w\<lparr>sw_table := t, sw_log := sw_log w'\<rparr>" now cr opts] assms(9) by (simp add: w'_def)
  ultimately have reach: "(session_step cr opts)\<^sup>*\<^sup>* w0 w'" using assms(2) by (meson rtranclp.rtrancl_into_rtrancl)
  have cookie: "readCookie (rh_cookie req) SESSION_COOKIE_NAME = Some token" unfolding assms(12) token by (rule cookie_returns)
  have ent: "entitled cr opts now (sw_log w') token i (u_id user)"
    using assms(7,10,11) readCookie_some [OF cookie] by (auto simp: entitled_def w'_def tokens_none)
  obtain r where r: "lookupByToken cr opts now t token = Some r" "tk_id r = i" "tk_userId r = u_id user"
    using session_lookup [OF assms(1) reach assms(3), of token i "u_id user"] ent by (auto simp: w'_def)
  have "userFindById at (u_id user) = Some user" "\<not> u_isDisabled user"
    using user_by_id [OF assms(4)] login_user [OF assms(5)] by blast+
  then show ?thesis using r cookie assms(13,14) by (simp add: authMiddleware_def sessionIdentity_def)
qed

definition exSigner :: User where
  "exSigner = (exUser ''u'' False)\<lparr>u_password := hashPassword exScrypt (replicate 16 7) ''correct horse''\<rparr>"

definition exSignAccounts :: account_tables where
  "exSignAccounts = \<lparr>ak_orgs = [''o''], ak_users = [exSigner], ak_orgUsers = [exMember ''u'']\<rparr>"

definition exSignIn :: LocalLoginInput where
  "exSignIn = \<lparr>li_user = ''u'', li_password = ''correct horse'', li_ip = None\<rparr>"

lemma ex_login: "fst (localLogin exScrypt exLimits 1 exSignAccounts exSignIn []) = Inr exSigner"
proof -
  obtain stored where st: "hashPassword exScrypt (replicate 16 7) ''correct horse'' = Some stored" by (simp add: hashPassword_def exScrypt_def)
  have "length d = SCRYPT_KEYLEN" if "exScrypt p (replicate 16 7) SCRYPT_KEYLEN = Some d" for p d using that by (auto simp: exScrypt_def)
  from password_verify [OF st _ this, where attempt = "''correct horse''"] have ok: "verifyPassword exScrypt ''correct horse'' stored" by simp
  then have "stored \<noteq> []" by (auto simp: verifyPassword_def)
  then have "loginVerify exScrypt exSignAccounts exSignIn = Some exSigner"
    using st ok by (simp add: loginVerify_def loginCandidate_def findByLogin_def exSignAccounts_def exSignIn_def exSigner_def exUser_def truthy_iff)
  moreover have "loginBegin exLimits 1 exSignIn [] = (Inr (), [])" by (rule begin_fresh) (simp_all add: ex_guess(4) exSignIn_def)
  ultimately show ?thesis by (simp add: localLogin_def loginSettle_def)
qed

theorem sign_in_roundtrip_witness:
  "\<exists>who. fst (authMiddleware exSha exSessionOpts 60000 5000 exRequest1 (exAuthState\<lparr>aw_accounts := exSignAccounts\<rparr>)) = Authenticated who
     \<and> id_userId who = ''u''"
proof -
  have init: "session_init exStart" by (simp add: session_init_def exStart_def)
  have ok: "accountsOk exSignAccounts" by (simp add: accountsOk_def exSignAccounts_def exSigner_def exUser_def exMember_def)
  have login: "fst (localLogin exScrypt exLimits (sw_now exStart) exSignAccounts exSignIn []) = Inr exSigner"
    using ex_login by (simp add: exStart_def)
  have new: "sessionCreate exSha (sw_now exStart) ''s'' [1] (u_id exSigner) [] [] (sw_table exStart) = Some ((exToken 1, exSession ''s'' 1), [exSession ''s'' 1])"
    using ex_first_session by (simp add: exStart_def exSigner_def exUser_def)
  have times: "sw_now exStart \<le> 5000" "5000 - sw_now exStart \<le> so_idleTimeoutMs exSessionOpts" "5000 - sw_now exStart \<le> so_maxLifetimeMs exSessionOpts"
    by (simp_all add: exStart_def exSessionOpts_def sessionOptionsFromEnv_def envNumber_def DEFAULT_SESSION_IDLE_TIMEOUT_MS_def DEFAULT_SESSION_MAX_LIFETIME_MS_def)
  have fresh: "''s'' \<notin> fst ` set (issued (sw_log exStart))" "freshToken exSha (exToken 1) (sw_log exStart)" by (simp_all add: exStart_def freshToken_def)
  have req: "rh_cookie exRequest1 = Some (SESSION_COOKIE_NAME @ ''='' @ exToken 1)" by (simp add: exRequest1_def exToken_def)
  from sign_in_roundtrip [OF init rtranclp.rtrancl_refl exSha_length ok login new fresh times req, of "exAuthState\<lparr>aw_accounts := exSignAccounts\<rparr>" 60000]
  show ?thesis by (auto simp: exAuthState_def exSigner_def exUser_def)
qed

end
