(* ===== verification/Folder_Service.thy ===== *)
theory Folder_Service
  imports Access_Control "HOL-Library.AList"
begin

text \<open>
  The folder service (\<open>api-gateway/src/services/folder-service.ts\<close>) over the folder repository and
  the tables it reads directly: dashboards, alert rules and the legacy ACL. The database extends
  the tables of \<open>Access_Control\<close> by the rows \<open>(org_id, id, folder_uid)\<close> of the alert rules and by
  the audit log. Random suffixes, identifiers and the clock are arguments; errors are values of
  \<open>FolderServiceError\<close>. The recursion that measures a subtree overflows the stack on a cycle: it
  has fuel, one more than the number of folders, and running out of it is that overflow.

  Results: the search for descendants ends on every table and finds exactly them; deleting a folder
  removes exactly what lies in its subtree, children first, or nothing; through the service no
  folder ever lies deeper than \<open>FOLDER_MAX_DEPTH\<close>, and the measure of a subtree always returns;
  the counts of a listing are those of the single query.
\<close>

section \<open>Definitions\<close>

datatype FolderServiceError =
    TitleRequired
  | UidExists string
  | ParentMissing string
  | DepthLimit
  | RepoRefused FolderError
  | FolderMissing string
  | SelfParent
  | UnderDescendant
  | HasRules nat
  | StackOverflow

text \<open>The status codes of the errors; the overflow is no \<open>FolderServiceError\<close> and becomes a 500.\<close>

fun statusCode :: "FolderServiceError \<Rightarrow> nat" where
  "statusCode (UidExists u) = 409"
| "statusCode (FolderMissing u) = 404"
| "statusCode StackOverflow = 500"
| "statusCode e = 400"

record CreateFolderInput =
  cf_uid :: "string option"
  cf_title :: string
  cf_description :: "string option"
  cf_parentUid :: "string option"
  cf_source :: "string option"
  cf_provenance :: "string option"

record UpdateFolderPatch =
  uf_title :: "string option"
  uf_description :: "string option option"
  uf_parentUid :: "string option option"

record FolderCounts =
  fc_dashboards :: nat
  fc_subfolders :: nat
  fc_alertRules :: nat

record ListFoldersOpts =
  lf_parentUid :: "string option option"
  lf_query :: "string option"
  lf_limit :: "nat option"
  lf_offset :: "nat option"

datatype FolderAuditAction =
    FolderCreated "string option"
  | FolderUpdated "string \<times> string option" "string \<times> string option"
  | FolderDeleted "string list" bool

record FolderAudit =
  fx_action :: FolderAuditAction
  fx_actorId :: "string option"
  fx_orgId :: string
  fx_targetId :: string
  fx_targetName :: string

type_synonym resource_rows = "(string \<times> string \<times> string option) list"

record folder_db = acl_tables +
  fd_alertRules :: resource_rows
  fd_audit :: "FolderAudit list"

subsection \<open>Uids\<close>

definition slugChar :: "char \<Rightarrow> bool" where
  "slugChar c \<longleftrightarrow> CHR ''a'' \<le> c \<and> c \<le> CHR ''z'' \<or> CHR ''0'' \<le> c \<and> c \<le> CHR ''9''"

function slugRuns :: "string \<Rightarrow> string" where
  "slugRuns [] = []"
| "slugRuns (c # cs) = (if slugChar c then c # slugRuns cs else CHR ''_'' # slugRuns (dropWhile (\<lambda>d. \<not> slugChar d) cs))"
  by pat_completeness auto
termination
  by (relation "measure length") (auto simp: length_dropWhile_le less_Suc_eq_le)

definition slugStrip :: "string \<Rightarrow> string" where
  "slugStrip s = rev (dropWhile (\<lambda>c. c = CHR ''_'') (rev (dropWhile (\<lambda>c. c = CHR ''_'') s)))"

definition slugifyUid :: "string \<Rightarrow> string \<Rightarrow> string" where
  "slugifyUid random title =
     (let base = take 40 (slugStrip (slugRuns (js_lower title)))
      in if length base = 0 then ''folder_'' @ random else base)"

subsection \<open>Walks over the tree\<close>

text \<open>The loop over the children of a popped folder: the set \<open>out\<close> in insertion order, and the stack.\<close>

definition pushChildren :: "string list \<times> string list \<Rightarrow> GrafanaFolder list \<Rightarrow> string list \<times> string list" where
  "pushChildren = foldl (\<lambda>(out, stack) c. if fo_uid c \<in> set out then (out, stack) else (out @ [fo_uid c], fo_uid c # stack))"

lemma pushChildren_Nil [simp]: "pushChildren os [] = os"
  by (simp add: pushChildren_def)

lemma pushChildren_Cons [simp]:
  "pushChildren (out, stack) (c # cs) =
     pushChildren (if fo_uid c \<in> set out then (out, stack) else (out @ [fo_uid c], fo_uid c # stack)) cs"
  by (simp add: pushChildren_def)

text \<open>What one round adds: new uids of children, to the end of \<open>out\<close> and to the top of the stack.\<close>

lemma pushChildren_spec:
  "\<exists>new. pushChildren (out, stack) cs = (out @ new, rev new @ stack) \<and> set new = fo_uid ` set cs - set out \<and> distinct new"
proof (induction cs arbitrary: out stack)
  case (Cons c cs)
  show ?case
  proof (cases "fo_uid c \<in> set out")
    case True
    then show ?thesis using Cons.IH [of out stack] by auto
  next
    case False
    obtain new where "pushChildren (out @ [fo_uid c], fo_uid c # stack) cs = ((out @ [fo_uid c]) @ new, rev new @ fo_uid c # stack)"
      "set new = fo_uid ` set cs - set (out @ [fo_uid c])" "distinct new"
      using Cons.IH [of "out @ [fo_uid c]" "fo_uid c # stack"] by blast
    then show ?thesis using False by (intro exI [of _ "fo_uid c # new"]) auto
  qed
qed auto

function descend :: "folder_table \<Rightarrow> string \<Rightarrow> string list \<Rightarrow> string list \<Rightarrow> string list" where
  "descend db orgId out [] = out"
| "descend db orgId out (current # stack) =
     (case pushChildren (out, stack) (listChildren db orgId (Some current)) of (out', stack') \<Rightarrow> descend db orgId out' stack')"
  by pat_completeness auto
termination
proof (relation "measures [\<lambda>(db, orgId, out, stack). card (fo_uid ` set db - set out),
    \<lambda>(db, orgId, out, stack). length stack]", goal_cases)
  case (2 db orgId out current stack out' stack')
  obtain new where push: "pushChildren (out, stack) (listChildren db orgId (Some current)) = (out @ new, rev new @ stack)"
      and new: "set new = fo_uid ` set (listChildren db orgId (Some current)) - set out"
    using pushChildren_spec by blast
  have eq: "out' = out @ new" "stack' = rev new @ stack" using 2 push by simp_all
  show ?case
  proof (cases "new = []")
    case False
    then obtain n where "n \<in> set new" by (cases new) auto
    moreover from this have "n \<in> fo_uid ` set db - set out" using new by (auto simp: listChildren_def)
    ultimately have "fo_uid ` set db - set out' \<subset> fo_uid ` set db - set out" using eq(1) by auto
    then show ?thesis by (simp add: psubset_card_mono)
  qed (simp add: eq)
qed simp

definition listDescendantUids :: "folder_table \<Rightarrow> string \<Rightarrow> string \<Rightarrow> string list" where
  "listDescendantUids db orgId u = descend db orgId [] [u]"

definition bestOf :: "nat option list \<Rightarrow> nat option" where
  "bestOf ds = foldl (\<lambda>best d. case best of None \<Rightarrow> None | Some b \<Rightarrow> map_option (\<lambda>x. if x > b then x else b) d) (Some 0) ds"

fun measureSubtreeDepth :: "nat \<Rightarrow> folder_table \<Rightarrow> string \<Rightarrow> string \<Rightarrow> nat option" where
  "measureSubtreeDepth 0 db orgId u = None"
| "measureSubtreeDepth (Suc fuel) db orgId u =
     (let children = listChildren db orgId (Some u) in
      if length children = 0 then Some 1
      else map_option Suc (bestOf (map (\<lambda>c. measureSubtreeDepth fuel db orgId (fo_uid c)) children)))"

subsection \<open>Operations\<close>

definition inFolder :: "string \<Rightarrow> string \<Rightarrow> string \<times> string \<times> string option \<Rightarrow> bool" where
  "inFolder orgId u row \<longleftrightarrow> fst row = orgId \<and> snd (snd row) = Some u"

definition serviceParentCheck :: "folder_table \<Rightarrow> string \<Rightarrow> string option \<Rightarrow> FolderServiceError + unit" where
  "serviceParentCheck db orgId parentUid =
     (if \<not> truthy parentUid then Inr ()
      else case folderFindByUid db orgId (the parentUid) of
        None \<Rightarrow> Inl (ParentMissing (the parentUid))
      | Some _ \<Rightarrow>
          if length (listAncestors db orgId (the parentUid)) + 2 > FOLDER_MAX_DEPTH then Inl DepthLimit else Inr ())"

definition chooseUid :: "folder_table \<Rightarrow> string \<times> string \<Rightarrow> string \<Rightarrow> CreateFolderInput \<Rightarrow> FolderServiceError + string" where
  "chooseUid db random orgId inp =
     (let given = js_trim (or_default (cf_uid inp) []);
          u = (if given \<noteq> [] then given else slugifyUid (fst random) (cf_title inp))
      in if folderFindByUid db orgId u \<noteq> None
         then (if truthy (cf_uid inp) then Inl (UidExists u) else Inr (u @ ''_'' @ snd random))
         else Inr u)"

definition createPayload :: "string \<Rightarrow> string \<Rightarrow> CreateFolderInput \<Rightarrow> string \<Rightarrow> NewGrafanaFolder" where
  "createPayload orgId u inp userId =
     \<lparr>nf_id = None, nf_uid = u, nf_orgId = orgId, nf_title = js_trim (cf_title inp), nf_description = cf_description inp,
      nf_parentUid = cf_parentUid inp, nf_createdBy = Some userId, nf_updatedBy = Some userId,
      nf_source = Some (or_default (cf_source inp) ''manual''), nf_provenance = cf_provenance inp\<rparr>"

definition serviceCreate :: "folder_db \<Rightarrow> string \<times> string \<Rightarrow> string \<Rightarrow> int \<Rightarrow> string \<Rightarrow> CreateFolderInput \<Rightarrow> string
    \<Rightarrow> FolderServiceError + folder_db \<times> GrafanaFolder" where
  "serviceCreate db random genId now orgId inp userId =
     (if js_trim (cf_title inp) = [] then Inl TitleRequired
      else case chooseUid (al_folders db) random orgId inp of
        Inl e \<Rightarrow> Inl e
      | Inr u \<Rightarrow>
          (case serviceParentCheck (al_folders db) orgId (cf_parentUid inp) of
             Inl e \<Rightarrow> Inl e
           | Inr _ \<Rightarrow>
               (case folderCreate (al_folders db) genId now (createPayload orgId u inp userId) of
                  Inl e \<Rightarrow> Inl (RepoRefused e)
                | Inr (fs, folder) \<Rightarrow>
                    Inr (db\<lparr>al_folders := fs, fd_audit := fd_audit db @ [\<lparr>fx_action = FolderCreated (fo_parentUid folder),
                           fx_actorId = Some userId, fx_orgId = orgId, fx_targetId = fo_uid folder, fx_targetName = fo_title folder\<rparr>]\<rparr>,
                         folder))))"

definition serviceMoveCheck :: "folder_table \<Rightarrow> string \<Rightarrow> GrafanaFolder \<Rightarrow> UpdateFolderPatch \<Rightarrow> FolderServiceError + unit" where
  "serviceMoveCheck db orgId existing patch =
     (case uf_parentUid patch of
        None \<Rightarrow> Inr ()
      | Some p \<Rightarrow>
          if p = fo_parentUid existing then Inr ()
          else if p = Some (fo_uid existing) then Inl SelfParent
          else if \<not> truthy p then Inr ()
          else if the p \<in> set (listDescendantUids db orgId (fo_uid existing)) then Inl UnderDescendant
          else
            let ancestors = listAncestors db orgId (the p) in
            case measureSubtreeDepth (length db + 1) db orgId (fo_uid existing) of
              None \<Rightarrow> Inl StackOverflow
            | Some subtreeDepth \<Rightarrow>
                if length ancestors + 2 + subtreeDepth - 1 > FOLDER_MAX_DEPTH then Inl DepthLimit else Inr ())"

definition serviceUpdate :: "folder_db \<Rightarrow> int \<Rightarrow> string \<Rightarrow> string \<Rightarrow> UpdateFolderPatch \<Rightarrow> string
    \<Rightarrow> FolderServiceError + folder_db \<times> GrafanaFolder" where
  "serviceUpdate db now orgId u patch userId =
     (case folderFindByUid (al_folders db) orgId u of
        None \<Rightarrow> Inl (FolderMissing u)
      | Some existing \<Rightarrow>
          (case serviceMoveCheck (al_folders db) orgId existing patch of
             Inl e \<Rightarrow> Inl e
           | Inr _ \<Rightarrow>
               (case folderUpdate (al_folders db) now (fo_id existing) \<lparr>pa_title = uf_title patch, pa_description = uf_description patch,
                       pa_parentUid = uf_parentUid patch, pa_updatedBy = Some (Some userId)\<rparr> of
                  Inl e \<Rightarrow> Inl (RepoRefused e)
                | Inr (fs, None) \<Rightarrow> Inl (FolderMissing u)
                | Inr (fs, Some updated) \<Rightarrow>
                    Inr (db\<lparr>al_folders := fs, fd_audit := fd_audit db @
                          [\<lparr>fx_action = FolderUpdated (fo_title existing, fo_parentUid existing) (fo_title updated, fo_parentUid updated),
                            fx_actorId = Some userId, fx_orgId = orgId, fx_targetId = fo_uid updated, fx_targetName = fo_title updated\<rparr>]\<rparr>,
                         updated))))"

definition countAlertRulesInFolders :: "folder_db \<Rightarrow> string \<Rightarrow> string list \<Rightarrow> nat" where
  "countAlertRulesInFolders db orgId us =
     (if length us = 0 then 0 else length (filter (\<lambda>row. fst row = orgId \<and> snd (snd row) \<in> Some ` set us) (fd_alertRules db)))"

text \<open>The statements of the transaction: one round per folder, then the folder rows in reverse.\<close>

definition cascadeRow :: "string \<Rightarrow> string \<Rightarrow> folder_db \<Rightarrow> folder_db" where
  "cascadeRow orgId u db =
     (let db1 = db\<lparr>al_dashboards := filter (\<lambda>r. \<not> inFolder orgId u r) (al_dashboards db),
                  fd_alertRules := filter (\<lambda>r. \<not> inFolder orgId u r) (fd_alertRules db)\<rparr>
      in case folderFindByUid (al_folders db1) orgId u of
           None \<Rightarrow> db1
         | Some f \<Rightarrow> db1\<lparr>al_acl := filter (\<lambda>a. \<not> (da_orgId a = orgId \<and> da_folderId a = Some (fo_id f))) (al_acl db1)\<rparr>)"

definition dropFolder :: "string \<Rightarrow> string \<Rightarrow> folder_table \<Rightarrow> folder_table" where
  "dropFolder orgId u fs = filter (\<lambda>r. \<not> (fo_orgId r = orgId \<and> fo_uid r = u)) fs"

definition serviceDelete :: "folder_db \<Rightarrow> string \<Rightarrow> string \<Rightarrow> bool \<Rightarrow> string option \<Rightarrow> FolderServiceError + folder_db" where
  "serviceDelete db orgId u forceDeleteRules actorId =
     (case folderFindByUid (al_folders db) orgId u of
        None \<Rightarrow> Inl (FolderMissing u)
      | Some existing \<Rightarrow>
          let uidList = js_set (u # listDescendantUids (al_folders db) orgId u);
              ruleCount = countAlertRulesInFolders db orgId uidList in
          if ruleCount > 0 \<and> \<not> forceDeleteRules then Inl (HasRules ruleCount)
          else
            let db1 = fold (cascadeRow orgId) uidList db;
                db2 = db1\<lparr>al_folders := fold (dropFolder orgId) (rev uidList) (al_folders db1)\<rparr>
            in Inr (db2\<lparr>fd_audit := fd_audit db2 @ [\<lparr>fx_action = FolderDeleted uidList forceDeleteRules, fx_actorId = actorId,
                      fx_orgId = orgId, fx_targetId = fo_uid existing, fx_targetName = fo_title existing\<rparr>]\<rparr>))"

subsection \<open>Queries\<close>

definition getByUid :: "folder_db \<Rightarrow> string \<Rightarrow> string \<Rightarrow> GrafanaFolder option" where
  "getByUid db orgId u = folderFindByUid (al_folders db) orgId u"

definition getParents :: "folder_db \<Rightarrow> string \<Rightarrow> string \<Rightarrow> GrafanaFolder list" where
  "getParents db orgId u = rev (listAncestors (al_folders db) orgId u)"

definition getChildren :: "folder_db \<Rightarrow> string \<Rightarrow> string \<Rightarrow> FolderServiceError + GrafanaFolder list" where
  "getChildren db orgId u =
     (if getByUid db orgId u = None then Inl (FolderMissing u) else Inr (listChildren (al_folders db) orgId (Some u)))"

definition getCounts :: "folder_db \<Rightarrow> string \<Rightarrow> string \<Rightarrow> FolderServiceError + FolderCounts" where
  "getCounts db orgId u =
     (if getByUid db orgId u = None then Inl (FolderMissing u)
      else Inr \<lparr>fc_dashboards = length (filter (inFolder orgId u) (al_dashboards db)),
                fc_subfolders = length (filter (\<lambda>r. fo_orgId r = orgId \<and> fo_parentUid r = Some u) (al_folders db)),
                fc_alertRules = length (filter (inFolder orgId u) (fd_alertRules db))\<rparr>)"

text \<open>\<open>SELECT key, COUNT(*) ... WHERE key IN (us) GROUP BY key\<close>: one row per key that occurs.\<close>

definition groupCount :: "string list \<Rightarrow> string list \<Rightarrow> (string \<times> nat) list" where
  "groupCount us ks = map (\<lambda>k. (k, count_list ks k)) (js_set (filter (\<lambda>k. k \<in> set us) ks))"

definition ensureCount :: "(FolderCounts \<Rightarrow> FolderCounts) \<Rightarrow> string \<Rightarrow> (string \<times> FolderCounts) list \<Rightarrow> (string \<times> FolderCounts) list" where
  "ensureCount upd u out =
     AList.update u (upd (or_default (map_of out u) \<lparr>fc_dashboards = 0, fc_subfolders = 0, fc_alertRules = 0\<rparr>)) out"

definition getFolderCounts :: "folder_db \<Rightarrow> string \<Rightarrow> string list \<Rightarrow> (string \<times> FolderCounts) list" where
  "getFolderCounts db orgId folderUids =
     (if length folderUids = 0 then []
      else
        let keysOf = (\<lambda>rows. List.map_filter (\<lambda>(og, i, f). if og = orgId then f else None) rows);
            out1 = fold (\<lambda>(u, n). ensureCount (\<lambda>c. c\<lparr>fc_dashboards := n\<rparr>) u) (groupCount folderUids (keysOf (al_dashboards db))) [];
            out2 = fold (\<lambda>(u, n). ensureCount (\<lambda>c. c\<lparr>fc_alertRules := n\<rparr>) u) (groupCount folderUids (keysOf (fd_alertRules db))) out1;
            parents = List.map_filter (\<lambda>r. if fo_orgId r = orgId then fo_parentUid r else None) (al_folders db)
        in fold (\<lambda>(u, n). ensureCount (\<lambda>c. c\<lparr>fc_subfolders := n\<rparr>) u) (groupCount folderUids parents) out2)"

definition titleMatches :: "string \<Rightarrow> GrafanaFolder \<Rightarrow> bool" where
  "titleMatches query f \<longleftrightarrow> sublist (js_lower query) (js_lower (fo_title f))"

definition serviceList :: "folder_db \<Rightarrow> string \<Rightarrow> ListFoldersOpts \<Rightarrow> (GrafanaFolder \<times> FolderCounts) list" where
  "serviceList db orgId opts =
     (let items = fst (folderList (al_folders db) \<lparr>lo_orgId = orgId, lo_parentUid = lf_parentUid opts,
            lo_limit = Some (or_default (lf_limit opts) 200), lo_offset = Some (or_default (lf_offset opts) 0)\<rparr>);
          filtered = (if truthy (lf_query opts) then filter (titleMatches (the (lf_query opts))) items else items);
          countsByUid = getFolderCounts db orgId (map fo_uid filtered)
      in map (\<lambda>f. (f, or_default (map_of countsByUid (fo_uid f)) \<lparr>fc_dashboards = 0, fc_subfolders = 0, fc_alertRules = 0\<rparr>)) filtered)"

section \<open>Descendants\<close>

lemma children_edge:
  assumes "p \<noteq> []"
  shows "fo_uid ` set (listChildren db og (Some p)) = {c. (p, c) \<in> parentRel db og}"
  using assms by (force simp: listChildren_def parentRel_edge)

text \<open>One invariant of the search: \<open>out\<close> lists descendants of the start, parents first, and what is
  not expanded yet is on the stack.\<close>

definition parentsFirst :: "folder_table \<Rightarrow> string \<Rightarrow> string list \<Rightarrow> bool" where
  "parentsFirst db og xs \<longleftrightarrow> (\<forall>ys c zs. xs = ys @ c # zs \<longrightarrow> ys \<noteq> [] \<longrightarrow> (\<exists>p\<in>set ys. (p, c) \<in> parentRel db og))"

lemma parentsFirst_append:
  assumes "parentsFirst db og xs" "\<forall>c\<in>set new. \<exists>p\<in>set xs. (p, c) \<in> parentRel db og"
  shows "parentsFirst db og (xs @ new)"
  unfolding parentsFirst_def
proof (intro allI impI)
  fix ys c zs assume eq: "xs @ new = ys @ c # zs" and "ys \<noteq> []"
  from eq consider us where "xs = ys @ us" "us @ new = c # zs" | us where "ys = xs @ us" "new = us @ c # zs"
    by (auto simp: append_eq_append_conv2)
  then show "\<exists>p\<in>set ys. (p, c) \<in> parentRel db og"
  proof cases
    case (1 us)
    show ?thesis
    proof (cases us)
      case Nil
      then show ?thesis using 1 assms(2) by auto
    next
      case (Cons a list)
      then show ?thesis using 1 assms(1) \<open>ys \<noteq> []\<close> by (auto simp: parentsFirst_def)
    qed
  next
    case (2 us)
    then show ?thesis using assms(2) by auto
  qed
qed

lemma parentRel_uid: "folderKeys db \<Longrightarrow> (p, c) \<in> parentRel db og \<Longrightarrow> c \<noteq> []"
  by (auto simp: parentRel_edge folderKeys_def)

lemma descend_spec:
  assumes "folderKeys db" "u \<noteq> []"
    and "set stack \<subseteq> insert u (set out)" "distinct out"
    and "\<forall>p\<in>insert u (set out) - set stack. \<forall>c. (p, c) \<in> parentRel db og \<longrightarrow> c \<in> set out"
    and "\<forall>c\<in>set out. (u, c) \<in> (parentRel db og)\<^sup>+" "parentsFirst db og (u # out)"
  shows "distinct (descend db og out stack) \<and> set (descend db og out stack) = {c. (u, c) \<in> (parentRel db og)\<^sup>+}
    \<and> parentsFirst db og (u # descend db og out stack)"
  using assms
proof (induction db og out stack rule: descend.induct)
  case (1 db og out)
  have "c \<in> set out" if "(u, c) \<in> (parentRel db og)\<^sup>+" for c
    using that by (induction rule: trancl_induct) (use "1.prems"(5) in auto)
  then have "set out = {c. (u, c) \<in> (parentRel db og)\<^sup>+}" using "1.prems"(6) by blast
  then show ?case using "1.prems"(4,7) by simp
next
  case (2 db og out current stack)
  let ?R = "parentRel db og"
  obtain new where push: "pushChildren (out, stack) (listChildren db og (Some current)) = (out @ new, rev new @ stack)"
      and new: "set new = fo_uid ` set (listChildren db og (Some current)) - set out" "distinct new"
    using pushChildren_spec by blast
  have cur: "current = u \<or> (u, current) \<in> ?R\<^sup>+" "current \<noteq> []"
    using "2.prems"(2,3,6) parentRel_uid [OF "2.prems"(1)] by (force elim: tranclE)+
  then have kids: "set new = {c. (current, c) \<in> ?R} - set out" using new(1) children_edge by simp
  have desc: "\<forall>c\<in>set (out @ new). (u, c) \<in> ?R\<^sup>+"
    using cur(1) kids "2.prems"(6) by (auto intro: trancl_into_trancl)
  have first: "parentsFirst db og (u # (out @ new))"
    using parentsFirst_append [OF "2.prems"(7), of new] kids "2.prems"(3) by auto
  have closed: "\<forall>p\<in>insert u (set (out @ new)) - set (rev new @ stack). \<forall>c. (p, c) \<in> ?R \<longrightarrow> c \<in> set (out @ new)"
  proof (intro ballI allI impI)
    fix p c assume p: "p \<in> insert u (set (out @ new)) - set (rev new @ stack)" "(p, c) \<in> ?R"
    show "c \<in> set (out @ new)"
    proof (cases "p = current")
      case True
      then show ?thesis using p(2) kids by auto
    next
      case False
      have "p \<in> insert u (set out)" "p \<notin> set (current # stack)" using p(1) False by (simp_all, blast)
      then have "c \<in> set out" using "2.prems"(5) p(2) by blast
      then show ?thesis by simp
    qed
  qed
  have dist: "distinct (out @ new)" using new "2.prems"(4) by auto
  have stack: "set (rev new @ stack) \<subseteq> insert u (set (out @ new))" using "2.prems"(3) by auto
  show ?case unfolding descend.simps push prod.case
    by (rule "2.IH" [OF push [symmetric] "2.prems"(1,2) stack dist closed desc first])
qed

lemma descendants_spec:
  assumes "folderKeys db" "u \<noteq> []"
  shows "distinct (listDescendantUids db og u)" "set (listDescendantUids db og u) = {c. (u, c) \<in> (parentRel db og)\<^sup>+}"
    "parentsFirst db og (u # listDescendantUids db og u)"
  using descend_spec [OF assms, of "[u]" "[]" og] assms
  by (auto simp: listDescendantUids_def parentsFirst_def Cons_eq_append_conv)

section \<open>Deleting a folder\<close>

definition inSubtree :: "folder_table \<Rightarrow> string \<Rightarrow> string \<Rightarrow> string option \<Rightarrow> bool" where
  "inSubtree db og u f \<longleftrightarrow> (\<exists>c. f = Some c \<and> (u, c) \<in> (parentRel db og)\<^sup>*)"

lemma fold_drop: "fold (dropFolder og) us fs = filter (\<lambda>r. \<not> (fo_orgId r = og \<and> fo_uid r \<in> set us)) fs"
  by (induction us arbitrary: fs) (auto simp: dropFolder_def intro!: filter_cong)

lemma cascadeRow_eq:
  "cascadeRow og u db =
     db\<lparr>al_dashboards := filter (\<lambda>r. \<not> inFolder og u r) (al_dashboards db),
        fd_alertRules := filter (\<lambda>r. \<not> inFolder og u r) (fd_alertRules db),
        al_acl := filter (\<lambda>a. \<not> (da_orgId a = og \<and> (\<exists>f. folderFindByUid (al_folders db) og u = Some f
          \<and> da_folderId a = Some (fo_id f)))) (al_acl db)\<rparr>"
  by (cases "folderFindByUid (al_folders db) og u") (simp_all add: cascadeRow_def Let_def)

lemma fold_cascade:
  "fold (cascadeRow og) us db =
     db\<lparr>al_dashboards := filter (\<lambda>r. \<not> (\<exists>u\<in>set us. inFolder og u r)) (al_dashboards db),
        fd_alertRules := filter (\<lambda>r. \<not> (\<exists>u\<in>set us. inFolder og u r)) (fd_alertRules db),
        al_acl := filter (\<lambda>a. \<not> (da_orgId a = og \<and> (\<exists>u\<in>set us. \<exists>f. folderFindByUid (al_folders db) og u = Some f
          \<and> da_folderId a = Some (fo_id f)))) (al_acl db)\<rparr>"
  by (induction us arbitrary: db) (simp_all add: cascadeRow_eq imp_conjR cong: filter_cong)

lemma inSubtree_uids:
  assumes "folderKeys db" "u \<noteq> []"
  shows "inSubtree db og u f \<longleftrightarrow> (\<exists>c\<in>set (u # listDescendantUids db og u). f = Some c)"
  using descendants_spec(2) [OF assms] by (auto simp: inSubtree_def rtrancl_eq_or_trancl)

lemma findByUid_iff:
  assumes "folderKeys db"
  shows "folderFindByUid db og u = Some f \<longleftrightarrow> f \<in> set db \<and> fo_orgId f = og \<and> fo_uid f = u"
  using findByUid_SomeD findByUid_present keys_unique [OF assms] by (metis option.exhaust)

lemma dedup_by_distinct_id:
  "distinct (map key xs) \<Longrightarrow> key ` set xs \<inter> set seen = {} \<Longrightarrow> dedup_by key seen xs = xs"
  by (induction key seen xs rule: dedup_by.induct) auto

lemma js_set_distinct: "distinct xs \<Longrightarrow> js_set xs = xs"
  by (simp add: js_set_def dedup_by_distinct_id)

lemma delete_eq:
  assumes inv: "folderForest (al_folders db)" and f: "folderFindByUid (al_folders db) og u = Some f"
  shows "serviceDelete db og u force actor =
    (let inside = (\<lambda>row. fst row = og \<and> inSubtree (al_folders db) og u (snd (snd row))) in
     if filter inside (fd_alertRules db) \<noteq> [] \<and> \<not> force then Inl (HasRules (length (filter inside (fd_alertRules db))))
     else Inr (db\<lparr>al_folders := filter (\<lambda>r. \<not> (fo_orgId r = og \<and> inSubtree (al_folders db) og u (Some (fo_uid r)))) (al_folders db),
       al_dashboards := filter (\<lambda>row. \<not> inside row) (al_dashboards db),
       fd_alertRules := filter (\<lambda>row. \<not> inside row) (fd_alertRules db),
       al_acl := filter (\<lambda>a. \<not> (da_orgId a = og \<and> (\<exists>r\<in>set (al_folders db). fo_orgId r = og
           \<and> inSubtree (al_folders db) og u (Some (fo_uid r)) \<and> da_folderId a = Some (fo_id r)))) (al_acl db),
       fd_audit := fd_audit db @ [\<lparr>fx_action = FolderDeleted (u # listDescendantUids (al_folders db) og u) force, fx_actorId = actor,
           fx_orgId = og, fx_targetId = u, fx_targetName = fo_title f\<rparr>]\<rparr>))"
proof -
  let ?fs = "al_folders db" and ?us = "u # listDescendantUids (al_folders db) og u"
  have keys: "folderKeys ?fs" and acyc: "acyclic (parentRel ?fs og)" using inv by (auto simp: folderForest_def)
  note F = findByUid_SomeD [OF f]
  have ne: "u \<noteq> []" using keys F by (auto simp: folderKeys_def)
  note D = descendants_spec [OF keys ne, of og]
  have "distinct ?us" using D(1,2) acyc by (auto simp: acyclic_def)
  then have us: "js_set ?us = ?us" by (rule js_set_distinct)
  have sub: "inSubtree ?fs og u x \<longleftrightarrow> (\<exists>c\<in>set ?us. x = Some c)" for x by (rule inSubtree_uids [OF keys ne])
  have row: "(\<exists>c\<in>set ?us. inFolder og c r) \<longleftrightarrow> fst r = og \<and> inSubtree ?fs og u (snd (snd r))" for r
    unfolding sub by (auto simp: inFolder_def)
  have rule: "fst r = og \<and> snd (snd r) \<in> Some ` set ?us \<longleftrightarrow> fst r = og \<and> inSubtree ?fs og u (snd (snd r))" for r
    unfolding sub by auto
  have acl: "(\<exists>c\<in>set ?us. \<exists>g. folderFindByUid ?fs og c = Some g \<and> x = Some (fo_id g))
      \<longleftrightarrow> (\<exists>r\<in>set ?fs. fo_orgId r = og \<and> inSubtree ?fs og u (Some (fo_uid r)) \<and> x = Some (fo_id r))" for x
    unfolding sub findByUid_iff [OF keys] by auto
  have fold: "fo_uid r \<in> set ?us \<longleftrightarrow> inSubtree ?fs og u (Some (fo_uid r))" for r unfolding sub by simp
  show ?thesis
    unfolding serviceDelete_def f option.case Let_def us fold_cascade fold_drop set_rev fold row acl countAlertRulesInFolders_def rule
    by (simp add: F)
qed

text \<open>Children first: the rows go one by one, each when it has no child left.\<close>

lemma drop_leaf_step:
  assumes inv: "folderForest fs" and r: "r \<in> set fs" "fo_orgId r = og" "fo_uid r = x"
    and leaf: "\<forall>c\<in>set fs. fo_orgId c = og \<longrightarrow> fo_parentUid c \<noteq> Some x"
  shows "folder_step fs (dropFolder og x fs)"
proof -
  have keys: "folderKeys fs" using inv by (simp add: folderForest_def)
  have "fo_id y = fo_id r \<longleftrightarrow> fo_orgId y = og \<and> fo_uid y = x" if "y \<in> set fs" for y
    using keys_unique [OF keys that r(1)] keys_unique_id [OF keys that r(1)] r(2,3) by auto
  then have "filter (\<lambda>y. fo_id y \<noteq> fo_id r) fs = dropFolder og x fs" by (auto simp: dropFolder_def intro!: filter_cong)
  moreover have "folderFindById fs (fo_id r) \<noteq> None" using r(1) by (auto simp: folderFindById_def find_None_all)
  moreover have "listChildren fs (fo_orgId r) (Some (fo_uid r)) = []"
    using leaf r(2,3) by (auto simp: listChildren_def filter_empty_conv)
  ultimately show ?thesis using step_delete [OF r(1)] by (auto simp: folderDelete_def split: option.splits)
qed

lemma later_child:
  assumes keys: "folderKeys fs" and acyc: "acyclic (parentRel fs og)"
    and xs: "parentsFirst fs og (u # ds)" "set ds = {c. (u, c) \<in> (parentRel fs og)\<^sup>+}" "distinct (u # ds)"
    and split: "u # ds = us @ x # zs" and c: "(x, c) \<in> parentRel fs og"
  shows "c \<in> set zs"
proof -
  let ?R = "parentRel fs og"
  have x: "x = u \<or> (u, x) \<in> ?R\<^sup>+" using arg_cong [OF split, of set] xs(2) by auto
  then have "(u, c) \<in> ?R\<^sup>+" using c by (auto intro: trancl_into_trancl)
  then have "c \<in> set (u # ds)" using xs(2) by simp
  then obtain ys ws where cs: "u # ds = ys @ c # ws" by (meson split_list)
  have "c \<noteq> u" using \<open>(u, c) \<in> ?R\<^sup>+\<close> acyc by (auto simp: acyclic_def)
  then have "ys \<noteq> []" using cs by (cases ys) auto
  then obtain p where p: "p \<in> set ys" "(p, c) \<in> ?R" using xs(1) cs by (auto simp: parentsFirst_def)
  have "p = x" using p(2) c keys_unique [OF keys] by (fastforce simp: parentRel_edge)
  then obtain as bs where ys: "ys = as @ x # bs" using p(1) by (meson split_list)
  have "as @ x # (bs @ c # ws) = us @ x # zs" using cs ys split by simp
  moreover have "x \<notin> set as" "x \<notin> set (bs @ c # ws)" using xs(3) unfolding cs ys by auto
  ultimately have "bs @ c # ws = zs" using append_Cons_eq_iff [of x as "bs @ c # ws" us zs] by blast
  then show ?thesis by auto
qed

lemma drops_steps:
  assumes inv: "folderForest fs" and xs: "parentsFirst fs og (u # ds)" "set ds = {c. (u, c) \<in> (parentRel fs og)\<^sup>+}"
      "distinct (u # ds)" and ne: "u \<noteq> []" and u: "folderFindByUid fs og u \<noteq> None"
  shows "us @ zs = u # ds \<Longrightarrow> F = filter (\<lambda>r. \<not> (fo_orgId r = og \<and> fo_uid r \<in> set zs)) fs \<Longrightarrow> folder_step\<^sup>*\<^sup>* fs F
    \<Longrightarrow> folder_step\<^sup>*\<^sup>* F (fold (dropFolder og) (rev us) F)"
proof (induction us arbitrary: zs F rule: rev_induct)
  case (snoc x us)
  have keys: "folderKeys fs" and acyc: "acyclic (parentRel fs og)" using inv by (auto simp: folderForest_def)
  have split: "u # ds = us @ x # zs" using snoc.prems(1) by simp
  have "(u, x) \<in> (parentRel fs og)\<^sup>+ \<or> x = u" using arg_cong [OF split, of set] xs(2) by auto
  then have x: "folderFindByUid fs og x \<noteq> None" "x \<noteq> []"
    using u ne trancl_target_is_row parentRel_uid [OF keys] by (blast, blast elim: tranclE)
  then obtain r where "folderFindByUid fs og x = Some r" by blast
  from findByUid_SomeD [OF this] have r: "r \<in> set fs" "fo_orgId r = og" "fo_uid r = x" by auto
  have "x \<notin> set zs" using xs(3) split by auto
  then have rF: "r \<in> set F" using r snoc.prems(2) by simp
  have "fo_parentUid c \<noteq> Some x" if "c \<in> set F" "fo_orgId c = og" for c
  proof
    assume "fo_parentUid c = Some x"
    then have "(x, fo_uid c) \<in> parentRel fs og" using that snoc.prems(2) x(2) by (auto simp: parentRel_edge)
    from later_child [OF keys acyc xs split this] show False using that snoc.prems(2) by auto
  qed
  moreover have "folderForest F" by (rule folders.steps_inv [OF snoc.prems(3) inv])
  ultimately have step: "folder_step F (dropFolder og x F)" using drop_leaf_step [OF _ rF r(2,3)] by blast
  have "dropFolder og x F = filter (\<lambda>r. \<not> (fo_orgId r = og \<and> fo_uid r \<in> set (x # zs))) fs"
    using snoc.prems(2) by (auto simp: dropFolder_def intro!: filter_cong)
  then have "folder_step\<^sup>*\<^sup>* (dropFolder og x F) (fold (dropFolder og) (rev us) (dropFolder og x F))"
    using snoc.IH [of "x # zs" "dropFolder og x F"] split snoc.prems(3) step by (auto intro: rtranclp.rtrancl_into_rtrancl)
  then show ?case using step by (simp add: converse_rtranclp_into_rtranclp)
qed simp

lemma delete_steps:
  assumes inv: "folderForest (al_folders db)" and del: "serviceDelete db og u force actor = Inr db'"
  shows "folder_step\<^sup>*\<^sup>* (al_folders db) (al_folders db')"
proof -
  let ?fs = "al_folders db" and ?us = "u # listDescendantUids (al_folders db) og u"
  obtain f where f: "folderFindByUid ?fs og u = Some f" using del by (auto simp: serviceDelete_def split: option.splits)
  have keys: "folderKeys ?fs" and acyc: "acyclic (parentRel ?fs og)" using inv by (auto simp: folderForest_def)
  have ne: "u \<noteq> []" using keys findByUid_SomeD [OF f] by (auto simp: folderKeys_def)
  note D = descendants_spec [OF keys ne, of og]
  have dist: "distinct ?us" using D(1,2) acyc by (auto simp: acyclic_def)
  have "al_folders db' = fold (dropFolder og) (rev ?us) ?fs"
    using del unfolding serviceDelete_def f Let_def js_set_distinct [OF dist] fold_cascade by (auto split: if_splits)
  moreover have "folder_step\<^sup>*\<^sup>* ?fs (fold (dropFolder og) (rev ?us) ?fs)"
    by (rule drops_steps [OF inv D(3,2) dist ne, of "?us" "[]"]) (simp_all add: f)
  ultimately show ?thesis by simp
qed

section \<open>Depth\<close>

text \<open>No chain of parents has more than \<open>FOLDER_MAX_DEPTH\<close> folders.\<close>

definition folderLevels :: "folder_table \<Rightarrow> bool" where
  "folderLevels db \<longleftrightarrow> (\<forall>og n a c. (a, c) \<in> parentRel db og ^^ n \<longrightarrow> n < FOLDER_MAX_DEPTH)"

lemma levelsD: "folderLevels db \<Longrightarrow> (a, c) \<in> parentRel db og ^^ n \<Longrightarrow> n < FOLDER_MAX_DEPTH"
  unfolding folderLevels_def by blast

lemma ancestor_loop_relpow:
  "cur \<in> set db \<Longrightarrow> fo_orgId cur = og \<Longrightarrow>
     \<exists>a. (a, fo_uid cur) \<in> parentRel db og ^^ length (ancestor_loop n db og cur)"
proof (induction n db og cur rule: ancestor_loop.induct)
  case (2 i db og cur)
  show ?case
  proof (cases "truthy (fo_parentUid cur) \<and> folderFindByUid db og (the (fo_parentUid cur)) \<noteq> None")
    case True
    then obtain p nxt where p: "fo_parentUid cur = Some p" "p \<noteq> []" "folderFindByUid db og p = Some nxt"
      by (auto simp: truthy_iff)
    note N = findByUid_SomeD [OF p(3)]
    have "(fo_uid nxt, fo_uid cur) \<in> parentRel db og" using "2.prems" p N by (auto simp: parentRel_edge)
    moreover obtain a where "(a, fo_uid nxt) \<in> parentRel db og ^^ length (ancestor_loop i db og nxt)"
      using "2.IH" [of nxt] p N by auto
    ultimately have "(a, fo_uid cur) \<in> parentRel db og ^^ Suc (length (ancestor_loop i db og nxt))" by auto
    then show ?thesis using p by auto
  qed auto
qed auto

lemma relpow_ancestor_loop:
  assumes keys: "folderKeys db" and closed: "folderClosed db"
  shows "cur \<in> set db \<Longrightarrow> fo_orgId cur = og \<Longrightarrow> (a, fo_uid cur) \<in> parentRel db og ^^ i \<Longrightarrow>
    i \<le> length (ancestor_loop n db og cur) \<or> n \<le> length (ancestor_loop n db og cur)"
proof (induction n arbitrary: cur i)
  case (Suc n)
  show ?case
  proof (cases i)
    case (Suc j)
    then obtain q where q: "(a, q) \<in> parentRel db og ^^ j" "(q, fo_uid cur) \<in> parentRel db og" using Suc.prems(3) by auto
    then have p: "fo_parentUid cur = Some q" "q \<noteq> []" using parentRel_row [OF keys Suc.prems(1,2)] by auto
    then obtain nxt where nxt: "folderFindByUid db og q = Some nxt"
      using closed Suc.prems(1,2) by (force simp: folderClosed_def)
    then show ?thesis using Suc.IH [of nxt j] findByUid_SomeD [OF nxt] p q(1) Suc by auto
  qed simp
qed simp

lemma bestOf_acc:
  "foldl (\<lambda>best d. case best of None \<Rightarrow> None | Some b \<Rightarrow> map_option (\<lambda>x. if x > b then x else b) d) (best :: nat option) ds =
     (if best = None \<or> None \<in> set ds then None else Some (fold max (map the ds) (the best)))"
  by (induction ds arbitrary: best) (auto simp: max_def split: option.splits)

lemma bestOf_eq: "bestOf ds = (if None \<in> set ds then None else Some (fold max (map the ds) 0))"
  by (simp add: bestOf_def bestOf_acc)

lemma fold_max_upper: "(x::nat) \<in> set xs \<Longrightarrow> x \<le> fold max xs b"
  using Max.set_eq_fold [of b xs] by (metis List.finite_set Max_ge list.set_intros(2))

text \<open>A measure that returns bounds every path down; one that runs out of fuel has met a long path.\<close>

lemma measure_upper:
  "measureSubtreeDepth n db og u = Some d \<Longrightarrow> u \<noteq> [] \<Longrightarrow> folderKeys db \<Longrightarrow> (u, c) \<in> parentRel db og ^^ j \<Longrightarrow> j < d"
proof (induction n arbitrary: u d j)
  case (Suc n)
  let ?ch = "listChildren db og (Some u)"
  let ?ds = "map (\<lambda>c. measureSubtreeDepth n db og (fo_uid c)) ?ch"
  show ?case
  proof (cases j)
    case 0
    then show ?thesis using Suc.prems(1) by (auto simp: Let_def split: if_splits)
  next
    case (Suc k)
    then obtain v where v: "(u, v) \<in> parentRel db og" "(v, c) \<in> parentRel db og ^^ k"
      using relpow_Suc_D2 Suc.prems(4) by metis
    then have "v \<in> fo_uid ` set ?ch" using children_edge [OF Suc.prems(2)] by blast
    then obtain y where y: "y \<in> set ?ch" "fo_uid y = v" by auto
    then have "?ch \<noteq> []" by auto
    then have d: "None \<notin> set ?ds" "d = Suc (fold max (map the ?ds) 0)"
      using Suc.prems(1) by (auto simp: Let_def bestOf_eq split: if_splits)
    have ds: "measureSubtreeDepth n db og v \<in> set ?ds" using y by auto
    then have "measureSubtreeDepth n db og v \<noteq> None" using d(1) by metis
    then obtain e where e: "measureSubtreeDepth n db og v = Some e" by blast
    have mem: "e \<in> set (map the ?ds)" using imageI [OF ds, of the] e by (simp add: image_image)
    have "k < e" using Suc.IH [OF e _ Suc.prems(3) v(2)] parentRel_uid [OF Suc.prems(3) v(1)] by simp
    moreover have "e \<le> fold max (map the ?ds) 0" by (rule fold_max_upper [OF mem])
    ultimately show ?thesis using d(2) Suc by simp
  qed
qed simp

lemma measure_fuel:
  "measureSubtreeDepth n db og u = None \<Longrightarrow> u \<noteq> [] \<Longrightarrow> folderKeys db \<Longrightarrow> \<exists>c. (u, c) \<in> parentRel db og ^^ n"
proof (induction n arbitrary: u)
  case (Suc n)
  then obtain y where y: "y \<in> set (listChildren db og (Some u))" "measureSubtreeDepth n db og (fo_uid y) = None"
    by (auto simp: Let_def bestOf_eq split: if_splits)
  then have "(u, fo_uid y) \<in> parentRel db og" using children_edge [OF Suc.prems(2)] by blast
  moreover from this obtain c where "(fo_uid y, c) \<in> parentRel db og ^^ n"
    using Suc.IH [OF y(2)] Suc.prems(3) parentRel_uid by blast
  ultimately show ?case using relpow_Suc_I2 by metis
qed auto

text \<open>In an acyclic table a path is no longer than there are folders, so the fuel is enough.\<close>

lemma relpow_card:
  assumes "finite (R\<^sup>+)" "acyclic R"
  shows "(u, c) \<in> R ^^ n \<Longrightarrow> n \<le> card (R\<^sup>+ `` {u})"
proof (induction n arbitrary: u)
  case (Suc n)
  then obtain v where v: "(u, v) \<in> R" "(v, c) \<in> R ^^ n" using relpow_Suc_D2 by metis
  have "R\<^sup>+ `` {v} \<subseteq> R\<^sup>+ `` {u}" using v(1) by (blast intro: trancl_into_trancl2)
  moreover have "v \<in> R\<^sup>+ `` {u}" "v \<notin> R\<^sup>+ `` {v}" using v(1) assms(2) by (auto simp: acyclic_def)
  ultimately have "R\<^sup>+ `` {v} \<subset> R\<^sup>+ `` {u}" by blast
  moreover have "finite (R\<^sup>+ `` {u})" using assms(1) by (rule finite_Image)
  ultimately have "card (R\<^sup>+ `` {v}) < card (R\<^sup>+ `` {u})" by (simp add: psubset_card_mono)
  then show ?case using Suc.IH [OF v(2)] by simp
qed simp

lemma measure_returns:
  assumes inv: "folderForest db" and "u \<noteq> []"
  shows "\<exists>d. measureSubtreeDepth (length db + 1) db og u = Some d"
proof (rule ccontr)
  assume "\<not> ?thesis"
  then have "measureSubtreeDepth (length db + 1) db og u = None" by simp
  moreover have keys: "folderKeys db" and acyc: "acyclic (parentRel db og)" using inv by (auto simp: folderForest_def)
  ultimately obtain c where c: "(u, c) \<in> parentRel db og ^^ (length db + 1)" using measure_fuel assms(2) by blast
  have "parentRel db og \<subseteq> (\<lambda>r. (the (fo_parentUid r), fo_uid r)) ` set db" 
    unfolding parentRel_def by (auto intro!: image_eqI)
  then have "finite (parentRel db og)" by (rule finite_subset) simp
  then have fin: "finite ((parentRel db og)\<^sup>+)" by simp
  have "(parentRel db og)\<^sup>+ `` {u} \<subseteq> fo_uid ` set db"
    by (auto dest!: trancl_target_is_row findByUid_SomeD)
  then have "card ((parentRel db og)\<^sup>+ `` {u}) \<le> length db"
    by (meson List.finite_set card_image_le card_length card_mono finite_imageI order_trans)
  then show False using relpow_card [OF fin acyc c] by simp
qed

text \<open>A path over one new edge that closes no cycle uses it at most once.\<close>

lemma relpow_insert_edge:
  assumes "(m, p) \<notin> R\<^sup>*"
  shows "(a, c) \<in> insert (p, m) R ^^ n \<Longrightarrow> (a, c) \<in> R ^^ n \<or> (\<exists>i j. n = i + 1 + j \<and> (a, p) \<in> R ^^ i \<and> (m, c) \<in> R ^^ j)"
proof (induction n arbitrary: c)
  case (Suc n)
  then obtain b where b: "(a, b) \<in> insert (p, m) R ^^ n" "(b, c) \<in> insert (p, m) R" by auto
  from Suc.IH [OF b(1)] show ?case
  proof
    assume *: "(a, b) \<in> R ^^ n"
    show ?thesis
    proof (cases "(b, c) \<in> R")
      case False
      then show ?thesis using b(2) * by (intro disjI2 exI [of _ n] exI [of _ 0]) auto
    qed (use * in auto)
  next
    assume "\<exists>i j. n = i + 1 + j \<and> (a, p) \<in> R ^^ i \<and> (m, b) \<in> R ^^ j"
    then obtain i j where ij: "n = i + 1 + j" "(a, p) \<in> R ^^ i" "(m, b) \<in> R ^^ j" by blast
    have "b \<noteq> p" using ij(3) assms relpow_imp_rtrancl by blast
    then have "(b, c) \<in> R" using b(2) by simp
    then have "(m, c) \<in> R ^^ Suc j" using ij(3) by auto
    then show ?thesis using ij(1,2) by (intro disjI2 exI [of _ i] exI [of _ "Suc j"]) auto
  qed
qed simp

lemma relpow_subset: "(a, c) \<in> (R :: ('a \<times> 'a) set) ^^ n \<Longrightarrow> R \<subseteq> S \<Longrightarrow> (a, c) \<in> S ^^ n"
  by (induction n arbitrary: c) auto

lemma levels_insert_edge:
  assumes lev: "folderLevels db" and edge: "parentRel db' og \<subseteq> insert (p, m) (parentRel db og)" "(m, p) \<notin> (parentRel db og)\<^sup>*"
    and up: "\<And>a i. (a, p) \<in> parentRel db og ^^ i \<Longrightarrow> i \<le> A" and down: "\<And>c j. (m, c) \<in> parentRel db og ^^ j \<Longrightarrow> j < d"
    and fit: "A + 2 + d - 1 \<le> FOLDER_MAX_DEPTH" and path: "(a, c) \<in> parentRel db' og ^^ n"
  shows "n < FOLDER_MAX_DEPTH"
proof -
  have "(a, c) \<in> insert (p, m) (parentRel db og) ^^ n" using path edge(1) by (rule relpow_subset)
  from relpow_insert_edge [OF edge(2) this] show ?thesis
    using lev up down fit by (fastforce simp: folderLevels_def)
qed

lemma ancestors_upper:
  assumes inv: "folderForest db" and p: "folderFindByUid db og p = Some parent"
    and short: "length (listAncestors db og p) \<le> FOLDER_MAX_DEPTH" and path: "(a, p) \<in> parentRel db og ^^ i"
  shows "i \<le> length (listAncestors db og p)"
  using relpow_ancestor_loop [of db parent og a i "FOLDER_MAX_DEPTH + 1"] inv findByUid_SomeD [OF p] short path
  by (auto simp: folderForest_def listAncestors_def p)

lemma levels_create:
  assumes inv: "folderForest db" "folderLevels db" and cr: "folderCreate db g now inp = Inr (db', row)"
    and fit: "serviceParentCheck db (nf_orgId inp) (nf_parentUid inp) = Inr ()" and uid: "nf_uid inp \<noteq> []"
  shows "folderLevels db'"
  unfolding folderLevels_def
proof (intro allI impI)
  fix og n a c assume path: "(a, c) \<in> parentRel db' og ^^ n"
  let ?row = "folderRow g now inp"
  note I = folderInsert_SomeD [OF conjunct1 [OF folderCreate_InrD [OF cr]]]
  have rel: "parentRel db' og = {(p, x). og = nf_orgId inp \<and> x = nf_uid inp \<and> nf_parentUid inp = Some p \<and> p \<noteq> []} \<union> parentRel db og"
    using I by (auto simp: parentRel_def)
  show "n < FOLDER_MAX_DEPTH"
  proof (cases "og = nf_orgId inp \<and> truthy (nf_parentUid inp)")
    case False
    then have "parentRel db' og = parentRel db og" using rel by (auto simp: truthy_iff)
    then show ?thesis using path levelsD [OF inv(2)] by simp
  next
    case True
    then obtain p where p: "nf_parentUid inp = Some p" "p \<noteq> []" "og = nf_orgId inp" by (auto simp: truthy_iff)
    obtain parent where parent: "folderFindByUid db og p = Some parent"
      and len: "length (listAncestors db og p) + 2 \<le> FOLDER_MAX_DEPTH"
      using fit p by (auto simp: serviceParentCheck_def split: option.splits if_splits)
    have none: "(nf_uid inp, x) \<notin> parentRel db og" for x
      using inv(1) I p(3) uid by (force simp: folderForest_def folderClosed_def parentRel_edge)
    have "nf_uid inp \<noteq> p" using I parent p(3) by auto
    then have new: "(nf_uid inp, p) \<notin> (parentRel db og)\<^sup>*" using none by (auto elim: converse_rtranclE)
    have down: "j < 1" if "(nf_uid inp, x) \<in> parentRel db og ^^ j" for x j
    proof (cases j)
      case (Suc k)
      then show ?thesis using that none relpow_Suc_D2 by metis
    qed simp
    show ?thesis
      by (rule levels_insert_edge [OF inv(2) _ new ancestors_upper [OF inv(1) parent] down _ path])
        (use rel p len in auto)
  qed
qed

lemma levels_update:
  assumes inv: "folderForest db" "folderLevels db" and ex: "folderFindById db i = Some ex" "ex \<in> set db"
    and upd: "folderUpdate db now i pt = Inr (db', res)"
    and chk: "serviceMoveCheck db (fo_orgId ex) ex patch = Inr ()" and same: "pa_parentUid pt = uf_parentUid patch"
  shows "folderLevels db'"
  unfolding folderLevels_def
proof (intro allI impI)
  fix og n a c assume path: "(a, c) \<in> parentRel db' og ^^ n"
  let ?new = "folderPatched now pt ex" and ?p' = "or_default (uf_parentUid patch) (fo_parentUid ex)"
  have keys: "folderKeys db" using inv(1) by (simp add: folderForest_def)
  have "db' = replaceRow db i ?new"
    using upd ex(1) by (auto simp: folderUpdate_def replaceRow_def Let_def split: sum.splits)
  then have rows: "set db' = insert ?new (set db - {ex})"
    using replaceRow_keys [OF keys, of ex i ?new] findById_SomeD [OF ex(1)] by simp
  then have sub: "parentRel db' og \<subseteq> {(p, x). og = fo_orgId ex \<and> x = fo_uid ex \<and> ?p' = Some p \<and> p \<noteq> []} \<union> parentRel db og"
    by (auto simp: parentRel_def same)
  show "n < FOLDER_MAX_DEPTH"
  proof (cases "og = fo_orgId ex \<and> truthy ?p' \<and> ?p' \<noteq> fo_parentUid ex")
    case False
    then have "parentRel db' og \<subseteq> parentRel db og" using sub ex(2) by (fastforce simp: truthy_iff parentRel_edge)
    then show ?thesis using relpow_subset [OF path] levelsD [OF inv(2)] by blast
  next
    case True
    then obtain p where p: "uf_parentUid patch = Some (Some p)" "p \<noteq> []" "og = fo_orgId ex" "Some p \<noteq> fo_parentUid ex"
      by (cases "uf_parentUid patch") (auto simp: truthy_iff)
    have ne: "fo_uid ex \<noteq> []" using keys ex(2) by (auto simp: folderKeys_def)
    obtain d where d: "p \<noteq> fo_uid ex" "p \<notin> set (listDescendantUids db og (fo_uid ex))"
        "measureSubtreeDepth (length db + 1) db og (fo_uid ex) = Some d"
        "length (listAncestors db og p) + 2 + d - 1 \<le> FOLDER_MAX_DEPTH"
      using chk p by (auto simp: serviceMoveCheck_def Let_def split: option.splits if_splits)
    have cyc: "(fo_uid ex, p) \<notin> (parentRel db og)\<^sup>*"
      using d(1,2) descendants_spec(2) [OF keys ne] by (auto simp: rtrancl_eq_or_trancl)
    note down = measure_upper [OF d(3) ne keys]
    have "0 < d" using down [of "fo_uid ex" 0] by simp
    then have short: "length (listAncestors db og p) \<le> FOLDER_MAX_DEPTH" using d(4) by simp
    have "assertParentAndDepth db og p (Some (fo_uid ex)) = Inr ()"
      using upd ex(1) p by (auto simp: folderUpdate_def same split: sum.splits)
    then obtain parent where parent: "folderFindByUid db og p = Some parent" using assert_parent_exists by blast
    show ?thesis
      by (rule levels_insert_edge [OF inv(2) _ cyc ancestors_upper [OF inv(1) parent short] down d(4) path])
        (use sub p in auto)
  qed
qed

section \<open>The service as a system\<close>

lemma slugRuns_chars: "c \<in> set (slugRuns s) \<Longrightarrow> slugChar c \<or> c = CHR ''_''"
  by (induction s rule: slugRuns.induct) (auto split: if_splits)

lemma slugify_shape:
  "slugifyUid random title = ''folder_'' @ random
   \<or> (0 < length (slugifyUid random title) \<and> length (slugifyUid random title) \<le> 40
      \<and> (\<forall>c\<in>set (slugifyUid random title). slugChar c \<or> c = CHR ''_''))"
  unfolding slugifyUid_def Let_def slugStrip_def
  by (auto dest!: in_set_takeD set_dropWhileD slugRuns_chars)

lemma chooseUid_nonempty: "chooseUid db random og inp = Inr u \<Longrightarrow> u \<noteq> []"
  using slugify_shape [of "fst random" "cf_title inp"]
  by (auto simp: chooseUid_def Let_def split: if_splits)

text \<open>The changes of the database: the operations of the service, and whatever the other services do
  to dashboards, rules, grants and the log.\<close>

inductive folder_service_step :: "folder_db \<Rightarrow> folder_db \<Rightarrow> bool" where
  svc_create: "serviceCreate db random genId now og inp userId = Inr (db', f) \<Longrightarrow> folder_service_step db db'"
| svc_update: "serviceUpdate db now og u patch userId = Inr (db', f) \<Longrightarrow> folder_service_step db db'"
| svc_delete: "serviceDelete db og u force actor = Inr db' \<Longrightarrow> folder_service_step db db'"
| svc_other: "al_folders db' = al_folders db \<Longrightarrow> folder_service_step db db'"

definition folderSafe :: "folder_db \<Rightarrow> bool" where
  "folderSafe db \<longleftrightarrow> folderForest (al_folders db) \<and> folderLevels (al_folders db)"

lemma serviceCreate_InrD:
  assumes "serviceCreate db random genId now og inp userId = Inr (db', f)"
  shows "\<exists>u. u \<noteq> [] \<and> serviceParentCheck (al_folders db) og (cf_parentUid inp) = Inr ()
    \<and> folderCreate (al_folders db) genId now (createPayload og u inp userId) = Inr (al_folders db', f)"
proof -
  obtain u fs where "chooseUid (al_folders db) random og inp = Inr u"
      "serviceParentCheck (al_folders db) og (cf_parentUid inp) = Inr ()"
      "folderCreate (al_folders db) genId now (createPayload og u inp userId) = Inr (fs, f)" "al_folders db' = fs"
    using assms by (auto simp: serviceCreate_def split: if_splits sum.splits)
  then show ?thesis using chooseUid_nonempty by blast
qed

lemma serviceUpdate_InrD:
  assumes "serviceUpdate db now og u patch userId = Inr (db', f)"
  shows "\<exists>ex pt. folderFindByUid (al_folders db) og u = Some ex \<and> serviceMoveCheck (al_folders db) og ex patch = Inr ()
    \<and> pa_parentUid pt = uf_parentUid patch \<and> folderUpdate (al_folders db) now (fo_id ex) pt = Inr (al_folders db', Some f)"
  using assms by (force simp: serviceUpdate_def split: option.splits sum.splits)

lemma find_id_of_row:
  assumes "folderKeys db" "r \<in> set db"
  shows "folderFindById db (fo_id r) = Some r"
proof -
  have "folderFindById db (fo_id r) \<noteq> None" using assms(2) by (auto simp: folderFindById_def find_None_all)
  then show ?thesis using findById_SomeD keys_unique_id [OF assms(1) _ assms(2)] by blast
qed

text \<open>Every change of the service is a sequence of the changes the repository is safe under.\<close>

lemma service_refines:
  assumes "folder_service_step db db'" "folderForest (al_folders db)"
  shows "folder_step\<^sup>*\<^sup>* (al_folders db) (al_folders db')"
  using assms
proof cases
  case (svc_create random genId now og inp userId f)
  then obtain u where u: "u \<noteq> []" "folderCreate (al_folders db) genId now (createPayload og u inp userId) = Inr (al_folders db', f)"
    using serviceCreate_InrD by blast
  have "nf_uid (createPayload og u inp userId) \<noteq> []" using u(1) by (simp add: createPayload_def)
  then have "folder_step (al_folders db) (al_folders db')" by (rule step_create [OF u(2)])
  then show ?thesis by simp
next
  case (svc_update now og u patch userId f)
  then have "folder_step (al_folders db) (al_folders db')" using serviceUpdate_InrD step_update by blast
  then show ?thesis by simp
next
  case (svc_delete og u force actor)
  then show ?thesis using delete_steps assms(2) by blast
qed simp

lemma service_levels:
  assumes "folder_service_step db db'" "folderForest (al_folders db)" "folderLevels (al_folders db)"
  shows "folderLevels (al_folders db')"
  using assms(1)
proof cases
  case (svc_create random genId now og inp userId f)
  then obtain u where "u \<noteq> []" "serviceParentCheck (al_folders db) og (cf_parentUid inp) = Inr ()"
      "folderCreate (al_folders db) genId now (createPayload og u inp userId) = Inr (al_folders db', f)"
    using serviceCreate_InrD by blast
  then show ?thesis using levels_create [OF assms(2,3)] by (simp add: createPayload_def)
next
  case (svc_update now og u patch userId f)
  then obtain ex pt where ex: "folderFindByUid (al_folders db) og u = Some ex"
      "serviceMoveCheck (al_folders db) og ex patch = Inr ()" "pa_parentUid pt = uf_parentUid patch"
      "folderUpdate (al_folders db) now (fo_id ex) pt = Inr (al_folders db', Some f)"
    using serviceUpdate_InrD by blast
  have row: "ex \<in> set (al_folders db)" "fo_orgId ex = og" using findByUid_SomeD [OF ex(1)] by auto
  have "folderFindById (al_folders db) (fo_id ex) = Some ex"
    using find_id_of_row [OF _ row(1)] assms(2) by (simp add: folderForest_def)
  then show ?thesis using levels_update [OF assms(2,3) _ row(1) ex(4) _ ex(3)] ex(2) row(2) by simp
next
  case (svc_delete og u force actor)
  then obtain f where f: "folderFindByUid (al_folders db) og u = Some f" by (auto simp: serviceDelete_def split: option.splits)
  have "al_folders db' = filter (\<lambda>r. \<not> (fo_orgId r = og \<and> inSubtree (al_folders db) og u (Some (fo_uid r)))) (al_folders db)"
    using svc_delete delete_eq [OF assms(2) f] by (auto simp: Let_def split: if_splits)
  then have "parentRel (al_folders db') og' \<subseteq> parentRel (al_folders db) og'" for og' by (auto simp: parentRel_def)
  then show ?thesis unfolding folderLevels_def by (meson relpow_subset levelsD [OF assms(3)])
next
  case svc_other
  then show ?thesis using assms(3) by simp
qed

interpretation folderService: step_system "\<lambda>db. al_folders db = []" folder_service_step folderSafe
proof unfold_locales
  fix db db' assume "folderSafe db" "folder_service_step db db'"
  then show "folderSafe db'"
    using folders.steps_inv service_refines service_levels unfolding folderSafe_def by blast
next
  fix db :: folder_db assume "al_folders db = []"
  moreover have "n < FOLDER_MAX_DEPTH" if "(a, c) \<in> parentRel [] og ^^ n" for a c og n
    using that by (cases n) (auto simp: parentRel_def FOLDER_MAX_DEPTH_def)
  ultimately show "folderSafe db" using folders.init_inv [OF refl] by (auto simp: folderSafe_def folderLevels_def)
qed

section \<open>Counts\<close>

definition noCounts :: FolderCounts where
  "noCounts = \<lparr>fc_dashboards = 0, fc_subfolders = 0, fc_alertRules = 0\<rparr>"

lemma fold_ensure:
  "distinct (map fst gs) \<Longrightarrow> map_of (fold (\<lambda>(u, n). ensureCount (upd n) u) gs out) u =
     (case map_of gs u of None \<Rightarrow> map_of out u | Some n \<Rightarrow> Some (upd n (or_default (map_of out u) noCounts)))"
proof (induction gs arbitrary: out)
  case (Cons g gs)
  obtain v k where g: "g = (v, k)" by (cases g)
  have "map_of gs v = None" using Cons.prems g by (simp add: map_of_eq_None_iff)
  then show ?case using Cons.IH Cons.prems g by (simp add: ensureCount_def noCounts_def update_conv split: option.split)
qed simp

lemma groupCount_lookup:
  "distinct (map fst (groupCount us ks))"
  "map_of (groupCount us ks) u = (if u \<in> set us \<and> u \<in> set ks then Some (count_list ks u) else None)"
  by (simp_all add: groupCount_def comp_def map_of_map_restrict [of "count_list ks", simplified comp_def] restrict_map_def)

lemma count_keys:
  "count_list (List.map_filter (\<lambda>(og', i, f). if og' = og then f else None) rows) u = length (filter (inFolder og u) rows)"
  by (induction rows) (auto simp: map_filter_simps inFolder_def split: option.splits if_splits)

lemma count_parents:
  "count_list (List.map_filter (\<lambda>r. if fo_orgId r = og then fo_parentUid r else None) fs) u
     = length (filter (\<lambda>r. fo_orgId r = og \<and> fo_parentUid r = Some u) fs)"
  by (induction fs) (auto simp: map_filter_simps split: option.splits if_splits)

lemma count_absent: "u \<notin> set ks \<Longrightarrow> count_list ks u = 0"
  by (induction ks) auto

lemma folder_counts_lookup:
  assumes "u \<in> set us"
  shows "or_default (map_of (getFolderCounts db og us) u) noCounts =
    \<lparr>fc_dashboards = length (filter (inFolder og u) (al_dashboards db)),
     fc_subfolders = length (filter (\<lambda>r. fo_orgId r = og \<and> fo_parentUid r = Some u) (al_folders db)),
     fc_alertRules = length (filter (inFolder og u) (fd_alertRules db))\<rparr>"
proof -
  have us: "length us \<noteq> 0" using assms by auto
  note L = fold_ensure [OF groupCount_lookup(1)] groupCount_lookup(2)
  show ?thesis
    unfolding getFolderCounts_def Let_def if_not_P [OF us] L count_keys [symmetric] count_parents [symmetric]
    using assms by (auto simp: noCounts_def dest!: count_absent)
qed

lemma folderList_rows: "f \<in> set (fst (folderList db opts)) \<Longrightarrow> f \<in> set db \<and> fo_orgId f = lo_orgId opts"
  by (auto simp: folderList_def Let_def dest!: in_set_takeD in_set_dropD)

lemma serviceList_row:
  assumes "(f, c) \<in> set (serviceList db og opts)"
  shows "\<exists>us. fo_uid f \<in> set us \<and> f \<in> set (al_folders db) \<and> fo_orgId f = og
    \<and> c = or_default (map_of (getFolderCounts db og us) (fo_uid f)) noCounts"
proof -
  define fs where "fs = (let items = fst (folderList (al_folders db) \<lparr>lo_orgId = og, lo_parentUid = lf_parentUid opts,
            lo_limit = Some (or_default (lf_limit opts) 200), lo_offset = Some (or_default (lf_offset opts) 0)\<rparr>)
    in if truthy (lf_query opts) then filter (titleMatches (the (lf_query opts))) items else items)"
  have "serviceList db og opts = map (\<lambda>f. (f, or_default (map_of (getFolderCounts db og (map fo_uid fs)) (fo_uid f)) noCounts)) fs"
    unfolding serviceList_def fs_def Let_def noCounts_def ..
  then have f: "f \<in> set fs" and c: "c = or_default (map_of (getFolderCounts db og (map fo_uid fs)) (fo_uid f)) noCounts"
    using assms by auto
  have "f \<in> set (fst (folderList (al_folders db) \<lparr>lo_orgId = og, lo_parentUid = lf_parentUid opts,
      lo_limit = Some (or_default (lf_limit opts) 200), lo_offset = Some (or_default (lf_offset opts) 0)\<rparr>))"
    using f unfolding fs_def Let_def by (cases "truthy (lf_query opts)") simp_all
  from folderList_rows [OF this] have "f \<in> set (al_folders db) \<and> fo_orgId f = og" by simp
  then show ?thesis using f c by (intro exI [of _ "map fo_uid fs"]) simp
qed

section \<open>Properties\<close>

text \<open>The example: a folder with a child in which a dashboard lies.\<close>

definition exFolders :: folder_db where
  "exFolders = \<lparr>al_acl = [], al_folders = exTable, al_auth = exAuth,
     al_dashboards = [(''org'', ''d'', Some ''b''), (''org'', ''e'', None)], fd_alertRules = [(''org'', ''r'', Some ''b'')], fd_audit = []\<rparr>"

lemma exFolders_forest: "folderForest (al_folders exFolders)"
  using folders.steps_inv [OF exTable_reachable folders.init_inv [OF refl]] by (simp add: exFolders_def)

lemma exFolders_subtree: "inSubtree exTable ''org'' ''a'' (Some ''b'')" "\<not> inSubtree exTable ''org'' ''a'' None"
  by (auto simp: inSubtree_def parentRel_edge exTable_def exFolder_def)

text \<open>C17: deleting an existing folder of a well-formed tree either is refused, exactly when some rule lies
  in its subtree and the caller does not force it, or removes exactly the folders of the subtree, the
  dashboards and rules that lie in them and their ACL rows, and nothing of another organisation or
  outside the subtree.\<close>

theorem folder_delete_exact:
  assumes "folderForest (al_folders db)" "folderFindByUid (al_folders db) og u = Some f"
  shows "serviceDelete db og u force actor =
    (let inside = (\<lambda>row. fst row = og \<and> inSubtree (al_folders db) og u (snd (snd row))) in
     if filter inside (fd_alertRules db) \<noteq> [] \<and> \<not> force then Inl (HasRules (length (filter inside (fd_alertRules db))))
     else Inr (db\<lparr>al_folders := filter (\<lambda>r. \<not> (fo_orgId r = og \<and> inSubtree (al_folders db) og u (Some (fo_uid r)))) (al_folders db),
       al_dashboards := filter (\<lambda>row. \<not> inside row) (al_dashboards db),
       fd_alertRules := filter (\<lambda>row. \<not> inside row) (fd_alertRules db),
       al_acl := filter (\<lambda>a. \<not> (da_orgId a = og \<and> (\<exists>r\<in>set (al_folders db). fo_orgId r = og
           \<and> inSubtree (al_folders db) og u (Some (fo_uid r)) \<and> da_folderId a = Some (fo_id r)))) (al_acl db),
       fd_audit := fd_audit db @ [\<lparr>fx_action = FolderDeleted (u # listDescendantUids (al_folders db) og u) force, fx_actorId = actor,
           fx_orgId = og, fx_targetId = u, fx_targetName = fo_title f\<rparr>]\<rparr>))"
  by (rule delete_eq [OF assms])

theorem folder_delete_exact_witness:
  "serviceDelete exFolders ''org'' ''a'' False None = Inl (HasRules 1)
   \<and> (\<exists>db'. serviceDelete exFolders ''org'' ''a'' True None = Inr db' \<and> al_dashboards db' = [(''org'', ''e'', None)]
        \<and> fd_alertRules db' = [])"
proof -
  have "folderFindByUid (al_folders exFolders) ''org'' ''a'' = Some (folderRow [] 0 (exFolder ''1'' ''a'' None))" by code_simp
  note E = folder_delete_exact [OF exFolders_forest this]
  show ?thesis unfolding E by (simp add: Let_def exFolders_def exFolders_subtree)
qed

text \<open>C21: through the service, starting with no folders and whatever happens to the other tables, the
  folders stay a forest in which no folder lies deeper than \<open>FOLDER_MAX_DEPTH\<close>, also after moves of
  whole subtrees, and the recursion that measures a subtree always returns.\<close>

theorem folder_depth_bound:
  assumes "al_folders db0 = []" "folder_service_step\<^sup>*\<^sup>* db0 db"
  shows "folderForest (al_folders db)
    \<and> (\<forall>r\<in>set (al_folders db). length (listAncestors (al_folders db) (fo_orgId r) (fo_uid r)) + 1 \<le> FOLDER_MAX_DEPTH
        \<and> measureSubtreeDepth (length (al_folders db) + 1) (al_folders db) (fo_orgId r) (fo_uid r) \<noteq> None)"
proof -
  let ?fs = "al_folders db"
  have inv: "folderForest ?fs" "folderLevels ?fs"
    using folderService.reachable_inv [OF assms] by (auto simp: folderSafe_def)
  have "length (listAncestors ?fs (fo_orgId r) (fo_uid r)) + 1 \<le> FOLDER_MAX_DEPTH
      \<and> measureSubtreeDepth (length ?fs + 1) ?fs (fo_orgId r) (fo_uid r) \<noteq> None" if r: "r \<in> set ?fs" for r
  proof
    have keys: "folderKeys ?fs" using inv(1) by (simp add: folderForest_def)
    then have "folderFindByUid ?fs (fo_orgId r) (fo_uid r) = Some r" using r findByUid_iff by blast
    then have "listAncestors ?fs (fo_orgId r) (fo_uid r) = ancestor_loop (FOLDER_MAX_DEPTH + 1) ?fs (fo_orgId r) r"
      by (simp only: listAncestors_def option.case)
    then show "length (listAncestors ?fs (fo_orgId r) (fo_uid r)) + 1 \<le> FOLDER_MAX_DEPTH"
      using ancestor_loop_relpow [OF r refl, of "FOLDER_MAX_DEPTH + 1"] levelsD [OF inv(2)] Suc_leI by (metis Suc_eq_plus1)
    show "measureSubtreeDepth (length ?fs + 1) ?fs (fo_orgId r) (fo_uid r) \<noteq> None"
      using measure_returns [OF inv(1), of "fo_uid r"] keys r by (auto simp: folderKeys_def)
  qed
  then show ?thesis using inv(1) by blast
qed

definition exCreate :: "string option \<Rightarrow> CreateFolderInput" where
  "exCreate parent = \<lparr>cf_uid = None, cf_title = ''Prod EU'', cf_description = None, cf_parentUid = parent, cf_source = None, cf_provenance = None\<rparr>"

definition exEmpty :: folder_db where
  "exEmpty = exFolders\<lparr>al_folders := []\<rparr>"

theorem folder_depth_bound_witness:
  "\<exists>db f db2 g. serviceCreate exEmpty (''x'', ''y'') ''1'' 0 ''org'' (exCreate None) ''u'' = Inr (db, f) \<and> fo_uid f = ''prod_eu''
     \<and> serviceCreate db (''x'', ''y'') ''2'' 0 ''org'' (exCreate (Some ''prod_eu'')) ''u'' = Inr (db2, g) \<and> fo_uid g = ''prod_eu_y''
     \<and> folderForest (al_folders db2)"
proof -
  obtain db f where 1: "serviceCreate exEmpty (''x'', ''y'') ''1'' 0 ''org'' (exCreate None) ''u'' = Inr (db, f)" and f: "fo_uid f = ''prod_eu''"
    and db: "Inr (db, f) = serviceCreate exEmpty (''x'', ''y'') ''1'' 0 ''org'' (exCreate None) ''u''"
  proof -
    have "case serviceCreate exEmpty (''x'', ''y'') ''1'' 0 ''org'' (exCreate None) ''u'' of Inl e \<Rightarrow> False | Inr (db, f) \<Rightarrow> fo_uid f = ''prod_eu''"
      by code_simp
    then show thesis using that by (auto split: sum.splits)
  qed
  have "case serviceCreate exEmpty (''x'', ''y'') ''1'' 0 ''org'' (exCreate None) ''u'' of Inl e \<Rightarrow> False
     | Inr (db, f) \<Rightarrow> (case serviceCreate db (''x'', ''y'') ''2'' 0 ''org'' (exCreate (Some ''prod_eu'')) ''u'' of Inl e \<Rightarrow> False
         | Inr (db2, g) \<Rightarrow> fo_uid g = ''prod_eu_y'')"
    by code_simp
  then obtain db2 g where 2: "serviceCreate db (''x'', ''y'') ''2'' 0 ''org'' (exCreate (Some ''prod_eu'')) ''u'' = Inr (db2, g)"
      "fo_uid g = ''prod_eu_y''"
    by (auto simp: 1 split: sum.splits)
  have "folder_service_step\<^sup>*\<^sup>* exEmpty db2" using svc_create [OF 1] svc_create [OF 2(1)] by auto
  from folder_depth_bound [OF _ this] have "folderForest (al_folders db2)" by (simp add: exEmpty_def exFolders_def)
  then show ?thesis using 1 f 2 by blast
qed

text \<open>The counts of a listing, from three grouped queries, are those the query for one folder
  returns.\<close>

theorem folder_list_counts:
  assumes "folderKeys (al_folders db)" "(f, c) \<in> set (serviceList db og opts)"
  shows "getCounts db og (fo_uid f) = Inr c"
proof -
  obtain us where f: "fo_uid f \<in> set us" "f \<in> set (al_folders db)" "fo_orgId f = og"
      and c: "c = or_default (map_of (getFolderCounts db og us) (fo_uid f)) noCounts"
    using serviceList_row [OF assms(2)] by blast
  have "getByUid db og (fo_uid f) \<noteq> None" using f(2,3) findByUid_iff [OF assms(1)] by (auto simp: getByUid_def)
  then show ?thesis unfolding c folder_counts_lookup [OF f(1)] by (simp add: getCounts_def)
qed

theorem folder_list_counts_witness:
  "getCounts exFolders ''org'' ''b'' = Inr \<lparr>fc_dashboards = 1, fc_subfolders = 0, fc_alertRules = 1\<rparr>"
proof -
  have "(folderRow [] 0 (exFolder ''2'' ''b'' (Some ''a'')), \<lparr>fc_dashboards = 1, fc_subfolders = 0, fc_alertRules = 1\<rparr>)
      \<in> set (serviceList exFolders ''org'' \<lparr>lf_parentUid = None, lf_query = None, lf_limit = None, lf_offset = None\<rparr>)"
    by code_simp
  moreover have "folderKeys (al_folders exFolders)" using exFolders_forest by (simp add: folderForest_def)
  ultimately show ?thesis using folder_list_counts by (fastforce simp: exFolder_def)
qed

end
