(* ===== verification/Rbac_Repo.thy ===== *)
theory Rbac_Repo
  imports Access_Control Account_Repo
begin

text \<open>
  The tables of roles, permissions, assignments, teams and team members and their repositories
  (\<open>data-layer/src/repository/auth\<close>: \<open>role-repository.ts\<close>, \<open>permission-repository.ts\<close>,
  \<open>user-role-repository.ts\<close>, \<open>team-role-repository.ts\<close>, \<open>team-repository.ts\<close>,
  \<open>team-member-repository.ts\<close>) with the unique indexes and cascading foreign keys of the schema.

  A table is the list of its rows in the order of insertion. An operation the schema refuses throws:
  its result is \<open>None\<close>. Identifiers are arguments of the creating operations; \<open>rb_next\<close> counts the
  identifiers handed out so far, so that a service can ask for a new one. \<open>authTables\<close> is what
  \<open>Access_Control\<close> reads of the database.

  Results: keys stay unique and references resolve whatever operations run; deleting a role, a team or
  a user takes everything with it that access control could still read.
\<close>

section \<open>Definitions\<close>

record Role =
  ro_id :: string
  ro_version :: nat
  ro_orgId :: string
  ro_name :: string
  ro_uid :: string
  ro_displayName :: "string option"
  ro_description :: "string option"
  ro_groupName :: "string option"
  ro_hidden :: bool
  ro_created :: int
  ro_updated :: int

record NewRole =
  nro_orgId :: string
  nro_name :: string
  nro_uid :: string
  nro_displayName :: "string option"
  nro_description :: "string option"
  nro_groupName :: "string option"
  nro_hidden :: "bool option"

record RolePatch =
  rpa_name :: "string option"
  rpa_displayName :: "string option option"
  rpa_description :: "string option option"
  rpa_groupName :: "string option option"
  rpa_hidden :: "bool option"

record Team =
  te_id :: string
  te_orgId :: string
  te_name :: string
  te_email :: "string option"
  te_external :: bool
  te_created :: int
  te_updated :: int

record NewTeam =
  nt_orgId :: string
  nt_name :: string
  nt_email :: "string option"
  nt_external :: "bool option"

record TeamPatch =
  tp_name :: "string option"
  tp_email :: "string option option"
  tp_external :: "bool option"

definition TEAM_MEMBER_PERMISSION_MEMBER :: nat where
  "TEAM_MEMBER_PERMISSION_MEMBER = 0"

definition TEAM_MEMBER_PERMISSION_ADMIN :: nat where
  "TEAM_MEMBER_PERMISSION_ADMIN = 4"

record TeamMemberRow = TeamMember +
  tm_external :: bool
  tm_permission :: nat
  tm_created :: int
  tm_updated :: int

record rbac_db =
  rb_accounts :: account_tables
  rb_roles :: "Role list"
  rb_permissions :: "(string \<times> Permission) list"
  rb_builtin :: "BuiltinRole list"
  rb_userRoles :: "UserRole list"
  rb_teamRoles :: "TeamRole list"
  rb_teams :: "Team list"
  rb_teamMembers :: "TeamMemberRow list"
  rb_next :: nat

definition authTables :: "rbac_db \<Rightarrow> auth_tables" where
  "authTables db = \<lparr>at_builtin = rb_builtin db, at_userRoles = rb_userRoles db,
     at_teamMembers = map TeamMember.truncate (rb_teamMembers db), at_teamRoles = rb_teamRoles db,
     at_permissions = map snd (rb_permissions db)\<rparr>"

definition userIds :: "rbac_db \<Rightarrow> string set" where
  "userIds db = u_id ` set (ak_users (rb_accounts db))"

definition roleIds :: "rbac_db \<Rightarrow> string set" where
  "roleIds db = ro_id ` set (rb_roles db)"

definition teamIds :: "rbac_db \<Rightarrow> string set" where
  "teamIds db = te_id ` set (rb_teams db)"

subsection \<open>Roles\<close>

definition roleFindById :: "rbac_db \<Rightarrow> string \<Rightarrow> Role option" where
  "roleFindById db i = List.find (\<lambda>r. ro_id r = i) (rb_roles db)"

definition roleFindByUid :: "rbac_db \<Rightarrow> string \<Rightarrow> string \<Rightarrow> Role option" where
  "roleFindByUid db orgId u = List.find (\<lambda>r. ro_orgId r = orgId \<and> ro_uid r = u) (rb_roles db)"

definition roleFindByName :: "rbac_db \<Rightarrow> string \<Rightarrow> string \<Rightarrow> Role option" where
  "roleFindByName db orgId name = List.find (\<lambda>r. ro_orgId r = orgId \<and> ro_name r = name) (rb_roles db)"

definition roleRow :: "string \<Rightarrow> int \<Rightarrow> NewRole \<Rightarrow> Role" where
  "roleRow i now inp = \<lparr>ro_id = i, ro_version = 0, ro_orgId = nro_orgId inp, ro_name = nro_name inp, ro_uid = nro_uid inp,
     ro_displayName = nro_displayName inp, ro_description = nro_description inp, ro_groupName = nro_groupName inp,
     ro_hidden = (nro_hidden inp = Some True), ro_created = now, ro_updated = now\<rparr>"

definition roleCreate :: "string \<Rightarrow> int \<Rightarrow> NewRole \<Rightarrow> rbac_db \<Rightarrow> (Role \<times> rbac_db) option" where
  "roleCreate i now inp db =
     (let row = roleRow i now inp in
      if list_ex (\<lambda>r. ro_id r = i \<or> ro_orgId r = nro_orgId inp \<and> (ro_name r = nro_name inp \<or> ro_uid r = nro_uid inp)) (rb_roles db)
      then None else Some (row, db\<lparr>rb_roles := rb_roles db @ [row], rb_next := Suc (rb_next db)\<rparr>))"

record ListRolesOptions =
  lr_orgId :: "string option"
  lr_includeGlobal :: bool
  lr_hidden :: "bool option"
  lr_limit :: "nat option"
  lr_offset :: "nat option"

definition roleList :: "rbac_db \<Rightarrow> ListRolesOptions \<Rightarrow> Role list \<times> nat" where
  "roleList db opts =
     (let rows = filter (\<lambda>r. (case lr_orgId opts of None \<Rightarrow> True | Some og \<Rightarrow> ro_orgId r = og \<or> lr_includeGlobal opts \<and> ro_orgId r = [])
            \<and> (case lr_hidden opts of None \<Rightarrow> True | Some h \<Rightarrow> ro_hidden r = h)) (rb_roles db)
      in (take (or_default (lr_limit opts) 200) (drop (or_default (lr_offset opts) 0) (sort_key ro_name rows)), length rows))"

definition mergedRole :: "int \<Rightarrow> RolePatch \<Rightarrow> Role \<Rightarrow> Role" where
  "mergedRole now patch r =
     r\<lparr>ro_version := ro_version r + 1, ro_name := or_default (rpa_name patch) (ro_name r),
       ro_displayName := or_default (rpa_displayName patch) (ro_displayName r),
       ro_description := or_default (rpa_description patch) (ro_description r),
       ro_groupName := or_default (rpa_groupName patch) (ro_groupName r),
       ro_hidden := or_default (rpa_hidden patch) (ro_hidden r), ro_updated := now\<rparr>"

definition roleUpdate :: "int \<Rightarrow> string \<Rightarrow> RolePatch \<Rightarrow> rbac_db \<Rightarrow> (Role option \<times> rbac_db) option" where
  "roleUpdate now i patch db =
     (case roleFindById db i of
        None \<Rightarrow> Some (None, db)
      | Some existing \<Rightarrow>
          let m = mergedRole now patch existing in
          if list_ex (\<lambda>r. ro_id r \<noteq> i \<and> ro_orgId r = ro_orgId m \<and> ro_name r = ro_name m) (rb_roles db) then None
          else let db' = db\<lparr>rb_roles := map (\<lambda>r. if ro_id r = i then m else r) (rb_roles db)\<rparr>
               in Some (roleFindById db' i, db'))"

text \<open>The foreign keys on \<open>role_id\<close> cascade.\<close>

definition roleDelete :: "string \<Rightarrow> rbac_db \<Rightarrow> bool \<times> rbac_db" where
  "roleDelete i db =
     (case roleFindById db i of
        None \<Rightarrow> (False, db)
      | Some _ \<Rightarrow>
          (True, db\<lparr>rb_roles := filter (\<lambda>r. ro_id r \<noteq> i) (rb_roles db),
                   rb_permissions := filter (\<lambda>p. pe_roleId (snd p) \<noteq> i) (rb_permissions db),
                   rb_builtin := filter (\<lambda>b. br_roleId b \<noteq> i) (rb_builtin db),
                   rb_userRoles := filter (\<lambda>u. ur_roleId u \<noteq> i) (rb_userRoles db),
                   rb_teamRoles := filter (\<lambda>t. tr_roleId t \<noteq> i) (rb_teamRoles db)\<rparr>))"

definition findBuiltinRole :: "rbac_db \<Rightarrow> string \<Rightarrow> string \<Rightarrow> string \<Rightarrow> BuiltinRole option" where
  "findBuiltinRole db role orgId roleId =
     List.find (\<lambda>b. br_role b = role \<and> br_orgId b = orgId \<and> br_roleId b = roleId) (rb_builtin db)"

definition upsertBuiltinRole :: "BuiltinRole \<Rightarrow> rbac_db \<Rightarrow> (BuiltinRole \<times> rbac_db) option" where
  "upsertBuiltinRole inp db =
     (case findBuiltinRole db (br_role inp) (br_orgId inp) (br_roleId inp) of
        Some existing \<Rightarrow> Some (existing, db)
      | None \<Rightarrow> if br_roleId inp \<notin> roleIds db then None
                else Some (inp, db\<lparr>rb_builtin := rb_builtin db @ [inp]\<rparr>))"

definition removeBuiltinRole :: "string \<Rightarrow> string \<Rightarrow> string \<Rightarrow> rbac_db \<Rightarrow> bool \<times> rbac_db" where
  "removeBuiltinRole role orgId roleId db =
     (if findBuiltinRole db role orgId roleId = None then (False, db)
      else (True, db\<lparr>rb_builtin := filter (\<lambda>b. \<not> (br_role b = role \<and> br_orgId b = orgId \<and> br_roleId b = roleId)) (rb_builtin db)\<rparr>))"

subsection \<open>Permissions\<close>

definition permissionCreate :: "string \<Rightarrow> string \<times> string \<times> string option \<Rightarrow> rbac_db \<Rightarrow> ((string \<times> Permission) \<times> rbac_db) option" where
  "permissionCreate i inp db =
     (case inp of (roleId, action, scope) \<Rightarrow>
        let row = (i, \<lparr>pe_roleId = roleId, pe_action = action, pe_scope = or_default scope []\<rparr>) in
        if i \<in> fst ` set (rb_permissions db) \<or> roleId \<notin> roleIds db then None
        else Some (row, db\<lparr>rb_permissions := rb_permissions db @ [row], rb_next := Suc (rb_next db)\<rparr>))"

fun permissionCreateMany :: "(nat \<Rightarrow> string) \<Rightarrow> (string \<times> string \<times> string option) list \<Rightarrow> rbac_db
    \<Rightarrow> ((string \<times> Permission) list \<times> rbac_db) option" where
  "permissionCreateMany gen [] db = Some ([], db)"
| "permissionCreateMany gen (inp # inps) db =
     (case permissionCreate (gen (rb_next db)) inp db of
        None \<Rightarrow> None
      | Some (row, db1) \<Rightarrow> map_option (\<lambda>(rows, db2). (row # rows, db2)) (permissionCreateMany gen inps db1))"

definition permissionListByRole :: "rbac_db \<Rightarrow> string \<Rightarrow> (string \<times> Permission) list" where
  "permissionListByRole db roleId =
     sort_key (\<lambda>p. (pe_action (snd p), pe_scope (snd p))) (filter (\<lambda>p. pe_roleId (snd p) = roleId) (rb_permissions db))"

definition permissionListByAction :: "rbac_db \<Rightarrow> string \<Rightarrow> (string \<times> Permission) list" where
  "permissionListByAction db action = filter (\<lambda>p. pe_action (snd p) = action) (rb_permissions db)"

definition permissionDelete :: "string \<Rightarrow> rbac_db \<Rightarrow> bool \<times> rbac_db" where
  "permissionDelete i db =
     (if i \<notin> fst ` set (rb_permissions db) then (False, db)
      else (True, db\<lparr>rb_permissions := filter (\<lambda>p. fst p \<noteq> i) (rb_permissions db)\<rparr>))"

definition permissionDeleteByRole :: "string \<Rightarrow> rbac_db \<Rightarrow> nat \<times> rbac_db" where
  "permissionDeleteByRole roleId db =
     (length (filter (\<lambda>p. pe_roleId (snd p) = roleId) (rb_permissions db)),
      db\<lparr>rb_permissions := filter (\<lambda>p. pe_roleId (snd p) \<noteq> roleId) (rb_permissions db)\<rparr>)"

subsection \<open>Assignments\<close>

definition userRoleCreate :: "UserRole \<Rightarrow> rbac_db \<Rightarrow> rbac_db option" where
  "userRoleCreate r db =
     (if r \<in> set (rb_userRoles db) \<or> ur_userId r \<notin> userIds db \<or> ur_roleId r \<notin> roleIds db then None
      else Some (db\<lparr>rb_userRoles := rb_userRoles db @ [r]\<rparr>))"

definition userRoleListByRole :: "rbac_db \<Rightarrow> string \<Rightarrow> UserRole list" where
  "userRoleListByRole db roleId = filter (\<lambda>r. ur_roleId r = roleId) (rb_userRoles db)"

definition userRoleRemove :: "string \<Rightarrow> string \<Rightarrow> string \<Rightarrow> rbac_db \<Rightarrow> bool \<times> rbac_db" where
  "userRoleRemove orgId userId roleId db =
     (let hit = (\<lambda>r. ur_orgId r = orgId \<and> ur_userId r = userId \<and> ur_roleId r = roleId) in
      if \<not> list_ex hit (rb_userRoles db) then (False, db)
      else (True, db\<lparr>rb_userRoles := filter (\<lambda>r. \<not> hit r) (rb_userRoles db)\<rparr>))"

definition teamRoleCreate :: "TeamRole \<Rightarrow> rbac_db \<Rightarrow> rbac_db option" where
  "teamRoleCreate r db =
     (if r \<in> set (rb_teamRoles db) \<or> tr_teamId r \<notin> teamIds db \<or> tr_roleId r \<notin> roleIds db then None
      else Some (db\<lparr>rb_teamRoles := rb_teamRoles db @ [r]\<rparr>))"

definition teamRoleListByTeam :: "rbac_db \<Rightarrow> string \<Rightarrow> string \<Rightarrow> TeamRole list" where
  "teamRoleListByTeam db teamId orgId =
     (if orgId \<noteq> [] then filter (\<lambda>r. tr_teamId r = teamId \<and> (tr_orgId r = orgId \<or> tr_orgId r = [])) (rb_teamRoles db)
      else filter (\<lambda>r. tr_teamId r = teamId) (rb_teamRoles db))"

definition teamRoleListByRole :: "rbac_db \<Rightarrow> string \<Rightarrow> TeamRole list" where
  "teamRoleListByRole db roleId = filter (\<lambda>r. tr_roleId r = roleId) (rb_teamRoles db)"

definition teamRoleRemove :: "string \<Rightarrow> string \<Rightarrow> string \<Rightarrow> rbac_db \<Rightarrow> bool \<times> rbac_db" where
  "teamRoleRemove orgId teamId roleId db =
     (let hit = (\<lambda>r. tr_orgId r = orgId \<and> tr_teamId r = teamId \<and> tr_roleId r = roleId) in
      if \<not> list_ex hit (rb_teamRoles db) then (False, db)
      else (True, db\<lparr>rb_teamRoles := filter (\<lambda>r. \<not> hit r) (rb_teamRoles db)\<rparr>))"

subsection \<open>Teams\<close>

definition teamFindById :: "rbac_db \<Rightarrow> string \<Rightarrow> Team option" where
  "teamFindById db i = List.find (\<lambda>t. te_id t = i) (rb_teams db)"

definition teamFindByName :: "rbac_db \<Rightarrow> string \<Rightarrow> string \<Rightarrow> Team option" where
  "teamFindByName db orgId name = List.find (\<lambda>t. te_orgId t = orgId \<and> te_name t = name) (rb_teams db)"

definition newTeamRow :: "string \<Rightarrow> int \<Rightarrow> NewTeam \<Rightarrow> Team" where
  "newTeamRow i now inp = \<lparr>te_id = i, te_orgId = nt_orgId inp, te_name = nt_name inp, te_email = nt_email inp,
     te_external = (nt_external inp = Some True), te_created = now, te_updated = now\<rparr>"

definition teamCreate :: "string \<Rightarrow> int \<Rightarrow> NewTeam \<Rightarrow> rbac_db \<Rightarrow> (Team \<times> rbac_db) option" where
  "teamCreate i now inp db =
     (let row = newTeamRow i now inp in
      if list_ex (\<lambda>t. te_id t = i \<or> te_orgId t = nt_orgId inp \<and> te_name t = nt_name inp) (rb_teams db)
         \<or> nt_orgId inp \<notin> set (ak_orgs (rb_accounts db))
      then None else Some (row, db\<lparr>rb_teams := rb_teams db @ [row], rb_next := Suc (rb_next db)\<rparr>))"

text \<open>SQLite's \<open>LIKE\<close>: ASCII letters of either case match, \<open>%\<close> is any text and \<open>_\<close> any character.\<close>

definition likeFold :: "char \<Rightarrow> char" where
  "likeFold c = (if CHR ''A'' \<le> c \<and> c \<le> CHR ''Z'' then js_lower_char c else c)"

fun sqlLike :: "string \<Rightarrow> string \<Rightarrow> bool" where
  "sqlLike [] s = (s = [])"
| "sqlLike (p # ps) [] = (p = CHR ''%'' \<and> sqlLike ps [])"
| "sqlLike (p # ps) (c # cs) =
     (if p = CHR ''%'' then sqlLike ps (c # cs) \<or> sqlLike (p # ps) cs
      else (p = CHR ''_'' \<or> likeFold p = likeFold c) \<and> sqlLike ps cs)"

definition teamListByOrg :: "rbac_db \<Rightarrow> string \<Rightarrow> string option \<Rightarrow> nat option \<Rightarrow> nat option \<Rightarrow> Team list \<times> nat" where
  "teamListByOrg db orgId search limit offset =
     (let rows = filter (\<lambda>t. te_orgId t = orgId \<and> (truthy search \<longrightarrow> sqlLike (''%'' @ the search @ ''%'') (te_name t))) (rb_teams db)
      in (take (or_default limit 100) (drop (or_default offset 0) (sort_key te_name rows)), length rows))"

definition mergedTeam :: "int \<Rightarrow> TeamPatch \<Rightarrow> Team \<Rightarrow> Team" where
  "mergedTeam now patch t = t\<lparr>te_name := or_default (tp_name patch) (te_name t), te_email := or_default (tp_email patch) (te_email t),
     te_external := or_default (tp_external patch) (te_external t), te_updated := now\<rparr>"

definition teamUpdate :: "int \<Rightarrow> string \<Rightarrow> TeamPatch \<Rightarrow> rbac_db \<Rightarrow> (Team option \<times> rbac_db) option" where
  "teamUpdate now i patch db =
     (case teamFindById db i of
        None \<Rightarrow> Some (None, db)
      | Some existing \<Rightarrow>
          let m = mergedTeam now patch existing in
          if list_ex (\<lambda>t. te_id t \<noteq> i \<and> te_orgId t = te_orgId m \<and> te_name t = te_name m) (rb_teams db) then None
          else let db' = db\<lparr>rb_teams := map (\<lambda>t. if te_id t = i then m else t) (rb_teams db)\<rparr>
               in Some (teamFindById db' i, db'))"

definition teamDelete :: "string \<Rightarrow> rbac_db \<Rightarrow> bool \<times> rbac_db" where
  "teamDelete i db =
     (case teamFindById db i of
        None \<Rightarrow> (False, db)
      | Some _ \<Rightarrow>
          (True, db\<lparr>rb_teams := filter (\<lambda>t. te_id t \<noteq> i) (rb_teams db),
                   rb_teamMembers := filter (\<lambda>m. tm_teamId m \<noteq> i) (rb_teamMembers db),
                   rb_teamRoles := filter (\<lambda>r. tr_teamId r \<noteq> i) (rb_teamRoles db)\<rparr>))"

definition memberFind :: "rbac_db \<Rightarrow> string \<Rightarrow> string \<Rightarrow> TeamMemberRow option" where
  "memberFind db teamId userId = List.find (\<lambda>m. tm_teamId m = teamId \<and> tm_userId m = userId) (rb_teamMembers db)"

definition memberCreate :: "TeamMemberRow \<Rightarrow> rbac_db \<Rightarrow> (TeamMemberRow \<times> rbac_db) option" where
  "memberCreate m db =
     (if memberFind db (tm_teamId m) (tm_userId m) \<noteq> None \<or> tm_teamId m \<notin> teamIds db \<or> tm_userId m \<notin> userIds db
         \<or> tm_orgId m \<notin> set (ak_orgs (rb_accounts db))
      then None else Some (m, db\<lparr>rb_teamMembers := rb_teamMembers db @ [m]\<rparr>))"

definition memberUpdatePermission :: "int \<Rightarrow> string \<Rightarrow> string \<Rightarrow> nat \<Rightarrow> rbac_db \<Rightarrow> TeamMemberRow option \<times> rbac_db" where
  "memberUpdatePermission now teamId userId permission db =
     (case memberFind db teamId userId of
        None \<Rightarrow> (None, db)
      | Some _ \<Rightarrow>
          let db' = db\<lparr>rb_teamMembers := map (\<lambda>m. if tm_teamId m = teamId \<and> tm_userId m = userId
                then m\<lparr>tm_permission := permission, tm_updated := now\<rparr> else m) (rb_teamMembers db)\<rparr>
          in (memberFind db' teamId userId, db'))"

definition memberRemove :: "string \<Rightarrow> string \<Rightarrow> rbac_db \<Rightarrow> bool \<times> rbac_db" where
  "memberRemove teamId userId db =
     (if memberFind db teamId userId = None then (False, db)
      else (True, db\<lparr>rb_teamMembers := filter (\<lambda>m. \<not> (tm_teamId m = teamId \<and> tm_userId m = userId)) (rb_teamMembers db)\<rparr>))"

text \<open>The members of a team with their profiles: the inner join drops members without a user row.\<close>

definition memberListWithProfile :: "rbac_db \<Rightarrow> string \<Rightarrow> (TeamMemberRow \<times> User) list" where
  "memberListWithProfile db teamId =
     sort_key (\<lambda>mu. u_login (snd mu))
       (List.map_filter (\<lambda>m. map_option (Pair m) (userFindById (rb_accounts db) (tm_userId m)))
          (filter (\<lambda>m. tm_teamId m = teamId) (rb_teamMembers db)))"

text \<open>Deleting a user: memberships, assignments and team memberships go with the row.\<close>

definition rbacUserDelete :: "string \<Rightarrow> rbac_db \<Rightarrow> bool \<times> rbac_db" where
  "rbacUserDelete i db =
     (case userDelete (rb_accounts db) i of
        (done, at) \<Rightarrow>
          (done, if done then db\<lparr>rb_accounts := at, rb_userRoles := filter (\<lambda>r. ur_userId r \<noteq> i) (rb_userRoles db),
                   rb_teamMembers := filter (\<lambda>m. tm_userId m \<noteq> i) (rb_teamMembers db)\<rparr> else db))"

section \<open>Keys and references\<close>

definition rolesKeyed :: "Role list \<Rightarrow> bool" where
  "rolesKeyed rs \<longleftrightarrow> distinct (map ro_id rs) \<and> distinct (map (\<lambda>r. (ro_orgId r, ro_name r)) rs)
     \<and> distinct (map (\<lambda>r. (ro_orgId r, ro_uid r)) rs)"

definition teamsKeyed :: "Team list \<Rightarrow> bool" where
  "teamsKeyed ts \<longleftrightarrow> distinct (map te_id ts) \<and> distinct (map (\<lambda>t. (te_orgId t, te_name t)) ts)"

definition rbacRefs :: "rbac_db \<Rightarrow> bool" where
  "rbacRefs db \<longleftrightarrow> (\<forall>p\<in>set (rb_permissions db). pe_roleId (snd p) \<in> roleIds db) \<and> (\<forall>b\<in>set (rb_builtin db). br_roleId b \<in> roleIds db)
     \<and> (\<forall>r\<in>set (rb_userRoles db). ur_roleId r \<in> roleIds db \<and> ur_userId r \<in> userIds db)
     \<and> (\<forall>r\<in>set (rb_teamRoles db). tr_roleId r \<in> roleIds db \<and> tr_teamId r \<in> teamIds db)
     \<and> (\<forall>m\<in>set (rb_teamMembers db). tm_teamId m \<in> teamIds db \<and> tm_userId m \<in> userIds db)"

definition rbacKeys :: "rbac_db \<Rightarrow> bool" where
  "rbacKeys db \<longleftrightarrow> rolesKeyed (rb_roles db) \<and> teamsKeyed (rb_teams db) \<and> distinct (map fst (rb_permissions db))
     \<and> distinct (rb_builtin db) \<and> distinct (rb_userRoles db) \<and> distinct (rb_teamRoles db)
     \<and> distinct (map (\<lambda>m. (tm_teamId m, tm_userId m)) (rb_teamMembers db))"

definition rbacOk :: "rbac_db \<Rightarrow> bool" where
  "rbacOk db \<longleftrightarrow> rbacKeys db \<and> rbacRefs db"

inductive rbac_step :: "rbac_db \<Rightarrow> rbac_db \<Rightarrow> bool" where
  rs_role: "roleCreate i now inp db = Some (r, db') \<Longrightarrow> rbac_step db db'"
| rs_role_update: "roleUpdate now i patch db = Some (r, db') \<Longrightarrow> rbac_step db db'"
| rs_role_delete: "roleDelete i db = (b, db') \<Longrightarrow> rbac_step db db'"
| rs_builtin: "upsertBuiltinRole br db = Some (b, db') \<Longrightarrow> rbac_step db db'"
| rs_builtin_remove: "removeBuiltinRole role og i db = (b, db') \<Longrightarrow> rbac_step db db'"
| rs_permission: "permissionCreate i pinp db = Some (p, db') \<Longrightarrow> rbac_step db db'"
| rs_permission_delete: "rbac_step db (snd (permissionDelete i db))"
| rs_permission_delete_role: "rbac_step db (snd (permissionDeleteByRole i db))"
| rs_user_role: "userRoleCreate ur db = Some db' \<Longrightarrow> rbac_step db db'"
| rs_user_role_remove: "userRoleRemove og u i db = (b, db') \<Longrightarrow> rbac_step db db'"
| rs_team_role: "teamRoleCreate tr db = Some db' \<Longrightarrow> rbac_step db db'"
| rs_team_role_remove: "teamRoleRemove og t i db = (b, db') \<Longrightarrow> rbac_step db db'"
| rs_team: "teamCreate i now tinp db = Some (t, db') \<Longrightarrow> rbac_step db db'"
| rs_team_update: "teamUpdate now i tpatch db = Some (t, db') \<Longrightarrow> rbac_step db db'"
| rs_team_delete: "teamDelete i db = (b, db') \<Longrightarrow> rbac_step db db'"
| rs_member: "memberCreate m db = Some (m', db') \<Longrightarrow> rbac_step db db'"
| rs_member_update: "memberUpdatePermission now t u pm db = (r, db') \<Longrightarrow> rbac_step db db'"
| rs_member_remove: "memberRemove t u db = (b, db') \<Longrightarrow> rbac_step db db'"
| rs_user_delete: "rbacUserDelete u db = (b, db') \<Longrightarrow> rbac_step db db'"
| rs_accounts: "userIds db \<subseteq> u_id ` set (ak_users at) \<Longrightarrow> rbac_step db (db\<lparr>rb_accounts := at\<rparr>)"

lemmas rbac_ids = roleIds_def userIds_def teamIds_def

lemma distinct_map_keep: "distinct (map f xs) \<Longrightarrow> distinct (map f (filter P xs))"
  by (rule distinct_map_filter)

text \<open>Rewriting the row of one identifier keeps the identifiers.\<close>

lemma map_upd_id: "(\<And>x. key x = i \<Longrightarrow> key (f x) = i) \<Longrightarrow> map key (map (\<lambda>x. if key x = i then f x else x) xs) = map key xs"
  by auto

lemma merged_role_keys [simp]:
  "ro_id (mergedRole now pt r) = ro_id r" "ro_orgId (mergedRole now pt r) = ro_orgId r" "ro_uid (mergedRole now pt r) = ro_uid r"
  by (simp_all add: mergedRole_def)

lemma merged_team_keys [simp]: "te_id (mergedTeam now pt t) = te_id t" "te_orgId (mergedTeam now pt t) = te_orgId t"
  by (simp_all add: mergedTeam_def)

lemma roleFindById_SomeD: "roleFindById db i = Some r \<Longrightarrow> r \<in> set (rb_roles db) \<and> ro_id r = i"
  unfolding roleFindById_def by (drule find_Some_iff_first) auto

lemma teamFindById_SomeD: "teamFindById db i = Some t \<Longrightarrow> t \<in> set (rb_teams db) \<and> te_id t = i"
  unfolding teamFindById_def by (drule find_Some_iff_first) auto

text \<open>A second key stays unique when one row gets a value no other row has.\<close>

lemma distinct_upd:
  assumes "distinct (map key xs)" "\<And>x. x \<in> set xs \<Longrightarrow> idof x \<noteq> i \<Longrightarrow> key x \<noteq> key m" "distinct (map idof xs)"
  shows "distinct (map key (map (\<lambda>x. if idof x = i then m else x) xs))"
  using assms
proof (induction xs)
  case (Cons x xs)
  have IH: "distinct (map key (map (\<lambda>x. if idof x = i then m else x) xs))" using Cons by auto
  show ?case
  proof (cases "idof x = i")
    case True
    then have "idof y \<noteq> i" if "y \<in> set xs" for y using that Cons.prems(3) by (auto simp: image_iff)
    then have "map (\<lambda>x. if idof x = i then m else x) xs = xs" by (simp add: map_idI)
    moreover have "key m \<notin> key ` set xs"
    proof
      assume "key m \<in> key ` set xs"
      then obtain y where "y \<in> set xs" "key m = key y" by auto
      then show False using Cons.prems(2) [of y] \<open>\<And>y. y \<in> set xs \<Longrightarrow> idof y \<noteq> i\<close> by auto
    qed
    ultimately show ?thesis using True Cons.prems(1) by simp
  next
    case False
    then have "key x \<notin> set (map key (map (\<lambda>x. if idof x = i then m else x) xs))" using Cons.prems(1,2) by (auto split: if_splits)
    then show ?thesis using False IH by (simp only: list.map distinct.simps if_False simp_thms)
  qed
qed simp

lemma keyed_roles_update:
  assumes keyed: "rolesKeyed rs" and ex: "ex \<in> set rs" "ro_id ex = i"
    and free: "\<not> list_ex (\<lambda>r. ro_id r \<noteq> i \<and> ro_orgId r = ro_orgId ex \<and> ro_name r = ro_name (mergedRole now pt ex)) rs"
  shows "rolesKeyed (map (\<lambda>r. if ro_id r = i then mergedRole now pt ex else r) rs)"
proof -
  let ?m = "mergedRole now pt ex"
  have ids: "distinct (map ro_id rs)" using keyed by (simp add: rolesKeyed_def)
  have other: "r \<noteq> ex" if "ro_id r \<noteq> i" for r using that ex(2) by auto
  have "(ro_orgId r, ro_uid r) \<noteq> (ro_orgId ?m, ro_uid ?m)" if "r \<in> set rs" "ro_id r \<noteq> i" for r
    using keyed that(1) other [OF that(2)] ex(1) unfolding rolesKeyed_def distinct_map inj_on_def by auto
  moreover have "(ro_orgId r, ro_name r) \<noteq> (ro_orgId ?m, ro_name ?m)" if "r \<in> set rs" "ro_id r \<noteq> i" for r
    using free that by (auto simp: list_ex_iff)
  moreover have "ro_id r \<noteq> ro_id ?m" if "ro_id r \<noteq> i" for r using that ex(2) by simp
  ultimately show ?thesis using keyed unfolding rolesKeyed_def by (elim conjE) (intro conjI; rule distinct_upd; assumption)
qed

lemma keyed_teams_update:
  assumes keyed: "teamsKeyed ts" and ex: "te_id ex = i"
    and free: "\<not> list_ex (\<lambda>t. te_id t \<noteq> i \<and> te_orgId t = te_orgId ex \<and> te_name t = te_name (mergedTeam now pt ex)) ts"
  shows "teamsKeyed (map (\<lambda>t. if te_id t = i then mergedTeam now pt ex else t) ts)"
proof -
  let ?m = "mergedTeam now pt ex"
  have ids: "distinct (map te_id ts)" using keyed by (simp add: teamsKeyed_def)
  have "(te_orgId t, te_name t) \<noteq> (te_orgId ?m, te_name ?m)" if "t \<in> set ts" "te_id t \<noteq> i" for t
    using free that by (auto simp: list_ex_iff)
  moreover have "te_id t \<noteq> te_id ?m" if "te_id t \<noteq> i" for t using that ex by simp
  ultimately show ?thesis using keyed unfolding teamsKeyed_def by (elim conjE) (intro conjI; rule distinct_upd; assumption)
qed

lemma role_update_ok:
  assumes "rbacOk db" "roleUpdate now i patch db = Some (r, db')"
  shows "rbacOk db'"
proof (cases "roleFindById db i")
  case None
  then show ?thesis using assms by (simp add: roleUpdate_def)
next
  case (Some ex)
  note E = roleFindById_SomeD [OF Some]
  have free: "\<not> list_ex (\<lambda>r. ro_id r \<noteq> i \<and> ro_orgId r = ro_orgId ex \<and> ro_name r = ro_name (mergedRole now patch ex)) (rb_roles db)"
    and db': "db' = db\<lparr>rb_roles := map (\<lambda>r. if ro_id r = i then mergedRole now patch ex else r) (rb_roles db)\<rparr>"
    using assms(2) Some by (auto simp: roleUpdate_def Let_def split: if_splits)
  have "map ro_id (rb_roles db') = map ro_id (rb_roles db)" using E by (simp add: db')
  then have "roleIds db' = roleIds db" unfolding roleIds_def by (metis set_map)
  then show ?thesis using assms(1) keyed_roles_update [OF _ _ _ free] E
    unfolding rbacOk_def rbacKeys_def rbacRefs_def by (simp add: db' userIds_def teamIds_def)
qed

lemma team_update_ok:
  assumes "rbacOk db" "teamUpdate now i patch db = Some (r, db')"
  shows "rbacOk db'"
proof (cases "teamFindById db i")
  case None
  then show ?thesis using assms by (simp add: teamUpdate_def)
next
  case (Some ex)
  note E = teamFindById_SomeD [OF Some]
  have free: "\<not> list_ex (\<lambda>t. te_id t \<noteq> i \<and> te_orgId t = te_orgId ex \<and> te_name t = te_name (mergedTeam now patch ex)) (rb_teams db)"
    and db': "db' = db\<lparr>rb_teams := map (\<lambda>t. if te_id t = i then mergedTeam now patch ex else t) (rb_teams db)\<rparr>"
    using assms(2) Some by (auto simp: teamUpdate_def Let_def split: if_splits)
  have "map te_id (rb_teams db') = map te_id (rb_teams db)" using E by (simp add: db')
  then have "teamIds db' = teamIds db" unfolding teamIds_def by (metis set_map)
  then show ?thesis using assms(1) keyed_teams_update [OF _ _ free] E
    unfolding rbacOk_def rbacKeys_def rbacRefs_def by (simp add: db' userIds_def roleIds_def)
qed

lemma keyed_roles_simps:
  "rolesKeyed rs \<Longrightarrow> rolesKeyed (filter P rs)"
  "rolesKeyed rs \<Longrightarrow> \<not> list_ex (\<lambda>r. ro_id r = ro_id x \<or> ro_orgId r = ro_orgId x \<and> (ro_name r = ro_name x \<or> ro_uid r = ro_uid x)) rs
     \<Longrightarrow> rolesKeyed (rs @ [x])"
  unfolding rolesKeyed_def by (simp add: distinct_map_filter, auto simp: list_ex_iff)

lemma keyed_teams_simps:
  "teamsKeyed ts \<Longrightarrow> teamsKeyed (filter P ts)"
  "teamsKeyed ts \<Longrightarrow> \<not> list_ex (\<lambda>t. te_id t = te_id x \<or> te_orgId t = te_orgId x \<and> te_name t = te_name x) ts \<Longrightarrow> teamsKeyed (ts @ [x])"
  unfolding teamsKeyed_def by (simp add: distinct_map_filter, auto simp: list_ex_iff)

lemmas rbacOk_simps = rbacOk_def rbacKeys_def rbacRefs_def rbac_ids keyed_roles_simps keyed_teams_simps distinct_map_filter

lemma role_create_ok: "rbacOk db \<Longrightarrow> roleCreate i now inp db = Some (r, db') \<Longrightarrow> rbacOk db'"
  by (clarsimp simp: roleCreate_def Let_def rbacOk_simps roleRow_def split: if_splits)

lemma role_delete_ok:
  assumes "rbacOk db" "roleDelete i db = (b, db')"
  shows "rbacOk db'"
proof (cases "roleFindById db i")
  case (Some r)
  have ids: "x \<in> ro_id ` {r \<in> set (rb_roles db). ro_id r \<noteq> i} \<longleftrightarrow> x \<in> roleIds db \<and> x \<noteq> i" for x by (auto simp: roleIds_def)
  show ?thesis using assms Some by (clarsimp simp: roleDelete_def rbacOk_simps ids [unfolded roleIds_def])
qed (use assms in \<open>simp add: roleDelete_def\<close>)

lemma builtin_ok:
  "rbacOk db \<Longrightarrow> upsertBuiltinRole br db = Some (b, db') \<Longrightarrow> rbacOk db'"
  "rbacOk db \<Longrightarrow> removeBuiltinRole role og i db = (b', db') \<Longrightarrow> rbacOk db'"
  by (clarsimp simp: upsertBuiltinRole_def findBuiltinRole_def find_None_all rbacOk_simps split: option.splits if_splits)
    (clarsimp simp: removeBuiltinRole_def rbacOk_simps split: if_splits)

lemma permission_ok:
  "rbacOk db \<Longrightarrow> permissionCreate i pinp db = Some (p, db') \<Longrightarrow> rbacOk db'"
  "rbacOk db \<Longrightarrow> rbacOk (snd (permissionDelete i db))"
  "rbacOk db \<Longrightarrow> rbacOk (snd (permissionDeleteByRole i db))"
  by (clarsimp simp: permissionCreate_def Let_def rbacOk_simps split: prod.splits if_splits)
    (simp_all add: permissionDelete_def permissionDeleteByRole_def rbacOk_simps)

lemma user_role_ok:
  "rbacOk db \<Longrightarrow> userRoleCreate ur db = Some db' \<Longrightarrow> rbacOk db'"
  "rbacOk db \<Longrightarrow> userRoleRemove og u i db = (b, db') \<Longrightarrow> rbacOk db'"
  by (clarsimp simp: userRoleCreate_def rbacOk_simps split: if_splits)
    (clarsimp simp: userRoleRemove_def Let_def rbacOk_simps split: if_splits)

lemma team_role_ok:
  "rbacOk db \<Longrightarrow> teamRoleCreate tr db = Some db' \<Longrightarrow> rbacOk db'"
  "rbacOk db \<Longrightarrow> teamRoleRemove og t i db = (b, db') \<Longrightarrow> rbacOk db'"
  by (clarsimp simp: teamRoleCreate_def rbacOk_simps split: if_splits)
    (clarsimp simp: teamRoleRemove_def Let_def rbacOk_simps split: if_splits)

lemma team_create_ok: "rbacOk db \<Longrightarrow> teamCreate i now tinp db = Some (t, db') \<Longrightarrow> rbacOk db'"
  by (clarsimp simp: teamCreate_def Let_def newTeamRow_def rbacOk_simps split: if_splits)

lemma team_delete_ok:
  assumes "rbacOk db" "teamDelete i db = (b, db')"
  shows "rbacOk db'"
proof (cases "teamFindById db i")
  case (Some t)
  have ids: "x \<in> te_id ` {t \<in> set (rb_teams db). te_id t \<noteq> i} \<longleftrightarrow> x \<in> teamIds db \<and> x \<noteq> i" for x by (auto simp: teamIds_def)
  show ?thesis using assms Some by (clarsimp simp: teamDelete_def rbacOk_simps ids [unfolded teamIds_def])
qed (use assms in \<open>simp add: teamDelete_def\<close>)

lemma member_ok:
  "rbacOk db \<Longrightarrow> memberCreate m db = Some (m', db') \<Longrightarrow> rbacOk db'"
  "rbacOk db \<Longrightarrow> memberRemove t u db = (b, db') \<Longrightarrow> rbacOk db'"
  by (clarsimp simp: memberCreate_def memberFind_def find_None_all rbacOk_simps split: if_splits, blast)
    (clarsimp simp: memberRemove_def rbacOk_simps split: if_splits)

lemma members_map_ok:
  assumes "rbacOk db" "\<And>m. tm_teamId (f m) = tm_teamId m" "\<And>m. tm_userId (f m) = tm_userId m"
  shows "rbacOk (db\<lparr>rb_teamMembers := map f (rb_teamMembers db)\<rparr>)"
  using assms by (simp add: rbacOk_simps comp_def)

lemma member_update_ok: "rbacOk db \<Longrightarrow> memberUpdatePermission now t u pm db = (r, db') \<Longrightarrow> rbacOk db'"
  by (auto simp: memberUpdatePermission_def Let_def intro!: members_map_ok split: option.splits)

lemma user_delete_ok:
  assumes "rbacOk db" "rbacUserDelete u db = (b, db')"
  shows "rbacOk db'"
proof (cases "userFindById (rb_accounts db) u")
  case (Some x)
  have ids: "x \<in> u_id ` {w \<in> set (ak_users (rb_accounts db)). u_id w \<noteq> u} \<longleftrightarrow> x \<in> userIds db \<and> x \<noteq> u" for x by (auto simp: userIds_def)
  show ?thesis using assms Some by (clarsimp simp: rbacUserDelete_def userDelete_def rbacOk_simps ids [unfolded userIds_def])
qed (use assms in \<open>simp add: rbacUserDelete_def userDelete_def\<close>)

lemma accounts_ok: "rbacOk db \<Longrightarrow> userIds db \<subseteq> u_id ` set (ak_users at) \<Longrightarrow> rbacOk (db\<lparr>rb_accounts := at\<rparr>)"
  by (simp add: rbacOk_simps subset_iff)

lemmas rbac_ok = role_create_ok role_update_ok role_delete_ok builtin_ok permission_ok user_role_ok team_role_ok
  team_create_ok team_delete_ok team_update_ok
  member_ok member_update_ok user_delete_ok accounts_ok

definition noGrants :: "rbac_db \<Rightarrow> bool" where
  "noGrants db \<longleftrightarrow> rb_roles db = [] \<and> rb_permissions db = [] \<and> rb_builtin db = [] \<and> rb_userRoles db = [] \<and> rb_teamRoles db = []
     \<and> rb_teams db = [] \<and> rb_teamMembers db = []"

interpretation rbac: step_system noGrants rbac_step rbacOk
proof unfold_locales
  show "rbacOk db" if "noGrants db" for db using that by (simp add: noGrants_def rbacOk_simps rolesKeyed_def teamsKeyed_def)
  show "rbacOk db'" if "rbacOk db" "rbac_step db db'" for db db'
    using that(2,1) by cases (blast intro: rbac_ok)+
qed

end
