(* ===== verification/Role_Service.thy ===== *)
theory Role_Service
  imports Rbac_Repo Rbac_Roles
begin

text \<open>
  Custom roles and their assignment to users and teams (\<open>api-gateway/src/services/role-service.ts\<close>)
  with the gate of the routes (\<open>middleware/require-permission.ts\<close>) and the route that assigns a role
  to a user and the one that creates a role (\<open>routes/access-control.ts\<close>).

  An operation returns the new database also when it fails, because \<open>updateRole\<close> writes before it
  validates. \<open>gen\<close> is the source of identifiers: the \<open>n\<close>-th identifier handed out is \<open>gen n\<close>.
  A write the database refuses is the error \<open>RoleStore\<close>.

  Results: an assignment adds exactly one role to exactly the organisations the role belongs to, and
  taking it back restores the table; setting the roles of a user leaves exactly those; built-in and
  fixed roles and their permissions never change through the service; whoever may write roles in one
  organisation can give a global role, Server Admin included, to anyone, and it counts in every
  organisation; a refused update has already raised the version.
\<close>

section \<open>Definitions\<close>

datatype RoleServiceError =
    RoleNameRequired
  | RoleNameReserved
  | ActionRequired
  | ActionShape string
  | ScopeInvalid string
  | RoleExists
  | RoleVersionMismatch
  | RoleNotFound
  | RoleUidNotFound string
  | RoleReadOnly
  | RoleStore

fun roleStatusCode :: "RoleServiceError \<Rightarrow> nat" where
  "roleStatusCode RoleExists = 409"
| "roleStatusCode RoleVersionMismatch = 409"
| "roleStatusCode RoleNotFound = 404"
| "roleStatusCode (RoleUidNotFound u) = 404"
| "roleStatusCode RoleStore = 500"
| "roleStatusCode e = 400"

record RoleWithPermissions =
  rw_role :: Role
  rw_permissions :: "(string \<times> Permission) list"

record CreateRoleInput =
  ci_name :: string
  ci_uid :: "string option"
  ci_displayName :: "string option"
  ci_description :: "string option"
  ci_groupName :: "string option"
  ci_hidden :: "bool option"
  ci_orgId :: string
  ci_permissions :: "(string \<times> string option) list"

record UpdateRoleInput =
  ui_roleUid :: string
  ui_orgId :: string
  ui_version :: nat
  ui_displayName :: "string option option"
  ui_description :: "string option option"
  ui_groupName :: "string option option"
  ui_hidden :: "bool option"
  ui_permissions :: "(string \<times> string option) list option"

definition reservedName :: "string \<Rightarrow> bool" where
  "reservedName name \<longleftrightarrow> starts_with ''basic:'' name \<or> starts_with ''fixed:'' name"

definition validateCustomName :: "string \<Rightarrow> RoleServiceError + unit" where
  "validateCustomName name =
     (if name = [] \<or> length (js_trim name) = 0 then Inl RoleNameRequired
      else if reservedName name then Inl RoleNameReserved else Inr ())"

definition refuseProtected :: "string \<Rightarrow> RoleServiceError + unit" where
  "refuseProtected name = (if reservedName name then Inl RoleReadOnly else Inr ())"

fun validatePermissions :: "(string \<times> string option) list \<Rightarrow> RoleServiceError + unit" where
  "validatePermissions [] = Inr ()"
| "validatePermissions ((action, scope) # ps) =
     (if action = [] \<or> length (js_trim action) = 0 then Inl ActionRequired
      else if \<not> isKnownAction action \<and> CHR '':'' \<notin> set action then Inl (ActionShape action)
      else if truthy scope \<and> ps_kind (parseScope (the scope)) = [] then Inl (ScopeInvalid (the scope))
      else validatePermissions ps)"

definition findAcrossScopes :: "rbac_db \<Rightarrow> string \<Rightarrow> string \<Rightarrow> Role option" where
  "findAcrossScopes db orgId roleUid =
     (case roleFindByUid db orgId roleUid of Some r \<Rightarrow> Some r | None \<Rightarrow> roleFindByUid db [] roleUid)"

subsection \<open>Reading\<close>

definition listRoles :: "rbac_db \<Rightarrow> string \<Rightarrow> bool option \<Rightarrow> bool \<Rightarrow> nat option \<Rightarrow> nat option \<Rightarrow> RoleWithPermissions list" where
  "listRoles db orgId includeGlobal includeHidden limit offset =
     (let items = fst (roleList db \<lparr>lr_orgId = Some orgId, lr_includeGlobal = or_default includeGlobal True, lr_hidden = None,
            lr_limit = Some (or_default limit 200), lr_offset = Some (or_default offset 0)\<rparr>);
          filtered = (if includeHidden then items else filter (\<lambda>r. \<not> ro_hidden r) items)
      in map (\<lambda>r. \<lparr>rw_role = r, rw_permissions = permissionListByRole db (ro_id r)\<rparr>) filtered)"

definition getRole :: "rbac_db \<Rightarrow> string \<Rightarrow> string \<Rightarrow> RoleWithPermissions option" where
  "getRole db orgId roleUid =
     map_option (\<lambda>r. \<lparr>rw_role = r, rw_permissions = permissionListByRole db (ro_id r)\<rparr>) (findAcrossScopes db orgId roleUid)"

subsection \<open>Creating, updating, deleting\<close>

definition permissionInputs :: "string \<Rightarrow> (string \<times> string option) list \<Rightarrow> (string \<times> string \<times> string option) list" where
  "permissionInputs roleId ps = map (\<lambda>(action, scope). (roleId, action, Some (or_default scope []))) ps"

definition createRole :: "(nat \<Rightarrow> string) \<Rightarrow> int \<Rightarrow> CreateRoleInput \<Rightarrow> rbac_db \<Rightarrow> (RoleServiceError + RoleWithPermissions) \<times> rbac_db" where
  "createRole gen now inp db =
     (case validateCustomName (ci_name inp) of
        Inl e \<Rightarrow> (Inl e, db)
      | Inr _ \<Rightarrow>
          (case validatePermissions (ci_permissions inp) of
             Inl e \<Rightarrow> (Inl e, db)
           | Inr _ \<Rightarrow>
               let u = or_default (ci_uid inp) (map (\<lambda>c. if c = CHR '':'' \<or> c = CHR ''.'' then CHR ''_'' else c) (ci_name inp)) in
               if roleFindByUid db (ci_orgId inp) u \<noteq> None \<or> roleFindByName db (ci_orgId inp) (ci_name inp) \<noteq> None
               then (Inl RoleExists, db)
               else (case roleCreate (gen (rb_next db)) now
                       \<lparr>nro_orgId = ci_orgId inp, nro_name = ci_name inp, nro_uid = u, nro_displayName = ci_displayName inp,
                        nro_description = ci_description inp, nro_groupName = ci_groupName inp,
                        nro_hidden = Some (or_default (ci_hidden inp) False)\<rparr> db of
                       None \<Rightarrow> (Inl RoleStore, db)
                     | Some (role, db1) \<Rightarrow>
                         (case permissionCreateMany gen (permissionInputs (ro_id role) (ci_permissions inp)) db1 of
                            None \<Rightarrow> (Inl RoleStore, db1)
                          | Some (perms, db2) \<Rightarrow> (Inr \<lparr>rw_role = role, rw_permissions = perms\<rparr>, db2)))))"

definition updateRole :: "(nat \<Rightarrow> string) \<Rightarrow> int \<Rightarrow> UpdateRoleInput \<Rightarrow> rbac_db \<Rightarrow> (RoleServiceError + RoleWithPermissions) \<times> rbac_db" where
  "updateRole gen now inp db =
     (case findAcrossScopes db (ui_orgId inp) (ui_roleUid inp) of
        None \<Rightarrow> (Inl RoleNotFound, db)
      | Some existing \<Rightarrow>
          (case refuseProtected (ro_name existing) of
             Inl e \<Rightarrow> (Inl e, db)
           | Inr _ \<Rightarrow>
               if ro_version existing \<noteq> ui_version inp then (Inl RoleVersionMismatch, db)
               else (case roleUpdate now (ro_id existing)
                       \<lparr>rpa_name = None, rpa_displayName = ui_displayName inp, rpa_description = ui_description inp,
                        rpa_groupName = ui_groupName inp, rpa_hidden = ui_hidden inp\<rparr> db of
                       None \<Rightarrow> (Inl RoleStore, db)
                     | Some (None, db1) \<Rightarrow> (Inl RoleNotFound, db1)
                     | Some (Some patched, db1) \<Rightarrow>
                         (case ui_permissions inp of
                            None \<Rightarrow> (Inr \<lparr>rw_role = patched, rw_permissions = permissionListByRole db1 (ro_id existing)\<rparr>, db1)
                          | Some ps \<Rightarrow>
                              (case validatePermissions ps of
                                 Inl e \<Rightarrow> (Inl e, db1)
                               | Inr _ \<Rightarrow>
                                   let db2 = snd (permissionDeleteByRole (ro_id existing) db1) in
                                   (case permissionCreateMany gen (permissionInputs (ro_id existing) ps) db2 of
                                      None \<Rightarrow> (Inl RoleStore, db2)
                                    | Some (perms, db3) \<Rightarrow> (Inr \<lparr>rw_role = patched, rw_permissions = perms\<rparr>, db3)))))))"

definition deleteRole :: "string \<Rightarrow> string \<Rightarrow> rbac_db \<Rightarrow> (RoleServiceError + bool) \<times> rbac_db" where
  "deleteRole orgId roleUid db =
     (case findAcrossScopes db orgId roleUid of
        None \<Rightarrow> (Inr False, db)
      | Some existing \<Rightarrow>
          (case refuseProtected (ro_name existing) of
             Inl e \<Rightarrow> (Inl e, db)
           | Inr _ \<Rightarrow> (case roleDelete (ro_id existing) db of (ok, db1) \<Rightarrow> (Inr ok, db1))))"

subsection \<open>Assignments\<close>

definition roleOrg :: "string \<Rightarrow> Role \<Rightarrow> string" where
  "roleOrg orgId role = (if ro_orgId role = [] then [] else orgId)"

definition assignRoleToUser :: "string \<Rightarrow> string \<Rightarrow> string \<Rightarrow> rbac_db \<Rightarrow> (RoleServiceError + unit) \<times> rbac_db" where
  "assignRoleToUser orgId userId roleUid db =
     (case findAcrossScopes db orgId roleUid of
        None \<Rightarrow> (Inl RoleNotFound, db)
      | Some role \<Rightarrow>
          if list_ex (\<lambda>r. ur_roleId r = ro_id role) (listByUser (authTables db) userId orgId) then (Inr (), db)
          else (case userRoleCreate \<lparr>ur_orgId = roleOrg orgId role, ur_userId = userId, ur_roleId = ro_id role\<rparr> db of
                  None \<Rightarrow> (Inl RoleStore, db)
                | Some db1 \<Rightarrow> (Inr (), db1)))"

definition unassignRoleFromUser :: "string \<Rightarrow> string \<Rightarrow> string \<Rightarrow> rbac_db \<Rightarrow> bool \<times> rbac_db" where
  "unassignRoleFromUser orgId userId roleUid db =
     (case findAcrossScopes db orgId roleUid of
        None \<Rightarrow> (False, db)
      | Some role \<Rightarrow> userRoleRemove (roleOrg orgId role) userId (ro_id role) db)"

text \<open>The desired roles as the insertion-ordered map from role to organisation.\<close>

fun desiredRoles :: "rbac_db \<Rightarrow> string \<Rightarrow> string list \<Rightarrow> RoleServiceError + (string \<times> string) list" where
  "desiredRoles db orgId [] = Inr []"
| "desiredRoles db orgId (u # us) =
     (case findAcrossScopes db orgId u of
        None \<Rightarrow> Inl (RoleUidNotFound u)
      | Some role \<Rightarrow>
          (case desiredRoles db orgId us of
             Inl e \<Rightarrow> Inl e
           | Inr m \<Rightarrow> Inr ((ro_id role, roleOrg orgId role) # filter (\<lambda>(i, _). i \<noteq> ro_id role) m)))"

fun addUserRoles :: "string \<Rightarrow> UserRole list \<Rightarrow> (string \<times> string) list \<Rightarrow> rbac_db \<Rightarrow> (RoleServiceError + unit) \<times> rbac_db" where
  "addUserRoles userId current [] db = (Inr (), db)"
| "addUserRoles userId current ((roleId, og) # m) db =
     (if list_ex (\<lambda>r. ur_roleId r = roleId) current then addUserRoles userId current m db
      else case userRoleCreate \<lparr>ur_orgId = og, ur_userId = userId, ur_roleId = roleId\<rparr> db of
             None \<Rightarrow> (Inl RoleStore, db)
           | Some db1 \<Rightarrow> addUserRoles userId current m db1)"

definition setUserRoles :: "string \<Rightarrow> string \<Rightarrow> string list \<Rightarrow> rbac_db \<Rightarrow> (RoleServiceError + unit) \<times> rbac_db" where
  "setUserRoles orgId userId roleUids db =
     (let current = listByUser (authTables db) userId orgId in
      case desiredRoles db orgId roleUids of
        Inl e \<Rightarrow> (Inl e, db)
      | Inr desired \<Rightarrow>
          let db1 = fold (\<lambda>r d. if ur_roleId r \<in> fst ` set desired then d else snd (userRoleRemove (ur_orgId r) userId (ur_roleId r) d)) current db
          in addUserRoles userId current desired db1)"

definition listUserRoles :: "rbac_db \<Rightarrow> string \<Rightarrow> string \<Rightarrow> Role list" where
  "listUserRoles db orgId userId = List.map_filter (\<lambda>r. roleFindById db (ur_roleId r)) (listByUser (authTables db) userId orgId)"

definition assignRoleToTeam :: "string \<Rightarrow> string \<Rightarrow> string \<Rightarrow> rbac_db \<Rightarrow> (RoleServiceError + unit) \<times> rbac_db" where
  "assignRoleToTeam orgId teamId roleUid db =
     (case findAcrossScopes db orgId roleUid of
        None \<Rightarrow> (Inl RoleNotFound, db)
      | Some role \<Rightarrow>
          if list_ex (\<lambda>r. tr_roleId r = ro_id role) (teamRoleListByTeam db teamId orgId) then (Inr (), db)
          else (case teamRoleCreate \<lparr>tr_orgId = roleOrg orgId role, tr_teamId = teamId, tr_roleId = ro_id role\<rparr> db of
                  None \<Rightarrow> (Inl RoleStore, db)
                | Some db1 \<Rightarrow> (Inr (), db1)))"

definition unassignRoleFromTeam :: "string \<Rightarrow> string \<Rightarrow> string \<Rightarrow> rbac_db \<Rightarrow> bool \<times> rbac_db" where
  "unassignRoleFromTeam orgId teamId roleUid db =
     (case findAcrossScopes db orgId roleUid of
        None \<Rightarrow> (False, db)
      | Some role \<Rightarrow> teamRoleRemove (roleOrg orgId role) teamId (ro_id role) db)"

fun addTeamRoles :: "string \<Rightarrow> TeamRole list \<Rightarrow> (string \<times> string) list \<Rightarrow> rbac_db \<Rightarrow> (RoleServiceError + unit) \<times> rbac_db" where
  "addTeamRoles teamId current [] db = (Inr (), db)"
| "addTeamRoles teamId current ((roleId, og) # m) db =
     (if list_ex (\<lambda>r. tr_roleId r = roleId) current then addTeamRoles teamId current m db
      else case teamRoleCreate \<lparr>tr_orgId = og, tr_teamId = teamId, tr_roleId = roleId\<rparr> db of
             None \<Rightarrow> (Inl RoleStore, db)
           | Some db1 \<Rightarrow> addTeamRoles teamId current m db1)"

definition setTeamRoles :: "string \<Rightarrow> string \<Rightarrow> string list \<Rightarrow> rbac_db \<Rightarrow> (RoleServiceError + unit) \<times> rbac_db" where
  "setTeamRoles orgId teamId roleUids db =
     (let current = teamRoleListByTeam db teamId orgId in
      case desiredRoles db orgId roleUids of
        Inl e \<Rightarrow> (Inl e, db)
      | Inr desired \<Rightarrow>
          let db1 = fold (\<lambda>r d. if tr_roleId r \<in> fst ` set desired then d else snd (teamRoleRemove (tr_orgId r) teamId (tr_roleId r) d)) current db
          in addTeamRoles teamId current desired db1)"

definition listTeamRoles :: "rbac_db \<Rightarrow> string \<Rightarrow> string \<Rightarrow> Role list" where
  "listTeamRoles db orgId teamId = List.map_filter (\<lambda>r. roleFindById db (tr_roleId r)) (teamRoleListByTeam db teamId orgId)"

subsection \<open>Routes\<close>

text \<open>The gate behind its first test: the flag of the setup routes is not set on the routes here.\<close>

datatype GateResult = GatePass Identity | GateUnauthenticated | GateForbidden string

definition requirePermission :: "AccessControlDeps \<Rightarrow> Identity option \<Rightarrow> Evaluator \<Rightarrow> GateResult" where
  "requirePermission deps auth evaluator =
     (case auth of
        None \<Rightarrow> GateUnauthenticated
      | Some who \<Rightarrow>
          (case acEvaluate deps who evaluator of
             (allowed, who') \<Rightarrow> if allowed then GatePass who'
                                else GateForbidden (''User has no permission to '' @ evaluator_string evaluator)))"

datatype 'a RoleResponse = RoleOk 'a | RoleGate GateResult | RoleBadRequest string | RoleFailed RoleServiceError

text \<open>\<open>POST /users/:userId/roles\<close> and \<open>POST /roles\<close>.\<close>

definition handleAssignUserRole :: "AccessControlDeps \<Rightarrow> Identity option \<Rightarrow> string \<Rightarrow> string option \<Rightarrow> rbac_db
    \<Rightarrow> unit RoleResponse \<times> rbac_db" where
  "handleAssignUserRole deps auth userId roleUid db =
     (case requirePermission deps auth (ac_eval ACTIONS_RolesWrite (OneScope ''roles:*'')) of
        GatePass who \<Rightarrow>
          if \<not> truthy roleUid then (RoleBadRequest ''roleUid is required'', db)
          else (case assignRoleToUser (id_orgId who) userId (the roleUid) db of
                  (Inl e, db1) \<Rightarrow> (RoleFailed e, db1)
                | (Inr _, db1) \<Rightarrow> (RoleOk (), db1))
      | g \<Rightarrow> (RoleGate g, db))"

definition handleCreateRole :: "AccessControlDeps \<Rightarrow> Identity option \<Rightarrow> (nat \<Rightarrow> string) \<Rightarrow> int \<Rightarrow> bool \<Rightarrow> CreateRoleInput \<Rightarrow> rbac_db
    \<Rightarrow> RoleWithPermissions RoleResponse \<times> rbac_db" where
  "handleCreateRole deps auth gen now global body db =
     (case requirePermission deps auth (ac_eval ACTIONS_RolesWrite (OneScope ''roles:*'')) of
        GatePass who \<Rightarrow>
          if ci_name body = [] then (RoleBadRequest ''name is required'', db)
          else (case createRole gen now (body\<lparr>ci_orgId := if global then [] else id_orgId who\<rparr>) db of
                  (Inl e, db1) \<Rightarrow> (RoleFailed e, db1)
                | (Inr r, db1) \<Rightarrow> (RoleOk r, db1))
      | g \<Rightarrow> (RoleGate g, db))"

section \<open>The service as repository steps\<close>

inductive role_service_step :: "(nat \<Rightarrow> string) \<Rightarrow> rbac_db \<Rightarrow> rbac_db \<Rightarrow> bool" for gen where
  sv_create: "createRole gen now ci db = (r1, db') \<Longrightarrow> role_service_step gen db db'"
| sv_update: "updateRole gen now ui db = (r1, db') \<Longrightarrow> role_service_step gen db db'"
| sv_delete: "deleteRole og u db = (r2, db') \<Longrightarrow> role_service_step gen db db'"
| sv_assign: "assignRoleToUser og w u db = (r3, db') \<Longrightarrow> role_service_step gen db db'"
| sv_unassign: "unassignRoleFromUser og w u db = (r4, db') \<Longrightarrow> role_service_step gen db db'"
| sv_set: "setUserRoles og w us db = (r3, db') \<Longrightarrow> role_service_step gen db db'"
| sv_assign_team: "assignRoleToTeam og t u db = (r3, db') \<Longrightarrow> role_service_step gen db db'"
| sv_unassign_team: "unassignRoleFromTeam og t u db = (r4, db') \<Longrightarrow> role_service_step gen db db'"
| sv_set_team: "setTeamRoles og t us db = (r3, db') \<Longrightarrow> role_service_step gen db db'"

text \<open>What a change leaves alone: the row of a role and its permissions.\<close>

definition keepsRole :: "string \<Rightarrow> rbac_db \<Rightarrow> rbac_db \<Rightarrow> bool" where
  "keepsRole i db db' \<longleftrightarrow> filter (\<lambda>r. ro_id r = i) (rb_roles db') = filter (\<lambda>r. ro_id r = i) (rb_roles db)
     \<and> filter (\<lambda>p. pe_roleId (snd p) = i) (rb_permissions db') = filter (\<lambda>p. pe_roleId (snd p) = i) (rb_permissions db)"

lemma keeps_refl [simp]: "keepsRole i db db"
  by (simp add: keepsRole_def)

lemma keeps_trans: "keepsRole i a b \<Longrightarrow> keepsRole i b c \<Longrightarrow> keepsRole i a c"
  by (simp add: keepsRole_def)

text \<open>One lemma for the chains of writes: a sequence of repository steps that keeps a role.\<close>

definition writes :: "string set \<Rightarrow> rbac_db \<Rightarrow> rbac_db \<Rightarrow> bool" where
  "writes S db db' \<longleftrightarrow> rbac_step\<^sup>*\<^sup>* db db' \<and> (\<forall>i. i \<notin> S \<longrightarrow> keepsRole i db db')"

lemma writes_refl [simp]: "writes S db db"
  by (simp add: writes_def)

lemma writes_trans: "writes S a b \<Longrightarrow> writes S b c \<Longrightarrow> writes S a c"
  unfolding writes_def using keeps_trans by (meson rtranclp_trans)

lemma writes_step: "rbac_step db db' \<Longrightarrow> (\<And>i. i \<notin> S \<Longrightarrow> keepsRole i db db') \<Longrightarrow> writes S db db'"
  by (simp add: writes_def r_into_rtranclp)

lemma filter_other: "j \<noteq> i \<Longrightarrow> filter (\<lambda>x. f x = j) (filter (\<lambda>x. f x \<noteq> i) xs) = filter (\<lambda>x. f x = j) xs"
  by (induction xs) auto

lemma createMany_writes:
  "permissionCreateMany gen (permissionInputs rid ps) db = Some (rows, db') \<Longrightarrow> writes {rid} db db'"
proof (induction ps arbitrary: db rows)
  case (Cons q ps)
  obtain a sc where q: "q = (a, sc)" by (cases q)
  obtain row db1 rows1 where 1: "permissionCreate (gen (rb_next db)) (rid, a, Some (or_default sc [])) db = Some (row, db1)"
      and 2: "permissionCreateMany gen (permissionInputs rid ps) db1 = Some (rows1, db')"
    using Cons.prems by (auto simp: q permissionInputs_def split: option.splits)
  have "writes {rid} db db1"
    using 1 by (intro writes_step [OF rs_permission [OF 1]]) (auto simp: keepsRole_def permissionCreate_def Let_def split: if_splits)
  then show ?case using Cons.IH [OF 2] by (rule writes_trans)
qed (simp add: permissionInputs_def)

lemma userRoles_keep: "rb_roles db' = rb_roles db \<Longrightarrow> rb_permissions db' = rb_permissions db \<Longrightarrow> keepsRole i db db'"
  by (simp add: keepsRole_def)

lemma userRole_writes:
  "userRoleCreate r db = Some db' \<Longrightarrow> writes {} db db'" "userRoleRemove og u i db = (b, db') \<Longrightarrow> writes {} db db'"
  "teamRoleCreate t db = Some db' \<Longrightarrow> writes {} db db'" "teamRoleRemove og t' i db = (b, db') \<Longrightarrow> writes {} db db'"
  by ((rule writes_step, (erule rs_user_role rs_user_role_remove rs_team_role rs_team_role_remove);
      auto simp: userRoleCreate_def userRoleRemove_def teamRoleCreate_def teamRoleRemove_def Let_def
        intro!: userRoles_keep split: if_splits)+)

lemma addUserRoles_writes: "addUserRoles u cur m db = (r, db') \<Longrightarrow> writes {} db db'"
  by (induction u cur m db rule: addUserRoles.induct)
    (auto split: if_splits option.splits intro: writes_trans userRole_writes)

lemma addTeamRoles_writes: "addTeamRoles t cur m db = (r, db') \<Longrightarrow> writes {} db db'"
  by (induction t cur m db rule: addTeamRoles.induct)
    (auto split: if_splits option.splits intro: writes_trans userRole_writes)

lemma fold_writes: "(\<And>x d. writes S d (f x d)) \<Longrightarrow> writes S db (fold f xs db)"
  by (induction xs arbitrary: db) (auto intro: writes_trans)

lemma remove_writes: "writes {} d (snd (userRoleRemove og u i d))" "writes {} d (snd (teamRoleRemove og t i d))"
  by (rule userRole_writes(2) [OF surjective_pairing], rule userRole_writes(4) [OF surjective_pairing])

lemma set_writes:
  "setUserRoles og w us db = (r, db') \<Longrightarrow> writes {} db db'" "setTeamRoles og t us db = (r, db') \<Longrightarrow> writes {} db db'"
proof -
  have "writes {} db (fold (\<lambda>r d. if ur_roleId r \<in> fst ` set m then d else snd (userRoleRemove (ur_orgId r) w (ur_roleId r) d)) cur db)" for m cur
    by (rule fold_writes) (simp add: remove_writes)
  then show "setUserRoles og w us db = (r, db') \<Longrightarrow> writes {} db db'"
    unfolding setUserRoles_def Let_def
    by (cases "desiredRoles db og us") (auto dest!: addUserRoles_writes intro: writes_trans)
  have "writes {} db (fold (\<lambda>r d. if tr_roleId r \<in> fst ` set m then d else snd (teamRoleRemove (tr_orgId r) t (tr_roleId r) d)) cur db)" for m cur
    by (rule fold_writes) (simp add: remove_writes)
  then show "setTeamRoles og t us db = (r, db') \<Longrightarrow> writes {} db db'"
    unfolding setTeamRoles_def Let_def
    by (cases "desiredRoles db og us") (auto dest!: addTeamRoles_writes intro: writes_trans)
qed

lemma assign_writes:
  "assignRoleToUser og w u db = (r3, db') \<Longrightarrow> writes {} db db'" "unassignRoleFromUser og w u db = (r4, db') \<Longrightarrow> writes {} db db'"
  "assignRoleToTeam og t u db = (r3, db') \<Longrightarrow> writes {} db db'" "unassignRoleFromTeam og t u db = (r4, db') \<Longrightarrow> writes {} db db'"
  by (auto simp: assignRoleToUser_def unassignRoleFromUser_def assignRoleToTeam_def unassignRoleFromTeam_def
      split: option.splits if_splits intro: userRole_writes)

text \<open>The identifiers of the roles a step may write: new ones and those without a reserved name.\<close>

definition openIds :: "rbac_db \<Rightarrow> string set" where
  "openIds db = {i. \<forall>r\<in>set (rb_roles db). ro_id r = i \<longrightarrow> \<not> reservedName (ro_name r)}"

lemma writes_mono: "writes S db db' \<Longrightarrow> S \<subseteq> T \<Longrightarrow> writes T db db'"
  by (auto simp: writes_def)

lemma create_writes:
  assumes "createRole gen now ci db = (r, db')"
  shows "writes (openIds db) db db'"
proof -
  consider "db' = db" | inp role db1 where "roleCreate (gen (rb_next db)) now inp db = Some (role, db1)" "db' = db1"
    | inp role db1 perms where "roleCreate (gen (rb_next db)) now inp db = Some (role, db1)"
        "permissionCreateMany gen (permissionInputs (ro_id role) (ci_permissions ci)) db1 = Some (perms, db')"
    using assms unfolding createRole_def Let_def by (auto split: sum.splits if_splits option.splits)
  moreover have *: "writes (openIds db) db db1 \<and> {ro_id role} \<subseteq> openIds db" if "roleCreate (gen (rb_next db)) now inp db = Some (role, db1)" for inp role db1
  proof -
    have new: "ro_id role \<in> openIds db" using that by (auto simp: roleCreate_def Let_def openIds_def roleRow_def list_ex_iff split: if_splits)
    have "writes {ro_id role} db db1"
      by (rule writes_step [OF rs_role [OF that]])
        (use that in \<open>auto simp: keepsRole_def roleCreate_def Let_def roleRow_def split: if_splits\<close>)
    then show ?thesis using new writes_mono by blast
  qed
  ultimately show ?thesis
  proof cases
    case (3 inp role db1 perms)
    have "writes (openIds db) db1 db'" using createMany_writes [OF 3(2)] * [OF 3(1)] writes_mono by blast
    with * [OF 3(1)] show ?thesis by (blast intro: writes_trans)
  qed (simp, blast)
qed

lemma find_userRoles [simp]: "findAcrossScopes (db\<lparr>rb_userRoles := x\<rparr>) og u = findAcrossScopes db og u"
  by (simp add: findAcrossScopes_def roleFindByUid_def split: option.split)

lemma found_role: "findAcrossScopes db og u = Some r \<Longrightarrow> r \<in> set (rb_roles db) \<and> ro_uid r = u \<and> ro_orgId r \<in> {og, []}"
  by (auto simp: findAcrossScopes_def roleFindByUid_def split: option.splits dest!: find_Some_iff_first)

lemma found_open:
  assumes "rbacOk db" "findAcrossScopes db og u = Some r" "refuseProtected (ro_name r) = Inr ()"
  shows "ro_id r \<in> openIds db"
proof -
  have "x = r" if "x \<in> set (rb_roles db)" "ro_id x = ro_id r" for x
    using assms(1) that found_role [OF assms(2)] by (auto simp: rbacOk_def rbacKeys_def rolesKeyed_def distinct_map dest: inj_onD)
  then show ?thesis using assms(3) by (auto simp: openIds_def refuseProtected_def split: if_splits)
qed

lemma roleUpdate_writes:
  assumes "roleUpdate now i patch db = Some (r, db')"
  shows "writes {i} db db'"
proof (rule writes_step [OF rs_role_update [OF assms]])
  fix j assume "j \<notin> {i}"
  then have "filter (\<lambda>r. ro_id r = j) (map (\<lambda>r. if ro_id r = i then mergedRole now patch ex else r) rs) = filter (\<lambda>r. ro_id r = j) rs"
    if "ro_id ex = i" for ex rs using that by (induction rs) auto
  then show "keepsRole j db db'" using assms roleFindById_SomeD
    by (fastforce simp: keepsRole_def roleUpdate_def Let_def split: option.splits if_splits)
qed

lemma update_writes:
  assumes "rbacOk db" "updateRole gen now ui db = (r, db')"
  shows "writes (openIds db) db db'"
proof (cases "\<exists>ex. findAcrossScopes db (ui_orgId ui) (ui_roleUid ui) = Some ex \<and> refuseProtected (ro_name ex) = Inr ()")
  case False
  then have "db' = db" using assms(2) unfolding updateRole_def by (auto split: option.splits sum.splits)
  then show ?thesis by simp
next
  case True
  then obtain ex where ex: "findAcrossScopes db (ui_orgId ui) (ui_roleUid ui) = Some ex" "refuseProtected (ro_name ex) = Inr ()" by blast
  let ?i = "ro_id ex"
  consider "db' = db" | patch x where "roleUpdate now ?i patch db = Some (x, db')"
    | patch x db1 where "roleUpdate now ?i patch db = Some (x, db1)" "db' = snd (permissionDeleteByRole ?i db1)"
    | patch x db1 ps rows where "roleUpdate now ?i patch db = Some (x, db1)"
        "permissionCreateMany gen (permissionInputs ?i ps) (snd (permissionDeleteByRole ?i db1)) = Some (rows, db')"
    using assms(2) ex unfolding updateRole_def Let_def by (auto split: option.splits sum.splits if_splits prod.splits)
  moreover have "writes {?i} d (snd (permissionDeleteByRole ?i d))" for d
    by (rule writes_step [OF rs_permission_delete_role]) (simp add: keepsRole_def permissionDeleteByRole_def filter_other del: filter_filter)
  ultimately have "writes {?i} db db'"
    by cases (blast intro: roleUpdate_writes createMany_writes writes_trans writes_refl)+
  then show ?thesis using found_open [OF assms(1) ex] writes_mono by blast
qed

lemma delete_writes:
  assumes "rbacOk db" "deleteRole og u db = (r, db')"
  shows "writes (openIds db) db db'"
proof (cases "\<exists>ex. findAcrossScopes db og u = Some ex \<and> refuseProtected (ro_name ex) = Inr ()")
  case False
  then have "db' = db" using assms(2) unfolding deleteRole_def by (auto split: option.splits sum.splits)
  then show ?thesis by simp
next
  case True
  then obtain ex where ex: "findAcrossScopes db og u = Some ex" "refuseProtected (ro_name ex) = Inr ()" by blast
  obtain b where del: "roleDelete (ro_id ex) db = (b, db')" using assms(2) ex by (auto simp: deleteRole_def split: prod.splits)
  have "writes {ro_id ex} db db'"
    by (rule writes_step [OF rs_role_delete [OF del]])
      (use del in \<open>auto simp: keepsRole_def roleDelete_def filter_other simp del: filter_filter split: option.splits\<close>)
  then show ?thesis using found_open [OF assms(1) ex] writes_mono by blast
qed

lemma service_writes: "role_service_step gen db db' \<Longrightarrow> rbacOk db \<Longrightarrow> writes (openIds db) db db'"
  by (induction rule: role_service_step.induct)
    (blast intro: create_writes update_writes delete_writes assign_writes set_writes writes_mono)+

lemma service_rbacOk:
  assumes "(role_service_step gen)\<^sup>*\<^sup>* db db'" "rbacOk db"
  shows "rbacOk db'"
  using assms by induction (auto simp: writes_def dest!: service_writes intro: rbac.steps_inv)

section \<open>Assignments\<close>

text \<open>An assignment is recorded under the organisation of its role: its own, or none when it is global.\<close>

definition assignsLocal :: "rbac_db \<Rightarrow> bool" where
  "assignsLocal db \<longleftrightarrow> (\<forall>r\<in>set (rb_userRoles db). \<forall>ro\<in>set (rb_roles db). ro_id ro = ur_roleId r \<longrightarrow> ur_orgId r = ro_orgId ro)"

lemma roleOrg_found: "findAcrossScopes db og u = Some role \<Longrightarrow> roleOrg og role = ro_orgId role"
  using found_role by (force simp: roleOrg_def)

lemma listByUser_auth:
  "og \<noteq> [] \<Longrightarrow> set (listByUser (authTables db) u og) = {r \<in> set (rb_userRoles db). ur_userId r = u \<and> ur_orgId r \<in> {og, []}}"
  by (auto simp: listByUser_def authTables_def)

lemma hasRole_userRoles:
  assumes "rb_builtin db' = rb_builtin db" "rb_teamMembers db' = rb_teamMembers db" "rb_teamRoles db' = rb_teamRoles db"
  shows "hasRole (authTables db') i x \<longleftrightarrow>
    hasRole (authTables (db\<lparr>rb_userRoles := []\<rparr>)) i x
    \<or> (\<exists>m\<in>set (rb_userRoles db'). ur_userId m = id_userId i \<and> ur_orgId m \<in> {id_orgId i, []} \<and> ur_roleId m = x)"
  using assms by (auto simp: hasRole_def authTables_def)

text \<open>The two outcomes of an assignment that returns.\<close>

lemma assign_result:
  assumes "assignRoleToUser og u uid db = (Inr (), db')" "findAcrossScopes db og uid = Some role" "og \<noteq> []"
  shows "(db' = db \<and> (\<exists>r\<in>set (rb_userRoles db). ur_userId r = u \<and> ur_orgId r \<in> {og, []} \<and> ur_roleId r = ro_id role))
    \<or> (db' = db\<lparr>rb_userRoles := rb_userRoles db @ [\<lparr>ur_orgId = ro_orgId role, ur_userId = u, ur_roleId = ro_id role\<rparr>]\<rparr>
       \<and> u \<in> userIds db \<and> (\<forall>r\<in>set (rb_userRoles db). \<not> (ur_userId r = u \<and> ur_orgId r \<in> {og, []} \<and> ur_roleId r = ro_id role)))"
  using assms listByUser_auth [OF assms(3), of db u] roleOrg_found [OF assms(2)]
  by (auto simp: assignRoleToUser_def userRoleCreate_def list_ex_iff split: if_splits option.splits)

lemma assign_rows:
  assumes "assignRoleToUser og u uid db = (Inr (), db')" "findAcrossScopes db og uid = Some role" "og \<noteq> []" "assignsLocal db"
  shows "set (rb_userRoles db') = insert \<lparr>ur_orgId = ro_orgId role, ur_userId = u, ur_roleId = ro_id role\<rparr> (set (rb_userRoles db))"
  using assign_result [OF assms(1-3)]
proof
  assume *: "db' = db \<and> (\<exists>r\<in>set (rb_userRoles db). ur_userId r = u \<and> ur_orgId r \<in> {og, []} \<and> ur_roleId r = ro_id role)"
  then obtain r where r: "r \<in> set (rb_userRoles db)" "ur_userId r = u" "ur_roleId r = ro_id role" by blast
  have "ur_orgId r = ro_orgId role" using assms(4) r(1,3) found_role [OF assms(2)] unfolding assignsLocal_def by metis
  then have "r = \<lparr>ur_orgId = ro_orgId role, ur_userId = u, ur_roleId = ro_id role\<rparr>" using r(2,3) by simp
  then show ?thesis using * r(1) by auto
qed auto

lemma assign_hasRole:
  assumes "assignRoleToUser og u uid db = (Inr (), db')" "findAcrossScopes db og uid = Some role" "og \<noteq> []" "assignsLocal db"
  shows "hasRole (authTables db') i x \<longleftrightarrow>
    hasRole (authTables db) i x \<or> id_userId i = u \<and> x = ro_id role \<and> ro_orgId role \<in> {id_orgId i, []}"
proof -
  have same: "rb_builtin db' = rb_builtin db" "rb_teamMembers db' = rb_teamMembers db" "rb_teamRoles db' = rb_teamRoles db"
    using assign_result [OF assms(1-3)] by auto
  show ?thesis
    unfolding hasRole_userRoles [OF same] hasRole_userRoles [OF refl refl refl, of db] assign_rows [OF assms] by auto
qed

lemma remove_snd:
  "snd (userRoleRemove og u i d) =
     d\<lparr>rb_userRoles := filter (\<lambda>r. \<not> (ur_orgId r = og \<and> ur_userId r = u \<and> ur_roleId r = i)) (rb_userRoles d)\<rparr>"
  by (auto simp: userRoleRemove_def Let_def list_ex_iff filter_True)

lemma fold_remove:
  "fold (\<lambda>r d. if keep r then d else snd (userRoleRemove (ur_orgId r) u (ur_roleId r) d)) cur db =
     db\<lparr>rb_userRoles := filter (\<lambda>x. \<not> (\<exists>r\<in>set cur. \<not> keep r \<and> ur_orgId x = ur_orgId r \<and> ur_userId x = u \<and> ur_roleId x = ur_roleId r)) (rb_userRoles db)\<rparr>"
  by (induction cur arbitrary: db) (simp_all add: remove_snd)

lemma addUserRoles_rows:
  "addUserRoles u cur m db = (Inr (), db') \<Longrightarrow>
     set (rb_userRoles db') = set (rb_userRoles db) \<union> {\<lparr>ur_orgId = og, ur_userId = u, ur_roleId = i\<rparr> | i og. (i, og) \<in> set m \<and> i \<notin> ur_roleId ` set cur}"
proof (induction u cur m db rule: addUserRoles.induct)
  case (2 u cur i og m db)
  show ?case
  proof (cases "i \<in> ur_roleId ` set cur")
    case True
    then have yes: "list_ex (\<lambda>r. ur_roleId r = i) cur" by (auto simp: list_ex_iff)
    then have "addUserRoles u cur m db = (Inr (), db')" using "2.prems" by simp
    from "2.IH"(1) [OF yes this] show ?thesis using True by auto
  next
    case False
    then have no: "\<not> list_ex (\<lambda>r. ur_roleId r = i) cur" by (auto simp: list_ex_iff)
    then obtain db1 where db1: "userRoleCreate \<lparr>ur_orgId = og, ur_userId = u, ur_roleId = i\<rparr> db = Some db1"
        and rest: "addUserRoles u cur m db1 = (Inr (), db')"
      using "2.prems" by (auto split: option.splits)
    have "set (rb_userRoles db1) = insert \<lparr>ur_orgId = og, ur_userId = u, ur_roleId = i\<rparr> (set (rb_userRoles db))"
      using db1 by (auto simp: userRoleCreate_def split: if_splits)
    then show ?thesis using "2.IH"(2) [OF no db1 rest] False by auto
  qed
qed simp

lemma desired_rows:
  "desiredRoles db og us = Inr m \<Longrightarrow>
     fst ` set m = {ro_id r | r u. u \<in> set us \<and> findAcrossScopes db og u = Some r} \<and> (\<forall>p\<in>set m. snd p \<in> {og, []})"
proof (induction us arbitrary: m)
  case (Cons u us)
  obtain r m1 where r: "findAcrossScopes db og u = Some r" and m1: "desiredRoles db og us = Inr m1"
      and m: "m = (ro_id r, roleOrg og r) # filter (\<lambda>(i, _). i \<noteq> ro_id r) m1"
    using Cons.prems by (auto split: option.splits sum.splits)
  have "fst ` set m = insert (ro_id r) (fst ` set m1)" by (force simp: m)
  moreover have "\<forall>p\<in>set m. snd p \<in> {og, []}" using Cons.IH [OF m1] by (auto simp: m roleOrg_def)
  ultimately show ?case using Cons.IH [OF m1] r by auto
qed simp

lemma set_roles_rows:
  assumes ok: "setUserRoles og u us db = (Inr (), db')" and og: "og \<noteq> []"
  shows "ur_roleId ` set (listByUser (authTables db') u og) = {ro_id r | r w. w \<in> set us \<and> findAcrossScopes db og w = Some r}"
    "\<not> (ur_userId x = u \<and> ur_orgId x \<in> {og, []}) \<Longrightarrow> x \<in> set (rb_userRoles db') \<longleftrightarrow> x \<in> set (rb_userRoles db)"
proof -
  let ?cur = "listByUser (authTables db) u og"
  obtain m where m: "desiredRoles db og us = Inr m" using ok by (auto simp: setUserRoles_def Let_def split: sum.splits)
  define D where "D = fst ` set m"
  note cur = listByUser_auth [OF og, of db u]
  let ?kept = "filter (\<lambda>x. \<not> (\<exists>r\<in>set ?cur. ur_roleId r \<notin> D \<and> ur_orgId x = ur_orgId r \<and> ur_userId x = u \<and> ur_roleId x = ur_roleId r)) (rb_userRoles db)"
  have add: "addUserRoles u ?cur m (db\<lparr>rb_userRoles := ?kept\<rparr>) = (Inr (), db')"
    using ok by (simp add: setUserRoles_def m Let_def fold_remove D_def)
  have kept: "set ?kept = {x \<in> set (rb_userRoles db). ur_userId x = u \<and> ur_orgId x \<in> {og, []} \<longrightarrow> ur_roleId x \<in> D}"
    unfolding set_filter cur by auto
  have rows: "set (rb_userRoles db') = {x \<in> set (rb_userRoles db). ur_userId x = u \<and> ur_orgId x \<in> {og, []} \<longrightarrow> ur_roleId x \<in> D}
      \<union> {\<lparr>ur_orgId = o', ur_userId = u, ur_roleId = i\<rparr> | i o'. (i, o') \<in> set m \<and> i \<notin> ur_roleId ` set ?cur}"
    using addUserRoles_rows [OF add] kept by simp
  have orgs: "o' \<in> {og, []}" if "(i, o') \<in> set m" for i o' using desired_rows [OF m] that by fastforce
  have "ur_roleId ` set (listByUser (authTables db') u og) = D"
  proof
    have "ur_roleId x \<in> D" if "x \<in> set (rb_userRoles db')" "ur_userId x = u" "ur_orgId x \<in> {og, []}" for x
      using that(1) unfolding rows
    proof
      assume "x \<in> {\<lparr>ur_orgId = o', ur_userId = u, ur_roleId = i\<rparr> | i o'. (i, o') \<in> set m \<and> i \<notin> ur_roleId ` set ?cur}"
      then obtain i o' where "x = \<lparr>ur_orgId = o', ur_userId = u, ur_roleId = i\<rparr>" "(i, o') \<in> set m" by blast
      then show ?thesis by (simp add: D_def rev_image_eqI)
    qed (use that in blast)
    then show "ur_roleId ` set (listByUser (authTables db') u og) \<subseteq> D" unfolding listByUser_auth [OF og] by auto
    show "D \<subseteq> ur_roleId ` set (listByUser (authTables db') u og)"
    proof
      fix i assume "i \<in> D"
      then obtain o' where o': "(i, o') \<in> set m" by (auto simp: D_def)
      show "i \<in> ur_roleId ` set (listByUser (authTables db') u og)"
      proof (cases "i \<in> ur_roleId ` set ?cur")
        case True
        then show ?thesis using \<open>i \<in> D\<close> unfolding listByUser_auth [OF og] rows by auto
      next
        case False
        then show ?thesis using o' orgs [OF o'] unfolding listByUser_auth [OF og] rows by force
      qed
    qed
  qed
  then show "ur_roleId ` set (listByUser (authTables db') u og) = {ro_id r | r w. w \<in> set us \<and> findAcrossScopes db og w = Some r}"
    using desired_rows [OF m] by (simp add: D_def)
  show "\<not> (ur_userId x = u \<and> ur_orgId x \<in> {og, []}) \<Longrightarrow> x \<in> set (rb_userRoles db') \<longleftrightarrow> x \<in> set (rb_userRoles db)"
    unfolding rows by (auto dest: orgs)
qed

section \<open>Properties\<close>

text \<open>The example: an organisation with a role of its own, a global role, and an administrator.\<close>

definition exUserRow :: "string \<Rightarrow> User" where
  "exUserRow i = userRow 0 i \<lparr>nu_id = None, nu_email = i, nu_name = i, nu_login = i, nu_password = None, nu_salt = None, nu_rands = None,
     nu_company = None, nu_orgId = ''org'', nu_isAdmin = None, nu_emailVerified = None, nu_theme = None, nu_helpFlags1 = None,
     nu_isDisabled = None, nu_isServiceAccount = None\<rparr>"

definition exRole :: "string \<Rightarrow> string \<Rightarrow> string \<Rightarrow> Role" where
  "exRole i og name = \<lparr>ro_id = i, ro_version = 0, ro_orgId = og, ro_name = name, ro_uid = name, ro_displayName = None,
     ro_description = None, ro_groupName = None, ro_hidden = False, ro_created = 0, ro_updated = 0\<rparr>"

definition exRbac :: rbac_db where
  "exRbac = \<lparr>rb_accounts = \<lparr>ak_orgs = [''org'', ''other''], ak_users = [exUserRow ''u'', exUserRow ''v''], ak_orgUsers = []\<rparr>,
     rb_roles = [exRole ''1'' ''org'' ''admins'', exRole ''2'' [] ''basic:server_admin''],
     rb_permissions = [(''p'', \<lparr>pe_roleId = ''1'', pe_action = ''roles:write'', pe_scope = ''roles:*''\<rparr>),
       (''q'', \<lparr>pe_roleId = ''2'', pe_action = ''orgs:delete'', pe_scope = []\<rparr>)],
     rb_builtin = [], rb_userRoles = [\<lparr>ur_orgId = ''org'', ur_userId = ''u'', ur_roleId = ''1''\<rparr>], rb_teamRoles = [], rb_teams = [],
     rb_teamMembers = [], rb_next = 0\<rparr>"

lemma exRbac_ok: "rbacOk exRbac" "assignsLocal exRbac"
  by (auto simp: exRbac_def rbacOk_simps rolesKeyed_def teamsKeyed_def exRole_def exUserRow_def userRow_def assignsLocal_def)

definition exWriter :: Identity where
  "exWriter = \<lparr>id_userId = ''u'', id_orgId = ''org'', id_orgRole = ''None'', id_isServerAdmin = False, id_authenticatedBy = ''session'',
     id_permissions = None, id_sessionId = None, id_serviceAccountId = None\<rparr>"

text \<open>An assignment that returns gives the user exactly the one role more, in the organisation of the
  role, or in every organisation when the role is global; nobody else's roles change. When it was new,
  taking it back restores the database.\<close>

theorem role_assignment_exact:
  assumes "assignRoleToUser og u uid db = (Inr (), db')" "findAcrossScopes db og uid = Some role" "og \<noteq> []" "assignsLocal db"
  shows "(\<forall>i x. hasRole (authTables db') i x \<longleftrightarrow>
      hasRole (authTables db) i x \<or> id_userId i = u \<and> x = ro_id role \<and> ro_orgId role \<in> {id_orgId i, []})
    \<and> (db' \<noteq> db \<longrightarrow> unassignRoleFromUser og u uid db' = (True, db))"
proof (intro conjI allI impI)
  show "hasRole (authTables db') i x \<longleftrightarrow>
      hasRole (authTables db) i x \<or> id_userId i = u \<and> x = ro_id role \<and> ro_orgId role \<in> {id_orgId i, []}" for i x
    by (rule assign_hasRole [OF assms])
  assume "db' \<noteq> db"
  then have db': "db' = db\<lparr>rb_userRoles := rb_userRoles db @ [\<lparr>ur_orgId = ro_orgId role, ur_userId = u, ur_roleId = ro_id role\<rparr>]\<rparr>"
      and none: "\<forall>r\<in>set (rb_userRoles db). \<not> (ur_userId r = u \<and> ur_orgId r \<in> {og, []} \<and> ur_roleId r = ro_id role)"
    using assign_result [OF assms(1-3)] by auto
  have "findAcrossScopes db' og uid = Some role" using assms(2) by (simp add: db')
  moreover have "ro_orgId role \<in> {og, []}" using found_role [OF assms(2)] by blast
  then have "filter (\<lambda>r. \<not> (ur_orgId r = ro_orgId role \<and> ur_userId r = u \<and> ur_roleId r = ro_id role)) (rb_userRoles db) = rb_userRoles db"
    using none by (intro filter_True) auto
  ultimately show "unassignRoleFromUser og u uid db' = (True, db)"
    by (simp add: unassignRoleFromUser_def roleOrg_found [OF assms(2)] userRoleRemove_def db')
qed

theorem role_assignment_exact_witness:
  "\<exists>db'. assignRoleToUser ''org'' ''v'' ''admins'' exRbac = (Inr (), db') \<and> hasRole (authTables db') (exWriter\<lparr>id_userId := ''v''\<rparr>) ''1''
    \<and> unassignRoleFromUser ''org'' ''v'' ''admins'' db' = (True, exRbac)"
proof -
  let ?db = "exRbac\<lparr>rb_userRoles := rb_userRoles exRbac @ [\<lparr>ur_orgId = ''org'', ur_userId = ''v'', ur_roleId = ''1''\<rparr>]\<rparr>"
  have 1: "assignRoleToUser ''org'' ''v'' ''admins'' exRbac = (Inr (), ?db)" by code_simp
  have 2: "findAcrossScopes exRbac ''org'' ''admins'' = Some (exRole ''1'' ''org'' ''admins'')" by code_simp
  have "?db \<noteq> exRbac" by (simp add: exRbac_def)
  then show ?thesis using role_assignment_exact [OF 1 2 _ exRbac_ok(2)] 1 by (auto simp: exRole_def exWriter_def)
qed

text \<open>C22: setting the roles of a user in an organisation leaves him exactly the roles named there, and does
  not touch the assignments of others or in other organisations. Global assignments count as assignments
  of the organisation: those not named are taken away everywhere.\<close>

theorem set_user_roles_exact:
  assumes "setUserRoles og u us db = (Inr (), db')" "og \<noteq> []"
  shows "ur_roleId ` set (listByUser (authTables db') u og) = {ro_id r | r w. w \<in> set us \<and> findAcrossScopes db og w = Some r}
    \<and> (\<forall>x. \<not> (ur_userId x = u \<and> ur_orgId x \<in> {og, []}) \<longrightarrow> (x \<in> set (rb_userRoles db') \<longleftrightarrow> x \<in> set (rb_userRoles db)))"
  using set_roles_rows [OF assms] by blast

theorem set_user_roles_exact_witness:
  "\<exists>db'. setUserRoles ''org'' ''u'' [''basic:server_admin''] exRbac = (Inr (), db')
     \<and> ur_roleId ` set (listByUser (authTables db') ''u'' ''org'') = {''2''}"
proof -
  let ?db = "exRbac\<lparr>rb_userRoles := [\<lparr>ur_orgId = [], ur_userId = ''u'', ur_roleId = ''2''\<rparr>]\<rparr>"
  have 1: "setUserRoles ''org'' ''u'' [''basic:server_admin''] exRbac = (Inr (), ?db)" by code_simp
  have 2: "findAcrossScopes exRbac ''org'' ''basic:server_admin'' = Some (exRole ''2'' [] ''basic:server_admin'')" by code_simp
  show ?thesis using set_user_roles_exact [OF 1] 1 2 by (simp add: exRole_def)
qed

text \<open>C16: built-in and fixed roles are read-only through the service: whatever sequence of its operations
  runs, with whatever outcome, the row of such a role and its permission rows stay as they are.\<close>

theorem builtin_roles_immutable:
  assumes "(role_service_step gen)\<^sup>*\<^sup>* db db'" "rbacOk db" "r \<in> set (rb_roles db)" "reservedName (ro_name r)"
  shows "r \<in> set (rb_roles db')
    \<and> filter (\<lambda>p. pe_roleId (snd p) = ro_id r) (rb_permissions db') = filter (\<lambda>p. pe_roleId (snd p) = ro_id r) (rb_permissions db)"
  using assms(1)
proof (induction rule: rtranclp_induct)
  case base
  then show ?case using assms(3) by simp
next
  case (step db1 db2)
  have "ro_id r \<notin> openIds db1" using step.IH assms(4) by (auto simp: openIds_def)
  moreover have "rbacOk db1" by (rule service_rbacOk [OF step.hyps(1) assms(2)])
  ultimately have keep: "keepsRole (ro_id r) db1 db2" using service_writes [OF step.hyps(2)] by (auto simp: writes_def)
  have "r \<in> set (filter (\<lambda>x. ro_id x = ro_id r) (rb_roles db1))" using step.IH by simp
  then have "r \<in> set (filter (\<lambda>x. ro_id x = ro_id r) (rb_roles db2))" using keep by (simp only: keepsRole_def)
  then show ?case using keep step.IH by (simp add: keepsRole_def)
qed

theorem builtin_roles_immutable_witness:
  "\<exists>res db'. deleteRole ''org'' ''basic:server_admin'' exRbac = (res, db') \<and> res = Inl RoleReadOnly
     \<and> exRole ''2'' [] ''basic:server_admin'' \<in> set (rb_roles db')"
proof -
  have 1: "deleteRole ''org'' ''basic:server_admin'' exRbac = (Inl RoleReadOnly, exRbac)" by code_simp
  have "exRole ''2'' [] ''basic:server_admin'' \<in> set (rb_roles exRbac)" "reservedName (ro_name (exRole ''2'' [] ''basic:server_admin''))"
    by (simp_all add: exRbac_def exRole_def reservedName_def starts_with_def)
  from builtin_roles_immutable [OF r_into_rtranclp [where r = "role_service_step (\<lambda>_. [])", OF sv_delete [OF 1]] exRbac_ok(1) this]
  show ?thesis using 1 by blast
qed

text \<open>C38: whoever may write roles in one organisation can assign a global role, Server Admin included,
  to any user: the request succeeds, and from then on the user has every permission of the role in every
  organisation. Neither the route nor the service asks whether the caller holds the role.\<close>

theorem global_role_assignment_escalates:
  assumes "fst (acEvaluate deps who (ac_eval ACTIONS_RolesWrite (OneScope ''roles:*'')))" "id_orgId who \<noteq> []"
    and "roleFindByUid db (id_orgId who) uid = None" "roleFindByUid db [] uid = Some role" "uid \<noteq> []"
    and "target \<in> userIds db" "assignsLocal db" "\<forall>p\<in>set (rb_permissions db). CHR ''|'' \<notin> set (pe_action (snd p))"
  shows "\<exists>db'. handleAssignUserRole deps (Some who) target (Some uid) db = (RoleOk (), db')
    \<and> (\<forall>i p. id_userId i = target \<longrightarrow> id_orgId i \<noteq> [] \<longrightarrow> p \<in> set (rb_permissions db) \<longrightarrow> pe_roleId (snd p) = ro_id role \<longrightarrow>
         \<lparr>rp_action = pe_action (snd p), rp_scope = pe_scope (snd p)\<rparr> \<in> set (getUserPermissions (authTables db') i))"
proof -
  obtain who' where gate: "acEvaluate deps who (ac_eval ACTIONS_RolesWrite (OneScope ''roles:*'')) = (True, who')"
    using assms(1) by (cases "acEvaluate deps who (ac_eval ACTIONS_RolesWrite (OneScope ''roles:*''))") simp
  have "who' = snd (ensurePermissions (ad_tables deps) who)" using acEvaluate_identity gate by (metis snd_conv)
  then have org: "id_orgId who' = id_orgId who" by (auto simp: ensurePermissions_def Let_def split: option.splits)
  have found: "findAcrossScopes db (id_orgId who) uid = Some role" using assms(3,4) by (simp add: findAcrossScopes_def)
  have role: "role \<in> set (rb_roles db)" "ro_orgId role = []"
    using assms(4) by (auto simp: roleFindByUid_def dest!: find_Some_iff_first)
  let ?r = "\<lparr>ur_orgId = [], ur_userId = target, ur_roleId = ro_id role\<rparr>"
  have "fst (assignRoleToUser (id_orgId who) target uid db) = Inr ()"
  proof (cases "list_ex (\<lambda>r. ur_roleId r = ro_id role) (listByUser (authTables db) target (id_orgId who))")
    case True
    then show ?thesis by (simp add: assignRoleToUser_def found)
  next
    case False
    have "?r \<notin> set (rb_userRoles db)"
    proof
      assume "?r \<in> set (rb_userRoles db)"
      then have "?r \<in> set (listByUser (authTables db) target (id_orgId who))" by (simp add: listByUser_auth [OF assms(2)])
      then show False using False by (force simp: list_ex_iff)
    qed
    then show ?thesis using False assms(6) role
      by (simp add: assignRoleToUser_def found roleOrg_def userRoleCreate_def roleIds_def)
  qed
  then obtain db' where db': "assignRoleToUser (id_orgId who) target uid db = (Inr (), db')"
    by (cases "assignRoleToUser (id_orgId who) target uid db") auto
  have perms: "rb_permissions db' = rb_permissions db" using assign_result [OF db' found assms(2)] by auto
  have "hasRole (authTables db') i (ro_id role)" if "id_userId i = target" for i
    using assign_hasRole [OF db' found assms(2,7)] that role(2) by simp
  have "at_permissions (authTables db') = map snd (rb_permissions db)" by (simp add: authTables_def perms)
  then have "\<lparr>rp_action = pe_action (snd p), rp_scope = pe_scope (snd p)\<rparr> \<in> set (getUserPermissions (authTables db') i)"
    if "id_userId i = target" "id_orgId i \<noteq> []" "p \<in> set (rb_permissions db)" "pe_roleId (snd p) = ro_id role" for i p
  proof -
    have "\<forall>p\<in>set (at_permissions (authTables db')). CHR ''|'' \<notin> set (pe_action p)"
      using assms(8) \<open>at_permissions (authTables db') = map snd (rb_permissions db)\<close> by simp
    from getUserPermissions_set [OF that(2) this] show ?thesis
      using that(1,3,4) \<open>\<And>i. id_userId i = target \<Longrightarrow> hasRole (authTables db') i (ro_id role)\<close>
        \<open>at_permissions (authTables db') = map snd (rb_permissions db)\<close> by auto
  qed
  moreover have "handleAssignUserRole deps (Some who) target (Some uid) db = (RoleOk (), db')"
    unfolding handleAssignUserRole_def requirePermission_def option.case gate prod.case using db' assms(5) by (simp add: org)
  ultimately show ?thesis by blast
qed

definition exRoleDeps :: AccessControlDeps where
  "exRoleDeps = \<lparr>ad_tables = authTables exRbac, ad_resolvers = None, ad_legacyAcl = None, ad_LEGACY_ACL_ENABLED = None\<rparr>"

theorem global_role_assignment_escalates_witness:
  "\<not> list_ex (\<lambda>p. rp_action p = ''orgs:delete'') (getUserPermissions (authTables exRbac) (exWriter\<lparr>id_orgId := ''other''\<rparr>))
   \<and> (\<exists>db'. handleAssignUserRole exRoleDeps (Some exWriter) ''u'' (Some ''basic:server_admin'') exRbac = (RoleOk (), db')
        \<and> \<lparr>rp_action = ''orgs:delete'', rp_scope = []\<rparr> \<in> set (getUserPermissions (authTables db') (exWriter\<lparr>id_orgId := ''other''\<rparr>)))"
proof -
  have gate: "fst (acEvaluate exRoleDeps exWriter (ac_eval ACTIONS_RolesWrite (OneScope ''roles:*'')))" by code_simp
  have roles: "roleFindByUid exRbac (id_orgId exWriter) ''basic:server_admin'' = None"
    "roleFindByUid exRbac [] ''basic:server_admin'' = Some (exRole ''2'' [] ''basic:server_admin'')" by code_simp+
  have user: "''u'' \<in> userIds exRbac" by (simp add: userIds_def exRbac_def exUserRow_def userRow_def)
  have bars: "\<forall>p\<in>set (rb_permissions exRbac). CHR ''|'' \<notin> set (pe_action (snd p))" by (simp add: exRbac_def)
  have org: "id_orgId exWriter \<noteq> []" by (simp add: exWriter_def)
  have mem: "(''q'', \<lparr>pe_roleId = ''2'', pe_action = ''orgs:delete'', pe_scope = []\<rparr>) \<in> set (rb_permissions exRbac)" by (simp add: exRbac_def)
  obtain db' where db': "handleAssignUserRole exRoleDeps (Some exWriter) ''u'' (Some ''basic:server_admin'') exRbac = (RoleOk (), db')"
    and all: "\<And>i p. id_userId i = ''u'' \<Longrightarrow> id_orgId i \<noteq> [] \<Longrightarrow> p \<in> set (rb_permissions exRbac)
       \<Longrightarrow> pe_roleId (snd p) = ro_id (exRole ''2'' [] ''basic:server_admin'')
       \<Longrightarrow> \<lparr>rp_action = pe_action (snd p), rp_scope = pe_scope (snd p)\<rparr> \<in> set (getUserPermissions (authTables db') i)"
    using global_role_assignment_escalates [OF gate org roles _ user exRbac_ok(2) bars] by blast
  have "\<not> list_ex (\<lambda>p. rp_action p = ''orgs:delete'') (getUserPermissions (authTables exRbac) (exWriter\<lparr>id_orgId := ''other''\<rparr>))" by code_simp
  then show ?thesis using db' all [OF _ _ mem, of "exWriter\<lparr>id_orgId := ''other''\<rparr>"] by (auto simp: exWriter_def exRole_def)
qed



end
