(* ===== verification/Rbac_Seed.thy ===== *)
theory Rbac_Seed
  imports Role_Service Rbac_Fixed_Roles
begin

text \<open>
  The seed of the role tables (\<open>data-layer/src/seed/rbac-seed.ts\<close>): the catalogs of built-in and fixed
  roles become rows, with one set of basic roles per organisation and the rest global.

  Results: seeding empty tables succeeds, and afterwards a member of the organisation has exactly the
  permissions the catalog resolves for his organisation role, and a Server Admin those of that role;
  seeding again changes nothing.
\<close>

section \<open>Definitions\<close>

record SeedRbacResult =
  sr_rolesInserted :: nat
  sr_permissionsInserted :: nat
  sr_builtinMappingsInserted :: nat

fun syncLoop :: "(nat \<Rightarrow> string) \<Rightarrow> string \<Rightarrow> string list \<Rightarrow> ResolvedPermission list \<Rightarrow> rbac_db \<Rightarrow> (nat \<times> rbac_db) option" where
  "syncLoop gen roleId have [] db = Some (0, db)"
| "syncLoop gen roleId have (p # ps) db =
     (if perm_key p \<in> set have then syncLoop gen roleId have ps db
      else case permissionCreate (gen (rb_next db)) (roleId, rp_action p, Some (rp_scope p)) db of
        None \<Rightarrow> None
      | Some (_, db1) \<Rightarrow> map_option (\<lambda>(n, d). (Suc n, d)) (syncLoop gen roleId have ps db1))"

definition syncPermissions :: "(nat \<Rightarrow> string) \<Rightarrow> string \<Rightarrow> ResolvedPermission list \<Rightarrow> rbac_db \<Rightarrow> (nat \<times> rbac_db) option" where
  "syncPermissions gen roleId desired db =
     syncLoop gen roleId (map (\<lambda>p. permKey (snd p)) (permissionListByRole db roleId)) desired db"

text \<open>The common part of the three loops: find or create the role, then add what permissions it lacks.\<close>

definition seedRole :: "(nat \<Rightarrow> string) \<Rightarrow> int \<Rightarrow> NewRole \<Rightarrow> ResolvedPermission list \<Rightarrow> SeedRbacResult \<times> rbac_db
    \<Rightarrow> (string \<times> SeedRbacResult \<times> rbac_db) option" where
  "seedRole gen now inp desired st =
     (case st of (res, db) \<Rightarrow>
        case (case roleFindByUid db (nro_orgId inp) (nro_uid inp) of
                Some existing \<Rightarrow> Some (ro_id existing, res, db)
              | None \<Rightarrow> map_option (\<lambda>(row, db1). (ro_id row, res\<lparr>sr_rolesInserted := sr_rolesInserted res + 1\<rparr>, db1))
                          (roleCreate (gen (rb_next db)) now inp db)) of
          None \<Rightarrow> None
        | Some (roleId, res1, db1) \<Rightarrow>
            map_option (\<lambda>(n, db2). (roleId, res1\<lparr>sr_permissionsInserted := sr_permissionsInserted res1 + n\<rparr>, db2))
              (syncPermissions gen roleId desired db1))"

definition fixedSeed :: "FixedRoleDefinition \<Rightarrow> NewRole" where
  "fixedSeed d = \<lparr>nro_orgId = [], nro_name = fr_name d, nro_uid = fr_uid d, nro_displayName = Some (fr_displayName d),
     nro_description = Some (fr_description d), nro_groupName = Some (fr_groupName d), nro_hidden = Some (or_default (fr_hidden d) False)\<rparr>"

fun seedFixed :: "(nat \<Rightarrow> string) \<Rightarrow> int \<Rightarrow> FixedRoleDefinition list \<Rightarrow> SeedRbacResult \<times> rbac_db \<Rightarrow> (SeedRbacResult \<times> rbac_db) option" where
  "seedFixed gen now [] st = Some st"
| "seedFixed gen now (d # ds) st =
     (case seedRole gen now (fixedSeed d) (fr_permissions d) st of
        None \<Rightarrow> None
      | Some (_, st1) \<Rightarrow> seedFixed gen now ds st1)"

definition basicSeed :: "string \<Rightarrow> BasicRoleDefinition \<Rightarrow> NewRole" where
  "basicSeed orgId d = \<lparr>nro_orgId = orgId, nro_name = br_name d, nro_uid = br_uid d, nro_displayName = Some (br_displayName d),
     nro_description = Some (br_description d), nro_groupName = Some ''Basic'', nro_hidden = None\<rparr>"

text \<open>A basic role and its mapping from the built-in role name, counted when it is new.\<close>

definition seedBasicRole :: "(nat \<Rightarrow> string) \<Rightarrow> int \<Rightarrow> string \<Rightarrow> string \<Rightarrow> BasicRoleDefinition \<Rightarrow> SeedRbacResult \<times> rbac_db
    \<Rightarrow> (SeedRbacResult \<times> rbac_db) option" where
  "seedBasicRole gen now orgId mapRole d st =
     (case seedRole gen now (basicSeed orgId d) (or_default (resolveBasicRolePermissions (br_name d)) []) st of
        None \<Rightarrow> None
      | Some (roleId, res, db) \<Rightarrow>
          let before = findBuiltinRole db mapRole orgId roleId in
          map_option (\<lambda>(_, db1). (if before = None then res\<lparr>sr_builtinMappingsInserted := sr_builtinMappingsInserted res + 1\<rparr> else res, db1))
            (upsertBuiltinRole \<lparr>br_role = mapRole, br_roleId = roleId, br_orgId = orgId\<rparr> db))"

fun seedBasics :: "(nat \<Rightarrow> string) \<Rightarrow> int \<Rightarrow> string \<Rightarrow> BasicRoleDefinition list \<Rightarrow> SeedRbacResult \<times> rbac_db \<Rightarrow> (SeedRbacResult \<times> rbac_db) option" where
  "seedBasics gen now orgId [] st = Some st"
| "seedBasics gen now orgId (d # ds) st =
     (if br_global d then seedBasics gen now orgId ds st
      else case seedBasicRole gen now orgId (br_builtinMappingRole d) d st of
        None \<Rightarrow> None
      | Some st1 \<Rightarrow> seedBasics gen now orgId ds st1)"

definition findBasic :: "string \<Rightarrow> BasicRoleDefinition option" where
  "findBasic name = List.find (\<lambda>d. br_name d = name) BASIC_ROLE_DEFINITIONS"

definition noInserts :: SeedRbacResult where
  "noInserts = \<lparr>sr_rolesInserted = 0, sr_permissionsInserted = 0, sr_builtinMappingsInserted = 0\<rparr>"

definition seedRbacForOrg :: "(nat \<Rightarrow> string) \<Rightarrow> int \<Rightarrow> string \<Rightarrow> rbac_db \<Rightarrow> (SeedRbacResult \<times> rbac_db) option" where
  "seedRbacForOrg gen now orgId db =
     (if orgId = [] then None
      else case seedFixed gen now FIXED_ROLE_DEFINITIONS (noInserts, db) of
        None \<Rightarrow> None
      | Some st1 \<Rightarrow>
          (case findBasic ''basic:server_admin'' of
             None \<Rightarrow> None
           | Some serverAdminDef \<Rightarrow>
               (case seedBasicRole gen now [] ''Server Admin'' serverAdminDef st1 of
                  None \<Rightarrow> None
                | Some st2 \<Rightarrow> seedBasics gen now orgId BASIC_ROLE_DEFINITIONS st2)))"

section \<open>Seeding one role\<close>

definition permsOf :: "rbac_db \<Rightarrow> string \<Rightarrow> ResolvedPermission set" where
  "permsOf db i = (\<lambda>p. \<lparr>rp_action = pe_action (snd p), rp_scope = pe_scope (snd p)\<rparr>) ` {p \<in> set (rb_permissions db). pe_roleId (snd p) = i}"

text \<open>Identifiers not handed out yet are not in use, and the keys of permissions are unambiguous.\<close>

definition seedReady :: "(nat \<Rightarrow> string) \<Rightarrow> rbac_db \<Rightarrow> bool" where
  "seedReady gen db \<longleftrightarrow> rbacOk db \<and> (\<forall>n\<ge>rb_next db. gen n \<notin> roleIds db \<and> gen n \<notin> fst ` set (rb_permissions db))
     \<and> (\<forall>p\<in>set (rb_permissions db). CHR ''|'' \<notin> set (pe_action (snd p)))"

definition sameBut :: "rbac_db \<Rightarrow> rbac_db \<Rightarrow> bool" where
  "sameBut db db' \<longleftrightarrow> rb_builtin db' = rb_builtin db \<and> rb_userRoles db' = rb_userRoles db \<and> rb_teamRoles db' = rb_teamRoles db
     \<and> rb_teamMembers db' = rb_teamMembers db \<and> rb_teams db' = rb_teams db"

lemma sameBut_trans: "sameBut a b \<Longrightarrow> sameBut b c \<Longrightarrow> sameBut a c"
  by (simp add: sameBut_def)

lemma permission_row:
  assumes "permissionCreate i (rid, a, Some sc) db = Some (row, db')"
  shows "rb_roles db' = rb_roles db \<and> sameBut db db' \<and> rb_next db' = Suc (rb_next db)
    \<and> permsOf db' rid = insert \<lparr>rp_action = a, rp_scope = sc\<rparr> (permsOf db rid) \<and> (\<forall>j. j \<noteq> rid \<longrightarrow> permsOf db' j = permsOf db j)"
proof -
  let ?row = "(i, \<lparr>pe_roleId = rid, pe_action = a, pe_scope = sc\<rparr>)"
  have db': "db' = db\<lparr>rb_permissions := rb_permissions db @ [?row], rb_next := Suc (rb_next db)\<rparr>"
    using assms by (auto simp: permissionCreate_def Let_def split: if_splits)
  have "{p \<in> set (rb_permissions db'). pe_roleId (snd p) = j}
      = (if j = rid then {?row} else {}) \<union> {p \<in> set (rb_permissions db). pe_roleId (snd p) = j}" for j
    by (auto simp: db')
  then show ?thesis by (simp add: db' permsOf_def sameBut_def)
qed

lemma permission_ready:
  assumes "inj gen" "seedReady gen db" "rid \<in> roleIds db" "CHR ''|'' \<notin> set a"
  shows "\<exists>row db'. permissionCreate (gen (rb_next db)) (rid, a, Some sc) db = Some (row, db') \<and> seedReady gen db'"
proof -
  let ?row = "(gen (rb_next db), \<lparr>pe_roleId = rid, pe_action = a, pe_scope = sc\<rparr>)"
  let ?db = "db\<lparr>rb_permissions := rb_permissions db @ [?row], rb_next := Suc (rb_next db)\<rparr>"
  have cr: "permissionCreate (gen (rb_next db)) (rid, a, Some sc) db = Some (?row, ?db)"
    using assms(2,3) by (simp add: permissionCreate_def seedReady_def Let_def)
  have "rbacOk ?db" using permission_ok(1) [OF _ cr] assms(2) by (simp add: seedReady_def)
  moreover have "gen n \<noteq> gen (rb_next db)" if "n \<ge> Suc (rb_next db)" for n using assms(1) that by (auto dest: injD)
  ultimately have "seedReady gen ?db" using assms(2,4) by (auto simp: seedReady_def roleIds_def)
  then show ?thesis using cr by blast
qed

lemma syncLoop_ready:
  assumes gen: "inj gen"
  shows "seedReady gen db \<Longrightarrow> rid \<in> roleIds db \<Longrightarrow> (\<forall>p\<in>set ps. CHR ''|'' \<notin> set (rp_action p)) \<Longrightarrow>
    \<exists>n db'. syncLoop gen rid have ps db = Some (n, db') \<and> seedReady gen db' \<and> rb_roles db' = rb_roles db \<and> sameBut db db'
      \<and> permsOf db' rid = permsOf db rid \<union> {p \<in> set ps. perm_key p \<notin> set have} \<and> (\<forall>j. j \<noteq> rid \<longrightarrow> permsOf db' j = permsOf db j)"
proof (induction ps arbitrary: db)
  case (Cons p ps)
  show ?case
  proof (cases "perm_key p \<in> set have")
    case True
    then show ?thesis using Cons.IH [OF Cons.prems(1,2)] Cons.prems(3) by auto
  next
    case False
    obtain row db1 where 1: "permissionCreate (gen (rb_next db)) (rid, rp_action p, Some (rp_scope p)) db = Some (row, db1)" "seedReady gen db1"
      using permission_ready [OF gen Cons.prems(1,2)] Cons.prems(3) by fastforce
    note P = permission_row [OF 1(1)]
    have "rid \<in> roleIds db1" using P Cons.prems(2) by (simp add: roleIds_def)
    then obtain n db' where 2: "syncLoop gen rid have ps db1 = Some (n, db')" "seedReady gen db'" "rb_roles db' = rb_roles db1" "sameBut db1 db'"
        "permsOf db' rid = permsOf db1 rid \<union> {p \<in> set ps. perm_key p \<notin> set have}" "\<forall>j. j \<noteq> rid \<longrightarrow> permsOf db' j = permsOf db1 j"
      using Cons.IH [OF 1(2)] Cons.prems(3) by auto
    have eta: "\<lparr>rp_action = rp_action p, rp_scope = rp_scope p\<rparr> = p" by simp
    show ?thesis using False 1(1) P [unfolded eta] 2 by (auto intro: sameBut_trans)
  qed
qed (simp add: sameBut_def)

lemma perm_key_eq:
  assumes "perm_key p = perm_key q" "CHR ''|'' \<notin> set (rp_action p)" "CHR ''|'' \<notin> set (rp_action q)"
  shows "p = q"
proof -
  have "permKey \<lparr>pe_roleId = [], pe_action = rp_action p, pe_scope = rp_scope p\<rparr> = permKey \<lparr>pe_roleId = [], pe_action = rp_action q, pe_scope = rp_scope q\<rparr>"
    using assms(1) by (simp add: perm_key_def permKey_def)
  then have "rp_action p = rp_action q \<and> rp_scope p = rp_scope q" using permKey_inj assms(2,3) by force
  then show ?thesis by simp
qed

text \<open>Synchronising the permissions of a role adds the ones it lacks and nothing else.\<close>

lemma syncPermissions_ready:
  assumes "inj gen" "seedReady gen db" "rid \<in> roleIds db" "\<forall>p\<in>set ps. CHR ''|'' \<notin> set (rp_action p)"
  shows "\<exists>n db'. syncPermissions gen rid ps db = Some (n, db') \<and> seedReady gen db' \<and> rb_roles db' = rb_roles db \<and> sameBut db db'
    \<and> permsOf db' rid = permsOf db rid \<union> set ps \<and> (\<forall>j. j \<noteq> rid \<longrightarrow> permsOf db' j = permsOf db j)"
proof -
  let ?have = "map (\<lambda>p. permKey (snd p)) (permissionListByRole db rid)"
  have bars: "CHR ''|'' \<notin> set (rp_action q)" if "q \<in> permsOf db rid" for q
    using that assms(2) by (auto simp: permsOf_def seedReady_def)
  have key: "permKey (snd x) = perm_key \<lparr>rp_action = pe_action (snd x), rp_scope = pe_scope (snd x)\<rparr>" for x
    by (simp add: permKey_def perm_key_def)
  have "set ?have = perm_key ` permsOf db rid"
    by (simp add: permissionListByRole_def permsOf_def key image_image)
  then have "p \<in> permsOf db rid" if p: "p \<in> set ps" "perm_key p \<in> set ?have" for p
  proof -
    have "perm_key p \<in> perm_key ` permsOf db rid" using p(2) \<open>set ?have = perm_key ` permsOf db rid\<close> by simp
    then obtain q where q: "q \<in> permsOf db rid" "perm_key p = perm_key q" by auto
    then have "p = q" using perm_key_eq bars assms(4) p(1) by blast
    then show ?thesis using q(1) by simp
  qed
  then have "permsOf db rid \<union> {p \<in> set ps. perm_key p \<notin> set ?have} = permsOf db rid \<union> set ps" by auto
  then show ?thesis using syncLoop_ready [OF assms, of ?have] by (simp only: syncPermissions_def)
qed

lemma syncLoop_idle: "(\<forall>p\<in>set ps. perm_key p \<in> set have) \<Longrightarrow> syncLoop gen rid have ps db = Some (0, db)"
  by (induction ps) auto

lemma syncPermissions_idle:
  assumes "set ps \<subseteq> permsOf db rid"
  shows "syncPermissions gen rid ps db = Some (0, db)"
proof -
  have "perm_key p \<in> set (map (\<lambda>p. permKey (snd p)) (permissionListByRole db rid))" if "p \<in> set ps" for p
    using that assms by (force simp: permissionListByRole_def permsOf_def permKey_def perm_key_def)
  then show ?thesis unfolding syncPermissions_def by (intro syncLoop_idle) blast
qed

section \<open>The plan of a seed\<close>

text \<open>The three loops as one: a role, its permissions and the built-in role name mapped to it.\<close>

type_synonym seed_item = "NewRole \<times> ResolvedPermission list \<times> string option"

definition seedItem :: "(nat \<Rightarrow> string) \<Rightarrow> int \<Rightarrow> seed_item \<Rightarrow> SeedRbacResult \<times> rbac_db \<Rightarrow> (SeedRbacResult \<times> rbac_db) option" where
  "seedItem gen now it st =
     (case it of (inp, desired, m) \<Rightarrow>
        case seedRole gen now inp desired st of
          None \<Rightarrow> None
        | Some (roleId, res, db) \<Rightarrow>
            (case m of
               None \<Rightarrow> Some (res, db)
             | Some role \<Rightarrow>
                 map_option (\<lambda>(_, db1). (if findBuiltinRole db role (nro_orgId inp) roleId = None
                     then res\<lparr>sr_builtinMappingsInserted := sr_builtinMappingsInserted res + 1\<rparr> else res, db1))
                   (upsertBuiltinRole \<lparr>br_role = role, br_roleId = roleId, br_orgId = nro_orgId inp\<rparr> db)))"

fun seedItems :: "(nat \<Rightarrow> string) \<Rightarrow> int \<Rightarrow> seed_item list \<Rightarrow> SeedRbacResult \<times> rbac_db \<Rightarrow> (SeedRbacResult \<times> rbac_db) option" where
  "seedItems gen now [] st = Some st"
| "seedItems gen now (it # its) st = (case seedItem gen now it st of None \<Rightarrow> None | Some st1 \<Rightarrow> seedItems gen now its st1)"

definition basicItem :: "string \<Rightarrow> string \<Rightarrow> BasicRoleDefinition \<Rightarrow> seed_item" where
  "basicItem orgId mapRole d = (basicSeed orgId d, or_default (resolveBasicRolePermissions (br_name d)) [], Some mapRole)"

definition seedPlan :: "string \<Rightarrow> seed_item list" where
  "seedPlan orgId = map (\<lambda>d. (fixedSeed d, fr_permissions d, None)) FIXED_ROLE_DEFINITIONS
     @ (case findBasic ''basic:server_admin'' of None \<Rightarrow> [] | Some d \<Rightarrow> [basicItem [] ''Server Admin'' d])
     @ map (\<lambda>d. basicItem orgId (br_builtinMappingRole d) d) (filter (\<lambda>d. \<not> br_global d) BASIC_ROLE_DEFINITIONS)"

lemma seedItems_append:
  "seedItems gen now (xs @ ys) st = (case seedItems gen now xs st of None \<Rightarrow> None | Some st1 \<Rightarrow> seedItems gen now ys st1)"
  by (induction xs arbitrary: st) (auto split: option.splits)

lemma seedFixed_items: "seedFixed gen now ds st = seedItems gen now (map (\<lambda>d. (fixedSeed d, fr_permissions d, None)) ds) st"
proof (induction ds arbitrary: st)
  case (Cons d ds)
  then show ?case by (cases "seedRole gen now (fixedSeed d) (fr_permissions d) st") (auto simp: seedItem_def)
qed simp

lemma basicSeed_org: "nro_orgId (basicSeed orgId d) = orgId"
  by (simp add: basicSeed_def)

lemma seedBasicRole_item: "seedBasicRole gen now orgId m d st = seedItem gen now (basicItem orgId m d) st"
  by (cases "seedRole gen now (basicSeed orgId d) (or_default (resolveBasicRolePermissions (br_name d)) []) st")
    (auto simp: seedBasicRole_def seedItem_def basicItem_def Let_def basicSeed_org)

lemma seedBasics_items:
  "seedBasics gen now orgId ds st = seedItems gen now (map (\<lambda>d. basicItem orgId (br_builtinMappingRole d) d) (filter (\<lambda>d. \<not> br_global d) ds)) st"
  by (induction ds arbitrary: st) (auto simp: seedBasicRole_item split: option.splits)

lemma server_admin_found: "findBasic ''basic:server_admin'' \<noteq> None"
  by code_simp

lemma seed_is_plan: "orgId \<noteq> [] \<Longrightarrow> seedRbacForOrg gen now orgId db = seedItems gen now (seedPlan orgId) (noInserts, db)"
  using server_admin_found
  by (auto simp: seedRbacForOrg_def seedPlan_def seedFixed_items seedBasicRole_item seedBasics_items seedItems_append split: option.splits)


section \<open>What a plan adds\<close>

definition seeded :: "rbac_db \<Rightarrow> seed_item \<Rightarrow> Role option" where
  "seeded db it = roleFindByUid db (nro_orgId (fst it)) (nro_uid (fst it))"

text \<open>No role has the name of one the plan still has to create.\<close>

definition nameFree :: "rbac_db \<Rightarrow> seed_item \<Rightarrow> bool" where
  "nameFree db it \<longleftrightarrow> (seeded db it = None \<longrightarrow> (\<forall>r\<in>set (rb_roles db). ro_orgId r = nro_orgId (fst it) \<longrightarrow> ro_name r \<noteq> nro_name (fst it)))"

definition plainItem :: "seed_item \<Rightarrow> bool" where
  "plainItem it \<longleftrightarrow> (\<forall>p\<in>set (fst (snd it)). CHR ''|'' \<notin> set (rp_action p))"

definition itemMapping :: "rbac_db \<Rightarrow> seed_item \<Rightarrow> BuiltinRole set" where
  "itemMapping db it = (case (seeded db it, snd (snd it)) of
     (Some r, Some role) \<Rightarrow> {\<lparr>br_role = role, br_roleId = ro_id r, br_orgId = nro_orgId (fst it)\<rparr>} | _ \<Rightarrow> {})"

text \<open>What a run over the items \<open>its\<close> adds to the tables.\<close>

definition adds :: "seed_item list \<Rightarrow> rbac_db \<Rightarrow> rbac_db \<Rightarrow> bool" where
  "adds its db db' \<longleftrightarrow>
     (\<exists>rs. rb_roles db' = rb_roles db @ rs \<and> (\<forall>r\<in>set rs. \<exists>it\<in>set its. ro_orgId r = nro_orgId (fst it) \<and> ro_uid r = nro_uid (fst it) \<and> ro_name r = nro_name (fst it)))
     \<and> (\<forall>it\<in>set its. \<exists>r. seeded db' it = Some r \<and> permsOf db' (ro_id r) = permsOf db (ro_id r) \<union> set (fst (snd it)))
     \<and> (\<forall>j. (\<forall>it\<in>set its. \<forall>r. seeded db' it = Some r \<longrightarrow> ro_id r \<noteq> j) \<longrightarrow> permsOf db' j = permsOf db j)
     \<and> set (rb_builtin db') = set (rb_builtin db) \<union> (\<Union>it\<in>set its. itemMapping db' it)
     \<and> rb_userRoles db' = rb_userRoles db \<and> rb_teamRoles db' = rb_teamRoles db \<and> rb_teamMembers db' = rb_teamMembers db"

lemma find_prefix: "List.find P xs = Some x \<Longrightarrow> List.find P (xs @ ys) = Some x"
  by (induction xs) (auto split: if_splits)

lemma find_suffix: "List.find P xs = None \<Longrightarrow> List.find P (xs @ ys) = List.find P ys"
  by (induction xs) (auto split: if_splits)

lemma seeded_append: "rb_roles db' = rb_roles db @ rs \<Longrightarrow> seeded db it = Some r \<Longrightarrow> seeded db' it = Some r"
  by (auto simp: seeded_def roleFindByUid_def intro: find_prefix)

lemma seeded_SomeD: "seeded db it = Some r \<Longrightarrow> r \<in> set (rb_roles db) \<and> ro_orgId r = nro_orgId (fst it) \<and> ro_uid r = nro_uid (fst it)"
  by (auto simp: seeded_def roleFindByUid_def dest!: find_Some_iff_first)

lemma role_ready:
  assumes "inj gen" "seedReady gen db" "seeded db it = None" "nameFree db it"
  shows "\<exists>db'. roleCreate (gen (rb_next db)) now (fst it) db = Some (roleRow (gen (rb_next db)) now (fst it), db')
    \<and> rb_roles db' = rb_roles db @ [roleRow (gen (rb_next db)) now (fst it)] \<and> sameBut db db' \<and> (\<forall>j. permsOf db' j = permsOf db j)
    \<and> seedReady gen db' \<and> permsOf db (gen (rb_next db)) = {}"
proof -
  let ?row = "roleRow (gen (rb_next db)) now (fst it)"
  let ?db = "db\<lparr>rb_roles := rb_roles db @ [?row], rb_next := Suc (rb_next db)\<rparr>"
  have fresh: "gen (rb_next db) \<notin> roleIds db" using assms(2) by (simp add: seedReady_def)
  then have "ro_id r \<noteq> gen (rb_next db)" if "r \<in> set (rb_roles db)" for r using that by (metis roleIds_def imageI)
  then have "\<not> list_ex (\<lambda>r. ro_id r = gen (rb_next db) \<or> ro_orgId r = nro_orgId (fst it) \<and> (ro_name r = nro_name (fst it) \<or> ro_uid r = nro_uid (fst it))) (rb_roles db)"
    using assms(3,4) by (auto simp: list_ex_iff nameFree_def seeded_def roleFindByUid_def find_None_iff)
  then have cr: "roleCreate (gen (rb_next db)) now (fst it) db = Some (?row, ?db)" by (simp add: roleCreate_def Let_def)
  have "rbacOk ?db" using role_create_ok [OF _ cr] assms(2) by (simp add: seedReady_def)
  moreover have "gen n \<noteq> gen (rb_next db)" if "n \<ge> Suc (rb_next db)" for n using assms(1) that by (auto dest: injD)
  ultimately have "seedReady gen ?db" using assms(2) by (auto simp: seedReady_def roleIds_def roleRow_def)
  moreover have "permsOf db (gen (rb_next db)) = {}"
    using assms(2) fresh by (auto simp: permsOf_def seedReady_def rbacOk_def rbacRefs_def)
  ultimately show ?thesis using cr by (auto simp: sameBut_def permsOf_def)
qed

lemma seedRole_ready:
  assumes "inj gen" "seedReady gen db" "nameFree db it" "plainItem it"
  shows "\<exists>r res1 db1 rs. seedRole gen now (fst it) (fst (snd it)) (res, db) = Some (ro_id r, res1, db1) \<and> seedReady gen db1 \<and> sameBut db db1
    \<and> seeded db1 it = Some r \<and> permsOf db1 (ro_id r) = permsOf db (ro_id r) \<union> set (fst (snd it)) \<and> (\<forall>j. j \<noteq> ro_id r \<longrightarrow> permsOf db1 j = permsOf db j)
    \<and> rb_roles db1 = rb_roles db @ rs \<and> (\<forall>x\<in>set rs. ro_orgId x = nro_orgId (fst it) \<and> ro_uid x = nro_uid (fst it) \<and> ro_name x = nro_name (fst it))"
proof (cases "seeded db it")
  case None
  let ?r = "roleRow (gen (rb_next db)) now (fst it)"
  obtain db0 where 0: "roleCreate (gen (rb_next db)) now (fst it) db = Some (?r, db0)" "rb_roles db0 = rb_roles db @ [?r]" "sameBut db db0"
      "\<forall>j. permsOf db0 j = permsOf db j" "seedReady gen db0"
    using role_ready [OF assms(1,2) None assms(3)] by blast
  have "ro_id ?r \<in> roleIds db0" by (simp add: roleIds_def 0(2))
  from syncPermissions_ready [OF assms(1) 0(5) this] assms(4)
  obtain n db1 where 1: "syncPermissions gen (ro_id ?r) (fst (snd it)) db0 = Some (n, db1)" "seedReady gen db1" "rb_roles db1 = rb_roles db0" "sameBut db0 db1"
      "permsOf db1 (ro_id ?r) = permsOf db0 (ro_id ?r) \<union> set (fst (snd it))" "\<forall>j. j \<noteq> ro_id ?r \<longrightarrow> permsOf db1 j = permsOf db0 j"
    unfolding plainItem_def by blast
  have "seeded db1 it = Some ?r" using None by (simp add: seeded_def roleFindByUid_def 1(3) 0(2) find_suffix roleRow_def)
  moreover have "seedRole gen now (fst it) (fst (snd it)) (res, db)
      = Some (ro_id ?r, res\<lparr>sr_rolesInserted := sr_rolesInserted res + 1, sr_permissionsInserted := sr_permissionsInserted res + n\<rparr>, db1)"
    using None 0(1) 1(1) by (simp add: seedRole_def seeded_def)
  ultimately show ?thesis using 0 1 sameBut_trans [OF 0(3) 1(4)]
    by (intro exI [of _ ?r] exI [of _ db1] exI [of _ "[?r]"] exI) (auto simp: roleRow_def)
next
  case (Some r)
  have "ro_id r \<in> roleIds db" using seeded_SomeD [OF Some] by (simp add: roleIds_def)
  from syncPermissions_ready [OF assms(1,2) this] assms(4)
  obtain n db1 where 1: "syncPermissions gen (ro_id r) (fst (snd it)) db = Some (n, db1)" "seedReady gen db1" "rb_roles db1 = rb_roles db" "sameBut db db1"
      "permsOf db1 (ro_id r) = permsOf db (ro_id r) \<union> set (fst (snd it))" "\<forall>j. j \<noteq> ro_id r \<longrightarrow> permsOf db1 j = permsOf db j"
    unfolding plainItem_def by blast
  have "seeded db1 it = Some r" using Some by (simp add: seeded_def roleFindByUid_def 1(3))
  moreover have "seedRole gen now (fst it) (fst (snd it)) (res, db) = Some (ro_id r, res\<lparr>sr_permissionsInserted := sr_permissionsInserted res + n\<rparr>, db1)"
    using Some 1(1) by (simp add: seedRole_def seeded_def)
  ultimately show ?thesis using 1 by (intro exI [of _ r] exI [of _ db1] exI [of _ "[]"] exI) auto
qed

lemma mapping_ready:
  assumes "seedReady gen db" "seeded db it = Some r" "snd (snd it) = Some role"
  shows "\<exists>b db'. upsertBuiltinRole \<lparr>br_role = role, br_roleId = ro_id r, br_orgId = nro_orgId (fst it)\<rparr> db = Some (b, db') \<and> seedReady gen db'
    \<and> (\<exists>bs. db' = db\<lparr>rb_builtin := bs\<rparr> \<and> set bs = set (rb_builtin db) \<union> itemMapping db it)"
proof -
  let ?b = "\<lparr>br_role = role, br_roleId = ro_id r, br_orgId = nro_orgId (fst it)\<rparr>"
  have map: "itemMapping db it = {?b}" using assms(2,3) by (simp add: itemMapping_def)
  show ?thesis
  proof (cases "findBuiltinRole db role (nro_orgId (fst it)) (ro_id r)")
    case None
    have "ro_id r \<in> roleIds db" using seeded_SomeD [OF assms(2)] by (simp add: roleIds_def)
    then have up: "upsertBuiltinRole ?b db = Some (?b, db\<lparr>rb_builtin := rb_builtin db @ [?b]\<rparr>)" using None by (simp add: upsertBuiltinRole_def)
    have "rbacOk (db\<lparr>rb_builtin := rb_builtin db @ [?b]\<rparr>)" using builtin_ok(1) [OF _ up] assms(1) by (simp add: seedReady_def)
    then have "seedReady gen (db\<lparr>rb_builtin := rb_builtin db @ [?b]\<rparr>)" using assms(1) by (simp add: seedReady_def roleIds_def)
    then show ?thesis using up by (auto simp: map intro!: exI [of _ "rb_builtin db @ [?b]"])
  next
    case (Some b)
    then have "b = ?b" "b \<in> set (rb_builtin db)" by (auto simp: findBuiltinRole_def dest!: find_Some_iff_first)
    then show ?thesis using Some assms(1) by (intro exI [of _ b] exI [of _ db]) (auto simp: upsertBuiltinRole_def map intro!: exI [of _ "rb_builtin db"])
  qed
qed

lemma seedItem_ready:
  assumes "inj gen" "seedReady gen db" "nameFree db it" "plainItem it"
  shows "\<exists>res' db'. seedItem gen now it (res, db) = Some (res', db') \<and> seedReady gen db' \<and> adds [it] db db'"
proof -
  obtain r res1 db1 rs where 1: "seedRole gen now (fst it) (fst (snd it)) (res, db) = Some (ro_id r, res1, db1)" "seedReady gen db1" "sameBut db db1"
      "seeded db1 it = Some r" "permsOf db1 (ro_id r) = permsOf db (ro_id r) \<union> set (fst (snd it))" "\<forall>j. j \<noteq> ro_id r \<longrightarrow> permsOf db1 j = permsOf db j"
      "rb_roles db1 = rb_roles db @ rs" "\<forall>x\<in>set rs. ro_orgId x = nro_orgId (fst it) \<and> ro_uid x = nro_uid (fst it) \<and> ro_name x = nro_name (fst it)"
    using seedRole_ready [OF assms] by blast
  show ?thesis
  proof (cases "snd (snd it)")
    case None
    then have "adds [it] db db1" using 1 unfolding adds_def sameBut_def by (auto simp: itemMapping_def)
    then show ?thesis using 1(1,2) None by (auto simp: seedItem_def split: prod.splits)
  next
    case (Some role)
    obtain b db' bs where 2: "upsertBuiltinRole \<lparr>br_role = role, br_roleId = ro_id r, br_orgId = nro_orgId (fst it)\<rparr> db1 = Some (b, db')" "seedReady gen db'"
        "db' = db1\<lparr>rb_builtin := bs\<rparr>" "set bs = set (rb_builtin db1) \<union> itemMapping db1 it"
      using mapping_ready [OF 1(2,4) Some] by blast
    have same: "seeded db' x = seeded db1 x" "permsOf db' j = permsOf db1 j" for x j by (simp_all add: 2(3) seeded_def roleFindByUid_def permsOf_def)
    have rest: "rb_roles db' = rb_roles db1" "rb_builtin db' = bs" "rb_userRoles db' = rb_userRoles db1" "rb_teamRoles db' = rb_teamRoles db1"
      "rb_teamMembers db' = rb_teamMembers db1" by (simp_all add: 2(3))
    have "itemMapping db' it = itemMapping db1 it" by (simp add: itemMapping_def same)
    then have "adds [it] db db'" using 1 2(4) unfolding adds_def sameBut_def same rest by auto
    then show ?thesis using 1(1) 2(1,2) Some by (auto simp: seedItem_def split: prod.splits)
  qed
qed

lemma adds_Nil: "adds [] db db"
  by (simp add: adds_def)

lemma adds_item:
  assumes "adds its db db'" "it \<in> set its"
  obtains r where "seeded db' it = Some r" "permsOf db' (ro_id r) = permsOf db (ro_id r) \<union> set (fst (snd it))"
  using assms(1) [unfolded adds_def, THEN conjunct2, THEN conjunct1] assms(2) that by blast

lemma adds_roles:
  assumes "adds its db db'"
  obtains rs where "rb_roles db' = rb_roles db @ rs"
    "\<forall>r\<in>set rs. \<exists>x\<in>set its. ro_orgId r = nro_orgId (fst x) \<and> ro_uid r = nro_uid (fst x) \<and> ro_name r = nro_name (fst x)"
  using assms [unfolded adds_def, THEN conjunct1] that by blast

lemma adds_builtin: "adds its db db' \<Longrightarrow> set (rb_builtin db') = set (rb_builtin db) \<union> (\<Union>it\<in>set its. itemMapping db' it)"
  by (simp add: adds_def)

lemma adds_other:
  assumes "adds its db db'" "\<And>it r. it \<in> set its \<Longrightarrow> seeded db' it = Some r \<Longrightarrow> ro_id r \<noteq> j"
  shows "permsOf db' j = permsOf db j"
  using assms(1) [unfolded adds_def, THEN conjunct2, THEN conjunct2, THEN conjunct1] assms(2) by blast

lemma seeded_inj:
  assumes "rbacOk db" "seeded db a = Some r" "seeded db b = Some q" "ro_id r = ro_id q"
  shows "nro_orgId (fst a) = nro_orgId (fst b) \<and> nro_uid (fst a) = nro_uid (fst b)"
proof -
  have "inj_on ro_id (set (rb_roles db))" using assms(1) by (simp add: rbacOk_def rbacKeys_def rolesKeyed_def distinct_map)
  then have "r = q" using seeded_SomeD assms(2-4) by (meson inj_onD)
  then show ?thesis using seeded_SomeD [OF assms(2)] seeded_SomeD [OF assms(3)] by simp
qed

lemma adds_Cons:
  assumes "adds [it] db db1" "adds its db1 db'" "rbacOk db'"
    and other: "\<And>x. x \<in> set its \<Longrightarrow> nro_orgId (fst x) = nro_orgId (fst it) \<Longrightarrow> nro_uid (fst x) \<noteq> nro_uid (fst it)"
  shows "adds (it # its) db db'"
proof -
  obtain r where r0: "seeded db1 it = Some r" "permsOf db1 (ro_id r) = permsOf db (ro_id r) \<union> set (fst (snd it))" using adds_item [OF assms(1) list.set_intros(1)] .
  have "permsOf db1 j = permsOf db j" if "j \<noteq> ro_id r" for j using that r0(1) by (intro adds_other [OF assms(1)]) auto
  note r = r0 this
  obtain rs where rs: "rb_roles db' = rb_roles db1 @ rs" using adds_roles [OF assms(2)] .
  have r': "seeded db' it = Some r" by (rule seeded_append [OF rs r(1)])
  have apart: "ro_id q \<noteq> ro_id r" if "x \<in> set its" "seeded db' x = Some q" for x q
    using seeded_inj [OF assms(3) that(2) r'] other [OF that(1)] by auto
  have maps: "itemMapping db' it = itemMapping db1 it" by (simp add: itemMapping_def r r')
  have kept: "permsOf db' (ro_id r) = permsOf db1 (ro_id r)" by (rule adds_other [OF assms(2) apart])
  have late: "\<exists>q. seeded db' x = Some q \<and> permsOf db' (ro_id q) = permsOf db (ro_id q) \<union> set (fst (snd x))" if x: "x \<in> set its" for x
  proof -
    obtain q where "seeded db' x = Some q" "permsOf db' (ro_id q) = permsOf db1 (ro_id q) \<union> set (fst (snd x))" using adds_item [OF assms(2) x] .
    then show ?thesis using apart [OF x] r(3) by auto
  qed
  have "permsOf db' j = permsOf db j" if "\<forall>x\<in>set (it # its). \<forall>q. seeded db' x = Some q \<longrightarrow> ro_id q \<noteq> j" for j
  proof -
    have "permsOf db' j = permsOf db1 j" using that by (intro adds_other [OF assms(2)]) auto
    also have "\<dots> = permsOf db j" using r(3) r' that by auto
    finally show ?thesis .
  qed
  moreover have "\<exists>q. seeded db' x = Some q \<and> permsOf db' (ro_id q) = permsOf db (ro_id q) \<union> set (fst (snd x))" if "x \<in> set (it # its)" for x
    using that late [of x] r' r(2) kept by (cases "x = it") auto
  moreover have "set (rb_builtin db') = set (rb_builtin db) \<union> (\<Union>x\<in>set (it # its). itemMapping db' x)"
    using adds_builtin [OF assms(1)] adds_builtin [OF assms(2)] maps by auto
  moreover have "\<exists>rs. rb_roles db' = rb_roles db @ rs \<and> (\<forall>r\<in>set rs. \<exists>x\<in>set (it # its). ro_orgId r = nro_orgId (fst x) \<and> ro_uid r = nro_uid (fst x) \<and> ro_name r = nro_name (fst x))"
  proof -
    obtain r1 where 1: "rb_roles db1 = rb_roles db @ r1" "\<forall>r\<in>set r1. \<exists>x\<in>set [it]. ro_orgId r = nro_orgId (fst x) \<and> ro_uid r = nro_uid (fst x) \<and> ro_name r = nro_name (fst x)"
      using adds_roles [OF assms(1)] .
    obtain r2 where 2: "rb_roles db' = rb_roles db1 @ r2" "\<forall>r\<in>set r2. \<exists>x\<in>set its. ro_orgId r = nro_orgId (fst x) \<and> ro_uid r = nro_uid (fst x) \<and> ro_name r = nro_name (fst x)"
      using adds_roles [OF assms(2)] .
    show ?thesis using 1 2 by (intro exI [of _ "r1 @ r2"]) auto
  qed
  moreover have "rb_userRoles db' = rb_userRoles db \<and> rb_teamRoles db' = rb_teamRoles db \<and> rb_teamMembers db' = rb_teamMembers db"
    using assms(1,2) by (simp add: adds_def)
  ultimately show ?thesis unfolding adds_def by (intro conjI ballI allI impI) (simp_all only: refl)
qed

definition planApart :: "seed_item list \<Rightarrow> bool" where
  "planApart its \<longleftrightarrow> distinct (map (\<lambda>it. (nro_orgId (fst it), nro_uid (fst it))) its) \<and> distinct (map (\<lambda>it. (nro_orgId (fst it), nro_name (fst it))) its)"

lemma nameFree_later:
  assumes "adds [it] db db1" "nameFree db x" "nro_orgId (fst x) = nro_orgId (fst it) \<Longrightarrow> nro_name (fst x) \<noteq> nro_name (fst it)"
  shows "nameFree db1 x"
proof -
  obtain rs where rs: "rb_roles db1 = rb_roles db @ rs" "\<forall>r\<in>set rs. ro_orgId r = nro_orgId (fst it) \<and> ro_name r = nro_name (fst it)"
    using assms(1) by (auto simp: adds_def)
  have "seeded db x = None" if "seeded db1 x = None" using seeded_append [OF rs(1), of x] that by (cases "seeded db x") auto
  then show ?thesis using assms(2,3) rs unfolding nameFree_def by auto
qed

lemma seedItems_ready:
  assumes "inj gen"
  shows "seedReady gen db \<Longrightarrow> planApart its \<Longrightarrow> (\<forall>it\<in>set its. nameFree db it \<and> plainItem it) \<Longrightarrow>
    \<exists>res' db'. seedItems gen now its (res, db) = Some (res', db') \<and> seedReady gen db' \<and> adds its db db'"
proof (induction its arbitrary: res db)
  case (Cons it its)
  obtain res1 db1 where 1: "seedItem gen now it (res, db) = Some (res1, db1)" "seedReady gen db1" "adds [it] db db1"
    using seedItem_ready [OF assms Cons.prems(1), of it now res] Cons.prems(3) by auto
  have apart: "planApart its" "\<And>x. x \<in> set its \<Longrightarrow> nro_orgId (fst x) = nro_orgId (fst it) \<Longrightarrow> nro_name (fst x) \<noteq> nro_name (fst it)"
    "\<And>x. x \<in> set its \<Longrightarrow> nro_orgId (fst x) = nro_orgId (fst it) \<Longrightarrow> nro_uid (fst x) \<noteq> nro_uid (fst it)"
    using Cons.prems(2) by (auto simp: planApart_def image_iff)
  have "nameFree db1 x \<and> plainItem x" if "x \<in> set its" for x
    using nameFree_later [OF 1(3) _ apart(2) [OF that]] Cons.prems(3) that by auto
  then obtain res' db' where 2: "seedItems gen now its (res1, db1) = Some (res', db')" "seedReady gen db'" "adds its db1 db'"
    using Cons.IH [OF 1(2) apart(1)] by blast
  have "adds (it # its) db db'" using adds_Cons [OF 1(3) 2(3)] 2(2) apart(3) by (simp add: seedReady_def)
  then show ?case using 1(1) 2 by auto
qed (simp add: adds_Nil)

text \<open>An item that is in place is left alone.\<close>

lemma seedItem_idle:
  assumes "seeded db it = Some r" "set (fst (snd it)) \<subseteq> permsOf db (ro_id r)" "itemMapping db it \<subseteq> set (rb_builtin db)"
  shows "seedItem gen now it (res, db) = Some (res, db)"
proof -
  have "seedRole gen now (fst it) (fst (snd it)) (res, db) = Some (ro_id r, res, db)"
    using assms(1) by (simp add: seedRole_def seeded_def syncPermissions_idle [OF assms(2)])
  moreover have "\<exists>b. findBuiltinRole db role (nro_orgId (fst it)) (ro_id r) = Some b" if "snd (snd it) = Some role" for role
  proof -
    let ?b = "\<lparr>br_role = role, br_roleId = ro_id r, br_orgId = nro_orgId (fst it)\<rparr>"
    have "?b \<in> set (rb_builtin db)" using assms(1,3) that by (simp add: itemMapping_def)
    then have "findBuiltinRole db role (nro_orgId (fst it)) (ro_id r) \<noteq> None" by (auto simp: findBuiltinRole_def find_None_iff intro!: exI [of _ ?b])
    then show ?thesis by blast
  qed
  ultimately show ?thesis by (cases it; cases "snd (snd it)") (auto simp: seedItem_def upsertBuiltinRole_def)
qed

lemma seedItems_idle:
  assumes "adds its db0 db"
  shows "seedItems gen now its (res, db) = Some (res, db)"
proof -
  have "seedItem gen now it (res, db) = Some (res, db)" if it: "it \<in> set its" for it
  proof -
    obtain r where "seeded db it = Some r" "permsOf db (ro_id r) = permsOf db0 (ro_id r) \<union> set (fst (snd it))" using adds_item [OF assms it] .
    moreover have "itemMapping db it \<subseteq> set (rb_builtin db)" using adds_builtin [OF assms] it by auto
    ultimately show ?thesis by (intro seedItem_idle) auto
  qed
  then show ?thesis by (induction its) auto
qed


section \<open>The catalog\<close>

lemma resolved_known: "p \<in> set (or_default (resolveBasicRolePermissions n) []) \<Longrightarrow> isKnownAction (rp_action p)"
  using all_known server_admin_known resolve_unknown [of n]
  by (cases "n \<in> {''basic:viewer'', ''basic:editor'', ''basic:admin'', ''basic:server_admin''}") (auto simp: resolve_basic sets_of_resolved)

lemma findBasic_server: "\<exists>d. findBasic ''basic:server_admin'' = Some d \<and> br_name d = ''basic:server_admin'' \<and> br_uid d = ''basic_server_admin''"
  by (simp add: findBasic_def BASIC_ROLE_DEFINITIONS_def)

lemma fixed_apart: "''basic:server_admin'' \<notin> fr_name ` set FIXED_ROLE_DEFINITIONS" "''basic_server_admin'' \<notin> fr_uid ` set FIXED_ROLE_DEFINITIONS"
  unfolding list.set_map [symmetric] by code_simp+

lemma fixedSeed_keys: "nro_orgId (fixedSeed d) = []" "nro_name (fixedSeed d) = fr_name d" "nro_uid (fixedSeed d) = fr_uid d"
  by (simp_all add: fixedSeed_def)

lemma basicSeed_keys: "nro_orgId (basicSeed og d) = og" "nro_name (basicSeed og d) = br_name d" "nro_uid (basicSeed og d) = br_uid d"
  by (simp_all add: basicSeed_def)

lemma org_basics:
  "map (\<lambda>d. (br_name d, br_uid d, br_builtinMappingRole d)) (filter (\<lambda>d. \<not> br_global d) BASIC_ROLE_DEFINITIONS)
     = [(''basic:viewer'', ''basic_viewer'', ''Viewer''), (''basic:editor'', ''basic_editor'', ''Editor''), (''basic:admin'', ''basic_admin'', ''Admin'')]"
  by (simp add: BASIC_ROLE_DEFINITIONS_def)

lemma plan_plain:
  assumes "it \<in> set (seedPlan og)"
  shows "plainItem it"
proof -
  have "isKnownAction (rp_action p)" if "p \<in> set (fst (snd it))" for p
    using fixed_actions_known resolved_known assms that by (auto simp: seedPlan_def basicItem_def list_all_iff split: option.splits)
  then show ?thesis by (simp add: plainItem_def known_no_bar)
qed

lemma plan_apart:
  assumes "og \<noteq> []"
  shows "planApart (seedPlan og)"
proof -
  obtain sa where sa: "findBasic ''basic:server_admin'' = Some sa" "br_name sa = ''basic:server_admin''" "br_uid sa = ''basic_server_admin''"
    using findBasic_server by blast
  let ?bs = "filter (\<lambda>d. \<not> br_global d) BASIC_ROLE_DEFINITIONS"
  have "distinct (map (fst \<circ> (\<lambda>d. (br_name d, br_uid d, br_builtinMappingRole d))) ?bs)" "distinct (map (fst \<circ> snd \<circ> (\<lambda>d. (br_name d, br_uid d, br_builtinMappingRole d))) ?bs)"
    unfolding map_map [symmetric] org_basics by simp_all
  then have "distinct (map br_name ?bs)" "distinct (map br_uid ?bs)" by (simp_all add: comp_def)
  then show ?thesis using assms fixed_names_distinct fixed_uids_distinct fixed_apart sa
    by (auto simp: planApart_def seedPlan_def basicItem_def fixedSeed_keys basicSeed_keys distinct_map inj_on_def)
qed

section \<open>What the seed grants\<close>

definition applies :: "Identity \<Rightarrow> seed_item \<Rightarrow> bool" where
  "applies i it \<longleftrightarrow>
     (id_orgRole i \<noteq> [] \<and> id_orgRole i \<noteq> ''None'' \<and> snd (snd it) = Some (id_orgRole i) \<and> nro_orgId (fst it) = id_orgId i)
     \<or> (id_isServerAdmin i \<and> snd (snd it) = Some ''Server Admin'' \<and> nro_orgId (fst it) = [])"

lemma perms_union:
  assumes "id_orgId i \<noteq> []" "\<forall>p\<in>set (rb_permissions db). CHR ''|'' \<notin> set (pe_action (snd p))"
  shows "set (getUserPermissions (authTables db) i) = (\<Union>r\<in>{r. hasRole (authTables db) i r}. permsOf db r)"
proof -
  have "at_permissions (authTables db) = map snd (rb_permissions db)" by (simp add: authTables_def)
  then show ?thesis using getUserPermissions_set [OF assms(1), of "authTables db"] assms(2) by (auto simp: permsOf_def)
qed

lemma mem_itemMapping:
  "m \<in> itemMapping db it \<longleftrightarrow> snd (snd it) = Some (br_role m) \<and> br_orgId m = nro_orgId (fst it) \<and> (\<exists>r. seeded db it = Some r \<and> ro_id r = br_roleId m)"
  by (cases "snd (snd it)"; cases "seeded db it"; cases m) (auto simp: itemMapping_def)

lemma mapped_row:
  "(\<exists>m\<in>(\<Union>it\<in>set its. itemMapping db it). br_orgId m = og \<and> br_role m = role \<and> br_roleId m = rid)
    \<longleftrightarrow> (\<exists>it\<in>set its. (snd (snd it) = Some role \<and> nro_orgId (fst it) = og) \<and> (\<exists>r. seeded db it = Some r \<and> ro_id r = rid))"
  (is "?L \<longleftrightarrow> ?R")
proof
  assume ?L
  then obtain it m where it: "it \<in> set its" "m \<in> itemMapping db it" "br_orgId m = og" "br_role m = role" "br_roleId m = rid" by blast
  then show ?R by (intro bexI [of _ it]) (simp_all add: mem_itemMapping)
next
  assume ?R
  then obtain it r where it: "it \<in> set its" "snd (snd it) = Some role" "nro_orgId (fst it) = og" "seeded db it = Some r" "ro_id r = rid" by blast
  let ?m = "\<lparr>br_role = role, br_roleId = rid, br_orgId = og\<rparr>"
  have "?m \<in> itemMapping db it" using it by (simp add: mem_itemMapping)
  then show ?L using it(1) by (intro bexI [of _ ?m]) auto
qed

lemma pick_role:
  "(c \<and> (\<exists>x\<in>S. P x \<and> (\<exists>r. R x r))) \<or> (c' \<and> (\<exists>x\<in>S. P' x \<and> (\<exists>r. R x r)))
    \<longleftrightarrow> (\<exists>x\<in>S. \<exists>r. (c \<and> P x \<or> c' \<and> P' x) \<and> R x r)"
  by blast

lemma hasRole_seeded:
  assumes "adds its db db'" "noGrants db"
  shows "hasRole (authTables db') i rid \<longleftrightarrow> (\<exists>it\<in>set its. \<exists>r. applies i it \<and> seeded db' it = Some r \<and> ro_id r = rid)"
proof -
  have b: "set (rb_builtin db') = (\<Union>it\<in>set its. itemMapping db' it)" using adds_builtin [OF assms(1)] assms(2) by (simp add: noGrants_def)
  have none: "rb_userRoles db' = []" "rb_teamRoles db' = []" using assms by (simp_all add: adds_def noGrants_def)
  have "hasRole (authTables db') i rid \<longleftrightarrow>
      ((id_orgRole i \<noteq> [] \<and> id_orgRole i \<noteq> ''None'') \<and> (\<exists>m\<in>set (rb_builtin db'). br_orgId m = id_orgId i \<and> br_role m = id_orgRole i \<and> br_roleId m = rid))
      \<or> (id_isServerAdmin i \<and> (\<exists>m\<in>set (rb_builtin db'). br_orgId m = [] \<and> br_role m = ''Server Admin'' \<and> br_roleId m = rid))"
    by (simp add: hasRole_def authTables_def none)
  then show ?thesis unfolding b mapped_row pick_role by (simp only: applies_def conj_assoc)
qed

text \<open>The four definitions of the table, seen through the fields the seed decides on.\<close>

lemma basic_table:
  obtains v e a sa where "BASIC_ROLE_DEFINITIONS = [v, e, a, sa]"
    "(br_name v, br_global v, br_builtinMappingRole v) = (''basic:viewer'', False, ''Viewer'')"
    "(br_name e, br_global e, br_builtinMappingRole e) = (''basic:editor'', False, ''Editor'')"
    "(br_name a, br_global a, br_builtinMappingRole a) = (''basic:admin'', False, ''Admin'')"
    "(br_name sa, br_global sa, br_builtinMappingRole sa) = (''basic:server_admin'', True, ''Server Admin'')"
proof -
  have rows: "map (\<lambda>d. (br_name d, br_global d, br_builtinMappingRole d)) BASIC_ROLE_DEFINITIONS
      = [(''basic:viewer'', False, ''Viewer''), (''basic:editor'', False, ''Editor''), (''basic:admin'', False, ''Admin''), (''basic:server_admin'', True, ''Server Admin'')]"
    by (simp add: BASIC_ROLE_DEFINITIONS_def)
  show ?thesis using that rows unfolding map_eq_Cons_conv map_is_Nil_conv by blast
qed

lemma global_basic: "\<exists>sa. findBasic ''basic:server_admin'' = Some sa \<and> filter br_global BASIC_ROLE_DEFINITIONS = [sa]"
proof -
  obtain v e a sa where t: "BASIC_ROLE_DEFINITIONS = [v, e, a, sa]" "(br_name v, br_global v) = (''basic:viewer'', False)"
    "(br_name e, br_global e) = (''basic:editor'', False)" "(br_name a, br_global a) = (''basic:admin'', False)"
    "(br_name sa, br_global sa) = (''basic:server_admin'', True)" by (rule basic_table) simp
  show ?thesis using t(2-) unfolding findBasic_def t(1) by simp
qed

lemma mapping_names: "\<forall>d\<in>set BASIC_ROLE_DEFINITIONS. br_builtinMappingRole d \<noteq> [] \<and> br_builtinMappingRole d \<noteq> ''None''"
  by (simp add: BASIC_ROLE_DEFINITIONS_def)

lemma split_global:
  assumes "\<And>d. d \<in> S \<Longrightarrow> g d \<Longrightarrow> d = s" "s \<in> S" "g s"
  shows "(if a then P s else {}) \<union> (\<Union>d\<in>{d \<in> S. \<not> g d \<and> b d}. P d) = {p. \<exists>d\<in>S. p \<in> P d \<and> (if g d then a else b d)}"
proof -
  have "(\<exists>d\<in>S. p \<in> P d \<and> (if g d then a else b d)) \<longleftrightarrow> a \<and> p \<in> P s \<or> (\<exists>d\<in>S. p \<in> P d \<and> \<not> g d \<and> b d)" for p
    using assms by metis
  then show ?thesis by auto
qed

lemma plan_grants:
  assumes "id_orgId i = og" "og \<noteq> []"
  shows "(\<Union>it\<in>{it \<in> set (seedPlan og). applies i it}. set (fst (snd it)))
    = {p. \<exists>d\<in>set BASIC_ROLE_DEFINITIONS. p \<in> set (or_default (resolveBasicRolePermissions (br_name d)) [])
          \<and> (if br_global d then id_isServerAdmin i else id_orgRole i = br_builtinMappingRole d)}"
proof -
  obtain sa where sa0: "findBasic ''basic:server_admin'' = Some sa" "filter br_global BASIC_ROLE_DEFINITIONS = [sa]"
    using global_basic by auto
  have "set (filter br_global BASIC_ROLE_DEFINITIONS) = {sa}" by (simp only: sa0(2) list.set)
  then have sa: "findBasic ''basic:server_admin'' = Some sa" "{d \<in> set BASIC_ROLE_DEFINITIONS. br_global d} = {sa}"
    using sa0(1) by (simp_all only: set_filter)
  have plan: "set (seedPlan og) = (\<lambda>d. (fixedSeed d, fr_permissions d, None)) ` set FIXED_ROLE_DEFINITIONS \<union> {basicItem [] ''Server Admin'' sa}
      \<union> (\<lambda>d. basicItem og (br_builtinMappingRole d) d) ` {d \<in> set BASIC_ROLE_DEFINITIONS. \<not> br_global d}"
    by (auto simp: seedPlan_def sa(1))
  have none: "\<not> applies i (fixedSeed d, fr_permissions d, None)" for d by (simp add: applies_def)
  have server: "applies i (basicItem [] ''Server Admin'' sa) \<longleftrightarrow> id_isServerAdmin i"
    using assms by (auto simp: applies_def basicItem_def basicSeed_keys)
  have member: "applies i (basicItem og (br_builtinMappingRole d) d) \<longleftrightarrow> id_orgRole i = br_builtinMappingRole d" if "d \<in> set BASIC_ROLE_DEFINITIONS" for d
    using assms mapping_names that by (auto simp: applies_def basicItem_def basicSeed_keys)
  have des: "fst (snd (basicItem o' m d)) = or_default (resolveBasicRolePermissions (br_name d)) []" for o' m d by (simp add: basicItem_def)
  let ?P = "\<lambda>d. set (or_default (resolveBasicRolePermissions (br_name d)) [])"
  let ?own = "{d \<in> set BASIC_ROLE_DEFINITIONS. \<not> br_global d \<and> id_orgRole i = br_builtinMappingRole d}"
  have "{it \<in> set (seedPlan og). applies i it} = (if id_isServerAdmin i then {basicItem [] ''Server Admin'' sa} else {})
      \<union> (\<lambda>d. basicItem og (br_builtinMappingRole d) d) ` ?own"
    unfolding plan using none server member by auto
  then have "(\<Union>it\<in>{it \<in> set (seedPlan og). applies i it}. set (fst (snd it))) = (if id_isServerAdmin i then ?P sa else {}) \<union> (\<Union>d\<in>?own. ?P d)"
    by (auto simp: des)
  also have "\<dots> = {p. \<exists>d\<in>set BASIC_ROLE_DEFINITIONS. p \<in> ?P d \<and> (if br_global d then id_isServerAdmin i else id_orgRole i = br_builtinMappingRole d)}"
  proof -
    have "d = sa" if "d \<in> set BASIC_ROLE_DEFINITIONS" "br_global d" for d using sa(2) that by blast
    moreover have "sa \<in> set BASIC_ROLE_DEFINITIONS" "br_global sa" using sa(2) by auto
    ultimately show ?thesis by (intro split_global) blast+
  qed
  finally show ?thesis .
qed

section \<open>Properties\<close>

text \<open>C7: seeding the tables of a new installation succeeds, and then every identity of the organisation has
  exactly the permissions of the catalog: those its organisation role resolves to and, for a server
  administrator, those of that role. Identifiers must be unique.\<close>

theorem seed_grants_catalog:
  assumes "inj gen" "noGrants db" "og \<noteq> []"
  shows "\<exists>res db'. seedRbacForOrg gen now og db = Some (res, db') \<and> rbacOk db'
    \<and> (\<forall>i. id_orgId i = og \<longrightarrow> set (getUserPermissions (authTables db') i) =
         {p. \<exists>d\<in>set BASIC_ROLE_DEFINITIONS. p \<in> set (or_default (resolveBasicRolePermissions (br_name d)) [])
            \<and> (if br_global d then id_isServerAdmin i else id_orgRole i = br_builtinMappingRole d)})"
proof -
  have ready: "seedReady gen db" using assms(2) rbac.init_inv by (auto simp: seedReady_def noGrants_def roleIds_def)
  have free: "\<forall>it\<in>set (seedPlan og). nameFree db it \<and> plainItem it"
    using assms(2) plan_plain by (simp add: nameFree_def noGrants_def)
  obtain res db' where 1: "seedItems gen now (seedPlan og) (noInserts, db) = Some (res, db')" "seedReady gen db'" "adds (seedPlan og) db db'"
    using seedItems_ready [OF assms(1) ready plan_apart [OF assms(3)] free] by blast
  have "set (getUserPermissions (authTables db') i) = (\<Union>it\<in>{it \<in> set (seedPlan og). applies i it}. set (fst (snd it)))" if "id_orgId i = og" for i
  proof -
    have bars: "\<forall>p\<in>set (rb_permissions db'). CHR ''|'' \<notin> set (pe_action (snd p))" using 1(2) by (simp add: seedReady_def)
    have "permsOf db j = {}" for j using assms(2) by (simp add: permsOf_def noGrants_def)
    then have each: "\<exists>r. seeded db' it = Some r \<and> permsOf db' (ro_id r) = set (fst (snd it))" if "it \<in> set (seedPlan og)" for it
      using adds_item [OF 1(3) that] by (metis sup_bot_left)
    have "id_orgId i \<noteq> []" using that assms(3) by simp
    from perms_union [OF this bars] show ?thesis using each by (auto simp: hasRole_seeded [OF 1(3) assms(2)]) force+
  qed
  then show ?thesis using 1(1,2) plan_grants assms(3) by (auto simp: seed_is_plan seedReady_def)
qed

definition exFresh :: rbac_db where
  "exFresh = \<lparr>rb_accounts = \<lparr>ak_orgs = [''org''], ak_users = [], ak_orgUsers = []\<rparr>, rb_roles = [],
     rb_permissions = [], rb_builtin = [], rb_userRoles = [], rb_teamRoles = [], rb_teams = [], rb_teamMembers = [], rb_next = 0\<rparr>"

definition exGen :: "nat \<Rightarrow> string" where
  "exGen n = replicate n CHR ''x''"

lemma exFresh_ok: "noGrants exFresh" "inj exGen" "seedReady exGen exFresh"
proof -
  show "noGrants exFresh" by (simp add: noGrants_def exFresh_def)
  then show "seedReady exGen exFresh" using rbac.init_inv by (auto simp: seedReady_def noGrants_def roleIds_def)
  show "inj exGen" by (rule injI) (metis exGen_def length_replicate)
qed

definition exEditor :: Identity where
  "exEditor = exWriter\<lparr>id_orgRole := ''Editor'', id_isServerAdmin := False\<rparr>"

theorem seed_grants_catalog_witness:
  "\<exists>res db'. seedRbacForOrg exGen 0 ''org'' exFresh = Some (res, db')
     \<and> set (getUserPermissions (authTables db') exEditor) = set VIEWER_PERMISSIONS \<union> set EDITOR_ONLY_PERMISSIONS"
proof -
  have org: "''org'' \<noteq> []" by simp
  have editor: "{p. \<exists>d\<in>set BASIC_ROLE_DEFINITIONS. p \<in> set (or_default (resolveBasicRolePermissions (br_name d)) [])
      \<and> (if br_global d then id_isServerAdmin exEditor else id_orgRole exEditor = br_builtinMappingRole d)}
    = set VIEWER_PERMISSIONS \<union> set EDITOR_ONLY_PERMISSIONS"
    (is "?L = ?R")
  proof -
    have ed: "id_orgRole exEditor = ''Editor''" "\<not> id_isServerAdmin exEditor" by (simp_all add: exEditor_def)
    have "p \<in> ?L \<longleftrightarrow> p \<in> set (or_default (resolveBasicRolePermissions ''basic:editor'') [])" for p
    proof -
      obtain v e a sa where t: "BASIC_ROLE_DEFINITIONS = [v, e, a, sa]"
        "(br_name v, br_global v, br_builtinMappingRole v) = (''basic:viewer'', False, ''Viewer'')"
        "(br_name e, br_global e, br_builtinMappingRole e) = (''basic:editor'', False, ''Editor'')"
        "(br_name a, br_global a, br_builtinMappingRole a) = (''basic:admin'', False, ''Admin'')"
        "(br_name sa, br_global sa, br_builtinMappingRole sa) = (''basic:server_admin'', True, ''Server Admin'')" by (rule basic_table)
      show ?thesis using t(2-) unfolding t(1) by (simp add: ed)
    qed
    then show ?thesis by (simp add: set_eq_iff resolve_basic sets_of_resolved del: Un_iff)
  qed
  have "id_orgId exEditor = ''org''" by (simp add: exEditor_def exWriter_def)
  moreover obtain res db' where "seedRbacForOrg exGen 0 ''org'' exFresh = Some (res, db')"
    "\<And>i. id_orgId i = ''org'' \<Longrightarrow> set (getUserPermissions (authTables db') i) =
      {p. \<exists>d\<in>set BASIC_ROLE_DEFINITIONS. p \<in> set (or_default (resolveBasicRolePermissions (br_name d)) [])
        \<and> (if br_global d then id_isServerAdmin i else id_orgRole i = br_builtinMappingRole d)}"
    using seed_grants_catalog [OF exFresh_ok(2,1) org, of 0] by blast
  ultimately show ?thesis unfolding editor [symmetric] by (intro exI conjI) assumption+
qed

text \<open>C37: Seeding is idempotent and add-only on any consistent database, whatever is there already, as
  long as no role has the name of a missing built-in one under another uid: it succeeds, every role keeps
  the permissions it has, and doing it again inserts nothing and leaves the tables as they are.\<close>

theorem seed_idempotent:
  assumes "inj gen" "seedReady gen db" "\<forall>it\<in>set (seedPlan og). nameFree db it" "og \<noteq> []"
  shows "\<exists>res db'. seedRbacForOrg gen now og db = Some (res, db') \<and> (\<forall>j. permsOf db j \<subseteq> permsOf db' j)
    \<and> (\<forall>gen' now'. seedRbacForOrg gen' now' og db' = Some (noInserts, db'))"
proof -
  obtain res db' where 1: "seedItems gen now (seedPlan og) (noInserts, db) = Some (res, db')" "adds (seedPlan og) db db'"
    using seedItems_ready [OF assms(1,2) plan_apart [OF assms(4)]] assms(3) plan_plain by blast
  have "permsOf db j \<subseteq> permsOf db' j" for j
  proof (cases "\<exists>it\<in>set (seedPlan og). \<exists>r. seeded db' it = Some r \<and> ro_id r = j")
    case True
    then obtain it r where it: "it \<in> set (seedPlan og)" "seeded db' it = Some r" "ro_id r = j" by blast
    obtain q where "seeded db' it = Some q" "permsOf db' (ro_id q) = permsOf db (ro_id q) \<union> set (fst (snd it))" using adds_item [OF 1(2) it(1)] .
    then show ?thesis using it(2,3) by auto
  next
    case False
    then show ?thesis using adds_other [OF 1(2), of j] by blast
  qed
  then show ?thesis using 1(1) seedItems_idle [OF 1(2)] assms(4) by (auto simp: seed_is_plan)
qed

theorem seed_idempotent_witness:
  "\<exists>res db'. seedRbacForOrg exGen 0 ''org'' exFresh = Some (res, db') \<and> seedRbacForOrg exGen 1 ''org'' db' = Some (noInserts, db')"
proof -
  have "\<forall>it\<in>set (seedPlan ''org''). nameFree exFresh it" by (simp add: nameFree_def exFresh_def)
  from seed_idempotent [OF exFresh_ok(2,3) this, of 0] show ?thesis by auto
qed

end
