(* ===== verification/Spec2Isabelle.thy ===== *)
theory Spec2Isabelle
  imports Rbac_Fixed_Roles Access_Control Kubectl_Allowlist Approval_Routes Plan_Run Leader_Lock Plan_Verification
    Rate_Limiter Notification_Consumer Ops_Confirmations Auth_Middleware
    Folder_Service Role_Service Rbac_Seed
begin

text \<open>
  Rounds is a self-hosted SRE agent: alert rules are evaluated against metrics, a fired alert is
  routed to people and to an agent, the agent proposes remediation plans, people approve them, an
  executor runs their steps against clusters through adapters, and the outcome is verified against
  the alert that started it. Everything is guarded by role-based access control. This library
  models the decisions of that cycle and proves what makes them right. Paths below are relative to
  \<open>src/packages\<close>.

  \<^bold>\<open>Parts, theories and sources\<close>

  \<^item> Shared vocabulary (\<open>Prelude\<close>): JavaScript strings, arrays, sets and JSON values as
    executable functions, and the locale \<open>step_system\<close> (initial states, steps, invariant) that the
    state machines below instantiate.
  \<^item> Access control. \<open>Rbac_Scope\<close> and \<open>Rbac_Evaluator\<close> (\<open>common/src/rbac/scope.ts\<close>,
    \<open>evaluator.ts\<close>): scope strings, coverage, approval scopes, checks and their builder.
    \<open>Rbac_Actions\<close>, \<open>Rbac_Roles\<close>, \<open>Rbac_Fixed_Roles\<close> (\<open>actions.ts\<close>, \<open>roles-def.ts\<close>,
    \<open>fixed-roles-def.ts\<close>): the catalogs as data and the resolution of built-in roles.
    \<open>Folder_Repository\<close> (\<open>data-layer/.../auth/folder-repository.ts\<close>): the folder tree.
    \<open>Rbac_Resolvers\<close> (\<open>api-gateway/src/rbac/resolvers\<close>): widening a scope by its folders.
    \<open>Evaluator_Scan\<close> and \<open>Access_Control\<close> (\<open>accesscontrol-service.ts\<close>,
    \<open>dashboard-acl-service.ts\<close>): the permissions of an identity, the check, the legacy ACL.
    \<open>Folder_Service\<close> (\<open>services/folder-service.ts\<close>): folders with what lies in them, moved and
    deleted as subtrees. \<open>Rbac_Repo\<close> (\<open>data-layer/.../auth\<close>: the role, permission, assignment and
    team repositories): the tables access control reads. \<open>Role_Service\<close> (\<open>services/role-service.ts\<close>,
    \<open>middleware/require-permission.ts\<close>, two routes of \<open>routes/access-control.ts\<close>): custom roles and
    their assignment. \<open>Rbac_Seed\<close> (\<open>data-layer/src/seed/rbac-seed.ts\<close>): the catalogs become rows.
  \<^item> Approvals. \<open>Approval_Repo\<close> (\<open>data-layer/.../memory/approval.ts\<close>): requests with expiry.
    \<open>Approval_Routes\<close> (\<open>api-gateway/src/routes/approval.ts\<close>): the handlers.
    \<open>Approval_Router\<close> (\<open>services/approval-router.ts\<close>): who can approve a request.
  \<^item> Remediation plans. \<open>Plan_Repo\<close> (\<open>sqlite/remediation-plan.ts\<close>), \<open>Plan_Namespaces\<close>
    (\<open>services/plan-namespaces.ts\<close>), \<open>Plan_Executor\<close> and \<open>Plan_Run\<close>
    (\<open>services/plan-executor-service.ts\<close>), \<open>Kubectl_Allowlist\<close>
    (\<open>adapters/src/execution/kubectl-allowlist.ts\<close>), \<open>Plan_Verification\<close>
    (\<open>services/plan-verification-service.ts\<close>).
  \<^item> Alerts. \<open>Alert_Rules\<close> (\<open>sqlite/alert-rule.ts\<close>), \<open>Alert_Evaluator\<close> and \<open>Leader_Lock\<close>
    (\<open>services/alert-evaluator-service.ts\<close>, \<open>leader-lock.ts\<close>).
  \<^item> Notifications. \<open>Notification_Policy\<close> (\<open>sqlite/notification.ts\<close>,
    \<open>notification-routing.ts\<close>), \<open>Notification_Consumer\<close>
    (\<open>services/notification-consumer.ts\<close>, \<open>sqlite/notification-dispatch.ts\<close>,
    \<open>publishing-approval-repository.ts\<close>).
  \<^item> Connectors and chat operations. \<open>Secret_Box\<close> (\<open>server-utils/src/crypto/secret-box.ts\<close>,
    \<open>connector-shared.ts\<close>): the envelope of stored secrets. \<open>Connector_Repo\<close>
    (\<open>sqlite/connector.ts\<close>): connectors, their secrets and policies. \<open>Ops_Policy\<close>
    (\<open>services/ops-policy.ts\<close> and the risk patterns of \<open>ops-command-runner.ts\<close>), \<open>Shell_Gate\<close>
    (the allowlist on shell commands there), \<open>Ops_Command_Runner\<close> (the store of confirmation cards
    and both runs), \<open>Ops_Confirmations\<close> (\<open>routes/ops-command-confirmations.ts\<close> and the process of
    runs, timers and requests).
  \<^item> Authentication. \<open>Account_Repo\<close> (\<open>data-layer/.../auth/user-repository.ts\<close>,
    \<open>org-user-repository.ts\<close>): users and memberships. \<open>Session_Service\<close>
    (\<open>auth/session-service.ts\<close>, \<open>user-auth-token-repository.ts\<close>): session tokens with
    rotation, grace and expiry, logging out and revoking. \<open>Local_Login\<close>
    (\<open>auth/local-provider.ts\<close>): passwords and the lockout. \<open>Api_Keys\<close>
    (\<open>services/apikey-service.ts\<close>, \<open>api-key-repository.ts\<close>): tokens of service accounts and
    people. \<open>Auth_Middleware\<close> (\<open>middleware/auth.ts\<close>): the identity of a request.
  \<^item> \<open>Rate_Limiter\<close> (\<open>middleware/rate-limiter.ts\<close>) stands in front of the API.

  \<^bold>\<open>How code becomes definitions\<close>

  A TypeScript interface is a record and a union of literals a datatype, with the fields and cases
  of the source. A class with state is a record that its operations take and return; an SQL table
  is a list of rows (or an association list by primary key) in the order of insertion. A handler
  that throws returns a sum or an option, and the text of a response stays a value. Clocks, random
  identifiers, metric queries, cluster adapters, notification senders, regular expressions and time
  zones are arguments; where a property needs something of them it is a hypothesis (a sender does
  not turn the clock back, identifiers do not repeat), and its witness instantiates them.

  Where \<open>await\<close> lets other requests in and that matters, an operation is cut in two: a tick of the
  evaluator reads the rule and asks for a sample in \<open>tickBegin\<close> and writes in \<open>tickCommit\<close>, and the
  step relation puts edits, deletion and switching in between. A run that shows a card stops in
  \<open>waitForConfirmationDecision\<close>, and the execute route is cut at its checks, so that a card may
  expire or be decided by someone else in between. The executor, the approval store, the connector
  tables, the replicas around the leader lock and the notification consumer are step relations too.

  \<^bold>\<open>What the lemmas show\<close>

  Access control: scope coverage is a wildcard order, permissions only add, resolution widens and
  never narrows, the built-in roles form a chain, the permissions of an identity are exactly those
  of its roles in its organisation, a check passes exactly when the resolved evaluator or the
  legacy fallback does, folder grants reach exactly what lies below the folder, the folder table
  stays a forest, deleting a folder takes exactly its subtree, moving one keeps the bound on the
  depth, seeding gives every identity exactly what the catalog resolves for it and is idempotent,
  built-in roles never change through the service, assignments give exactly the roles named.
  Approvals: the first decision wins and comes in time, decisions are stored only
  for callers who pass the row check, the router asks exactly those who may decide, and (here)
  whoever is asked can decide. Plans: no step reaches an adapter before its plan is approved,
  approving a plan for automatic execution runs it to its end, writes the allowlist admits stay in
  their namespaces, a verdict is what the sample said, a sweep leaves nothing overdue. Alerts: an
  alert fires only after its condition held for the configured time and does fire when it keeps
  holding, history, counters and events agree, at most one replica holds a live lease.
  Notifications: routes are exactly those the policy tree selects, sends keep the configured
  distance, approvals are announced to teams whose members may decide. Connectors: sealed secrets
  open to themselves and to nothing else, the tables keep their keys and references, policy rows
  have the documented precedence. Chat operations: the gate admits exactly the commands whose every
  readable call is admissible, a command runs without a card only when nothing asks for one, and a
  card leads to one execution of what it shows, decided in time by someone entitled to it.
  Authentication: whatever operations led to the token table, a session token is accepted exactly
  when the history entitles it, a password is accepted exactly for the account it was set for, the
  lockout of one attempt after another is exact, a key authenticates its owner until it expires or is
  revoked and never after, and who signs in is recognised by the cookie of the new session. Rate
  limiter: the window is exact. Several lemmas state where the code departs from its comments.

  \<^bold>\<open>Interfaces\<close>

  \<open>step_system\<close> is interpreted for folders, approvals, the executor, the evaluator, the leader
  lock, the consumer, the connector tables, the confirmation process, accounts, sessions, login
  attempts, revoked keys, the folder service and the role tables; \<open>scope_resolver\<close> and \<open>scope_coverage\<close> state what a check relies on
  in the resolvers and in coverage; \<open>policy_table\<close> states what policy resolution and
  the execute route rely on in the connector policies and is interpreted for the repository;
  \<open>dispatch_contract\<close> states what the consumer relies on in the dispatch table and is interpreted
  for the table.

  \<^bold>\<open>Loops and fuel\<close>

  Loops over lists are structural recursion; the climb to the root of the folder tree ends at
  \<open>FOLDER_MAX_DEPTH\<close>; running a plan recurses on its pending steps, which each pass reduces. The walk over role parents
  has fuel, one more than the number of roles, and is proved to end within it. The tokenizer of
  \<open>Kubectl_Allowlist\<close> may run for ever: it is a partial function, and the strings on which it
  returns are characterised. The collection of descendants ends because the folders not visited yet
  become fewer; the depth of a subtree is measured with fuel, one more than the number of folders, and
  is proved to return on every forest. The gate on shell commands recurses on the levels of nesting left, which
  the source bounds by \<open>MAX_SHELL_NESTING\<close>.

  \<^bold>\<open>Not modelled\<close>

  Logging, tracing, HTTP plumbing and JSON column encoding; failures of the database; characters
  beyond code unit 255; overlapping handlers of the notification consumer; loading of kubeconfigs.
  Whole parts left out: the web interface, the model gateway, adapters (process and network I/O),
  external sign-in (OAuth, SAML, LDAP), the services that maintain organisations, teams, service
  accounts and grants on single resources, the connector routes, the folder routes, the agent loop, chat,
  investigations, dashboards and the Postgres repositories.
\<close>

section \<open>Properties that span components\<close>


definition exParams :: SubmitParams where
  "exParams = \<lparr>sp_action = \<lparr>aa_type = ''plan'', aa_targetService = ''web'', aa_params = [(''planId'', JStr ''p1'')]\<rparr>, sp_context = [],
     sp_ttlMs = Some 1000, sp_opsConnectorId = Some ''c'', sp_targetNamespace = None, sp_requesterTeamId = None\<rparr>"


end
